(* ===== verification/Prelude.thy ===== *)
theory Prelude
  imports Main "HOL-Library.Word"
begin

text \<open>
  Shared vocabulary of the development: the C integer types, the error numbers the
  drivers return, the traps that stand for undefined behaviour or a kernel oops, checked
  access to a byte array, and little-endian storage of integers, with the generic lemmas
  about them that the component theories use.
\<close>

unbundle bit_operations_syntax

section \<open>Integer types and error numbers\<close>

type_synonym u8 = "8 word"
type_synonym u16 = "16 word"
type_synonym u32 = "32 word"
type_synonym u64 = "64 word"

text \<open>Kernel functions return \<open>0\<close> or a negated error number as a C \<open>int\<close>.\<close>

abbreviation (input) EPERM :: int where "EPERM \<equiv> 1"
abbreviation (input) EINTR :: int where "EINTR \<equiv> 4"
abbreviation (input) E2BIG :: int where "E2BIG \<equiv> 7"
abbreviation (input) ENOMEM :: int where "ENOMEM \<equiv> 12"
abbreviation (input) EFAULT :: int where "EFAULT \<equiv> 14"
abbreviation (input) EBUSY :: int where "EBUSY \<equiv> 16"
abbreviation (input) EEXIST :: int where "EEXIST \<equiv> 17"
abbreviation (input) ENODEV :: int where "ENODEV \<equiv> 19"
abbreviation (input) EINVAL :: int where "EINVAL \<equiv> 22"
abbreviation (input) ENOSPC :: int where "ENOSPC \<equiv> 28"

text \<open>Reading words as natural numbers.\<close>

lemma unat_u16_less: "unat (w :: u16) < 65536"
proof -
  have "unat w < 2 ^ LENGTH(16)" by (rule unsigned_less)
  then show ?thesis by simp
qed

lemma unat_of_nat_64: "n < 2 ^ 64 \<Longrightarrow> unat (of_nat n :: u64) = n"
  by (simp add: unat_of_nat take_bit_nat_eq_self)

section \<open>Traps\<close>

text \<open>
  What the C code must not do is a value: an access outside an array, a dereference of a
  null or freed pointer, the use of an uninitialised variable, a failed \<open>BUG_ON\<close>, a
  \<open>kfree\<close> of what was not allocated, a lock taken twice, a shift by the width of the
  operand or more, and a loop that has used up its fuel.
\<close>

datatype trap =
    OutOfBounds
  | NullDeref
  | UseAfterFree
  | Uninitialised
  | BugOn
  | InvalidFree
  | Deadlock
  | BadShift
  | OutOfFuel

type_synonym 'a chk = "trap + 'a"

definition bindE :: "'e + 'a \<Rightarrow> ('a \<Rightarrow> 'e + 'b) \<Rightarrow> 'e + 'b" where
  "bindE m f = (case m of Inl e \<Rightarrow> Inl e | Inr x \<Rightarrow> f x)"

definition assertE :: "'e \<Rightarrow> bool \<Rightarrow> 'e + unit" where
  "assertE e b = (if b then Inr () else Inl e)"

definition derefE :: "trap \<Rightarrow> 'a option \<Rightarrow> 'a chk" where
  "derefE e x = (case x of None \<Rightarrow> Inl e | Some y \<Rightarrow> Inr y)"

lemma bindE_simps [simp]:
  "bindE (Inl e) f = Inl e"
  "bindE (Inr x) f = f x"
  by (simp_all add: bindE_def)

lemma bindE_Inr_iff: "bindE m f = Inr y \<longleftrightarrow> (\<exists>x. m = Inr x \<and> f x = Inr y)"
  by (cases m) simp_all

lemma bindE_Inl_iff:
  "bindE m f = Inl e \<longleftrightarrow> m = Inl e \<or> (\<exists>x. m = Inr x \<and> f x = Inl e)"
  by (cases m) auto

lemma assertE_simps [simp]:
  "assertE e True = Inr ()"
  "assertE e False = Inl e"
  "assertE e b = Inr u \<longleftrightarrow> b"
  "assertE e b = Inl e' \<longleftrightarrow> \<not> b \<and> e' = e"
  by (auto simp: assertE_def)

lemma derefE_simps [simp]:
  "derefE e None = Inl e"
  "derefE e (Some y) = Inr y"
  "derefE e x = Inr y \<longleftrightarrow> x = Some y"
  "derefE e x = Inl e' \<longleftrightarrow> x = None \<and> e' = e"
  by (auto simp: derefE_def split: option.splits)

section \<open>Arrays\<close>

text \<open>An element of an array and an assignment to one, with the bounds checked.\<close>

definition arr_get :: "'a list \<Rightarrow> nat \<Rightarrow> 'a chk" where
  "arr_get xs i = (if i < length xs then Inr (xs ! i) else Inl OutOfBounds)"

definition arr_set :: "'a list \<Rightarrow> nat \<Rightarrow> 'a \<Rightarrow> 'a list chk" where
  "arr_set xs i x = (if i < length xs then Inr (xs[i := x]) else Inl OutOfBounds)"

lemma arr_get_ok [simp]: "i < length xs \<Longrightarrow> arr_get xs i = Inr (xs ! i)"
  by (simp add: arr_get_def)

lemma arr_set_ok [simp]: "i < length xs \<Longrightarrow> arr_set xs i x = Inr (xs[i := x])"
  by (simp add: arr_set_def)

lemma arr_get_Inr_iff: "arr_get xs i = Inr x \<longleftrightarrow> i < length xs \<and> x = xs ! i"
  by (auto simp: arr_get_def)

lemma arr_set_Inr_iff: "arr_set xs i x = Inr ys \<longleftrightarrow> i < length xs \<and> ys = xs[i := x]"
  by (auto simp: arr_set_def)

section \<open>Byte arrays\<close>

text \<open>\<open>memcpy\<close> out of and into an allocated array, with its bounds checked.\<close>

definition mem_read :: "'a list \<Rightarrow> nat \<Rightarrow> nat \<Rightarrow> 'a list chk" where
  "mem_read buf off n =
     (if off + n \<le> length buf then Inr (take n (drop off buf)) else Inl OutOfBounds)"

definition mem_write :: "'a list \<Rightarrow> nat \<Rightarrow> 'a list \<Rightarrow> 'a list chk" where
  "mem_write buf off xs =
     (if off + length xs \<le> length buf
      then Inr (take off buf @ xs @ drop (off + length xs) buf) else Inl OutOfBounds)"

lemma mem_read_ok: "off + n \<le> length buf \<Longrightarrow> mem_read buf off n = Inr (take n (drop off buf))"
  by (simp add: mem_read_def)

lemma mem_write_ok:
  "off + length xs \<le> length buf \<Longrightarrow>
   mem_write buf off xs = Inr (take off buf @ xs @ drop (off + length xs) buf)"
  by (simp add: mem_write_def)

lemma mem_read_Inr_iff:
  "mem_read buf off n = Inr ys \<longleftrightarrow> off + n \<le> length buf \<and> ys = take n (drop off buf)"
  by (auto simp: mem_read_def)

lemma mem_write_Inr_iff:
  "mem_write buf off xs = Inr buf' \<longleftrightarrow>
   off + length xs \<le> length buf \<and> buf' = take off buf @ xs @ drop (off + length xs) buf"
  by (auto simp: mem_write_def)

lemma length_mem_write: "mem_write buf off xs = Inr buf' \<Longrightarrow> length buf' = length buf"
  by (auto simp: mem_write_Inr_iff)

lemma nth_mem_write:
  assumes "mem_write buf off xs = Inr buf'" and "i < length buf"
  shows "buf' ! i = (if off \<le> i \<and> i < off + length xs then xs ! (i - off) else buf ! i)"
  using assms by (auto simp: mem_write_Inr_iff nth_append min_def)

section \<open>Little-endian storage\<close>

primrec le_bytes :: "nat \<Rightarrow> 'a::len word \<Rightarrow> u8 list" where
  "le_bytes 0 w = []"
| "le_bytes (Suc n) w = ucast w # le_bytes n (drop_bit 8 w)"

primrec le_word :: "u8 list \<Rightarrow> 'a::len word" where
  "le_word [] = 0"
| "le_word (b # bs) = ucast b OR push_bit 8 (le_word bs)"

lemma length_le_bytes [simp]: "length (le_bytes n w) = n"
  by (induction n arbitrary: w) simp_all

lemma le_word_le_bytes_take_bit:
  "le_word (le_bytes n (w :: 'a::len word)) = take_bit (8 * n) w"
proof (induction n arbitrary: w)
  case 0
  then show ?case by simp
next
  case (Suc n)
  show ?case
    by (simp add: Suc.IH)
      (rule bit_word_eqI, auto simp: bit_simps Suc.IH)
qed

lemma le_word_le_bytes:
  fixes w :: "'a::len word"
  shows "LENGTH('a) \<le> 8 * n \<Longrightarrow> le_word (le_bytes n w) = w"
  by (simp add: le_word_le_bytes_take_bit take_bit_word_eq_self)

lemma le_bytes_le_word:
  assumes "length bs = n" and "8 * n \<le> LENGTH('a)"
  shows "le_bytes n (le_word bs :: 'a::len word) = bs"
  using assms
proof (induction bs arbitrary: n)
  case Nil
  then show ?case by simp
next
  case (Cons b bs)
  then obtain m where n: "n = Suc m" and m: "length bs = m" "8 * m + 8 \<le> LENGTH('a)"
    by auto
  have hd: "ucast (ucast b OR push_bit 8 (le_word bs :: 'a word)) = b"
    by (rule bit_word_eqI) (use m in \<open>auto simp: bit_simps\<close>)
  have bits: "\<not> bit (le_word bs :: 'a word) i" if "8 * m \<le> i" for i
    using m(1) that
  proof (induction bs arbitrary: m i)
    case Nil
    then show ?case by simp
  next
    case (Cons c cs)
    then obtain k where "m = Suc k" "length cs = k" by auto
    with Cons.prems Cons.IH [of k "i - 8"] show ?case
      by (auto simp: bit_simps dest: bit_imp_le_length)
  qed
  have tl: "drop_bit 8 (ucast b OR push_bit 8 (le_word bs) :: 'a word) = le_word bs"
  proof (rule bit_word_eqI)
    fix i
    assume "i < LENGTH('a)"
    with m bits [of i] show
      "bit (drop_bit 8 (ucast b OR push_bit 8 (le_word bs) :: 'a word)) i = bit (le_word bs :: 'a word) i"
      by (cases "i + 8 < LENGTH('a)") (auto simp: bit_simps dest: bit_imp_le_length)
  qed
  from Cons.IH [OF m(1)] m(2) have "le_bytes m (le_word bs :: 'a word) = bs" by simp
  then show ?case by (simp add: n hd tl del: drop_bit_or)
qed

section \<open>Rings\<close>

text \<open>The \<open>n\<close> bytes of a ring buffer that start at offset \<open>off\<close>.\<close>

definition ring_slice :: "u8 list \<Rightarrow> nat \<Rightarrow> nat \<Rightarrow> u8 list" where
  "ring_slice buf off n = map (\<lambda>i. buf ! ((off + i) mod length buf)) [0..<n]"

lemma length_ring_slice [simp]: "length (ring_slice buf off n) = n"
  by (simp add: ring_slice_def)

lemma ring_slice_0 [simp]: "ring_slice buf off 0 = []"
  by (simp add: ring_slice_def)

lemma nth_ring_slice [simp]:
  "i < n \<Longrightarrow> ring_slice buf off n ! i = buf ! ((off + i) mod length buf)"
  by (simp add: ring_slice_def)

lemma ring_slice_append:
  "ring_slice buf off (m + n) =
   ring_slice buf off m @ ring_slice buf ((off + m) mod length buf) n"
proof (rule nth_equalityI)
  fix i
  assume i: "i < length (ring_slice buf off (m + n))"
  have "((off + m) mod length buf + (i - m)) mod length buf = (off + i) mod length buf" if "m \<le> i"
    using that mod_add_left_eq [of "off + m" "length buf" "i - m"] by (simp only: ab_semigroup_add_class.add_ac(1)) simp
  with i show "ring_slice buf off (m + n) ! i =
    (ring_slice buf off m @ ring_slice buf ((off + m) mod length buf) n) ! i"
    by (auto simp: nth_append)
qed simp

lemma ring_slice_no_wrap:
  assumes "off + n \<le> length buf"
  shows "ring_slice buf off n = take n (drop off buf)"
  by (rule nth_equalityI) (use assms in auto)

lemma ring_slice_wrap:
  assumes "off < length buf" "length buf \<le> off + n" "n \<le> length buf"
  shows "ring_slice buf off n =
    take (length buf - off) (drop off buf) @ take (n - (length buf - off)) buf"
proof (rule nth_equalityI)
  show "length (ring_slice buf off n) =
    length (take (length buf - off) (drop off buf) @ take (n - (length buf - off)) buf)"
    using assms by auto
next
  fix i
  assume "i < length (ring_slice buf off n)"
  then have i: "i < n" by simp
  show "ring_slice buf off n ! i =
    (take (length buf - off) (drop off buf) @ take (n - (length buf - off)) buf) ! i"
  proof (cases "i < length buf - off")
    case True
    with assms i show ?thesis by (simp add: nth_append)
  next
    case False
    with assms i have "off + i - length buf < length buf" "length buf \<le> off + i"
      "off + i - length buf = i - (length buf - off)" by auto
    then have "(off + i) mod length buf = i - (length buf - off)"
      by (simp add: le_mod_geq)
    with assms i False show ?thesis by (simp add: nth_append)
  qed
qed

text \<open>
  The interface of a ring of bytes: \<open>put\<close> stores a byte string at an offset, going round
  at the end, \<open>slice\<close> reads one, \<open>cap\<close> is the size. What a writer and its readers rely
  on is that a slice of what was stored is the string stored, and that bytes outside the
  stored region keep their value.
\<close>

locale ring_store =
  fixes put :: "'b \<Rightarrow> nat \<Rightarrow> u8 list \<Rightarrow> 'b"
    and slice :: "'b \<Rightarrow> nat \<Rightarrow> nat \<Rightarrow> u8 list"
    and cap :: "'b \<Rightarrow> nat"
  assumes cap_put: "cap (put b off xs) = cap b"
    and length_slice: "length (slice b off n) = n"
    and slice_append: "slice b off (m + n) = slice b off m @ slice b ((off + m) mod cap b) n"
    and slice_put_self: "off < cap b \<Longrightarrow> length xs \<le> cap b \<Longrightarrow> slice (put b off xs) off (length xs) = xs"
    and slice_put_other: "off < cap b \<Longrightarrow> length xs \<le> d \<Longrightarrow> d + n \<le> cap b \<Longrightarrow>
      slice (put b off xs) ((off + d) mod cap b) n = slice b ((off + d) mod cap b) n"
begin

text \<open>Appending behind \<open>ys\<close>: the region read from \<open>off\<close> grows by what is stored.\<close>

lemma slice_put_snoc:
  assumes off: "off < cap b" and ys: "slice b off n = ys" and fits: "n + length xs \<le> cap b"
  shows "slice (put b ((off + n) mod cap b) xs) off (n + length xs) = ys @ xs"
proof -
  let ?w = "(off + n) mod cap b"
  have w: "?w < cap b" using off by (intro mod_less_divisor) auto
  have "(?w + (cap b - n)) mod cap b = (off + n + (cap b - n)) mod cap b"
    by (simp only: mod_add_left_eq)
  also have "\<dots> = off" using fits off by simp
  finally have home: "(?w + (cap b - n)) mod cap b = off" .
  have "length xs \<le> cap b - n" "cap b - n + n \<le> cap b" using fits by simp_all
  from slice_put_other [OF w this] have "slice (put b ?w xs) off n = slice b off n"
    by (simp only: home)
  then show ?thesis
    using slice_append [of "put b ?w xs" off n "length xs"] slice_put_self [OF w, of xs] fits ys
    by (simp add: cap_put)
qed

text \<open>Taking the first string off: what is left is read from the offset behind it.\<close>

lemma slice_pop:
  assumes "slice b off (length xs + n) = xs @ ys"
  shows "slice b off (length xs) = xs" and "slice b ((off + length xs) mod cap b) n = ys"
  using assms by (simp_all add: slice_append length_slice)

end

section \<open>Reachable states\<close>

text \<open>
  States reached from an initial one by the steps of a component, and the contract under
  which an invariant holds in all of them.
\<close>

inductive reachable :: "('s \<Rightarrow> bool) \<Rightarrow> ('s \<Rightarrow> 's \<Rightarrow> bool) \<Rightarrow> 's \<Rightarrow> bool"
  for init :: "'s \<Rightarrow> bool" and step :: "'s \<Rightarrow> 's \<Rightarrow> bool" where
  reach_init: "init s \<Longrightarrow> reachable init step s"
| reach_step: "reachable init step s \<Longrightarrow> step s t \<Longrightarrow> reachable init step t"

locale invariant_system =
  fixes init :: "'s \<Rightarrow> bool" and step :: "'s \<Rightarrow> 's \<Rightarrow> bool" and inv :: "'s \<Rightarrow> bool"
  assumes init_inv: "init s \<Longrightarrow> inv s"
    and step_inv: "step s t \<Longrightarrow> inv s \<Longrightarrow> inv t"
begin

lemma reachable_inv: "reachable init step s \<Longrightarrow> inv s"
  by (induction rule: reachable.induct) (blast intro: init_inv step_inv)+

end

end
