(* ===== verification/Logger_Entry.thy ===== *)
theory Logger_Entry
  imports Prelude
begin

text \<open>
  \<open>struct logger_entry\<close> of \<open>logger.h\<close> and its byte image in the ring buffer. The struct
  has no padding: two 16-bit fields and seven 32-bit fields, 32 bytes, little-endian on
  the x86 targets the build files name. \<open>kuid_t\<close> wraps one 32-bit \<open>uid_t\<close>.
\<close>

record logger_entry =
  le_len :: u16
  le_hdr_size :: u16
  le_pid :: u32
  le_tid :: u32
  le_sec :: u32
  le_nsec :: u32
  le_real_sec :: u32
  le_real_nsec :: u32
  le_euid :: u32

text \<open>\<open>sizeof(struct logger_entry)\<close>, a \<open>size_t\<close>.\<close>

abbreviation SIZEOF_ENTRY :: u64 where "SIZEOF_ENTRY \<equiv> 32"

abbreviation LOGGER_ENTRY_MAX_PAYLOAD :: u64 where "LOGGER_ENTRY_MAX_PAYLOAD \<equiv> 4096"

definition entry_bytes :: "logger_entry \<Rightarrow> u8 list" where
  "entry_bytes e =
     le_bytes 2 (le_len e) @ le_bytes 2 (le_hdr_size e) @
     le_bytes 4 (le_pid e) @ le_bytes 4 (le_tid e) @
     le_bytes 4 (le_sec e) @ le_bytes 4 (le_nsec e) @
     le_bytes 4 (le_real_sec e) @ le_bytes 4 (le_real_nsec e) @
     le_bytes 4 (le_euid e)"

definition entry_of_bytes :: "u8 list \<Rightarrow> logger_entry" where
  "entry_of_bytes bs =
     \<lparr>le_len = le_word (take 2 bs),
      le_hdr_size = le_word (take 2 (drop 2 bs)),
      le_pid = le_word (take 4 (drop 4 bs)),
      le_tid = le_word (take 4 (drop 8 bs)),
      le_sec = le_word (take 4 (drop 12 bs)),
      le_nsec = le_word (take 4 (drop 16 bs)),
      le_real_sec = le_word (take 4 (drop 20 bs)),
      le_real_nsec = le_word (take 4 (drop 24 bs)),
      le_euid = le_word (take 4 (drop 28 bs))\<rparr>"

lemma length_entry_bytes [simp]: "length (entry_bytes e) = 32"
  by (simp add: entry_bytes_def)

lemma entry_bytes_not_Nil [simp]: "entry_bytes e \<noteq> []"
  by (simp flip: length_greater_0_conv)

lemma entry_of_bytes_entry_bytes [simp]: "entry_of_bytes (entry_bytes e) = e"
  by (simp add: entry_of_bytes_def entry_bytes_def le_word_le_bytes)

lemma entry_bytes_inject [simp]: "entry_bytes e = entry_bytes e' \<longleftrightarrow> e = e'"
  by (metis entry_of_bytes_entry_bytes)

lemma entry_bytes_entry_of_bytes:
  assumes "length bs = 32"
  shows "entry_bytes (entry_of_bytes bs) = bs"
proof -
  have "entry_bytes (entry_of_bytes bs) =
    take 2 bs @ take 2 (drop 2 bs) @ take 4 (drop 4 bs) @ take 4 (drop 8 bs) @
    take 4 (drop 12 bs) @ take 4 (drop 16 bs) @ take 4 (drop 20 bs) @
    take 4 (drop 24 bs) @ take 4 (drop 28 bs)"
    using assms by (simp add: entry_of_bytes_def entry_bytes_def le_bytes_le_word)
  also have "\<dots> = bs"
  proof -
    have split: "drop k bs = take m (drop k bs) @ drop (k + m) bs" for k m
      by (metis append_take_drop_id drop_drop add.commute)
    show ?thesis
      using split [of 0 2] split [of 2 2] split [of 4 4] split [of 8 4] split [of 12 4]
        split [of 16 4] split [of 20 4] split [of 24 4] assms
      by simp
  qed
  finally show ?thesis .
qed

end
