(* ===== verification/Logger.thy ===== *)
theory Logger
  imports Logger_Entry
begin

text \<open>
  The ring buffer of one log device, \<open>common/drivers/staging/log/logger.c\<close>: the
  \<open>struct logger_log\<close> and the functions that read and write its buffer. \<open>size_t\<close> is
  a 64-bit word. Every \<open>memcpy\<close> is checked against the buffer, so that an access
  outside it is the trap \<open>OutOfBounds\<close>.
\<close>

section \<open>State\<close>

text \<open>
  \<open>log_readers\<close> is the list of the addresses of the readers; \<open>wq\<close> and \<open>mutex\<close> have no
  data: each operation below runs with the mutex held, as in the source.
\<close>

record logger_log =
  log_buffer :: "u8 list"
  log_minor :: int
  log_name :: string
  log_readers :: "nat list"
  log_w_off :: u64
  log_head :: u64
  log_size :: u64

record logger_reader =
  r_log :: nat
  r_off :: u64
  r_all :: bool
  r_ver :: int

section \<open>Offsets and entry headers\<close>

definition logger_offset :: "logger_log \<Rightarrow> u64 \<Rightarrow> u64" where
  "logger_offset log n = n AND (log_size log - 1)"

definition get_user_hdr_len :: "int \<Rightarrow> u64" where
  "get_user_hdr_len ver = SIZEOF_ENTRY"

definition get_entry_header :: "logger_log \<Rightarrow> u64 \<Rightarrow> logger_entry chk" where
  "get_entry_header log off =
     (let len = min SIZEOF_ENTRY (log_size log - off) in
      if len \<noteq> SIZEOF_ENTRY then
        bindE (mem_read (log_buffer log) (unat off) (unat len)) (\<lambda>a.
        bindE (mem_read (log_buffer log) 0 (unat (SIZEOF_ENTRY - len))) (\<lambda>b.
        Inr (entry_of_bytes (a @ b))))
      else
        bindE (mem_read (log_buffer log) (unat off) (unat SIZEOF_ENTRY)) (\<lambda>a.
        Inr (entry_of_bytes a)))"

text \<open>
  The \<open>while\<close> loop takes fuel, one unit per test of its condition. Note the offset of
  the next entry, which the code computes without adding \<open>off\<close>.
\<close>

fun get_next_entry_by_uid :: "nat \<Rightarrow> logger_log \<Rightarrow> u64 \<Rightarrow> u32 \<Rightarrow> u64 chk" where
  "get_next_entry_by_uid 0 log off euid = Inl OutOfFuel"
| "get_next_entry_by_uid (Suc fuel) log off euid =
     (if log_w_off log \<noteq> off then
        bindE (get_entry_header log off) (\<lambda>entry.
          if le_euid entry = euid then Inr off
          else get_next_entry_by_uid fuel log
                 (logger_offset log (SIZEOF_ENTRY + ucast (le_len entry))) euid)
      else Inr off)"

definition get_entry_msg_len :: "logger_log \<Rightarrow> u64 \<Rightarrow> u32 chk" where
  "get_entry_msg_len log off =
     bindE (get_entry_header log off) (\<lambda>entry. Inr (ucast (le_len entry)))"

section \<open>Reading\<close>

text \<open>
  \<open>copy_to_user\<close> is the kernel's: \<open>ctu dst bytes\<close> is its result, the number of bytes
  that could not be copied to the user address \<open>dst\<close>. What a call hands over is
  recorded as a pair of the address and the bytes.
\<close>

type_synonym ctu = "u64 \<Rightarrow> u8 list \<Rightarrow> u64"
type_synonym chunks = "(u64 \<times> u8 list) list"

definition copy_header_to_user :: "ctu \<Rightarrow> int \<Rightarrow> logger_entry \<Rightarrow> u64 \<Rightarrow> u64 \<times> chunks" where
  "copy_header_to_user ctu ver entry buf =
     (let hdr = take (unat (get_user_hdr_len ver)) (entry_bytes entry)
      in (ctu buf hdr, [(buf, hdr)]))"

text \<open>
  The result is the value the function returns, the reader it leaves and the chunks it
  copied to the user.
\<close>

definition do_read_log_to_user ::
  "ctu \<Rightarrow> logger_log \<Rightarrow> logger_reader \<Rightarrow> u64 \<Rightarrow> u64 \<Rightarrow> (int \<times> logger_reader \<times> chunks) chk" where
  "do_read_log_to_user ctu log reader buf count =
     bindE (get_entry_header log (r_off reader)) (\<lambda>entry.
     let (left, out1) = copy_header_to_user ctu (r_ver reader) entry buf in
     if left \<noteq> 0 then Inr (- EFAULT, reader, out1)
     else
       let count = count - get_user_hdr_len (r_ver reader);
           buf = buf + get_user_hdr_len (r_ver reader);
           msg_start = logger_offset log (r_off reader + SIZEOF_ENTRY);
           len = min count (log_size log - msg_start)
       in bindE (mem_read (log_buffer log) (unat msg_start) (unat len)) (\<lambda>a.
          if ctu buf a \<noteq> 0 then Inr (- EFAULT, reader, out1 @ [(buf, a)])
          else
            let reader' = reader\<lparr>r_off := logger_offset log (r_off reader + SIZEOF_ENTRY + count)\<rparr>;
                ret = int (unat (get_user_hdr_len (r_ver reader) + count))
            in if count \<noteq> len then
                 bindE (mem_read (log_buffer log) 0 (unat (count - len))) (\<lambda>b.
                 let out = out1 @ [(buf, a), (buf + len, b)] in
                 if ctu (buf + len) b \<noteq> 0 then Inr (- EFAULT, reader, out)
                 else Inr (ret, reader', out))
               else Inr (ret, reader', out1 @ [(buf, a)])))"

text \<open>
  \<open>logger_read\<close> takes the mutex several times and sleeps in between, so it sees the log
  as other threads leave it. \<open>snaps\<close> lists what it sees: for each time it takes the
  mutex, the log then and whether a signal is pending after; \<open>Blocked\<close> is a call that
  still sleeps when the list ends, with the reader as it is by then. \<open>locked = False\<close> is the waiting loop at label
  \<open>start\<close>, \<open>locked = True\<close> the section after it.
\<close>

datatype read_outcome =
    Blocked logger_reader
  | Returned int logger_reader chunks

fun logger_read ::
  "nat \<Rightarrow> ctu \<Rightarrow> bool \<Rightarrow> u32 \<Rightarrow> u64 \<Rightarrow> u64 \<Rightarrow> bool \<Rightarrow> logger_reader \<Rightarrow>
   (logger_log \<times> bool) list \<Rightarrow> read_outcome chk" where
  "logger_read fuel ctu nonblock euid buf count locked reader [] = Inr (Blocked reader)"
| "logger_read fuel ctu nonblock euid buf count False reader ((log, signal) # snaps) =
     (if log_w_off log \<noteq> r_off reader then
        logger_read fuel ctu nonblock euid buf count True reader snaps
      else if nonblock then Inr (Returned (- EINTR) reader [])
      else if signal then Inr (Returned (- EINTR) reader [])
      else logger_read fuel ctu nonblock euid buf count False reader snaps)"
| "logger_read fuel ctu nonblock euid buf count True reader ((log, signal) # snaps) =
     bindE (if r_all reader then Inr (r_off reader)
            else get_next_entry_by_uid fuel log (r_off reader) euid) (\<lambda>off.
     let reader = reader\<lparr>r_off := off\<rparr> in
     if log_w_off log = r_off reader then
       logger_read fuel ctu nonblock euid buf count False reader snaps
     else
       bindE (get_entry_msg_len log (r_off reader)) (\<lambda>msg_len.
       let ret = get_user_hdr_len (r_ver reader) + ucast msg_len in
       if count < ret then Inr (Returned (- EINVAL) reader [])
       else bindE (do_read_log_to_user ctu log reader buf ret) (\<lambda>(ret, reader, out).
            Inr (Returned ret reader out))))"

section \<open>Writing\<close>

text \<open>
  What \<open>logger_write_iter\<close> reads from the running task and the clocks. \<open>ktime_t\<close> counts
  nanoseconds in 64 bits; \<open>do_div\<close> divides it in place, unsigned, and returns the
  remainder.
\<close>

record write_env =
  cur_tgid :: u32
  cur_pid :: u32
  cur_euid :: u32
  ktime_now :: u64
  ktime_real_now :: u64

definition do_div :: "u64 \<Rightarrow> u64 \<Rightarrow> u64 \<times> u32" where
  "do_div n base = (n div base, ucast (n mod base))"

definition write_count :: "u8 list \<Rightarrow> u64" where
  "write_count data = min (of_nat (length data)) LOGGER_ENTRY_MAX_PAYLOAD"

definition write_header :: "write_env \<Rightarrow> u64 \<Rightarrow> logger_entry" where
  "write_header env count =
     (let (now, nsec) = do_div (ktime_now env) 1000000000;
          (real_now, real_nsec) = do_div (ktime_real_now env) 1000000000
      in \<lparr>le_len = ucast count,
          le_hdr_size = ucast SIZEOF_ENTRY,
          le_pid = cur_tgid env,
          le_tid = cur_pid env,
          le_sec = ucast now,
          le_nsec = nsec,
          le_real_sec = ucast real_now,
          le_real_nsec = real_nsec,
          le_euid = cur_euid env\<rparr>)"

text \<open>
  \<open>copy_from_iter\<close> is the kernel's: \<open>cfi rest n\<close> are the bytes it delivers when \<open>n\<close> are
  asked for and \<open>rest\<close> is left in the iterator; their number is its return value.
\<close>

type_synonym cfi = "u8 list \<Rightarrow> nat \<Rightarrow> u8 list"

text \<open>
  The part of \<open>logger_write_iter\<close> that fills the ring, up to the new \<open>w_off\<close>: \<open>None\<close> is
  the early return of \<open>-EFAULT\<close>, with the header written and \<open>w_off\<close> as it was; \<open>Some\<close>
  gives the local variables \<open>w_off\<close> and \<open>len\<close>.
\<close>

definition logger_write_ring ::
  "cfi \<Rightarrow> logger_entry \<Rightarrow> logger_log \<Rightarrow> u8 list \<Rightarrow> u64 \<Rightarrow> ((u64 \<times> u64) option \<times> logger_log) chk" where
  "logger_write_ring cfi header log data count =
     (let len = min SIZEOF_ENTRY (log_size log - log_w_off log);
          hdr = entry_bytes header
      in bindE (mem_write (log_buffer log) (unat (log_w_off log)) (take (unat len) hdr)) (\<lambda>buf1.
         bindE (mem_write buf1 0 (drop (unat len) hdr)) (\<lambda>buf2.
         let w_off = logger_offset log (log_w_off log + SIZEOF_ENTRY);
             len = min count (log_size log - w_off);
             got1 = cfi data (unat len)
         in bindE (mem_write buf2 (unat w_off) got1) (\<lambda>buf3.
            if length got1 \<noteq> unat len then Inr (None, log\<lparr>log_buffer := buf3\<rparr>)
            else
              let got2 = cfi (drop (length got1) data) (unat (count - len))
              in bindE (mem_write buf3 0 got2) (\<lambda>buf4.
                 if length got2 \<noteq> unat (count - len) then Inr (None, log\<lparr>log_buffer := buf4\<rparr>)
                 else Inr (Some (w_off, len),
                        log\<lparr>log_buffer := buf4, log_w_off := logger_offset log (w_off + count)\<rparr>))))))"

text \<open>
  The whole handler. The copy for the debug message, \<open>memcpy(str, log->buffer + w_off,
  count)\<close>, is made on every call, into \<open>vzalloc(count + 1)\<close>, whose result is not
  checked (\<open>vz\<close> says whether the allocation succeeds). The value returned is \<open>len\<close>.
\<close>

definition logger_write_iter ::
  "write_env \<Rightarrow> cfi \<Rightarrow> bool \<Rightarrow> logger_log \<Rightarrow> u8 list \<Rightarrow> (int \<times> logger_log) chk" where
  "logger_write_iter env cfi vz log data =
     (let count = write_count data;
          header = write_header env count
      in if le_len header = 0 then Inr (0, log)
         else bindE (logger_write_ring cfi header log data count) (\<lambda>(r, log').
           case r of
             None \<Rightarrow> Inr (- EFAULT, log')
           | Some (w_off, len) \<Rightarrow>
               bindE (assertE NullDeref vz) (\<lambda>_.
               bindE (mem_read (log_buffer log') (unat w_off) (unat count)) (\<lambda>str.
               Inr (int (unat len), log')))))"

section \<open>Moving readers out of the way\<close>

text \<open>
  \<open>get_next_entry\<close>, a \<open>do\<close>--\<open>while\<close> loop with one unit of fuel per turn, \<open>is_between\<close>
  and \<open>fix_up_readers\<close>. The call of \<open>fix_up_readers\<close> in \<open>logger_write_iter\<close> is commented
  out in the source.
\<close>

fun get_next_entry_loop :: "nat \<Rightarrow> logger_log \<Rightarrow> u64 \<Rightarrow> u64 \<Rightarrow> u64 \<Rightarrow> u64 chk" where
  "get_next_entry_loop 0 log off count len = Inl OutOfFuel"
| "get_next_entry_loop (Suc fuel) log off count len =
     bindE (get_entry_msg_len log off) (\<lambda>msg_len.
     let nr = SIZEOF_ENTRY + ucast msg_len;
         off = logger_offset log (off + nr);
         count = count + nr
     in if count < len then get_next_entry_loop fuel log off count len else Inr off)"

definition get_next_entry :: "nat \<Rightarrow> logger_log \<Rightarrow> u64 \<Rightarrow> u64 \<Rightarrow> u64 chk" where
  "get_next_entry fuel log off len = get_next_entry_loop fuel log off 0 len"

definition is_between :: "u64 \<Rightarrow> u64 \<Rightarrow> u64 \<Rightarrow> bool" where
  "is_between a b c =
     (if a < b then (if a < c \<and> c \<le> b then True else False)
      else (if c \<le> b \<or> a < c then True else False))"

text \<open>The loop over \<open>log->readers\<close>; the readers live in a store indexed by address.\<close>

fun fix_up_reader_list ::
  "nat \<Rightarrow> logger_log \<Rightarrow> u64 \<Rightarrow> u64 \<Rightarrow> u64 \<Rightarrow> nat list \<Rightarrow> (nat \<Rightarrow> logger_reader option) \<Rightarrow>
   (nat \<Rightarrow> logger_reader option) chk" where
  "fix_up_reader_list fuel log old new len [] store = Inr store"
| "fix_up_reader_list fuel log old new len (r # rs) store =
     bindE (derefE UseAfterFree (store r)) (\<lambda>reader.
     if is_between old new (r_off reader) then
       bindE (get_next_entry fuel log (r_off reader) len) (\<lambda>off.
       fix_up_reader_list fuel log old new len rs (store(r \<mapsto> reader\<lparr>r_off := off\<rparr>)))
     else fix_up_reader_list fuel log old new len rs store)"

definition fix_up_readers ::
  "nat \<Rightarrow> logger_log \<Rightarrow> (nat \<Rightarrow> logger_reader option) \<Rightarrow> u64 \<Rightarrow>
   (logger_log \<times> (nat \<Rightarrow> logger_reader option)) chk" where
  "fix_up_readers fuel log store len =
     (let old = log_w_off log;
          new = logger_offset log (old + len)
      in bindE (if is_between old new (log_head log)
                then bindE (get_next_entry fuel log (log_head log) len) (\<lambda>h. Inr (log\<lparr>log_head := h\<rparr>))
                else Inr log) (\<lambda>log.
         bindE (fix_up_reader_list fuel log old new len (log_readers log) store) (\<lambda>store.
         Inr (log, store))))"

end
