(* ===== verification/Logger_Ring.thy ===== *)
theory Logger_Ring
  imports Logger
begin

text \<open>
  The invariant of one log and what its buffer operations do under it: offsets are taken
  modulo the size of the ring, headers are read and records written across the end of
  the array, and nothing leaves the array.
\<close>

section \<open>Invariant\<close>

text \<open>
  The sizes \<open>logger_init\<close> uses are powers of two; every offset is inside the buffer. The
  bound \<open>2 ^ 30\<close> keeps sums of offsets away from the width of \<open>size_t\<close>.
\<close>

definition ring_size_ok :: "u64 \<Rightarrow> bool" where
  "ring_size_ok s = list_ex (\<lambda>k. s = push_bit k 1) [6..<31]"

definition log_wf :: "logger_log \<Rightarrow> bool" where
  "log_wf log \<longleftrightarrow>
     ring_size_ok (log_size log) \<and>
     length (log_buffer log) = unat (log_size log) \<and>
     log_w_off log < log_size log \<and>
     log_head log < log_size log"

named_theorems ring_simps

lemma ring_size_okE:
  assumes "ring_size_ok s"
  obtains k where "6 \<le> k" "k \<le> 30" "s = 2 ^ k" "unat s = 2 ^ k"
proof -
  from assms obtain k where k: "6 \<le> k" "k \<le> 30" "s = push_bit k 1"
    unfolding ring_size_ok_def list_ex_iff set_upt by auto
  moreover have "unat (of_nat (2 ^ k) :: u64) = 2 ^ k"
    using k(2) power_increasing [of k 30 "2 :: nat"] by (subst unat_of_nat) simp
  then have "unat s = 2 ^ k"
    using k(3) by (simp add: push_bit_eq_mult)
  ultimately show thesis
    using that by (simp add: push_bit_eq_mult)
qed

lemma ring_size_bounds:
  assumes "ring_size_ok s"
  shows "64 \<le> unat s" "unat s \<le> 2 ^ 30" "s \<noteq> 0" "SIZEOF_ENTRY < s"
proof -
  obtain k where k: "6 \<le> k" "k \<le> 30" "unat s = 2 ^ k"
    using assms by (rule ring_size_okE)
  show lo: "64 \<le> unat s"
    using power_increasing [OF k(1), of "2 :: nat"] by (simp add: k(3))
  show "unat s \<le> 2 ^ 30"
    using power_increasing [OF k(2), of "2 :: nat"] by (simp add: k(3))
  show "s \<noteq> 0" using lo by auto
  show "SIZEOF_ENTRY < s" using lo by (simp add: word_less_nat_alt)
qed

lemma unat_and_mask:
  assumes "ring_size_ok s"
  shows "unat (n AND (s - 1)) = unat n mod unat s"
proof -
  obtain k where k: "s = 2 ^ k" "unat s = 2 ^ k"
    using assms by (rule ring_size_okE)
  have "n AND (s - 1) = take_bit k n"
    by (simp add: k(1) mask_eq_exp_minus_1 [symmetric] take_bit_eq_mask)
  then have "unat (n AND (s - 1)) = take_bit k (unat n)"
    by (simp only: unsigned_take_bit_eq)
  then show ?thesis
    by (simp only: k(2) take_bit_eq_mod)
qed

lemma unat_logger_offset:
  "log_wf log \<Longrightarrow> unat (logger_offset log n) = unat n mod unat (log_size log)"
  by (simp add: logger_offset_def log_wf_def unat_and_mask)

lemma logger_offset_less [ring_simps]:
  "log_wf log \<Longrightarrow> logger_offset log n < log_size log"
  using ring_size_bounds(1) [of "log_size log"]
  by (simp add: word_less_nat_alt unat_logger_offset log_wf_def)

lemma unat_add_small:
  "unat (a :: u64) + unat b < 2 ^ 64 \<Longrightarrow> unat (a + b) = unat a + unat b"
  by (simp add: unat_word_ariths)

lemma unat_min: "unat (min a b :: u64) = min (unat a) (unat b)"
  by (simp add: min_def word_le_nat_alt)

text \<open>The facts about a well-formed log the proofs below start from.\<close>

lemma log_wfD:
  assumes "log_wf log"
  shows "length (log_buffer log) = unat (log_size log)"
    and "64 \<le> unat (log_size log)" and "unat (log_size log) \<le> 2 ^ 30"
    and "unat (log_w_off log) < unat (log_size log)"
    and "unat (log_head log) < unat (log_size log)"
  using assms ring_size_bounds [of "log_size log"]
  by (simp_all add: log_wf_def word_less_nat_alt)

lemma log_wf_w_off: "log_wf log \<Longrightarrow> log_w_off log < log_size log"
  by (simp add: log_wf_def)

lemma unat_log_sub:
  assumes "log_wf log" and "off < log_size log"
  shows "unat (log_size log - off) = unat (log_size log) - unat off"
    and "unat off < unat (log_size log)"
  using assms(2) by (simp_all add: unat_sub word_less_nat_alt word_le_nat_alt order.strict_implies_order)

section \<open>Reading a header\<close>

lemma get_entry_header_wf:
  assumes wf: "log_wf log" and off: "off < log_size log"
  shows "get_entry_header log off =
    Inr (entry_of_bytes (ring_slice (log_buffer log) (unat off) 32))"
proof (cases "unat off + 32 \<le> unat (log_size log)")
  case True
  have "SIZEOF_ENTRY \<le> log_size log - off"
    using True unat_log_sub [OF wf off] by (simp only: word_le_nat_alt) simp
  then have "min SIZEOF_ENTRY (log_size log - off) = SIZEOF_ENTRY"
    by (rule min.absorb1)
  with True log_wfD(1) [OF wf] show ?thesis
    by (simp add: get_entry_header_def mem_read_ok ring_slice_no_wrap)
next
  case False
  with wf off have len: "min SIZEOF_ENTRY (log_size log - off) = log_size log - off"
    and ne: "log_size log - off \<noteq> SIZEOF_ENTRY"
    by (auto simp: min_def word_le_nat_alt unat_log_sub word_unat_eq_iff)
  have u: "unat (SIZEOF_ENTRY - (log_size log - off)) = 32 - (unat (log_size log) - unat off)"
    using False wf off by (subst unat_sub) (simp_all add: word_le_nat_alt unat_log_sub)
  show ?thesis
    using False off log_wfD [OF wf] unat_log_sub [OF wf off]
    by (simp add: get_entry_header_def len ne u mem_read_ok ring_slice_wrap)
qed

lemma get_entry_msg_len_wf:
  assumes "log_wf log" and "off < log_size log"
  shows "get_entry_msg_len log off =
    Inr (ucast (le_len (entry_of_bytes (ring_slice (log_buffer log) (unat off) 32))))"
  using assms by (simp add: get_entry_msg_len_def get_entry_header_wf)

section \<open>Stepping over entries\<close>

text \<open>Nothing the two loops do leaves the buffer, and where they stop is an offset in it.\<close>

lemma get_next_entry_by_uid_safe:
  assumes "log_wf log" and "off < log_size log"
  shows "get_next_entry_by_uid fuel log off euid = Inl OutOfFuel \<or>
    (\<exists>off'. get_next_entry_by_uid fuel log off euid = Inr off' \<and> off' < log_size log)"
  using assms(2)
proof (induction fuel arbitrary: off)
  case 0
  then show ?case by simp
next
  case (Suc fuel)
  then show ?case
    using Suc.IH [of "logger_offset log n" for n] assms(1)
    by (simp add: get_entry_header_wf logger_offset_less)
qed

lemma get_next_entry_by_uid_result:
  assumes "log_wf log" and "off < log_size log"
    and "get_next_entry_by_uid fuel log off euid = Inr off'"
  shows "off' = log_w_off log \<or>
    (\<exists>entry. get_entry_header log off' = Inr entry \<and> le_euid entry = euid)"
  using assms(2,3)
proof (induction fuel arbitrary: off)
  case 0
  then show ?case by simp
next
  case (Suc fuel)
  then show ?case
    using Suc.IH [of "logger_offset log n" for n] assms(1)
    by (auto simp: get_entry_header_wf logger_offset_less split: if_splits)
qed

lemma get_next_entry_by_uid_mono:
  "get_next_entry_by_uid fuel log off euid = Inr off' \<Longrightarrow>
   get_next_entry_by_uid (fuel + k) log off euid = Inr off'"
  by (induction fuel arbitrary: off) (auto simp: bindE_Inr_iff split: if_splits)

text \<open>
  \<open>entry_size\<close> is the size of the entry at an offset, \<open>walk\<close> the offset after \<open>n\<close>
  entries and \<open>walked\<close> the bytes passed on the way.
\<close>

definition entry_size :: "logger_log \<Rightarrow> nat \<Rightarrow> nat" where
  "entry_size log off = 32 + unat (le_len (entry_of_bytes (ring_slice (log_buffer log) off 32)))"

primrec walked :: "logger_log \<Rightarrow> nat \<Rightarrow> nat \<Rightarrow> nat" where
  "walked log off 0 = 0"
| "walked log off (Suc n) =
     entry_size log off + walked log ((off + entry_size log off) mod unat (log_size log)) n"

lemma entry_size_bounds: "32 \<le> entry_size log off" "entry_size log off < 32 + 65536"
proof -
  note unat_u16_less [of "le_len (entry_of_bytes (ring_slice (log_buffer log) off 32))"]
  then show "32 \<le> entry_size log off" "entry_size log off < 32 + 65536"
    by (simp_all add: entry_size_def)
qed

lemma unat_ucast_u16_u64: "unat (ucast (w :: u16) :: u64) = unat w"
proof -
  have "unat (ucast w :: u64) = take_bit LENGTH(64) (unat w)"
    by (rule unsigned_ucast_eq)
  then show ?thesis
    using unat_u16_less [of w] by (simp add: take_bit_nat_eq_self_iff)
qed

lemma unat_ucast_u16_u32_u64: "unat (ucast (ucast (w :: u16) :: u32) :: u64) = unat w"
proof -
  have "unat (ucast w :: u32) = take_bit LENGTH(32) (unat w)"
    by (rule unsigned_ucast_eq)
  moreover have "unat (ucast (ucast w :: u32) :: u64) = take_bit LENGTH(64) (unat (ucast w :: u32))"
    by (rule unsigned_ucast_eq)
  ultimately show ?thesis
    using unat_u16_less [of w] by (simp add: take_bit_nat_eq_self_iff)
qed

lemma unat_entry_nr:
  fixes w :: u16
  shows "unat (SIZEOF_ENTRY + ucast (ucast w :: u32) :: u64) = 32 + unat w"
  using unat_u16_less [of w] unat_ucast_u16_u32_u64 [of w]
  by (subst unat_add_small) (simp_all only:, simp_all)

lemma get_next_entry_loop_spec:
  assumes wf: "log_wf log" and "off < log_size log"
    and "unat len < 2 ^ 32" and "unat count < 2 ^ 32"
    and "unat len < unat count + 32 * fuel" and "0 < fuel"
  shows "\<exists>n off'. 0 < n \<and> get_next_entry_loop fuel log off count len = Inr off' \<and>
    off' < log_size log \<and>
    unat off' = (unat off + walked log (unat off) n) mod unat (log_size log) \<and>
    unat len \<le> unat count + walked log (unat off) n \<and>
    (\<forall>m < n. 0 < m \<longrightarrow> unat count + walked log (unat off) m < unat len)"
  using assms(2-)
proof (induction fuel arbitrary: off count)
  case 0
  then show ?case by simp
next
  case (Suc fuel)
  let ?e = "entry_size log (unat off)"
  let ?off = "logger_offset log (off + (SIZEOF_ENTRY + ucast (ucast (le_len
    (entry_of_bytes (ring_slice (log_buffer log) (unat off) 32))) :: u32)))"
  let ?nr = "SIZEOF_ENTRY + ucast (ucast (le_len
    (entry_of_bytes (ring_slice (log_buffer log) (unat off) 32))) :: u32) :: u64"
  note bnd = log_wfD [OF wf] entry_size_bounds [of log "unat off"] unat_log_sub [OF wf Suc.prems(1)]
  have nr: "unat ?nr = ?e" by (simp only: unat_entry_nr entry_size_def)
  have off: "unat ?off = (unat off + ?e) mod unat (log_size log)"
    using bnd by (subst unat_logger_offset [OF wf], subst unat_add_small) (simp_all only: nr, simp)
  have cnt: "unat (count + ?nr) = unat count + ?e"
    using bnd Suc.prems(3) by (subst unat_add_small) (simp_all only: nr, simp)
  have offlt: "?off < log_size log" by (rule logger_offset_less [OF wf])
  have unfold: "get_next_entry_loop (Suc fuel) log off count len =
    (if count + ?nr < len then get_next_entry_loop fuel log ?off (count + ?nr) len else Inr ?off)"
    using wf Suc.prems(1) by (simp add: get_entry_msg_len_wf Let_def)
  show ?case
  proof (cases "count + ?nr < len")
    case False
    then have "unat len \<le> unat count + ?e"
      by (simp only: word_less_nat_alt cnt not_less)
    with False off offlt show ?thesis
      by (intro exI [of _ "Suc 0"] exI [of _ ?off]) (simp add: unfold del: get_next_entry_loop.simps)
  next
    case True
    then have lt: "unat count + ?e < unat len" by (simp only: word_less_nat_alt cnt)
    with Suc.prems(2) have "unat (count + ?nr) < 2 ^ 32" by (simp only: cnt)
    moreover have fuel: "unat len < unat count + ?e + 32 * fuel"
      using Suc.prems(4) bnd by simp
    then have "unat len < unat (count + ?nr) + 32 * fuel" by (simp only: cnt)
    moreover from fuel lt have "0 < fuel" by (cases fuel) simp_all
    ultimately obtain n off' where IH: "0 < n"
      "get_next_entry_loop fuel log ?off (count + ?nr) len = Inr off'"
      "off' < log_size log"
      "unat off' = (unat ?off + walked log (unat ?off) n) mod unat (log_size log)"
      "unat len \<le> unat (count + ?nr) + walked log (unat ?off) n"
      "\<forall>m < n. 0 < m \<longrightarrow> unat (count + ?nr) + walked log (unat ?off) m < unat len"
      using Suc.IH [OF offlt Suc.prems(2), of "count + ?nr"] by blast
    have step: "walked log (unat off) (Suc m) = ?e + walked log (unat ?off) m" for m
      by (simp add: off)
    have "\<forall>m < Suc n. 0 < m \<longrightarrow> unat count + walked log (unat off) m < unat len"
    proof (intro allI impI)
      fix m assume "m < Suc n" "0 < m"
      then obtain j where j: "m = Suc j" "j < n" by (cases m) auto
      have "unat count + ?e + walked log (unat ?off) j < unat len"
      proof (cases j)
        case 0
        with lt show ?thesis by simp
      next
        case (Suc i)
        with IH(6) j(2) have "unat (count + ?nr) + walked log (unat ?off) j < unat len" by blast
        then show ?thesis by (simp only: cnt)
      qed
      then show "unat count + walked log (unat off) m < unat len"
        by (simp only: j(1) step add.assoc)
    qed
    with IH show ?thesis
      by (intro exI [of _ "Suc n"] exI [of _ off'])
        (simp add: unfold True step cnt off mod_add_left_eq add.assoc del: get_next_entry_loop.simps walked.simps)
  qed
qed

section \<open>Writing into the ring\<close>

text \<open>Writing byte after byte, going round at the end of the array.\<close>

primrec ring_put :: "u8 list \<Rightarrow> nat \<Rightarrow> u8 list \<Rightarrow> u8 list" where
  "ring_put buf off [] = buf"
| "ring_put buf off (x # xs) = ring_put (buf[off := x]) (Suc off mod length buf) xs"

lemma length_ring_put [simp]: "length (ring_put buf off xs) = length buf"
  by (induction xs arbitrary: buf off) simp_all

lemma ring_put_append:
  "off < length buf \<Longrightarrow>
   ring_put buf off (xs @ ys) = ring_put (ring_put buf off xs) ((off + length xs) mod length buf) ys"
proof (induction xs arbitrary: buf off)
  case Nil
  then show ?case by simp
next
  case (Cons x xs)
  then have "Suc off mod length buf < length buf" by (intro mod_less_divisor) auto
  with Cons.IH [of "Suc off mod length buf" "buf[off := x]"] show ?case
    by (simp add: mod_add_left_eq)
qed

lemma ring_put_no_wrap:
  "off + length xs \<le> length buf \<Longrightarrow>
   ring_put buf off xs = take off buf @ xs @ drop (off + length xs) buf"
proof (induction xs arbitrary: buf off)
  case Nil
  then show ?case by simp
next
  case (Cons x xs)
  show ?case
  proof (cases "xs = []")
    case True
    with Cons.prems show ?thesis by (simp add: upd_conv_take_nth_drop)
  next
    case False
    with Cons.prems have "Suc off < length buf" by (cases xs) auto
    with Cons.prems Cons.IH [of "Suc off" "buf[off := x]"] show ?thesis
      by (simp add: take_Suc_conv_app_nth)
  qed
qed

lemma nth_ring_put:
  "off < length buf \<Longrightarrow> d < length buf \<Longrightarrow> length xs \<le> length buf \<Longrightarrow>
   ring_put buf off xs ! ((off + d) mod length buf) =
   (if d < length xs then xs ! d else buf ! ((off + d) mod length buf))"
proof (induction xs arbitrary: buf off d)
  case Nil
  then show ?case by simp
next
  case (Cons x xs)
  let ?L = "length buf"
  have so: "Suc off mod ?L < ?L" using Cons.prems by (intro mod_less_divisor) auto
  have IH: "ring_put (buf[off := x]) (Suc off mod ?L) xs ! ((Suc off + e) mod ?L) =
      (if e < length xs then xs ! e else buf[off := x] ! ((Suc off + e) mod ?L))" if "e < ?L" for e
    using Cons.IH [of "Suc off mod ?L" "buf[off := x]" e] so that Cons.prems
    by (simp add: mod_add_left_eq)
  show ?case
  proof (cases d)
    case 0
    have "Suc off + (?L - 1) = off + ?L" using Cons.prems by simp
    then have "(Suc off + (?L - 1)) mod ?L = off" using Cons.prems by simp
    with 0 IH [of "?L - 1"] Cons.prems show ?thesis by auto
  next
    case (Suc e)
    have "(off + d) mod ?L \<noteq> off"
      using Cons.prems Suc by (cases "off + d < ?L") (auto simp: le_mod_geq)
    with Suc IH [of e] Cons.prems show ?thesis by simp
  qed
qed

lemma ring_slice_ring_put_self:
  "off < length buf \<Longrightarrow> length xs \<le> length buf \<Longrightarrow> ring_slice (ring_put buf off xs) off (length xs) = xs"
  by (rule nth_equalityI) (simp_all add: nth_ring_put)

lemma ring_slice_ring_put_other:
  assumes "off < length buf" and "length xs \<le> d" and "d + n \<le> length buf"
  shows "ring_slice (ring_put buf off xs) ((off + d) mod length buf) n =
    ring_slice buf ((off + d) mod length buf) n"
proof (rule nth_equalityI)
  fix i assume "i < length (ring_slice (ring_put buf off xs) ((off + d) mod length buf) n)"
  then have i: "i < n" by simp
  have "((off + d) mod length buf + i) mod length buf = (off + (d + i)) mod length buf"
    using mod_add_left_eq [of "off + d" "length buf" i] by (simp add: add.assoc)
  with i assms nth_ring_put [of off buf "d + i" xs]
  show "ring_slice (ring_put buf off xs) ((off + d) mod length buf) n ! i =
    ring_slice buf ((off + d) mod length buf) n ! i"
    by simp
qed simp

interpretation ring: ring_store ring_put ring_slice length
  by unfold_locales
    (simp_all add: ring_slice_append ring_slice_ring_put_self ring_slice_ring_put_other)

text \<open>The two checked copies the driver makes are one \<open>ring_put\<close>.\<close>

lemma mem_write_split:
  assumes off: "off < length buf" and len: "len = min (length xs) (length buf - off)"
    and fits: "length xs \<le> length buf"
  obtains buf1 where "mem_write buf off (take len xs) = Inr buf1"
    and "mem_write buf1 0 (drop len xs) = Inr (ring_put buf off xs)"
proof -
  let ?b1 = "ring_put buf off (take len xs)"
  have lt: "length (take len xs) = len" using len by simp
  have w1: "mem_write buf off (take len xs) = Inr ?b1"
    using off len by (simp add: mem_write_Inr_iff ring_put_no_wrap)
  have "ring_put ?b1 0 (drop len xs) = ring_put buf off xs"
  proof (cases "len = length xs")
    case True
    then show ?thesis by simp
  next
    case False
    then have "(off + length (take len xs)) mod length buf = 0" using len off by auto
    then show ?thesis
      using ring_put_append [OF off, of "take len xs" "drop len xs"] by simp
  qed
  then have "mem_write ?b1 0 (drop len xs) = Inr (ring_put buf off xs)"
    using fits ring_put_no_wrap [of 0 "drop len xs" ?b1] by (simp add: mem_write_Inr_iff)
  with w1 show thesis by (rule that)
qed

section \<open>The record writer\<close>

text \<open>
  Documented behaviour of \<open>copy_from_iter\<close> when the source memory is readable: it
  delivers as many bytes as are asked for and left.
\<close>

definition cfi_full :: "cfi \<Rightarrow> bool" where
  "cfi_full cfi \<longleftrightarrow> (\<forall>rest n. cfi rest n = take n rest)"

lemma unat_write_count:
  "length data < 2 ^ 64 \<Longrightarrow> unat (write_count data) = min (length data) 4096"
  by (simp add: write_count_def unat_min unat_of_nat)

lemma write_count_le: "unat (write_count data) \<le> 4096"
  by (simp add: write_count_def unat_min)

lemma write_count_le_length: "unat (write_count data) \<le> length data"
  by (simp add: write_count_def unat_min unat_of_nat min_le_iff_disj)

text \<open>Offset of the payload, and how much of it fits before the end of the array.\<close>

abbreviation payload_off :: "logger_log \<Rightarrow> u64" where
  "payload_off log \<equiv> logger_offset log (log_w_off log + SIZEOF_ENTRY)"

lemma unat_payload_off:
  assumes "log_wf log"
  shows "unat (payload_off log) = (unat (log_w_off log) + 32) mod unat (log_size log)"
  using log_wfD [OF assms] by (subst unat_logger_offset [OF assms], subst unat_add_small) simp_all

text \<open>With the iterator delivering all it is asked for, what is left are the two payload copies.\<close>

lemma logger_write_ring_unfold:
  fixes header :: logger_entry
  assumes wf: "log_wf log" and full: "cfi_full cfi" and count: "unat count \<le> length data"
  defines "len \<equiv> min count (log_size log - payload_off log)"
  defines "buf2 \<equiv> ring_put (log_buffer log) (unat (log_w_off log)) (entry_bytes header)"
  defines "xs \<equiv> take (unat count) data"
  shows "logger_write_ring cfi header log data count =
    bindE (mem_write buf2 (unat (payload_off log)) (take (unat len) xs)) (\<lambda>buf3.
    bindE (mem_write buf3 0 (drop (unat len) xs)) (\<lambda>buf4.
    Inr (Some (payload_off log, len),
      log\<lparr>log_buffer := buf4, log_w_off := logger_offset log (payload_off log + count)\<rparr>)))"
    and "unat len = min (length xs) (length buf2 - unat (payload_off log))"
    and "length xs = unat count"
proof -
  note bnd = log_wfD [OF wf]
  let ?len1 = "min SIZEOF_ENTRY (log_size log - log_w_off log)"
  have len1: "unat ?len1 = min (length (entry_bytes header)) (length (log_buffer log) - unat (log_w_off log))"
    using unat_log_sub [OF wf log_wf_w_off [OF wf]] bnd by (simp add: unat_min)
  obtain buf1 where b1: "mem_write (log_buffer log) (unat (log_w_off log))
      (take (unat ?len1) (entry_bytes header)) = Inr buf1"
    and b2: "mem_write buf1 0 (drop (unat ?len1) (entry_bytes header)) = Inr buf2"
    using mem_write_split [OF _ len1] bnd by (auto simp: buf2_def)
  show xs: "length xs = unat count" using count by (simp add: xs_def)
  show len: "unat len = min (length xs) (length buf2 - unat (payload_off log))"
    using unat_log_sub [OF wf logger_offset_less [OF wf]] bnd xs
    by (simp add: unat_min len_def buf2_def)
  have rest: "unat (count - len) = unat count - unat len"
    by (rule unat_sub) (simp add: len_def)
  have got1: "cfi data (unat len) = take (unat len) xs"
    using full len xs by (simp add: cfi_full_def xs_def min_def)
  have lens: "length (take (unat len) xs) = unat len" "length (drop (unat len) xs) = unat (count - len)"
    using len xs by (simp_all add: rest)
  have got2: "cfi (drop (unat len) data) (unat (count - len)) = drop (unat len) xs"
    using full by (simp add: cfi_full_def rest drop_take xs_def)
  show "logger_write_ring cfi header log data count =
    bindE (mem_write buf2 (unat (payload_off log)) (take (unat len) xs)) (\<lambda>buf3.
    bindE (mem_write buf3 0 (drop (unat len) xs)) (\<lambda>buf4.
    Inr (Some (payload_off log, len),
      log\<lparr>log_buffer := buf4, log_w_off := logger_offset log (payload_off log + count)\<rparr>)))"
    by (simp only: logger_write_ring_def Let_def b1 b2 bindE_simps len_def [symmetric] got1 lens got2
      if_False simp_thms)
qed

lemma logger_write_ring_ok:
  assumes wf: "log_wf log" and full: "cfi_full cfi" and count: "unat count \<le> length data"
    and fits: "unat count \<le> unat (log_size log)"
  shows "logger_write_ring cfi header log data count =
    Inr (Some (payload_off log, min count (log_size log - payload_off log)),
      log\<lparr>log_buffer := ring_put (log_buffer log) (unat (log_w_off log))
            (entry_bytes header @ take (unat count) data),
          log_w_off := logger_offset log (payload_off log + count)\<rparr>)"
proof -
  note u = logger_write_ring_unfold [OF wf full count]
  note bnd = log_wfD [OF wf]
  let ?buf2 = "ring_put (log_buffer log) (unat (log_w_off log)) (entry_bytes header)"
  let ?xs = "take (unat count) data"
  have off: "unat (payload_off log) < length ?buf2"
    using logger_offset_less [OF wf] bnd by (simp add: word_less_nat_alt)
  obtain buf3 where b3: "mem_write ?buf2 (unat (payload_off log))
      (take (unat (min count (log_size log - payload_off log))) ?xs) = Inr buf3"
    and b4: "mem_write buf3 0 (drop (unat (min count (log_size log - payload_off log))) ?xs) =
      Inr (ring_put ?buf2 (unat (payload_off log)) ?xs)"
    using mem_write_split [OF off u(2)] fits bnd u(3) by auto
  have "ring_put ?buf2 (unat (payload_off log)) ?xs =
    ring_put (log_buffer log) (unat (log_w_off log)) (entry_bytes header @ ?xs)"
    using bnd by (simp add: ring_put_append unat_payload_off [OF wf])
  then show ?thesis by (simp only: u(1) b3 b4 bindE_simps)
qed

text \<open>A payload longer than the ring runs past the start of the buffer once it has gone round.\<close>

lemma logger_write_ring_overflow:
  assumes wf: "log_wf log" and full: "cfi_full cfi" and count: "unat count \<le> length data"
    and big: "2 * unat (log_size log) < unat (payload_off log) + unat count"
  shows "logger_write_ring cfi header log data count = Inl OutOfBounds"
proof -
  note u = logger_write_ring_unfold [OF wf full count]
  note bnd = log_wfD [OF wf]
  let ?buf2 = "ring_put (log_buffer log) (unat (log_w_off log)) (entry_bytes header)"
  let ?len = "min count (log_size log - payload_off log)"
  have off: "unat (payload_off log) < length ?buf2"
    using logger_offset_less [OF wf] bnd by (simp add: word_less_nat_alt)
  have len: "unat ?len = length ?buf2 - unat (payload_off log)"
    using u(2,3) big off bnd by simp
  have "unat (payload_off log) + length (take (unat ?len) (take (unat count) data)) \<le> length ?buf2"
    using off by (simp only: length_take len)
  then obtain buf3 where b3: "mem_write ?buf2 (unat (payload_off log))
      (take (unat ?len) (take (unat count) data)) = Inr buf3"
    by (blast dest: mem_write_ok)
  have "mem_write buf3 0 (drop (unat ?len) (take (unat count) data)) = Inl OutOfBounds"
    using length_mem_write [OF b3] len u(3) big bnd off by (simp add: mem_write_def)
  then show ?thesis by (simp only: u(1) b3 bindE_simps)
qed

end
