(* ===== verification/Logger_Fifo.thy ===== *)
theory Logger_Fifo
  imports Logger_Ring
begin

text \<open>
  What one log promises: between a reader's offset and \<open>w_off\<close> it holds a queue of
  records, a write puts one record at the end of the queue and a read takes the first
  one, whole and unchanged. The queue is the abstraction of the bytes of the ring.
\<close>

section \<open>The queue of records\<close>

type_synonym log_record = "logger_entry \<times> u8 list"

fun record_bytes :: "log_record \<Rightarrow> u8 list" where
  "record_bytes (e, payload) = entry_bytes e @ payload"

fun record_ok :: "log_record \<Rightarrow> bool" where
  "record_ok (e, payload) = (length payload = unat (le_len e))"

definition queue_bytes :: "log_record list \<Rightarrow> u8 list" where
  "queue_bytes es = concat (map record_bytes es)"

definition log_holds :: "logger_log \<Rightarrow> u64 \<Rightarrow> log_record list \<Rightarrow> bool" where
  "log_holds log off es \<longleftrightarrow>
     off < log_size log \<and> list_all record_ok es \<and>
     length (queue_bytes es) < unat (log_size log) \<and>
     unat (log_w_off log) = (unat off + length (queue_bytes es)) mod unat (log_size log) \<and>
     ring_slice (log_buffer log) (unat off) (length (queue_bytes es)) = queue_bytes es"

lemma queue_bytes_simps [simp]:
  "queue_bytes [] = []"
  "queue_bytes (r # es) = record_bytes r @ queue_bytes es"
  "queue_bytes (es @ fs) = queue_bytes es @ queue_bytes fs"
  by (simp_all add: queue_bytes_def)

lemma length_record_bytes: "record_ok (e, p) \<Longrightarrow> length (record_bytes (e, p)) = 32 + unat (le_len e)"
  by simp

text \<open>A reader that has caught up sees the empty queue, and no other.\<close>

lemma log_holds_empty_iff:
  assumes "log_holds log off es"
  shows "log_w_off log = off \<longleftrightarrow> es = []"
proof
  assume "log_w_off log = off"
  with assms have eq: "unat off = (unat off + length (queue_bytes es)) mod unat (log_size log)"
    and lt: "unat off < unat (log_size log)" "length (queue_bytes es) < unat (log_size log)"
    by (auto simp: log_holds_def word_less_nat_alt)
  have "length (queue_bytes es) = 0"
    using eq lt by (cases "unat off + length (queue_bytes es) < unat (log_size log)") (auto simp: le_mod_geq)
  then show "es = []" by (cases es) auto
next
  assume "es = []"
  with assms show "log_w_off log = off"
    by (auto simp: log_holds_def word_less_nat_alt word_unat_eq_iff)
qed

section \<open>A write appends\<close>

lemma write_header_len: "le_len (write_header env count) = ucast count"
  by (simp add: write_header_def do_div_def)

lemma unat_write_header_len:
  "unat (le_len (write_header env (write_count data))) = unat (write_count data)"
proof -
  have "unat (ucast (write_count data) :: u16) = take_bit LENGTH(16) (unat (write_count data))"
    by (rule unsigned_ucast_eq)
  then show ?thesis
    using write_count_le [of data] by (simp add: write_header_len take_bit_nat_eq_self_iff)
qed

lemma write_count_pos:
  "data \<noteq> [] \<Longrightarrow> length data < 2 ^ 64 \<Longrightarrow> 0 < unat (write_count data)"
  by (simp add: unat_write_count)

text \<open>The handler, when the iterator and the allocation work, is one of three cases.\<close>

lemma logger_write_iter_ok:
  assumes wf: "log_wf log" and full: "cfi_full cfi"
    and data: "data \<noteq> []" "length data < 2 ^ 64"
    and nowrap: "unat (payload_off log) + unat (write_count data) \<le> unat (log_size log)"
  shows "logger_write_iter env cfi True log data =
    Inr (int (unat (write_count data)),
      log\<lparr>log_buffer := ring_put (log_buffer log) (unat (log_w_off log))
            (entry_bytes (write_header env (write_count data)) @ take (unat (write_count data)) data),
          log_w_off := logger_offset log (payload_off log + write_count data)\<rparr>)"
proof -
  have ne: "le_len (write_header env (write_count data)) \<noteq> 0"
    using unat_write_header_len [of env data] write_count_pos [OF data] by auto
  have len: "min (write_count data) (log_size log - payload_off log) = write_count data"
    using nowrap unat_log_sub [OF wf logger_offset_less [OF wf]]
    by (intro min.absorb1) (simp add: word_le_nat_alt)
  have fits: "unat (write_count data) \<le> unat (log_size log)" using nowrap by simp
  show ?thesis
    using ne nowrap log_wfD(1) [OF wf]
    by (simp add: logger_write_iter_def Let_def logger_write_ring_ok [OF wf full write_count_le_length fits]
      len mem_read_ok)
qed

lemma logger_write_iter_overread:
  assumes wf: "log_wf log" and full: "cfi_full cfi"
    and data: "data \<noteq> []" "length data < 2 ^ 64"
    and fits: "unat (write_count data) \<le> unat (log_size log)"
    and wrap: "unat (log_size log) < unat (payload_off log) + unat (write_count data)"
  shows "logger_write_iter env cfi True log data = Inl OutOfBounds"
proof -
  have ne: "le_len (write_header env (write_count data)) \<noteq> 0"
    using unat_write_header_len [of env data] write_count_pos [OF data] by auto
  then show ?thesis
    using wrap log_wfD(1) [OF wf]
    by (simp add: logger_write_iter_def Let_def logger_write_ring_ok [OF wf full write_count_le_length fits]
      mem_read_def)
qed

lemma logger_write_iter_overflow:
  assumes wf: "log_wf log" and full: "cfi_full cfi"
    and data: "data \<noteq> []" "length data < 2 ^ 64"
    and big: "2 * unat (log_size log) < unat (payload_off log) + unat (write_count data)"
  shows "logger_write_iter env cfi vz log data = Inl OutOfBounds"
proof -
  have ne: "le_len (write_header env (write_count data)) \<noteq> 0"
    using unat_write_header_len [of env data] write_count_pos [OF data] by auto
  then show ?thesis
    by (simp add: logger_write_iter_def Let_def
      logger_write_ring_overflow [OF wf full write_count_le_length big])
qed

lemma unat_new_w_off:
  assumes "log_wf log" and "unat count \<le> 4096"
  shows "unat (logger_offset log (payload_off log + count)) =
    (unat (log_w_off log) + (32 + unat count)) mod unat (log_size log)"
proof -
  have "unat (payload_off log) < 2 ^ 30"
    using logger_offset_less [OF assms(1)] log_wfD(3) [OF assms(1)]
    by (auto simp: word_less_nat_alt intro: less_le_trans)
  then have sum: "unat (payload_off log + count) = unat (payload_off log) + unat count"
    using assms(2) by (intro unat_add_small) simp
  show ?thesis
    by (simp only: unat_logger_offset [OF assms(1), of "payload_off log + count"] sum
      unat_payload_off [OF assms(1)] mod_add_left_eq add.assoc)
qed

lemma log_holds_put:
  assumes wf: "log_wf log" and holds: "log_holds log off es" and ok: "record_ok r"
    and room: "length (queue_bytes es) + length (record_bytes r) < unat (log_size log)"
    and w: "w < log_size log"
      "unat w = (unat (log_w_off log) + length (record_bytes r)) mod unat (log_size log)"
  defines "log' \<equiv> log\<lparr>log_buffer := ring_put (log_buffer log) (unat (log_w_off log)) (record_bytes r),
    log_w_off := w\<rparr>"
  shows "log_wf log' \<and> log_holds log' off (es @ [r])"
proof -
  let ?n = "length (queue_bytes es)"
  have len: "length (log_buffer log) = unat (log_size log)" by (rule log_wfD(1) [OF wf])
  have h: "unat off < length (log_buffer log)" "unat (log_w_off log) = (unat off + ?n) mod length (log_buffer log)"
    "ring_slice (log_buffer log) (unat off) ?n = queue_bytes es" "list_all record_ok es" "off < log_size log"
    using holds by (auto simp: log_holds_def word_less_nat_alt len)
  have "ring_slice (log_buffer log') (unat off) (?n + length (record_bytes r)) = queue_bytes es @ record_bytes r"
    using ring.slice_put_snoc [OF h(1,3)] room len by (simp add: log'_def h(2))
  moreover have "unat w = (unat off + (?n + length (record_bytes r))) mod unat (log_size log)"
    using w(2) by (simp add: h(2) len mod_add_left_eq add.assoc)
  moreover have "log_wf log'"
    using wf w(1) by (simp add: log_wf_def log'_def)
  ultimately show ?thesis
    using h ok room by (simp add: log_holds_def log'_def)
qed

section \<open>A read takes the first record\<close>

definition ctu_full :: "ctu \<Rightarrow> bool" where
  "ctu_full ctu \<longleftrightarrow> (\<forall>dst bytes. ctu dst bytes = 0)"

text \<open>The chunks handed to the user lie one behind the other from the start of the user's buffer.\<close>

fun contiguous :: "u64 \<Rightarrow> chunks \<Rightarrow> bool" where
  "contiguous a [] = True"
| "contiguous a ((b, xs) # out) = (a = b \<and> contiguous (a + of_nat (length xs)) out)"

lemma log_holds_first:
  assumes wf: "log_wf log" and holds: "log_holds log off ((e, p) # es)"
  shows "get_entry_header log off = Inr e"
    and "ring_slice (log_buffer log) ((unat off + 32) mod unat (log_size log)) (unat (le_len e)) = p"
    and "log_holds log (logger_offset log (off + SIZEOF_ENTRY + ucast (le_len e))) es"
    and "unat (le_len e) < unat (log_size log)"
proof -
  let ?S = "unat (log_size log)" and ?b = "log_buffer log"
  have len: "length ?b = ?S" by (rule log_wfD(1) [OF wf])
  have h: "off < log_size log" "length p = unat (le_len e)" "list_all record_ok es"
    "32 + (length p + length (queue_bytes es)) < ?S"
    "unat (log_w_off log) = (unat off + (32 + (length p + length (queue_bytes es)))) mod ?S"
    "ring_slice ?b (unat off) (length (entry_bytes e) + (length p + length (queue_bytes es))) =
      entry_bytes e @ (p @ queue_bytes es)"
    using holds by (auto simp: log_holds_def)
  note pop = ring.slice_pop [OF h(6), unfolded len]
  then have pop2: "ring_slice ?b ((unat off + 32) mod ?S) (length p + length (queue_bytes es)) = p @ queue_bytes es"
    by simp
  note pop3 = ring.slice_pop [OF pop2, unfolded len]
  show "get_entry_header log off = Inr e"
    using pop(1) by (simp add: get_entry_header_wf [OF wf h(1)])
  show "ring_slice ?b ((unat off + 32) mod ?S) (unat (le_len e)) = p"
    using pop3(1) by (simp add: h(2))
  show "unat (le_len e) < ?S" using h by simp
  have off': "unat (off + SIZEOF_ENTRY + ucast (le_len e)) = unat off + 32 + unat (le_len e)"
    using h log_wfD(3) [OF wf] unat_ucast_u16_u64 [of "le_len e"]
    by (subst unat_add_small; subst unat_add_small; simp add: word_less_nat_alt)
  let ?off = "logger_offset log (off + SIZEOF_ENTRY + ucast (le_len e))"
  have uoff: "unat ?off = (unat off + 32 + length p) mod ?S"
    by (simp add: unat_logger_offset [OF wf] off' h(2))
  have "ring_slice ?b (unat ?off) (length (queue_bytes es)) = queue_bytes es"
    using pop3(2) by (simp add: uoff mod_add_left_eq)
  moreover have "unat (log_w_off log) = (unat ?off + length (queue_bytes es)) mod ?S"
    unfolding uoff h(5) by (simp only: mod_add_left_eq add.assoc)
  ultimately show "log_holds log ?off es"
    using h(3,4) by (simp add: log_holds_def logger_offset_less [OF wf])
qed

lemma min_len_u64:
  fixes a b :: u64
  shows "unat (min a b) = min (unat a) (unat b)" and "unat (a - min a b) = unat a - min (unat a) (unat b)"
proof -
  show u: "unat (min a b) = min (unat a) (unat b)" by (rule unat_min)
  have "unat (a - min a b) = unat a - unat (min a b)"
    by (rule unat_sub) simp
  then show "unat (a - min a b) = unat a - min (unat a) (unat b)" by (simp only: u)
qed

text \<open>The payload is read in at most two pieces, which together are the slice of the ring.\<close>

lemma payload_pieces:
  assumes wf: "log_wf log" and m: "m < log_size log" and n: "unat n \<le> unat (log_size log)"
  defines "len \<equiv> min n (log_size log - m)"
  obtains a b where
    "mem_read (log_buffer log) (unat m) (unat len) = Inr a" and "length a = unat len"
    and "mem_read (log_buffer log) 0 (unat (n - len)) = Inr b" and "length b = unat (n - len)"
    and "a @ b = ring_slice (log_buffer log) (unat m) (unat n)" and "n = len \<Longrightarrow> b = []"
proof -
  let ?b = "log_buffer log"
  note bnd = log_wfD(1) [OF wf] unat_log_sub [OF wf m]
  have len: "unat len = min (unat n) (length ?b - unat m)" "unat (n - len) = unat n - unat len"
    using bnd by (simp_all add: len_def min_len_u64)
  have ra: "mem_read ?b (unat m) (unat len) = Inr (take (unat len) (drop (unat m) ?b))"
    using bnd by (intro mem_read_ok) (simp add: len)
  have rb: "mem_read ?b 0 (unat (n - len)) = Inr (take (unat (n - len)) ?b)"
    using bnd n by (simp add: mem_read_def len)
  have cat: "take (unat len) (drop (unat m) ?b) @ take (unat (n - len)) ?b =
    ring_slice ?b (unat m) (unat n)"
  proof (cases "unat m + unat n \<le> length ?b")
    case True
    then show ?thesis by (simp add: len ring_slice_no_wrap)
  next
    case False
    then show ?thesis using bnd n by (simp add: len ring_slice_wrap)
  qed
  have la: "length (take (unat len) (drop (unat m) ?b)) = unat len"
    and lb: "length (take (unat (n - len)) ?b) = unat (n - len)"
    using bnd n by (simp_all add: len)
  show thesis
    by (rule that [OF ra la rb lb cat]) simp
qed

lemma do_read_log_to_user_holds:
  assumes wf: "log_wf log" and holds: "log_holds log (r_off reader) ((e, p) # es)"
    and full: "ctu_full ctu"
  shows "\<exists>out. do_read_log_to_user ctu log reader buf (SIZEOF_ENTRY + ucast (le_len e)) =
      Inr (32 + int (length p),
        reader\<lparr>r_off := logger_offset log (r_off reader + SIZEOF_ENTRY + ucast (le_len e))\<rparr>, out) \<and>
    concat (map snd out) = entry_bytes e @ p \<and> contiguous buf out"
proof -
  let ?n = "ucast (le_len e) :: u64"
  let ?m = "logger_offset log (r_off reader + SIZEOF_ENTRY)"
  note first = log_holds_first [OF wf holds]
  have n: "unat ?n = unat (le_len e)" "unat ?n = length p" "unat ?n \<le> unat (log_size log)"
    using holds first(4) by (simp_all add: unat_ucast_u16_u64 log_holds_def)
  have lt: "unat (r_off reader) < unat (log_size log)"
    using holds by (simp add: log_holds_def word_less_nat_alt)
  have um: "unat ?m = (unat (r_off reader) + 32) mod unat (log_size log)"
    using log_wfD(3) [OF wf] lt by (subst unat_logger_offset [OF wf], subst unat_add_small) simp_all
  define len where "len = min ?n (log_size log - ?m)"
  obtain a b where ab:
    "mem_read (log_buffer log) (unat ?m) (unat len) = Inr a" "length a = unat len"
    "mem_read (log_buffer log) 0 (unat (?n - len)) = Inr b" "length b = unat (?n - len)"
    "a @ b = ring_slice (log_buffer log) (unat ?m) (unat ?n)"
    "?n = len \<Longrightarrow> b = []"
    using payload_pieces [OF wf logger_offset_less [OF wf] n(3)] unfolding len_def by blast
  have p: "a @ b = p" using ab(5) first(2) by (simp only: um n(1))
  have ret: "int (unat (SIZEOF_ENTRY + ?n)) = 32 + int (length p)"
    using n log_wfD(3) [OF wf] by (subst unat_add_small) simp_all
  have hdr: "SIZEOF_ENTRY + ?n - SIZEOF_ENTRY = ?n" by simp
  have run: "do_read_log_to_user ctu log reader buf (SIZEOF_ENTRY + ?n) =
    Inr (32 + int (length p), reader\<lparr>r_off := logger_offset log (r_off reader + SIZEOF_ENTRY + ?n)\<rparr>,
      [(buf, entry_bytes e), (buf + SIZEOF_ENTRY, a)] @ (if ?n \<noteq> len then [(buf + SIZEOF_ENTRY + len, b)] else []))"
    using full
    by (simp only: do_read_log_to_user_def first(1) copy_header_to_user_def get_user_hdr_len_def
        bindE_simps Let_def hdr len_def [symmetric] ab(1,3) ctu_full_def ret split_conv simp_thms if_False
        if_True append.simps split: if_split) simp
  show ?thesis
    unfolding run using p ab by (cases "?n = len") (simp_all add: add.assoc)
qed

end
