(* ===== verification/Logger_Device.thy ===== *)
theory Logger_Device
  imports Logger_Fifo
begin

text \<open>
  The log devices of \<open>logger.c\<close>: creating the logs at module start, opening and closing
  device files, and the file operations on the state they share. Structures live in
  stores indexed by address; an address without an entry is free memory, and using it is
  a trap.
\<close>

section \<open>State\<close>

text \<open>
  \<open>sys_log_list\<close> is \<open>log_list\<close>, in order; \<open>sys_misc\<close> are the logs whose misc device is
  registered. A file holds in \<open>private_data\<close> the address of a reader when it is open
  for reading and of a log otherwise.
\<close>

record logger_sys =
  sys_log_list :: "nat list"
  sys_logs :: "nat \<Rightarrow> logger_log option"
  sys_readers :: "nat \<Rightarrow> logger_reader option"
  sys_misc :: "nat list"

record lfile =
  f_read :: bool
  f_private :: nat

definition logger_sys_empty :: logger_sys where
  "logger_sys_empty =
     \<lparr>sys_log_list = [], sys_logs = (\<lambda>_. None), sys_readers = (\<lambda>_. None), sys_misc = []\<rparr>"

section \<open>Creating the logs\<close>

text \<open>
  What the kernel's allocators and \<open>misc_register\<close> answer to one \<open>create_log\<close>: the
  memory of \<open>vmalloc\<close>, the address from \<open>kzalloc\<close>, whether \<open>kstrdup\<close> succeeds, the value
  of \<open>misc_register\<close> and the minor number it assigns.
\<close>

record create_env =
  ce_vmalloc :: "u8 list option"
  ce_kzalloc :: "nat option"
  ce_kstrdup :: bool
  ce_register :: int
  ce_minor :: int

text \<open>
  On the failing paths what was allocated is freed again. On the last one the log is
  already in \<open>log_list\<close>, and stays there.
\<close>

definition create_log :: "create_env \<Rightarrow> string \<Rightarrow> int \<Rightarrow> logger_sys \<Rightarrow> int \<times> logger_sys" where
  "create_log env name nbytes sys =
     (case ce_vmalloc env of
        None \<Rightarrow> (- ENOMEM, sys)
      | Some buffer \<Rightarrow>
          (case ce_kzalloc env of
             None \<Rightarrow> (- ENOMEM, sys)
           | Some a \<Rightarrow>
               if \<not> ce_kstrdup env then (- ENOMEM, sys)
               else
                 let log = \<lparr>log_buffer = buffer, log_minor = ce_minor env, log_name = name,
                       log_readers = [], log_w_off = 0, log_head = 0, log_size = of_int nbytes\<rparr>;
                     sys = sys\<lparr>sys_logs := (sys_logs sys)(a \<mapsto> log),
                               sys_log_list := sys_log_list sys @ [a]\<rparr>;
                     ret = ce_register env
                 in if ret \<noteq> 0 then (ret, sys\<lparr>sys_logs := (sys_logs sys)(a := None)\<rparr>)
                    else (0, sys\<lparr>sys_misc := a # sys_misc sys\<rparr>)))"

definition logger_init :: "create_env \<times> create_env \<times> create_env \<times> create_env \<Rightarrow> logger_sys \<Rightarrow> int \<times> logger_sys" where
  "logger_init envs sys =
     (case envs of (e1, e2, e3, e4) \<Rightarrow>
      case create_log e1 ''log_main'' (512 * 1024) sys of (ret, sys) \<Rightarrow>
      if ret \<noteq> 0 then (ret, sys) else
      case create_log e2 ''log_system'' (1 * 1024) sys of (ret, sys) \<Rightarrow>
      if ret \<noteq> 0 then (ret, sys) else
      case create_log e3 ''log_events'' (1 * 1024) sys of (ret, sys) \<Rightarrow>
      if ret \<noteq> 0 then (ret, sys) else
      create_log e4 ''log_radio'' (1 * 1024) sys)"

text \<open>
  \<open>kfree\<close> takes the start of an allocation. \<open>logger_exit\<close> frees \<open>&cur->logs\<close>, which
  lies \<open>offsetof_logs\<close> bytes behind the start of \<open>cur\<close>.
\<close>

definition kfree_log :: "nat \<Rightarrow> logger_sys \<Rightarrow> logger_sys chk" where
  "kfree_log p sys =
     (case sys_logs sys p of None \<Rightarrow> Inl InvalidFree
      | Some _ \<Rightarrow> Inr (sys\<lparr>sys_logs := (sys_logs sys)(p := None)\<rparr>))"

fun logger_exit_loop :: "nat \<Rightarrow> nat list \<Rightarrow> logger_sys \<Rightarrow> logger_sys chk" where
  "logger_exit_loop offsetof_logs [] sys = Inr sys"
| "logger_exit_loop offsetof_logs (cur # rest) sys =
     bindE (derefE UseAfterFree (sys_logs sys cur)) (\<lambda>log.
     let sys = sys\<lparr>sys_misc := removeAll cur (sys_misc sys),
                   sys_log_list := remove1 cur (sys_log_list sys)\<rparr>
     in bindE (kfree_log (cur + offsetof_logs) sys) (\<lambda>sys.
        logger_exit_loop offsetof_logs rest sys))"

definition logger_exit :: "nat \<Rightarrow> logger_sys \<Rightarrow> logger_sys chk" where
  "logger_exit offsetof_logs sys = logger_exit_loop offsetof_logs (sys_log_list sys) sys"

section \<open>Opening and closing\<close>

fun get_log_from_minor_loop :: "(nat \<Rightarrow> logger_log option) \<Rightarrow> int \<Rightarrow> nat list \<Rightarrow> nat option chk" where
  "get_log_from_minor_loop logs minor [] = Inr None"
| "get_log_from_minor_loop logs minor (a # as) =
     bindE (derefE UseAfterFree (logs a)) (\<lambda>log.
     if log_minor log = minor then Inr (Some a) else get_log_from_minor_loop logs minor as)"

definition get_log_from_minor :: "logger_sys \<Rightarrow> int \<Rightarrow> nat option chk" where
  "get_log_from_minor sys minor = get_log_from_minor_loop (sys_logs sys) minor (sys_log_list sys)"

text \<open>
  \<open>nonseek\<close> is the value of \<open>nonseekable_open\<close>, \<open>mem\<close> the address from \<open>kmalloc\<close>,
  \<open>in_group\<close> and \<open>capable\<close> the answers of \<open>in_egroup_p\<close> and \<open>capable\<close>. The result is the
  value returned, the open file if there is one, and the state.
\<close>

definition logger_open ::
  "int \<Rightarrow> nat option \<Rightarrow> bool \<Rightarrow> bool \<Rightarrow> bool \<Rightarrow> int \<Rightarrow> logger_sys \<Rightarrow> (int \<times> lfile option \<times> logger_sys) chk" where
  "logger_open nonseek mem in_group capable fmode_read minor sys =
     (if nonseek \<noteq> 0 then Inr (nonseek, None, sys)
      else bindE (get_log_from_minor sys minor) (\<lambda>found.
        case found of
          None \<Rightarrow> Inr (- ENODEV, None, sys)
        | Some a \<Rightarrow>
            if fmode_read then
              (case mem of
                 None \<Rightarrow> Inr (- ENODEV, None, sys)
               | Some r \<Rightarrow>
                   bindE (derefE UseAfterFree (sys_logs sys a)) (\<lambda>log.
                   let reader = \<lparr>r_log = a, r_off = log_head log, r_all = (in_group \<or> capable), r_ver = 1\<rparr>
                   in Inr (0, Some \<lparr>f_read = True, f_private = r\<rparr>,
                        sys\<lparr>sys_readers := (sys_readers sys)(r \<mapsto> reader),
                            sys_logs := (sys_logs sys)(a \<mapsto> log\<lparr>log_readers := log_readers log @ [r]\<rparr>)\<rparr>)))
            else Inr (0, Some \<lparr>f_read = False, f_private = a\<rparr>, sys)))"

definition logger_release :: "lfile \<Rightarrow> logger_sys \<Rightarrow> (int \<times> logger_sys) chk" where
  "logger_release file sys =
     (if f_read file then
        bindE (derefE UseAfterFree (sys_readers sys (f_private file))) (\<lambda>reader.
        bindE (derefE UseAfterFree (sys_logs sys (r_log reader))) (\<lambda>log.
        Inr (0, sys\<lparr>
          sys_logs := (sys_logs sys)(r_log reader \<mapsto> log\<lparr>log_readers := remove1 (f_private file) (log_readers log)\<rparr>),
          sys_readers := (sys_readers sys)(f_private file := None)\<rparr>)))
      else Inr (0, sys))"

section \<open>File operations\<close>

definition file_get_log :: "lfile \<Rightarrow> logger_sys \<Rightarrow> nat chk" where
  "file_get_log file sys =
     (if f_read file then
        bindE (derefE UseAfterFree (sys_readers sys (f_private file))) (\<lambda>reader. Inr (r_log reader))
      else Inr (f_private file))"

definition sys_write ::
  "write_env \<Rightarrow> cfi \<Rightarrow> bool \<Rightarrow> lfile \<Rightarrow> u8 list \<Rightarrow> logger_sys \<Rightarrow> (int \<times> logger_sys) chk" where
  "sys_write env cfi vz file data sys =
     bindE (file_get_log file sys) (\<lambda>a.
     bindE (derefE UseAfterFree (sys_logs sys a)) (\<lambda>log.
     bindE (logger_write_iter env cfi vz log data) (\<lambda>(ret, log).
     Inr (ret, sys\<lparr>sys_logs := (sys_logs sys)(a \<mapsto> log)\<rparr>))))"

text \<open>
  A read that no other operation interrupts sees the same log each time it takes the
  mutex. It takes it at most three times: if the reader skips to the end of the log, the
  third time it finds nothing, and returns or sleeps.
\<close>

definition sys_read ::
  "nat \<Rightarrow> ctu \<Rightarrow> bool \<Rightarrow> u32 \<Rightarrow> u64 \<Rightarrow> u64 \<Rightarrow> lfile \<Rightarrow> logger_sys \<Rightarrow> (read_outcome \<times> logger_sys) chk" where
  "sys_read fuel ctu nonblock euid buf count file sys =
     bindE (derefE UseAfterFree (sys_readers sys (f_private file))) (\<lambda>reader.
     bindE (derefE UseAfterFree (sys_logs sys (r_log reader))) (\<lambda>log.
     bindE (logger_read fuel ctu nonblock euid buf count False reader [(log, False), (log, False), (log, False)]) (\<lambda>out.
     case out of
       Blocked reader' \<Rightarrow> Inr (out, sys\<lparr>sys_readers := (sys_readers sys)(f_private file \<mapsto> reader')\<rparr>)
     | Returned ret reader' chunks \<Rightarrow>
         Inr (out, sys\<lparr>sys_readers := (sys_readers sys)(f_private file \<mapsto> reader')\<rparr>))))"

end
