(* ===== verification/Logger_Safety.thy ===== *)
theory Logger_Safety
  imports Logger_Device
begin

text \<open>
  The invariant of the log devices and that every file operation preserves it: the list
  of logs and the readers' pointers never dangle, every offset stays inside its buffer.
\<close>

section \<open>Invariant\<close>

definition log_readers_ok :: "logger_sys \<Rightarrow> nat \<Rightarrow> logger_log \<Rightarrow> bool" where
  "log_readers_ok sys a log \<longleftrightarrow>
     distinct (log_readers log) \<and>
     (\<forall>r \<in> set (log_readers log).
        \<exists>rd. sys_readers sys r = Some rd \<and> r_log rd = a \<and> r_off rd < log_size log)"

definition sys_wf :: "logger_sys \<Rightarrow> bool" where
  "sys_wf sys \<longleftrightarrow>
     distinct (sys_log_list sys) \<and>
     (\<forall>a \<in> set (sys_log_list sys).
        \<exists>log. sys_logs sys a = Some log \<and> log_wf log \<and> log_readers_ok sys a log) \<and>
     (\<forall>r rd. sys_readers sys r = Some rd \<longrightarrow>
        r_log rd \<in> set (sys_log_list sys) \<and>
        (\<exists>log. sys_logs sys (r_log rd) = Some log \<and> r \<in> set (log_readers log)))"

definition file_ok :: "logger_sys \<Rightarrow> lfile \<Rightarrow> bool" where
  "file_ok sys f \<longleftrightarrow>
     (if f_read f then sys_readers sys (f_private f) \<noteq> None
      else f_private f \<in> set (sys_log_list sys))"

definition reader_files :: "lfile list \<Rightarrow> nat list" where
  "reader_files files = map f_private (filter f_read files)"

type_synonym dev_state = "logger_sys \<times> lfile list"

fun dev_inv :: "dev_state \<Rightarrow> bool" where
  "dev_inv (sys, files) \<longleftrightarrow>
     sys_wf sys \<and> distinct (reader_files files) \<and> list_all (file_ok sys) files"

lemma reader_files_Cons [simp]:
  "reader_files [] = []"
  "reader_files (f # files) = (if f_read f then f_private f # reader_files files else reader_files files)"
  by (simp_all add: reader_files_def)

lemma set_reader_files: "set (reader_files files) = f_private ` {f \<in> set files. f_read f}"
  by (simp add: reader_files_def)

lemma reader_files_remove1:
  "distinct (reader_files files) \<Longrightarrow> f \<in> set files \<Longrightarrow>
   reader_files (remove1 f files) =
     (if f_read f then remove1 (f_private f) (reader_files files) else reader_files files)"
  by (induction files) (auto simp: set_reader_files split: if_splits)

section \<open>Steps\<close>

text \<open>
  The files a process holds open and the operations on them, each as one step, whenever
  it ends without a trap. \<open>kmalloc\<close> returns memory that is free.
\<close>

inductive dev_step :: "dev_state \<Rightarrow> dev_state \<Rightarrow> bool" where
  step_open: "(\<And>r. mem = Some r \<Longrightarrow> sys_readers sys r = None) \<Longrightarrow>
     logger_open nonseek mem in_group capable fmode_read minor sys = Inr (ret, fo, sys') \<Longrightarrow>
     dev_step (sys, files) (sys', case fo of None \<Rightarrow> files | Some f \<Rightarrow> f # files)"
| step_release: "f \<in> set files \<Longrightarrow> logger_release f sys = Inr (ret, sys') \<Longrightarrow>
     dev_step (sys, files) (sys', remove1 f files)"
| step_write: "f \<in> set files \<Longrightarrow> sys_write env cfi vz f data sys = Inr (ret, sys') \<Longrightarrow>
     dev_step (sys, files) (sys', files)"
| step_read: "f \<in> set files \<Longrightarrow> f_read f \<Longrightarrow>
     sys_read fuel ctu nonblock euid buf count f sys = Inr (out, sys') \<Longrightarrow>
     dev_step (sys, files) (sys', files)"

section \<open>What one log keeps\<close>

definition log_frame :: "logger_log \<Rightarrow> logger_log \<Rightarrow> bool" where
  "log_frame log log' \<longleftrightarrow>
     log_size log' = log_size log \<and> log_readers log' = log_readers log \<and>
     log_minor log' = log_minor log \<and> log_head log' = log_head log"

lemma logger_write_ring_wf:
  assumes "logger_write_ring cfi header log data count = Inr (r, log')" and wf: "log_wf log"
  shows "log_wf log' \<and> log_frame log log'"
proof -
  have "length (log_buffer log') = length (log_buffer log)" and
    "log_w_off log' = log_w_off log \<or> (\<exists>n. log_w_off log' = logger_offset log n)" and
    "log_frame log log'"
    using assms(1)
    by (auto simp: logger_write_ring_def Let_def bindE_Inr_iff log_frame_def dest!: length_mem_write
      split: if_splits)
  then show ?thesis
    using wf logger_offset_less [OF wf] by (auto simp: log_wf_def log_frame_def)
qed

lemma logger_write_iter_wf:
  assumes "logger_write_iter env cfi vz log data = Inr (ret, log')" and "log_wf log"
  shows "log_wf log' \<and> log_frame log log'"
  using assms logger_write_ring_wf [OF _ assms(2)]
  by (auto simp: logger_write_iter_def Let_def bindE_Inr_iff log_frame_def
    split: if_splits option.splits prod.splits)

lemma do_read_log_to_user_reader:
  assumes "do_read_log_to_user ctu log reader buf count = Inr (ret, reader', out)"
    and "log_wf log" and "r_off reader < log_size log"
  shows "r_off reader' < log_size log \<and> r_log reader' = r_log reader"
  using assms
  by (auto simp: do_read_log_to_user_def copy_header_to_user_def Let_def bindE_Inr_iff
    logger_offset_less split: if_splits)

fun outcome_reader :: "read_outcome \<Rightarrow> logger_reader" where
  "outcome_reader (Blocked rd) = rd"
| "outcome_reader (Returned ret rd out) = rd"

lemma logger_read_reader:
  assumes "logger_read fuel ctu nonblock euid buf count locked reader snaps = Inr out"
    and "\<forall>(log, sig) \<in> set snaps. log_wf log \<and> log_size log = s" and "r_off reader < s"
  shows "r_off (outcome_reader out) < s \<and> r_log (outcome_reader out) = r_log reader"
  using assms
proof (induction fuel ctu nonblock euid buf count locked reader snaps rule: logger_read.induct)
  case (1 fuel ctu nonblock euid buf count locked reader)
  then show ?case by auto
next
  case (2 fuel ctu nonblock euid buf count reader log signal snaps)
  then show ?case by (auto split: if_splits)
next
  case (3 fuel ctu nonblock euid buf count reader log signal snaps)
  then have wf: "log_wf log" "log_size log = s" by auto
  from 3(2) obtain off where off:
    "(if r_all reader then Inr (r_off reader) else get_next_entry_by_uid fuel log (r_off reader) euid) = Inr off"
    by (auto simp: bindE_Inr_iff)
  with get_next_entry_by_uid_safe [OF wf(1), of "r_off reader" fuel euid] wf 3(4)
  have "off < s" by (auto split: if_splits)
  with 3 off wf show ?case
    by (auto simp: bindE_Inr_iff Let_def dest!: do_read_log_to_user_reader split: if_splits)
qed

section \<open>Every step keeps the invariant\<close>

lemma sys_wfD:
  assumes "sys_wf sys"
  shows "a \<in> set (sys_log_list sys) \<Longrightarrow>
      \<exists>log. sys_logs sys a = Some log \<and> log_wf log \<and> log_readers_ok sys a log"
    and "sys_readers sys r = Some rd \<Longrightarrow>
      r_log rd \<in> set (sys_log_list sys) \<and> (\<exists>log. sys_logs sys (r_log rd) = Some log \<and>
        log_wf log \<and> log_readers_ok sys (r_log rd) log \<and> r \<in> set (log_readers log) \<and> r_off rd < log_size log)"
  using assms by (fastforce simp: sys_wf_def log_readers_ok_def)+

lemma file_log:
  assumes "sys_wf sys" and "file_ok sys f"
  obtains a log where "file_get_log f sys = Inr a" and "a \<in> set (sys_log_list sys)"
    and "sys_logs sys a = Some log" and "log_wf log" and "log_readers_ok sys a log"
proof (cases "f_read f")
  case True
  with assms(2) obtain rd where rd: "sys_readers sys (f_private f) = Some rd" by (auto simp: file_ok_def)
  with True have "file_get_log f sys = Inr (r_log rd)" by (simp add: file_get_log_def)
  with sys_wfD(2) [OF assms(1) rd] that show thesis by blast
next
  case False
  with assms(2) have "file_get_log f sys = Inr (f_private f)" "f_private f \<in> set (sys_log_list sys)"
    by (simp_all add: file_get_log_def file_ok_def)
  with sys_wfD(1) [OF assms(1)] that show thesis by blast
qed

lemma sys_wf_update_log:
  assumes wf: "sys_wf sys" and a: "sys_logs sys a = Some log" and log': "log_wf log'" "log_frame log log'"
  shows "sys_wf (sys\<lparr>sys_logs := (sys_logs sys)(a \<mapsto> log')\<rparr>)"
  unfolding sys_wf_def
proof (intro conjI ballI allI impI)
  show "distinct (sys_log_list (sys\<lparr>sys_logs := (sys_logs sys)(a \<mapsto> log')\<rparr>))"
    using wf by (simp add: sys_wf_def)
next
  fix b assume "b \<in> set (sys_log_list (sys\<lparr>sys_logs := (sys_logs sys)(a \<mapsto> log')\<rparr>))"
  with sys_wfD(1) [OF wf, of b] a log'
  show "\<exists>log. sys_logs (sys\<lparr>sys_logs := (sys_logs sys)(a \<mapsto> log')\<rparr>) b = Some log \<and> log_wf log \<and>
    log_readers_ok (sys\<lparr>sys_logs := (sys_logs sys)(a \<mapsto> log')\<rparr>) b log"
    by (cases "b = a") (auto simp: log_readers_ok_def log_frame_def)
next
  fix r rd assume "sys_readers (sys\<lparr>sys_logs := (sys_logs sys)(a \<mapsto> log')\<rparr>) r = Some rd"
  with sys_wfD(2) [OF wf, of r rd] a log'
  show "r_log rd \<in> set (sys_log_list (sys\<lparr>sys_logs := (sys_logs sys)(a \<mapsto> log')\<rparr>))"
    and "\<exists>log. sys_logs (sys\<lparr>sys_logs := (sys_logs sys)(a \<mapsto> log')\<rparr>) (r_log rd) = Some log \<and>
      r \<in> set (log_readers log)"
    by (auto simp: log_frame_def)
qed

lemma sys_wf_update_reader:
  assumes wf: "sys_wf sys" and r: "sys_readers sys r = Some rd" and log: "sys_logs sys (r_log rd) = Some log"
    and rd': "r_log rd' = r_log rd" "r_off rd' < log_size log"
  shows "sys_wf (sys\<lparr>sys_readers := (sys_readers sys)(r \<mapsto> rd')\<rparr>)"
  unfolding sys_wf_def
proof (intro conjI ballI allI impI)
  show "distinct (sys_log_list (sys\<lparr>sys_readers := (sys_readers sys)(r \<mapsto> rd')\<rparr>))"
    using wf by (simp add: sys_wf_def)
next
  fix b assume "b \<in> set (sys_log_list (sys\<lparr>sys_readers := (sys_readers sys)(r \<mapsto> rd')\<rparr>))"
  then obtain logb where b: "sys_logs sys b = Some logb" "log_wf logb" "log_readers_ok sys b logb"
    using sys_wfD(1) [OF wf] by auto
  have "r_log rd = b \<and> logb = log" if "r \<in> set (log_readers logb)"
    using b that r log by (auto simp: log_readers_ok_def)
  with b r log rd'
  show "\<exists>log. sys_logs (sys\<lparr>sys_readers := (sys_readers sys)(r \<mapsto> rd')\<rparr>) b = Some log \<and> log_wf log \<and>
    log_readers_ok (sys\<lparr>sys_readers := (sys_readers sys)(r \<mapsto> rd')\<rparr>) b log"
    by (auto simp: log_readers_ok_def)
next
  fix q qd assume "sys_readers (sys\<lparr>sys_readers := (sys_readers sys)(r \<mapsto> rd')\<rparr>) q = Some qd"
  with sys_wfD(2) [OF wf, of q qd] sys_wfD(2) [OF wf r] rd'
  show "r_log qd \<in> set (sys_log_list (sys\<lparr>sys_readers := (sys_readers sys)(r \<mapsto> rd')\<rparr>))"
    and "\<exists>log. sys_logs (sys\<lparr>sys_readers := (sys_readers sys)(r \<mapsto> rd')\<rparr>) (r_log qd) = Some log \<and>
      q \<in> set (log_readers log)"
    by (auto split: if_splits)
qed

lemma sys_write_inv:
  assumes "dev_inv (sys, files)" and "f \<in> set files"
    and "sys_write env cfi vz f data sys = Inr (ret, sys')"
  shows "dev_inv (sys', files)"
proof -
  have wf: "sys_wf sys" and f: "file_ok sys f" using assms(1,2) by (auto simp: list_all_iff)
  obtain a log where a: "file_get_log f sys = Inr a" "sys_logs sys a = Some log" "log_wf log"
    using file_log [OF wf f] by blast
  with assms(3) obtain log' where w: "logger_write_iter env cfi vz log data = Inr (ret, log')"
    and sys': "sys' = sys\<lparr>sys_logs := (sys_logs sys)(a \<mapsto> log')\<rparr>"
    by (auto simp: sys_write_def bindE_Inr_iff)
  have "sys_wf sys'"
    unfolding sys' using logger_write_iter_wf [OF w a(3)] by (intro sys_wf_update_log [OF wf a(2)]) auto
  with assms(1) show ?thesis by (simp add: sys' file_ok_def list_all_iff)
qed

lemma sys_read_inv:
  assumes "dev_inv (sys, files)" and "f \<in> set files" and "f_read f"
    and "sys_read fuel ctu nonblock euid buf count f sys = Inr (out, sys')"
  shows "dev_inv (sys', files)"
proof -
  have wf: "sys_wf sys" and f: "file_ok sys f" using assms(1,2) by (auto simp: list_all_iff)
  then obtain rd where rd: "sys_readers sys (f_private f) = Some rd"
    using assms(3) by (auto simp: file_ok_def)
  obtain log where log: "sys_logs sys (r_log rd) = Some log" "log_wf log" "r_off rd < log_size log"
    using sys_wfD(2) [OF wf rd] by blast
  let ?run = "logger_read fuel ctu nonblock euid buf count False rd [(log, False), (log, False), (log, False)]"
  have "bindE ?run (\<lambda>out. case out of
        Blocked reader' \<Rightarrow> Inr (out, sys\<lparr>sys_readers := (sys_readers sys)(f_private f \<mapsto> reader')\<rparr>)
      | Returned ret reader' chunks \<Rightarrow> Inr (out, sys\<lparr>sys_readers := (sys_readers sys)(f_private f \<mapsto> reader')\<rparr>)) =
      Inr (out, sys')"
    using assms(4) rd log(1) by (simp add: sys_read_def del: logger_read.simps)
  then obtain o' where run': "?run = Inr o'"
    and res: "(case o' of Blocked reader' \<Rightarrow> Inr (o', sys\<lparr>sys_readers := (sys_readers sys)(f_private f \<mapsto> reader')\<rparr>)
      | Returned ret reader' chunks \<Rightarrow> Inr (o', sys\<lparr>sys_readers := (sys_readers sys)(f_private f \<mapsto> reader')\<rparr>)) =
      (Inr (out, sys') :: (read_outcome \<times> logger_sys) chk)"
    unfolding bindE_Inr_iff by blast
  from res have sys': "sys' = sys\<lparr>sys_readers := (sys_readers sys)(f_private f \<mapsto> outcome_reader out)\<rparr>"
    and "o' = out" by (cases o'; auto)+
  note run = run' [unfolded \<open>o' = out\<close>]
  have "r_off (outcome_reader out) < log_size log \<and> r_log (outcome_reader out) = r_log rd"
    using logger_read_reader [OF run, of "log_size log"] log by simp
  then have "sys_wf sys'"
    unfolding sys' by (intro sys_wf_update_reader [OF wf rd log(1)]) auto
  with assms(1) show ?thesis by (auto simp: sys' file_ok_def list_all_iff)
qed

lemma get_log_from_minor_safe:
  assumes "sys_wf sys"
  shows "\<exists>found. get_log_from_minor sys minor = Inr found \<and>
    (\<forall>a. found = Some a \<longrightarrow> a \<in> set (sys_log_list sys))"
proof -
  have "\<exists>found. get_log_from_minor_loop (sys_logs sys) minor as = Inr found \<and>
      (\<forall>a. found = Some a \<longrightarrow> a \<in> set as)" if "set as \<subseteq> set (sys_log_list sys)" for as
    using that sys_wfD(1) [OF assms] by (induction as) fastforce+
  then show ?thesis by (simp add: get_log_from_minor_def)
qed

lemma logger_open_inv:
  assumes inv: "dev_inv (sys, files)" and mem: "\<And>r. mem = Some r \<Longrightarrow> sys_readers sys r = None"
    and op: "logger_open nonseek mem in_group capable fmode_read minor sys = Inr (ret, fo, sys')"
  shows "dev_inv (sys', case fo of None \<Rightarrow> files | Some f \<Rightarrow> f # files)"
proof -
  have wf: "sys_wf sys" using inv by simp
  obtain found where found: "get_log_from_minor sys minor = Inr found"
    and mem_list: "\<And>a. found = Some a \<Longrightarrow> a \<in> set (sys_log_list sys)"
    using get_log_from_minor_safe [OF wf] by blast
  let ?reader = "\<lambda>a log. \<lparr>r_log = a, r_off = log_head log, r_all = (in_group \<or> capable), r_ver = 1\<rparr>"
  let ?opened = "\<lambda>a r log. sys\<lparr>sys_readers := (sys_readers sys)(r \<mapsto> ?reader a log),
    sys_logs := (sys_logs sys)(a \<mapsto> log\<lparr>log_readers := log_readers log @ [r]\<rparr>)\<rparr>"
  have cases: "(sys' = sys \<and> (fo = None \<or> (\<exists>a \<in> set (sys_log_list sys). fo = Some \<lparr>f_read = False, f_private = a\<rparr>))) \<or>
    (\<exists>a r log. a \<in> set (sys_log_list sys) \<and> mem = Some r \<and> sys_logs sys a = Some log \<and>
       fo = Some \<lparr>f_read = True, f_private = r\<rparr> \<and> sys' = ?opened a r log)"
  proof (cases "nonseek \<noteq> 0 \<or> found = None")
    case True
    with op found show ?thesis by (cases "nonseek = 0") (auto simp: logger_open_def)
  next
    case False
    then obtain a where a: "found = Some a" "nonseek = 0" "a \<in> set (sys_log_list sys)" using mem_list by auto
    obtain log where log: "sys_logs sys a = Some log" using sys_wfD(1) [OF wf a(3)] by blast
    show ?thesis
    proof (cases fmode_read)
      case False
      with op found a show ?thesis by (auto simp: logger_open_def)
    next
      case True
      show ?thesis
      proof (cases mem)
        case None
        with True op found a show ?thesis by (simp add: logger_open_def)
      next
        case (Some r)
        with True op found a log have "fo = Some \<lparr>f_read = True, f_private = r\<rparr>" "sys' = ?opened a r log"
          by (simp_all add: logger_open_def)
        with a(3) Some log show ?thesis by blast
      qed
    qed
  qed
  then consider (same) "sys' = sys" "fo = None \<or> (\<exists>a \<in> set (sys_log_list sys). fo = Some \<lparr>f_read = False, f_private = a\<rparr>)"
    | (reader) a r log where "a \<in> set (sys_log_list sys)" "mem = Some r" "sys_logs sys a = Some log"
        "fo = Some \<lparr>f_read = True, f_private = r\<rparr>" "sys' = ?opened a r log"
    by blast
  then show ?thesis
  proof cases
    case same
    with inv show ?thesis by (auto simp: file_ok_def)
  next
    case (reader a r log)
    note fresh = mem [OF reader(2)]
    have log: "log_wf log" "log_readers_ok sys a log" using sys_wfD(1) [OF wf reader(1)] reader(3) by auto
    have notin: "r \<notin> set (log_readers logb)" if "sys_logs sys b = Some logb" "b \<in> set (sys_log_list sys)" for b logb
      using sys_wfD(1) [OF wf that(2)] that(1) fresh by (auto simp: log_readers_ok_def)
    have "sys_wf sys'"
      unfolding sys_wf_def
    proof (intro conjI ballI allI impI)
      show "distinct (sys_log_list sys')" using wf by (simp add: reader sys_wf_def)
    next
      fix b assume b: "b \<in> set (sys_log_list sys')"
      then obtain logb where lb: "sys_logs sys b = Some logb" "log_wf logb" "log_readers_ok sys b logb"
        using sys_wfD(1) [OF wf, of b] by (auto simp: reader)
      with b notin [of b logb] log show "\<exists>log. sys_logs sys' b = Some log \<and> log_wf log \<and> log_readers_ok sys' b log"
        using reader(3) by (cases "b = a") (auto simp: reader log_readers_ok_def log_wf_def)
    next
      fix q qd assume "sys_readers sys' q = Some qd"
      with sys_wfD(2) [OF wf, of q qd] reader(1,3) fresh
      show "r_log qd \<in> set (sys_log_list sys')"
        and "\<exists>log. sys_logs sys' (r_log qd) = Some log \<and> q \<in> set (log_readers log)"
        by (auto simp: reader(5) split: if_splits)
    qed
    with inv fresh reader show ?thesis
      by (auto simp: file_ok_def list_all_iff set_reader_files)
  qed
qed

lemma logger_release_safe:
  assumes "sys_wf sys" and "file_ok sys f"
  shows "\<exists>sys'. logger_release f sys = Inr (0, sys')"
proof (cases "f_read f")
  case True
  with assms(2) obtain rd where "sys_readers sys (f_private f) = Some rd" by (auto simp: file_ok_def)
  with sys_wfD(2) [OF assms(1) this] show ?thesis by (auto simp: logger_release_def)
qed (simp add: logger_release_def)

lemma logger_release_inv:
  assumes inv: "dev_inv (sys, files)" and f: "f \<in> set files"
    and rel: "logger_release f sys = Inr (ret, sys')"
  shows "dev_inv (sys', remove1 f files)"
proof (cases "f_read f")
  case False
  with rel have "sys' = sys" by (simp add: logger_release_def)
  with inv f False show ?thesis
    by (auto simp: reader_files_remove1 list_all_iff dest: notin_set_remove1)
next
  case True
  have wf: "sys_wf sys" and ok: "file_ok sys f" using inv f by (auto simp: list_all_iff)
  obtain rd where rd: "sys_readers sys (f_private f) = Some rd" using ok True by (auto simp: file_ok_def)
  obtain log where log: "sys_logs sys (r_log rd) = Some log" "log_wf log" "log_readers_ok sys (r_log rd) log"
    "r_log rd \<in> set (sys_log_list sys)"
    using sys_wfD(2) [OF wf rd] by blast
  let ?log = "log\<lparr>log_readers := remove1 (f_private f) (log_readers log)\<rparr>"
  have sys': "sys' = sys\<lparr>sys_logs := (sys_logs sys)(r_log rd \<mapsto> ?log),
      sys_readers := (sys_readers sys)(f_private f := None)\<rparr>"
    using rel True rd log by (simp add: logger_release_def)
  have "sys_wf sys'"
    unfolding sys_wf_def
  proof (intro conjI ballI allI impI)
    show "distinct (sys_log_list sys')" using wf by (simp add: sys' sys_wf_def)
  next
    fix b assume "b \<in> set (sys_log_list sys')"
    then obtain logb where lb: "sys_logs sys b = Some logb" "log_wf logb" "log_readers_ok sys b logb"
      using sys_wfD(1) [OF wf, of b] by (auto simp: sys')
    have "f_private f \<notin> set (log_readers logb)" if "b \<noteq> r_log rd"
      using lb(3) that rd by (auto simp: log_readers_ok_def)
    with lb log show "\<exists>log. sys_logs sys' b = Some log \<and> log_wf log \<and> log_readers_ok sys' b log"
      by (cases "b = r_log rd") (auto simp: sys' log_readers_ok_def log_wf_def)
  next
    fix q qd assume q: "sys_readers sys' q = Some qd"
    then have "sys_readers sys q = Some qd" "q \<noteq> f_private f" by (auto simp: sys' split: if_splits)
    with sys_wfD(2) [OF wf, of q qd] log(1)
    show "r_log qd \<in> set (sys_log_list sys')"
      and "\<exists>log. sys_logs sys' (r_log qd) = Some log \<and> q \<in> set (log_readers log)"
      by (auto simp: sys' in_set_remove1)
  qed
  moreover have "file_ok sys' g" if "g \<in> set (remove1 f files)" for g
  proof -
    from that inv f True have "f_private g \<noteq> f_private f" if "f_read g"
      using that reader_files_remove1 [of files f] set_reader_files [of "remove1 f files"]
      by auto
    moreover have "g \<in> set files" using that set_remove1_subset [of f files] by blast
    ultimately show ?thesis using inv by (auto simp: file_ok_def sys' list_all_iff)
  qed
  ultimately show ?thesis
    using inv f by (simp add: reader_files_remove1 list_all_iff)
qed

section \<open>From a successful start\<close>

definition create_env_ok :: "create_env \<Rightarrow> nat \<Rightarrow> bool" where
  "create_env_ok env nbytes \<longleftrightarrow>
     (\<forall>buffer. ce_vmalloc env = Some buffer \<longrightarrow> length buffer = nbytes)"

text \<open>
  What \<open>vmalloc\<close> and \<open>kzalloc\<close> promise: the size asked for, and a different address each
  time.
\<close>

definition init_envs_ok :: "create_env \<times> create_env \<times> create_env \<times> create_env \<Rightarrow> bool" where
  "init_envs_ok envs =
     (case envs of (e1, e2, e3, e4) \<Rightarrow>
        create_env_ok e1 (512 * 1024) \<and> create_env_ok e2 1024 \<and>
        create_env_ok e3 1024 \<and> create_env_ok e4 1024 \<and>
        distinct (map ce_kzalloc [e1, e2, e3, e4]))"

lemma create_log_ok:
  assumes wf: "sys_wf sys" and ok: "create_env_ok env (nat nbytes)"
    and size: "ring_size_ok (of_int nbytes)" "unat (of_int nbytes :: u64) = nat nbytes"
    and dom: "dom (sys_logs sys) = set (sys_log_list sys)"
    and fresh: "ce_kzalloc env \<notin> Some ` set (sys_log_list sys)"
    and cr: "create_log env name nbytes sys = (0, sys')"
  obtains a where "ce_kzalloc env = Some a" and "sys_log_list sys' = sys_log_list sys @ [a]"
    and "dom (sys_logs sys') = set (sys_log_list sys')"
    and "sys_readers sys' = sys_readers sys" and "sys_wf sys'"
proof -
  from cr obtain buffer a where b: "ce_vmalloc env = Some buffer" "ce_kzalloc env = Some a"
    and sys': "sys' = sys\<lparr>sys_logs := (sys_logs sys)(a \<mapsto> \<lparr>log_buffer = buffer, log_minor = ce_minor env,
        log_name = name, log_readers = [], log_w_off = 0, log_head = 0, log_size = of_int nbytes\<rparr>),
      sys_log_list := sys_log_list sys @ [a], sys_misc := a # sys_misc sys\<rparr>"
    by (auto simp: create_log_def Let_def split: option.splits if_splits)
  have "(0 :: u64) < of_int nbytes"
    using ring_size_bounds(1) [OF size(1)] by (simp add: word_less_nat_alt)
  moreover have a: "a \<notin> set (sys_log_list sys)" using fresh b(2) by auto
  ultimately have "sys_wf sys'"
    using b ok size wf unfolding sys_wf_def sys'
    by (fastforce simp: create_env_ok_def log_wf_def log_readers_ok_def)
  then show thesis
    using dom by (intro that [OF b(2)]) (auto simp: sys')
qed

lemma sys_wf_empty: "sys_wf logger_sys_empty"
  by (simp add: sys_wf_def logger_sys_empty_def)

lemma ring_sizes: "ring_size_ok 0x80000" "ring_size_ok 0x400"
  by (simp_all add: ring_size_ok_def upt_rec_numeral)

lemma logger_init_wf:
  assumes ok: "init_envs_ok envs" and run: "logger_init envs logger_sys_empty = (0, sys)"
  shows "sys_wf sys \<and> sys_readers sys = (\<lambda>_. None) \<and> length (sys_log_list sys) = 4"
proof -
  obtain e1 e2 e3 e4 where envs: "envs = (e1, e2, e3, e4)" by (cases envs) auto
  have e: "create_env_ok e1 (nat (512 * 1024))" "create_env_ok e2 (nat (1 * 1024))"
    "create_env_ok e3 (nat (1 * 1024))" "create_env_ok e4 (nat (1 * 1024))"
    and dist: "distinct (map ce_kzalloc [e1, e2, e3, e4])"
    using ok by (simp_all add: init_envs_ok_def envs)
  from run obtain s1 s2 s3 where c:
    "create_log e1 ''log_main'' (512 * 1024) logger_sys_empty = (0, s1)"
    "create_log e2 ''log_system'' (1 * 1024) s1 = (0, s2)"
    "create_log e3 ''log_events'' (1 * 1024) s2 = (0, s3)"
    "create_log e4 ''log_radio'' (1 * 1024) s3 = (0, sys)"
    by (simp add: logger_init_def envs split: prod.splits if_splits)
  have sz: "ring_size_ok (of_int (512 * 1024))" "unat (of_int (512 * 1024) :: u64) = nat (512 * 1024)"
    "ring_size_ok (of_int (1 * 1024))" "unat (of_int (1 * 1024) :: u64) = nat (1 * 1024)"
    using ring_sizes by simp_all
  have s0: "dom (sys_logs logger_sys_empty) = set (sys_log_list logger_sys_empty)"
    "ce_kzalloc e1 \<notin> Some ` set (sys_log_list logger_sys_empty)"
    by (simp_all add: logger_sys_empty_def)
  obtain a1 where s1: "ce_kzalloc e1 = Some a1" "sys_log_list s1 = sys_log_list logger_sys_empty @ [a1]"
    "dom (sys_logs s1) = set (sys_log_list s1)" "sys_readers s1 = sys_readers logger_sys_empty" "sys_wf s1"
    using create_log_ok [OF sys_wf_empty e(1) sz(1,2) s0 c(1)] by blast
  have l1: "sys_log_list s1 = [a1]" using s1(2) by (simp add: logger_sys_empty_def)
  have "ce_kzalloc e2 \<notin> Some ` set (sys_log_list s1)" using l1 s1(1) dist by auto
  then obtain a2 where s2: "ce_kzalloc e2 = Some a2" "sys_log_list s2 = sys_log_list s1 @ [a2]"
    "dom (sys_logs s2) = set (sys_log_list s2)" "sys_readers s2 = sys_readers s1" "sys_wf s2"
    using create_log_ok [OF s1(5) e(2) sz(3,4) s1(3) _ c(2)] by blast
  have "ce_kzalloc e3 \<notin> Some ` set (sys_log_list s2)" using l1 s1(1) s2(1,2) dist by auto
  then obtain a3 where s3: "ce_kzalloc e3 = Some a3" "sys_log_list s3 = sys_log_list s2 @ [a3]"
    "dom (sys_logs s3) = set (sys_log_list s3)" "sys_readers s3 = sys_readers s2" "sys_wf s3"
    using create_log_ok [OF s2(5) e(3) sz(3,4) s2(3) _ c(3)] by blast
  have "ce_kzalloc e4 \<notin> Some ` set (sys_log_list s3)" using l1 s1(1) s2(1,2) s3(1,2) dist by auto
  then obtain a4 where "sys_log_list sys = sys_log_list s3 @ [a4]" "sys_readers sys = sys_readers s3" "sys_wf sys"
    using create_log_ok [OF s3(5) e(4) sz(3,4) s3(3) _ c(4)] by blast
  then show ?thesis
    using l1 s2(2,4) s3(2,4) s1(4) by (simp add: logger_sys_empty_def)
qed

definition dev_init :: "dev_state \<Rightarrow> bool" where
  "dev_init s \<longleftrightarrow>
     (\<exists>envs. init_envs_ok envs \<and> logger_init envs logger_sys_empty = (0, fst s)) \<and> snd s = []"

lemma dev_step_inv: "dev_step s t \<Longrightarrow> dev_inv s \<Longrightarrow> dev_inv t"
proof (induction rule: dev_step.induct)
  case (step_open mem sys nonseek in_group capable fmode_read minor ret fo sys' files)
  then show ?case using logger_open_inv [OF _ _ step_open(2)] by blast
next
  case (step_release f files sys ret sys')
  then show ?case using logger_release_inv by blast
next
  case (step_write f files env cfi vz data sys ret sys')
  then show ?case using sys_write_inv by blast
next
  case (step_read f files fuel ctu nonblock euid buf count sys out sys')
  then show ?case using sys_read_inv by blast
qed

interpretation device: invariant_system dev_init dev_step dev_inv
proof unfold_locales
  fix s assume init: "dev_init s"
  obtain sys files where s: "s = (sys, files)" by (cases s)
  from init have files: "files = []" unfolding dev_init_def s by simp
  from init obtain envs where "init_envs_ok envs" "logger_init envs logger_sys_empty = (0, sys)"
    unfolding dev_init_def s fst_conv by blast
  then show "dev_inv s" using logger_init_wf [of envs sys] by (simp add: s files)
qed (rule dev_step_inv)

end
