(* ===== verification/Logger_Props.thy ===== *)
theory Logger_Props
  imports Logger_Safety
begin

text \<open>
  The properties of the log driver: the log is a queue of records, what a write and a read
  do to it, where an access leaves the buffer, and what the devices keep.
\<close>

section \<open>Small logs for the witnesses\<close>

text \<open>A zeroed ring of \<open>n\<close> bytes, and the environment of a writer.\<close>

definition ex_log :: "u64 \<Rightarrow> logger_log" where
  "ex_log n = \<lparr>log_buffer = replicate (unat n) 0, log_minor = 1, log_name = ''log_main'',
     log_readers = [], log_w_off = 0, log_head = 0, log_size = n\<rparr>"

definition ex_env :: write_env where
  "ex_env = \<lparr>cur_tgid = 7, cur_pid = 8, cur_euid = 1000,
     ktime_now = 5000000001, ktime_real_now = 1600000000000000002\<rparr>"

definition ex_reader :: logger_reader where
  "ex_reader = \<lparr>r_log = 1, r_off = 0, r_all = True, r_ver = 1\<rparr>"

definition ex_cfi :: cfi where "ex_cfi rest n = take n rest"

definition ex_ctu :: ctu where "ex_ctu dst bytes = 0"

lemma ex_cfi_full: "cfi_full ex_cfi"
  by (simp add: cfi_full_def ex_cfi_def)

lemma ex_ctu_full: "ctu_full ex_ctu"
  by (simp add: ctu_full_def ex_ctu_def)

lemma ring_size_128: "ring_size_ok 0x80" "ring_size_ok 0x40" "ring_size_ok 0x400" "ring_size_ok 0x80000"
  by (simp_all add: ring_size_ok_def upt_rec_numeral)

lemma ex_log_wf: "ring_size_ok n \<Longrightarrow> log_wf (ex_log n)"
  using ring_size_bounds(3) [of n] by (simp add: log_wf_def ex_log_def word_gt_0)

lemma ex_log_holds: "ring_size_ok n \<Longrightarrow> log_holds (ex_log n) 0 []"
  using ring_size_bounds(1,3) [of n] by (simp add: log_holds_def ex_log_def word_gt_0)

lemma ex_log_simps:
  "log_size (ex_log n) = n" "log_w_off (ex_log n) = 0" "log_head (ex_log n) = 0"
  by (simp_all add: ex_log_def)

lemma ex_payload_off: "logger_offset (ex_log 0x80) 32 = 32" "logger_offset (ex_log 0x400) 32 = 32"
  "logger_offset (ex_log 0x40) 32 = 32"
  by (simp_all add: logger_offset_def ex_log_def)

section \<open>The log is a queue\<close>




lemma logger_read_first:
  assumes "log_wf log" and "log_holds log (r_off reader) ((e, p) # es)" and "ctu_full ctu"
    and "r_all reader" and "32 + length p \<le> unat count"
  shows "\<exists>reader' out.
    logger_read fuel ctu nonblock euid buf count False reader ((log, s1) # (log, s2) # snaps) =
      Inr (Returned (32 + int (length p)) reader' out) \<and>
    concat (map snd out) = entry_bytes e @ p \<and> contiguous buf out \<and>
    log_holds log (r_off reader') es"
proof -
  note first = log_holds_first [OF assms(1,2)]
  have ne: "log_w_off log \<noteq> r_off reader" using log_holds_empty_iff [OF assms(2)] by simp
  have msg: "get_entry_msg_len log (r_off reader) = Inr (ucast (le_len e))"
    by (simp add: get_entry_msg_len_def first(1))
  have uu: "ucast (ucast (le_len e) :: u32) = (ucast (le_len e) :: u64)"
    by (simp add: word_unat_eq_iff unat_ucast_u16_u64 unat_ucast_u16_u32_u64)
  have "unat (SIZEOF_ENTRY + ucast (le_len e) :: u64) = 32 + length p"
    using assms(2) unat_entry_nr [of "le_len e"] by (simp add: uu log_holds_def)
  with assms(5) have big: "\<not> count < SIZEOF_ENTRY + ucast (le_len e)"
    by (simp add: word_less_nat_alt)
  obtain out where out: "do_read_log_to_user ctu log reader buf (SIZEOF_ENTRY + ucast (le_len e)) =
      Inr (32 + int (length p),
        reader\<lparr>r_off := logger_offset log (r_off reader + SIZEOF_ENTRY + ucast (le_len e))\<rparr>, out)"
    "concat (map snd out) = entry_bytes e @ p" "contiguous buf out"
    using do_read_log_to_user_holds [OF assms(1-3)] by blast
  show ?thesis
    using assms(4) ne big out first(3) by (simp add: msg get_user_hdr_len_def Let_def uu)
qed

text \<open>C2: a reader that may read every record, whose buffer holds the 32 bytes of the header and the payload of
  the record it finds, takes this record whole, provided that the copy to user memory succeeds: the read
  returns the length of header and payload, the chunks copied to the user lie one behind
  the other in the user's buffer and are the header and the payload, and what is left for
  the reader is the rest of the queue.\<close>

theorem read_takes_first_record:
  assumes "log_wf log" and "log_holds log (r_off reader) ((e, p) # es)" and "ctu_full ctu"
    and "r_all reader" and "32 + length p \<le> unat count"
  shows "\<exists>reader' out.
    logger_read fuel ctu nonblock euid buf count False reader ((log, s1) # (log, s2) # snaps) =
      Inr (Returned (32 + int (length p)) reader' out) \<and>
    concat (map snd out) = entry_bytes e @ p \<and> contiguous buf out \<and>
    log_holds log (r_off reader') es"
  by (rule logger_read_first [OF assms])




text \<open>A queue with one record, for the witnesses about readers.\<close>

definition ex_log1 :: logger_log where
  "ex_log1 = (ex_log 0x80)\<lparr>
     log_buffer := ring_put (log_buffer (ex_log 0x80)) 0 (entry_bytes (write_header ex_env 2) @ [104, 105]),
     log_w_off := 34\<rparr>"

lemma ex_log1: "log_wf ex_log1" "log_holds ex_log1 0 [(write_header ex_env 2, [104, 105])]"
proof -
  have "log_wf ex_log1 \<and> log_holds ex_log1 0 ([] @ [(write_header ex_env 2, [104, 105])])"
    using log_holds_put [OF ex_log_wf ex_log_holds, of "0x80" "(write_header ex_env 2, [104, 105])" 34]
    by (simp add: ring_size_128 ex_log_simps ex_log1_def write_header_len)
  then show "log_wf ex_log1" "log_holds ex_log1 0 [(write_header ex_env 2, [104, 105])]"
    by simp_all
qed

theorem read_takes_first_record_witness:
  "\<exists>reader' out. logger_read 1 ex_ctu False 0 0 100 False ex_reader [(ex_log1, False), (ex_log1, False)] =
      Inr (Returned 34 reader' out) \<and>
    concat (map snd out) = entry_bytes (write_header ex_env 2) @ [104, 105] \<and> contiguous 0 out \<and>
    log_holds ex_log1 (r_off reader') []"
  using read_takes_first_record [OF ex_log1(1) _ ex_ctu_full, of ex_reader "write_header ex_env 2" "[104, 105]" "[]" 100 1 False 0 0 False False "[]"]
    ex_log1(2)
  by (simp add: ex_reader_def del: logger_read.simps)

text \<open>A reader whose buffer is too small for its next record gets \<open>-EINVAL\<close>, nothing is
  copied to it and it keeps its place.\<close>

theorem read_short_buffer_keeps_record:
  assumes "log_wf log" and "log_holds log (r_off reader) ((e, p) # es)"
    and "r_all reader" and "unat count < 32 + length p"
  shows "logger_read fuel ctu nonblock euid buf count False reader ((log, s1) # (log, s2) # snaps) =
    Inr (Returned (- EINVAL) reader [])"
proof -
  note first = log_holds_first [OF assms(1,2)]
  have ne: "log_w_off log \<noteq> r_off reader" using log_holds_empty_iff [OF assms(2)] by simp
  have msg: "get_entry_msg_len log (r_off reader) = Inr (ucast (le_len e))"
    by (simp add: get_entry_msg_len_def first(1))
  have "count < SIZEOF_ENTRY + ucast (ucast (le_len e) :: u32)"
    using assms(2,4) unfolding word_less_nat_alt unat_entry_nr by (simp add: log_holds_def)
  with ne assms(3) show ?thesis
    by (simp add: msg get_user_hdr_len_def Let_def)
qed

theorem read_short_buffer_keeps_record_witness:
  "logger_read 1 ex_ctu False 0 0 33 False ex_reader [(ex_log1, False), (ex_log1, False)] =
    Inr (Returned (- EINVAL) ex_reader [])"
  using read_short_buffer_keeps_record [OF ex_log1(1), of ex_reader "write_header ex_env 2" "[104, 105]" "[]" 33 1 ex_ctu False 0 0 False False "[]"]
    ex_log1(2)
  by (simp add: ex_reader_def del: logger_read.simps)

text \<open>The header records the payload length and the clocks: seconds and nanoseconds
  together give back the nanosecond count, and the nanoseconds stay below a second.\<close>

theorem write_header_clock:
  assumes "unat (ktime_now env) < 2 ^ 32 * 1000000000"
  shows "unat (le_sec (write_header env (write_count data))) * 1000000000 +
      unat (le_nsec (write_header env (write_count data))) = unat (ktime_now env) \<and>
    unat (le_nsec (write_header env (write_count data))) < 1000000000 \<and>
    unat (le_len (write_header env (write_count data))) = unat (write_count data) \<and>
    le_hdr_size (write_header env (write_count data)) = 32"
proof -
  let ?h = "write_header env (write_count data)" and ?n = "unat (ktime_now env)"
  have u: "unat (ucast w :: u32) = take_bit LENGTH(32) (unat w)" for w :: u64
    by (rule unsigned_ucast_eq)
  have d: "unat (ktime_now env div 1000000000) = ?n div 1000000000"
    "unat (ktime_now env mod 1000000000) = ?n mod 1000000000"
    by (simp_all add: unat_div unat_mod)
  have "?n div 1000000000 < 2 ^ 32" using assms by (simp add: div_less_iff_less_mult)
  then have sec: "unat (le_sec ?h) = ?n div 1000000000"
    by (simp add: write_header_def do_div_def u d take_bit_nat_eq_self_iff)
  have "?n mod 1000000000 < 2 ^ 32" by (rule order.strict_trans [of _ 1000000000]) simp_all
  then have nsec: "unat (le_nsec ?h) = ?n mod 1000000000"
    by (simp add: write_header_def do_div_def u d take_bit_nat_eq_self_iff)
  show ?thesis
    using unat_write_header_len [of env data] by (simp add: sec nsec) (simp add: write_header_def do_div_def)
qed

theorem write_header_clock_witness:
  "unat (le_sec (write_header ex_env (write_count []))) * 1000000000 +
    unat (le_nsec (write_header ex_env (write_count []))) = 5000000001"
  using write_header_clock [of ex_env "[]"] by (simp add: ex_env_def)

section \<open>Where an access leaves the buffer\<close>

text \<open>For a payload not larger than the ring, the write handler reads outside the buffer
  exactly when the payload goes round the end of the array: the copy made for the debug
  message takes all its bytes from one place.\<close>

theorem write_overread_iff_wraps:
  assumes "log_wf log" and "cfi_full cfi" and "data \<noteq> []" and "length data < 2 ^ 64"
    and "unat (write_count data) \<le> unat (log_size log)"
  shows "logger_write_iter env cfi True log data = Inl OutOfBounds \<longleftrightarrow>
    unat (log_size log) < unat (payload_off log) + unat (write_count data)"
  using logger_write_iter_ok [OF assms(1-4), of env] logger_write_iter_overread [OF assms, of env]
  by (cases "unat (log_size log) < unat (payload_off log) + unat (write_count data)") auto

text \<open>A ring of 128 bytes with \<open>w_off = 80\<close>: the header ends at 112 and 16 bytes are left.\<close>

theorem write_overread_iff_wraps_witness:
  "logger_write_iter ex_env ex_cfi True ((ex_log 0x80)\<lparr>log_w_off := 80\<rparr>) (replicate 17 65) = Inl OutOfBounds"
proof -
  have wf: "log_wf ((ex_log 0x80)\<lparr>log_w_off := 80\<rparr>)"
    using ex_log_wf [OF ring_size_128(1)] by (simp add: log_wf_def ex_log_simps)
  have "write_count (replicate 17 65) = 17" by (simp add: write_count_def)
  then show ?thesis
    using write_overread_iff_wraps [OF wf ex_cfi_full, of "replicate 17 65" ex_env]
    by (simp add: ex_log_simps logger_offset_def)
qed

text \<open>The logs of one kilobyte are smaller than the payload the handler accepts: whatever
  the offset, a payload of 4096 bytes is written beyond the end of such a buffer.\<close>

theorem small_log_overflow:
  assumes "log_wf log" and "log_size log = 1024" and "cfi_full cfi"
    and "4096 \<le> length data" and "length data < 2 ^ 64"
  shows "logger_write_ring cfi header log data (write_count data) = Inl OutOfBounds"
  using assms
  by (intro logger_write_ring_overflow write_count_le_length)
    (simp_all add: unat_write_count)

theorem small_log_overflow_witness:
  "logger_write_ring ex_cfi (write_header ex_env 4096) (ex_log 0x400) (replicate 4096 65)
     (write_count (replicate 4096 65)) = Inl OutOfBounds"
  by (rule small_log_overflow [OF ex_log_wf [OF ring_size_128(3)]])
    (simp_all add: ex_log_simps ex_cfi_full)

lemma do_read_log_to_user_large:
  assumes wf: "log_wf log" and r: "r_off reader < log_size log" and n: "unat n \<le> unat (log_size log)"
  shows "\<exists>x. do_read_log_to_user ctu log reader buf (SIZEOF_ENTRY + n) = Inr x"
proof -
  let ?m = "logger_offset log (r_off reader + SIZEOF_ENTRY)"
  define len where "len = min n (log_size log - ?m)"
  obtain a b where ab: "mem_read (log_buffer log) (unat ?m) (unat len) = Inr a"
    "mem_read (log_buffer log) 0 (unat (n - len)) = Inr b"
    using payload_pieces [OF wf logger_offset_less [OF wf] n] unfolding len_def by blast
  have hdr: "SIZEOF_ENTRY + n - SIZEOF_ENTRY = n" by simp
  show ?thesis
    by (simp only: do_read_log_to_user_def get_entry_header_wf [OF wf r] bindE_simps Let_def
      copy_header_to_user_def get_user_hdr_len_def split_conv hdr len_def [symmetric] ab) auto
qed

text \<open>In a ring of at least 64 kilobytes, such as the main log, a read by a reader that may
  read everything stays inside the buffer and returns or sleeps, whatever bytes the ring
  holds, and leaves its offset inside the ring.\<close>

theorem large_log_read_safe:
  assumes "list_all (\<lambda>(log, sig). log_wf log \<and> log_size log = s) snaps"
    and "65536 \<le> unat s" and "r_all reader" and "r_off reader < s"
  shows "\<exists>out. logger_read fuel ctu nonblock euid buf count locked reader snaps = Inr out \<and>
    r_off (outcome_reader out) < s"
proof -
  have "\<exists>out. logger_read fuel ctu nonblock euid buf count locked reader snaps = Inr out"
    using assms
  proof (induction fuel ctu nonblock euid buf count locked reader snaps rule: logger_read.induct)
    case (3 fuel ctu nonblock euid buf count reader log signal snaps)
    then have wf: "log_wf log" "log_size log = s" "r_off reader < log_size log" by auto
    let ?n = "ucast (ucast (le_len (entry_of_bytes (ring_slice (log_buffer log) (unat (r_off reader)) 32))) :: u32) :: u64"
    have "unat ?n \<le> unat (log_size log)"
      using 3(3) wf(2) unat_u16_less by (metis less_imp_le_nat less_le_trans unat_ucast_u16_u32_u64)
    then obtain x where "do_read_log_to_user ctu log reader buf (SIZEOF_ENTRY + ?n) = Inr x"
      using do_read_log_to_user_large [OF wf(1,3)] by blast
    moreover have "\<exists>out. logger_read fuel ctu nonblock euid buf count False reader snaps = Inr out"
      if "log_w_off log = r_off reader"
      using 3(1) [of reader "r_off reader"] 3(2-5) wf that by simp
    ultimately show ?case
      using 3(4) by (simp add: get_entry_msg_len_wf [OF wf(1,3)] get_user_hdr_len_def Let_def split: prod.splits)
  qed auto
  then obtain out where out: "logger_read fuel ctu nonblock euid buf count locked reader snaps = Inr out"
    by blast
  moreover have "\<forall>(log, sig) \<in> set snaps. log_wf log \<and> log_size log = s"
    using assms(1) by (simp add: list_all_iff)
  ultimately show ?thesis
    using logger_read_reader [OF out _ assms(4)] by blast
qed

theorem large_log_read_safe_witness:
  "\<exists>out. logger_read 1 ex_ctu False 0 0 100 False (ex_reader\<lparr>r_off := 5\<rparr>)
     [(ex_log 0x80000, False), (ex_log 0x80000, True)] = Inr out \<and> r_off (outcome_reader out) < 0x80000"
  by (rule large_log_read_safe)
    (simp_all add: ex_log_wf ring_size_128 ex_log_simps ex_reader_def)

section \<open>Skipping and losing records\<close>

lemma by_uid_fixpoint:
  assumes "get_entry_header log off = Inr e" and "le_euid e \<noteq> euid" and "log_w_off log \<noteq> off"
    and "logger_offset log (SIZEOF_ENTRY + ucast (le_len e)) = off"
  shows "get_next_entry_by_uid fuel log off euid = Inl OutOfFuel"
  using assms by (induction fuel) simp_all

text \<open>The search for a reader's own records does not return when the log holds, from
  offset 0, two or more records of one size, none of them the reader's: the offset of the
  next entry is computed from the start of the buffer, so the search stays at the second
  record for ever.\<close>

theorem by_uid_search_diverges:
  assumes "log_wf log" and "log_holds log 0 ((e1, p1) # (e2, p2) # es)"
    and "le_len e1 = le_len e2" and "le_euid e1 \<noteq> euid" and "le_euid e2 \<noteq> euid"
  shows "get_next_entry_by_uid fuel log 0 euid = Inl OutOfFuel"
proof -
  let ?off = "logger_offset log (SIZEOF_ENTRY + ucast (le_len e1))"
  note first = log_holds_first [OF assms(1,2)]
  have h2: "log_holds log ?off ((e2, p2) # es)" using first(3) by simp
  have "get_next_entry_by_uid k log ?off euid = Inl OutOfFuel" for k
    using log_holds_first(1) [OF assms(1) h2] assms(3,5) log_holds_empty_iff [OF h2]
    by (intro by_uid_fixpoint) simp_all
  then show ?thesis
    using first(1) assms(4) log_holds_empty_iff [OF assms(2)] by (cases fuel) simp_all
qed

theorem by_uid_search_diverges_witness:
  "\<exists>log. log_wf log \<and> log_holds log 0 (replicate 2 (write_header ex_env 2, [104, 105])) \<and>
     (\<forall>fuel. get_next_entry_by_uid fuel log 0 1001 = Inl OutOfFuel)"
proof -
  let ?r = "(write_header ex_env 2, [104, 105])"
  define log where "log = ex_log1\<lparr>log_buffer := ring_put (log_buffer ex_log1) (unat (log_w_off ex_log1)) (record_bytes ?r),
      log_w_off := 68\<rparr>"
  have "log_wf log \<and> log_holds log 0 ([?r] @ [?r])"
    unfolding log_def using ex_log1
    by (intro log_holds_put) (simp_all add: ex_log1_def write_header_len ex_log_simps)
  then have log: "log_wf log" "log_holds log 0 [?r, ?r]" by simp_all
  have "get_next_entry_by_uid fuel log 0 1001 = Inl OutOfFuel" for fuel
    using by_uid_search_diverges [OF log, of 1001 fuel] by (simp add: write_header_def do_div_def ex_env_def)
  with log show ?thesis by (auto simp: numeral_2_eq_2)
qed

text \<open>Stepping from an entry by at least \<open>len\<close> bytes always ends, with fuel for one turn
  per 32 bytes: it passes a whole number of entries, at least one, whose sizes add up to
  \<open>len\<close> or more, and no fewer entries would do.\<close>

theorem get_next_entry_spec:
  assumes "log_wf log" and "off < log_size log" and "unat len < 2 ^ 32" and "unat len < 32 * fuel"
  shows "\<exists>n off'. 0 < n \<and> get_next_entry fuel log off len = Inr off' \<and> off' < log_size log \<and>
    unat off' = (unat off + walked log (unat off) n) mod unat (log_size log) \<and>
    unat len \<le> walked log (unat off) n \<and>
    (\<forall>m < n. 0 < m \<longrightarrow> walked log (unat off) m < unat len)"
proof -
  have "0 < fuel" using assms(4) by (cases fuel) auto
  with get_next_entry_loop_spec [OF assms(1-3), of 0 fuel] assms(4) show ?thesis
    by (simp add: get_next_entry_def)
qed

theorem get_next_entry_spec_witness:
  "\<exists>n off'. 0 < n \<and> get_next_entry 2 (ex_log 0x80) 64 40 = Inr off' \<and> off' < 0x80 \<and>
    40 \<le> walked (ex_log 0x80) 64 n"
  using get_next_entry_spec [OF ex_log_wf [OF ring_size_128(1)], of 64 40 2] by (auto simp: ex_log_simps)

text \<open>\<open>is_between\<close> is membership in the half-open arc of the ring from \<open>a\<close> to \<open>b\<close>: for two
  different offsets of a ring, \<open>c\<close> is between them exactly if going round from \<open>a\<close> one
  meets \<open>c\<close> after \<open>a\<close> and not after \<open>b\<close>.\<close>

theorem is_between_iff_arc:
  assumes "unat a < S" and "unat b < S" and "unat c < S" and "a \<noteq> b"
  shows "is_between a b c \<longleftrightarrow>
    0 < (unat c + S - unat a) mod S \<and> (unat c + S - unat a) mod S \<le> (unat b + S - unat a) mod S"
proof -
  have d: "(unat x + S - unat a) mod S = (if unat a \<le> unat x then unat x - unat a else unat x + S - unat a)"
    if "unat x < S" for x
    using that assms(1) by (auto simp: le_mod_geq)
  have ne: "unat a \<noteq> unat b" using assms(4) by (simp add: word_unat_eq_iff)
  show ?thesis
    unfolding d [OF assms(2)] d [OF assms(3)] using ne assms(1-3)
    by (auto simp: is_between_def word_less_nat_alt word_le_nat_alt)
qed

theorem is_between_iff_arc_witness:
  "is_between 100 20 10 \<longleftrightarrow> 0 < (10 + 128 - 100) mod (128 :: nat) \<and>
     (10 + 128 - 100) mod 128 \<le> (20 + 128 - 100) mod (128 :: nat)"
  using is_between_iff_arc [of 100 128 20 10] by simp

text \<open>Nothing moves the readers on when a write overtakes them. If a record fills the free
  part of the ring exactly, the reader's offset equals \<open>w_off\<close> afterwards: all its unread
  records are lost, and a non-blocking read finds nothing and returns \<open>-EINTR\<close>.\<close>

theorem full_ring_loses_unread:
  assumes "log_wf log" and "log_holds log (r_off reader) es" and "cfi_full cfi"
    and "data \<noteq> []" and "length data < 2 ^ 64"
    and "length (queue_bytes es) + 32 + unat (write_count data) = unat (log_size log)"
    and "unat (payload_off log) + unat (write_count data) \<le> unat (log_size log)"
  shows "\<exists>log'. logger_write_iter env cfi True log data = Inr (int (unat (write_count data)), log') \<and>
    log_w_off log' = r_off reader \<and>
    logger_read fuel ctu True euid buf count False reader ((log', s1) # snaps) =
      Inr (Returned (- EINTR) reader [])"
proof -
  let ?w = "logger_offset log (payload_off log + write_count data)"
  have r: "unat (r_off reader) < unat (log_size log)"
    and w: "unat (log_w_off log) = (unat (r_off reader) + length (queue_bytes es)) mod unat (log_size log)"
    using assms(2) by (auto simp: log_holds_def word_less_nat_alt)
  have "unat ?w = (unat (r_off reader) + length (queue_bytes es) + (32 + unat (write_count data))) mod unat (log_size log)"
    by (simp only: unat_new_w_off [OF assms(1) write_count_le] w mod_add_left_eq)
  also have "\<dots> = (unat (r_off reader) + unat (log_size log)) mod unat (log_size log)"
    using assms(6) by (simp add: add.assoc)
  finally have "?w = r_off reader" using r by (simp add: word_unat_eq_iff)
  then show ?thesis
    by (simp add: logger_write_iter_ok [OF assms(1,3,4,5,7)])
qed

theorem full_ring_loses_unread_witness:
  "\<exists>log'. logger_write_iter ex_env ex_cfi True (ex_log 0x40) (replicate 32 65) = Inr (32, log') \<and>
    log_w_off log' = 0 \<and>
    logger_read 1 ex_ctu True 0 0 100 False ex_reader [(log', False)] = Inr (Returned (- EINTR) ex_reader [])"
proof -
  have "write_count (replicate 32 65) = 32" by (simp add: write_count_def)
  then show ?thesis
    using full_ring_loses_unread [OF ex_log_wf [OF ring_size_128(2)], of ex_reader "[]" ex_cfi "replicate 32 65" ex_env 1 ex_ctu 0 0 100 False "[]"]
      ex_log_holds [OF ring_size_128(2)]
    by (simp add: ex_log_simps ex_payload_off ex_reader_def ex_cfi_full)
qed

section \<open>The devices\<close>

text \<open>C30: in every state reached from a successful module start by opening, closing, reading
  and writing device files, closing an open file succeeds, the search for a minor number
  follows no dangling pointer, and every reader's log is a live log of the list with the
  reader's offset inside its buffer.\<close>

theorem device_files_never_dangle:
  assumes "reachable dev_init dev_step (sys, files)" and "f \<in> set files"
  shows "(\<exists>sys'. logger_release f sys = Inr (0, sys')) \<and>
    (\<exists>found. get_log_from_minor sys minor = Inr found) \<and>
    (\<exists>a log. file_get_log f sys = Inr a \<and> a \<in> set (sys_log_list sys) \<and>
       sys_logs sys a = Some log \<and> log_wf log \<and> log_readers_ok sys a log)"
proof -
  have inv: "dev_inv (sys, files)" using assms(1) by (rule device.reachable_inv)
  then have wf: "sys_wf sys" and ok: "file_ok sys f" using assms(2) by (auto simp: list_all_iff)
  have "\<exists>a log. file_get_log f sys = Inr a \<and> a \<in> set (sys_log_list sys) \<and>
      sys_logs sys a = Some log \<and> log_wf log \<and> log_readers_ok sys a log"
    using file_log [OF wf ok] by blast
  then show ?thesis
    using logger_release_safe [OF wf ok] get_log_from_minor_safe [OF wf, of minor] by blast
qed

text \<open>A start that succeeds, and the first device opened for reading.\<close>

definition ex_create :: "nat \<Rightarrow> nat \<Rightarrow> create_env" where
  "ex_create n a = \<lparr>ce_vmalloc = Some (replicate n 0), ce_kzalloc = Some a, ce_kstrdup = True,
     ce_register = 0, ce_minor = int a\<rparr>"

definition ex_envs :: "create_env \<times> create_env \<times> create_env \<times> create_env" where
  "ex_envs = (ex_create (512 * 1024) 1, ex_create 1024 2, ex_create 1024 3, ex_create 1024 4)"

definition ex_sys :: logger_sys where
  "ex_sys = snd (logger_init ex_envs logger_sys_empty)"

lemma ex_init: "dev_init (ex_sys, [])"
proof -
  have "init_envs_ok ex_envs"
    by (simp add: init_envs_ok_def ex_envs_def ex_create_def create_env_ok_def)
  moreover have "logger_init ex_envs logger_sys_empty = (0, ex_sys)"
    by (simp add: ex_sys_def logger_init_def ex_envs_def ex_create_def create_log_def
      logger_sys_empty_def Let_def)
  ultimately show ?thesis unfolding dev_init_def fst_conv snd_conv by blast
qed

lemma ex_open:
  "\<exists>sys'. reachable dev_init dev_step (sys', [\<lparr>f_read = True, f_private = 9\<rparr>])"
proof -
  have wf: "sys_wf ex_sys" "sys_readers ex_sys = (\<lambda>_. None)"
    using ex_init device.init_inv [OF ex_init] by (auto simp: dev_init_def dest: logger_init_wf)
  have lst: "sys_log_list ex_sys = [1, 2, 3, 4]" "\<exists>log. sys_logs ex_sys 1 = Some log \<and> log_minor log = 1"
    by (simp_all add: ex_sys_def logger_init_def ex_envs_def ex_create_def create_log_def
      logger_sys_empty_def Let_def)
  then obtain log where log: "sys_logs ex_sys 1 = Some log" "log_minor log = 1" by blast
  have "get_log_from_minor ex_sys 1 = Inr (Some 1)"
    using lst log by (simp add: get_log_from_minor_def)
  then obtain sys' where "logger_open 0 (Some 9) True False True 1 ex_sys =
      Inr (0, Some \<lparr>f_read = True, f_private = 9\<rparr>, sys')"
    using log by (auto simp: logger_open_def Let_def)
  from step_open [OF _ this, of "[]"] wf(2)
  have "dev_step (ex_sys, []) (sys', [\<lparr>f_read = True, f_private = 9\<rparr>])" by simp
  moreover have "reachable dev_init dev_step (ex_sys, [])" using ex_init by (rule reach_init)
  ultimately show ?thesis by (blast intro: reach_step)
qed

theorem device_files_never_dangle_witness:
  "\<exists>sys' sys''. logger_release \<lparr>f_read = True, f_private = 9\<rparr> sys' = Inr (0, sys'')"
proof -
  obtain sys' where "reachable dev_init dev_step (sys', [\<lparr>f_read = True, f_private = 9\<rparr>])"
    using ex_open by blast
  then have "\<exists>sys''. logger_release \<lparr>f_read = True, f_private = 9\<rparr> sys' = Inr (0, sys'')"
    using device_files_never_dangle [where f = "\<lparr>f_read = True, f_private = 9\<rparr>"] by simp
  then show ?thesis by blast
qed

lemma get_log_loop_append:
  "list_all (\<lambda>b. \<exists>log. logs b = Some log \<and> log_minor log \<noteq> minor) as \<Longrightarrow>
   get_log_from_minor_loop logs minor (as @ bs) = get_log_from_minor_loop logs minor bs"
  by (induction as) auto

text \<open>When \<open>misc_register\<close> fails, \<open>create_log\<close> frees a log that it leaves in the list of
  logs: the next search for a minor number that the logs before it do not have uses freed
  memory.\<close>

theorem create_log_failure_dangles:
  assumes "ce_vmalloc env = Some buffer" and "ce_kzalloc env = Some a" and "ce_kstrdup env"
    and "ce_register env \<noteq> 0" and "a \<notin> set (sys_log_list sys)"
    and "list_all (\<lambda>b. \<exists>log. sys_logs sys b = Some log \<and> log_minor log \<noteq> minor) (sys_log_list sys)"
  shows "fst (create_log env name nbytes sys) = ce_register env \<and>
    get_log_from_minor (snd (create_log env name nbytes sys)) minor = Inl UseAfterFree"
proof -
  let ?sys = "snd (create_log env name nbytes sys)"
  have "sys_logs ?sys = (sys_logs sys)(a := None)" and l: "sys_log_list ?sys = sys_log_list sys @ [a]"
    and ret: "fst (create_log env name nbytes sys) = ce_register env"
    using assms(1-4) by (simp_all add: create_log_def Let_def fun_eq_iff)
  then have "list_all (\<lambda>b. \<exists>log. sys_logs ?sys b = Some log \<and> log_minor log \<noteq> minor) (sys_log_list sys)"
    and "sys_logs ?sys a = None"
    using assms(5,6) by (auto simp: list_all_iff)
  with ret l show ?thesis by (simp add: get_log_from_minor_def get_log_loop_append)
qed

theorem create_log_failure_dangles_witness:
  "get_log_from_minor (snd (create_log ((ex_create 64 1)\<lparr>ce_register := - 16\<rparr>) ''log_main'' 64 logger_sys_empty)) 5 =
     Inl UseAfterFree"
  using create_log_failure_dangles [of "(ex_create 64 1)\<lparr>ce_register := - 16\<rparr>" "replicate 64 0" 1 logger_sys_empty 5]
  by (simp add: ex_create_def logger_sys_empty_def)

text \<open>Unloading the module frees a pointer into the middle of the first log, so
  \<open>logger_exit\<close> traps as soon as one log exists.\<close>

theorem logger_exit_frees_interior_pointer:
  assumes "sys_wf sys" and "sys_log_list sys = a # as" and "sys_logs sys (a + offsetof_logs) = None"
  shows "logger_exit offsetof_logs sys = Inl InvalidFree"
proof -
  obtain log where "sys_logs sys a = Some log" using sys_wfD(1) [OF assms(1), of a] assms(2) by auto
  with assms(2,3) show ?thesis by (simp add: logger_exit_def kfree_log_def)
qed

theorem logger_exit_frees_interior_pointer_witness:
  "logger_exit 100 ex_sys = Inl InvalidFree"
proof (rule logger_exit_frees_interior_pointer)
  show "sys_wf ex_sys" using device.init_inv [OF ex_init] by simp
  show "sys_log_list ex_sys = 1 # [2, 3, 4]" "sys_logs ex_sys (1 + 100) = None"
    by (simp_all add: ex_sys_def logger_init_def ex_envs_def ex_create_def create_log_def
      logger_sys_empty_def Let_def)
qed

end
