(* ===== verification/Rb_Tree.thy ===== *)
theory Rb_Tree
  imports Prelude "HOL-Library.Tree"
begin

text \<open>
  The search trees of the binder driver. The driver walks down a \<open>struct rb_root\<close> itself
  and hands the place it found to the kernel's rbtree code, which links the node there,
  recolours and rotates. The walk and the link are modelled; the kernel's
  \<open>rb_insert_color\<close> and \<open>rb_erase\<close> are parameters, of which the driver relies on what they
  do to the order of the nodes. A tree holds the addresses of the structures in which the
  nodes are embedded.
\<close>

section \<open>Walk and link\<close>

fun rb_find :: "('n \<Rightarrow> 'k :: linorder) \<Rightarrow> 'k \<Rightarrow> 'n tree \<Rightarrow> 'n option" where
  "rb_find key k Leaf = None"
| "rb_find key k (Node l n r) =
     (if k < key n then rb_find key k l
      else if k > key n then rb_find key k r
      else Some n)"

fun rb_link :: "('n \<Rightarrow> 'k :: linorder) \<Rightarrow> 'n \<Rightarrow> 'n tree \<Rightarrow> 'n tree" where
  "rb_link key x Leaf = Node Leaf x Leaf"
| "rb_link key x (Node l n r) =
     (if key x < key n then Node (rb_link key x l) n r else Node l n (rb_link key x r))"

record rb_kernel =
  rb_insert_color :: "nat tree \<Rightarrow> nat tree"
  rb_erase :: "nat \<Rightarrow> nat tree \<Rightarrow> nat tree"

text \<open>What the kernel documents: neither changes the order of the nodes that stay.\<close>

definition rb_kernel_ok :: "rb_kernel \<Rightarrow> bool" where
  "rb_kernel_ok rb \<longleftrightarrow>
     (\<forall>t. inorder (rb_insert_color rb t) = inorder t) \<and>
     (\<forall>x t. inorder (rb_erase rb x t) = remove1 x (inorder t))"

lemma rb_kernel_okD:
  "rb_kernel_ok rb \<Longrightarrow> inorder (rb_insert_color rb t) = inorder t"
  "rb_kernel_ok rb \<Longrightarrow> inorder (rb_erase rb x t) = remove1 x (inorder t)"
  by (simp_all add: rb_kernel_ok_def)

section \<open>Ordered indexes\<close>

text \<open>Strictly ascending keys in order: a set of nodes without two of the same key.\<close>

definition key_sorted :: "('n \<Rightarrow> 'k :: linorder) \<Rightarrow> 'n list \<Rightarrow> bool" where
  "key_sorted key ns \<longleftrightarrow> sorted_wrt (<) (map key ns)"

lemma key_sorted_simps [simp]:
  "key_sorted key []"
  "key_sorted key (n # ns) \<longleftrightarrow> (\<forall>m \<in> set ns. key n < key m) \<and> key_sorted key ns"
  "key_sorted key (ns @ ms) \<longleftrightarrow>
     key_sorted key ns \<and> key_sorted key ms \<and> (\<forall>n \<in> set ns. \<forall>m \<in> set ms. key n < key m)"
  by (simp_all add: key_sorted_def sorted_wrt_append)

lemma key_sorted_distinct: "key_sorted key ns \<Longrightarrow> distinct ns \<and> inj_on key (set ns)"
  by (simp add: key_sorted_def strict_sorted_iff distinct_map)

lemma key_sorted_inj:
  "key_sorted key ns \<Longrightarrow> m \<in> set ns \<Longrightarrow> n \<in> set ns \<Longrightarrow> key m = key n \<Longrightarrow> m = n"
  by (blast dest: key_sorted_distinct inj_onD)

lemma key_sorted_remove1: "key_sorted key ns \<Longrightarrow> key_sorted key (remove1 n ns)"
  by (induction ns) (auto dest: notin_set_remove1)

lemma key_sorted_cong: "(\<And>n. n \<in> set ns \<Longrightarrow> key n = key' n) \<Longrightarrow> key_sorted key ns = key_sorted key' ns"
  by (induction ns) auto

text \<open>
  The interface the driver's lookups use: the nodes in order, a search by key and the
  insertion of a node with a new key. The lemmas are those of a map from keys to nodes.
\<close>

locale rb_index =
  fixes key :: "'n \<Rightarrow> 'k :: linorder"
    and nodes :: "'t \<Rightarrow> 'n list"
    and find :: "'k \<Rightarrow> 't \<Rightarrow> 'n option"
    and ins :: "'n \<Rightarrow> 't \<Rightarrow> 't"
  assumes find_in: "key_sorted key (nodes t) \<Longrightarrow> find k t = Some n \<longleftrightarrow> n \<in> set (nodes t) \<and> key n = k"
    and set_ins: "set (nodes (ins n t)) = insert n (set (nodes t))"
    and sorted_ins: "key_sorted key (nodes t) \<Longrightarrow> key n \<notin> key ` set (nodes t) \<Longrightarrow> key_sorted key (nodes (ins n t))"
begin

lemma find_None:
  "key_sorted key (nodes t) \<Longrightarrow> find k t = None \<longleftrightarrow> k \<notin> key ` set (nodes t)"
proof -
  assume sorted: "key_sorted key (nodes t)"
  have "find k t = None \<longleftrightarrow> (\<forall>n. find k t \<noteq> Some n)" by auto
  then show ?thesis by (auto simp: find_in [OF sorted])
qed

text \<open>After the insertion the new node is found under its key and the others as before.\<close>

lemma find_ins:
  assumes sorted: "key_sorted key (nodes t)" and new: "find (key n) t = None"
  shows "key_sorted key (nodes (ins n t))"
    and "find k (ins n t) = (if k = key n then Some n else find k t)"
proof -
  have fresh: "key n \<notin> key ` set (nodes t)" using find_None [OF sorted] new by simp
  show s: "key_sorted key (nodes (ins n t))" by (rule sorted_ins [OF sorted fresh])
  show "find k (ins n t) = (if k = key n then Some n else find k t)"
  proof (cases "k = key n")
    case True
    then show ?thesis by (simp add: find_in [OF s] set_ins)
  next
    case False
    then have "find k (ins n t) = Some m \<longleftrightarrow> find k t = Some m" for m
      by (auto simp: find_in [OF s] find_in [OF sorted] set_ins)
    with False show ?thesis by (metis not_Some_eq)
  qed
qed

end

lemma set_rb_link: "set_tree (rb_link key x t) = insert x (set_tree t)"
  by (induction t) auto

lemma rb_link_sorted:
  "key_sorted key (inorder t) \<Longrightarrow> key x \<notin> key ` set (inorder t) \<Longrightarrow>
   key_sorted key (inorder (rb_link key x t))"
proof (induction t)
  case Leaf
  then show ?case by simp
next
  case (Node l n r)
  then have "key x < key n \<or> key n < key x" by auto
  with Node show ?case by (auto simp: set_rb_link)
qed

lemma rb_find_in:
  "key_sorted key (inorder t) \<Longrightarrow> rb_find key k t = Some n \<longleftrightarrow> n \<in> set (inorder t) \<and> key n = k"
  by (induction t) (auto dest: less_imp_neq)

text \<open>For any rebalancing that keeps the order, walk and link are such an index.\<close>

definition rb_insert :: "rb_kernel \<Rightarrow> (nat \<Rightarrow> 'k :: linorder) \<Rightarrow> nat \<Rightarrow> nat tree \<Rightarrow> nat tree" where
  "rb_insert rb key x t = rb_insert_color rb (rb_link key x t)"

lemma rb_index_rb_insert:
  "rb_kernel_ok rb \<Longrightarrow> rb_index key inorder (rb_find key) (rb_insert rb key)"
  by unfold_locales
    (simp_all add: rb_insert_def rb_kernel_okD set_rb_link rb_link_sorted rb_find_in)

interpretation rb_plain: rb_index key inorder "rb_find key" "rb_link key" for key
  by unfold_locales (simp_all add: set_rb_link rb_link_sorted rb_find_in)

text \<open>A kernel to instantiate the parameter with: no rebalancing, erasing by rebuilding.\<close>

definition rb_kernel_plain :: rb_kernel where
  "rb_kernel_plain =
     \<lparr>rb_insert_color = (\<lambda>t. t),
      rb_erase = (\<lambda>x t. foldr (\<lambda>n t. Node Leaf n t) (remove1 x (inorder t)) Leaf)\<rparr>"

lemma rb_kernel_plain_ok: "rb_kernel_ok rb_kernel_plain"
proof -
  have "inorder (foldr (\<lambda>n t. Node Leaf n t) ns Leaf) = ns" for ns :: "nat list"
    by (induction ns) simp_all
  then show ?thesis by (simp add: rb_kernel_ok_def rb_kernel_plain_def)
qed

end
