(* ===== verification/Binder_Alloc.thy ===== *)
theory Binder_Alloc
  imports Rb_Tree
begin

text \<open>
  The buffer allocator of a binder process, \<open>binder_alloc.c\<close>: mapping the buffer area,
  the list and the tree of free buffers, closing the mapping, and the shrinker that gives
  pages back. Structures are stored by address. Pages are 4096 bytes.
\<close>

section \<open>State\<close>

record vm_area =
  vm_start :: u64
  vm_end :: u64
  vm_flags :: u64
  vm_mm :: nat

record binder_buffer =
  bb_free :: bool
  bb_clear_on_free :: bool
  bb_allow_user_free :: bool
  bb_async_transaction :: bool
  bb_oneway_spam_suspect :: bool
  bb_debug_id :: u32
  bb_transaction :: "nat option"
  bb_target_node :: "nat option"
  bb_data_size :: u64
  bb_offsets_size :: u64
  bb_extra_buffers_size :: u64
  bb_user_data :: u64
  bb_pid :: int

record binder_lru_page =
  lp_page_ptr :: "nat option"
  lp_alloc :: "nat option"

text \<open>
  \<open>al_buffers\<close> is the list \<open>buffers\<close>, by address of the memory they describe;
  \<open>al_buffer = 0\<close> is the null pointer.
\<close>

record binder_alloc =
  al_mutex_inited :: bool
  al_vma :: "vm_area option"
  al_vma_vm_mm :: "nat option"
  al_buffer :: u64
  al_buffers :: "nat list"
  al_free_buffers :: "nat tree"
  al_allocated_buffers :: "nat tree"
  al_free_async_space :: u64
  al_pages :: "binder_lru_page list option"
  al_buffer_size :: u64
  al_buffer_free :: u32
  al_pid :: int
  al_pages_high :: u64

text \<open>
  What the allocators of all processes share: the lock \<open>binder_alloc_mmap_lock\<close>, the
  buffer structures and the reference counts \<open>mmgrab\<close> takes on memory descriptors.
\<close>

record alloc_heap =
  ah_mmap_lock :: bool
  ah_bufs :: "nat \<Rightarrow> binder_buffer option"
  ah_mm_count :: "nat \<Rightarrow> nat"

abbreviation SZ_4M :: u64 where "SZ_4M \<equiv> 0x400000"
abbreviation (input) PAGE_SIZE :: u64 where "PAGE_SIZE \<equiv> 4096"

text \<open>What \<open>kzalloc\<close> leaves in a new structure.\<close>

definition binder_buffer_zero :: binder_buffer where
  "binder_buffer_zero =
     \<lparr>bb_free = False, bb_clear_on_free = False, bb_allow_user_free = False,
      bb_async_transaction = False, bb_oneway_spam_suspect = False, bb_debug_id = 0,
      bb_transaction = None, bb_target_node = None, bb_data_size = 0, bb_offsets_size = 0,
      bb_extra_buffers_size = 0, bb_user_data = 0, bb_pid = 0\<rparr>"

definition binder_alloc_zero :: binder_alloc where
  "binder_alloc_zero =
     \<lparr>al_mutex_inited = False, al_vma = None, al_vma_vm_mm = None, al_buffer = 0, al_buffers = [],
      al_free_buffers = Leaf, al_allocated_buffers = Leaf, al_free_async_space = 0,
      al_pages = None, al_buffer_size = 0, al_buffer_free = 0, al_pid = 0, al_pages_high = 0\<rparr>"

definition mmap_lock :: "alloc_heap \<Rightarrow> alloc_heap chk" where
  "mmap_lock h = (if ah_mmap_lock h then Inl Deadlock else Inr (h\<lparr>ah_mmap_lock := True\<rparr>))"

definition mmap_unlock :: "alloc_heap \<Rightarrow> alloc_heap chk" where
  "mmap_unlock h = (if ah_mmap_lock h then Inr (h\<lparr>ah_mmap_lock := False\<rparr>) else Inl Deadlock)"

section \<open>Buffers\<close>

text \<open>The element behind \<open>b\<close> in a list; \<open>None\<close> if \<open>b\<close> is the last one.\<close>

fun list_next :: "nat \<Rightarrow> nat list \<Rightarrow> nat option" where
  "list_next b [] = None"
| "list_next b (x # xs) =
     (if x = b then (case xs of [] \<Rightarrow> None | y # _ \<Rightarrow> Some y) else list_next b xs)"

definition binder_alloc_buffer_size ::
  "(nat \<Rightarrow> binder_buffer option) \<Rightarrow> binder_alloc \<Rightarrow> nat \<Rightarrow> u64 chk" where
  "binder_alloc_buffer_size bufs alloc b =
     bindE (derefE UseAfterFree (bufs b)) (\<lambda>buffer.
     case list_next b (al_buffers alloc) of
       None \<Rightarrow> Inr (al_buffer alloc + al_buffer_size alloc - bb_user_data buffer)
     | Some n \<Rightarrow>
         bindE (derefE UseAfterFree (bufs n)) (\<lambda>next_buffer.
         Inr (bb_user_data next_buffer - bb_user_data buffer)))"

text \<open>The walk down the tree of free buffers by size, and the link at its end.\<close>

fun insert_free_walk ::
  "(nat \<Rightarrow> binder_buffer option) \<Rightarrow> binder_alloc \<Rightarrow> u64 \<Rightarrow> nat \<Rightarrow> nat tree \<Rightarrow> nat tree chk" where
  "insert_free_walk bufs alloc new_size new Leaf = Inr (Node Leaf new Leaf)"
| "insert_free_walk bufs alloc new_size new (Node l b r) =
     bindE (derefE UseAfterFree (bufs b)) (\<lambda>buffer.
     bindE (assertE BugOn (bb_free buffer)) (\<lambda>_.
     bindE (binder_alloc_buffer_size bufs alloc b) (\<lambda>buffer_size.
     if new_size < buffer_size
     then bindE (insert_free_walk bufs alloc new_size new l) (\<lambda>l. Inr (Node l b r))
     else bindE (insert_free_walk bufs alloc new_size new r) (\<lambda>r. Inr (Node l b r)))))"

definition binder_insert_free_buffer ::
  "rb_kernel \<Rightarrow> (nat \<Rightarrow> binder_buffer option) \<Rightarrow> binder_alloc \<Rightarrow> nat \<Rightarrow> binder_alloc chk" where
  "binder_insert_free_buffer rb bufs alloc new =
     bindE (derefE UseAfterFree (bufs new)) (\<lambda>new_buffer.
     bindE (assertE BugOn (bb_free new_buffer)) (\<lambda>_.
     bindE (binder_alloc_buffer_size bufs alloc new) (\<lambda>new_size.
     bindE (insert_free_walk bufs alloc new_size new (al_free_buffers alloc)) (\<lambda>t.
     Inr (alloc\<lparr>al_free_buffers := rb_insert_color rb t\<rparr>)))))"

section \<open>Mapping\<close>

definition binder_alloc_set_vma :: "binder_alloc \<Rightarrow> vm_area option \<Rightarrow> binder_alloc" where
  "binder_alloc_set_vma alloc vma =
     (let alloc = (case vma of Some v \<Rightarrow> alloc\<lparr>al_vma_vm_mm := Some (vm_mm v)\<rparr> | None \<Rightarrow> alloc)
      in alloc\<lparr>al_vma := vma\<rparr>)"

definition binder_alloc_get_vma :: "binder_alloc \<Rightarrow> vm_area option" where
  "binder_alloc_get_vma alloc = (case al_vma alloc of Some v \<Rightarrow> Some v | None \<Rightarrow> None)"

text \<open>The labels at the end of \<open>binder_alloc_mmap_handler\<close>, each falling into the next.\<close>

definition err_already_mapped :: "int \<Rightarrow> binder_alloc \<Rightarrow> alloc_heap \<Rightarrow> (int \<times> binder_alloc \<times> alloc_heap) chk" where
  "err_already_mapped ret alloc h = bindE (mmap_unlock h) (\<lambda>h. Inr (ret, alloc, h))"

definition err_alloc_pages_failed :: "int \<Rightarrow> binder_alloc \<Rightarrow> alloc_heap \<Rightarrow> (int \<times> binder_alloc \<times> alloc_heap) chk" where
  "err_alloc_pages_failed ret alloc h =
     (let alloc = alloc\<lparr>al_buffer := 0\<rparr> in
      bindE (mmap_lock h) (\<lambda>h. err_already_mapped ret (alloc\<lparr>al_buffer_size := 0\<rparr>) h))"

definition err_alloc_buf_struct_failed :: "int \<Rightarrow> binder_alloc \<Rightarrow> alloc_heap \<Rightarrow> (int \<times> binder_alloc \<times> alloc_heap) chk" where
  "err_alloc_buf_struct_failed ret alloc h = err_alloc_pages_failed ret (alloc\<lparr>al_pages := None\<rparr>) h"

text \<open>
  \<open>kcalloc\<close> says whether the page array can be allocated, \<open>kzalloc\<close> is the address of
  the buffer structure.
\<close>

definition binder_alloc_mmap_handler ::
  "rb_kernel \<Rightarrow> bool \<Rightarrow> nat option \<Rightarrow> binder_alloc \<Rightarrow> vm_area \<Rightarrow> alloc_heap \<Rightarrow>
   (int \<times> binder_alloc \<times> alloc_heap) chk" where
  "binder_alloc_mmap_handler rb kcalloc kzalloc alloc vma h =
     bindE (mmap_lock h) (\<lambda>h.
     if al_buffer_size alloc \<noteq> 0 then err_already_mapped (- EBUSY) alloc h
     else
       let alloc = alloc\<lparr>al_buffer_size := min (vm_end vma - vm_start vma) SZ_4M\<rparr> in
       bindE (mmap_unlock h) (\<lambda>h.
       let alloc = alloc\<lparr>al_buffer := vm_start vma\<rparr> in
       if \<not> kcalloc then err_alloc_pages_failed (- ENOMEM) alloc h
       else
         let alloc = alloc\<lparr>al_pages :=
               Some (replicate (unat (al_buffer_size alloc div PAGE_SIZE)) \<lparr>lp_page_ptr = None, lp_alloc = None\<rparr>)\<rparr>
         in case kzalloc of
              None \<Rightarrow> err_alloc_buf_struct_failed (- ENOMEM) alloc h
            | Some b \<Rightarrow>
                let buffer = binder_buffer_zero\<lparr>bb_user_data := al_buffer alloc, bb_free := True\<rparr>;
                    alloc = alloc\<lparr>al_buffers := b # al_buffers alloc\<rparr>;
                    h = h\<lparr>ah_bufs := (ah_bufs h)(b \<mapsto> buffer)\<rparr>
                in bindE (binder_insert_free_buffer rb (ah_bufs h) alloc b) (\<lambda>alloc.
                   let alloc = alloc\<lparr>al_free_async_space := al_buffer_size alloc div 2\<rparr>;
                       alloc = binder_alloc_set_vma alloc (Some vma)
                   in Inr (0, alloc, h\<lparr>ah_mm_count := (ah_mm_count h)(vm_mm vma := Suc (ah_mm_count h (vm_mm vma)))\<rparr>))))"

definition binder_alloc_vma_close :: "binder_alloc \<Rightarrow> binder_alloc" where
  "binder_alloc_vma_close alloc = binder_alloc_set_vma alloc None"

definition binder_alloc_init :: "int \<Rightarrow> binder_alloc \<Rightarrow> binder_alloc" where
  "binder_alloc_init leader_pid alloc =
     alloc\<lparr>al_pid := leader_pid, al_mutex_inited := True, al_buffers := []\<rparr>"

section \<open>Shrinker\<close>

datatype lru_status = LRU_REMOVED_RETRY | LRU_SKIP

text \<open>
  A page on the LRU list is named by the allocator in whose page array it lies and its
  index there; the pointer difference that gives the index needs the page to belong to the
  allocator it names, and \<open>mmget_not_zero\<close> an address space. The environment says whether the three locks and references the callback
  tries to take can be had; \<open>zap_page_range\<close> calls are recorded with the area and the
  address.
\<close>

record free_page_env =
  fe_mutex_trylock :: bool
  fe_mmget_not_zero :: bool
  fe_down_read_trylock :: bool

record shrink_state =
  ss_allocs :: "nat \<Rightarrow> binder_alloc option"
  ss_lru :: "(nat \<times> nat) list"
  ss_zapped :: "(vm_area \<times> u64) list"
  ss_freed_pages :: "nat list"

definition binder_alloc_free_page ::
  "free_page_env \<Rightarrow> nat \<times> nat \<Rightarrow> shrink_state \<Rightarrow> (lru_status \<times> shrink_state) chk" where
  "binder_alloc_free_page env item st =
     bindE (derefE UseAfterFree (ss_allocs st (fst item))) (\<lambda>home.
     bindE (derefE NullDeref (al_pages home)) (\<lambda>pages.
     bindE (assertE OutOfBounds (snd item < length pages)) (\<lambda>_.
     let page = pages ! snd item in
     bindE (derefE NullDeref (lp_alloc page)) (\<lambda>a.
     bindE (derefE UseAfterFree (ss_allocs st a)) (\<lambda>alloc.
     if \<not> fe_mutex_trylock env then Inr (LRU_SKIP, st)
     else case lp_page_ptr page of
       None \<Rightarrow> Inr (LRU_SKIP, st)
     | Some p \<Rightarrow>
         bindE (assertE OutOfBounds (a = fst item)) (\<lambda>_.
         let page_addr = al_buffer alloc + of_nat (snd item) * PAGE_SIZE in
         bindE (derefE NullDeref (al_vma_vm_mm alloc)) (\<lambda>mm.
         if \<not> fe_mmget_not_zero env then Inr (LRU_SKIP, st)
         else if \<not> fe_down_read_trylock env then Inr (LRU_SKIP, st)
         else
           let vma = binder_alloc_get_vma alloc;
               st = st\<lparr>ss_lru := removeAll item (ss_lru st)\<rparr>;
               st = (case vma of Some v \<Rightarrow> st\<lparr>ss_zapped := ss_zapped st @ [(v, page_addr)]\<rparr> | None \<Rightarrow> st);
               home = home\<lparr>al_pages := Some (pages[snd item := page\<lparr>lp_page_ptr := None\<rparr>])\<rparr>
           in Inr (LRU_REMOVED_RETRY,
                st\<lparr>ss_freed_pages := p # ss_freed_pages st, ss_allocs := (ss_allocs st)(fst item \<mapsto> home)\<rparr>))))))))"

text \<open>\<open>SHRINK_EMPTY\<close> of the kernel is \<open>~0UL - 1\<close>: there is nothing to shrink.\<close>

definition SHRINK_EMPTY :: u64 where "SHRINK_EMPTY = - 1 - 1"

definition binder_shrink_count :: "shrink_state \<Rightarrow> u64" where
  "binder_shrink_count st = (let ret = length (ss_lru st) in SHRINK_EMPTY)"

text \<open>\<open>list_lru_walk\<close> is the kernel's; it takes the callback and the number of items to scan.\<close>

definition binder_shrink_scan ::
  "((nat \<times> nat \<Rightarrow> shrink_state \<Rightarrow> (lru_status \<times> shrink_state) chk) \<Rightarrow> u64 \<Rightarrow> shrink_state \<Rightarrow> (u64 \<times> shrink_state) chk) \<Rightarrow>
   free_page_env \<Rightarrow> u64 \<Rightarrow> shrink_state \<Rightarrow> (u64 \<times> shrink_state) chk" where
  "binder_shrink_scan list_lru_walk env nr_to_scan st =
     list_lru_walk (binder_alloc_free_page env) nr_to_scan st"

text \<open>Whether the LRU list is initialised and the shrinker registered.\<close>

record shrinker =
  sh_lru :: bool
  sh_registered :: bool

definition binder_alloc_shrinker_init :: "int \<Rightarrow> int \<Rightarrow> shrinker \<Rightarrow> int \<times> shrinker" where
  "binder_alloc_shrinker_init lru_ret reg_ret sh =
     (if lru_ret = 0 then
        (if reg_ret \<noteq> 0 then (reg_ret, sh\<lparr>sh_lru := False\<rparr>)
         else (reg_ret, sh\<lparr>sh_lru := True, sh_registered := True\<rparr>))
      else (lru_ret, sh))"

definition binder_alloc_exit :: "shrinker \<Rightarrow> shrinker" where
  "binder_alloc_exit sh = sh\<lparr>sh_registered := False, sh_lru := False\<rparr>"

section \<open>Invariant of the free buffers\<close>

text \<open>The size of a buffer, where it is defined.\<close>

definition buffer_size_of :: "(nat \<Rightarrow> binder_buffer option) \<Rightarrow> binder_alloc \<Rightarrow> nat \<Rightarrow> u64" where
  "buffer_size_of bufs alloc b =
     (case binder_alloc_buffer_size bufs alloc b of Inr s \<Rightarrow> s | Inl _ \<Rightarrow> 0)"

text \<open>Every buffer of the list exists, the free ones are in the tree, ordered by size.\<close>

definition free_tree_ok :: "(nat \<Rightarrow> binder_buffer option) \<Rightarrow> binder_alloc \<Rightarrow> bool" where
  "free_tree_ok bufs alloc \<longleftrightarrow>
     list_all (\<lambda>b. bufs b \<noteq> None) (al_buffers alloc) \<and>
     list_all (\<lambda>b. b \<in> set (al_buffers alloc) \<and> bb_free (the (bufs b))) (inorder (al_free_buffers alloc)) \<and>
     sorted (map (buffer_size_of bufs alloc) (inorder (al_free_buffers alloc)))"

lemma list_next_mem: "list_next b xs = Some y \<Longrightarrow> y \<in> set xs"
  by (induction xs) (auto split: if_splits list.splits)

lemma binder_alloc_buffer_size_ok:
  assumes "list_all (\<lambda>b. bufs b \<noteq> None) (al_buffers alloc)" and "b \<in> set (al_buffers alloc)"
  shows "binder_alloc_buffer_size bufs alloc b = Inr (buffer_size_of bufs alloc b)"
proof -
  obtain buffer where "bufs b = Some buffer" using assms by (auto simp: list_all_iff)
  moreover have "\<exists>n'. bufs n = Some n'" if "list_next b (al_buffers alloc) = Some n" for n
    using assms(1) list_next_mem [OF that] by (auto simp: list_all_iff)
  ultimately have "\<exists>x. binder_alloc_buffer_size bufs alloc b = Inr x"
    by (cases "list_next b (al_buffers alloc)") (force simp: binder_alloc_buffer_size_def)+
  then show ?thesis by (auto simp: buffer_size_of_def)
qed

text \<open>The walk is a link keyed by size, equal sizes going right.\<close>

lemma insert_free_walk_link:
  assumes "list_all (\<lambda>b. bufs b \<noteq> None) (al_buffers alloc)"
    and "list_all (\<lambda>b. b \<in> set (al_buffers alloc) \<and> bb_free (the (bufs b))) (inorder t)"
  shows "insert_free_walk bufs alloc (buffer_size_of bufs alloc new) new t =
    Inr (rb_link (buffer_size_of bufs alloc) new t)"
  using assms(2)
proof (induction t)
  case Leaf
  then show ?case by simp
next
  case (Node l b r)
  then have "b \<in> set (al_buffers alloc)" "bb_free (the (bufs b))" by simp_all
  moreover from this(1) assms(1) obtain x where "bufs b = Some x" by (auto simp: list_all_iff)
  ultimately show ?case
    using Node binder_alloc_buffer_size_ok [OF assms(1)] by simp
qed

lemma length_rb_link: "length (inorder (rb_link key x t)) = Suc (length (inorder t))"
  by (induction t) simp_all

lemma rb_link_weakly_sorted:
  "sorted (map key (inorder t)) \<Longrightarrow> sorted (map key (inorder (rb_link key x t)))"
  by (induction t) (auto simp: sorted_append set_rb_link)

end
