(* ===== verification/Binder_Alloc_Props.thy ===== *)
theory Binder_Alloc_Props
  imports Binder_Alloc
begin

text \<open>
  What the allocator promises: the layout after a mapping, the state after a failed one,
  that an area is mapped once, the order of the free buffers, and the page given back by
  the shrinker.
\<close>

section \<open>States of an allocator\<close>

definition alloc_unmapped :: "binder_alloc \<Rightarrow> bool" where
  "alloc_unmapped alloc \<longleftrightarrow>
     al_buffer_size alloc = 0 \<and> al_buffer alloc = 0 \<and> al_pages alloc = None \<and> al_vma alloc = None \<and>
     al_buffers alloc = [] \<and> al_free_buffers alloc = Leaf"

text \<open>One free buffer covers the whole area, and there is one page slot for each page.\<close>

definition alloc_mapped :: "(nat \<Rightarrow> binder_buffer option) \<Rightarrow> binder_alloc \<Rightarrow> bool" where
  "alloc_mapped bufs alloc \<longleftrightarrow>
     0 < al_buffer_size alloc \<and> al_buffer_size alloc \<le> SZ_4M \<and>
     (case al_buffers alloc of
        [b] \<Rightarrow> inorder (al_free_buffers alloc) = [b] \<and>
          (case bufs b of Some x \<Rightarrow> bb_free x \<and> bb_user_data x = al_buffer alloc | None \<Rightarrow> False)
      | _ \<Rightarrow> False) \<and>
     (case al_pages alloc of Some ps \<Rightarrow> length ps = unat (al_buffer_size alloc div PAGE_SIZE) | None \<Rightarrow> False)"

lemma alloc_mapped_free_tree_ok:
  assumes "alloc_mapped bufs alloc"
  shows "free_tree_ok bufs alloc"
  using assms
  by (auto simp: alloc_mapped_def free_tree_ok_def split: list.splits option.splits)

lemma binder_alloc_init_unmapped: "alloc_unmapped (binder_alloc_init pid binder_alloc_zero)"
  by (simp add: alloc_unmapped_def binder_alloc_init_def binder_alloc_zero_def)

text \<open>The labels undo what the handler wrote before the failure.\<close>

lemma err_labels:
  "ah_mmap_lock h \<Longrightarrow> err_already_mapped ret alloc h = Inr (ret, alloc, h\<lparr>ah_mmap_lock := False\<rparr>)"
  "\<not> ah_mmap_lock h \<Longrightarrow>
   err_alloc_pages_failed ret alloc h = Inr (ret, alloc\<lparr>al_buffer := 0, al_buffer_size := 0\<rparr>, h)"
  "\<not> ah_mmap_lock h \<Longrightarrow>
   err_alloc_buf_struct_failed ret alloc h =
     Inr (ret, alloc\<lparr>al_pages := None, al_buffer := 0, al_buffer_size := 0\<rparr>, h)"
  by (simp_all add: err_already_mapped_def err_alloc_pages_failed_def err_alloc_buf_struct_failed_def
      mmap_lock_def mmap_unlock_def Let_def)

lemma binder_insert_free_buffer_ok:
  assumes rb: "rb_kernel_ok rb" and ok: "free_tree_ok bufs alloc"
    and new: "new \<in> set (al_buffers alloc)" "bufs new = Some x" "bb_free x"
  shows "\<exists>t. binder_insert_free_buffer rb bufs alloc new = Inr (alloc\<lparr>al_free_buffers := t\<rparr>) \<and>
    inorder t = inorder (rb_link (buffer_size_of bufs alloc) new (al_free_buffers alloc))"
proof -
  have all: "list_all (\<lambda>b. bufs b \<noteq> None) (al_buffers alloc)" using ok by (simp add: free_tree_ok_def)
  show ?thesis
    using ok new rb_kernel_okD(1) [OF rb] binder_alloc_buffer_size_ok [OF all]
      insert_free_walk_link [OF all]
    by (intro exI [of _ "rb_insert_color rb (rb_link (buffer_size_of bufs alloc) new (al_free_buffers alloc))"])
      (simp add: binder_insert_free_buffer_def free_tree_ok_def)
qed

lemma buffer_size_of_free_buffers [simp]:
  "buffer_size_of bufs (alloc\<lparr>al_free_buffers := t\<rparr>) = buffer_size_of bufs alloc"
  by (rule ext) (simp add: buffer_size_of_def binder_alloc_buffer_size_def cong: option.case_cong)

section \<open>Properties\<close>

text \<open>\<open>binder_insert_free_buffer\<close> puts a free buffer of the area into the tree of free
  buffers without a trap; the tree then holds exactly one more buffer, is still ordered by
  size and holds only free buffers of the area. Buffers of equal size go to the right.\<close>

theorem insert_free_keeps_order:
  assumes "rb_kernel_ok rb" and "free_tree_ok bufs alloc"
    and "new \<in> set (al_buffers alloc)" and "bufs new = Some x" and "bb_free x"
  shows "\<exists>alloc'. binder_insert_free_buffer rb bufs alloc new = Inr alloc' \<and> free_tree_ok bufs alloc' \<and>
    length (inorder (al_free_buffers alloc')) = Suc (length (inorder (al_free_buffers alloc))) \<and>
    set (inorder (al_free_buffers alloc')) = insert new (set (inorder (al_free_buffers alloc))) \<and>
    al_buffers alloc' = al_buffers alloc"
proof -
  obtain t where t: "binder_insert_free_buffer rb bufs alloc new = Inr (alloc\<lparr>al_free_buffers := t\<rparr>)"
    "inorder t = inorder (rb_link (buffer_size_of bufs alloc) new (al_free_buffers alloc))"
    using binder_insert_free_buffer_ok [OF assms] by blast
  have set_t: "set_tree t = insert new (set_tree (al_free_buffers alloc))"
    using arg_cong [OF t(2), of set] by (simp add: set_rb_link)
  have "length (inorder t) = Suc (length (inorder (al_free_buffers alloc)))"
    unfolding t(2) by (rule length_rb_link)
  moreover have "free_tree_ok bufs (alloc\<lparr>al_free_buffers := t\<rparr>)"
    using assms(2-) rb_link_weakly_sorted [of "buffer_size_of bufs alloc" "al_free_buffers alloc" new]
    by (auto simp: free_tree_ok_def t(2) set_rb_link list_all_iff)
  ultimately show ?thesis using t(1) set_t by simp
qed

text \<open>Two buffers at 4096 and 8192 of an area of three pages: the first is larger.\<close>

definition two_buffers :: "nat \<Rightarrow> binder_buffer option" where
  "two_buffers =
     [1 \<mapsto> binder_buffer_zero\<lparr>bb_user_data := 0x1000, bb_free := True\<rparr>,
      2 \<mapsto> binder_buffer_zero\<lparr>bb_user_data := 0x3000, bb_free := True\<rparr>]"

definition two_alloc :: binder_alloc where
  "two_alloc = binder_alloc_zero\<lparr>al_buffer := 0x1000, al_buffer_size := 0x3000, al_buffers := [1, 2],
     al_free_buffers := Node Leaf 1 Leaf\<rparr>"

lemma insert_free_keeps_order_witness:
  "\<exists>alloc'. binder_insert_free_buffer rb_kernel_plain two_buffers two_alloc 2 = Inr alloc' \<and>
     free_tree_ok two_buffers alloc' \<and> length (inorder (al_free_buffers alloc')) = 2"
proof -
  have "\<exists>alloc'. binder_insert_free_buffer rb_kernel_plain two_buffers two_alloc 2 = Inr alloc' \<and>
    free_tree_ok two_buffers alloc' \<and>
    length (inorder (al_free_buffers alloc')) = Suc (length (inorder (al_free_buffers two_alloc))) \<and>
    set (inorder (al_free_buffers alloc')) = insert 2 (set (inorder (al_free_buffers two_alloc))) \<and>
    al_buffers alloc' = al_buffers two_alloc"
    by (rule insert_free_keeps_order [OF rb_kernel_plain_ok,
          where x = "binder_buffer_zero\<lparr>bb_user_data := 0x3000, bb_free := True\<rparr>"])
      (simp_all add: free_tree_ok_def two_alloc_def two_buffers_def binder_alloc_zero_def)
  then show ?thesis by (auto simp: two_alloc_def)
qed

text \<open>The successful mapping, with the state it leaves.\<close>

lemma mmap_success_run:
  assumes "rb_kernel_ok rb" and "\<not> ah_mmap_lock h" and "alloc_unmapped alloc"
    and "vm_start vma < vm_end vma"
  shows "\<exists>t. inorder t = [b] \<and> binder_alloc_mmap_handler rb True (Some b) alloc vma h = Inr (0,
      alloc\<lparr>al_vma := Some vma, al_vma_vm_mm := Some (vm_mm vma), al_buffer := vm_start vma, al_buffers := [b],
        al_free_buffers := t, al_free_async_space := min (vm_end vma - vm_start vma) SZ_4M div 2,
        al_pages := Some (replicate (unat (min (vm_end vma - vm_start vma) SZ_4M div PAGE_SIZE)) \<lparr>lp_page_ptr = None, lp_alloc = None\<rparr>),
        al_buffer_size := min (vm_end vma - vm_start vma) SZ_4M\<rparr>,
      h\<lparr>ah_bufs := (ah_bufs h)(b \<mapsto> binder_buffer_zero\<lparr>bb_user_data := vm_start vma, bb_free := True\<rparr>),
        ah_mm_count := (ah_mm_count h)(vm_mm vma := Suc (ah_mm_count h (vm_mm vma)))\<rparr>)"
proof -
  let ?size = "min (vm_end vma - vm_start vma) SZ_4M"
  let ?buffer = "binder_buffer_zero\<lparr>bb_user_data := vm_start vma, bb_free := True\<rparr>"
  let ?pages = "Some (replicate (unat (?size div PAGE_SIZE)) \<lparr>lp_page_ptr = None, lp_alloc = None\<rparr>)"
  let ?alloc = "alloc\<lparr>al_buffer_size := ?size, al_buffer := vm_start vma, al_pages := ?pages, al_buffers := [b]\<rparr>"
  let ?bufs = "(ah_bufs h)(b \<mapsto> ?buffer)"
  have "free_tree_ok ?bufs ?alloc" using assms(3) by (simp add: free_tree_ok_def alloc_unmapped_def)
  then obtain t where t:
    "binder_insert_free_buffer rb ?bufs ?alloc b = Inr (?alloc\<lparr>al_free_buffers := t\<rparr>)" "inorder t = [b]"
    using binder_insert_free_buffer_ok [OF assms(1), of ?bufs ?alloc b ?buffer] assms(3)
    by (auto simp: alloc_unmapped_def)
  then show ?thesis
    using assms(2,3)
    by (intro exI [of _ t]) (simp add: binder_alloc_mmap_handler_def mmap_lock_def mmap_unlock_def alloc_unmapped_def
        Let_def binder_alloc_set_vma_def)
qed

lemma min_4M_pos: "vm_start vma < vm_end vma \<Longrightarrow> 0 < min (vm_end vma - vm_start vma) SZ_4M"
  by (simp add: min_def word_less_nat_alt word_le_nat_alt unat_sub_if')

lemma mmap_success_heap:
  assumes "rb_kernel_ok rb" and "\<not> ah_mmap_lock h" and "alloc_unmapped alloc"
    and "vm_start vma < vm_end vma" and "ah_bufs h b = None"
  shows "\<exists>al h'. binder_alloc_mmap_handler rb True (Some b) alloc vma h = Inr (0, al, h') \<and> \<not> ah_mmap_lock h' \<and>
    alloc_mapped (ah_bufs h') al \<and> (\<forall>a x. ah_bufs h a = Some x \<longrightarrow> ah_bufs h' a = Some x) \<and>
    (\<forall>a. ah_bufs h' a \<noteq> None \<longrightarrow> ah_bufs h a \<noteq> None \<or> b = a)"
  using mmap_success_run [OF assms(1-4), of b] min_4M_pos [OF assms(4)] assms(2,5)
  by (auto simp: alloc_mapped_def)

text \<open>C27: the first mapping of an area. With memory available the handler returns 0, the area is
  the one of the caller cut at 4M, one free buffer covers all of it, half of it is for
  asynchronous transactions, there is a slot for each whole page, the address space is
  referenced once more, and the global lock is free again.\<close>

theorem mmap_success_layout:
  assumes "rb_kernel_ok rb" and "\<not> ah_mmap_lock h" and "alloc_unmapped alloc"
    and "vm_start vma < vm_end vma"
  shows "\<exists>alloc' h'. binder_alloc_mmap_handler rb True (Some b) alloc vma h = Inr (0, alloc', h') \<and>
    alloc_mapped (ah_bufs h') alloc' \<and>
    al_buffer alloc' = vm_start vma \<and>
    al_buffer_size alloc' = min (vm_end vma - vm_start vma) SZ_4M \<and>
    al_buffers alloc' = [b] \<and> buffer_size_of (ah_bufs h') alloc' b = al_buffer_size alloc' \<and>
    al_free_async_space alloc' = al_buffer_size alloc' div 2 \<and>
    binder_alloc_get_vma alloc' = Some vma \<and> al_vma_vm_mm alloc' = Some (vm_mm vma) \<and>
    ah_mm_count h' (vm_mm vma) = Suc (ah_mm_count h (vm_mm vma)) \<and> \<not> ah_mmap_lock h'"
  using mmap_success_run [OF assms, of b] min_4M_pos [OF assms(4)] assms(2)
  by (auto simp: alloc_mapped_def binder_alloc_get_vma_def buffer_size_of_def binder_alloc_buffer_size_def)

definition vma_1M :: vm_area where
  "vma_1M = \<lparr>vm_start = 0x7f000000, vm_end = 0x7f100000, vm_flags = 0, vm_mm = 5\<rparr>"

definition heap0 :: alloc_heap where
  "heap0 = \<lparr>ah_mmap_lock = False, ah_bufs = Map.empty, ah_mm_count = (\<lambda>_. 1)\<rparr>"

lemma mmap_success_layout_witness:
  "\<exists>alloc' h'. binder_alloc_mmap_handler rb_kernel_plain True (Some 9) (binder_alloc_init 77 binder_alloc_zero) vma_1M heap0 =
      Inr (0, alloc', h') \<and> al_buffer_size alloc' = 0x100000 \<and> al_free_async_space alloc' = 0x80000"
proof -
  note run = mmap_success_layout [OF rb_kernel_plain_ok, of heap0 "binder_alloc_init 77 binder_alloc_zero" vma_1M 9,
      OF _ binder_alloc_init_unmapped]
  have "\<not> ah_mmap_lock heap0" "vm_start vma_1M < vm_end vma_1M" by (simp_all add: heap0_def vma_1M_def)
  from run [OF this] show ?thesis by (auto simp: vma_1M_def min_def)
qed

lemma mmap_failure_outcome:
  assumes "\<not> ah_mmap_lock h" and "alloc_unmapped alloc \<or> alloc_mapped (ah_bufs h) alloc"
    and "alloc_mapped (ah_bufs h) alloc \<or> \<not> kcalloc \<or> kzalloc = None"
  shows "binder_alloc_mmap_handler rb kcalloc kzalloc alloc vma h =
    Inr (if alloc_mapped (ah_bufs h) alloc then - EBUSY else - ENOMEM, alloc, h)"
proof (cases "alloc_mapped (ah_bufs h) alloc")
  case True
  then have "al_buffer_size alloc \<noteq> 0" by (auto simp: alloc_mapped_def)
  with True assms(1) show ?thesis
    by (simp add: binder_alloc_mmap_handler_def mmap_lock_def err_labels)
next
  case False
  with assms have "alloc_unmapped alloc" and oom: "\<not> kcalloc \<or> kzalloc = None" by auto
  then have al: "al_buffer_size alloc = 0" "al_buffer alloc = 0" "al_pages alloc = None"
    by (simp_all add: alloc_unmapped_def)
  from oom False assms(1) show ?thesis
    by (cases kcalloc)
      (simp_all add: binder_alloc_mmap_handler_def mmap_lock_def mmap_unlock_def err_labels al Let_def)
qed

text \<open>A mapping that fails changes nothing: with the area already mapped the handler
  returns \<open>-EBUSY\<close>, without memory for the page array or the buffer \<open>-ENOMEM\<close>, in each case
  with the allocator and the shared state as they were, the lock released.\<close>

theorem mmap_failure_restores:
  assumes "\<not> ah_mmap_lock h" and "alloc_unmapped alloc \<or> alloc_mapped (ah_bufs h) alloc"
    and "alloc_mapped (ah_bufs h) alloc \<or> \<not> kcalloc \<or> kzalloc = None"
  shows "binder_alloc_mmap_handler rb kcalloc kzalloc alloc vma h =
    Inr (if alloc_mapped (ah_bufs h) alloc then - EBUSY else - ENOMEM, alloc, h)"
  by (rule mmap_failure_outcome [OF assms])

lemma mmap_failure_restores_witness:
  "binder_alloc_mmap_handler rb_kernel_plain True None (binder_alloc_init 77 binder_alloc_zero) vma_1M heap0 =
     Inr (- ENOMEM, binder_alloc_init 77 binder_alloc_zero, heap0)"
proof -
  have h: "\<not> ah_mmap_lock heap0" by (simp add: heap0_def)
  have "\<not> alloc_mapped (ah_bufs heap0) (binder_alloc_init 77 binder_alloc_zero)"
    by (simp add: alloc_mapped_def binder_alloc_init_def binder_alloc_zero_def)
  then show ?thesis
    using mmap_failure_restores [OF h, of "binder_alloc_init 77 binder_alloc_zero" True None]
      binder_alloc_init_unmapped by simp
qed

text \<open>An area is mapped once in the life of a process's allocator: closing the mapping only
  forgets the area, so each later attempt is refused with \<open>-EBUSY\<close>, and the shrinker
  finds no area to unmap pages from.\<close>

theorem mapping_is_final:
  assumes "\<not> ah_mmap_lock h" and "alloc_mapped (ah_bufs h) alloc"
  shows "binder_alloc_mmap_handler rb kcalloc kzalloc (binder_alloc_vma_close alloc) vma h =
      Inr (- EBUSY, binder_alloc_vma_close alloc, h) \<and>
    binder_alloc_get_vma (binder_alloc_vma_close alloc) = None \<and>
    al_vma_vm_mm (binder_alloc_vma_close alloc) = al_vma_vm_mm alloc"
proof -
  have "al_buffer_size (binder_alloc_vma_close alloc) \<noteq> 0"
    using assms(2) by (auto simp: alloc_mapped_def binder_alloc_vma_close_def binder_alloc_set_vma_def)
  then show ?thesis
    using assms(1) by (simp add: binder_alloc_mmap_handler_def mmap_lock_def err_labels binder_alloc_get_vma_def
        binder_alloc_vma_close_def binder_alloc_set_vma_def)
qed

definition alloc_1page :: binder_alloc where
  "alloc_1page = binder_alloc_zero\<lparr>al_buffer := 0x1000, al_buffer_size := 0x1000, al_buffers := [1],
     al_free_buffers := Node Leaf 1 Leaf, al_pages := Some [\<lparr>lp_page_ptr = Some 3, lp_alloc = Some 0\<rparr>],
     al_vma := Some vma_1M, al_vma_vm_mm := Some 5\<rparr>"

lemma mapping_is_final_witness:
  "binder_alloc_get_vma (binder_alloc_vma_close alloc_1page) = None"
proof -
  have h: "\<not> ah_mmap_lock (heap0\<lparr>ah_bufs := two_buffers\<rparr>)" by (simp add: heap0_def)
  have "alloc_mapped (ah_bufs (heap0\<lparr>ah_bufs := two_buffers\<rparr>)) alloc_1page"
    by (simp add: alloc_mapped_def alloc_1page_def two_buffers_def)
  then show ?thesis using mapping_is_final [OF h] by blast
qed

text \<open>The shrinker's callback gives back exactly the page of its item: it leaves the LRU list,
  the page is unmapped from the area, if there is one, at the address of its index in the
  buffer area, freed once, and its slot cleared; every other slot of the allocator stays.
  When a lock or the address space cannot be had the item is skipped and nothing changes.\<close>

theorem free_page_gives_back:
  assumes "ss_allocs st a = Some alloc" and "al_pages alloc = Some ps" and "i < length ps"
    and "lp_alloc (ps ! i) = Some a" and "al_vma_vm_mm alloc = Some mm"
  shows "binder_alloc_free_page env (a, i) st = Inr
    (case lp_page_ptr (ps ! i) of
       Some p \<Rightarrow>
         if fe_mutex_trylock env \<and> fe_mmget_not_zero env \<and> fe_down_read_trylock env
         then (LRU_REMOVED_RETRY,
           \<lparr>ss_allocs = (ss_allocs st)(a \<mapsto> alloc\<lparr>al_pages := Some (ps[i := (ps ! i)\<lparr>lp_page_ptr := None\<rparr>])\<rparr>),
            ss_lru = filter (\<lambda>x. x \<noteq> (a, i)) (ss_lru st),
            ss_zapped = ss_zapped st @ (case al_vma alloc of Some v \<Rightarrow> [(v, al_buffer alloc + of_nat (4096 * i))] | None \<Rightarrow> []),
            ss_freed_pages = p # ss_freed_pages st\<rparr>)
         else (LRU_SKIP, st)
     | None \<Rightarrow> (LRU_SKIP, st))"
  using assms
  by (simp add: binder_alloc_free_page_def binder_alloc_get_vma_def Let_def removeAll_filter_not_eq
      eq_commute [of "(a, i)"] mult.commute split: option.split)

lemma free_page_gives_back_witness:
  "\<exists>st. binder_alloc_free_page \<lparr>fe_mutex_trylock = True, fe_mmget_not_zero = True, fe_down_read_trylock = True\<rparr> (0, 0)
     \<lparr>ss_allocs = [0 \<mapsto> alloc_1page], ss_lru = [(0, 0)], ss_zapped = [], ss_freed_pages = []\<rparr> =
       Inr (LRU_REMOVED_RETRY, st) \<and> ss_zapped st = [(vma_1M, 0x1000)] \<and> ss_freed_pages st = [3] \<and> ss_lru st = []"
  using free_page_gives_back [where a = 0 and i = 0 and alloc = alloc_1page
      and mm = 5 and ps = "[\<lparr>lp_page_ptr = Some 3, lp_alloc = Some 0\<rparr>]"
      and st = "\<lparr>ss_allocs = [0 \<mapsto> alloc_1page], ss_lru = [(0, 0)], ss_zapped = [], ss_freed_pages = []\<rparr>"
      and env = "\<lparr>fe_mutex_trylock = True, fe_mmget_not_zero = True, fe_down_read_trylock = True\<rparr>"]
  by (simp add: alloc_1page_def)

end
