(* ===== verification/Binder_Types.thy ===== *)
theory Binder_Types
  imports Binder_Alloc
begin

text \<open>
  The data of the binder driver, \<open>binder_internal.h\<close>, and the state of the module. A
  structure is stored under its address in the map of its type; freeing it removes it, so
  that a later access traps. C \<open>int\<close> fields that are counted are 32-bit words. The list
  heads \<open>todo\<close> of processes and threads are in one field, \<open>bk_todo\<close>, and a work item
  knows the list it is linked into, as \<open>struct list_head\<close> does.
\<close>

section \<open>Constants\<close>

abbreviation (input) BINDER_LOOPER_STATE_REGISTERED :: u32 where "BINDER_LOOPER_STATE_REGISTERED \<equiv> 0x01"
abbreviation (input) BINDER_LOOPER_STATE_ENTERED :: u32 where "BINDER_LOOPER_STATE_ENTERED \<equiv> 0x02"
abbreviation (input) BINDER_LOOPER_STATE_POLL :: u32 where "BINDER_LOOPER_STATE_POLL \<equiv> 0x20"

abbreviation (input) TF_ONE_WAY :: u32 where "TF_ONE_WAY \<equiv> 1"
abbreviation (input) BR_OK :: u32 where "BR_OK \<equiv> 0x7201"
abbreviation (input) BR_DEAD_REPLY :: u32 where "BR_DEAD_REPLY \<equiv> 0x7205"
abbreviation (input) BC_TRANSACTION :: u32 where "BC_TRANSACTION \<equiv> 0x40406300"
abbreviation (input) BC_REPLY :: u32 where "BC_REPLY \<equiv> 0x40406301"

text \<open>\<open>kuid_t\<close> is its number; \<open>INVALID_UID\<close> is \<open>-1\<close>.\<close>

abbreviation (input) INVALID_UID :: u32 where "INVALID_UID \<equiv> - 1"
abbreviation (input) BINDERFS_MAX_NAME :: nat where "BINDERFS_MAX_NAME \<equiv> 255"

definition uid_valid :: "u32 \<Rightarrow> bool" where "uid_valid uid \<longleftrightarrow> uid \<noteq> INVALID_UID"

section \<open>Statistics and the transaction log\<close>

datatype binder_stat_types =
    BINDER_STAT_PROC
  | BINDER_STAT_THREAD
  | BINDER_STAT_NODE
  | BINDER_STAT_REF
  | BINDER_STAT_DEATH
  | BINDER_STAT_TRANSACTION
  | BINDER_STAT_TRANSACTION_COMPLETE

text \<open>\<open>bc\<close> has an element for each command up to \<open>BC_REPLY_SG\<close>, number 18.\<close>

record binder_stats =
  st_bc :: "u32 list"
  st_obj_created :: "binder_stat_types \<Rightarrow> u32"
  st_obj_deleted :: "binder_stat_types \<Rightarrow> u32"

definition binder_stats_zero :: binder_stats where
  "binder_stats_zero =
     \<lparr>st_bc = replicate 19 0, st_obj_created = (\<lambda>_. 0), st_obj_deleted = (\<lambda>_. 0)\<rparr>"

record tlog_entry =
  te_debug_id :: u32
  te_debug_id_done :: u32
  te_call_type :: u32
  te_from_proc :: u32
  te_from_thread :: u32
  te_target_handle :: u32
  te_to_proc :: u32
  te_to_thread :: u32
  te_to_node :: u32
  te_data_size :: u32
  te_offsets_size :: u32
  te_return_error_line :: u32
  te_return_error :: u32
  te_return_error_param :: u32
  te_context_name :: string

definition tlog_entry_zero :: tlog_entry where
  "tlog_entry_zero =
     \<lparr>te_debug_id = 0, te_debug_id_done = 0, te_call_type = 0, te_from_proc = 0, te_from_thread = 0,
      te_target_handle = 0, te_to_proc = 0, te_to_thread = 0, te_to_node = 0, te_data_size = 0,
      te_offsets_size = 0, te_return_error_line = 0, te_return_error = 0, te_return_error_param = 0,
      te_context_name = []\<rparr>"

abbreviation (input) TLOG_SIZE :: nat where "TLOG_SIZE \<equiv> 32"

record binder_transaction_log =
  tl_cur :: u32
  tl_full :: bool
  tl_entry :: "tlog_entry list"

section \<open>Work\<close>

datatype binder_work_type =
    BINDER_WORK_TRANSACTION
  | BINDER_WORK_TRANSACTION_COMPLETE
  | BINDER_WORK_TRANSACTION_ONEWAY_SPAM_SUSPECT
  | BINDER_WORK_RETURN_ERROR
  | BINDER_WORK_NODE
  | BINDER_WORK_DEAD_BINDER
  | BINDER_WORK_DEAD_BINDER_AND_CLEAR

text \<open>The structures a \<open>struct binder_work\<close> is embedded in, by address, and the lists of work.\<close>

datatype binder_work =
    NodeWork nat
  | TransactionWork nat
  | CompleteWork nat
  | ReturnErrorWork nat
  | ReplyErrorWork nat

datatype work_list =
    ProcTodo nat
  | ThreadTodo nat

section \<open>Processes, threads, nodes, transactions\<close>

record binder_priority =
  pri_sched_policy :: int
  pri_prio :: int

record binder_node =
  nd_debug_id :: u32
  nd_work_type :: "binder_work_type option"
  nd_proc :: "nat option"
  nd_refs :: "nat list"
  nd_internal_strong_refs :: u32
  nd_local_weak_refs :: u32
  nd_local_strong_refs :: u32
  nd_tmp_refs :: u32
  nd_ptr :: u64
  nd_cookie :: u64
  nd_has_strong_ref :: bool
  nd_pending_strong_ref :: bool
  nd_has_weak_ref :: bool
  nd_pending_weak_ref :: bool
  nd_sched_policy :: "2 word"
  nd_inherit_rt :: bool
  nd_accept_fds :: bool
  nd_txn_security_ctx :: bool
  nd_min_priority :: u8
  nd_async_todo :: "binder_work list"

definition binder_node_zero :: binder_node where
  "binder_node_zero =
     \<lparr>nd_debug_id = 0, nd_work_type = None, nd_proc = None, nd_refs = [],
      nd_internal_strong_refs = 0, nd_local_weak_refs = 0, nd_local_strong_refs = 0, nd_tmp_refs = 0,
      nd_ptr = 0, nd_cookie = 0, nd_has_strong_ref = False, nd_pending_strong_ref = False,
      nd_has_weak_ref = False, nd_pending_weak_ref = False, nd_sched_policy = 0, nd_inherit_rt = False,
      nd_accept_fds = False, nd_txn_security_ctx = False, nd_min_priority = 0, nd_async_todo = []\<rparr>"

record binder_proc =
  pr_threads :: "nat tree"
  pr_nodes :: "nat tree"
  pr_pid :: int
  pr_tsk :: nat
  pr_waiting_threads :: "nat list"
  pr_stats :: binder_stats
  pr_delivered_death :: "binder_work list"
  pr_max_threads :: u32
  pr_tmp_ref :: u32
  pr_default_priority :: binder_priority
  pr_alloc :: binder_alloc
  pr_context :: nat

record binder_thread =
  th_proc :: nat
  th_pid :: int
  th_looper :: u32
  th_looper_need_return :: bool
  th_transaction_stack :: "nat option"
  th_return_error_type :: "binder_work_type option"
  th_return_error_cmd :: u32
  th_reply_error_type :: "binder_work_type option"
  th_reply_error_cmd :: u32
  th_stats :: binder_stats
  th_tmp_ref :: u32
  th_task :: nat

definition binder_thread_zero :: binder_thread where
  "binder_thread_zero =
     \<lparr>th_proc = 0, th_pid = 0, th_looper = 0, th_looper_need_return = False,
      th_transaction_stack = None, th_return_error_type = None, th_return_error_cmd = 0,
      th_reply_error_type = None, th_reply_error_cmd = 0, th_stats = binder_stats_zero, th_tmp_ref = 0,
      th_task = 0\<rparr>"

record binder_transaction_rec =
  tx_debug_id :: u32
  tx_from :: "nat option"
  tx_from_parent :: "nat option"
  tx_to_proc :: "nat option"
  tx_to_thread :: "nat option"
  tx_to_parent :: "nat option"
  tx_need_reply :: bool
  tx_buffer :: "nat option"
  tx_code :: u32
  tx_flags :: u32
  tx_priority :: binder_priority
  tx_saved_priority :: binder_priority
  tx_set_priority_called :: bool
  tx_is_nested :: bool
  tx_sender_euid :: u32
  tx_security_ctx :: u64

definition binder_transaction_zero :: binder_transaction_rec where
  "binder_transaction_zero =
     \<lparr>tx_debug_id = 0, tx_from = None, tx_from_parent = None, tx_to_proc = None, tx_to_thread = None,
      tx_to_parent = None, tx_need_reply = False, tx_buffer = None, tx_code = 0, tx_flags = 0,
      tx_priority = \<lparr>pri_sched_policy = 0, pri_prio = 0\<rparr>,
      tx_saved_priority = \<lparr>pri_sched_policy = 0, pri_prio = 0\<rparr>, tx_set_priority_called = False,
      tx_is_nested = False, tx_sender_euid = 0, tx_security_ctx = 0\<rparr>"

text \<open>A device with its \<open>struct binder_context\<close>.\<close>

record binder_device =
  dv_mgr_node :: "nat option"
  dv_mgr_uid :: u32
  dv_name :: "string option"
  dv_minor :: int
  dv_inode :: "nat option"
  dv_ref :: u32

section \<open>The module\<close>

text \<open>
  \<open>bk_kzalloc\<close> says of each coming allocation whether it succeeds; a successful one has
  the address \<open>bk_next\<close>, never used before. \<open>bk_wakeups\<close> records the threads woken and
  whether synchronously.
\<close>

record binder_kernel =
  bk_procs :: "nat \<Rightarrow> binder_proc option"
  bk_proc_list :: "nat list"
  bk_threads :: "nat \<Rightarrow> binder_thread option"
  bk_nodes :: "nat \<Rightarrow> binder_node option"
  bk_dead_nodes :: "nat list"
  bk_devices :: "nat \<Rightarrow> binder_device option"
  bk_transactions :: "nat \<Rightarrow> binder_transaction_rec option"
  bk_completes :: "nat list"
  bk_todo :: "work_list \<Rightarrow> binder_work list"
  bk_on :: "binder_work \<Rightarrow> work_list option"
  bk_last_id :: u32
  bk_stats :: binder_stats
  bk_tlog :: binder_transaction_log
  bk_tlog_failed :: binder_transaction_log
  bk_heap :: alloc_heap
  bk_stop_on_user_error :: int
  bk_wakeups :: "(nat \<times> bool) list"
  bk_kzalloc :: "bool list"
  bk_next :: nat

definition kzalloc :: "binder_kernel \<Rightarrow> nat option \<times> binder_kernel" where
  "kzalloc bk =
     (case bk_kzalloc bk of
        True # oks \<Rightarrow> (Some (bk_next bk), bk\<lparr>bk_kzalloc := oks, bk_next := Suc (bk_next bk)\<rparr>)
      | False # oks \<Rightarrow> (None, bk\<lparr>bk_kzalloc := oks\<rparr>)
      | [] \<Rightarrow> (None, bk))"

definition the_proc :: "binder_kernel \<Rightarrow> nat \<Rightarrow> binder_proc chk" where
  "the_proc bk p = derefE UseAfterFree (bk_procs bk p)"

definition the_thread :: "binder_kernel \<Rightarrow> nat \<Rightarrow> binder_thread chk" where
  "the_thread bk t = derefE UseAfterFree (bk_threads bk t)"

definition the_node :: "binder_kernel \<Rightarrow> nat \<Rightarrow> binder_node chk" where
  "the_node bk n = derefE UseAfterFree (bk_nodes bk n)"

definition the_device :: "binder_kernel \<Rightarrow> nat \<Rightarrow> binder_device chk" where
  "the_device bk d = derefE UseAfterFree (bk_devices bk d)"

definition set_proc :: "nat \<Rightarrow> binder_proc \<Rightarrow> binder_kernel \<Rightarrow> binder_kernel" where
  "set_proc p pr bk = bk\<lparr>bk_procs := (bk_procs bk)(p \<mapsto> pr)\<rparr>"

definition set_thread :: "nat \<Rightarrow> binder_thread \<Rightarrow> binder_kernel \<Rightarrow> binder_kernel" where
  "set_thread t th bk = bk\<lparr>bk_threads := (bk_threads bk)(t \<mapsto> th)\<rparr>"

definition set_node :: "nat \<Rightarrow> binder_node \<Rightarrow> binder_kernel \<Rightarrow> binder_kernel" where
  "set_node n nd bk = bk\<lparr>bk_nodes := (bk_nodes bk)(n \<mapsto> nd)\<rparr>"

definition set_device :: "nat \<Rightarrow> binder_device \<Rightarrow> binder_kernel \<Rightarrow> binder_kernel" where
  "set_device d dv bk = bk\<lparr>bk_devices := (bk_devices bk)(d \<mapsto> dv)\<rparr>"

text \<open>The calling task, \<open>current\<close>: its pid, its thread group leader, policy and credentials.\<close>

record task =
  cur_task :: nat
  cur_pid :: int
  cur_leader :: nat
  cur_leader_pid :: int
  cur_policy :: int
  cur_normal_prio :: int
  cur_euid :: u32

section \<open>User memory\<close>

type_synonym user_mem = "u64 \<Rightarrow> u8 option"

definition copy_from_user :: "user_mem \<Rightarrow> u64 \<Rightarrow> nat \<Rightarrow> u8 list option" where
  "copy_from_user um addr n = those (map (\<lambda>i. um (addr + of_nat i)) [0..<n])"

text \<open>The bytes before a fault are written; the flag says whether all were.\<close>

fun copy_to_user :: "user_mem \<Rightarrow> u64 \<Rightarrow> u8 list \<Rightarrow> user_mem \<times> bool" where
  "copy_to_user um addr [] = (um, True)"
| "copy_to_user um addr (b # bs) =
     (case um addr of
        None \<Rightarrow> (um, False)
      | Some _ \<Rightarrow> copy_to_user (um(addr \<mapsto> b)) (addr + 1) bs)"

definition get_user32 :: "user_mem \<Rightarrow> u64 \<Rightarrow> u32 option" where
  "get_user32 um addr = map_option le_word (copy_from_user um addr 4)"

text \<open>\<open>put_user\<close> stores all of the word or nothing.\<close>

definition put_user32 :: "user_mem \<Rightarrow> u64 \<Rightarrow> u32 \<Rightarrow> user_mem \<times> bool" where
  "put_user32 um addr w =
     (if copy_from_user um addr 4 = None then (um, False) else copy_to_user um addr (le_bytes 4 w))"

end
