(* ===== verification/Binder_Core.thy ===== *)
theory Binder_Core
  imports Binder_Types
begin

text \<open>
  The building blocks of \<open>binder.c\<close>: statistics, the transaction log, work lists, the
  waking of threads, priorities, the reference counts of nodes, and the lookup or creation
  of nodes and threads in the trees of a process. Each function runs under the locks its
  name or its caller gives it; here it is one step on the module's state.
\<close>

section \<open>Statistics\<close>

definition binder_stats_created :: "binder_stat_types \<Rightarrow> binder_kernel \<Rightarrow> binder_kernel" where
  "binder_stats_created ty bk =
     (let st = bk_stats bk in
      bk\<lparr>bk_stats := st\<lparr>st_obj_created := (st_obj_created st)(ty := st_obj_created st ty + 1)\<rparr>\<rparr>)"

definition binder_stats_deleted :: "binder_stat_types \<Rightarrow> binder_kernel \<Rightarrow> binder_kernel" where
  "binder_stats_deleted ty bk =
     (let st = bk_stats bk in
      bk\<lparr>bk_stats := st\<lparr>st_obj_deleted := (st_obj_deleted st)(ty := st_obj_deleted st ty + 1)\<rparr>\<rparr>)"

definition stats_bc_inc :: "nat \<Rightarrow> binder_stats \<Rightarrow> binder_stats" where
  "stats_bc_inc i st = st\<lparr>st_bc := (st_bc st)[i := st_bc st ! i + 1]\<rparr>"

section \<open>Transaction log\<close>

text \<open>\<open>e\<close> is the index of the entry in the array.\<close>

definition binder_transaction_log_add :: "binder_transaction_log \<Rightarrow> nat \<times> binder_transaction_log" where
  "binder_transaction_log_add log =
     (let cur = tl_cur log + 1;
          e = unat (cur mod of_nat TLOG_SIZE)
      in (e, log\<lparr>tl_cur := cur, tl_full := (if of_nat TLOG_SIZE \<le> cur then True else tl_full log),
            tl_entry := (tl_entry log)[e := tlog_entry_zero]\<rparr>))"

section \<open>Work lists\<close>

definition binder_worklist_empty_ilocked :: "work_list \<Rightarrow> binder_kernel \<Rightarrow> bool" where
  "binder_worklist_empty_ilocked l bk \<longleftrightarrow> bk_todo bk l = []"

definition binder_enqueue_work_ilocked :: "binder_work \<Rightarrow> work_list \<Rightarrow> binder_kernel \<Rightarrow> binder_kernel chk" where
  "binder_enqueue_work_ilocked w target_list bk =
     bindE (assertE BugOn (bk_on bk w = None)) (\<lambda>_.
     Inr (bk\<lparr>bk_todo := (bk_todo bk)(target_list := bk_todo bk target_list @ [w]),
             bk_on := (bk_on bk)(w \<mapsto> target_list)\<rparr>))"

definition binder_enqueue_deferred_thread_work_ilocked ::
  "nat \<Rightarrow> binder_work \<Rightarrow> binder_kernel \<Rightarrow> binder_kernel chk" where
  "binder_enqueue_deferred_thread_work_ilocked thread w bk =
     bindE (the_thread bk thread) (\<lambda>_. binder_enqueue_work_ilocked w (ThreadTodo thread) bk)"

definition binder_dequeue_work_ilocked :: "binder_work \<Rightarrow> binder_kernel \<Rightarrow> binder_kernel" where
  "binder_dequeue_work_ilocked w bk =
     (case bk_on bk w of
        None \<Rightarrow> bk
      | Some l \<Rightarrow> bk\<lparr>bk_todo := (bk_todo bk)(l := remove1 w (bk_todo bk l)), bk_on := (bk_on bk)(w := None)\<rparr>)"

section \<open>Waking threads\<close>

definition binder_available_for_proc_work_ilocked :: "nat \<Rightarrow> binder_kernel \<Rightarrow> bool chk" where
  "binder_available_for_proc_work_ilocked t bk =
     bindE (the_thread bk t) (\<lambda>thread.
     Inr (th_transaction_stack thread = None \<and>
          binder_worklist_empty_ilocked (ThreadTodo t) bk \<and>
          th_looper thread AND (BINDER_LOOPER_STATE_ENTERED OR BINDER_LOOPER_STATE_REGISTERED) \<noteq> 0))"

definition wake_up_interruptible :: "nat \<Rightarrow> bool \<Rightarrow> binder_kernel \<Rightarrow> binder_kernel" where
  "wake_up_interruptible t sync bk = bk\<lparr>bk_wakeups := bk_wakeups bk @ [(t, sync)]\<rparr>"

text \<open>The walk over \<open>proc->threads\<close> from \<open>rb_first\<close> with \<open>rb_next\<close>.\<close>

fun wakeup_poll_walk :: "nat list \<Rightarrow> bool \<Rightarrow> binder_kernel \<Rightarrow> binder_kernel chk" where
  "wakeup_poll_walk [] sync bk = Inr bk"
| "wakeup_poll_walk (t # ts) sync bk =
     bindE (the_thread bk t) (\<lambda>thread.
     bindE (binder_available_for_proc_work_ilocked t bk) (\<lambda>available.
     wakeup_poll_walk ts sync
       (if th_looper thread AND BINDER_LOOPER_STATE_POLL \<noteq> 0 \<and> available
        then wake_up_interruptible t sync bk else bk)))"

definition binder_wakeup_poll_thread_ilocked :: "nat \<Rightarrow> bool \<Rightarrow> binder_kernel \<Rightarrow> binder_kernel chk" where
  "binder_wakeup_poll_thread_ilocked p sync bk =
     bindE (the_proc bk p) (\<lambda>proc. wakeup_poll_walk (inorder (pr_threads proc)) sync bk)"

definition binder_select_thread_ilocked :: "nat \<Rightarrow> binder_kernel \<Rightarrow> (nat option \<times> binder_kernel) chk" where
  "binder_select_thread_ilocked p bk =
     bindE (the_proc bk p) (\<lambda>proc.
     case pr_waiting_threads proc of
       [] \<Rightarrow> Inr (None, bk)
     | t # ts \<Rightarrow> Inr (Some t, set_proc p (proc\<lparr>pr_waiting_threads := ts\<rparr>) bk))"

definition binder_wakeup_thread_ilocked :: "nat \<Rightarrow> nat option \<Rightarrow> bool \<Rightarrow> binder_kernel \<Rightarrow> binder_kernel chk" where
  "binder_wakeup_thread_ilocked p thread sync bk =
     (case thread of
        Some t \<Rightarrow> bindE (the_thread bk t) (\<lambda>_. Inr (wake_up_interruptible t sync bk))
      | None \<Rightarrow> binder_wakeup_poll_thread_ilocked p sync bk)"

definition binder_wakeup_proc_ilocked :: "nat \<Rightarrow> binder_kernel \<Rightarrow> binder_kernel chk" where
  "binder_wakeup_proc_ilocked p bk =
     bindE (binder_select_thread_ilocked p bk) (\<lambda>(thread, bk).
     binder_wakeup_thread_ilocked p thread False bk)"

section \<open>Scheduling policies\<close>

text \<open>\<open>SCHED_NORMAL\<close>, \<open>SCHED_FIFO\<close>, \<open>SCHED_RR\<close>, \<open>SCHED_BATCH\<close> are 0 to 3.\<close>

definition is_rt_policy :: "int \<Rightarrow> bool" where
  "is_rt_policy policy \<longleftrightarrow> policy = 1 \<or> policy = 2"

definition is_fair_policy :: "int \<Rightarrow> bool" where
  "is_fair_policy policy \<longleftrightarrow> policy = 0 \<or> policy = 3"

definition binder_supported_policy :: "int \<Rightarrow> bool" where
  "binder_supported_policy policy \<longleftrightarrow> is_rt_policy policy \<or> is_fair_policy policy"

text \<open>\<open>NICE_TO_PRIO (n) = n + 120\<close> and \<open>MAX_RT_PRIO = 100\<close>.\<close>

definition to_kernel_prio :: "int \<Rightarrow> int \<Rightarrow> int" where
  "to_kernel_prio policy user_priority =
     (if is_fair_policy policy then user_priority + 120 else 100 - 1 - user_priority)"

section \<open>Reference counts of nodes\<close>

text \<open>
  The check of a strong reference from nowhere only prints a message, but reads the
  process and its context. A target list that is not a thread's makes the code read a
  thread around the wrong list head.
\<close>

definition inc_strong_check :: "work_list option \<Rightarrow> binder_node \<Rightarrow> binder_kernel \<Rightarrow> unit chk" where
  "inc_strong_check target_list node bk =
     (case nd_proc node of
        Some p \<Rightarrow>
          if target_list = None \<and> nd_internal_strong_refs node = 0
          then bindE (the_proc bk p) (\<lambda>proc. bindE (the_device bk (pr_context proc)) (\<lambda>_. Inr ()))
          else Inr ()
      | None \<Rightarrow> Inr ())"

definition binder_inc_node_nilocked ::
  "nat \<Rightarrow> bool \<Rightarrow> bool \<Rightarrow> work_list option \<Rightarrow> binder_kernel \<Rightarrow> (int \<times> binder_kernel) chk" where
  "binder_inc_node_nilocked n strong internal target_list bk =
     bindE (the_node bk n) (\<lambda>node.
     if strong then
       bindE (if internal then inc_strong_check target_list node bk else Inr ()) (\<lambda>_.
       let bk = set_node n
             (if internal then node\<lparr>nd_internal_strong_refs := nd_internal_strong_refs node + 1\<rparr>
              else node\<lparr>nd_local_strong_refs := nd_local_strong_refs node + 1\<rparr>) bk
       in if \<not> nd_has_strong_ref node then
            (case target_list of
               None \<Rightarrow> Inr (0, bk)
             | Some (ThreadTodo t) \<Rightarrow>
                 bindE (binder_enqueue_deferred_thread_work_ilocked t (NodeWork n)
                   (binder_dequeue_work_ilocked (NodeWork n) bk)) (\<lambda>bk. Inr (0, bk))
             | Some (ProcTodo _) \<Rightarrow> Inl OutOfBounds)
          else Inr (0, bk))
     else
       let bk = (if \<not> internal then set_node n (node\<lparr>nd_local_weak_refs := nd_local_weak_refs node + 1\<rparr>) bk
                 else bk)
       in if \<not> nd_has_weak_ref node \<and> bk_on bk (NodeWork n) = None then
            (case target_list of
               None \<Rightarrow> Inr (- EINVAL, bk)
             | Some l \<Rightarrow> bindE (binder_enqueue_work_ilocked (NodeWork n) l bk) (\<lambda>bk. Inr (0, bk)))
          else Inr (0, bk))"

text \<open>The last part of \<open>binder_dec_node_nilocked\<close>, for a node none of the early returns kept.\<close>

definition dec_node_unreferenced :: "rb_kernel \<Rightarrow> nat \<Rightarrow> binder_node \<Rightarrow> binder_kernel \<Rightarrow> (bool \<times> binder_kernel) chk" where
  "dec_node_unreferenced rb n node bk =
     (if nd_proc node \<noteq> None \<and> (nd_has_strong_ref node \<or> nd_has_weak_ref node) then
        (if bk_on bk (NodeWork n) = None then
           bindE (derefE NullDeref (nd_proc node)) (\<lambda>p.
           bindE (binder_enqueue_work_ilocked (NodeWork n) (ProcTodo p) bk) (\<lambda>bk.
           bindE (binder_wakeup_proc_ilocked p bk) (\<lambda>bk. Inr (False, bk))))
         else Inr (False, bk))
      else if nd_refs node \<noteq> [] \<and> nd_local_strong_refs node = 0 \<and> nd_local_weak_refs node = 0 \<and> nd_tmp_refs node = 0
      then
        (case nd_proc node of
           Some p \<Rightarrow>
             let bk = binder_dequeue_work_ilocked (NodeWork n) bk in
             bindE (the_proc bk p) (\<lambda>proc.
             Inr (True, set_proc p (proc\<lparr>pr_nodes := rb_erase rb n (pr_nodes proc)\<rparr>) bk))
         | None \<Rightarrow>
             bindE (assertE BugOn (bk_on bk (NodeWork n) = None)) (\<lambda>_.
             if nd_tmp_refs node \<noteq> 0 then Inr (False, bk)
             else bindE (assertE Uninitialised (n \<in> set (bk_dead_nodes bk))) (\<lambda>_.
               Inr (True, bk\<lparr>bk_dead_nodes := remove1 n (bk_dead_nodes bk)\<rparr>))))
      else Inr (False, bk))"

definition binder_dec_node_nilocked ::
  "rb_kernel \<Rightarrow> nat \<Rightarrow> bool \<Rightarrow> bool \<Rightarrow> binder_kernel \<Rightarrow> (bool \<times> binder_kernel) chk" where
  "binder_dec_node_nilocked rb n strong internal bk =
     bindE (the_node bk n) (\<lambda>node.
     if strong then
       let node = (if internal then node\<lparr>nd_internal_strong_refs := nd_internal_strong_refs node - 1\<rparr>
                   else node\<lparr>nd_local_strong_refs := nd_local_strong_refs node - 1\<rparr>);
           bk = set_node n node bk
       in if nd_local_strong_refs node \<noteq> 0 \<or> nd_internal_strong_refs node \<noteq> 0 then Inr (False, bk)
          else dec_node_unreferenced rb n node bk
     else
       let node = (if \<not> internal then node\<lparr>nd_local_weak_refs := nd_local_weak_refs node - 1\<rparr> else node);
           bk = set_node n node bk
       in if nd_local_weak_refs node \<noteq> 0 \<or> nd_tmp_refs node \<noteq> 0 \<or> nd_refs node \<noteq> [] then Inr (False, bk)
          else dec_node_unreferenced rb n node bk)"

definition binder_inc_node_tmpref_ilocked :: "nat \<Rightarrow> binder_kernel \<Rightarrow> binder_kernel chk" where
  "binder_inc_node_tmpref_ilocked n bk =
     bindE (the_node bk n) (\<lambda>node. Inr (set_node n (node\<lparr>nd_tmp_refs := nd_tmp_refs node + 1\<rparr>) bk))"

definition binder_free_node :: "nat \<Rightarrow> binder_kernel \<Rightarrow> binder_kernel chk" where
  "binder_free_node n bk =
     bindE (assertE InvalidFree (bk_nodes bk n \<noteq> None)) (\<lambda>_.
     Inr (binder_stats_deleted BINDER_STAT_NODE (bk\<lparr>bk_nodes := (bk_nodes bk)(n := None)\<rparr>)))"

definition binder_dec_node_tmpref :: "rb_kernel \<Rightarrow> nat \<Rightarrow> binder_kernel \<Rightarrow> binder_kernel chk" where
  "binder_dec_node_tmpref rb n bk =
     bindE (the_node bk n) (\<lambda>node.
     let node = node\<lparr>nd_tmp_refs := nd_tmp_refs node - 1\<rparr> in
     bindE (assertE BugOn (0 \<le> sint (nd_tmp_refs node))) (\<lambda>_.
     bindE (binder_dec_node_nilocked rb n False True (set_node n node bk)) (\<lambda>(free_node, bk).
     if free_node then binder_free_node n bk else Inr bk)))"

definition binder_put_node :: "rb_kernel \<Rightarrow> nat \<Rightarrow> binder_kernel \<Rightarrow> binder_kernel chk" where
  "binder_put_node rb n bk = binder_dec_node_tmpref rb n bk"

section \<open>Nodes of a process\<close>

text \<open>
  \<open>struct flat_binder_object\<close> as the \<open>SET_CONTEXT_MGR_EXT\<close> call passes it. The keys of
  the trees are read from the structures; a walk over a tree that holds a freed one traps.
\<close>

record flat_binder_object =
  fbo_type :: u32
  fbo_flags :: u32
  fbo_binder :: u64
  fbo_cookie :: u64

abbreviation (input) FLAT_BINDER_FLAG_PRIORITY_MASK :: u32 where "FLAT_BINDER_FLAG_PRIORITY_MASK \<equiv> 0xff"
abbreviation (input) FLAT_BINDER_FLAG_ACCEPTS_FDS :: u32 where "FLAT_BINDER_FLAG_ACCEPTS_FDS \<equiv> 0x100"
abbreviation (input) FLAT_BINDER_FLAG_SCHED_POLICY_MASK :: u32 where "FLAT_BINDER_FLAG_SCHED_POLICY_MASK \<equiv> 0x600"
abbreviation (input) FLAT_BINDER_FLAG_TXN_SECURITY_CTX :: u32 where "FLAT_BINDER_FLAG_TXN_SECURITY_CTX \<equiv> 0x1000"

definition node_key :: "binder_kernel \<Rightarrow> nat \<Rightarrow> u64" where
  "node_key bk n = (case bk_nodes bk n of Some nd \<Rightarrow> nd_ptr nd | None \<Rightarrow> 0)"

definition thread_key :: "binder_kernel \<Rightarrow> nat \<Rightarrow> int" where
  "thread_key bk t = (case bk_threads bk t of Some th \<Rightarrow> th_pid th | None \<Rightarrow> 0)"

definition binder_init_node_ilocked ::
  "rb_kernel \<Rightarrow> nat \<Rightarrow> nat \<Rightarrow> flat_binder_object option \<Rightarrow> binder_kernel \<Rightarrow> (nat \<times> binder_kernel) chk" where
  "binder_init_node_ilocked rb p new_node fp bk =
     (let ptr = (case fp of Some f \<Rightarrow> fbo_binder f | None \<Rightarrow> 0);
          cookie = (case fp of Some f \<Rightarrow> fbo_cookie f | None \<Rightarrow> 0);
          flags = (case fp of Some f \<Rightarrow> fbo_flags f | None \<Rightarrow> 0)
      in bindE (the_proc bk p) (\<lambda>proc.
         bindE (assertE UseAfterFree (list_all (\<lambda>n. bk_nodes bk n \<noteq> None) (inorder (pr_nodes proc)))) (\<lambda>_.
         case rb_find (node_key bk) ptr (pr_nodes proc) of
           Some n \<Rightarrow> bindE (binder_inc_node_tmpref_ilocked n bk) (\<lambda>bk. Inr (n, bk))
         | None \<Rightarrow>
             bindE (the_node bk new_node) (\<lambda>node.
             let bk = binder_stats_created BINDER_STAT_NODE bk;
                 debug_id = bk_last_id bk + 1;
                 bk = bk\<lparr>bk_last_id := debug_id\<rparr>;
                 priority = ucast (flags AND FLAT_BINDER_FLAG_PRIORITY_MASK) :: 8 word;
                 sched_policy = ucast (drop_bit 9 (flags AND FLAT_BINDER_FLAG_SCHED_POLICY_MASK)) :: 2 word;
                 node = node\<lparr>nd_tmp_refs := nd_tmp_refs node + 1, nd_debug_id := debug_id, nd_proc := Some p,
                   nd_ptr := ptr, nd_cookie := cookie, nd_work_type := Some BINDER_WORK_NODE,
                   nd_sched_policy := sched_policy,
                   nd_min_priority := word_of_int (to_kernel_prio (uint sched_policy) (sint priority)),
                   nd_accept_fds := (flags AND FLAT_BINDER_FLAG_ACCEPTS_FDS \<noteq> 0),
                   nd_inherit_rt := (flags AND FLAT_BINDER_FLAG_TXN_SECURITY_CTX \<noteq> 0),
                   nd_async_todo := []\<rparr>;
                 bk = set_node new_node node bk
             in Inr (new_node,
                  set_proc p (proc\<lparr>pr_nodes := rb_insert rb (node_key bk) new_node (pr_nodes proc)\<rparr>) bk)))))"

definition binder_new_node ::
  "rb_kernel \<Rightarrow> nat \<Rightarrow> flat_binder_object option \<Rightarrow> binder_kernel \<Rightarrow> (nat option \<times> binder_kernel) chk" where
  "binder_new_node rb p fp bk =
     (case kzalloc bk of
        (None, bk) \<Rightarrow> Inr (None, bk)
      | (Some new_node, bk) \<Rightarrow>
          bindE (binder_init_node_ilocked rb p new_node fp (set_node new_node binder_node_zero bk)) (\<lambda>(node, bk).
          if node \<noteq> new_node then Inr (Some node, bk\<lparr>bk_nodes := (bk_nodes bk)(new_node := None)\<rparr>)
          else Inr (Some node, bk)))"

section \<open>Threads of a process\<close>

text \<open>\<open>new_thread\<close> is \<open>None\<close> for the null pointer, else the address of a zeroed structure.\<close>

definition binder_get_thread_ilocked ::
  "rb_kernel \<Rightarrow> task \<Rightarrow> nat \<Rightarrow> nat option \<Rightarrow> binder_kernel \<Rightarrow> (nat option \<times> binder_kernel) chk" where
  "binder_get_thread_ilocked rb cur p new_thread bk =
     bindE (the_proc bk p) (\<lambda>proc.
     bindE (assertE UseAfterFree (list_all (\<lambda>t. bk_threads bk t \<noteq> None) (inorder (pr_threads proc)))) (\<lambda>_.
     case rb_find (thread_key bk) (cur_pid cur) (pr_threads proc) of
       Some t \<Rightarrow> Inr (Some t, bk)
     | None \<Rightarrow>
         (case new_thread of
            None \<Rightarrow> Inr (None, bk)
          | Some t \<Rightarrow>
              bindE (the_thread bk t) (\<lambda>thread.
              let bk = binder_stats_created BINDER_STAT_THREAD bk;
                  bk = set_thread t (thread\<lparr>th_proc := p, th_pid := cur_pid cur, th_task := cur_task cur,
                    th_tmp_ref := 0, th_looper_need_return := True,
                    th_return_error_type := Some BINDER_WORK_RETURN_ERROR, th_return_error_cmd := BR_OK,
                    th_reply_error_type := Some BINDER_WORK_RETURN_ERROR, th_reply_error_cmd := BR_OK\<rparr>)
                    (bk\<lparr>bk_todo := (bk_todo bk)(ThreadTodo t := [])\<rparr>)
              in Inr (Some t,
                   set_proc p (proc\<lparr>pr_threads := rb_insert rb (thread_key bk) t (pr_threads proc)\<rparr>) bk)))))"

definition binder_get_thread :: "rb_kernel \<Rightarrow> task \<Rightarrow> nat \<Rightarrow> binder_kernel \<Rightarrow> (nat option \<times> binder_kernel) chk" where
  "binder_get_thread rb cur p bk =
     bindE (binder_get_thread_ilocked rb cur p None bk) (\<lambda>(thread, bk).
     case thread of
       Some t \<Rightarrow> Inr (Some t, bk)
     | None \<Rightarrow>
         (case kzalloc bk of
            (None, bk) \<Rightarrow> Inr (None, bk)
          | (Some new_thread, bk) \<Rightarrow>
              bindE (binder_get_thread_ilocked rb cur p (Some new_thread)
                (set_thread new_thread binder_thread_zero bk)) (\<lambda>(thread, bk).
              if thread \<noteq> Some new_thread
              then Inr (thread, bk\<lparr>bk_threads := (bk_threads bk)(new_thread := None)\<rparr>)
              else Inr (thread, bk))))"

section \<open>Opening a device\<close>

text \<open>
  \<open>is_binderfs_device\<close> holds for an inode of a binderfs super block, whose \<open>i_private\<close> is
  the device; for another inode the device is the one around the \<open>miscdevice\<close> the file
  points to. On success \<open>file->private_data\<close> is the new process.
\<close>

definition binder_open ::
  "task \<Rightarrow> bool \<Rightarrow> nat option \<Rightarrow> nat option \<Rightarrow> binder_kernel \<Rightarrow> (int \<times> nat option \<times> binder_kernel) chk" where
  "binder_open cur is_binderfs_device i_private private_data bk =
     (case kzalloc bk of
        (None, bk) \<Rightarrow> Inr (- ENOMEM, private_data, bk)
      | (Some p, bk) \<Rightarrow>
          let default_priority =
                (if binder_supported_policy (cur_policy cur)
                 then \<lparr>pri_sched_policy = cur_policy cur, pri_prio = cur_normal_prio cur\<rparr>
                 else \<lparr>pri_sched_policy = 0, pri_prio = 0 + 120\<rparr>)
          in bindE (derefE NullDeref (if is_binderfs_device then i_private else private_data)) (\<lambda>binder_dev.
             bindE (the_device bk binder_dev) (\<lambda>dev.
             let bk = set_device binder_dev (dev\<lparr>dv_ref := dv_ref dev + 1\<rparr>) bk;
                 proc = \<lparr>pr_threads = Leaf, pr_nodes = Leaf, pr_pid = cur_leader_pid cur, pr_tsk = cur_leader cur,
                   pr_waiting_threads = [], pr_stats = binder_stats_zero, pr_delivered_death = [],
                   pr_max_threads = 0, pr_tmp_ref = 0, pr_default_priority = default_priority,
                   pr_alloc = binder_alloc_init (cur_leader_pid cur) binder_alloc_zero, pr_context = binder_dev\<rparr>;
                 bk = binder_stats_created BINDER_STAT_PROC bk;
                 bk = set_proc p proc (bk\<lparr>bk_todo := (bk_todo bk)(ProcTodo p := [])\<rparr>)
             in Inr (0, Some p, bk\<lparr>bk_proc_list := p # bk_proc_list bk\<rparr>))))"

end
