(* ===== verification/Binder_Ioctl.thy ===== *)
theory Binder_Ioctl
  imports Binder_Core
begin

text \<open>
  The file operations of a binder device: the write half of \<open>BINDER_WRITE_READ\<close> with the
  transactions it starts, the context manager, the other ioctls, and the mapping of the
  buffer area. A file is the address of its process. \<open>rb\<close> is the kernel's rebalancing,
  \<open>cur\<close> the calling task, \<open>um\<close> its memory.
\<close>

section \<open>Transactions\<close>

text \<open>\<open>struct binder_transaction_data\<close>, 64 bytes; the handle is the low half of the target.\<close>

record binder_transaction_data =
  tr_handle :: u32
  tr_cookie :: u64
  tr_code :: u32
  tr_flags :: u32
  tr_data_size :: u64
  tr_offsets_size :: u64
  tr_buffer :: u64
  tr_offsets :: u64

definition tr_of_bytes :: "u8 list \<Rightarrow> binder_transaction_data" where
  "tr_of_bytes bs =
     \<lparr>tr_handle = le_word (take 4 bs), tr_cookie = le_word (take 8 (drop 8 bs)),
      tr_code = le_word (take 4 (drop 16 bs)), tr_flags = le_word (take 4 (drop 20 bs)),
      tr_data_size = le_word (take 8 (drop 32 bs)), tr_offsets_size = le_word (take 8 (drop 40 bs)),
      tr_buffer = le_word (take 8 (drop 48 bs)), tr_offsets = le_word (take 8 (drop 56 bs))\<rparr>"

text \<open>The node, the process written to \<open>*p_proc\<close> and the error written to \<open>*error\<close>.\<close>

definition binder_get_node_refs_for_txn ::
  "nat \<Rightarrow> binder_kernel \<Rightarrow> (nat option \<times> nat option \<times> u32 \<times> binder_kernel) chk" where
  "binder_get_node_refs_for_txn n bk =
     bindE (the_node bk n) (\<lambda>node.
     case nd_proc node of
       Some p \<Rightarrow>
         bindE (binder_inc_node_nilocked n True False None bk) (\<lambda>(_, bk).
         bindE (binder_inc_node_tmpref_ilocked n bk) (\<lambda>bk.
         bindE (the_proc bk p) (\<lambda>proc.
         Inr (Some n, Some p, 0, set_proc p (proc\<lparr>pr_tmp_ref := pr_tmp_ref proc + 1\<rparr>) bk))))
     | None \<Rightarrow> Inr (None, None, BR_DEAD_REPLY, bk))"

definition int_u32 :: "int \<Rightarrow> u32" where "int_u32 i = word_of_int i"

text \<open>The choice of the target: only handle 0, the context manager, is handled.\<close>

definition transaction_target ::
  "nat \<Rightarrow> u32 \<Rightarrow> bool \<Rightarrow> binder_kernel \<Rightarrow> (nat option \<times> nat option \<times> u32 \<times> binder_kernel) chk" where
  "transaction_target context handle reply bk =
     (if reply then Inr (None, None, 0, bk)
      else if handle \<noteq> 0 then Inr (None, None, 0, bk)
      else
        bindE (the_device bk context) (\<lambda>dev.
        case dv_mgr_node dev of
          Some n \<Rightarrow> binder_get_node_refs_for_txn n bk
        | None \<Rightarrow> Inr (None, None, BR_DEAD_REPLY, bk)))"

definition tlog_update :: "nat \<Rightarrow> (tlog_entry \<Rightarrow> tlog_entry) \<Rightarrow> binder_kernel \<Rightarrow> binder_kernel" where
  "tlog_update e f bk =
     bk\<lparr>bk_tlog := (bk_tlog bk)\<lparr>tl_entry := (tl_entry (bk_tlog bk))[e := f (tl_entry (bk_tlog bk) ! e)]\<rparr>\<rparr>"

text \<open>The transaction structure as it is filled in.\<close>

definition transaction_record ::
  "task \<Rightarrow> u32 \<Rightarrow> u32 \<Rightarrow> nat \<Rightarrow> nat \<Rightarrow> binder_priority \<Rightarrow> binder_transaction_data \<Rightarrow> bool \<Rightarrow> binder_transaction_rec" where
  "transaction_record cur sender_euid t_debug_id thread target_proc target_priority tr reply =
     binder_transaction_zero\<lparr>tx_debug_id := t_debug_id,
       tx_from := (if \<not> reply \<and> tr_flags tr AND TF_ONE_WAY = 0 then Some thread else None),
       tx_sender_euid := sender_euid, tx_to_proc := Some target_proc, tx_to_thread := None,
       tx_code := tr_code tr, tx_flags := tr_flags tr, tx_is_nested := False,
       tx_priority := (if tr_flags tr AND TF_ONE_WAY = 0 \<and> binder_supported_policy (cur_policy cur)
         then \<lparr>pri_sched_policy = cur_policy cur, pri_prio = cur_normal_prio cur\<rparr>
         else target_priority)\<rparr>"

text \<open>
  \<open>task_euid\<close> is the kernel's. The null tests with empty bodies have no effect, so a
  missing target node, process or transaction structure is dereferenced.
\<close>

definition binder_transaction ::
  "rb_kernel \<Rightarrow> (nat \<Rightarrow> u32) \<Rightarrow> task \<Rightarrow> nat \<Rightarrow> nat \<Rightarrow> binder_transaction_data \<Rightarrow> bool \<Rightarrow>
   binder_kernel \<Rightarrow> binder_kernel chk" where
  "binder_transaction rb task_euid cur p th tr reply bk =
     bindE (the_proc bk p) (\<lambda>proc.
     bindE (the_thread bk th) (\<lambda>thread.
     let t_debug_id = bk_last_id bk + 1;
         bk = bk\<lparr>bk_last_id := t_debug_id\<rparr>;
         (e, log) = binder_transaction_log_add (bk_tlog bk);
         bk = bk\<lparr>bk_tlog := log\<rparr>
     in bindE (the_device bk (pr_context proc)) (\<lambda>dev.
     bindE (derefE NullDeref (dv_name dev)) (\<lambda>name.
     let bk = tlog_update e (\<lambda>en. en\<lparr>te_debug_id := t_debug_id,
           te_call_type := (if reply then 2 else if tr_flags tr AND TF_ONE_WAY \<noteq> 0 then 1 else 0),
           te_from_proc := int_u32 (pr_pid proc), te_from_thread := int_u32 (th_pid thread),
           te_target_handle := tr_handle tr, te_data_size := ucast (tr_data_size tr),
           te_offsets_size := ucast (tr_offsets_size tr),
           te_context_name := take (BINDERFS_MAX_NAME - 1) name\<rparr>) bk
     in bindE (transaction_target (pr_context proc) (tr_handle tr) reply bk) (\<lambda>(target_node, target_proc, return_error, bk).
     bindE (if reply then Inr bk
            else bindE (derefE NullDeref target_node) (\<lambda>n.
                 bindE (the_node bk n) (\<lambda>node.
                 Inr (tlog_update e (\<lambda>en. en\<lparr>te_to_node := nd_debug_id node\<rparr>) bk)))) (\<lambda>bk.
     bindE (derefE NullDeref target_proc) (\<lambda>tp.
     bindE (the_proc bk tp) (\<lambda>target.
     let bk = tlog_update e (\<lambda>en. en\<lparr>te_to_proc := int_u32 (pr_pid target)\<rparr>) bk;
         (t, bk) = kzalloc bk
     in bindE (derefE NullDeref t) (\<lambda>t.
     let bk = binder_stats_created BINDER_STAT_TRANSACTION bk;
         (tcomplete, bk) = kzalloc bk;
         bk = (case tcomplete of Some c \<Rightarrow> bk\<lparr>bk_completes := c # bk_completes bk\<rparr> | None \<Rightarrow> bk);
         bk = binder_stats_created BINDER_STAT_TRANSACTION_COMPLETE bk;
         bk = bk\<lparr>bk_transactions := (bk_transactions bk)(t \<mapsto>
               transaction_record cur (task_euid (pr_tsk proc)) t_debug_id th tp (pr_default_priority target) tr reply)\<rparr>
     in bindE (case target_node of Some n \<Rightarrow> binder_dec_node_tmpref rb n bk | None \<Rightarrow> Inr bk) (\<lambda>bk.
     Inr (tlog_update e (\<lambda>en. en\<lparr>te_debug_id_done := t_debug_id\<rparr>) bk)))))))))))"

section \<open>Commands written by user space\<close>

abbreviation (input) "IOC_NR (cmd :: u32) \<equiv> unat (cmd AND 0xff)"

definition thread_write_count :: "nat \<Rightarrow> nat \<Rightarrow> u32 \<Rightarrow> binder_kernel \<Rightarrow> binder_kernel chk" where
  "thread_write_count p th cmd bk =
     (if IOC_NR cmd < 19 then
        bindE (the_proc bk p) (\<lambda>proc.
        bindE (the_thread bk th) (\<lambda>thread.
        Inr (set_thread th (thread\<lparr>th_stats := stats_bc_inc (IOC_NR cmd) (th_stats thread)\<rparr>)
              (set_proc p (proc\<lparr>pr_stats := stats_bc_inc (IOC_NR cmd) (pr_stats proc)\<rparr>)
              (bk\<lparr>bk_stats := stats_bc_inc (IOC_NR cmd) (bk_stats bk)\<rparr>)))))
      else Inr bk)"

text \<open>
  The loop of \<open>binder_thread_write\<close>. Pointers are 64-bit words; each command moves \<open>ptr\<close>
  by at least four bytes. The fuel of \<open>binder_thread_write\<close> is enough when no readable
  byte lies at the top of the address space, where \<open>ptr\<close> could wrap.
\<close>

fun thread_write_loop ::
  "nat \<Rightarrow> rb_kernel \<Rightarrow> (nat \<Rightarrow> u32) \<Rightarrow> task \<Rightarrow> user_mem \<Rightarrow> nat \<Rightarrow> nat \<Rightarrow> u64 \<Rightarrow> u64 \<Rightarrow>
   binder_kernel \<Rightarrow> (int \<times> binder_kernel) chk" where
  "thread_write_loop 0 rb task_euid cur um p th ptr end_ptr bk = Inl OutOfFuel"
| "thread_write_loop (Suc fuel) rb task_euid cur um p th ptr end_ptr bk =
     bindE (the_thread bk th) (\<lambda>thread.
     if ptr < end_ptr \<and> th_return_error_cmd thread = BR_OK then
       (case get_user32 um ptr of
          None \<Rightarrow> Inr (- EFAULT, bk)
        | Some cmd \<Rightarrow>
            let ptr = ptr + 4 in
            bindE (thread_write_count p th cmd bk) (\<lambda>bk.
            if cmd = BC_TRANSACTION \<or> cmd = BC_REPLY then
              (case copy_from_user um ptr 64 of
                 None \<Rightarrow> Inr (- EFAULT, bk)
               | Some bs \<Rightarrow>
                   bindE (binder_transaction rb task_euid cur p th (tr_of_bytes bs) (cmd = BC_REPLY) bk) (\<lambda>bk.
                   thread_write_loop fuel rb task_euid cur um p th (ptr + 64) end_ptr bk))
            else thread_write_loop fuel rb task_euid cur um p th ptr end_ptr bk))
     else Inr (0, bk))"

definition binder_thread_write ::
  "rb_kernel \<Rightarrow> (nat \<Rightarrow> u32) \<Rightarrow> task \<Rightarrow> user_mem \<Rightarrow> nat \<Rightarrow> nat \<Rightarrow> u64 \<Rightarrow> u64 \<Rightarrow> u64 \<Rightarrow>
   binder_kernel \<Rightarrow> (int \<times> binder_kernel) chk" where
  "binder_thread_write rb task_euid cur um p th buffer size_arg consumed bk =
     (let ptr = buffer + consumed; end_ptr = buffer + size_arg
      in bindE (the_proc bk p) (\<lambda>_.
         thread_write_loop (unat (end_ptr - ptr) + 1) rb task_euid cur um p th ptr end_ptr bk))"

text \<open>\<open>struct binder_write_read\<close>: six 64-bit fields.\<close>

record binder_write_read =
  bwr_write_size :: u64
  bwr_write_consumed :: u64
  bwr_write_buffer :: u64
  bwr_read_size :: u64
  bwr_read_consumed :: u64
  bwr_read_buffer :: u64

definition bwr_of_bytes :: "u8 list \<Rightarrow> binder_write_read" where
  "bwr_of_bytes bs =
     \<lparr>bwr_write_size = le_word (take 8 bs), bwr_write_consumed = le_word (take 8 (drop 8 bs)),
      bwr_write_buffer = le_word (take 8 (drop 16 bs)), bwr_read_size = le_word (take 8 (drop 24 bs)),
      bwr_read_consumed = le_word (take 8 (drop 32 bs)), bwr_read_buffer = le_word (take 8 (drop 40 bs))\<rparr>"

definition bwr_bytes :: "binder_write_read \<Rightarrow> u8 list" where
  "bwr_bytes bwr =
     le_bytes 8 (bwr_write_size bwr) @ le_bytes 8 (bwr_write_consumed bwr) @ le_bytes 8 (bwr_write_buffer bwr) @
     le_bytes 8 (bwr_read_size bwr) @ le_bytes 8 (bwr_read_consumed bwr) @ le_bytes 8 (bwr_read_buffer bwr)"

abbreviation (input) "IOC_SIZE (cmd :: u32) \<equiv> unat (drop_bit 16 cmd AND 0x3fff)"

definition binder_ioctl_write_read ::
  "rb_kernel \<Rightarrow> (nat \<Rightarrow> u32) \<Rightarrow> task \<Rightarrow> nat \<Rightarrow> u32 \<Rightarrow> u64 \<Rightarrow> nat \<Rightarrow> user_mem \<Rightarrow> binder_kernel \<Rightarrow>
   (int \<times> user_mem \<times> binder_kernel) chk" where
  "binder_ioctl_write_read rb task_euid cur p cmd arg th um bk =
     (if IOC_SIZE cmd \<noteq> 48 then Inr (- EINVAL, um, bk)
      else case copy_from_user um arg 48 of
        None \<Rightarrow> Inr (- EFAULT, um, bk)
      | Some bs \<Rightarrow>
          let bwr = bwr_of_bytes bs in
          bindE (if 0 < bwr_write_size bwr
                 then binder_thread_write rb task_euid cur um p th (bwr_write_buffer bwr)
                        (bwr_write_size bwr) (bwr_write_consumed bwr) bk
                 else Inr (0, bk)) (\<lambda>(ret, bk).
          if ret < 0 then
            (let bwr = bwr\<lparr>bwr_read_consumed := 0\<rparr>;
                 (um, ok) = copy_to_user um arg (bwr_bytes bwr)
             in Inr (if ok then ret else - EFAULT, um, bk))
          else
            (let (um, ok) = copy_to_user um arg (bwr_bytes bwr)
             in Inr (if ok then ret else - EFAULT, um, bk))))"

section \<open>Context manager\<close>

definition binder_ioctl_set_ctx_mgr ::
  "rb_kernel \<Rightarrow> task \<Rightarrow> nat \<Rightarrow> flat_binder_object option \<Rightarrow> binder_kernel \<Rightarrow> (int \<times> binder_kernel) chk" where
  "binder_ioctl_set_ctx_mgr rb cur p fbo bk =
     bindE (the_proc bk p) (\<lambda>proc.
     let d = pr_context proc in
     bindE (the_device bk d) (\<lambda>context.
     if dv_mgr_node context \<noteq> None then Inr (- EBUSY, bk)
     else if uid_valid (dv_mgr_uid context) \<and> dv_mgr_uid context \<noteq> cur_euid cur then Inr (- EPERM, bk)
     else
       let context = (if uid_valid (dv_mgr_uid context) then context
                      else context\<lparr>dv_mgr_uid := cur_euid cur\<rparr>);
           bk = set_device d context bk
       in bindE (binder_new_node rb p fbo bk) (\<lambda>(new_node, bk).
          case new_node of
            None \<Rightarrow> Inr (- EPERM, bk)
          | Some n \<Rightarrow>
              bindE (the_node bk n) (\<lambda>node.
              let bk = set_node n (node\<lparr>nd_local_weak_refs := nd_local_weak_refs node + 1,
                    nd_local_strong_refs := nd_local_strong_refs node + 1,
                    nd_has_weak_ref := True, nd_has_strong_ref := True\<rparr>) bk;
                  bk = set_device d (context\<lparr>dv_mgr_node := Some n\<rparr>) bk
              in bindE (binder_put_node rb n bk) (\<lambda>bk. Inr (0, bk))))))"

section \<open>The ioctl\<close>

abbreviation (input) BINDER_WRITE_READ :: u32 where "BINDER_WRITE_READ \<equiv> 0xC0306201"
abbreviation (input) BINDER_SET_IDLE_TIMEOUT :: u32 where "BINDER_SET_IDLE_TIMEOUT \<equiv> 0x40086203"
abbreviation (input) BINDER_SET_MAX_THREADS :: u32 where "BINDER_SET_MAX_THREADS \<equiv> 0x40046205"
abbreviation (input) BINDER_SET_IDLE_PRIORITY :: u32 where "BINDER_SET_IDLE_PRIORITY \<equiv> 0x40046206"
abbreviation (input) BINDER_SET_CONTEXT_MGR :: u32 where "BINDER_SET_CONTEXT_MGR \<equiv> 0x40046207"
abbreviation (input) BINDER_THREAD_EXIT :: u32 where "BINDER_THREAD_EXIT \<equiv> 0x40046208"
abbreviation (input) BINDER_VERSION :: u32 where "BINDER_VERSION \<equiv> 0xC0046209"
abbreviation (input) BINDER_GET_NODE_DEBUG_INFO :: u32 where "BINDER_GET_NODE_DEBUG_INFO \<equiv> 0xC018620B"
abbreviation (input) BINDER_GET_NODE_INFO_FOR_REF :: u32 where "BINDER_GET_NODE_INFO_FOR_REF \<equiv> 0xC018620C"
abbreviation (input) BINDER_SET_CONTEXT_MGR_EXT :: u32 where "BINDER_SET_CONTEXT_MGR_EXT \<equiv> 0x4018620D"

definition getIoctlCommandName :: "u32 \<Rightarrow> string" where
  "getIoctlCommandName cmd =
     (if cmd = BINDER_WRITE_READ then ''BINDER_WRITE_READ''
      else if cmd = BINDER_SET_IDLE_TIMEOUT then ''BINDER_SET_IDLE_TIMEOUT''
      else if cmd = BINDER_SET_MAX_THREADS then ''BINDER_SET_MAX_THREADS''
      else if cmd = BINDER_SET_IDLE_PRIORITY then ''BINDER_SET_IDLE_PRIORITY''
      else if cmd = BINDER_SET_CONTEXT_MGR then ''BINDER_SET_CONTEXT_MGR''
      else if cmd = BINDER_THREAD_EXIT then ''BINDER_THREAD_EXIT''
      else if cmd = BINDER_VERSION then ''BINDER_VERSION''
      else if cmd = BINDER_GET_NODE_DEBUG_INFO then ''BINDER_GET_NODE_DEBUG_INFO''
      else if cmd = BINDER_GET_NODE_INFO_FOR_REF then ''BINDER_GET_NODE_INFO_FOR_REF''
      else if cmd = BINDER_SET_CONTEXT_MGR_EXT then ''BINDER_SET_CONTEXT_MGR_EXT''
      else ''undefined'')"

definition fbo_of_bytes :: "u8 list \<Rightarrow> flat_binder_object" where
  "fbo_of_bytes bs =
     \<lparr>fbo_type = le_word (take 4 bs), fbo_flags = le_word (take 4 (drop 4 bs)),
      fbo_binder = le_word (take 8 (drop 8 bs)), fbo_cookie = le_word (take 8 (drop 16 bs))\<rparr>"

text \<open>
  While \<open>binder_stop_on_user_error\<close> is 2 or more the caller sleeps until a signal ends
  the wait with \<open>-ERESTARTSYS\<close>.
\<close>

definition wait_user_error :: "binder_kernel \<Rightarrow> int" where
  "wait_user_error bk = (if bk_stop_on_user_error bk < 2 then 0 else - 512)"

text \<open>The cases of the switch, for the thread that was found.\<close>

definition binder_ioctl_switch ::
  "rb_kernel \<Rightarrow> (nat \<Rightarrow> u32) \<Rightarrow> task \<Rightarrow> nat \<Rightarrow> u32 \<Rightarrow> u64 \<Rightarrow> nat \<Rightarrow> user_mem \<Rightarrow> binder_kernel \<Rightarrow>
   (int \<times> user_mem \<times> binder_kernel) chk" where
  "binder_ioctl_switch rb task_euid cur p cmd arg th um bk =
     (if cmd = BINDER_WRITE_READ then binder_ioctl_write_read rb task_euid cur p cmd arg th um bk
      else if cmd = BINDER_SET_MAX_THREADS then
        (case get_user32 um arg of
           None \<Rightarrow> Inr (- EINVAL, um, bk)
         | Some max_threads \<Rightarrow>
             bindE (the_proc bk p) (\<lambda>proc. Inr (0, um, set_proc p (proc\<lparr>pr_max_threads := max_threads\<rparr>) bk)))
      else if cmd = BINDER_SET_CONTEXT_MGR_EXT then
        (case copy_from_user um arg 24 of
           None \<Rightarrow> Inr (- EINVAL, um, bk)
         | Some bs \<Rightarrow>
             bindE (binder_ioctl_set_ctx_mgr rb cur p (Some (fbo_of_bytes bs)) bk) (\<lambda>(ret, bk). Inr (ret, um, bk)))
      else if cmd = BINDER_SET_CONTEXT_MGR then
        bindE (binder_ioctl_set_ctx_mgr rb cur p None bk) (\<lambda>(ret, bk). Inr (ret, um, bk))
      else if cmd = BINDER_VERSION then
        (if IOC_SIZE cmd \<noteq> 4 then Inr (- EINVAL, um, bk)
         else let (um, ok) = put_user32 um arg 8 in Inr (if ok then 0 else - EINVAL, um, bk))
      else Inr (- EINVAL, um, bk))"

definition binder_ioctl ::
  "rb_kernel \<Rightarrow> (nat \<Rightarrow> u32) \<Rightarrow> task \<Rightarrow> nat \<Rightarrow> u32 \<Rightarrow> u64 \<Rightarrow> user_mem \<Rightarrow> binder_kernel \<Rightarrow>
   (int \<times> user_mem \<times> binder_kernel) chk" where
  "binder_ioctl rb task_euid cur p cmd arg um bk =
     bindE (the_proc bk p) (\<lambda>_.
     let ret = wait_user_error bk in
     if ret \<noteq> 0 then Inr (ret, um, bk)
     else
       bindE (binder_get_thread rb cur p bk) (\<lambda>(thread, bk).
       case thread of
         None \<Rightarrow> Inr (- ENOMEM, um, bk)
       | Some t \<Rightarrow>
           bindE (binder_ioctl_switch rb task_euid cur p cmd arg t um bk) (\<lambda>(ret, um, bk).
           bindE (the_thread bk t) (\<lambda>th.
           Inr (ret, um, set_thread t (th\<lparr>th_looper_need_return := False\<rparr>) bk)))))"

section \<open>Mapping\<close>

abbreviation (input) VM_WRITE :: u64 where "VM_WRITE \<equiv> 0x2"
abbreviation (input) VM_MAYWRITE :: u64 where "VM_MAYWRITE \<equiv> 0x20"
abbreviation (input) VM_DONTCOPY :: u64 where "VM_DONTCOPY \<equiv> 0x20000"
abbreviation (input) VM_MIXEDMAP :: u64 where "VM_MIXEDMAP \<equiv> 0x10000000"
abbreviation (input) VM_FAULT_SIGBUS :: u32 where "VM_FAULT_SIGBUS \<equiv> 0x2"

definition binder_vma_close :: "nat \<Rightarrow> binder_kernel \<Rightarrow> binder_kernel chk" where
  "binder_vma_close p bk =
     bindE (the_proc bk p) (\<lambda>proc.
     Inr (set_proc p (proc\<lparr>pr_alloc := binder_alloc_vma_close (pr_alloc proc)\<rparr>) bk))"

definition binder_vma_open :: "nat \<Rightarrow> binder_kernel \<Rightarrow> binder_kernel chk" where
  "binder_vma_open p bk = bindE (the_proc bk p) (\<lambda>_. Inr bk)"

definition binder_vm_fault :: "u32" where
  "binder_vm_fault = VM_FAULT_SIGBUS"

text \<open>
  \<open>kcalloc\<close> is whether the page array can be allocated. The area is returned as changed,
  with the process its operations are attached to.
\<close>

definition binder_mmap ::
  "rb_kernel \<Rightarrow> bool \<Rightarrow> task \<Rightarrow> nat \<Rightarrow> vm_area \<Rightarrow> binder_kernel \<Rightarrow>
   (int \<times> vm_area \<times> nat option \<times> binder_kernel) chk" where
  "binder_mmap rb kcalloc cur p vma bk =
     bindE (the_proc bk p) (\<lambda>proc.
     if pr_tsk proc \<noteq> cur_leader cur then Inr (- EINVAL, vma, None, bk)
     else if vm_flags vma AND VM_WRITE \<noteq> 0 then Inr (- EPERM, vma, None, bk)
     else
       let vma = vma\<lparr>vm_flags := vm_flags vma OR (VM_DONTCOPY OR VM_MIXEDMAP)\<rparr>;
           vma = vma\<lparr>vm_flags := vm_flags vma AND NOT VM_MAYWRITE\<rparr>;
           needs_buffer = (kcalloc \<and> al_buffer_size (pr_alloc proc) = 0);
           (b, bk) = (if needs_buffer then kzalloc bk else (None, bk))
       in bindE (binder_alloc_mmap_handler rb kcalloc b (pr_alloc proc) vma (bk_heap bk)) (\<lambda>(ret, alloc, heap).
          Inr (ret, vma, Some p, set_proc p (proc\<lparr>pr_alloc := alloc\<rparr>) (bk\<lparr>bk_heap := heap\<rparr>))))"

end
