(* ===== verification/Binder_Inv.thy ===== *)
theory Binder_Inv
  imports Binder_Ioctl Binder_Alloc_Props
begin

text \<open>
  The invariant of the binder module. It is stated on the core of the state, the parts that
  safety depends on: who owns which thread and node, the keys of the trees, the reference
  counts, the managers of the devices, the work lists and the buffer areas. An update that
  does not touch the core preserves the invariant because the core is the same; the few
  operations that do are treated one by one.
\<close>

section \<open>The core of the state\<close>

record proc_core =
  pc_threads :: "nat list"
  pc_nodes :: "nat list"
  pc_waiting :: "nat list"
  pc_context :: nat
  pc_alloc :: binder_alloc

record thread_core =
  tc_proc :: nat
  tc_pid :: int
  tc_stack :: "nat option"
  tc_error :: u32

record node_core =
  nc_proc :: "nat option"
  nc_ptr :: u64
  nc_tmp_refs :: u32
  nc_weak_refs :: u32
  nc_refs :: "nat list"
  nc_flags :: "bool \<times> bool"

record core =
  c_procs :: "nat \<Rightarrow> proc_core option"
  c_threads :: "nat \<Rightarrow> thread_core option"
  c_nodes :: "nat \<Rightarrow> node_core option"
  c_mgrs :: "nat \<Rightarrow> nat option option"
  c_todo :: "work_list \<Rightarrow> binder_work list"
  c_on :: "binder_work \<Rightarrow> work_list option"
  c_heap :: alloc_heap
  c_next :: nat
  c_log :: nat

definition proc_core :: "binder_proc \<Rightarrow> proc_core" where
  "proc_core pr = \<lparr>pc_threads = inorder (pr_threads pr), pc_nodes = inorder (pr_nodes pr),
     pc_waiting = pr_waiting_threads pr, pc_context = pr_context pr, pc_alloc = pr_alloc pr\<rparr>"

definition thread_core :: "binder_thread \<Rightarrow> thread_core" where
  "thread_core th = \<lparr>tc_proc = th_proc th, tc_pid = th_pid th, tc_stack = th_transaction_stack th,
     tc_error = th_return_error_cmd th\<rparr>"

definition node_core :: "binder_node \<Rightarrow> node_core" where
  "node_core nd = \<lparr>nc_proc = nd_proc nd, nc_ptr = nd_ptr nd, nc_tmp_refs = nd_tmp_refs nd,
     nc_weak_refs = nd_local_weak_refs nd, nc_refs = nd_refs nd,
     nc_flags = (nd_has_strong_ref nd, nd_has_weak_ref nd)\<rparr>"

definition core :: "binder_kernel \<Rightarrow> core" where
  "core bk = \<lparr>c_procs = map_option proc_core \<circ> bk_procs bk, c_threads = map_option thread_core \<circ> bk_threads bk,
     c_nodes = map_option node_core \<circ> bk_nodes bk, c_mgrs = map_option dv_mgr_node \<circ> bk_devices bk,
     c_todo = bk_todo bk, c_on = bk_on bk, c_heap = bk_heap bk, c_next = bk_next bk,
     c_log = length (tl_entry (bk_tlog bk))\<rparr>"

text \<open>Projections of the core, total so that updates simplify.\<close>

definition thread_owner :: "core \<Rightarrow> nat \<Rightarrow> nat option" where
  "thread_owner c t = map_option tc_proc (c_threads c t)"

definition node_owner :: "core \<Rightarrow> nat \<Rightarrow> nat option" where
  "node_owner c n = Option.bind (c_nodes c n) nc_proc"

definition threads_of :: "core \<Rightarrow> nat \<Rightarrow> nat set" where
  "threads_of c p = (case c_procs c p of Some pc \<Rightarrow> set (pc_threads pc) | None \<Rightarrow> {})"

definition nodes_of :: "core \<Rightarrow> nat \<Rightarrow> nat set" where
  "nodes_of c p = (case c_procs c p of Some pc \<Rightarrow> set (pc_nodes pc) | None \<Rightarrow> {})"

definition context_of :: "core \<Rightarrow> nat \<Rightarrow> nat option" where
  "context_of c p = map_option pc_context (c_procs c p)"

definition tid :: "core \<Rightarrow> nat \<Rightarrow> int" where
  "tid c t = (case c_threads c t of Some tc \<Rightarrow> tc_pid tc | None \<Rightarrow> 0)"

definition nptr :: "core \<Rightarrow> nat \<Rightarrow> u64" where
  "nptr c n = (case c_nodes c n of Some nc \<Rightarrow> nc_ptr nc | None \<Rightarrow> 0)"

lemmas core_projs = thread_owner_def node_owner_def threads_of_def nodes_of_def context_of_def tid_def nptr_def

section \<open>The invariant\<close>

definition proc_ok :: "core \<Rightarrow> nat \<Rightarrow> proc_core \<Rightarrow> bool" where
  "proc_ok c p pc \<longleftrightarrow>
     (\<forall>t \<in> set (pc_threads pc). thread_owner c t = Some p) \<and> key_sorted (tid c) (pc_threads pc) \<and>
     (\<forall>n \<in> set (pc_nodes pc). node_owner c n = Some p) \<and> key_sorted (nptr c) (pc_nodes pc) \<and>
     pc_waiting pc = [] \<and> c_mgrs c (pc_context pc) \<noteq> None \<and>
     (alloc_unmapped (pc_alloc pc) \<or> alloc_mapped (ah_bufs (c_heap c)) (pc_alloc pc))"

definition thread_ok :: "core \<Rightarrow> nat \<Rightarrow> thread_core \<Rightarrow> bool" where
  "thread_ok c t tc \<longleftrightarrow> tc_stack tc = None \<and> tc_error tc = BR_OK \<and> t \<in> threads_of c (tc_proc tc)"

text \<open>A node is in the tree of its process and manages the process's device.\<close>

definition node_ok :: "core \<Rightarrow> nat \<Rightarrow> node_core \<Rightarrow> bool" where
  "node_ok c n nc \<longleftrightarrow>
     nc_tmp_refs nc = 0 \<and> nc_weak_refs nc = 1 \<and> nc_refs nc = [] \<and> nc_flags nc = (True, True) \<and>
     (\<exists>p. nc_proc nc = Some p \<and> n \<in> nodes_of c p \<and> Option.bind (context_of c p) (c_mgrs c) = Some (Some n))"

definition mgr_ok :: "core \<Rightarrow> nat \<Rightarrow> nat \<Rightarrow> bool" where
  "mgr_ok c d n \<longleftrightarrow> (\<exists>p. node_owner c n = Some p \<and> context_of c p = Some d)"

definition fresh_from :: "core \<Rightarrow> nat \<Rightarrow> bool" where
  "fresh_from c k \<longleftrightarrow>
     (\<forall>a \<ge> k. c_procs c a = None \<and> c_threads c a = None \<and> c_nodes c a = None \<and> c_mgrs c a = None \<and>
        ah_bufs (c_heap c) a = None)"

definition core_inv :: "core \<Rightarrow> bool" where
  "core_inv c \<longleftrightarrow>
     (\<forall>p pc. c_procs c p = Some pc \<longrightarrow> proc_ok c p pc) \<and>
     (\<forall>t tc. c_threads c t = Some tc \<longrightarrow> thread_ok c t tc) \<and>
     (\<forall>n nc. c_nodes c n = Some nc \<longrightarrow> node_ok c n nc) \<and>
     (\<forall>d n. c_mgrs c d = Some (Some n) \<longrightarrow> mgr_ok c d n) \<and>
     (\<forall>l. c_todo c l = []) \<and> (\<forall>w. c_on c w = None) \<and> fresh_from c (c_next c) \<and>
     c_log c = TLOG_SIZE \<and> \<not> ah_mmap_lock (c_heap c)"

definition binder_inv :: "binder_kernel \<Rightarrow> bool" where
  "binder_inv bk \<longleftrightarrow> core_inv (core bk)"

lemma core_invD:
  assumes "core_inv c"
  shows "c_procs c p = Some pc \<Longrightarrow> proc_ok c p pc"
    and "c_threads c t = Some tc \<Longrightarrow> thread_ok c t tc"
    and "c_nodes c n = Some nc \<Longrightarrow> node_ok c n nc"
    and "c_mgrs c d = Some (Some n) \<Longrightarrow> mgr_ok c d n"
    and "c_todo c l = []" and "c_on c w = None" and "fresh_from c (c_next c)" and "c_log c = TLOG_SIZE"
    and "\<not> ah_mmap_lock (c_heap c)"
  using assms by (simp_all add: core_inv_def)

section \<open>Updates outside the core\<close>

lemma core_more:
  "core (bk\<lparr>bk_last_id := i\<rparr>) = core bk"
  "core (bk\<lparr>bk_stats := st\<rparr>) = core bk"
  "core (bk\<lparr>bk_completes := cs\<rparr>) = core bk"
  "core (bk\<lparr>bk_transactions := ts\<rparr>) = core bk"
  "core (bk\<lparr>bk_proc_list := ps\<rparr>) = core bk"
  "core (bk\<lparr>bk_kzalloc := oks\<rparr>) = core bk"
  "core (bk\<lparr>bk_wakeups := ws\<rparr>) = core bk"
  by (simp_all add: core_def)

lemma core_stats [simp]:
  "core (binder_stats_created ty bk) = core bk"
  "core (binder_stats_deleted ty bk) = core bk"
  by (simp_all add: binder_stats_created_def binder_stats_deleted_def Let_def core_more)

lemma core_tlog [simp]:
  "core (tlog_update e f bk) = core bk"
  "binder_transaction_log_add (bk_tlog bk) = (e, log) \<Longrightarrow> core (bk\<lparr>bk_tlog := log\<rparr>) = core bk"
  by (auto simp: tlog_update_def binder_transaction_log_add_def Let_def core_def)

lemma core_set_proc:
  "bk_procs bk p = Some pr \<Longrightarrow> proc_core pr' = proc_core pr \<Longrightarrow> core (set_proc p pr' bk) = core bk"
  by (auto simp: core_def set_proc_def)

lemma core_set_thread:
  "bk_threads bk t = Some th \<Longrightarrow> thread_core th' = thread_core th \<Longrightarrow> core (set_thread t th' bk) = core bk"
  by (auto simp: core_def set_thread_def)

lemma core_set_node:
  "bk_nodes bk n = Some nd \<Longrightarrow> node_core nd' = node_core nd \<Longrightarrow> core (set_node n nd' bk) = core bk"
  by (auto simp: core_def set_node_def)

lemma core_set_device:
  "bk_devices bk d = Some dv \<Longrightarrow> dv_mgr_node dv' = dv_mgr_node dv \<Longrightarrow> core (set_device d dv' bk) = core bk"
  by (auto simp: core_def set_device_def)

lemma thread_key_core: "thread_key bk = tid (core bk)"
  by (rule ext) (simp add: thread_key_def tid_def core_def thread_core_def split: option.split)

lemma node_key_core: "node_key bk = nptr (core bk)"
  by (rule ext) (simp add: node_key_def nptr_def core_def node_core_def split: option.split)

lemma binder_inv_core: "core bk' = core bk \<Longrightarrow> binder_inv bk \<Longrightarrow> binder_inv bk'"
  by (simp add: binder_inv_def)

lemma core_projs_next [simp]:
  "thread_owner (c\<lparr>c_next := k\<rparr>) = thread_owner c" "node_owner (c\<lparr>c_next := k\<rparr>) = node_owner c"
  "threads_of (c\<lparr>c_next := k\<rparr>) = threads_of c" "nodes_of (c\<lparr>c_next := k\<rparr>) = nodes_of c"
  "context_of (c\<lparr>c_next := k\<rparr>) = context_of c" "tid (c\<lparr>c_next := k\<rparr>) = tid c" "nptr (c\<lparr>c_next := k\<rparr>) = nptr c"
  by (simp_all add: fun_eq_iff core_projs)

lemma core_inv_next: "core_inv c \<Longrightarrow> c_next c \<le> k \<Longrightarrow> core_inv (c\<lparr>c_next := k\<rparr>)"
  by (auto simp: core_inv_def fresh_from_def proc_ok_def thread_ok_def node_ok_def mgr_ok_def)

lemma kzalloc_core:
  assumes "kzalloc bk = (r, bk')"
  shows "core bk' = core bk\<lparr>c_next := bk_next bk'\<rparr>" and "bk_next bk \<le> bk_next bk'"
    and "r = Some a \<Longrightarrow> a = bk_next bk \<and> bk_next bk' = Suc (bk_next bk)"
  using assms by (auto simp: kzalloc_def core_def split: list.splits bool.splits)

lemma kzalloc_inv: "kzalloc bk = (r, bk') \<Longrightarrow> binder_inv bk \<Longrightarrow> binder_inv bk'"
  using kzalloc_core [of bk r bk'] core_inv_next [of "core bk" "bk_next bk'"]
  by (simp add: binder_inv_def) (simp add: core_def)

text \<open>What the updates leave alone.\<close>

lemma set_simps [simp]:
  "bk_procs (set_proc p pr bk) = (bk_procs bk)(p \<mapsto> pr)"
  "bk_threads (set_proc p pr bk) = bk_threads bk"
  "bk_nodes (set_proc p pr bk) = bk_nodes bk"
  "bk_devices (set_proc p pr bk) = bk_devices bk"
  "bk_todo (set_proc p pr bk) = bk_todo bk"
  "bk_on (set_proc p pr bk) = bk_on bk"
  "bk_heap (set_proc p pr bk) = bk_heap bk"
  "bk_tlog (set_proc p pr bk) = bk_tlog bk"
  "bk_next (set_proc p pr bk) = bk_next bk"
  "bk_last_id (set_proc p pr bk) = bk_last_id bk"
  "bk_kzalloc (set_proc p pr bk) = bk_kzalloc bk"
  "bk_stats (set_proc p pr bk) = bk_stats bk"
  "bk_transactions (set_proc p pr bk) = bk_transactions bk"
  "bk_proc_list (set_proc p pr bk) = bk_proc_list bk"
  "bk_completes (set_proc p pr bk) = bk_completes bk"
  "bk_stop_on_user_error (set_proc p pr bk) = bk_stop_on_user_error bk"
  "bk_wakeups (set_proc p pr bk) = bk_wakeups bk"
  "bk_procs (set_thread t th bk) = bk_procs bk"
  "bk_threads (set_thread t th bk) = (bk_threads bk)(t \<mapsto> th)"
  "bk_nodes (set_thread t th bk) = bk_nodes bk"
  "bk_devices (set_thread t th bk) = bk_devices bk"
  "bk_todo (set_thread t th bk) = bk_todo bk"
  "bk_on (set_thread t th bk) = bk_on bk"
  "bk_heap (set_thread t th bk) = bk_heap bk"
  "bk_tlog (set_thread t th bk) = bk_tlog bk"
  "bk_next (set_thread t th bk) = bk_next bk"
  "bk_last_id (set_thread t th bk) = bk_last_id bk"
  "bk_kzalloc (set_thread t th bk) = bk_kzalloc bk"
  "bk_stats (set_thread t th bk) = bk_stats bk"
  "bk_transactions (set_thread t th bk) = bk_transactions bk"
  "bk_proc_list (set_thread t th bk) = bk_proc_list bk"
  "bk_completes (set_thread t th bk) = bk_completes bk"
  "bk_stop_on_user_error (set_thread t th bk) = bk_stop_on_user_error bk"
  "bk_wakeups (set_thread t th bk) = bk_wakeups bk"
  "bk_procs (set_node n nd bk) = bk_procs bk"
  "bk_threads (set_node n nd bk) = bk_threads bk"
  "bk_nodes (set_node n nd bk) = (bk_nodes bk)(n \<mapsto> nd)"
  "bk_devices (set_node n nd bk) = bk_devices bk"
  "bk_todo (set_node n nd bk) = bk_todo bk"
  "bk_on (set_node n nd bk) = bk_on bk"
  "bk_heap (set_node n nd bk) = bk_heap bk"
  "bk_tlog (set_node n nd bk) = bk_tlog bk"
  "bk_next (set_node n nd bk) = bk_next bk"
  "bk_last_id (set_node n nd bk) = bk_last_id bk"
  "bk_kzalloc (set_node n nd bk) = bk_kzalloc bk"
  "bk_stats (set_node n nd bk) = bk_stats bk"
  "bk_transactions (set_node n nd bk) = bk_transactions bk"
  "bk_proc_list (set_node n nd bk) = bk_proc_list bk"
  "bk_completes (set_node n nd bk) = bk_completes bk"
  "bk_stop_on_user_error (set_node n nd bk) = bk_stop_on_user_error bk"
  "bk_wakeups (set_node n nd bk) = bk_wakeups bk"
  "bk_procs (set_device d dv bk) = bk_procs bk"
  "bk_threads (set_device d dv bk) = bk_threads bk"
  "bk_nodes (set_device d dv bk) = bk_nodes bk"
  "bk_devices (set_device d dv bk) = (bk_devices bk)(d \<mapsto> dv)"
  "bk_todo (set_device d dv bk) = bk_todo bk"
  "bk_on (set_device d dv bk) = bk_on bk"
  "bk_heap (set_device d dv bk) = bk_heap bk"
  "bk_tlog (set_device d dv bk) = bk_tlog bk"
  "bk_next (set_device d dv bk) = bk_next bk"
  "bk_last_id (set_device d dv bk) = bk_last_id bk"
  "bk_kzalloc (set_device d dv bk) = bk_kzalloc bk"
  "bk_stats (set_device d dv bk) = bk_stats bk"
  "bk_transactions (set_device d dv bk) = bk_transactions bk"
  "bk_proc_list (set_device d dv bk) = bk_proc_list bk"
  "bk_completes (set_device d dv bk) = bk_completes bk"
  "bk_stop_on_user_error (set_device d dv bk) = bk_stop_on_user_error bk"
  "bk_wakeups (set_device d dv bk) = bk_wakeups bk"
  by (simp_all add: set_proc_def set_thread_def set_node_def set_device_def)

lemma stats_simps [simp]:
  "bk_procs (binder_stats_created ty bk) = bk_procs bk"
  "bk_threads (binder_stats_created ty bk) = bk_threads bk"
  "bk_nodes (binder_stats_created ty bk) = bk_nodes bk"
  "bk_devices (binder_stats_created ty bk) = bk_devices bk"
  "bk_todo (binder_stats_created ty bk) = bk_todo bk"
  "bk_on (binder_stats_created ty bk) = bk_on bk"
  "bk_heap (binder_stats_created ty bk) = bk_heap bk"
  "bk_tlog (binder_stats_created ty bk) = bk_tlog bk"
  "bk_next (binder_stats_created ty bk) = bk_next bk"
  "bk_last_id (binder_stats_created ty bk) = bk_last_id bk"
  "bk_kzalloc (binder_stats_created ty bk) = bk_kzalloc bk"
  "bk_transactions (binder_stats_created ty bk) = bk_transactions bk"
  "bk_proc_list (binder_stats_created ty bk) = bk_proc_list bk"
  "bk_completes (binder_stats_created ty bk) = bk_completes bk"
  "bk_stop_on_user_error (binder_stats_created ty bk) = bk_stop_on_user_error bk"
  "bk_wakeups (binder_stats_created ty bk) = bk_wakeups bk"
  "bk_procs (binder_stats_deleted ty bk) = bk_procs bk"
  "bk_threads (binder_stats_deleted ty bk) = bk_threads bk"
  "bk_nodes (binder_stats_deleted ty bk) = bk_nodes bk"
  "bk_devices (binder_stats_deleted ty bk) = bk_devices bk"
  "bk_todo (binder_stats_deleted ty bk) = bk_todo bk"
  "bk_on (binder_stats_deleted ty bk) = bk_on bk"
  "bk_heap (binder_stats_deleted ty bk) = bk_heap bk"
  "bk_tlog (binder_stats_deleted ty bk) = bk_tlog bk"
  "bk_next (binder_stats_deleted ty bk) = bk_next bk"
  "bk_last_id (binder_stats_deleted ty bk) = bk_last_id bk"
  "bk_kzalloc (binder_stats_deleted ty bk) = bk_kzalloc bk"
  "bk_transactions (binder_stats_deleted ty bk) = bk_transactions bk"
  "bk_proc_list (binder_stats_deleted ty bk) = bk_proc_list bk"
  "bk_completes (binder_stats_deleted ty bk) = bk_completes bk"
  "bk_stop_on_user_error (binder_stats_deleted ty bk) = bk_stop_on_user_error bk"
  "bk_wakeups (binder_stats_deleted ty bk) = bk_wakeups bk"
  by (simp_all add: binder_stats_created_def binder_stats_deleted_def Let_def)

lemma tlog_update_simps [simp]:
  "bk_procs (tlog_update e f bk) = bk_procs bk"
  "bk_threads (tlog_update e f bk) = bk_threads bk"
  "bk_nodes (tlog_update e f bk) = bk_nodes bk"
  "bk_devices (tlog_update e f bk) = bk_devices bk"
  "bk_todo (tlog_update e f bk) = bk_todo bk"
  "bk_on (tlog_update e f bk) = bk_on bk"
  "bk_heap (tlog_update e f bk) = bk_heap bk"
  "bk_next (tlog_update e f bk) = bk_next bk"
  "bk_last_id (tlog_update e f bk) = bk_last_id bk"
  "bk_kzalloc (tlog_update e f bk) = bk_kzalloc bk"
  "bk_stats (tlog_update e f bk) = bk_stats bk"
  "bk_transactions (tlog_update e f bk) = bk_transactions bk"
  "bk_proc_list (tlog_update e f bk) = bk_proc_list bk"
  "bk_completes (tlog_update e f bk) = bk_completes bk"
  "bk_stop_on_user_error (tlog_update e f bk) = bk_stop_on_user_error bk"
  "bk_wakeups (tlog_update e f bk) = bk_wakeups bk"
  by (simp_all add: tlog_update_def)

section \<open>New threads\<close>

text \<open>A thread of a new pid, at a fresh address, in the tree of its process.\<close>

lemma core_inv_add_thread:
  assumes inv: "core_inv c" and pc: "c_procs c p = Some pc" and t: "c_threads c t = None" "t < c_next c"
    and tc: "tc_proc tc = p" "tc_stack tc = None" "tc_error tc = BR_OK"
    and ts: "set ts = insert t (set (pc_threads pc))"
      "key_sorted ((tid c)(t := tc_pid tc)) ts"
  shows "core_inv (c\<lparr>c_threads := (c_threads c)(t \<mapsto> tc), c_procs := (c_procs c)(p \<mapsto> pc\<lparr>pc_threads := ts\<rparr>)\<rparr>)"
    (is "core_inv ?c")
proof -
  have new: "t \<notin> threads_of c q" for q
    using core_invD(1) [OF inv, of q] t(1)
    by (fastforce simp: threads_of_def proc_ok_def thread_owner_def split: option.splits)
  have "thread_owner ?c = (thread_owner c)(t \<mapsto> p)" "node_owner ?c = node_owner c" "nodes_of ?c = nodes_of c"
    "context_of ?c = context_of c" "nptr ?c = nptr c" "tid ?c = (tid c)(t := tc_pid tc)"
    "threads_of ?c = (threads_of c)(p := insert t (threads_of c p))"
    using tc(1) pc ts(1) by (auto simp: core_projs fun_eq_iff)
  note projs = this
  have other: "key_sorted ((tid c)(t := tc_pid tc)) (pc_threads pc')"
    if "c_procs c q = Some pc'" for q pc'
  proof -
    have "t \<notin> set (pc_threads pc')" using new [of q] that by (simp add: threads_of_def)
    then have "key_sorted ((tid c)(t := tc_pid tc)) (pc_threads pc') = key_sorted (tid c) (pc_threads pc')"
      by (intro key_sorted_cong) auto
    then show ?thesis using core_invD(1) [OF inv that] by (simp add: proc_ok_def)
  qed
  have "proc_ok ?c q pc'" if "c_procs ?c q = Some pc'" for q pc'
  proof (cases "q = p")
    case True
    with that have "pc' = pc\<lparr>pc_threads := ts\<rparr>" by simp
    then show ?thesis using core_invD(1) [OF inv pc] ts True unfolding proc_ok_def projs by simp
  next
    case False
    with that have q: "c_procs c q = Some pc'" by simp
    then have "t \<notin> set (pc_threads pc')" using new [of q] by (simp add: threads_of_def)
    then show ?thesis using core_invD(1) [OF inv q] other [OF q] unfolding proc_ok_def projs by auto
  qed
  moreover have "thread_ok ?c u tc'" if "c_threads ?c u = Some tc'" for u tc'
    using that core_invD(2) [OF inv, of u tc'] tc unfolding thread_ok_def projs
    by (auto split: if_splits)
  moreover have "node_ok ?c n nc" if "c_nodes ?c n = Some nc" for n nc
    using that core_invD(3) [OF inv, of n nc] unfolding node_ok_def projs by simp
  moreover have "mgr_ok ?c d n" if "c_mgrs ?c d = Some (Some n)" for d n
    using that core_invD(4) [OF inv, of d n] unfolding mgr_ok_def projs by simp
  moreover have "p < c_next c"
    using core_invD(7) [OF inv] pc by (auto simp: fresh_from_def not_less [symmetric])
  then have "fresh_from ?c (c_next ?c)"
    using core_invD(7) [OF inv] t(2) by (auto simp: fresh_from_def)
  ultimately show ?thesis
    using core_invD(5,6,8,9) [OF inv] unfolding core_inv_def by simp
qed

lemma core_todo: "bk_todo bk = f \<Longrightarrow> f l = [] \<Longrightarrow> core (bk\<lparr>bk_todo := f(l := [])\<rparr>) = core bk"
  by (simp add: core_def fun_upd_idem)

text \<open>The core after an update of one structure, and the structures seen through the core.\<close>

lemma core_updates:
  "core (set_proc p pr bk) = core bk\<lparr>c_procs := (c_procs (core bk))(p \<mapsto> proc_core pr)\<rparr>"
  "core (set_thread t th bk) = core bk\<lparr>c_threads := (c_threads (core bk))(t \<mapsto> thread_core th)\<rparr>"
  "core (set_node n nd bk) = core bk\<lparr>c_nodes := (c_nodes (core bk))(n \<mapsto> node_core nd)\<rparr>"
  "core (set_device d dv bk) = core bk\<lparr>c_mgrs := (c_mgrs (core bk))(d \<mapsto> dv_mgr_node dv)\<rparr>"
  "core (bk\<lparr>bk_heap := h\<rparr>) = core bk\<lparr>c_heap := h\<rparr>"
  by (simp_all add: core_def set_proc_def set_thread_def set_node_def set_device_def fun_eq_iff)

lemma core_sel:
  "c_procs (core bk) p = map_option proc_core (bk_procs bk p)"
  "c_threads (core bk) t = map_option thread_core (bk_threads bk t)"
  "c_nodes (core bk) n = map_option node_core (bk_nodes bk n)"
  "c_mgrs (core bk) d = map_option dv_mgr_node (bk_devices bk d)"
  "c_todo (core bk) = bk_todo bk" "c_on (core bk) = bk_on bk" "c_heap (core bk) = bk_heap bk"
  "c_next (core bk) = bk_next bk" "c_log (core bk) = length (tl_entry (bk_tlog bk))"
  by (simp_all add: core_def)

lemma binder_inv_proc:
  assumes "binder_inv bk" and "bk_procs bk p = Some pr"
  shows "proc_ok (core bk) p (proc_core pr)"
    and "list_all (\<lambda>t. bk_threads bk t \<noteq> None) (inorder (pr_threads pr))"
    and "list_all (\<lambda>n. bk_nodes bk n \<noteq> None) (inorder (pr_nodes pr))"
    and "key_sorted (thread_key bk) (inorder (pr_threads pr))"
    and "key_sorted (node_key bk) (inorder (pr_nodes pr))"
    and "bk_devices bk (pr_context pr) \<noteq> None"
proof -
  show ok: "proc_ok (core bk) p (proc_core pr)"
    using assms core_invD(1) by (simp add: binder_inv_def core_sel)
  then show "list_all (\<lambda>t. bk_threads bk t \<noteq> None) (inorder (pr_threads pr))"
    by (auto simp: proc_ok_def list_all_iff proc_core_def thread_owner_def core_sel)
  from ok show "list_all (\<lambda>n. bk_nodes bk n \<noteq> None) (inorder (pr_nodes pr))"
    by (auto simp: proc_ok_def list_all_iff proc_core_def node_owner_def core_sel bind_eq_Some_conv)
  from ok show "key_sorted (thread_key bk) (inorder (pr_threads pr))"
    "key_sorted (node_key bk) (inorder (pr_nodes pr))" "bk_devices bk (pr_context pr) \<noteq> None"
    by (simp_all add: proc_ok_def thread_key_core node_key_core proc_core_def core_sel)
qed

lemma binder_inv_fresh:
  assumes "binder_inv bk" and "bk_next bk \<le> a"
  shows "bk_procs bk a = None" "bk_threads bk a = None" "bk_nodes bk a = None" "bk_devices bk a = None"
    "ah_bufs (bk_heap bk) a = None"
  using assms core_invD(7) [of "core bk"] by (auto simp: binder_inv_def fresh_from_def core_sel)

lemma binder_inv_proc_next: "binder_inv bk \<Longrightarrow> bk_procs bk p = Some pr \<Longrightarrow> p < bk_next bk"
  using binder_inv_fresh(1) by (fastforce simp: not_less [symmetric])

text \<open>The tree of the threads of a process as an index by pid.\<close>

lemma thread_found:
  assumes "binder_inv bk" and "bk_procs bk p = Some pr"
  shows "rb_find (thread_key bk) k (pr_threads pr) = Some t \<longleftrightarrow>
    t \<in> set_tree (pr_threads pr) \<and> thread_key bk t = k"
  using rb_plain.find_in [OF binder_inv_proc(4) [OF assms]] by simp

text \<open>
  \<open>binder_get_thread\<close> never traps. A thread of the caller's pid is returned as it is;
  without one a new thread is put into the tree, unless there is no memory.
\<close>

lemma get_thread_found:
  assumes "binder_inv bk" and "bk_procs bk p = Some pr"
    and "rb_find (thread_key bk) (cur_pid cur) (pr_threads pr) = Some t"
  shows "binder_get_thread rb cur p bk = Inr (Some t, bk)"
  using assms binder_inv_proc(2) [OF assms(1,2)]
  by (simp add: binder_get_thread_def binder_get_thread_ilocked_def the_proc_def)

definition new_thread_of :: "task \<Rightarrow> nat \<Rightarrow> binder_thread" where
  "new_thread_of cur p = binder_thread_zero\<lparr>th_proc := p, th_pid := cur_pid cur, th_task := cur_task cur,
     th_tmp_ref := 0, th_looper_need_return := True,
     th_return_error_type := Some BINDER_WORK_RETURN_ERROR, th_return_error_cmd := BR_OK,
     th_reply_error_type := Some BINDER_WORK_RETURN_ERROR, th_reply_error_cmd := BR_OK\<rparr>"

lemma get_thread_no_memory:
  assumes "binder_inv bk" and "bk_procs bk p = Some pr"
    and "rb_find (thread_key bk) (cur_pid cur) (pr_threads pr) = None" and "kzalloc bk = (None, bk')"
  shows "binder_get_thread rb cur p bk = Inr (None, bk')"
  using assms binder_inv_proc(2) [OF assms(1,2)]
  by (simp add: binder_get_thread_def binder_get_thread_ilocked_def the_proc_def)

lemma get_thread_new:
  assumes inv: "binder_inv bk" and pr: "bk_procs bk p = Some pr" and rb: "rb_kernel_ok rb"
    and none: "rb_find (thread_key bk) (cur_pid cur) (pr_threads pr) = None" and alloc: "kzalloc bk = (Some t, bk1)"
  shows "\<exists>bk' ts. binder_get_thread rb cur p bk = Inr (Some t, bk') \<and> binder_inv bk' \<and>
    bk_threads bk' = (bk_threads bk)(t \<mapsto> new_thread_of cur p) \<and>
    bk_procs bk' = (bk_procs bk)(p \<mapsto> pr\<lparr>pr_threads := ts\<rparr>) \<and>
    inorder ts = inorder (rb_link (thread_key bk') t (pr_threads pr)) \<and> bk_nodes bk' = bk_nodes bk \<and> bk_devices bk' = bk_devices bk"
proof -
  note t = kzalloc_core(3) [OF alloc refl] and bk1 = kzalloc_core(1) [OF alloc]
  have same: "bk_procs bk1 = bk_procs bk" "bk_threads bk1 = bk_threads bk" "bk_nodes bk1 = bk_nodes bk"
    "bk_devices bk1 = bk_devices bk" "bk_todo bk1 = bk_todo bk"
    using alloc by (auto simp: kzalloc_def split: list.splits bool.splits)
  have new: "bk_threads bk t = None" "t \<notin> set_tree (pr_threads pr)"
    using binder_inv_fresh(2) [OF inv] binder_inv_proc(2) [OF inv pr] t by (auto simp: list_all_iff)
  let ?th = "new_thread_of cur p"
  have key: "thread_key (b\<lparr>bk_threads := (bk_threads bk)(t \<mapsto> th)\<rparr>) = (thread_key bk)(t := th_pid th)" for th b
    by (rule ext) (simp add: thread_key_def)
  have keys: "thread_key bk' = (thread_key bk)(t := cur_pid cur)"
    if "bk_threads bk' = (bk_threads bk)(t \<mapsto> ?th)" for bk'
    using that by (auto simp: thread_key_def new_thread_of_def fun_eq_iff)
  have sorted: "key_sorted ((thread_key bk)(t := k)) (inorder (pr_threads pr))" for k
  proof -
    have "key_sorted ((thread_key bk)(t := k)) (inorder (pr_threads pr)) = key_sorted (thread_key bk) (inorder (pr_threads pr))"
      using new(2) by (intro key_sorted_cong) auto
    then show ?thesis using binder_inv_proc(4) [OF inv pr] by simp
  qed
  have find: "rb_find ((thread_key bk)(t := k)) (cur_pid cur) (pr_threads pr) = None" for k
    using rb_plain.find_None [OF sorted] rb_plain.find_None [OF binder_inv_proc(4) [OF inv pr]] none new(2)
    by (auto simp: image_iff)
  let ?tk = "(thread_key bk)(t := cur_pid cur)"
  let ?pr = "pr\<lparr>pr_threads := rb_insert rb ?tk t (pr_threads pr)\<rparr>"
  have inord: "inorder (pr_threads ?pr) = inorder (rb_link ?tk t (pr_threads pr))"
    using rb_kernel_okD(1) [OF rb] by (simp add: rb_insert_def)
  let ?bk2 = "set_thread t binder_thread_zero bk1"
  let ?bk3 = "set_thread t ?th (binder_stats_created BINDER_STAT_THREAD ?bk2
    \<lparr>bk_todo := (bk_todo ?bk2)(ThreadTodo t := [])\<rparr>)"
  let ?bk' = "set_proc p ?pr ?bk3"
  have th3: "bk_threads ?bk3 = (bk_threads bk)(t \<mapsto> ?th)"
    by (simp add: same)
  have run: "binder_get_thread rb cur p bk = Inr (Some t, ?bk')"
    using none alloc pr binder_inv_proc(2) [OF inv pr] find
    by (simp add: binder_get_thread_def binder_get_thread_ilocked_def the_proc_def the_thread_def Let_def
        set_thread_def same key new_thread_of_def list_all_iff binder_thread_zero_def)
  have cinv: "core_inv (core bk)" using inv by (simp add: binder_inv_def)
  have todo: "bk_todo bk l = []" for l
    using core_invD(5) [OF cinv] by (simp add: core_sel)
  have "key_sorted ?tk (inorder (rb_link ?tk t (pr_threads pr)))"
    using sorted [of "cur_pid cur"] rb_plain.find_ins(1) [OF sorted] find [of "cur_pid cur"] by simp
  then have "core_inv ((core bk)\<lparr>c_next := bk_next bk1, c_threads := (c_threads (core bk))(t \<mapsto> thread_core ?th),
      c_procs := (c_procs (core bk))(p \<mapsto> (proc_core pr)\<lparr>pc_threads := inorder (pr_threads ?pr)\<rparr>)\<rparr>)"
  proof -
    have le: "c_next (core bk) \<le> bk_next bk1" using t by (simp add: core_sel)
    have set_ts: "set (inorder (pr_threads ?pr)) = insert t (set (pc_threads (proc_core pr)))"
      unfolding inord by (simp add: set_rb_link proc_core_def)
    assume "key_sorted ?tk (inorder (rb_link ?tk t (pr_threads pr)))"
    with core_inv_add_thread [OF core_inv_next [OF cinv le] _ _ _ _ _ _ set_ts, of p "thread_core ?th"] t pr new inord
    show ?thesis
      by (simp add: core_sel thread_key_core [symmetric] thread_core_def new_thread_of_def binder_thread_zero_def)
  qed
  moreover have "core ?bk' = (core bk)\<lparr>c_next := bk_next bk1, c_threads := (c_threads (core bk))(t \<mapsto> thread_core ?th),
      c_procs := (c_procs (core bk))(p \<mapsto> (proc_core pr)\<lparr>pc_threads := inorder (pr_threads ?pr)\<rparr>)\<rparr>"
    by (simp add: core_updates core_todo bk1 same todo proc_core_def)
  ultimately have "binder_inv ?bk'" by (simp add: binder_inv_def)
  moreover have "thread_key ?bk' = ?tk" using th3 by (intro keys) (simp add: set_proc_def)
  ultimately show ?thesis
    using run inord by (intro exI [of _ ?bk'] exI [of _ "pr_threads ?pr"]) (simp add: set_proc_def same)
qed

end
