(* ===== verification/Binder_Steps.thy ===== *)
theory Binder_Steps
  imports Binder_Inv
begin

text \<open>
  What each file operation of the binder device does to a state that satisfies the
  invariant, and that it keeps it.
\<close>

section \<open>New managers, processes and mappings in the core\<close>

text \<open>Without a manager of its device a process has no node.\<close>

lemma no_mgr_no_nodes:
  assumes inv: "core_inv c" and pc: "c_procs c p = Some pc" and mgr: "c_mgrs c (pc_context pc) = Some None"
  shows "pc_nodes pc = []"
proof (rule ccontr)
  assume "pc_nodes pc \<noteq> []"
  then obtain n where n: "n \<in> set (pc_nodes pc)" by (cases "pc_nodes pc") auto
  then have "node_owner c n = Some p" using core_invD(1) [OF inv pc] by (simp add: proc_ok_def)
  then obtain nc where "c_nodes c n = Some nc" "nc_proc nc = Some p"
    by (auto simp: node_owner_def bind_eq_Some_conv)
  with core_invD(3) [OF inv] have "Option.bind (context_of c p) (c_mgrs c) = Some (Some n)"
    by (fastforce simp: node_ok_def)
  with pc mgr show False by (simp add: context_of_def)
qed

lemma core_inv_add_mgr:
  assumes inv: "core_inv c" and pc: "c_procs c p = Some pc" and mgr: "c_mgrs c (pc_context pc) = Some None"
    and n: "c_nodes c n = None" "n < c_next c"
    and nc: "nc_proc nc = Some p" "nc_tmp_refs nc = 0" "nc_weak_refs nc = 1" "nc_refs nc = []" "nc_flags nc = (True, True)"
  shows "core_inv (c\<lparr>c_nodes := (c_nodes c)(n \<mapsto> nc), c_procs := (c_procs c)(p \<mapsto> pc\<lparr>pc_nodes := [n]\<rparr>),
    c_mgrs := (c_mgrs c)(pc_context pc \<mapsto> Some n)\<rparr>)" (is "core_inv ?c")
proof -
  have none: "pc_nodes pc = []" by (rule no_mgr_no_nodes [OF inv pc mgr])
  have new: "n \<notin> nodes_of c q" for q
    using core_invD(1) [OF inv, of q] n(1)
    by (fastforce simp: nodes_of_def proc_ok_def node_owner_def split: option.splits)
  have projs: "node_owner ?c = (node_owner c)(n \<mapsto> p)" "thread_owner ?c = thread_owner c" "threads_of ?c = threads_of c"
    "context_of ?c = context_of c" "tid ?c = tid c" "nptr ?c = (nptr c)(n := nc_ptr nc)"
    "nodes_of ?c = (nodes_of c)(p := {n})"
    using nc(1) pc by (auto simp: core_projs fun_eq_iff)
  have "proc_ok ?c q pc'" if "c_procs ?c q = Some pc'" for q pc'
  proof (cases "q = p")
    case True
    with that have "pc' = pc\<lparr>pc_nodes := [n]\<rparr>" by simp
    then show ?thesis using core_invD(1) [OF inv pc] True unfolding proc_ok_def projs by simp
  next
    case False
    with that have q: "c_procs c q = Some pc'" by simp
    then have nq: "n \<notin> set (pc_nodes pc')" using new [of q] by (simp add: nodes_of_def)
    then have "key_sorted ((nptr c)(n := nc_ptr nc)) (pc_nodes pc') = key_sorted (nptr c) (pc_nodes pc')"
      by (intro key_sorted_cong) auto
    then show ?thesis using core_invD(1) [OF inv q] nq unfolding proc_ok_def projs by auto
  qed
  moreover have "thread_ok ?c t tc" if "c_threads ?c t = Some tc" for t tc
    using that core_invD(2) [OF inv, of t tc] unfolding thread_ok_def projs by simp
  moreover have "node_ok ?c m nc'" if "c_nodes ?c m = Some nc'" for m nc'
  proof (cases "m = n")
    case True
    with that have "nc' = nc" by simp
    then show ?thesis using True nc pc unfolding node_ok_def projs by (simp add: context_of_def)
  next
    case False
    with that have m: "c_nodes c m = Some nc'" by simp
    with core_invD(3) [OF inv] obtain q where q: "nc_proc nc' = Some q" "m \<in> nodes_of c q"
      "Option.bind (context_of c q) (c_mgrs c) = Some (Some m)" by (fastforce simp: node_ok_def)
    from q(3) mgr have "context_of c q \<noteq> Some (pc_context pc)" by (cases "context_of c q") auto
    with pc have "q \<noteq> p" by (auto simp: context_of_def)
    with q \<open>context_of c q \<noteq> _\<close> show ?thesis
      using core_invD(3) [OF inv m] unfolding node_ok_def projs by (cases "context_of c q") auto
  qed
  moreover have "mgr_ok ?c d m" if "c_mgrs ?c d = Some (Some m)" for d m
  proof (cases "d = pc_context pc")
    case True
    with that pc show ?thesis unfolding mgr_ok_def projs by (simp add: context_of_def)
  next
    case False
    with that have "c_mgrs c d = Some (Some m)" by simp
    from core_invD(4) [OF inv this] n(1) show ?thesis unfolding mgr_ok_def projs by (auto simp: node_owner_def)
  qed
  moreover have "fresh_from ?c (c_next ?c)"
    using core_invD(7) [OF inv] n(2) pc mgr by (auto simp: fresh_from_def)
  ultimately show ?thesis
    using core_invD(5,6,8,9) [OF inv] unfolding core_inv_def by simp
qed

lemma core_inv_add_proc:
  assumes inv: "core_inv c" and p: "c_procs c p = None" "p < c_next c"
    and pc: "pc_threads pc = []" "pc_nodes pc = []" "pc_waiting pc = []" "c_mgrs c (pc_context pc) \<noteq> None"
      "alloc_unmapped (pc_alloc pc)"
  shows "core_inv (c\<lparr>c_procs := (c_procs c)(p \<mapsto> pc)\<rparr>)" (is "core_inv ?c")
proof -
  have projs: "node_owner ?c = node_owner c" "thread_owner ?c = thread_owner c" "tid ?c = tid c" "nptr ?c = nptr c"
    "threads_of ?c = (threads_of c)(p := {})" "nodes_of ?c = (nodes_of c)(p := {})"
    "context_of ?c = (context_of c)(p \<mapsto> pc_context pc)"
    using pc by (auto simp: core_projs fun_eq_iff)
  have none: "threads_of c p = {}" "nodes_of c p = {}" "context_of c p = None"
    using p by (simp_all add: core_projs)
  have "proc_ok ?c q pc'" if "c_procs ?c q = Some pc'" for q pc'
    using that core_invD(1) [OF inv, of q pc'] pc unfolding proc_ok_def projs by (auto split: if_splits)
  moreover have "thread_ok ?c t tc" if "c_threads ?c t = Some tc" for t tc
    using that core_invD(2) [OF inv, of t tc] none unfolding thread_ok_def projs by auto
  moreover have "node_ok ?c m nc'" if "c_nodes ?c m = Some nc'" for m nc'
    using that core_invD(3) [OF inv, of m nc'] none unfolding node_ok_def projs by auto
  moreover have "mgr_ok ?c d m" if "c_mgrs ?c d = Some (Some m)" for d m
    using that core_invD(4) [OF inv, of d m] none unfolding mgr_ok_def projs by auto
  moreover have "fresh_from ?c (c_next ?c)"
    using core_invD(7) [OF inv] p by (auto simp: fresh_from_def)
  ultimately show ?thesis
    using core_invD(5,6,8,9) [OF inv] unfolding core_inv_def by simp
qed

text \<open>An area is mapped for one process; the buffers of the others stay.\<close>

lemma core_inv_map:
  assumes inv: "core_inv c" and pc: "c_procs c p = Some pc"
    and h: "\<not> ah_mmap_lock h" "\<And>b x. ah_bufs (c_heap c) b = Some x \<Longrightarrow> ah_bufs h b = Some x"
      "\<forall>a \<ge> c_next c. ah_bufs h a = None"
    and al: "alloc_unmapped al \<or> alloc_mapped (ah_bufs h) al"
  shows "core_inv (c\<lparr>c_heap := h, c_procs := (c_procs c)(p \<mapsto> pc\<lparr>pc_alloc := al\<rparr>)\<rparr>)" (is "core_inv ?c")
proof -
  have projs: "node_owner ?c = node_owner c" "thread_owner ?c = thread_owner c" "tid ?c = tid c" "nptr ?c = nptr c"
    "threads_of ?c = threads_of c" "nodes_of ?c = nodes_of c" "context_of ?c = context_of c"
    using pc by (auto simp: core_projs fun_eq_iff)
  have mapped: "alloc_mapped (ah_bufs h) a" if "alloc_mapped (ah_bufs (c_heap c)) a" for a
    using that h(2) by (fastforce simp: alloc_mapped_def split: list.splits option.splits)
  have "proc_ok ?c q pc'" if q: "c_procs ?c q = Some pc'" for q pc'
  proof (cases "q = p")
    case True
    with q have "pc' = pc\<lparr>pc_alloc := al\<rparr>" by simp
    then show ?thesis using core_invD(1) [OF inv pc] al True unfolding proc_ok_def projs by simp
  next
    case False
    with q core_invD(1) [OF inv, of q pc'] mapped [of "pc_alloc pc'"] show ?thesis
      unfolding proc_ok_def projs by auto
  qed
  moreover have "thread_ok ?c t tc" if "c_threads ?c t = Some tc" for t tc
    using that core_invD(2) [OF inv, of t tc] unfolding thread_ok_def projs by auto
  moreover have "node_ok ?c m nc'" if "c_nodes ?c m = Some nc'" for m nc'
    using that core_invD(3) [OF inv, of m nc'] unfolding node_ok_def projs by auto
  moreover have "mgr_ok ?c d m" if "c_mgrs ?c d = Some (Some m)" for d m
    using that core_invD(4) [OF inv, of d m] unfolding mgr_ok_def projs by auto
  moreover have "fresh_from ?c (c_next ?c)"
    using core_invD(7) [OF inv] h(3) pc by (auto simp: fresh_from_def)
  ultimately show ?thesis
    using core_invD(5,6,8) [OF inv] h(1) unfolding core_inv_def by simp
qed

section \<open>Finding the thread\<close>

lemma kzalloc_simps:
  assumes "kzalloc bk = (r, bk')"
  shows "bk_procs bk' = bk_procs bk" "bk_threads bk' = bk_threads bk" "bk_nodes bk' = bk_nodes bk"
    "bk_devices bk' = bk_devices bk" "bk_todo bk' = bk_todo bk" "bk_on bk' = bk_on bk" "bk_heap bk' = bk_heap bk"
    "bk_tlog bk' = bk_tlog bk" "bk_last_id bk' = bk_last_id bk" "bk_transactions bk' = bk_transactions bk"
    "bk_stats bk' = bk_stats bk" "bk_completes bk' = bk_completes bk" "bk_proc_list bk' = bk_proc_list bk"
  using assms by (auto simp: kzalloc_def split: list.splits bool.splits)

lemma get_thread_inv:
  assumes inv: "binder_inv bk" and pr: "bk_procs bk p = Some pr" and rb: "rb_kernel_ok rb"
  shows "\<exists>r bk'. binder_get_thread rb cur p bk = Inr (r, bk') \<and> binder_inv bk' \<and>
    (\<forall>t. r = Some t \<longrightarrow> (\<exists>th. bk_threads bk' t = Some th \<and> th_proc th = p \<and> th_pid th = cur_pid cur)) \<and>
    (\<exists>pr'. bk_procs bk' p = Some pr' \<and> pr_context pr' = pr_context pr \<and> pr_nodes pr' = pr_nodes pr) \<and>
    bk_nodes bk' = bk_nodes bk \<and> bk_devices bk' = bk_devices bk"
proof (cases "rb_find (thread_key bk) (cur_pid cur) (pr_threads pr)")
  case (Some t)
  then have "t \<in> set_tree (pr_threads pr)" "thread_key bk t = cur_pid cur"
    using thread_found [OF inv pr] by simp_all
  moreover from this(1) binder_inv_proc(1) [OF inv pr] obtain th where "bk_threads bk t = Some th" "th_proc th = p"
    by (auto simp: proc_ok_def proc_core_def thread_owner_def core_sel thread_core_def)
  ultimately show ?thesis using get_thread_found [OF inv pr Some] inv pr by (auto simp: thread_key_def)
next
  case None
  obtain r bk1 where alloc: "kzalloc bk = (r, bk1)" by fastforce
  show ?thesis
  proof (cases r)
    case [simp]: None
    show ?thesis
      using get_thread_no_memory [OF inv pr \<open>rb_find _ _ _ = None\<close>] alloc kzalloc_inv [OF alloc inv] pr
        kzalloc_simps [OF alloc] by simp
  next
    case [simp]: (Some t)
    have k: "kzalloc bk = (Some t, bk1)" using alloc by simp
    from get_thread_new [OF inv pr rb None k] show ?thesis by (auto simp: new_thread_of_def)
  qed
qed

section \<open>Reference counts at rest\<close>

text \<open>Giving back the only temporary reference of a node that has a weak one.\<close>

lemma dec_node_tmpref_held:
  assumes "bk_nodes bk n = Some nd" and "nd_tmp_refs nd = 1" and "nd_local_weak_refs nd \<noteq> 0"
  shows "binder_dec_node_tmpref rb n bk = Inr (set_node n (nd\<lparr>nd_tmp_refs := 0\<rparr>) bk)"
  using assms
  by (simp add: binder_dec_node_tmpref_def the_node_def binder_dec_node_nilocked_def Let_def set_node_def)

section \<open>The context manager\<close>

definition new_node_of :: "nat \<Rightarrow> u32 \<Rightarrow> flat_binder_object option \<Rightarrow> binder_node" where
  "new_node_of p debug_id fp =
     (let flags = (case fp of Some f \<Rightarrow> fbo_flags f | None \<Rightarrow> 0);
          policy = ucast (drop_bit 9 (flags AND FLAT_BINDER_FLAG_SCHED_POLICY_MASK)) :: 2 word
      in binder_node_zero\<lparr>nd_tmp_refs := 1, nd_debug_id := debug_id, nd_proc := Some p,
           nd_ptr := (case fp of Some f \<Rightarrow> fbo_binder f | None \<Rightarrow> 0),
           nd_cookie := (case fp of Some f \<Rightarrow> fbo_cookie f | None \<Rightarrow> 0),
           nd_work_type := Some BINDER_WORK_NODE, nd_sched_policy := policy,
           nd_min_priority := word_of_int (to_kernel_prio (uint policy)
             (sint (ucast (flags AND FLAT_BINDER_FLAG_PRIORITY_MASK) :: 8 word))),
           nd_accept_fds := (flags AND FLAT_BINDER_FLAG_ACCEPTS_FDS \<noteq> 0),
           nd_inherit_rt := (flags AND FLAT_BINDER_FLAG_TXN_SECURITY_CTX \<noteq> 0),
           nd_async_todo := []\<rparr>)"

text \<open>The node of a new manager: held weakly and strongly, no temporary reference left.\<close>

definition mgr_node_of :: "nat \<Rightarrow> u32 \<Rightarrow> flat_binder_object option \<Rightarrow> binder_node" where
  "mgr_node_of p debug_id fp = (new_node_of p debug_id fp)\<lparr>nd_local_weak_refs := 1, nd_local_strong_refs := 1,
     nd_has_weak_ref := True, nd_has_strong_ref := True, nd_tmp_refs := 0\<rparr>"

lemma init_node_in_empty:
  assumes "bk_procs bk p = Some pr" and "pr_nodes pr = Leaf" and "bk_nodes bk n = Some binder_node_zero"
  shows "binder_init_node_ilocked rb p n fp bk = Inr (n,
    set_proc p (pr\<lparr>pr_nodes := rb_insert_color rb (Node Leaf n Leaf)\<rparr>)
      (set_node n (new_node_of p (bk_last_id bk + 1) fp)
        ((binder_stats_created BINDER_STAT_NODE bk)\<lparr>bk_last_id := bk_last_id bk + 1\<rparr>)))"
  using assms
  by (simp add: binder_init_node_ilocked_def the_proc_def the_node_def Let_def rb_insert_def new_node_of_def
      binder_node_zero_def)

lemma set_ctx_mgr_refused:
  assumes "bk_procs bk p = Some pr" and "bk_devices bk (pr_context pr) = Some dv"
  shows "dv_mgr_node dv \<noteq> None \<Longrightarrow> binder_ioctl_set_ctx_mgr rb cur p fbo bk = Inr (- EBUSY, bk)"
    and "dv_mgr_node dv = None \<Longrightarrow> uid_valid (dv_mgr_uid dv) \<Longrightarrow> dv_mgr_uid dv \<noteq> cur_euid cur \<Longrightarrow>
      binder_ioctl_set_ctx_mgr rb cur p fbo bk = Inr (- EPERM, bk)"
  using assms by (simp_all add: binder_ioctl_set_ctx_mgr_def the_proc_def the_device_def Let_def)

text \<open>The device once the caller's uid is the manager's.\<close>

definition claim_uid :: "task \<Rightarrow> binder_device \<Rightarrow> binder_device" where
  "claim_uid cur dv = (if uid_valid (dv_mgr_uid dv) then dv else dv\<lparr>dv_mgr_uid := cur_euid cur\<rparr>)"

lemma set_ctx_mgr_no_memory:
  assumes "bk_procs bk p = Some pr" and "bk_devices bk (pr_context pr) = Some dv" and "dv_mgr_node dv = None"
    and "uid_valid (dv_mgr_uid dv) \<longrightarrow> dv_mgr_uid dv = cur_euid cur"
    and "kzalloc (set_device (pr_context pr) (claim_uid cur dv) bk) = (None, bk1)"
  shows "binder_ioctl_set_ctx_mgr rb cur p fbo bk = Inr (- EPERM, bk1)"
  using assms
  by (auto simp: binder_ioctl_set_ctx_mgr_def the_proc_def the_device_def Let_def claim_uid_def binder_new_node_def
      split: if_splits)

lemma mgr_tree_empty:
  assumes inv: "binder_inv bk" and pr: "bk_procs bk p = Some pr" and dv: "bk_devices bk (pr_context pr) = Some dv"
    and none: "dv_mgr_node dv = None"
  shows "pr_nodes pr = Leaf"
proof -
  have "pc_nodes (proc_core pr) = []"
    using inv pr dv none
    by (intro no_mgr_no_nodes [of "core bk" p]) (simp_all add: binder_inv_def core_sel proc_core_def)
  then show ?thesis by (simp add: proc_core_def)
qed

lemma set_ctx_mgr_ok:
  assumes inv: "binder_inv bk" and pr: "bk_procs bk p = Some pr" and dv: "bk_devices bk (pr_context pr) = Some dv"
    and none: "dv_mgr_node dv = None" and uid: "uid_valid (dv_mgr_uid dv) \<longrightarrow> dv_mgr_uid dv = cur_euid cur"
    and rb: "rb_kernel_ok rb" and alloc: "kzalloc (set_device (pr_context pr) (claim_uid cur dv) bk) = (Some n, bk1)"
  shows "\<exists>bk' t. binder_ioctl_set_ctx_mgr rb cur p fbo bk = Inr (0, bk') \<and> binder_inv bk' \<and> n = bk_next bk \<and>
    bk_nodes bk' = (bk_nodes bk)(n \<mapsto> mgr_node_of p (bk_last_id bk + 1) fbo) \<and>
    bk_procs bk' = (bk_procs bk)(p \<mapsto> pr\<lparr>pr_nodes := t\<rparr>) \<and> inorder t = [n] \<and>
    bk_devices bk' = (bk_devices bk)(pr_context pr \<mapsto> (claim_uid cur dv)\<lparr>dv_mgr_node := Some n\<rparr>) \<and>
    bk_threads bk' = bk_threads bk"
proof -
  let ?d = "pr_context pr"
  note leaf = mgr_tree_empty [OF inv pr dv none]
  note k = kzalloc_simps [OF alloc, simplified] and kc = kzalloc_core [OF alloc]
  have n: "n = bk_next bk" "bk_next bk1 = Suc (bk_next bk)" using kc(3) [OF refl] by simp_all
  let ?t = "rb_insert_color rb (Node Leaf n Leaf)"
  let ?nd = "new_node_of p (bk_last_id bk + 1) fbo"
  let ?bk3 = "set_proc p (pr\<lparr>pr_nodes := ?t\<rparr>) (set_node n ?nd
    ((binder_stats_created BINDER_STAT_NODE (set_node n binder_node_zero bk1))\<lparr>bk_last_id := bk_last_id bk + 1\<rparr>))"
  have init: "binder_init_node_ilocked rb p n fbo (set_node n binder_node_zero bk1) = Inr (n, ?bk3)"
    using init_node_in_empty [of "set_node n binder_node_zero bk1" p pr n rb fbo] pr leaf k by simp
  let ?bk4 = "set_device ?d ((claim_uid cur dv)\<lparr>dv_mgr_node := Some n\<rparr>)
    (set_node n ((mgr_node_of p (bk_last_id bk + 1) fbo)\<lparr>nd_tmp_refs := 1\<rparr>) ?bk3)"
  let ?bk' = "set_node n (mgr_node_of p (bk_last_id bk + 1) fbo) ?bk4"
  have dec: "binder_put_node rb n ?bk4 = Inr ?bk'"
    unfolding binder_put_node_def
    by (subst dec_node_tmpref_held [where nd = "(mgr_node_of p (bk_last_id bk + 1) fbo)\<lparr>nd_tmp_refs := 1\<rparr>"])
      (simp_all add: mgr_node_of_def)
  have run: "binder_ioctl_set_ctx_mgr rb cur p fbo bk = Inr (0, ?bk')"
    using alloc init dec pr dv none uid
    by (auto simp: binder_ioctl_set_ctx_mgr_def the_proc_def the_device_def the_node_def Let_def claim_uid_def
        binder_new_node_def mgr_node_of_def new_node_of_def binder_node_zero_def split: if_splits)
  have nodes: "bk_nodes ?bk' = (bk_nodes bk)(n \<mapsto> mgr_node_of p (bk_last_id bk + 1) fbo)" by (simp add: k)
  have cinv: "core_inv (core bk)" using inv by (simp add: binder_inv_def)
  let ?c = "core bk\<lparr>c_next := bk_next bk1\<rparr>"
  have le: "c_next (core bk) \<le> bk_next bk1" using n by (simp add: core_sel)
  have "core_inv (?c\<lparr>c_nodes := (c_nodes ?c)(n \<mapsto> node_core (mgr_node_of p (bk_last_id bk + 1) fbo)),
      c_procs := (c_procs ?c)(p \<mapsto> (proc_core pr)\<lparr>pc_nodes := [n]\<rparr>),
      c_mgrs := (c_mgrs ?c)(pc_context (proc_core pr) \<mapsto> Some n)\<rparr>)"
    using core_inv_add_mgr [OF core_inv_next [OF cinv le], of p "proc_core pr" n
        "node_core (mgr_node_of p (bk_last_id bk + 1) fbo)"] pr dv none n binder_inv_fresh(3) [OF inv, of n]
    by (simp add: core_sel proc_core_def node_core_def mgr_node_of_def new_node_of_def binder_node_zero_def Let_def)
  moreover have "core ?bk' = ?c\<lparr>c_nodes := (c_nodes ?c)(n \<mapsto> node_core (mgr_node_of p (bk_last_id bk + 1) fbo)),
      c_procs := (c_procs ?c)(p \<mapsto> (proc_core pr)\<lparr>pc_nodes := [n]\<rparr>),
      c_mgrs := (c_mgrs ?c)(pc_context (proc_core pr) \<mapsto> Some n)\<rparr>"
    using dv none rb_kernel_okD(1) [OF rb]
    by (simp add: core_updates core_more kc(1) proc_core_def claim_uid_def)
  ultimately have "binder_inv ?bk'" by (simp add: binder_inv_def)
  then show ?thesis
    using run nodes n rb_kernel_okD(1) [OF rb] by (intro exI [of _ ?bk'] exI [of _ ?t]) (simp add: k)
qed

section \<open>Transactions\<close>

lemma get_node_refs_ok:
  assumes "bk_nodes bk n = Some nd" and "nd_proc nd = Some p" and "bk_procs bk p = Some pr"
  shows "binder_get_node_refs_for_txn n bk = Inr (Some n, Some p, 0,
    set_proc p (pr\<lparr>pr_tmp_ref := pr_tmp_ref pr + 1\<rparr>)
      (set_node n (nd\<lparr>nd_local_strong_refs := nd_local_strong_refs nd + 1, nd_tmp_refs := nd_tmp_refs nd + 1\<rparr>) bk))"
  using assms
  by (simp add: binder_get_node_refs_for_txn_def the_node_def the_proc_def binder_inc_node_nilocked_def
      binder_inc_node_tmpref_ilocked_def Let_def set_node_def set_proc_def)

lemma mgr_node_held:
  assumes inv: "binder_inv bk" and dv: "bk_devices bk d = Some dv" "dv_mgr_node dv = Some n"
  shows "\<exists>nd p pr. bk_nodes bk n = Some nd \<and> nd_proc nd = Some p \<and> bk_procs bk p = Some pr \<and> pr_context pr = d \<and>
    nd_tmp_refs nd = 0 \<and> nd_local_weak_refs nd = 1 \<and> nd_refs nd = [] \<and> nd_has_strong_ref nd \<and> nd_has_weak_ref nd"
proof -
  have cinv: "core_inv (core bk)" using inv by (simp add: binder_inv_def)
  have "mgr_ok (core bk) d n" using core_invD(4) [OF cinv, of d n] dv by (simp add: core_sel)
  then obtain p where "node_owner (core bk) n = Some p" "context_of (core bk) p = Some d" by (auto simp: mgr_ok_def)
  then obtain nd pr where "bk_nodes bk n = Some nd" "nd_proc nd = Some p" "bk_procs bk p = Some pr" "pr_context pr = d"
    by (auto simp: node_owner_def context_of_def bind_eq_Some_conv core_sel node_core_def proc_core_def)
  moreover from this(1) core_invD(3) [OF cinv, of n "node_core nd"]
  have "nd_tmp_refs nd = 0 \<and> nd_local_weak_refs nd = 1 \<and> nd_refs nd = [] \<and> nd_has_strong_ref nd \<and> nd_has_weak_ref nd"
    by (simp add: core_sel node_ok_def node_core_def)
  ultimately show ?thesis by blast
qed

lemma core_log:
  "length (tl_entry log) = length (tl_entry (bk_tlog bk)) \<Longrightarrow> core (bk\<lparr>bk_tlog := log\<rparr>) = core bk"
  by (simp add: core_def)

lemma length_log_add [simp]: "length (tl_entry (snd (binder_transaction_log_add log))) = length (tl_entry log)"
  by (simp add: binder_transaction_log_add_def Let_def)

text \<open>What a successful transaction leaves behind.\<close>

definition transaction_effect ::
  "nat \<Rightarrow> binder_node \<Rightarrow> nat \<Rightarrow> binder_proc \<Rightarrow> nat \<Rightarrow> binder_transaction_rec \<Rightarrow> binder_kernel \<Rightarrow> binder_kernel \<Rightarrow> bool" where
  "transaction_effect n nd tp target t tx bk bk' \<longleftrightarrow>
     bk_nodes bk' = (bk_nodes bk)(n \<mapsto> nd\<lparr>nd_local_strong_refs := nd_local_strong_refs nd + 1\<rparr>) \<and>
     bk_procs bk' = (bk_procs bk)(tp \<mapsto> target\<lparr>pr_tmp_ref := pr_tmp_ref target + 1\<rparr>) \<and>
     bk_transactions bk' = (bk_transactions bk)(t \<mapsto> tx) \<and>
     bk_threads bk' = bk_threads bk \<and> bk_devices bk' = bk_devices bk \<and> bk_todo bk' = bk_todo bk \<and>
     bk_wakeups bk' = bk_wakeups bk \<and> bk_last_id bk' = bk_last_id bk + 1 \<and>
     tl_cur (bk_tlog bk') = tl_cur (bk_tlog bk) + 1"

lemma kzalloc_wakeups: "kzalloc bk = (r, bk') \<Longrightarrow> bk_wakeups bk' = bk_wakeups bk"
  by (auto simp: kzalloc_def split: list.splits bool.splits)

lemma binder_transaction_ok:
  assumes inv: "binder_inv bk" and pr: "bk_procs bk p = Some pr" and th: "bk_threads bk th = Some thread"
    and dv: "bk_devices bk (pr_context pr) = Some dv" "dv_mgr_node dv = Some n" "dv_name dv = Some name"
    and nd: "bk_nodes bk n = Some nd" "nd_proc nd = Some tp" "bk_procs bk tp = Some target"
    and ok: "bk_kzalloc bk = True # oks" and handle: "tr_handle tr = 0"
  shows "\<exists>bk'. binder_transaction rb task_euid cur p th tr False bk = Inr bk' \<and>
    core bk' = (core bk)\<lparr>c_next := bk_next bk'\<rparr> \<and> bk_next bk \<le> bk_next bk' \<and>
    transaction_effect n nd tp target (bk_next bk)
      (transaction_record cur (task_euid (pr_tsk pr)) (bk_last_id bk + 1) th tp (pr_default_priority target) tr False) bk bk'"
proof -
  have held: "nd_tmp_refs nd = 0" "nd_local_weak_refs nd = 1"
    using mgr_node_held [OF inv dv(1,2)] nd(1) by auto
  obtain e log where log: "binder_transaction_log_add (bk_tlog bk) = (e, log)" by fastforce
  have log': "length (tl_entry log) = length (tl_entry (bk_tlog bk))" "tl_cur log = tl_cur (bk_tlog bk) + 1"
    using length_log_add [of "bk_tlog bk"] log
    by (simp, auto simp: binder_transaction_log_add_def Let_def)
  have cur: "tl_cur (bk_tlog (tlog_update e f b)) = tl_cur (bk_tlog b)"
    and len: "length (tl_entry (bk_tlog (tlog_update e f b))) = length (tl_entry (bk_tlog b))" for f b
    by (simp_all add: tlog_update_def)
  let ?id = "bk_last_id bk + 1"
  let ?bk1 = "bk\<lparr>bk_last_id := ?id, bk_tlog := log\<rparr>"
  define f1 where "f1 = (\<lambda>en :: tlog_entry. en\<lparr>te_debug_id := ?id,
           te_call_type := (if tr_flags tr AND TF_ONE_WAY \<noteq> 0 then 1 else 0),
           te_from_proc := int_u32 (pr_pid pr), te_from_thread := int_u32 (th_pid thread),
           te_target_handle := tr_handle tr, te_data_size := ucast (tr_data_size tr),
           te_offsets_size := ucast (tr_offsets_size tr),
           te_context_name := take 254 name\<rparr>)"
  let ?nd1 = "nd\<lparr>nd_local_strong_refs := nd_local_strong_refs nd + 1, nd_tmp_refs := nd_tmp_refs nd + 1\<rparr>"
  let ?target = "target\<lparr>pr_tmp_ref := pr_tmp_ref target + 1\<rparr>"
  define bk2 where "bk2 = tlog_update e f1 ?bk1"
  have bk2: "bk_procs bk2 = bk_procs bk" "bk_threads bk2 = bk_threads bk" "bk_nodes bk2 = bk_nodes bk"
    "bk_devices bk2 = bk_devices bk" "bk_todo bk2 = bk_todo bk" "bk_last_id bk2 = ?id" "bk_kzalloc bk2 = True # oks"
    "bk_next bk2 = bk_next bk" "bk_wakeups bk2 = bk_wakeups bk" "bk_transactions bk2 = bk_transactions bk"
    "tl_cur (bk_tlog bk2) = tl_cur (bk_tlog bk) + 1" "bk_on bk2 = bk_on bk" "bk_heap bk2 = bk_heap bk"
    "length (tl_entry (bk_tlog bk2)) = length (tl_entry (bk_tlog bk))"
    using ok log' by (simp_all add: bk2_def cur len)
  define bk3 where "bk3 = set_proc tp ?target (set_node n ?nd1 bk2)"
  have get: "transaction_target (pr_context pr) (tr_handle tr) False bk2 = Inr (Some n, Some tp, 0, bk3)"
    using get_node_refs_ok [of bk2 n nd tp target] nd dv handle
    by (simp add: transaction_target_def the_device_def bk2 bk3_def)
  define bk5 where "bk5 = tlog_update e (\<lambda>en. en\<lparr>te_to_proc := int_u32 (pr_pid target)\<rparr>)
    (tlog_update e (\<lambda>en. en\<lparr>te_to_node := nd_debug_id nd\<rparr>) bk3)"
  define bk6 where "bk6 = bk5\<lparr>bk_kzalloc := oks, bk_next := Suc (bk_next bk)\<rparr>"
  have k1: "kzalloc bk5 = (Some (bk_next bk), bk6)"
    by (simp add: kzalloc_def bk5_def bk6_def bk3_def bk2)
  obtain c bk8 where k2: "kzalloc (binder_stats_created BINDER_STAT_TRANSACTION bk6) = (c, bk8)" by fastforce
  note k2s = kzalloc_simps [OF k2, simplified] and k2c = kzalloc_core [OF k2]
  define bk9 where "bk9 = binder_stats_created BINDER_STAT_TRANSACTION_COMPLETE
    (case c of Some c \<Rightarrow> bk8\<lparr>bk_completes := c # bk_completes bk8\<rparr> | None \<Rightarrow> bk8)"
  let ?tx = "transaction_record cur (task_euid (pr_tsk pr)) ?id th tp (pr_default_priority target) tr False"
  define bk11 where "bk11 = bk9\<lparr>bk_transactions := (bk_transactions bk8)(bk_next bk \<mapsto> ?tx)\<rparr>"
  have bk6: "bk_nodes bk6 = (bk_nodes bk)(n \<mapsto> ?nd1)" "bk_procs bk6 = (bk_procs bk)(tp \<mapsto> ?target)"
    "bk_threads bk6 = bk_threads bk" "bk_devices bk6 = bk_devices bk" "bk_todo bk6 = bk_todo bk"
    "bk_wakeups bk6 = bk_wakeups bk" "bk_last_id bk6 = ?id" "bk_transactions bk6 = bk_transactions bk"
    "tl_cur (bk_tlog bk6) = tl_cur (bk_tlog bk) + 1" "bk_on bk6 = bk_on bk" "bk_heap bk6 = bk_heap bk"
    "length (tl_entry (bk_tlog bk6)) = length (tl_entry (bk_tlog bk))" "bk_next bk6 = Suc (bk_next bk)"
    by (simp_all add: bk6_def bk5_def bk3_def bk2 cur len)
  have bk11: "bk_nodes bk11 = (bk_nodes bk)(n \<mapsto> ?nd1)" "bk_procs bk11 = (bk_procs bk)(tp \<mapsto> ?target)"
    "bk_threads bk11 = bk_threads bk" "bk_devices bk11 = bk_devices bk" "bk_todo bk11 = bk_todo bk"
    "bk_wakeups bk11 = bk_wakeups bk" "bk_last_id bk11 = ?id" "bk_transactions bk11 = (bk_transactions bk)(bk_next bk \<mapsto> ?tx)"
    "tl_cur (bk_tlog bk11) = tl_cur (bk_tlog bk) + 1" "bk_on bk11 = bk_on bk" "bk_heap bk11 = bk_heap bk"
    "length (tl_entry (bk_tlog bk11)) = length (tl_entry (bk_tlog bk))" "bk_next bk11 = bk_next bk8"
    using kzalloc_wakeups [OF k2] by (simp_all add: bk11_def bk9_def k2s bk6 split: option.split)
  let ?bk12 = "set_node n (?nd1\<lparr>nd_tmp_refs := 0\<rparr>) bk11"
  have dec: "binder_dec_node_tmpref rb n bk11 = Inr ?bk12"
    by (rule dec_node_tmpref_held) (simp_all add: bk11 held)
  let ?bk' = "tlog_update e (\<lambda>en. en\<lparr>te_debug_id_done := ?id\<rparr>) ?bk12"
  have run: "binder_transaction rb task_euid cur p th tr False bk = Inr ?bk'"
  proof -
    have 1: "the_node bk3 n = Inr ?nd1" "the_proc (tlog_update e g bk3) tp = Inr ?target" for g
      by (simp_all add: the_node_def the_proc_def bk3_def)
    have 2: "the_proc bk p = Inr pr" "the_thread bk th = Inr thread"
      "the_device (bk\<lparr>bk_last_id := ?id, bk_tlog := log\<rparr>) (pr_context pr) = Inr dv"
      using pr th dv by (simp_all add: the_proc_def the_thread_def the_device_def)
    have 3: "bk_transactions (case c of Some c \<Rightarrow> bk8\<lparr>bk_completes := c # bk_completes bk8\<rparr> | None \<Rightarrow> bk8) = bk_transactions bk8"
      by (simp split: option.split)
    show ?thesis
      by (simp add: binder_transaction_def Let_def 1 2 3 log dv get dec k1 k2
          flip: f1_def bk2_def bk5_def bk9_def bk11_def split del: if_split)
  qed
  have "core ?bk' = (core bk)\<lparr>c_next := bk_next bk8\<rparr>"
    using nd held by (simp add: core_def bk11 len) (auto simp: fun_eq_iff proc_core_def node_core_def)
  moreover have same: "nd\<lparr>nd_local_strong_refs := x, nd_tmp_refs := 0\<rparr> = nd\<lparr>nd_local_strong_refs := x\<rparr>" for x
    using held by (cases nd) simp
  have "transaction_effect n nd tp target (bk_next bk) ?tx bk ?bk'"
    using same by (simp add: transaction_effect_def bk11 cur)
  ultimately show ?thesis using run k2c(2) bk6 by (intro exI [of _ ?bk']) (simp add: bk11)
qed

text \<open>The inputs the driver handles; for the others a missing pointer is dereferenced.\<close>

definition transaction_handled :: "binder_kernel \<Rightarrow> binder_device \<Rightarrow> binder_transaction_data \<Rightarrow> bool \<Rightarrow> bool" where
  "transaction_handled bk dv tr reply \<longleftrightarrow>
     dv_name dv \<noteq> None \<and> \<not> reply \<and> tr_handle tr = 0 \<and> dv_mgr_node dv \<noteq> None \<and>
     (case bk_kzalloc bk of True # _ \<Rightarrow> True | _ \<Rightarrow> False)"

lemma binder_transaction_unhandled:
  assumes inv: "binder_inv bk" and pr: "bk_procs bk p = Some pr" and th: "bk_threads bk th = Some thread"
    and dv: "bk_devices bk (pr_context pr) = Some dv" and bad: "\<not> transaction_handled bk dv tr reply"
  shows "binder_transaction rb task_euid cur p th tr reply bk = Inl NullDeref"
proof -
  obtain e log where log: "binder_transaction_log_add (bk_tlog bk) = (e, log)" by fastforce
  have 2: "the_proc bk p = Inr pr" "the_thread bk th = Inr thread" "the_device b (pr_context pr) = Inr dv"
    if "bk_devices b = bk_devices bk" for b
    using pr th dv that by (simp_all add: the_proc_def the_thread_def the_device_def)
  note start = binder_transaction_def Let_def 2 [OF refl] log
  show ?thesis
  proof (cases "dv_name dv")
    case None
    then show ?thesis by (simp add: start 2)
  next
    case name: (Some name)
    show ?thesis
    proof (cases "reply \<or> tr_handle tr \<noteq> 0 \<or> dv_mgr_node dv = None")
      case True
      then consider "reply" | "\<not> reply" "tr_handle tr \<noteq> 0" | "\<not> reply" "tr_handle tr = 0" "dv_mgr_node dv = None" by argo
      then show ?thesis
        by cases (simp_all add: start 2 name transaction_target_def)
    next
      case False
      then obtain n where n: "\<not> reply" "tr_handle tr = 0" "dv_mgr_node dv = Some n" by auto
      from mgr_node_held [OF inv dv n(3)] obtain nd tp target where
        nd: "bk_nodes bk n = Some nd" "nd_proc nd = Some tp" "bk_procs bk tp = Some target" by blast
      have "\<exists>bk'. kzalloc b = (None, bk')" if "bk_kzalloc b = bk_kzalloc bk" for b
        using bad name n that by (auto simp: transaction_handled_def kzalloc_def split: list.splits bool.splits)
      then have "fst (kzalloc b) = None" if "bk_kzalloc b = bk_kzalloc bk" for b
        using that by force
      then have fail: "(case kzalloc b of (t, b') \<Rightarrow> bindE (derefE NullDeref t) (k b')) = Inl NullDeref"
        if "bk_kzalloc b = bk_kzalloc bk" for b and k :: "binder_kernel \<Rightarrow> nat \<Rightarrow> binder_kernel chk"
        using that by (simp add: case_prod_beta)
      have 3: "the_node (set_proc q a (set_node m x b)) m = Inr x" "the_proc (tlog_update i g (set_proc q a b)) q = Inr a"
        for q a m x b i g by (simp_all add: the_node_def the_proc_def)
      show ?thesis
        using get_node_refs_ok [of _ n nd tp target] nd
        by (simp add: start 2 3 name n transaction_target_def fail split del: if_split)
    qed
  qed
qed

lemma binder_transaction_inv:
  assumes inv: "binder_inv bk" and pr: "bk_procs bk p = Some pr" and th: "bk_threads bk th = Some thread"
    and run: "binder_transaction rb task_euid cur p th tr reply bk = Inr bk'"
  shows "binder_inv bk' \<and> bk_threads bk' = bk_threads bk \<and>
    (\<exists>pr'. bk_procs bk' p = Some pr' \<and> pr_context pr' = pr_context pr) \<and> bk_devices bk' = bk_devices bk"
proof -
  obtain dv where dv: "bk_devices bk (pr_context pr) = Some dv" using binder_inv_proc(6) [OF inv pr] by auto
  have ok: "transaction_handled bk dv tr reply"
    using binder_transaction_unhandled [OF inv pr th dv] run by fastforce
  then obtain n name oks where n: "dv_mgr_node dv = Some n" "dv_name dv = Some name" "bk_kzalloc bk = True # oks"
    "tr_handle tr = 0" "\<not> reply"
    by (auto simp: transaction_handled_def split: list.splits bool.splits)
  from mgr_node_held [OF inv dv n(1)] obtain nd tp target where
    nd: "bk_nodes bk n = Some nd" "nd_proc nd = Some tp" "bk_procs bk tp = Some target" by blast
  from binder_transaction_ok [OF inv pr th dv n(1,2) nd n(3,4), of rb task_euid cur] run n(5)
  obtain t tx where eff: "core bk' = (core bk)\<lparr>c_next := bk_next bk'\<rparr>" "bk_next bk \<le> bk_next bk'"
    "transaction_effect n nd tp target t tx bk bk'" by auto
  have "binder_inv bk'"
    using core_inv_next [of "core bk" "bk_next bk'"] inv eff(1,2) by (simp add: binder_inv_def core_sel)
  with eff(3) pr nd(3) show ?thesis by (auto simp: transaction_effect_def)
qed

section \<open>The write loop\<close>

lemma thread_write_count_inv:
  assumes inv: "binder_inv bk" and pr: "bk_procs bk p = Some pr" and th: "bk_threads bk th = Some thread"
  shows "\<exists>bk' thread' pr'. thread_write_count p th cmd bk = Inr bk' \<and> binder_inv bk' \<and>
    bk_threads bk' = (bk_threads bk)(th \<mapsto> thread') \<and> thread_core thread' = thread_core thread \<and>
    bk_procs bk' = (bk_procs bk)(p \<mapsto> pr') \<and> pr_context pr' = pr_context pr \<and> bk_devices bk' = bk_devices bk"
proof (cases "IOC_NR cmd < 19")
  case False
  then show ?thesis
    using assms by (intro exI [of _ bk] exI [of _ thread] exI [of _ pr]) (simp add: thread_write_count_def fun_upd_idem)
next
  case True
  let ?th = "thread\<lparr>th_stats := stats_bc_inc (IOC_NR cmd) (th_stats thread)\<rparr>"
  let ?pr = "pr\<lparr>pr_stats := stats_bc_inc (IOC_NR cmd) (pr_stats pr)\<rparr>"
  let ?bk1 = "bk\<lparr>bk_stats := stats_bc_inc (IOC_NR cmd) (bk_stats bk)\<rparr>"
  let ?bk' = "set_thread th ?th (set_proc p ?pr ?bk1)"
  have "core ?bk' = core bk"
    using pr th by (subst core_set_thread) (simp_all add: core_set_proc core_more thread_core_def proc_core_def)
  then have "binder_inv ?bk'" using inv by (rule binder_inv_core)
  with True pr th show ?thesis
    by (intro exI [of _ ?bk'] exI [of _ ?th] exI [of _ ?pr])
      (simp add: thread_write_count_def the_proc_def the_thread_def thread_core_def)
qed

lemma thread_write_loop_inv:
  assumes "binder_inv bk" and "bk_procs bk p = Some pr" and "bk_threads bk th = Some thread"
    and "thread_write_loop fuel rb task_euid cur um p th ptr end_ptr bk = Inr (ret, bk')"
  shows "binder_inv bk' \<and> (ret = 0 \<or> ret = - EFAULT) \<and>
    (\<exists>thread'. bk_threads bk' th = Some thread' \<and> thread_core thread' = thread_core thread) \<and>
    (\<exists>pr'. bk_procs bk' p = Some pr' \<and> pr_context pr' = pr_context pr) \<and> bk_devices bk' = bk_devices bk"
  using assms
proof (induction fuel arbitrary: ptr bk pr thread)
  case 0
  then show ?case by simp
next
  case (Suc fuel)
  note prems = Suc.prems
  show ?case
  proof (cases "ptr < end_ptr \<and> th_return_error_cmd thread = BR_OK")
    case False
    with prems show ?thesis by (auto simp: the_thread_def)
  next
    case True
    show ?thesis
    proof (cases "get_user32 um ptr")
      case None
      with prems True show ?thesis by (auto simp: the_thread_def)
    next
      case (Some cmd)
      obtain bk1 thread1 pr1 where c: "thread_write_count p th cmd bk = Inr bk1" "binder_inv bk1"
        "bk_threads bk1 th = Some thread1" "thread_core thread1 = thread_core thread"
        "bk_procs bk1 p = Some pr1" "pr_context pr1 = pr_context pr" "bk_devices bk1 = bk_devices bk"
        using thread_write_count_inv [OF prems(1-3), of cmd] by auto
      show ?thesis
      proof (cases "cmd = BC_TRANSACTION \<or> cmd = BC_REPLY")
        case False
        with prems(4) True Some c(1)
        have "thread_write_loop fuel rb task_euid cur um p th (ptr + 4) end_ptr bk1 = Inr (ret, bk')"
          by (simp add: the_thread_def prems(3))
        from Suc.IH [OF c(2,5,3) this] c(4,6,7) show ?thesis by simp
      next
        case cmd: True
        show ?thesis
        proof (cases "copy_from_user um (ptr + 4) 64")
          case None
          with prems(4) True Some c cmd show ?thesis by (auto simp: the_thread_def prems(3))
        next
          case (Some bs)
          with prems(4) True \<open>get_user32 um ptr = Some cmd\<close> c(1) cmd obtain bk2 where
            t: "binder_transaction rb task_euid cur p th (tr_of_bytes bs) (cmd = BC_REPLY) bk1 = Inr bk2" and
            rest: "thread_write_loop fuel rb task_euid cur um p th (ptr + 4 + 64) end_ptr bk2 = Inr (ret, bk')"
            by (auto simp: the_thread_def prems(3) bindE_Inr_iff)
          from binder_transaction_inv [OF c(2,5,3) t] obtain pr2 where
            t': "binder_inv bk2" "bk_threads bk2 = bk_threads bk1" "bk_procs bk2 p = Some pr2"
            "pr_context pr2 = pr_context pr1" "bk_devices bk2 = bk_devices bk1" by blast
          have "bk_threads bk2 th = Some thread1" using t'(2) c(3) by simp
          from Suc.IH [OF t'(1,3) this rest] t'(4,5) c(4,6,7) show ?thesis by simp
        qed
      qed
    qed
  qed
qed

section \<open>The ioctl keeps the invariant\<close>

lemma write_read_inv:
  assumes inv: "binder_inv bk" and pr: "bk_procs bk p = Some pr" and th: "bk_threads bk th = Some thread"
    and run: "binder_ioctl_write_read rb task_euid cur p cmd arg th um bk = Inr (ret, um', bk')"
  shows "binder_inv bk' \<and> (\<exists>thread'. bk_threads bk' th = Some thread' \<and> thread_core thread' = thread_core thread)"
proof -
  have loop: "binder_inv b \<and> (\<exists>thread'. bk_threads b th = Some thread' \<and> thread_core thread' = thread_core thread)"
    if "binder_thread_write rb task_euid cur um p th buf n c bk = Inr (r, b)" for buf n c r b
    using that thread_write_loop_inv [OF inv pr th] by (auto simp: binder_thread_write_def bindE_Inr_iff Let_def simp del: thread_write_loop.simps)
  show ?thesis
    using run loop inv th
    by (auto simp: binder_ioctl_write_read_def Let_def bindE_Inr_iff case_prod_beta split: if_splits option.splits)
qed

lemma set_ctx_mgr_inv:
  assumes inv: "binder_inv bk" and pr: "bk_procs bk p = Some pr" and rb: "rb_kernel_ok rb"
  shows "\<exists>ret bk'. binder_ioctl_set_ctx_mgr rb cur p fbo bk = Inr (ret, bk') \<and> binder_inv bk' \<and>
    bk_threads bk' = bk_threads bk"
proof -
  obtain dv where dv: "bk_devices bk (pr_context pr) = Some dv" using binder_inv_proc(6) [OF inv pr] by auto
  show ?thesis
  proof (cases "dv_mgr_node dv = None \<and> (uid_valid (dv_mgr_uid dv) \<longrightarrow> dv_mgr_uid dv = cur_euid cur)")
    case False
    then show ?thesis using set_ctx_mgr_refused [OF pr dv] inv by fastforce
  next
    case True
    obtain r bk1 where alloc: "kzalloc (set_device (pr_context pr) (claim_uid cur dv) bk) = (r, bk1)" by fastforce
    have "core (set_device (pr_context pr) (claim_uid cur dv) bk) = core bk"
      by (rule core_set_device [OF dv]) (simp add: claim_uid_def)
    then have inv1: "binder_inv bk1" using kzalloc_inv [OF alloc] inv by (simp add: binder_inv_def)
    show ?thesis
    proof (cases r)
      case None
      then show ?thesis
        using set_ctx_mgr_no_memory [OF pr dv] True alloc inv1 kzalloc_simps(2) [OF alloc] by fastforce
    next
      case (Some n)
      then show ?thesis using set_ctx_mgr_ok [OF inv pr dv _ _ rb] True alloc by blast
    qed
  qed
qed

lemma ioctl_switch_inv:
  assumes inv: "binder_inv bk" and pr: "bk_procs bk p = Some pr" and th: "bk_threads bk t = Some thread"
    and rb: "rb_kernel_ok rb"
    and run: "binder_ioctl_switch rb task_euid cur p cmd arg t um bk = Inr (ret, um', bk')"
  shows "binder_inv bk' \<and> (\<exists>thread'. bk_threads bk' t = Some thread')"
proof -
  have max: "binder_inv (set_proc p (pr\<lparr>pr_max_threads := m\<rparr>) bk)" for m
    using inv pr by (intro binder_inv_core [OF core_set_proc]) (simp_all add: proc_core_def)
  have mgr: "binder_inv b \<and> bk_threads b = bk_threads bk"
    if "binder_ioctl_set_ctx_mgr rb cur p fbo bk = Inr (r, b)" for fbo r b
    using that set_ctx_mgr_inv [OF inv pr rb, of cur fbo] by auto
  consider "cmd = BINDER_WRITE_READ" | "cmd = BINDER_SET_MAX_THREADS" | "cmd = BINDER_SET_CONTEXT_MGR_EXT"
    | "cmd = BINDER_SET_CONTEXT_MGR" | "cmd = BINDER_VERSION"
    | "cmd \<notin> {BINDER_WRITE_READ, BINDER_SET_MAX_THREADS, BINDER_SET_CONTEXT_MGR_EXT, BINDER_SET_CONTEXT_MGR, BINDER_VERSION}"
    by blast
  then show ?thesis
  proof cases
    case 1
    then show ?thesis using run write_read_inv [OF inv pr th] by (simp add: binder_ioctl_switch_def) blast
  next
    case 2
    then show ?thesis using run max pr th inv
      by (auto simp: binder_ioctl_switch_def the_proc_def split: option.splits)
  next
    case 3
    then show ?thesis using run th inv
      by (auto simp: binder_ioctl_switch_def bindE_Inr_iff split: option.splits dest: mgr)
  next
    case 4
    then show ?thesis using run th
      by (auto simp: binder_ioctl_switch_def bindE_Inr_iff dest: mgr)
  next
    case 5
    then show ?thesis using run inv th
      by (auto simp: binder_ioctl_switch_def case_prod_beta Let_def split: if_splits)
  next
    case 6
    then show ?thesis using run inv th by (auto simp: binder_ioctl_switch_def)
  qed
qed

lemma binder_ioctl_inv:
  assumes inv: "binder_inv bk" and rb: "rb_kernel_ok rb"
    and run: "binder_ioctl rb task_euid cur p cmd arg um bk = Inr (ret, um', bk')"
  shows "binder_inv bk'"
proof -
  obtain pr where pr: "bk_procs bk p = Some pr"
    using run by (auto simp: binder_ioctl_def bindE_Inr_iff the_proc_def)
  show ?thesis
  proof (cases "wait_user_error bk = 0")
    case False
    then show ?thesis using run pr inv by (auto simp: binder_ioctl_def the_proc_def)
  next
    case True
    obtain r bk1 pr1 where g: "binder_get_thread rb cur p bk = Inr (r, bk1)" "binder_inv bk1"
      "\<forall>t. r = Some t \<longrightarrow> (\<exists>th. bk_threads bk1 t = Some th \<and> th_proc th = p \<and> th_pid th = cur_pid cur)"
      "bk_procs bk1 p = Some pr1"
      using get_thread_inv [OF inv pr rb, of cur] by blast
    show ?thesis
    proof (cases r)
      case None
      then show ?thesis using run pr g True by (auto simp: binder_ioctl_def the_proc_def)
    next
      case (Some t)
      with g(3) obtain th where th: "bk_threads bk1 t = Some th" by blast
      from Some run pr g(1) True obtain bk2 th2 where
        s: "binder_ioctl_switch rb task_euid cur p cmd arg t um bk1 = Inr (ret, um', bk2)" and
        th2: "the_thread bk2 t = Inr th2" "bk' = set_thread t (th2\<lparr>th_looper_need_return := False\<rparr>) bk2"
        by (auto simp: binder_ioctl_def the_proc_def bindE_Inr_iff)
      have "binder_inv bk2" using ioctl_switch_inv [OF g(2,4) th rb s] by simp
      moreover have "core bk' = core bk2"
        using th2 by (auto simp: the_thread_def thread_core_def intro: core_set_thread)
      ultimately show ?thesis by (simp add: binder_inv_def)
    qed
  qed
qed

section \<open>Opening and mapping keep the invariant\<close>

lemma binder_open_inv:
  assumes inv: "binder_inv bk"
    and run: "binder_open cur is_fs i_private private_data bk = Inr (ret, f, bk')"
  shows "binder_inv bk'"
proof -
  obtain r bk1 where alloc: "kzalloc bk = (r, bk1)" by fastforce
  have inv1: "binder_inv bk1" by (rule kzalloc_inv [OF alloc inv])
  show ?thesis
  proof (cases r)
    case None
    then show ?thesis using run alloc inv1 by (simp add: binder_open_def)
  next
    case [simp]: (Some p)
    have p: "p = bk_next bk" "bk_next bk1 = Suc (bk_next bk)" using kzalloc_core(3) [OF alloc] by simp_all
    obtain d dv where d: "(if is_fs then i_private else private_data) = Some d" "bk_devices bk1 d = Some dv"
      using run alloc by (auto simp: binder_open_def bindE_Inr_iff the_device_def Let_def)
    let ?pri = "if binder_supported_policy (cur_policy cur)
      then \<lparr>pri_sched_policy = cur_policy cur, pri_prio = cur_normal_prio cur\<rparr>
      else \<lparr>pri_sched_policy = 0, pri_prio = 0 + 120\<rparr>"
    let ?pr = "\<lparr>pr_threads = Leaf, pr_nodes = Leaf, pr_pid = cur_leader_pid cur, pr_tsk = cur_leader cur,
      pr_waiting_threads = [], pr_stats = binder_stats_zero, pr_delivered_death = [],
      pr_max_threads = 0, pr_tmp_ref = 0, pr_default_priority = ?pri,
      pr_alloc = binder_alloc_init (cur_leader_pid cur) binder_alloc_zero, pr_context = d\<rparr>"
    let ?bk2 = "binder_stats_created BINDER_STAT_PROC (set_device d (dv\<lparr>dv_ref := dv_ref dv + 1\<rparr>) bk1)"
    let ?bk3 = "set_proc p ?pr (?bk2\<lparr>bk_todo := (bk_todo ?bk2)(ProcTodo p := [])\<rparr>)"
    have bk': "bk' = ?bk3\<lparr>bk_proc_list := p # bk_proc_list ?bk3\<rparr>"
      using run alloc d by (simp add: binder_open_def the_device_def Let_def)
    have cinv: "core_inv (core bk1)" using inv1 by (simp add: binder_inv_def)
    have todo: "bk_todo bk1 l = []" for l using core_invD(5) [OF cinv] by (simp add: core_sel)
    have "core bk' = (core bk1)\<lparr>c_procs := (c_procs (core bk1))(p \<mapsto> proc_core ?pr)\<rparr>"
      unfolding bk' core_more using d
      by (simp only: core_updates(1)) (simp add: core_todo todo core_set_device)
    moreover have "core_inv ((core bk1)\<lparr>c_procs := (c_procs (core bk1))(p \<mapsto> proc_core ?pr)\<rparr>)"
      using cinv p binder_inv_fresh(1) [OF inv, of p] kzalloc_simps(1) [OF alloc] d(2) binder_alloc_init_unmapped
      by (intro core_inv_add_proc) (simp_all add: core_sel proc_core_def)
    ultimately show ?thesis by (simp add: binder_inv_def)
  qed
qed

lemma vma_close_states:
  "alloc_unmapped alloc \<Longrightarrow> alloc_unmapped (binder_alloc_vma_close alloc)"
  "alloc_mapped bufs (binder_alloc_vma_close alloc) = alloc_mapped bufs alloc"
  by (simp_all add: alloc_unmapped_def alloc_mapped_def binder_alloc_vma_close_def binder_alloc_set_vma_def
      cong: list.case_cong option.case_cong)

lemma binder_vma_close_inv:
  assumes inv: "binder_inv bk" and run: "binder_vma_close p bk = Inr bk'"
  shows "binder_inv bk'"
proof -
  obtain pr where pr: "bk_procs bk p = Some pr" using run by (auto simp: binder_vma_close_def bindE_Inr_iff the_proc_def)
  let ?al = "binder_alloc_vma_close (pr_alloc pr)"
  have bk': "bk' = set_proc p (pr\<lparr>pr_alloc := ?al\<rparr>) bk" using run pr by (simp add: binder_vma_close_def the_proc_def)
  have cinv: "core_inv (core bk)" using inv by (simp add: binder_inv_def)
  have pc: "c_procs (core bk) p = Some (proc_core pr)" using pr by (simp add: core_sel)
  have "alloc_unmapped ?al \<or> alloc_mapped (ah_bufs (bk_heap bk)) ?al"
    using binder_inv_proc(1) [OF inv pr]
    by (auto simp: proc_ok_def proc_core_def core_sel vma_close_states)
  then have "core_inv ((core bk)\<lparr>c_heap := bk_heap bk, c_procs := (c_procs (core bk))(p \<mapsto> (proc_core pr)\<lparr>pc_alloc := ?al\<rparr>)\<rparr>)"
    using core_invD(7,9) [OF cinv]
    by (intro core_inv_map [OF cinv pc]) (auto simp: core_sel fresh_from_def)
  moreover have "core bk' = (core bk)\<lparr>c_heap := bk_heap bk, c_procs := (c_procs (core bk))(p \<mapsto> (proc_core pr)\<lparr>pc_alloc := ?al\<rparr>)\<rparr>"
    unfolding bk' by (simp add: core_updates proc_core_def) (simp add: core_def)
  ultimately show ?thesis by (simp add: binder_inv_def)
qed

lemma binder_mmap_inv:
  assumes inv: "binder_inv bk" and rb: "rb_kernel_ok rb" and vma: "vm_start vma < vm_end vma"
    and run: "binder_mmap rb kcalloc cur p vma bk = Inr (ret, vma', f, bk')"
  shows "binder_inv bk'"
proof -
  obtain pr where pr: "bk_procs bk p = Some pr" using run by (auto simp: binder_mmap_def bindE_Inr_iff the_proc_def)
  show ?thesis
  proof (cases "pr_tsk pr \<noteq> cur_leader cur \<or> vm_flags vma AND VM_WRITE \<noteq> 0")
    case True
    then show ?thesis using run pr inv by (auto simp: binder_mmap_def the_proc_def split: if_splits)
  next
    case False
    let ?vma = "vma\<lparr>vm_flags := (vm_flags vma OR (VM_DONTCOPY OR VM_MIXEDMAP)) AND NOT VM_MAYWRITE\<rparr>"
    define alloc where "alloc = pr_alloc pr"
    obtain b bk1 where k: "(if kcalloc \<and> al_buffer_size alloc = 0 then kzalloc bk else (None, bk)) = (b, bk1)" by fastforce
    have inv1: "binder_inv bk1" and pr1: "bk_procs bk1 p = Some pr" and heap: "bk_heap bk1 = bk_heap bk"
      using k inv pr kzalloc_inv [of bk b bk1] kzalloc_simps [of bk b bk1] by (auto split: if_splits)
    have b: "b = Some a \<Longrightarrow> ah_bufs (bk_heap bk) a = None \<and> a < bk_next bk1" for a
      using k kzalloc_core(3) [of bk b bk1 a] binder_inv_fresh(5) [OF inv, of a] by (auto split: if_splits)
    have lock: "\<not> ah_mmap_lock (bk_heap bk)" using inv core_invD(9) by (force simp: binder_inv_def core_sel)
    have state: "alloc_unmapped alloc \<or> alloc_mapped (ah_bufs (bk_heap bk)) alloc"
      using binder_inv_proc(1) [OF inv pr] by (simp add: proc_ok_def proc_core_def core_sel alloc_def)
    have "\<exists>ret' al h. binder_alloc_mmap_handler rb kcalloc b alloc ?vma (bk_heap bk) = Inr (ret', al, h) \<and>
      \<not> ah_mmap_lock h \<and> (alloc_unmapped al \<or> alloc_mapped (ah_bufs h) al) \<and>
      (\<forall>a x. ah_bufs (bk_heap bk) a = Some x \<longrightarrow> ah_bufs h a = Some x) \<and>
      (\<forall>a. ah_bufs h a \<noteq> None \<longrightarrow> ah_bufs (bk_heap bk) a \<noteq> None \<or> b = Some a)"
    proof (cases "alloc_mapped (ah_bufs (bk_heap bk)) alloc \<or> \<not> kcalloc \<or> b = None")
      case True
      then show ?thesis using mmap_failure_outcome [OF lock state True, of rb ?vma] lock state by auto
    next
      case no: False
      then obtain a where a: "b = Some a" "kcalloc" "alloc_unmapped alloc" using state by auto
      have "vm_start ?vma < vm_end ?vma" using vma by simp
      from mmap_success_heap [OF rb lock a(3) this, of a] b [OF a(1)] a show ?thesis by auto
    qed
    then obtain ret' al h where h: "binder_alloc_mmap_handler rb kcalloc b alloc ?vma (bk_heap bk) = Inr (ret', al, h)"
      "\<not> ah_mmap_lock h" "alloc_unmapped al \<or> alloc_mapped (ah_bufs h) al"
      "\<And>a x. ah_bufs (bk_heap bk) a = Some x \<Longrightarrow> ah_bufs h a = Some x"
      "\<And>a. ah_bufs h a \<noteq> None \<Longrightarrow> ah_bufs (bk_heap bk) a \<noteq> None \<or> b = Some a" by blast
    have bk': "bk' = set_proc p (pr\<lparr>pr_alloc := al\<rparr>) (bk1\<lparr>bk_heap := h\<rparr>)"
      using run pr False k h(1) heap
      by (auto simp: binder_mmap_def the_proc_def Let_def alloc_def [symmetric] split: prod.splits if_splits)
    have cinv: "core_inv (core bk1)" using inv1 by (simp add: binder_inv_def)
    have pc: "c_procs (core bk1) p = Some (proc_core pr)" using pr1 by (simp add: core_sel)
    have "ah_bufs h a = None" if "bk_next bk1 \<le> a" for a
      using h(5) [of a] b [of a] binder_inv_fresh(5) [OF inv1 that] that heap by (cases "ah_bufs h a") auto
    then have "core_inv ((core bk1)\<lparr>c_heap := h, c_procs := (c_procs (core bk1))(p \<mapsto> (proc_core pr)\<lparr>pc_alloc := al\<rparr>)\<rparr>)"
      using h(2-4) heap by (intro core_inv_map [OF cinv pc]) (auto simp: core_sel)
    moreover have "core bk' = (core bk1)\<lparr>c_heap := h, c_procs := (c_procs (core bk1))(p \<mapsto> (proc_core pr)\<lparr>pc_alloc := al\<rparr>)\<rparr>"
      unfolding bk' by (simp add: core_updates proc_core_def)
    ultimately show ?thesis by (simp add: binder_inv_def)
  qed
qed

section \<open>The module as a transition system\<close>

text \<open>
  One step is one file operation by any task, with any user memory, that ends without a
  trap; \<open>rb\<close> and \<open>task_euid\<close> are the kernel's.
\<close>

inductive binder_step :: "rb_kernel \<Rightarrow> (nat \<Rightarrow> u32) \<Rightarrow> binder_kernel \<Rightarrow> binder_kernel \<Rightarrow> bool" for rb task_euid where
  step_open: "binder_open cur is_fs i_private private_data bk = Inr (ret, f, bk') \<Longrightarrow> binder_step rb task_euid bk bk'"
| step_ioctl: "binder_ioctl rb task_euid cur p cmd arg um bk = Inr (ret, um', bk') \<Longrightarrow> binder_step rb task_euid bk bk'"
| step_mmap: "binder_mmap rb kcalloc cur p vma bk = Inr (ret, vma', f, bk') \<Longrightarrow> vm_start vma < vm_end vma \<Longrightarrow>
    binder_step rb task_euid bk bk'"
| step_vma_close: "binder_vma_close p bk = Inr bk' \<Longrightarrow> binder_step rb task_euid bk bk'"

text \<open>
  The module after it was loaded, with devices nobody manages yet. \<open>oks\<close> are the outcomes
  of the allocations to come.
\<close>

definition binder_loaded :: "(nat \<Rightarrow> binder_device option) \<Rightarrow> nat \<Rightarrow> bool list \<Rightarrow> binder_kernel" where
  "binder_loaded devices next oks =
     \<lparr>bk_procs = Map.empty, bk_proc_list = [], bk_threads = Map.empty, bk_nodes = Map.empty, bk_dead_nodes = [],
      bk_devices = devices, bk_transactions = Map.empty, bk_completes = [], bk_todo = (\<lambda>_. []), bk_on = Map.empty,
      bk_last_id = 0, bk_stats = binder_stats_zero,
      bk_tlog = \<lparr>tl_cur = - 1, tl_full = False, tl_entry = replicate TLOG_SIZE tlog_entry_zero\<rparr>,
      bk_tlog_failed = \<lparr>tl_cur = - 1, tl_full = False, tl_entry = replicate TLOG_SIZE tlog_entry_zero\<rparr>,
      bk_heap = \<lparr>ah_mmap_lock = False, ah_bufs = Map.empty, ah_mm_count = (\<lambda>_. 1)\<rparr>, bk_stop_on_user_error = 0,
      bk_wakeups = [], bk_kzalloc = oks, bk_next = next\<rparr>"

definition devices_fresh :: "(nat \<Rightarrow> binder_device option) \<Rightarrow> nat \<Rightarrow> bool" where
  "devices_fresh devices next \<longleftrightarrow>
     (\<forall>d dv. devices d = Some dv \<longrightarrow> d < next \<and> dv_mgr_node dv = None)"

definition binder_start :: "binder_kernel \<Rightarrow> bool" where
  "binder_start bk \<longleftrightarrow> (\<exists>devices next oks. bk = binder_loaded devices next oks \<and> devices_fresh devices next)"

lemma binder_loaded_inv:
  assumes "devices_fresh devices next"
  shows "binder_inv (binder_loaded devices next oks)"
proof -
  have "devices a = None" if "next \<le> a" for a
    using assms that by (cases "devices a") (auto simp: devices_fresh_def not_le [symmetric])
  moreover have "map_option dv_mgr_node (devices d) \<noteq> Some (Some n)" for d n
    using assms by (cases "devices d") (auto simp: devices_fresh_def)
  ultimately show ?thesis
    by (auto simp: binder_inv_def core_inv_def core_def binder_loaded_def fresh_from_def)
qed

lemma binder_step_inv:
  assumes "rb_kernel_ok rb" and "binder_step rb task_euid bk bk'" and "binder_inv bk"
  shows "binder_inv bk'"
  using assms(2)
proof cases
  case step_open
  then show ?thesis by (rule binder_open_inv [OF assms(3)])
next
  case step_ioctl
  then show ?thesis by (rule binder_ioctl_inv [OF assms(3,1)])
next
  case step_mmap
  from step_mmap(2,1) show ?thesis by (rule binder_mmap_inv [OF assms(3,1)])
next
  case step_vma_close
  then show ?thesis by (rule binder_vma_close_inv [OF assms(3)])
qed

lemma binder_system:
  "rb_kernel_ok rb \<Longrightarrow> invariant_system binder_start (binder_step rb task_euid) binder_inv"
  by unfold_locales (auto simp: binder_start_def intro: binder_loaded_inv binder_step_inv)

interpretation binder_plain: invariant_system binder_start "binder_step rb_kernel_plain task_euid" binder_inv for task_euid
  by (rule binder_system [OF rb_kernel_plain_ok])

end
