(* ===== verification/Binder_Demo.thy ===== *)
theory Binder_Demo
  imports Binder_Steps
begin

text \<open>
  A run of the binder module on concrete input, for the witnesses of the properties: one
  device, one process that opens it, becomes its context manager and sends itself a
  transaction.
\<close>

definition demo_device :: binder_device where
  "demo_device = \<lparr>dv_mgr_node = None, dv_mgr_uid = INVALID_UID, dv_name = Some ''binder'', dv_minor = 1,
     dv_inode = Some 0, dv_ref = 1\<rparr>"

definition demo_task :: task where
  "demo_task = \<lparr>cur_task = 70, cur_pid = 101, cur_leader = 70, cur_leader_pid = 101, cur_policy = 0,
     cur_normal_prio = 120, cur_euid = 1000\<rparr>"

definition demo0 :: binder_kernel where
  "demo0 = binder_loaded [0 \<mapsto> demo_device] 5 [True, True, True, True, True, True]"

definition state_of :: "binder_kernel \<Rightarrow> ('a \<times> 'b \<times> binder_kernel) chk \<Rightarrow> binder_kernel" where
  "state_of bk r = (case r of Inr (_, _, bk') \<Rightarrow> bk' | Inl _ \<Rightarrow> bk)"

definition demo1 :: binder_kernel where
  "demo1 = state_of demo0 (binder_open demo_task True (Some 0) None demo0)"

definition no_mem :: user_mem where "no_mem = (\<lambda>_. None)"

definition demo2 :: binder_kernel where
  "demo2 = state_of demo1 (binder_ioctl rb_kernel_plain (\<lambda>_. 1000) demo_task 5 BINDER_SET_CONTEXT_MGR 0 no_mem demo1)"

lemma demo0_start: "binder_start demo0" "binder_inv demo0"
proof -
  have "devices_fresh [0 \<mapsto> demo_device] 5" by (simp add: devices_fresh_def demo_device_def)
  then show "binder_start demo0" "binder_inv demo0"
    unfolding binder_start_def demo0_def by (blast intro: binder_loaded_inv)+
qed

lemma demo1_open: "binder_open demo_task True (Some 0) None demo0 = Inr (0, Some 5, demo1)"
  by (simp add: demo1_def state_of_def binder_open_def kzalloc_def demo0_def binder_loaded_def the_device_def Let_def)

lemma demo1_simps:
  "bk_procs demo1 5 = Some \<lparr>pr_threads = Leaf, pr_nodes = Leaf, pr_pid = 101, pr_tsk = 70,
     pr_waiting_threads = [], pr_stats = binder_stats_zero, pr_delivered_death = [], pr_max_threads = 0, pr_tmp_ref = 0,
     pr_default_priority = \<lparr>pri_sched_policy = 0, pri_prio = 120\<rparr>,
     pr_alloc = binder_alloc_init 101 binder_alloc_zero, pr_context = 0\<rparr>"
  "bk_threads demo1 = Map.empty" "bk_nodes demo1 = Map.empty" "bk_devices demo1 0 = Some (demo_device\<lparr>dv_ref := 2\<rparr>)"
  "bk_kzalloc demo1 = [True, True, True, True, True]" "bk_next demo1 = 6" "bk_last_id demo1 = 0" "bk_stop_on_user_error demo1 = 0"
  by (simp_all add: demo1_def state_of_def binder_open_def kzalloc_def demo0_def binder_loaded_def the_device_def Let_def
      demo_task_def demo_device_def binder_supported_policy_def is_fair_policy_def)

text \<open>The thread gets address 6, the node address 7.\<close>

lemmas demo_run = the_proc_def the_thread_def the_node_def the_device_def binder_ioctl_def wait_user_error_def
  binder_get_thread_def binder_get_thread_ilocked_def kzalloc_def Let_def rb_insert_def rb_kernel_plain_def
  binder_ioctl_switch_def binder_ioctl_set_ctx_mgr_def binder_new_node_def binder_init_node_ilocked_def
  binder_put_node_def binder_dec_node_tmpref_def binder_dec_node_nilocked_def demo_device_def demo_task_def uid_valid_def
  binder_node_zero_def

lemma demo2_ioctl:
  "binder_ioctl rb_kernel_plain (\<lambda>_. 1000) demo_task 5 BINDER_SET_CONTEXT_MGR 0 no_mem demo1 = Inr (0, no_mem, demo2)"
  by (simp add: demo2_def state_of_def demo1_simps demo_run)

lemma demo2_simps:
  "map_option pr_nodes (bk_procs demo2 5) = Some (Node Leaf 7 Leaf)"
  "map_option pr_threads (bk_procs demo2 5) = Some (Node Leaf 6 Leaf)"
  "map_option pr_context (bk_procs demo2 5) = Some 0"
  "map_option th_pid (bk_threads demo2 6) = Some 101"
  "map_option nd_proc (bk_nodes demo2 7) = Some (Some 5)"
  "map_option nd_local_strong_refs (bk_nodes demo2 7) = Some 1"
  "map_option dv_mgr_node (bk_devices demo2 0) = Some (Some 7)"
  "map_option dv_name (bk_devices demo2 0) = Some (Some ''binder'')"
  "bk_kzalloc demo2 = [True, True, True]" "bk_next demo2 = 8"
  by (simp_all add: demo2_def state_of_def demo1_simps demo_run)

lemma demo_reachable:
  "reachable binder_start (binder_step rb_kernel_plain (\<lambda>_. 1000)) demo2"
proof -
  have "reachable binder_start (binder_step rb_kernel_plain (\<lambda>_. 1000)) demo0"
    by (rule reach_init) (rule demo0_start)
  moreover have "binder_step rb_kernel_plain (\<lambda>_. 1000) demo0 demo1" by (rule step_open [OF demo1_open])
  moreover have "binder_step rb_kernel_plain (\<lambda>_. 1000) demo1 demo2" by (rule step_ioctl [OF demo2_ioctl])
  ultimately show ?thesis by (blast intro: reach_step)
qed

lemma demo2_inv: "binder_inv demo2"
  by (rule binder_plain.reachable_inv [OF demo_reachable])

end
