(* ===== verification/Binder_Props.thy ===== *)
theory Binder_Props
  imports Binder_Demo
begin

text \<open>
  The properties of the binder device: the objects of a reachable state, threads, the
  context manager, transactions and their log, the write loop, mapping.
\<close>

section \<open>Reachable states\<close>

abbreviation binder_reachable :: "rb_kernel \<Rightarrow> (nat \<Rightarrow> u32) \<Rightarrow> binder_kernel \<Rightarrow> bool" where
  "binder_reachable rb task_euid \<equiv> reachable binder_start (binder_step rb task_euid)"

lemma binder_reachable_inv: "rb_kernel_ok rb \<Longrightarrow> binder_reachable rb task_euid bk \<Longrightarrow> binder_inv bk"
  by (rule invariant_system.reachable_inv [OF binder_system])

text \<open>C6: whatever the tasks of the machine do with the device files, the context manager of a
  device is an allocated node; it belongs to a process that opened this device, is found in
  that process's tree, holds the weak reference it was given and no temporary one.\<close>

theorem context_manager_never_dangles:
  assumes "rb_kernel_ok rb" and "binder_reachable rb task_euid bk"
    and "bk_devices bk d = Some dv" and "dv_mgr_node dv = Some n"
  shows "\<exists>nd p pr. bk_nodes bk n = Some nd \<and> nd_proc nd = Some p \<and> bk_procs bk p = Some pr \<and>
    pr_context pr = d \<and> rb_find (node_key bk) (nd_ptr nd) (pr_nodes pr) = Some n \<and>
    nd_tmp_refs nd = 0 \<and> nd_local_weak_refs nd = 1"
proof -
  have inv: "binder_inv bk" by (rule binder_reachable_inv [OF assms(1,2)])
  obtain nd p pr where n: "bk_nodes bk n = Some nd" "nd_proc nd = Some p" "bk_procs bk p = Some pr"
    "pr_context pr = d" "nd_tmp_refs nd = 0" "nd_local_weak_refs nd = 1"
    using mgr_node_held [OF inv assms(3,4)] by blast
  have cinv: "core_inv (core bk)" using inv by (simp add: binder_inv_def)
  have "n \<in> set_tree (pr_nodes pr)"
    using core_invD(3) [OF cinv, of n "node_core nd"] n
    by (auto simp: core_sel node_ok_def node_core_def nodes_of_def proc_core_def)
  then have "rb_find (node_key bk) (nd_ptr nd) (pr_nodes pr) = Some n"
    using rb_plain.find_in [OF binder_inv_proc(5) [OF inv n(3)]] n(1) by (simp add: node_key_def)
  with n show ?thesis by blast
qed

lemma context_manager_never_dangles_witness:
  "\<exists>nd p pr. bk_nodes demo2 7 = Some nd \<and> nd_proc nd = Some p \<and> bk_procs demo2 p = Some pr \<and>
     rb_find (node_key demo2) (nd_ptr nd) (pr_nodes pr) = Some 7"
proof -
  obtain dv where "bk_devices demo2 0 = Some dv" "dv_mgr_node dv = Some 7" using demo2_simps(7) by auto
  from context_manager_never_dangles [OF rb_kernel_plain_ok demo_reachable this] show ?thesis by blast
qed

text \<open>C21: in a reachable state the tree of a process holds exactly the threads that belong to
  the process, and no two of them have the same pid; none of them has a transaction on
  its stack.\<close>

theorem threads_of_process:
  assumes "rb_kernel_ok rb" and "binder_reachable rb task_euid bk" and "bk_procs bk p = Some pr"
  shows "set_tree (pr_threads pr) = {t. \<exists>th. bk_threads bk t = Some th \<and> th_proc th = p} \<and>
    inj_on (thread_key bk) (set_tree (pr_threads pr)) \<and>
    (\<forall>t \<in> set_tree (pr_threads pr). map_option th_transaction_stack (bk_threads bk t) = Some None)"
proof -
  have inv: "binder_inv bk" by (rule binder_reachable_inv [OF assms(1,2)])
  have cinv: "core_inv (core bk)" using inv by (simp add: binder_inv_def)
  have own: "\<exists>th. bk_threads bk t = Some th \<and> th_proc th = p" if "t \<in> set_tree (pr_threads pr)" for t
    using binder_inv_proc(1) [OF inv assms(3)] that
    by (auto simp: proc_ok_def proc_core_def thread_owner_def core_sel thread_core_def)
  have back_own: "th_transaction_stack th = None \<and> (th_proc th = p \<longrightarrow> t \<in> set_tree (pr_threads pr))"
    if "bk_threads bk t = Some th" for t th
    using core_invD(2) [OF cinv, of t "thread_core th"] that assms(3)
    by (auto simp: core_sel thread_ok_def thread_core_def threads_of_def proc_core_def)
  have "inj_on (thread_key bk) (set_tree (pr_threads pr))"
    using key_sorted_distinct [OF binder_inv_proc(4) [OF inv assms(3)]] by simp
  with own back_own show ?thesis by (auto, fastforce)
qed

lemma threads_of_process_witness:
  "{t. \<exists>th. bk_threads demo2 t = Some th \<and> th_proc th = 5} = {6}"
proof -
  obtain pr where pr: "bk_procs demo2 5 = Some pr" "pr_threads pr = Node Leaf 6 Leaf" using demo2_simps(2) by auto
  from threads_of_process [OF rb_kernel_plain_ok demo_reachable pr(1)] pr(2) show ?thesis by simp
qed

text \<open>No operation queues work: in every reachable state all work lists of processes and
  threads are empty and no work item is linked. A transaction is recorded but not
  delivered.\<close>

theorem no_work_is_queued:
  assumes "rb_kernel_ok rb" and "binder_reachable rb task_euid bk"
  shows "bk_todo bk l = [] \<and> bk_on bk w = None"
  using binder_reachable_inv [OF assms] core_invD(5,6) [of "core bk"] by (simp add: binder_inv_def core_sel)

lemma no_work_is_queued_witness: "bk_todo demo2 (ProcTodo 5) = []"
  using no_work_is_queued [OF rb_kernel_plain_ok demo_reachable, of "ProcTodo 5"] by blast

section \<open>Threads\<close>

text \<open>\<open>binder_get_thread\<close> returns the caller's thread of the process, creating it at the
  first call: the result has the caller's pid, a second call returns the same thread
  and changes nothing, and the threads of other pids are found as before.\<close>

theorem get_thread_idempotent:
  assumes "binder_inv bk" and "bk_procs bk p = Some pr" and "rb_kernel_ok rb"
    and "binder_get_thread rb cur p bk = Inr (Some t, bk')"
  shows "binder_get_thread rb cur p bk' = Inr (Some t, bk') \<and> thread_key bk' t = cur_pid cur \<and>
    (\<exists>pr'. bk_procs bk' p = Some pr' \<and>
       (\<forall>k. k \<noteq> cur_pid cur \<longrightarrow> rb_find (thread_key bk') k (pr_threads pr') = rb_find (thread_key bk) k (pr_threads pr)))"
proof (cases "rb_find (thread_key bk) (cur_pid cur) (pr_threads pr)")
  case (Some u)
  with assms get_thread_found [OF assms(1,2) Some, of rb] thread_found [OF assms(1,2)] show ?thesis by auto
next
  case None
  have k: "kzalloc bk = (Some t, snd (kzalloc bk))"
  proof (cases "kzalloc bk")
    case (Pair r b)
    with assms(4) get_thread_no_memory [OF assms(1,2) None, of b rb]
      get_thread_new [OF assms(1-3) None, of _ b] show ?thesis by (cases r) auto
  qed
  obtain ts where g: "binder_inv bk'" "bk_threads bk' = (bk_threads bk)(t \<mapsto> new_thread_of cur p)"
    "bk_procs bk' = (bk_procs bk)(p \<mapsto> pr\<lparr>pr_threads := ts\<rparr>)"
    "inorder ts = inorder (rb_link (thread_key bk') t (pr_threads pr))"
    using get_thread_new [OF assms(1-3) None k] assms(4) by auto
  have pr': "bk_procs bk' p = Some (pr\<lparr>pr_threads := ts\<rparr>)" using g(3) by simp
  have key: "thread_key bk' t = cur_pid cur" using g(2) by (simp add: thread_key_def new_thread_of_def)
  have fresh: "t \<notin> set_tree (pr_threads pr)"
    using binder_inv_proc(2) [OF assms(1,2)] binder_inv_fresh(2) [OF assms(1), of t] kzalloc_core(3) [OF k refl]
    by (auto simp: list_all_iff)
  have keys: "thread_key bk' u = thread_key bk u" if "u \<in> set_tree (pr_threads pr)" for u
    using that fresh g(2) by (auto simp: thread_key_def)
  have set_ts: "set_tree ts = insert t (set_tree (pr_threads pr))"
    using arg_cong [OF g(4), of set] by (simp add: set_rb_link)
  have found: "rb_find (thread_key bk') k ts = Some u \<longleftrightarrow> u \<in> set_tree ts \<and> thread_key bk' u = k" for k u
    using thread_found [OF g(1) pr'] by simp
  have "binder_get_thread rb cur p bk' = Inr (Some t, bk')"
    using get_thread_found [OF g(1) pr'] found key set_ts by simp
  moreover have "rb_find (thread_key bk') k ts = rb_find (thread_key bk) k (pr_threads pr)" if "k \<noteq> cur_pid cur" for k
  proof -
    have "rb_find (thread_key bk') k ts = Some u \<longleftrightarrow> rb_find (thread_key bk) k (pr_threads pr) = Some u" for u
      using found thread_found [OF assms(1,2)] that key keys set_ts by auto
    then show ?thesis by (metis not_Some_eq)
  qed
  ultimately show ?thesis using key pr' by auto
qed

lemma get_thread_idempotent_witness:
  "\<exists>t bk'. binder_get_thread rb_kernel_plain demo_task 5 demo1 = Inr (Some t, bk') \<and>
     binder_get_thread rb_kernel_plain demo_task 5 bk' = Inr (Some t, bk') \<and> thread_key bk' t = 101"
proof -
  have inv: "binder_inv demo1" by (rule binder_open_inv [OF demo0_start(2) demo1_open])
  have "\<exists>bk'. binder_get_thread rb_kernel_plain demo_task 5 demo1 = Inr (Some 6, bk')"
    by (simp add: demo_run demo1_simps)
  then obtain bk' where run: "binder_get_thread rb_kernel_plain demo_task 5 demo1 = Inr (Some 6, bk')" by blast
  from get_thread_idempotent [OF inv demo1_simps(1) rb_kernel_plain_ok run] run show ?thesis
    by (auto simp: demo_task_def)
qed

section \<open>The context manager\<close>

text \<open>\<open>BINDER_SET_CONTEXT_MGR\<close> on a state that satisfies the invariant. It never traps; a
  device that has a manager refuses with \<open>-EBUSY\<close>, another uid than the one that managed
  the device before with \<open>-EPERM\<close>, both with the state unchanged; a failed allocation
  gives \<open>-EPERM\<close>. Otherwise the caller's process gets the node, the device points to
  it and remembers the uid, and no other node or process changes.\<close>

theorem set_ctx_mgr_outcome:
  assumes "binder_inv bk" and "bk_procs bk p = Some pr" and "bk_devices bk (pr_context pr) = Some dv"
    and "rb_kernel_ok rb"
  shows "\<exists>ret bk'. binder_ioctl_set_ctx_mgr rb cur p fbo bk = Inr (ret, bk') \<and> binder_inv bk' \<and>
    (if dv_mgr_node dv \<noteq> None then ret = - EBUSY \<and> bk' = bk
     else if uid_valid (dv_mgr_uid dv) \<and> dv_mgr_uid dv \<noteq> cur_euid cur then ret = - EPERM \<and> bk' = bk
     else if fst (kzalloc bk) = None then ret = - EPERM \<and> bk_nodes bk' = bk_nodes bk
     else ret = 0 \<and> bk_nodes bk' = (bk_nodes bk)(bk_next bk \<mapsto> mgr_node_of p (bk_last_id bk + 1) fbo) \<and>
       bk_devices bk' = (bk_devices bk)(pr_context pr \<mapsto>
         dv\<lparr>dv_mgr_node := Some (bk_next bk), dv_mgr_uid := if uid_valid (dv_mgr_uid dv) then dv_mgr_uid dv else cur_euid cur\<rparr>) \<and>
       (\<exists>t. inorder t = [bk_next bk] \<and> bk_procs bk' = (bk_procs bk)(p \<mapsto> pr\<lparr>pr_nodes := t\<rparr>)))"
proof (cases "dv_mgr_node dv = None \<and> (uid_valid (dv_mgr_uid dv) \<longrightarrow> dv_mgr_uid dv = cur_euid cur)")
  case False
  note refused = set_ctx_mgr_refused(1) [OF assms(2,3), of rb cur fbo] set_ctx_mgr_refused(2) [OF assms(2,3), of cur rb fbo]
  show ?thesis
    by (rule exI [of _ "if dv_mgr_node dv \<noteq> None then - EBUSY else - EPERM"], rule exI [of _ bk])
      (use refused False assms(1) in auto)
next
  case True
  let ?bk0 = "set_device (pr_context pr) (claim_uid cur dv) bk"
  obtain r bk1 where alloc: "kzalloc ?bk0 = (r, bk1)" by fastforce
  have fst: "fst (kzalloc bk) = r" using alloc by (auto simp: kzalloc_def split: list.splits bool.splits)
  have uid: "(claim_uid cur dv)\<lparr>dv_mgr_node := m\<rparr> =
    dv\<lparr>dv_mgr_node := m, dv_mgr_uid := if uid_valid (dv_mgr_uid dv) then dv_mgr_uid dv else cur_euid cur\<rparr>" for m
    by (simp add: claim_uid_def)
  show ?thesis
  proof (cases r)
    case None
    have "core ?bk0 = core bk" by (rule core_set_device [OF assms(3)]) (simp add: claim_uid_def)
    then have "binder_inv bk1" using kzalloc_inv [OF alloc] assms(1) by (simp add: binder_inv_def)
    with None fst True set_ctx_mgr_no_memory [OF assms(2,3), of cur bk1 rb fbo] alloc kzalloc_simps(3) [OF alloc]
    show ?thesis by auto
  next
    case (Some n)
    from set_ctx_mgr_ok [OF assms(1-3) _ _ assms(4), of cur n bk1 fbo] True alloc Some
    obtain bk' t where s: "binder_ioctl_set_ctx_mgr rb cur p fbo bk = Inr (0, bk')" "binder_inv bk'" "n = bk_next bk"
      "bk_nodes bk' = (bk_nodes bk)(n \<mapsto> mgr_node_of p (bk_last_id bk + 1) fbo)"
      "bk_procs bk' = (bk_procs bk)(p \<mapsto> pr\<lparr>pr_nodes := t\<rparr>)" "inorder t = [n]"
      "bk_devices bk' = (bk_devices bk)(pr_context pr \<mapsto> (claim_uid cur dv)\<lparr>dv_mgr_node := Some n\<rparr>)" by auto
    have "bk_devices bk' = (bk_devices bk)(pr_context pr \<mapsto>
         dv\<lparr>dv_mgr_node := Some (bk_next bk), dv_mgr_uid := if uid_valid (dv_mgr_uid dv) then dv_mgr_uid dv else cur_euid cur\<rparr>)"
      using s(7,3) uid by simp
    then show ?thesis using s True fst Some by (intro exI [of _ 0] exI [of _ bk']) auto
  qed
qed

lemma set_ctx_mgr_outcome_witness:
  "\<exists>bk'. binder_ioctl_set_ctx_mgr rb_kernel_plain demo_task 5 None demo1 = Inr (0, bk') \<and>
     map_option dv_mgr_node (bk_devices bk' 0) = Some (Some 6)"
proof -
  have inv: "binder_inv demo1" by (rule binder_open_inv [OF demo0_start(2) demo1_open])
  have d: "bk_devices demo1 (pr_context (the (bk_procs demo1 5))) = Some (demo_device\<lparr>dv_ref := 2\<rparr>)"
    by (simp add: demo1_simps)
  have p: "bk_procs demo1 5 = Some (the (bk_procs demo1 5))" by (simp add: demo1_simps)
  from set_ctx_mgr_outcome [OF inv p d rb_kernel_plain_ok, of demo_task None] show ?thesis
    by (auto simp: demo_device_def uid_valid_def kzalloc_def demo1_simps)
qed

section \<open>Transactions\<close>

text \<open>C12: a transaction command on a state that satisfies the invariant. It is carried out exactly
  for a call to handle 0 of a device that has a manager and a name, with memory for the
  transaction: then the manager's node gains one strong and keeps no temporary
  reference, its process one temporary reference, a transaction structure describes the
  caller, and nothing is queued or woken. Every other input (a reply, another handle, no
  manager, no memory) makes the driver dereference a null pointer.\<close>

theorem transaction_outcome:
  assumes "binder_inv bk" and "bk_procs bk p = Some pr" and "bk_threads bk th = Some thread"
    and "bk_devices bk (pr_context pr) = Some dv"
  shows "if transaction_handled bk dv tr reply
    then \<exists>bk' n nd tp target. binder_transaction rb task_euid cur p th tr reply bk = Inr bk' \<and> binder_inv bk' \<and>
      dv_mgr_node dv = Some n \<and> bk_nodes bk n = Some nd \<and> nd_proc nd = Some tp \<and> bk_procs bk tp = Some target \<and>
      transaction_effect n nd tp target (bk_next bk)
        (transaction_record cur (task_euid (pr_tsk pr)) (bk_last_id bk + 1) th tp (pr_default_priority target) tr False) bk bk'
    else binder_transaction rb task_euid cur p th tr reply bk = Inl NullDeref"
proof (cases "transaction_handled bk dv tr reply")
  case False
  with binder_transaction_unhandled [OF assms] show ?thesis by simp
next
  case True
  then obtain n name oks where n: "dv_mgr_node dv = Some n" "dv_name dv = Some name" "bk_kzalloc bk = True # oks"
    "tr_handle tr = 0" "\<not> reply"
    by (auto simp: transaction_handled_def split: list.splits bool.splits)
  from mgr_node_held [OF assms(1,4) n(1)] obtain nd tp target where
    nd: "bk_nodes bk n = Some nd" "nd_proc nd = Some tp" "bk_procs bk tp = Some target" by blast
  from binder_transaction_ok [OF assms n(1,2) nd n(3,4), of rb task_euid cur] obtain bk' where
    t: "binder_transaction rb task_euid cur p th tr False bk = Inr bk'"
    "transaction_effect n nd tp target (bk_next bk)
      (transaction_record cur (task_euid (pr_tsk pr)) (bk_last_id bk + 1) th tp (pr_default_priority target) tr False) bk bk'"
    by blast
  moreover have "binder_inv bk'" using binder_transaction_inv [OF assms(1-3) t(1)] by simp
  ultimately show ?thesis using True n nd by auto
qed

definition demo_tr :: binder_transaction_data where
  "demo_tr = \<lparr>tr_handle = 0, tr_cookie = 0, tr_code = 7, tr_flags = 0, tr_data_size = 0, tr_offsets_size = 0,
     tr_buffer = 0, tr_offsets = 0\<rparr>"

lemma demo2_objects:
  obtains pr th dv where "bk_procs demo2 5 = Some pr" "pr_context pr = 0" "bk_threads demo2 6 = Some th"
    "bk_devices demo2 0 = Some dv" "dv_mgr_node dv = Some 7" "dv_name dv = Some ''binder''"
  using demo2_simps(3,4,7,8) by auto

lemma transaction_outcome_witness:
  "(\<exists>bk'. binder_transaction rb_kernel_plain (\<lambda>_. 1000) demo_task 5 6 demo_tr False demo2 = Inr bk' \<and> binder_inv bk' \<and>
     map_option nd_local_strong_refs (bk_nodes bk' 7) = Some 2) \<and>
   binder_transaction rb_kernel_plain (\<lambda>_. 1000) demo_task 5 6 demo_tr True demo2 = Inl NullDeref"
proof -
  obtain pr th dv where d: "bk_procs demo2 5 = Some pr" "pr_context pr = 0" "bk_threads demo2 6 = Some th"
    "bk_devices demo2 0 = Some dv" "dv_mgr_node dv = Some 7" "dv_name dv = Some ''binder''" by (rule demo2_objects)
  have h: "transaction_handled demo2 dv demo_tr False" "\<not> transaction_handled demo2 dv demo_tr True"
    by (simp_all add: transaction_handled_def d demo_tr_def demo2_simps)
  note out = transaction_outcome [OF demo2_inv d(1,3), of dv demo_tr _ rb_kernel_plain "\<lambda>_. 1000" demo_task]
  show ?thesis using out [of False] out [of True] h d demo2_simps(6) by (auto simp: transaction_effect_def)
qed

lemma transaction_handled_runs:
  assumes "binder_inv bk" and "bk_procs bk p = Some pr" and "bk_threads bk th = Some thread"
    and "bk_devices bk (pr_context pr) = Some dv" and "transaction_handled bk dv tr reply"
  shows "\<exists>bk'. binder_transaction rb task_euid cur p th tr reply bk = Inr bk'"
proof -
  from assms(5) obtain n name oks where n: "dv_mgr_node dv = Some n" "dv_name dv = Some name" "bk_kzalloc bk = True # oks"
    "tr_handle tr = 0" "\<not> reply"
    by (auto simp: transaction_handled_def split: list.splits bool.splits)
  from mgr_node_held [OF assms(1,4) n(1)] obtain nd tp target where
    nd: "bk_nodes bk n = Some nd" "nd_proc nd = Some tp" "bk_procs bk tp = Some target" by blast
  from binder_transaction_ok [OF assms(1-4) n(1,2) nd n(3,4), of rb task_euid cur] n(5) show ?thesis by auto
qed

lemma transaction_step:
  assumes "binder_inv bk" and "bk_procs bk p = Some pr" and "bk_threads bk th = Some thread"
    and "bk_devices bk (pr_context pr) = Some dv" and "binder_transaction rb task_euid cur p th tr reply bk = Inr bk'"
  shows "\<exists>n nd tp target tx. binder_inv bk' \<and> dv_mgr_node dv = Some n \<and> bk_nodes bk n = Some nd \<and>
    nd_proc nd = Some tp \<and> bk_procs bk tp = Some target \<and> transaction_effect n nd tp target (bk_next bk) tx bk bk'"
proof -
  have "transaction_handled bk dv tr reply"
    using binder_transaction_unhandled [OF assms(1-4)] assms(5) by fastforce
  then obtain n name oks where n: "dv_mgr_node dv = Some n" "dv_name dv = Some name" "bk_kzalloc bk = True # oks"
    "tr_handle tr = 0" "\<not> reply"
    by (auto simp: transaction_handled_def split: list.splits bool.splits)
  from mgr_node_held [OF assms(1,4) n(1)] obtain nd tp target where
    nd: "bk_nodes bk n = Some nd" "nd_proc nd = Some tp" "bk_procs bk tp = Some target" by blast
  from binder_transaction_ok [OF assms(1-4) n(1,2) nd n(3,4), of rb task_euid cur] assms(5) n(5)
    binder_transaction_inv [OF assms(1-3,5)]
  show ?thesis using n(1) nd by auto
qed

text \<open>A sequence of calls by one thread.\<close>

fun binder_transactions ::
  "rb_kernel \<Rightarrow> (nat \<Rightarrow> u32) \<Rightarrow> task \<Rightarrow> nat \<Rightarrow> nat \<Rightarrow> binder_transaction_data list \<Rightarrow> binder_kernel \<Rightarrow> binder_kernel chk" where
  "binder_transactions rb task_euid cur p th [] bk = Inr bk"
| "binder_transactions rb task_euid cur p th (tr # trs) bk =
     bindE (binder_transaction rb task_euid cur p th tr False bk) (binder_transactions rb task_euid cur p th trs)"

text \<open>References are taken and not given back: after \<open>k\<close> calls the manager's node holds \<open>k\<close>
  more strong references and its process \<open>k\<close> more temporary references (modulo the width
  of the counters), and the transaction of every call is still allocated.\<close>

theorem transactions_leak_references:
  assumes "binder_inv bk" and "bk_procs bk p = Some pr" and "bk_threads bk th = Some thread"
    and "bk_devices bk (pr_context pr) = Some dv" and "dv_mgr_node dv = Some n" and "bk_nodes bk n = Some nd"
    and "nd_proc nd = Some tp" and "bk_procs bk tp = Some target"
    and "binder_transactions rb task_euid cur p th trs bk = Inr bk'"
  shows "map_option nd_local_strong_refs (bk_nodes bk' n) = Some (nd_local_strong_refs nd + of_nat (length trs)) \<and>
    map_option pr_tmp_ref (bk_procs bk' tp) = Some (pr_tmp_ref target + of_nat (length trs)) \<and>
    (\<forall>t. bk_transactions bk t \<noteq> None \<longrightarrow> bk_transactions bk' t \<noteq> None)"
  using assms
proof (induction trs arbitrary: bk pr nd target)
  case Nil
  then show ?case by simp
next
  case (Cons tr trs)
  note prems = Cons.prems
  obtain bk1 where t: "binder_transaction rb task_euid cur p th tr False bk = Inr bk1"
    and rest: "binder_transactions rb task_euid cur p th trs bk1 = Inr bk'"
    using prems(9) by (auto simp: bindE_Inr_iff)
  from transaction_step [OF prems(1-4) t] obtain n' nd' tp' target' tx where
    e: "binder_inv bk1" "dv_mgr_node dv = Some n'" "bk_nodes bk n' = Some nd'" "nd_proc nd' = Some tp'"
    "bk_procs bk tp' = Some target'" "transaction_effect n' nd' tp' target' (bk_next bk) tx bk bk1" by blast
  with prems have [simp]: "n' = n" "nd' = nd" "tp' = tp" "target' = target" by auto
  let ?nd = "nd\<lparr>nd_local_strong_refs := nd_local_strong_refs nd + 1\<rparr>"
  let ?target = "target\<lparr>pr_tmp_ref := pr_tmp_ref target + 1\<rparr>"
  have s: "bk_nodes bk1 n = Some ?nd" "bk_procs bk1 tp = Some ?target" "bk_threads bk1 th = Some thread"
    using e(6) prems(3) by (simp_all add: transaction_effect_def)
  obtain pr1 where p1: "bk_procs bk1 p = Some pr1" "pr_context pr1 = pr_context pr"
    using e(6) prems(2,8) by (cases "p = tp") (auto simp: transaction_effect_def)
  have d1: "bk_devices bk1 (pr_context pr1) = Some dv" using e(6) p1(2) prems(4) by (simp add: transaction_effect_def)
  have "nd_proc ?nd = Some tp" using prems(7) by simp
  from Cons.IH [OF e(1) p1(1) s(3) d1 prems(5) s(1) this s(2) rest] e(6) show ?case
    by (auto simp: transaction_effect_def add.assoc)
qed

lemma transactions_leak_references_witness:
  "\<exists>bk'. binder_transactions rb_kernel_plain (\<lambda>_. 1000) demo_task 5 6 [demo_tr] demo2 = Inr bk' \<and>
     map_option nd_local_strong_refs (bk_nodes bk' 7) = Some 2"
proof -
  obtain pr th dv where d: "bk_procs demo2 5 = Some pr" "pr_context pr = 0" "bk_threads demo2 6 = Some th"
    "bk_devices demo2 (pr_context pr) = Some dv" "dv_mgr_node dv = Some 7" "dv_name dv = Some ''binder''"
    by (rule demo2_objects) simp
  obtain nd where nd: "bk_nodes demo2 7 = Some nd" "nd_proc nd = Some 5" "nd_local_strong_refs nd = 1"
    using demo2_simps(5,6) by auto
  obtain bk' where t: "binder_transactions rb_kernel_plain (\<lambda>_. 1000) demo_task 5 6 [demo_tr] demo2 = Inr bk'"
    using binder_transaction_ok [OF demo2_inv d(1,3-6) nd(1,2) d(1) demo2_simps(9), of demo_tr rb_kernel_plain "\<lambda>_. 1000" demo_task]
    by (auto simp: demo_tr_def)
  show ?thesis
    using transactions_leak_references [OF demo2_inv d(1,3-5) nd(1,2) d(1) t] nd(3) t by auto
qed

section \<open>Transaction log\<close>

text \<open>Entries written one after the other into the places \<open>binder_transaction_log_add\<close> gives.\<close>

definition tlog_put :: "tlog_entry \<Rightarrow> binder_transaction_log \<Rightarrow> binder_transaction_log" where
  "tlog_put en log =
     (let (e, log) = binder_transaction_log_add log in log\<lparr>tl_entry := (tl_entry log)[e := en]\<rparr>)"

definition tlog_holds :: "tlog_entry list \<Rightarrow> binder_transaction_log \<Rightarrow> bool" where
  "tlog_holds ens log \<longleftrightarrow>
     length (tl_entry log) = TLOG_SIZE \<and> tl_cur log = of_nat (length ens) - 1 \<and>
     (\<forall>i < length ens. length ens \<le> i + TLOG_SIZE \<longrightarrow> tl_entry log ! (i mod TLOG_SIZE) = ens ! i) \<and>
     tl_full log = (TLOG_SIZE < length ens)"

lemma word_mod_32: "unat ((of_nat n :: u32) mod 32) = n mod 32"
  by (simp add: unat_mod_distrib unat_of_nat take_bit_eq_mod mod_mod_cancel)

lemma tlog_holds_put:
  assumes h: "tlog_holds ens log" and len: "length ens < 2 ^ 32"
  shows "tlog_holds (ens @ [en]) (tlog_put en log)"
proof -
  let ?n = "length ens"
  have put: "tlog_put en log = log\<lparr>tl_cur := of_nat ?n, tl_full := (if 32 \<le> (of_nat ?n :: u32) then True else tl_full log),
    tl_entry := (tl_entry log)[?n mod 32 := en]\<rparr>"
    using h word_mod_32 [of ?n] by (simp add: tlog_put_def binder_transaction_log_add_def Let_def tlog_holds_def)
  have full: "(32 \<le> (of_nat ?n :: u32)) = (32 \<le> ?n)"
    using len by (simp add: word_le_nat_alt unat_of_nat take_bit_eq_mod)
  have other: "(tl_entry log)[?n mod 32 := en] ! (i mod 32) = ens ! i" if "i < ?n" "Suc ?n \<le> i + 32" for i
  proof -
    have "i mod 32 \<noteq> ?n mod 32"
    proof
      assume "i mod 32 = ?n mod 32"
      then have "32 dvd ?n - i" using that(1) mod_eq_dvd_iff_nat [of i ?n 32] by simp
      then have "32 \<le> ?n - i" using that(1) by (intro dvd_imp_le) auto
      with that(2) show False by simp
    qed
    then show ?thesis using h that by (auto simp: tlog_holds_def)
  qed
  show ?thesis
    unfolding put tlog_holds_def using h full other
    by (auto simp: tlog_holds_def nth_append less_Suc_eq)
qed

text \<open>The transaction log is a ring of 32 entries. After any number of transactions below
  \<open>2^32\<close> since the module was loaded, transaction \<open>i\<close> of the last 32 is found at index
  \<open>i mod 32\<close> with what was written to it, and \<open>full\<close> is set from the 33rd on.\<close>

theorem transaction_log_keeps_last:
  assumes "length ens \<le> 2 ^ 32"
  shows "tlog_holds ens (fold tlog_put ens (bk_tlog (binder_loaded devices next oks)))"
  using assms
proof (induction ens rule: rev_induct)
  case Nil
  then show ?case by (simp add: tlog_holds_def binder_loaded_def)
next
  case (snoc en ens)
  then show ?case using tlog_holds_put by simp
qed

lemma transaction_log_keeps_last_witness:
  "tl_entry (fold tlog_put (map (\<lambda>i. tlog_entry_zero\<lparr>te_debug_id := of_nat i\<rparr>) [0..<40]) (bk_tlog demo0)) ! 7 =
     tlog_entry_zero\<lparr>te_debug_id := 39\<rparr>"
proof -
  let ?ens = "map (\<lambda>i. tlog_entry_zero\<lparr>te_debug_id := of_nat i\<rparr>) [0..<40]"
  have "tlog_holds ?ens (fold tlog_put ?ens (bk_tlog demo0))"
    unfolding demo0_def by (rule transaction_log_keeps_last) simp
  then have "tl_entry (fold tlog_put ?ens (bk_tlog demo0)) ! (39 mod 32) = ?ens ! 39"
    unfolding tlog_holds_def by (elim conjE allE [of _ 39]) simp
  then show ?thesis by simp
qed

section \<open>The write loop\<close>

text \<open>User memory ends below the kernel's half of the address space.\<close>

definition user_mem_ok :: "user_mem \<Rightarrow> bool" where
  "user_mem_ok um \<longleftrightarrow> (\<forall>a. um a \<noteq> None \<longrightarrow> a < 0x800000000000)"

lemma those_Some_iff: "those xs = Some ys \<longleftrightarrow> xs = map Some ys"
  by (induction xs arbitrary: ys) (auto split: option.splits)

lemma copy_from_user_Some_iff:
  "copy_from_user um a n = Some bs \<longleftrightarrow> length bs = n \<and> (\<forall>i < n. um (a + of_nat i) = Some (bs ! i))"
  by (auto simp: copy_from_user_def those_Some_iff list_eq_iff_nth_eq)

lemma copy_from_user_below:
  assumes "user_mem_ok um" and "copy_from_user um a n = Some bs" and "0 < n"
  shows "a < 0x800000000000"
proof -
  have "um (a + of_nat 0) \<noteq> None" using assms(2,3) by (auto simp: copy_from_user_Some_iff)
  then show ?thesis using assms(1) by (simp add: user_mem_ok_def)
qed

lemma ptr_progress:
  fixes ptr end_ptr :: u64
  assumes "ptr < 0x800000000000" and "ptr < end_ptr" and "k \<le> 68" and "0 < k" and "ptr + k < end_ptr"
  shows "unat (end_ptr - (ptr + k)) < unat (end_ptr - ptr)"
proof -
  have nat: "unat ptr < 0x800000000000" "unat k \<le> 68" "0 < unat k" "unat ptr < unat end_ptr"
    using assms(1-4) by (simp_all add: word_less_nat_alt word_le_nat_alt)
  then have sum: "unat (ptr + k) = unat ptr + unat k" by (intro unat_add_lem [THEN iffD1]) simp
  have "ptr \<le> end_ptr" "ptr + k \<le> end_ptr" using assms(2,5) by (simp_all add: less_imp_le)
  then show ?thesis
    using nat assms(5) sum by (simp add: unat_sub word_less_nat_alt)
qed

lemma thread_write_loop_total:
  assumes "user_mem_ok um" and "binder_inv bk" and "bk_procs bk p = Some pr" and "bk_threads bk th = Some thread"
    and "0 < fuel" and "ptr < end_ptr \<longrightarrow> unat (end_ptr - ptr) < fuel"
  shows "(\<exists>ret bk'. thread_write_loop fuel rb task_euid cur um p th ptr end_ptr bk = Inr (ret, bk')) \<or>
    thread_write_loop fuel rb task_euid cur um p th ptr end_ptr bk = Inl NullDeref"
  using assms
proof (induction fuel arbitrary: ptr bk pr thread)
  case 0
  then show ?case by simp
next
  case (Suc fuel)
  note prems = Suc.prems
  have start: "the_thread bk th = Inr thread" using prems(4) by (simp add: the_thread_def)
  show ?case
  proof (cases "ptr < end_ptr \<and> th_return_error_cmd thread = BR_OK")
    case False
    then show ?thesis by (auto simp: start)
  next
    case True
    have fuel: "0 < fuel" using prems(6) True by (cases fuel) (auto simp: unat_eq_zero)
    have next_ptr: "ptr + k < end_ptr \<longrightarrow> unat (end_ptr - (ptr + k)) < fuel"
      if "ptr < 0x800000000000" "k \<le> 68" "0 < k" for k
      using ptr_progress [OF that(1) _ that(2,3), of end_ptr] prems(6) True by auto
    show ?thesis
    proof (cases "get_user32 um ptr")
      case None
      with True show ?thesis by (auto simp: start)
    next
      case (Some cmd)
      then obtain bs where "copy_from_user um ptr 4 = Some bs" by (auto simp: get_user32_def)
      then have below: "ptr < 0x800000000000" using copy_from_user_below [OF prems(1)] by simp
      obtain bk1 thread1 pr1 where c: "thread_write_count p th cmd bk = Inr bk1" "binder_inv bk1"
        "bk_threads bk1 th = Some thread1" "bk_procs bk1 p = Some pr1"
        using thread_write_count_inv [OF prems(2-4), of cmd] by auto
      show ?thesis
      proof (cases "cmd = BC_TRANSACTION \<or> cmd = BC_REPLY")
        case False
        have "(\<exists>ret bk'. thread_write_loop fuel rb task_euid cur um p th (ptr + 4) end_ptr bk1 = Inr (ret, bk')) \<or>
          thread_write_loop fuel rb task_euid cur um p th (ptr + 4) end_ptr bk1 = Inl NullDeref"
          by (rule Suc.IH [OF prems(1) c(2,4,3) fuel next_ptr [OF below]]) simp_all
        with True Some c(1) False show ?thesis by (simp add: start)
      next
        case cmd: True
        show ?thesis
        proof (cases "copy_from_user um (ptr + 4) 64")
          case None
          with True Some c cmd show ?thesis by (auto simp: start)
        next
          case (Some bs)
          note run = start True \<open>get_user32 um ptr = Some cmd\<close> c(1) cmd Some
          obtain dv where dv: "bk_devices bk1 (pr_context pr1) = Some dv" using binder_inv_proc(6) [OF c(2,4)] by auto
          show ?thesis
          proof (cases "transaction_handled bk1 dv (tr_of_bytes bs) (cmd = BC_REPLY)")
            case False
            with binder_transaction_unhandled [OF c(2,4,3) dv False] show ?thesis by (simp add: run)
          next
            case True
            obtain bk2 where t: "binder_transaction rb task_euid cur p th (tr_of_bytes bs) (cmd = BC_REPLY) bk1 = Inr bk2"
              using transaction_handled_runs [OF c(2,4,3) dv True] by blast
            from binder_transaction_inv [OF c(2,4,3) t] c(3) obtain pr2 where
              t': "binder_inv bk2" "bk_threads bk2 th = Some thread1" "bk_procs bk2 p = Some pr2" by auto
            have "ptr + 68 < end_ptr \<longrightarrow> unat (end_ptr - (ptr + 68)) < fuel" by (rule next_ptr [OF below]) simp_all
            then have "ptr + 4 + 64 < end_ptr \<longrightarrow> unat (end_ptr - (ptr + 4 + 64)) < fuel" by (simp add: add.assoc)
            from Suc.IH [OF prems(1) t'(1,3,2) fuel this] t show ?thesis by (simp add: run)
          qed
        qed
      qed
    qed
  qed
qed

text \<open>The loop of \<open>binder_thread_write\<close> ends for every write buffer in user memory: it returns
  0 or \<open>-EFAULT\<close>, or stops at a null pointer in a transaction. It never runs out of fuel.\<close>

theorem thread_write_terminates:
  assumes "user_mem_ok um" and "binder_inv bk" and "bk_procs bk p = Some pr" and "bk_threads bk th = Some thread"
  shows "binder_thread_write rb task_euid cur um p th buffer n consumed bk = Inl NullDeref \<or>
    (\<exists>ret bk'. binder_thread_write rb task_euid cur um p th buffer n consumed bk = Inr (ret, bk') \<and>
      (ret = 0 \<or> ret = - EFAULT) \<and> binder_inv bk')"
proof -
  let ?ptr = "buffer + consumed" and ?last = "buffer + n"
  have run: "binder_thread_write rb task_euid cur um p th buffer n consumed bk =
    thread_write_loop (unat (?last - ?ptr) + 1) rb task_euid cur um p th ?ptr ?last bk"
    using assms(3) by (simp add: binder_thread_write_def the_proc_def Let_def del: thread_write_loop.simps)
  show ?thesis
    unfolding run
    using thread_write_loop_total [OF assms, of "unat (?last - ?ptr) + 1" ?ptr ?last rb task_euid cur]
      thread_write_loop_inv [OF assms(2-4), of "unat (?last - ?ptr) + 1" rb task_euid cur um ?ptr ?last]
    by (auto simp del: thread_write_loop.simps)
qed

lemma thread_write_terminates_witness:
  "\<exists>r. binder_thread_write rb_kernel_plain (\<lambda>_. 1000) demo_task no_mem 5 6 0x1000 68 0 demo2 = r \<and> r \<noteq> Inl OutOfFuel"
proof -
  obtain pr th dv where d: "bk_procs demo2 5 = Some pr" "bk_threads demo2 6 = Some th" by (rule demo2_objects)
  have "user_mem_ok no_mem" by (simp add: user_mem_ok_def no_mem_def)
  from thread_write_terminates [OF this demo2_inv d] show ?thesis by fastforce
qed

lemma copy_to_user_same:
  "\<forall>i < length bs. um (a + of_nat i) = Some (bs ! i) \<Longrightarrow> copy_to_user um a bs = (um, True)"
proof (induction bs arbitrary: a)
  case Nil
  then show ?case by simp
next
  case (Cons b bs)
  have "um a = Some b" using Cons.prems by (force dest: spec [of _ 0])
  moreover have "um (a + 1 + of_nat i) = Some (bs ! i)" if "i < length bs" for i
    using Cons.prems [rule_format, of "Suc i"] that by (simp add: ac_simps)
  ultimately show ?case using Cons.IH [of "a + 1"] by (simp add: fun_upd_idem)
qed

lemma bwr_bytes_of_bytes:
  assumes "length bs = 48"
  shows "bwr_bytes (bwr_of_bytes bs) = bs"
proof -
  have split: "drop k bs = take m (drop k bs) @ drop (k + m) bs" for k m
    by (metis append_take_drop_id drop_drop add.commute)
  have "bwr_bytes (bwr_of_bytes bs) = take 8 bs @ take 8 (drop 8 bs) @ take 8 (drop 16 bs) @ take 8 (drop 24 bs) @
    take 8 (drop 32 bs) @ take 8 (drop 40 bs)"
    using assms by (simp add: bwr_bytes_def bwr_of_bytes_def le_bytes_le_word)
  also have "\<dots> = bs"
    using split [of 0 8] split [of 8 8] split [of 16 8] split [of 24 8] split [of 32 8] split [of 40 8] assms by simp
  finally show ?thesis .
qed

text \<open>A successful \<open>BINDER_WRITE_READ\<close> reports no progress: the structure copied back to the
  caller is the one it passed, so \<open>write_consumed\<close> keeps its old value although the
  commands were carried out, and a caller that resumes there sends them again.\<close>

theorem write_read_reports_no_progress:
  assumes "binder_ioctl_write_read rb task_euid cur p cmd arg th um bk = Inr (0, um', bk')"
  shows "um' = um \<and> (\<exists>bs. copy_from_user um arg 48 = Some bs \<and>
    (0 < bwr_write_size (bwr_of_bytes bs) \<longrightarrow>
      binder_thread_write rb task_euid cur um p th (bwr_write_buffer (bwr_of_bytes bs))
        (bwr_write_size (bwr_of_bytes bs)) (bwr_write_consumed (bwr_of_bytes bs)) bk = Inr (0, bk')))"
proof -
  obtain bs where bs: "copy_from_user um arg 48 = Some bs"
    using assms by (auto simp: binder_ioctl_write_read_def split: if_splits option.splits)
  then have len: "length bs = 48" and at: "\<forall>i < length bs. um (arg + of_nat i) = Some (bs ! i)"
    by (auto simp: copy_from_user_Some_iff)
  have "copy_to_user um arg (bwr_bytes (bwr_of_bytes bs)) = (um, True)"
    using copy_to_user_same [OF at] bwr_bytes_of_bytes [OF len] by simp
  then show ?thesis
    using assms bs
    by (auto simp: binder_ioctl_write_read_def Let_def bindE_Inr_iff case_prod_beta split: if_splits)
qed

definition zero_mem :: user_mem where
  "zero_mem = (\<lambda>a. if a < 0x10000 then Some 0 else None)"

lemma copy_zero_mem: "copy_from_user zero_mem 0x1000 48 = Some (replicate 48 0)"
  unfolding copy_from_user_Some_iff zero_mem_def
  by (auto simp: word_less_nat_alt unat_word_ariths unat_of_nat)

lemma write_read_reports_no_progress_witness:
  "\<exists>bk'. binder_ioctl_write_read rb_kernel_plain (\<lambda>_. 1000) demo_task 5 BINDER_WRITE_READ 0x1000 6 zero_mem demo2 =
     Inr (0, zero_mem, bk')"
proof -
  have zero: "bwr_write_size (bwr_of_bytes (replicate 48 0)) = 0" by (simp add: bwr_of_bytes_def numeral_eq_Suc)
  have same: "copy_to_user zero_mem 0x1000 (replicate 48 0) = (zero_mem, True)"
    by (rule copy_to_user_same) (use copy_zero_mem in \<open>simp add: copy_from_user_Some_iff\<close>)
  have "\<exists>um' bk'. binder_ioctl_write_read rb_kernel_plain (\<lambda>_. 1000) demo_task 5 BINDER_WRITE_READ 0x1000 6 zero_mem demo2 =
    Inr (0, um', bk')"
    using copy_zero_mem same bwr_bytes_of_bytes [where bs = "replicate 48 0"] zero
    by (simp add: binder_ioctl_write_read_def Let_def)
  with write_read_reports_no_progress show ?thesis by blast
qed

section \<open>Nodes\<close>

lemma wakeup_keeps_nodes:
  "binder_wakeup_proc_ilocked p bk = Inr bk' \<Longrightarrow> bk_nodes bk' = bk_nodes bk"
proof -
  have walk: "wakeup_poll_walk ts sync bk = Inr bk' \<Longrightarrow> bk_nodes bk' = bk_nodes bk" for ts sync bk
    by (induction ts arbitrary: bk) (auto simp: bindE_Inr_iff wake_up_interruptible_def split: if_splits)
  assume run: "binder_wakeup_proc_ilocked p bk = Inr bk'"
  then obtain pr where "bk_procs bk p = Some pr"
    by (auto simp: binder_wakeup_proc_ilocked_def binder_select_thread_ilocked_def bindE_Inr_iff the_proc_def)
  with run show "bk_nodes bk' = bk_nodes bk"
    by (cases "pr_waiting_threads pr")
      (auto simp: binder_wakeup_proc_ilocked_def binder_select_thread_ilocked_def binder_wakeup_thread_ilocked_def
        binder_wakeup_poll_thread_ilocked_def bindE_Inr_iff wake_up_interruptible_def the_proc_def dest: walk)
qed

text \<open>A node is not freed when its last reference goes. Nothing ever puts an entry on the
  list \<open>refs\<close> of a node, and with an empty list \<open>binder_dec_node_tmpref\<close> leaves the node
  allocated, whatever its counts and wherever it is linked.\<close>

theorem unreferenced_node_stays:
  assumes "bk_nodes bk n = Some nd" and "nd_refs nd = []"
    and "binder_dec_node_tmpref rb n bk = Inr bk'"
  shows "bk_nodes bk' n = Some (nd\<lparr>nd_tmp_refs := nd_tmp_refs nd - 1\<rparr>)"
  using assms
  by (auto simp: binder_dec_node_tmpref_def the_node_def binder_dec_node_nilocked_def dec_node_unreferenced_def
      Let_def bindE_Inr_iff binder_enqueue_work_ilocked_def dest!: wakeup_keeps_nodes split: if_splits option.splits)

text \<open>All counts of this node are zero once the temporary reference is gone.\<close>

lemma unreferenced_node_stays_witness:
  "\<exists>bk'. binder_dec_node_tmpref rb_kernel_plain 7
     (demo1\<lparr>bk_nodes := [7 \<mapsto> binder_node_zero\<lparr>nd_proc := Some 5, nd_tmp_refs := 1\<rparr>]\<rparr>) = Inr bk' \<and>
     bk_nodes bk' 7 = Some (binder_node_zero\<lparr>nd_proc := Some 5, nd_tmp_refs := 0\<rparr>)"
proof -
  let ?bk = "demo1\<lparr>bk_nodes := [7 \<mapsto> binder_node_zero\<lparr>nd_proc := Some 5, nd_tmp_refs := 1\<rparr>]\<rparr>"
  have "\<exists>bk'. binder_dec_node_tmpref rb_kernel_plain 7 ?bk = Inr bk'"
    by (simp add: binder_dec_node_tmpref_def the_node_def binder_dec_node_nilocked_def dec_node_unreferenced_def
        Let_def binder_node_zero_def)
  then obtain bk' where run: "binder_dec_node_tmpref rb_kernel_plain 7 ?bk = Inr bk'" ..
  from unreferenced_node_stays [OF _ _ run, of "binder_node_zero\<lparr>nd_proc := Some 5, nd_tmp_refs := 1\<rparr>"] run
  show ?thesis by (simp add: binder_node_zero_def)
qed

text \<open>How the flags of an object become the attributes of its node. Under a normal policy
  a nice value from -20 to 19 in the low byte becomes the kernel priority 120 more, 100 to
  139; under a real-time policy a priority from 1 to 99 becomes 99 less it. The bit that
  asks for a security context sets \<open>inherit_rt\<close>, while \<open>txn_security_ctx\<close> stays clear.\<close>

theorem node_attributes_of_flags:
  "let nice = sint (ucast (fbo_flags f) :: 8 word);
       policy = uint (ucast (drop_bit 9 (fbo_flags f)) :: 2 word);
       nd = new_node_of p debug_id (Some f)
   in uint (nd_sched_policy nd) = policy \<and>
     ((policy = 0 \<or> policy = 3) \<and> - 20 \<le> nice \<and> nice \<le> 19 \<longrightarrow>
        uint (nd_min_priority nd) = nice + 120 \<and> 100 \<le> uint (nd_min_priority nd) \<and> uint (nd_min_priority nd) \<le> 139) \<and>
     ((policy = 1 \<or> policy = 2) \<and> 1 \<le> nice \<and> nice \<le> 99 \<longrightarrow> uint (nd_min_priority nd) = 99 - nice) \<and>
     nd_accept_fds nd = bit (fbo_flags f) 8 \<and> nd_inherit_rt nd = bit (fbo_flags f) 12 \<and> \<not> nd_txn_security_ctx nd"
proof -
  define nice where "nice = sint (ucast (fbo_flags f) :: 8 word)"
  define policy where "policy = uint (ucast (drop_bit 9 (fbo_flags f)) :: 2 word)"
  have pol: "(ucast (drop_bit 9 (fbo_flags f) AND 3) :: 2 word) = ucast (drop_bit 9 (fbo_flags f))"
    by (rule bit_word_eqI) (auto simp: bit_simps less_Suc_eq numeral_eq_Suc)
  have pri: "(ucast (fbo_flags f AND 0xff) :: 8 word) = ucast (fbo_flags f)"
    by (rule bit_word_eqI) (auto simp: bit_simps less_Suc_eq numeral_eq_Suc)
  have bits: "(fbo_flags f AND 0x100 \<noteq> 0) = bit (fbo_flags f) 8" "(fbo_flags f AND 0x1000 \<noteq> 0) = bit (fbo_flags f) 12"
    using and_exp_eq_0_iff_not_bit [of "fbo_flags f" 8] and_exp_eq_0_iff_not_bit [of "fbo_flags f" 12] by simp_all
  have nd: "nd_sched_policy (new_node_of p debug_id (Some f)) = ucast (drop_bit 9 (fbo_flags f))"
    "nd_min_priority (new_node_of p debug_id (Some f)) = word_of_int (to_kernel_prio policy nice)"
    by (simp_all add: new_node_of_def Let_def pol pri nice_def policy_def)
  have "uint (word_of_int i + 120 :: u8) = i + 120" if "- 20 \<le> i" "i \<le> 19" for i
    using that uint_word_of_int [of "i + 120", where ?'a = 8] by (simp add: take_bit_eq_mod)
  moreover have "uint (99 - word_of_int i :: u8) = 99 - i" if "1 \<le> i" "i \<le> 99" for i
    using that uint_word_of_int [of "99 - i", where ?'a = 8] by (simp add: take_bit_eq_mod)
  ultimately show ?thesis
    unfolding Let_def nd nice_def [symmetric] policy_def [symmetric]
    by (auto simp: to_kernel_prio_def is_fair_policy_def new_node_of_def Let_def bits binder_node_zero_def)
qed

lemma node_attributes_of_flags_witness:
  "uint (nd_min_priority (new_node_of 5 1 (Some \<lparr>fbo_type = 0, fbo_flags = 0x11EC, fbo_binder = 0, fbo_cookie = 0\<rparr>))) = 100 \<and>
   nd_inherit_rt (new_node_of 5 1 (Some \<lparr>fbo_type = 0, fbo_flags = 0x11EC, fbo_binder = 0, fbo_cookie = 0\<rparr>))"
  using node_attributes_of_flags [of "\<lparr>fbo_type = 0, fbo_flags = 0x11EC, fbo_binder = 0, fbo_cookie = 0\<rparr>" 5 1]
  by (simp add: Let_def)

section \<open>Mapping\<close>

lemma demo1_heap: "bk_heap demo1 = \<lparr>ah_mmap_lock = False, ah_bufs = Map.empty, ah_mm_count = (\<lambda>_. 1)\<rparr>"
  by (simp add: demo1_def state_of_def binder_open_def kzalloc_def demo0_def binder_loaded_def the_device_def Let_def)

text \<open>\<open>binder_mmap\<close> serves only the process that opened the file and only a mapping that is not
  writable; a refused call changes nothing. An accepted area is not copied on fork, can
  never be made writable by the user, and is attached to the process.\<close>

theorem mmap_guards:
  assumes "bk_procs bk p = Some pr" and "binder_mmap rb kcalloc cur p vma bk = Inr (ret, vma', f, bk')"
  shows "if pr_tsk pr \<noteq> cur_leader cur then ret = - EINVAL \<and> vma' = vma \<and> bk' = bk
    else if bit (vm_flags vma) 1 then ret = - EPERM \<and> vma' = vma \<and> bk' = bk
    else f = Some p \<and> \<not> bit (vm_flags vma') 1 \<and> \<not> bit (vm_flags vma') 5 \<and> bit (vm_flags vma') 17 \<and>
      vm_start vma' = vm_start vma \<and> vm_end vma' = vm_end vma \<and>
      (ret = 0 \<longrightarrow> al_vma (pr_alloc (the (bk_procs bk' p))) = Some vma')"
proof -
  have w: "(vm_flags vma AND 2 \<noteq> 0) = bit (vm_flags vma) 1"
    using and_exp_eq_0_iff_not_bit [of "vm_flags vma" 1] by simp
  let ?flags = "(vm_flags vma OR (VM_DONTCOPY OR VM_MIXEDMAP)) AND NOT VM_MAYWRITE"
  have flags: "bit ?flags 1 = bit (vm_flags vma) 1" "\<not> bit ?flags 5" "bit ?flags 17"
    by (simp_all add: bit_simps)
  have mapped: "al_vma al = Some v" if "binder_alloc_mmap_handler rb kcalloc b alloc v h = Inr (0, al, h')" for b alloc v h al h'
    using that
    by (auto simp: binder_alloc_mmap_handler_def mmap_lock_def mmap_unlock_def Let_def bindE_Inr_iff err_labels
        err_already_mapped_def err_alloc_pages_failed_def err_alloc_buf_struct_failed_def binder_alloc_set_vma_def
        split: if_splits option.splits)
  show ?thesis
    using assms w flags mapped
    by (auto simp: binder_mmap_def the_proc_def Let_def bindE_Inr_iff case_prod_beta split: if_splits)
qed

lemma mmap_guards_witness:
  "\<exists>vma' bk'. binder_mmap rb_kernel_plain True demo_task 5 vma_1M demo1 = Inr (0, vma', Some 5, bk') \<and>
     \<not> bit (vm_flags vma') 5"
proof -
  have "\<exists>vma' bk'. binder_mmap rb_kernel_plain True demo_task 5 vma_1M demo1 = Inr (0, vma', Some 5, bk')"
    by (simp add: binder_mmap_def the_proc_def demo1_simps demo_task_def vma_1M_def Let_def kzalloc_def
        binder_alloc_mmap_handler_def binder_alloc_init_def binder_alloc_zero_def mmap_lock_def mmap_unlock_def demo1_heap
        binder_insert_free_buffer_def binder_alloc_buffer_size_def)
  then obtain vma' bk' where "binder_mmap rb_kernel_plain True demo_task 5 vma_1M demo1 = Inr (0, vma', Some 5, bk')"
    by blast
  from mmap_guards [OF demo1_simps(1) this] this show ?thesis by (auto simp: demo_task_def vma_1M_def)
qed

end
