(* ===== verification/Binderfs.thy ===== *)
theory Binderfs
  imports Binder_Ioctl
begin

text \<open>
  The binder file system, \<open>binderfs.c\<close>: the devices of a mounted instance, the numbers
  they take from the shared pool of minors, the mount options, the control file, mounting
  and the registration of the file system. Inodes, super blocks and dentries belong to the
  kernel; of them the model keeps the fields the code sets and the names in the root
  directory. Devices are the ones \<open>binder.c\<close> opens, in \<open>bk_devices\<close>.
\<close>

section \<open>State\<close>

abbreviation (input) FIRST_INODE :: nat where "FIRST_INODE \<equiv> 1"
abbreviation (input) SECOND_INODE :: nat where "SECOND_INODE \<equiv> 2"
abbreviation (input) INODE_OFFSET :: nat where "INODE_OFFSET \<equiv> 3"
abbreviation (input) BINDERFS_SUPER_MAGIC :: u64 where "BINDERFS_SUPER_MAGIC \<equiv> 0x6c6f6f70"

text \<open>\<open>MINORBITS\<close> is 20.\<close>

abbreviation (input) BINDERFS_MAX_MINOR :: int where "BINDERFS_MAX_MINOR \<equiv> 0x100000"
abbreviation (input) BINDERFS_MAX_MINOR_CAPPED :: int where "BINDERFS_MAX_MINOR_CAPPED \<equiv> 0xFFFFC"

datatype binderfs_stats_mode = STATS_NONE | STATS_GLOBAL

record binderfs_mount_opts =
  mo_max :: int
  mo_stats_mode :: binderfs_stats_mode

text \<open>\<open>bi_reserve\<close> is whether the instance is mounted in the initial ipc namespace.\<close>

record binderfs_info =
  bi_reserve :: bool
  bi_control_dentry :: "nat option"
  bi_root_uid :: u32
  bi_root_gid :: u32
  bi_mount_opts :: binderfs_mount_opts
  bi_device_count :: int

datatype inode_fops = Binder_Fops | Binder_Ctl_Fops | Dir_Fops

record inode =
  in_ino :: nat
  in_chr :: bool
  in_minor :: int
  in_fop :: "inode_fops option"
  in_uid :: u32
  in_gid :: u32
  in_private :: "nat option"

text \<open>
  A super block: \<open>sb_info\<close> is \<open>s_fs_info\<close>, \<open>sb_root\<close> the inode of the root directory,
  \<open>sb_names\<close> the names in it with their inodes.
\<close>

record super_block =
  sb_magic :: u64
  sb_noexec :: bool
  sb_nodev :: bool
  sb_info :: "binderfs_info option"
  sb_root :: "nat option"
  sb_names :: "(string \<times> nat) list"

text \<open>
  One mounted instance with what all instances share: the minors in use, the inodes by
  address, and the driver with its devices and allocations.
\<close>

record binderfs =
  fs_minors :: "int list"
  fs_inodes :: "nat \<Rightarrow> inode option"
  fs_sb :: super_block
  fs_bk :: binder_kernel

text \<open>
  What the kernel decides in a call: whether a minor number can be allocated besides being
  in range (\<open>ida_alloc_max\<close> may lack memory), whether \<open>kmemdup\<close> succeeds, whether the
  copy from and to user space succeeds, an error of the directory lookup, and whether a
  dentry can be allocated.
\<close>

record fs_env =
  fe_ida :: bool
  fe_kmemdup :: bool
  fe_copy :: bool
  fe_lookup_err :: int
  fe_dentry :: bool

section \<open>Allocation\<close>

text \<open>The lowest number not in use; the pool is a finite set, so one of \<open>length + 1\<close> is free.\<close>

definition ida_lowest :: "int list \<Rightarrow> int" where
  "ida_lowest used = hd (filter (\<lambda>i. i \<notin> set used) (map int [0..<Suc (length used)]))"

definition ida_alloc_max :: "bool \<Rightarrow> int \<Rightarrow> int list \<Rightarrow> int \<times> int list" where
  "ida_alloc_max ok mx used =
     (if \<not> ok then (- ENOMEM, used)
      else let i = ida_lowest used in if i \<le> mx then (i, i # used) else (- ENOSPC, used))"

definition ida_free :: "int \<Rightarrow> int list \<Rightarrow> int list" where
  "ida_free i used = remove1 i used"

text \<open>The address of a new object, as \<open>kzalloc\<close> gives it.\<close>

definition fs_alloc :: "binderfs \<Rightarrow> nat option \<times> binderfs" where
  "fs_alloc fs = (case kzalloc (fs_bk fs) of (r, bk) \<Rightarrow> (r, fs\<lparr>fs_bk := bk\<rparr>))"

definition inode_zero :: inode where
  "inode_zero = \<lparr>in_ino = 0, in_chr = False, in_minor = 0, in_fop = None, in_uid = 0, in_gid = 0, in_private = None\<rparr>"

definition binder_device_zero :: binder_device where
  "binder_device_zero = \<lparr>dv_mgr_node = None, dv_mgr_uid = 0, dv_name = None, dv_minor = 0, dv_inode = None, dv_ref = 0\<rparr>"

definition new_inode :: "binderfs \<Rightarrow> nat option \<times> binderfs" where
  "new_inode fs =
     (case fs_alloc fs of
        (Some i, fs) \<Rightarrow> (Some i, fs\<lparr>fs_inodes := (fs_inodes fs)(i \<mapsto> inode_zero)\<rparr>)
      | (None, fs) \<Rightarrow> (None, fs))"

text \<open>Updates of the instance's info, of a device and of an inode.\<close>

definition fs_info :: "binderfs \<Rightarrow> binderfs_info chk" where
  "fs_info fs = derefE NullDeref (sb_info (fs_sb fs))"

definition set_info :: "binderfs_info \<Rightarrow> binderfs \<Rightarrow> binderfs" where
  "set_info info fs = fs\<lparr>fs_sb := (fs_sb fs)\<lparr>sb_info := Some info\<rparr>\<rparr>"

definition fs_set_device :: "nat \<Rightarrow> binder_device option \<Rightarrow> binderfs \<Rightarrow> binderfs" where
  "fs_set_device d dv fs = fs\<lparr>fs_bk := (fs_bk fs)\<lparr>bk_devices := (bk_devices (fs_bk fs))(d := dv)\<rparr>\<rparr>"

definition set_inode :: "nat \<Rightarrow> inode option \<Rightarrow> binderfs \<Rightarrow> binderfs" where
  "set_inode i ino fs = fs\<lparr>fs_inodes := (fs_inodes fs)(i := ino)\<rparr>"

section \<open>Removing a device\<close>

definition is_binderfs_device :: "super_block \<Rightarrow> bool" where
  "is_binderfs_device sb = (if sb_magic sb = BINDERFS_SUPER_MAGIC then True else False)"

definition binderfs_evict_inode :: "nat \<Rightarrow> binderfs \<Rightarrow> binderfs chk" where
  "binderfs_evict_inode i fs =
     bindE (derefE UseAfterFree (fs_inodes fs i)) (\<lambda>inode.
     bindE (fs_info fs) (\<lambda>info.
     if \<not> in_chr inode \<or> in_private inode = None then Inr (set_inode i None fs)
     else
       bindE (derefE NullDeref (in_private inode)) (\<lambda>d.
       bindE (derefE UseAfterFree (bk_devices (fs_bk fs) d)) (\<lambda>device.
       let fs = set_info (info\<lparr>bi_device_count := bi_device_count info - 1\<rparr>) fs;
           fs = fs\<lparr>fs_minors := ida_free (dv_minor device) (fs_minors fs)\<rparr>;
           ref = dv_ref device - 1;
           fs = fs_set_device d (if ref = 0 then None else Some (device\<lparr>dv_ref := ref\<rparr>)) fs
       in Inr (set_inode i None fs)))))"

text \<open>\<open>iput\<close> of an inode nobody else holds: the kernel evicts it.\<close>

definition iput :: "nat option \<Rightarrow> binderfs \<Rightarrow> binderfs chk" where
  "iput i fs = (case i of None \<Rightarrow> Inr fs | Some i \<Rightarrow> binderfs_evict_inode i fs)"

section \<open>Creating a device\<close>

text \<open>\<open>struct binderfs_device\<close>: the name as a C string in 256 bytes, major and minor.\<close>

record binderfs_device =
  bd_name :: string
  bd_major :: int
  bd_minor :: int

text \<open>The label \<open>err\<close>: \<open>d\<close> and \<open>i\<close> are the device and the inode as far as they were created.\<close>

definition device_create_err :: "int \<Rightarrow> int \<Rightarrow> nat option \<Rightarrow> nat option \<Rightarrow> binderfs \<Rightarrow> (int \<times> binderfs) chk" where
  "device_create_err ret minor d i fs =
     (let fs = (case d of Some d \<Rightarrow> fs_set_device d None fs | None \<Rightarrow> fs) in
      bindE (fs_info fs) (\<lambda>info.
      let fs = set_info (info\<lparr>bi_device_count := bi_device_count info - 1\<rparr>) fs;
          fs = fs\<lparr>fs_minors := ida_free minor (fs_minors fs)\<rparr>
      in bindE (iput i fs) (\<lambda>fs. Inr (ret, fs))))"

text \<open>
  The creation once the minor number is taken. \<open>userp\<close> is whether there is a structure of
  the caller to write the numbers back to; the result says what was written there. A
  name that is already in the directory is a positive dentry. The request is cut at
  \<open>BINDERFS_MAX_NAME\<close> characters before it is measured.
\<close>

definition device_create_fail ::
  "int \<Rightarrow> int \<Rightarrow> binderfs_device option \<Rightarrow> nat option \<Rightarrow> nat option \<Rightarrow> binderfs \<Rightarrow>
   (int \<times> binderfs_device option \<times> binderfs) chk" where
  "device_create_fail ret minor written d i fs =
     bindE (device_create_err ret minor d i fs) (\<lambda>(ret, fs). Inr (ret, written, fs))"

definition device_create_register ::
  "fs_env \<Rightarrow> int \<Rightarrow> bool \<Rightarrow> binderfs_device \<Rightarrow> int \<Rightarrow> binderfs_info \<Rightarrow> nat \<Rightarrow> nat \<Rightarrow> binderfs \<Rightarrow>
   (int \<times> binderfs_device option \<times> binderfs) chk" where
  "device_create_register env major userp req minor info d i fs =
     (let ino = inode_zero\<lparr>in_ino := nat minor + INODE_OFFSET, in_chr := True, in_minor := minor,
            in_fop := Some Binder_Fops, in_uid := bi_root_uid info, in_gid := bi_root_gid info\<rparr>;
          fs = set_inode i (Some ino) fs;
          name = take BINDERFS_MAX_NAME (bd_name req)
      in if \<not> fe_kmemdup env then device_create_fail (- ENOMEM) minor None (Some d) (Some i) fs
         else
           let fs = fs_set_device d (Some (binder_device_zero\<lparr>dv_ref := 1, dv_inode := Some i,
                 dv_mgr_uid := INVALID_UID, dv_name := Some name, dv_minor := minor\<rparr>)) fs;
               req = \<lparr>bd_name = name, bd_major = major, bd_minor = minor\<rparr>;
               written = (if userp then Some req else None)
           in if userp \<and> \<not> fe_copy env then device_create_fail (- EFAULT) minor None (Some d) (Some i) fs
              else if fe_lookup_err env \<noteq> 0 then device_create_fail (fe_lookup_err env) minor written (Some d) (Some i) fs
              else if name \<in> fst ` set (sb_names (fs_sb fs))
              then device_create_fail (- EEXIST) minor written (Some d) (Some i) fs
              else
                let fs = set_inode i (Some (ino\<lparr>in_private := Some d\<rparr>)) fs;
                    fs = fs\<lparr>fs_sb := (fs_sb fs)\<lparr>sb_names := sb_names (fs_sb fs) @ [(name, i)]\<rparr>\<rparr>
                in Inr (0, written, fs))"

definition device_create_minor :: "fs_env \<Rightarrow> binderfs_info \<Rightarrow> int list \<Rightarrow> int \<times> int list" where
  "device_create_minor env info minors =
     (if bi_device_count info + 1 \<le> mo_max (bi_mount_opts info)
      then ida_alloc_max (fe_ida env) (if bi_reserve info then BINDERFS_MAX_MINOR else BINDERFS_MAX_MINOR_CAPPED) minors
      else (- ENOSPC, minors))"

definition binderfs_binder_device_create ::
  "fs_env \<Rightarrow> int \<Rightarrow> bool \<Rightarrow> binderfs_device \<Rightarrow> binderfs \<Rightarrow> (int \<times> binderfs_device option \<times> binderfs) chk" where
  "binderfs_binder_device_create env major userp req fs =
     bindE (fs_info fs) (\<lambda>info.
     let (minor, minors) = device_create_minor env info (fs_minors fs)
     in if minor < 0 then Inr (minor, None, set_info (info\<lparr>bi_device_count := bi_device_count info + 1 - 1\<rparr>) fs)
        else
          let fs = set_info (info\<lparr>bi_device_count := bi_device_count info + 1\<rparr>) (fs\<lparr>fs_minors := minors\<rparr>)
          in (case fs_alloc fs of
                (None, fs) \<Rightarrow> device_create_fail (- ENOMEM) minor None None None fs
              | (Some d, fs) \<Rightarrow>
                  (case new_inode (fs_set_device d (Some binder_device_zero) fs) of
                     (None, fs) \<Rightarrow> device_create_fail (- ENOMEM) minor None (Some d) None fs
                   | (Some i, fs) \<Rightarrow> device_create_register env major userp req minor info d i fs)))"

section \<open>Mount options\<close>

text \<open>
  \<open>match_token\<close> is the kernel's: for a piece of the option string it gives the entry of the
  table \<open>tokens\<close> that matches with its argument, the result of \<open>match_int\<close> or the copy
  \<open>match_strdup\<close> makes, each \<open>None\<close> if that call fails.
\<close>

datatype opt_token =
    Opt_max "int option"
  | Opt_stat_mode "string option"
  | Opt_err

text \<open>\<open>strsep (&data, ",")\<close> until it returns the null pointer.\<close>

fun split_comma :: "string \<Rightarrow> string list" where
  "split_comma [] = [[]]"
| "split_comma (c # cs) =
     (if c = CHR '','' then [] # split_comma cs
      else (case split_comma cs of p # ps \<Rightarrow> (c # p) # ps | [] \<Rightarrow> [[c]]))"

fun parse_opts_loop ::
  "(string \<Rightarrow> opt_token) \<Rightarrow> bool \<Rightarrow> string list \<Rightarrow> binderfs_mount_opts \<Rightarrow> int \<times> binderfs_mount_opts" where
  "parse_opts_loop match_token sys_admin [] opts = (0, opts)"
| "parse_opts_loop match_token sys_admin (p # ps) opts =
     (if p = [] then parse_opts_loop match_token sys_admin ps opts
      else case match_token p of
        Opt_max arg \<Rightarrow>
          (case arg of
             None \<Rightarrow> (- EINVAL, opts)
           | Some max_devices \<Rightarrow>
               if max_devices < 0 \<or> max_devices > BINDERFS_MAX_MINOR then (- EINVAL, opts)
               else parse_opts_loop match_token sys_admin ps (opts\<lparr>mo_max := max_devices\<rparr>))
      | Opt_stat_mode arg \<Rightarrow>
          if \<not> sys_admin then (- EINVAL, opts)
          else
            (case arg of
               None \<Rightarrow> (- ENOMEM, opts)
             | Some stats \<Rightarrow>
                 if stats \<noteq> ''global'' then (- EINVAL, opts)
                 else parse_opts_loop match_token sys_admin ps (opts\<lparr>mo_stats_mode := STATS_GLOBAL\<rparr>))
      | Opt_err \<Rightarrow> (- EINVAL, opts))"

definition binderfs_parse_mount_opts ::
  "(string \<Rightarrow> opt_token) \<Rightarrow> bool \<Rightarrow> string option \<Rightarrow> binderfs_mount_opts \<Rightarrow> int \<times> binderfs_mount_opts" where
  "binderfs_parse_mount_opts match_token sys_admin data opts =
     (let opts = opts\<lparr>mo_max := BINDERFS_MAX_MINOR, mo_stats_mode := STATS_NONE\<rparr> in
      parse_opts_loop match_token sys_admin (case data of None \<Rightarrow> [] | Some s \<Rightarrow> split_comma s) opts)"

definition binderfs_remount ::
  "(string \<Rightarrow> opt_token) \<Rightarrow> bool \<Rightarrow> string option \<Rightarrow> binderfs \<Rightarrow> (int \<times> binderfs) chk" where
  "binderfs_remount match_token sys_admin data fs =
     bindE (fs_info fs) (\<lambda>info.
     let prev_stats_mode = mo_stats_mode (bi_mount_opts info);
         (ret, opts) = binderfs_parse_mount_opts match_token sys_admin data (bi_mount_opts info);
         fs = set_info (info\<lparr>bi_mount_opts := opts\<rparr>) fs
     in if ret \<noteq> 0 then Inr (ret, fs)
        else if prev_stats_mode \<noteq> mo_stats_mode opts
        then Inr (- EINVAL, set_info (info\<lparr>bi_mount_opts := opts\<lparr>mo_stats_mode := prev_stats_mode\<rparr>\<rparr>) fs)
        else Inr (0, fs))"

text \<open>The digits \<open>%d\<close> prints for a number that is not negative.\<close>

fun dec_digits :: "nat \<Rightarrow> string" where
  "dec_digits n = (if n < 10 then [char_of (48 + n)] else dec_digits (n div 10) @ [char_of (48 + n mod 10)])"

definition show_d :: "int \<Rightarrow> string" where
  "show_d i = (if i < 0 then CHR ''-'' # dec_digits (nat (- i)) else dec_digits (nat i))"

text \<open>The comparison with the unsigned \<open>BINDERFS_MAX_MINOR\<close> is unsigned.\<close>

definition binderfs_show_mount_opts :: "binderfs_info \<Rightarrow> string" where
  "binderfs_show_mount_opts info =
     (if (word_of_int (mo_max (bi_mount_opts info)) :: u32) \<le> 0x100000
      then '',max='' @ show_d (mo_max (bi_mount_opts info)) else []) @
     (if mo_stats_mode (bi_mount_opts info) = STATS_GLOBAL then '',stats=global'' else [])"

section \<open>Control file\<close>

abbreviation (input) BINDER_CTL_ADD :: u32 where "BINDER_CTL_ADD \<equiv> 0xC1086201"

text \<open>\<open>user_req\<close> is the structure at the caller's address, \<open>None\<close> if it cannot be read.\<close>

definition binder_ctl_ioctl ::
  "fs_env \<Rightarrow> int \<Rightarrow> u32 \<Rightarrow> binderfs_device option \<Rightarrow> binderfs \<Rightarrow> (int \<times> binderfs_device option \<times> binderfs) chk" where
  "binder_ctl_ioctl env major cmd user_req fs =
     (if cmd = BINDER_CTL_ADD then
        (case user_req of
           None \<Rightarrow> Inr (- EFAULT, user_req, fs)
         | Some device_req \<Rightarrow>
             bindE (binderfs_binder_device_create env major True device_req fs) (\<lambda>(ret, written, fs).
             Inr (ret, Some (case written of Some req \<Rightarrow> req | None \<Rightarrow> device_req), fs)))
      else Inr (- EINVAL, user_req, fs))"

text \<open>
  The control file. When there is one already the function jumps to \<open>out\<close> with the local
  variable \<open>inode\<close> not yet assigned and gives it to \<open>iput\<close>. A dentry that cannot be
  allocated leaves the minor number taken.
\<close>

definition binderfs_binder_ctl_create :: "fs_env \<Rightarrow> binderfs \<Rightarrow> (int \<times> binderfs) chk" where
  "binderfs_binder_ctl_create env fs =
     bindE (fs_info fs) (\<lambda>info.
     case fs_alloc fs of
       (None, fs) \<Rightarrow> Inr (- ENOMEM, fs)
     | (Some d, fs) \<Rightarrow>
         let fs = fs_set_device d (Some binder_device_zero) fs in
         if bi_control_dentry info \<noteq> None then Inl Uninitialised
         else
           (case new_inode fs of
              (None, fs) \<Rightarrow> Inr (- ENOMEM, fs_set_device d None fs)
            | (Some i, fs) \<Rightarrow>
                let (minor, minors) = ida_alloc_max (fe_ida env)
                      (if bi_reserve info then BINDERFS_MAX_MINOR else BINDERFS_MAX_MINOR_CAPPED) (fs_minors fs);
                    fs = fs\<lparr>fs_minors := minors\<rparr>
                in if minor < 0
                   then bindE (iput (Some i) (fs_set_device d None fs)) (\<lambda>fs. Inr (minor, fs))
                   else
                     let ino = inode_zero\<lparr>in_ino := SECOND_INODE, in_chr := True, in_minor := minor,
                           in_fop := Some Binder_Ctl_Fops, in_uid := bi_root_uid info, in_gid := bi_root_gid info\<rparr>;
                         fs = set_inode i (Some ino) fs;
                         fs = fs_set_device d (Some (binder_device_zero\<lparr>dv_ref := 1, dv_inode := Some i, dv_minor := minor\<rparr>)) fs
                     in if \<not> fe_dentry env
                        then bindE (iput (Some i) (fs_set_device d None fs)) (\<lambda>fs. Inr (- ENOMEM, fs))
                        else
                          let fs = set_inode i (Some (ino\<lparr>in_private := Some d\<rparr>)) fs;
                              fs = set_info (info\<lparr>bi_control_dentry := Some i\<rparr>) fs;
                              fs = fs\<lparr>fs_sb := (fs_sb fs)\<lparr>sb_names := sb_names (fs_sb fs) @ [(''binder-control'', i)]\<rparr>\<rparr>
                          in Inr (0, fs)))"

section \<open>Mounting\<close>

definition binder_devices_param :: string where
  "binder_devices_param = ''binder,hwbinder,vndbinder''"

definition strcspn_comma :: "string \<Rightarrow> nat" where
  "strcspn_comma name = length (takeWhile (\<lambda>c. c \<noteq> CHR '','') name)"

text \<open>What follows the first \<open>len\<close> characters and a comma behind them.\<close>

definition skip_name :: "nat \<Rightarrow> string \<Rightarrow> string" where
  "skip_name len name =
     (let name = drop len name in case name of c # cs \<Rightarrow> (if c = CHR '','' then cs else name) | [] \<Rightarrow> name)"

lemma length_skip_name: "0 < len \<Longrightarrow> len \<le> length name \<Longrightarrow> length (skip_name len name) < length name"
  by (cases "drop len name") (auto simp: skip_name_def Let_def dest: arg_cong [where f = length])

lemma strcspn_comma_le: "strcspn_comma name \<le> length name"
  by (simp add: strcspn_comma_def length_takeWhile_le)

text \<open>
  The loop at the end of \<open>binderfs_fill_super\<close>; \<open>envs k\<close> is for its \<open>k\<close>th pass. A name
  that does not fit the 256 bytes of \<open>device_info.name\<close> would overrun it.
\<close>

function fill_super_loop ::
  "(nat \<Rightarrow> fs_env) \<Rightarrow> int \<Rightarrow> nat \<Rightarrow> string \<Rightarrow> binderfs \<Rightarrow> (int \<times> binderfs) chk" where
  "fill_super_loop envs major k name fs =
     (let len = strcspn_comma name in
      if len = 0 then Inr (0, fs)
      else
        bindE (assertE OutOfBounds (len \<le> BINDERFS_MAX_NAME)) (\<lambda>_.
        bindE (binderfs_binder_device_create (envs k) major False
            \<lparr>bd_name = take len name, bd_major = 0, bd_minor = 0\<rparr> fs) (\<lambda>(ret, _, fs).
        if ret \<noteq> 0 then Inr (ret, fs) else fill_super_loop envs major (Suc k) (skip_name len name) fs)))"
  by pat_completeness auto
termination
  by (relation "measure (\<lambda>(_, _, _, name, _). length name)") (simp_all add: length_skip_name strcspn_comma_le)

text \<open>
  What \<open>binderfs_fill_super\<close> gets from the kernel: the parser and the capability, the ids of
  the mount's root user, and whether the namespace is the initial one and the root dentry
  can be made. \<open>INVALID_GID\<close> is \<open>-1\<close>; \<open>GLOBAL_ROOT_UID\<close> and \<open>GLOBAL_ROOT_GID\<close> are 0.
\<close>

record mount_env =
  me_match_token :: "string \<Rightarrow> opt_token"
  me_sys_admin :: bool
  me_root_uid :: u32
  me_root_gid :: u32
  me_init_ipc_ns :: bool
  me_make_root :: bool
  me_ctl :: fs_env
  me_devices :: "nat \<Rightarrow> fs_env"

definition binderfs_info_zero :: binderfs_info where
  "binderfs_info_zero = \<lparr>bi_reserve = False, bi_control_dentry = None, bi_root_uid = 0, bi_root_gid = 0,
     bi_mount_opts = \<lparr>mo_max = 0, mo_stats_mode = STATS_NONE\<rparr>, bi_device_count = 0\<rparr>"

text \<open>The root directory, the control file and the devices, once \<open>s_fs_info\<close> is set.\<close>

definition fill_super_root :: "mount_env \<Rightarrow> int \<Rightarrow> binderfs \<Rightarrow> (int \<times> binderfs) chk" where
  "fill_super_root env major fs =
     (case new_inode fs of
        (None, fs) \<Rightarrow> Inr (- ENOMEM, fs)
      | (Some i, fs) \<Rightarrow>
          let fs = set_inode i (Some (inode_zero\<lparr>in_ino := FIRST_INODE, in_fop := Some Dir_Fops\<rparr>)) fs
          in if \<not> me_make_root env then bindE (iput (Some i) fs) (\<lambda>fs. Inr (- ENOMEM, fs))
             else
               let fs = fs\<lparr>fs_sb := (fs_sb fs)\<lparr>sb_root := Some i\<rparr>\<rparr>
               in bindE (binderfs_binder_ctl_create (me_ctl env) fs) (\<lambda>(ret, fs).
                  if ret \<noteq> 0 then Inr (ret, fs)
                  else fill_super_loop (me_devices env) major 0 binder_devices_param fs))"

definition binderfs_fill_super :: "mount_env \<Rightarrow> int \<Rightarrow> string option \<Rightarrow> binderfs \<Rightarrow> (int \<times> binderfs) chk" where
  "binderfs_fill_super env major data fs =
     (let fs = fs\<lparr>fs_sb := (fs_sb fs)\<lparr>sb_nodev := False, sb_noexec := True, sb_magic := BINDERFS_SUPER_MAGIC\<rparr>\<rparr>
      in case fs_alloc fs of
           (None, fs) \<Rightarrow> Inr (- ENOMEM, fs\<lparr>fs_sb := (fs_sb fs)\<lparr>sb_info := None\<rparr>\<rparr>)
         | (Some _, fs) \<Rightarrow>
             let info = binderfs_info_zero\<lparr>bi_reserve := me_init_ipc_ns env\<rparr>;
                 (ret, opts) = binderfs_parse_mount_opts (me_match_token env) (me_sys_admin env) data (bi_mount_opts info);
                 info = info\<lparr>bi_mount_opts := opts\<rparr>
             in if ret \<noteq> 0 then Inr (ret, set_info info fs)
                else
                  let info = info\<lparr>bi_root_gid := (if me_root_gid env \<noteq> - 1 then me_root_gid env else 0),
                        bi_root_uid := (if uid_valid (me_root_uid env) then me_root_uid env else 0)\<rparr>;
                      fs = set_info info fs
                  in fill_super_root env major fs)"

text \<open>\<open>kill_litter_super\<close> is the kernel's; it evicts the inodes of the super block.\<close>

definition binderfs_kill_super :: "(binderfs \<Rightarrow> binderfs chk) \<Rightarrow> binderfs \<Rightarrow> binderfs chk" where
  "binderfs_kill_super kill_litter_super fs =
     bindE (kill_litter_super fs) (\<lambda>fs. Inr (fs\<lparr>fs_sb := (fs_sb fs)\<lparr>sb_info := None\<rparr>\<rparr>))"

section \<open>Loading and unloading\<close>

text \<open>The check of the device names before anything is registered.\<close>

function names_too_long :: "string \<Rightarrow> bool" where
  "names_too_long name =
     (let len = strcspn_comma name in
      if len = 0 then False
      else if len > BINDERFS_MAX_NAME then True
      else names_too_long (skip_name len name))"
  by pat_completeness auto
termination
  by (relation "measure length") (simp_all add: length_skip_name strcspn_comma_le)

record module_state =
  ms_chrdev :: bool
  ms_filesystem :: bool
  ms_shrinker :: shrinker

definition init_binderfs :: "string \<Rightarrow> int \<Rightarrow> int \<Rightarrow> module_state \<Rightarrow> int \<times> module_state" where
  "init_binderfs param alloc_ret register_ret ms =
     (if names_too_long param then (- E2BIG, ms)
      else if alloc_ret \<noteq> 0 then (alloc_ret, ms)
      else
        let ms = ms\<lparr>ms_chrdev := True\<rparr> in
        if register_ret \<noteq> 0 then (register_ret, ms\<lparr>ms_chrdev := False\<rparr>)
        else (register_ret, ms\<lparr>ms_filesystem := True\<rparr>))"

definition binder_fs_exit :: "module_state \<Rightarrow> module_state" where
  "binder_fs_exit ms = ms\<lparr>ms_filesystem := False, ms_chrdev := False\<rparr>"

text \<open>\<open>binder_init\<close> of \<open>binder.c\<close>: it does not undo the shrinker when \<open>init_binderfs\<close> fails.\<close>

definition binder_init ::
  "int \<Rightarrow> int \<Rightarrow> int \<Rightarrow> int \<Rightarrow> binder_kernel \<Rightarrow> module_state \<Rightarrow> int \<times> binder_kernel \<times> module_state" where
  "binder_init lru_ret shrinker_ret alloc_ret register_ret bk ms =
     (let (ret, sh) = binder_alloc_shrinker_init lru_ret shrinker_ret (ms_shrinker ms);
          ms = ms\<lparr>ms_shrinker := sh\<rparr>
      in if ret \<noteq> 0 then (ret, bk, ms)
         else
           let bk = bk\<lparr>bk_tlog := (bk_tlog bk)\<lparr>tl_cur := - 1\<rparr>, bk_tlog_failed := (bk_tlog_failed bk)\<lparr>tl_cur := - 1\<rparr>\<rparr>;
               (ret, ms) = init_binderfs binder_devices_param alloc_ret register_ret ms
           in (ret, bk, ms))"

definition binder_exit :: "module_state \<Rightarrow> module_state" where
  "binder_exit ms = binder_fs_exit (ms\<lparr>ms_shrinker := binder_alloc_exit (ms_shrinker ms)\<rparr>)"

declare fill_super_loop.simps [simp del] names_too_long.simps [simp del] dec_digits.simps [simp del]

end
