(* ===== verification/Binderfs_Props.thy ===== *)
theory Binderfs_Props
  imports Binderfs Binder_Demo
begin

text \<open>
  What binderfs promises: creating a device either succeeds or leaves no trace, the numbers
  and names of the devices of an instance are distinct, mount options can be shown and
  parsed back, a remount keeps the statistics mode, and mounting creates the devices of
  the parameter.
\<close>

section \<open>Minor numbers\<close>

lemma ida_lowest_free: "0 \<le> ida_lowest used \<and> ida_lowest used \<notin> set used"
proof -
  let ?free = "filter (\<lambda>i. i \<notin> set used) (map int [0..<Suc (length used)])"
  have "?free \<noteq> []"
  proof
    assume "?free = []"
    then have "int ` {0..<Suc (length used)} \<subseteq> set used"
      by (auto simp: filter_empty_conv simp del: upt_Suc)
    then have "card (int ` {0..<Suc (length used)}) \<le> card (set used)" by (intro card_mono) auto
    also have "\<dots> \<le> length used" by (rule card_length)
    finally show False by (simp add: card_image)
  qed
  then have "hd ?free \<in> set ?free" by (rule hd_in_set)
  then show ?thesis by (auto simp: ida_lowest_def)
qed

lemma ida_alloc_max_cases:
  assumes "ida_alloc_max ok mx used = (i, used')"
  obtains "i < 0" "used' = used" | "0 \<le> i" "i \<le> mx" "i \<notin> set used" "used' = i # used"
proof (cases "ok \<and> ida_lowest used \<le> mx")
  case True
  with assms have "i = ida_lowest used" "used' = ida_lowest used # used" by (auto simp: ida_alloc_max_def Let_def)
  with True ida_lowest_free [of used] show ?thesis by (intro that(2)) auto
next
  case False
  with assms have "i < 0" "used' = used" by (auto simp: ida_alloc_max_def Let_def split: if_splits)
  then show ?thesis by (rule that(1))
qed

section \<open>Creating a device\<close>

text \<open>The states of an instance the proofs start from: mounted, new addresses unused.\<close>

definition fs_fresh :: "binderfs \<Rightarrow> bool" where
  "fs_fresh fs \<longleftrightarrow> (\<forall>a \<ge> bk_next (fs_bk fs). bk_devices (fs_bk fs) a = None \<and> fs_inodes fs a = None)"

text \<open>The state with the allocator moved on and nothing else changed.\<close>

definition fs_moved :: "bool list \<Rightarrow> nat \<Rightarrow> binderfs \<Rightarrow> binderfs" where
  "fs_moved oks next fs = fs\<lparr>fs_bk := (fs_bk fs)\<lparr>bk_kzalloc := oks, bk_next := next\<rparr>\<rparr>"

lemma fs_moved_simps [simp]:
  "fs_minors (fs_moved oks next fs) = fs_minors fs" "fs_inodes (fs_moved oks next fs) = fs_inodes fs"
  "fs_sb (fs_moved oks next fs) = fs_sb fs" "bk_devices (fs_bk (fs_moved oks next fs)) = bk_devices (fs_bk fs)"
  "bk_next (fs_bk (fs_moved oks next fs)) = next" "bk_kzalloc (fs_bk (fs_moved oks next fs)) = oks"
  "fs_moved oks' next' (fs_moved oks next fs) = fs_moved oks' next' fs"
  by (simp_all add: fs_moved_def)

lemma fs_moved_same: "bk_kzalloc (fs_bk fs) = oks \<Longrightarrow> bk_next (fs_bk fs) = next \<Longrightarrow> fs_moved oks next fs = fs"
  by (cases fs, cases "fs_bk fs") (simp add: fs_moved_def)

text \<open>What a new device adds: \<open>d\<close> with inode \<open>i\<close> and minor number \<open>m\<close>, listed as \<open>name\<close>.\<close>

definition device_added :: "string \<Rightarrow> nat \<Rightarrow> nat \<Rightarrow> int \<Rightarrow> binderfs_info \<Rightarrow> binderfs \<Rightarrow> binderfs" where
  "device_added name d i m info fs =
     \<lparr>fs_minors = m # fs_minors fs,
      fs_inodes = (fs_inodes fs)(i \<mapsto> \<lparr>in_ino = nat m + INODE_OFFSET, in_chr = True, in_minor = m,
        in_fop = Some Binder_Fops, in_uid = bi_root_uid info, in_gid = bi_root_gid info, in_private = Some d\<rparr>),
      fs_sb = (fs_sb fs)\<lparr>sb_info := Some (info\<lparr>bi_device_count := bi_device_count info + 1\<rparr>),
        sb_names := sb_names (fs_sb fs) @ [(name, i)]\<rparr>,
      fs_bk = (fs_bk fs)\<lparr>bk_devices := (bk_devices (fs_bk fs))(d \<mapsto> \<lparr>dv_mgr_node = None, dv_mgr_uid = INVALID_UID,
        dv_name = Some name, dv_minor = m, dv_inode = Some i, dv_ref = 1\<rparr>)\<rparr>\<rparr>"

lemma fs_alloc_cases:
  assumes "fs_alloc fs = (r, fs')"
  obtains (none) oks where "r = None" "fs' = fs_moved oks (bk_next (fs_bk fs)) fs"
  | (some) oks where "r = Some (bk_next (fs_bk fs))" "fs' = fs_moved oks (Suc (bk_next (fs_bk fs))) fs"
proof (cases "bk_kzalloc (fs_bk fs)")
  case Nil
  then have "r = None" "fs' = fs_moved [] (bk_next (fs_bk fs)) fs"
    using assms by (auto simp: fs_alloc_def kzalloc_def fs_moved_same)
  then show ?thesis by (rule none)
next
  case (Cons ok oks)
  show ?thesis
  proof (cases ok)
    case True
    with assms Cons have "r = Some (bk_next (fs_bk fs))" "fs' = fs_moved oks (Suc (bk_next (fs_bk fs))) fs"
      by (auto simp: fs_alloc_def kzalloc_def fs_moved_def)
    then show ?thesis by (rule some)
  next
    case False
    with assms Cons have "r = None" "fs' = fs_moved oks (bk_next (fs_bk fs)) fs"
      by (auto simp: fs_alloc_def kzalloc_def fs_moved_def)
    then show ?thesis by (rule none)
  qed
qed

lemma device_added_simps [simp]:
  "fs_minors (device_added name d i m info fs) = m # fs_minors fs"
  "sb_names (fs_sb (device_added name d i m info fs)) = sb_names (fs_sb fs) @ [(name, i)]"
  "sb_info (fs_sb (device_added name d i m info fs)) = Some (info\<lparr>bi_device_count := bi_device_count info + 1\<rparr>)"
  "bk_next (fs_bk (device_added name d i m info fs)) = bk_next (fs_bk fs)"
  by (simp_all add: device_added_def)

text \<open>A creation under way: the number taken, then the device, then the inode.\<close>

definition started :: "int \<Rightarrow> binderfs_info \<Rightarrow> binderfs \<Rightarrow> binderfs" where
  "started m info fs = set_info (info\<lparr>bi_device_count := bi_device_count info + 1\<rparr>) (fs\<lparr>fs_minors := m # fs_minors fs\<rparr>)"

lemma fs_commute [simp]:
  "fs_set_device d dv (fs_moved oks n fs) = fs_moved oks n (fs_set_device d dv fs)"
  "set_inode i ino (fs_moved oks n fs) = fs_moved oks n (set_inode i ino fs)"
  "set_info info (fs_moved oks n fs) = fs_moved oks n (set_info info fs)"
  "fs_set_device d dv (set_inode i ino fs) = set_inode i ino (fs_set_device d dv fs)"
  "fs_set_device d dv (fs_set_device d dv' fs) = fs_set_device d dv fs"
  "set_inode i ino (set_inode i ino' fs) = set_inode i ino fs"
  by (simp_all add: fs_set_device_def fs_moved_def set_inode_def set_info_def)

lemma fs_proj [simp]:
  "fs_inodes (set_inode i ino fs) = (fs_inodes fs)(i := ino)" "fs_inodes (fs_set_device d dv fs) = fs_inodes fs"
  "fs_sb (set_inode i ino fs) = fs_sb fs" "fs_sb (fs_set_device d dv fs) = fs_sb fs"
  "fs_minors (set_inode i ino fs) = fs_minors fs" "fs_minors (fs_set_device d dv fs) = fs_minors fs"
  "bk_next (fs_bk (set_inode i ino fs)) = bk_next (fs_bk fs)" "bk_next (fs_bk (fs_set_device d dv fs)) = bk_next (fs_bk fs)"
  "bk_devices (fs_bk (set_inode i ino fs)) = bk_devices (fs_bk fs)"
  "bk_devices (fs_bk (fs_set_device d dv fs)) = (bk_devices (fs_bk fs))(d := dv)"
  by (simp_all add: set_inode_def fs_set_device_def)

lemma started_proj [simp]:
  "sb_info (fs_sb (started m info fs)) = Some (info\<lparr>bi_device_count := bi_device_count info + 1\<rparr>)"
  "sb_names (fs_sb (started m info fs)) = sb_names (fs_sb fs)" "fs_minors (started m info fs) = m # fs_minors fs"
  "fs_inodes (started m info fs) = fs_inodes fs" "fs_bk (started m info fs) = fs_bk fs"
  by (simp_all add: started_def set_info_def)

lemma set_info_same: "sb_info (fs_sb fs) = Some info \<Longrightarrow> set_info info fs = fs"
  by (cases fs, cases "fs_sb fs") (simp add: set_info_def)

lemma started_undo:
  assumes "sb_info (fs_sb fs) = Some info"
  shows "(set_info info (started m info fs))\<lparr>fs_minors := fs_minors fs\<rparr> = fs"
  using assms by (cases fs, cases "fs_sb fs", cases info) (simp add: started_def set_info_def)

lemma set_none_same:
  "bk_devices (fs_bk fs) d = None \<Longrightarrow> fs_set_device d None fs = fs"
  "fs_inodes fs i = None \<Longrightarrow> set_inode i None fs = fs"
  by (cases fs, cases "fs_bk fs") (simp_all add: fs_set_device_def set_inode_def fun_upd_idem)

text \<open>The label \<open>err\<close> takes back what was done so far.\<close>

lemma device_create_err_undoes:
  assumes info: "sb_info (fs_sb fs) = Some info" and d: "bk_devices (fs_bk fs) d = None" and i: "fs_inodes fs i = None"
    and m: "m \<notin> set (fs_minors fs)"
  shows "device_create_err ret m None None (fs_moved oks n (started m info fs)) = Inr (ret, fs_moved oks n fs)"
    and "device_create_err ret m (Some d) None (fs_moved oks n (fs_set_device d dv (started m info fs))) =
      Inr (ret, fs_moved oks n fs)"
    and "in_private ino = None \<Longrightarrow> device_create_err ret m (Some d) (Some i)
      (fs_moved oks n (set_inode i (Some ino) (fs_set_device d dv (started m info fs)))) = Inr (ret, fs_moved oks n fs)"
proof -
  have dev: "fs_set_device d None (started m info fs) = started m info fs"
    using d by (intro set_none_same) simp
  have minors: "(fs_moved oks n x)\<lparr>fs_minors := ms\<rparr> = fs_moved oks n (x\<lparr>fs_minors := ms\<rparr>)"
    "(set_inode j y x)\<lparr>fs_minors := ms\<rparr> = set_inode j y (x\<lparr>fs_minors := ms\<rparr>)"
    "set_info inf (set_inode j y x) = set_inode j y (set_info inf x)" for x ms j y inf
    by (simp_all add: fs_moved_def set_inode_def set_info_def)
  have proj: "fs_minors (set_info inf x) = fs_minors x" "fs_info (fs_moved oks n x) = fs_info x"
    "fs_info (set_inode j y x) = fs_info x" "sb_info (fs_sb (set_info inf x)) = Some inf" for inf x j y
    by (simp_all add: set_info_def fs_info_def)
  have start: "fs_info (started m info fs) = Inr (info\<lparr>bi_device_count := bi_device_count info + 1\<rparr>)"
    by (simp add: fs_info_def)
  note simps = device_create_err_def Let_def dev minors proj start ida_free_def iput_def started_undo [OF info]
  show "device_create_err ret m None None (fs_moved oks n (started m info fs)) = Inr (ret, fs_moved oks n fs)"
    by (simp add: simps)
  show "device_create_err ret m (Some d) None (fs_moved oks n (fs_set_device d dv (started m info fs))) =
      Inr (ret, fs_moved oks n fs)"
    by (simp add: simps)
  assume "in_private ino = None"
  then show "device_create_err ret m (Some d) (Some i)
      (fs_moved oks n (set_inode i (Some ino) (fs_set_device d dv (started m info fs)))) = Inr (ret, fs_moved oks n fs)"
    using set_none_same(2) [OF i] info by (simp add: simps binderfs_evict_inode_def fs_info_def)
qed

lemma device_create_minor_cases:
  assumes "device_create_minor env info used = (m, used')" and "0 \<le> m"
  shows "bi_device_count info < mo_max (bi_mount_opts info)" and "m \<le> BINDERFS_MAX_MINOR"
    and "m \<notin> set used" and "used' = m # used"
  using assms by (auto simp: device_create_minor_def elim!: ida_alloc_max_cases split: if_splits)

text \<open>The last part, with the device and the inode at hand.\<close>

lemma device_create_register_cases:
  assumes info: "sb_info (fs_sb fs) = Some info" and d: "bk_devices (fs_bk fs) d = None" and i: "fs_inodes fs i = None"
    and m: "m \<notin> set (fs_minors fs)"
    and name: "name = take BINDERFS_MAX_NAME (bd_name req)"
  shows "(\<exists>ret wr. ret \<noteq> 0 \<and> device_create_register env major userp req m info d i
      (fs_moved oks n (set_inode i (Some inode_zero) (fs_set_device d (Some binder_device_zero) (started m info fs)))) =
        Inr (ret, wr, fs_moved oks n fs)) \<or>
    name \<notin> fst ` set (sb_names (fs_sb fs)) \<and>
    device_create_register env major userp req m info d i
      (fs_moved oks n (set_inode i (Some inode_zero) (fs_set_device d (Some binder_device_zero) (started m info fs)))) =
        Inr (0, if userp then Some \<lparr>bd_name = name, bd_major = major, bd_minor = m\<rparr> else None,
          fs_moved oks n (device_added name d i m info fs))"
proof -
  let ?ino = "inode_zero\<lparr>in_ino := nat m + INODE_OFFSET, in_chr := True, in_minor := m, in_fop := Some Binder_Fops,
    in_uid := bi_root_uid info, in_gid := bi_root_gid info\<rparr>"
  note undo = device_create_err_undoes(3) [OF info d i m, of ?ino]
  have fail: "device_create_fail ret m wr (Some d) (Some i)
    (fs_moved oks n (set_inode i (Some ?ino) (fs_set_device d dv (started m info fs)))) = Inr (ret, wr, fs_moved oks n fs)"
    for ret wr dv
    using undo by (simp add: device_create_fail_def inode_zero_def)
  let ?fs = "fs_moved oks n (set_inode i (Some inode_zero) (fs_set_device d (Some binder_device_zero) (started m info fs)))"
  have "device_create_register env major userp req m info d i ?fs = Inr (0,
      if userp then Some \<lparr>bd_name = name, bd_major = major, bd_minor = m\<rparr> else None,
      fs_moved oks n (device_added name d i m info fs))"
    if "fe_kmemdup env" "\<not> (userp \<and> \<not> fe_copy env)" "fe_lookup_err env = 0" "name \<notin> fst ` set (sb_names (fs_sb fs))"
  proof -
    have "\<not> (userp \<and> \<not> fe_copy env)" by (fact that(2))
    then show ?thesis
      using that
      by (simp only: device_create_register_def Let_def name [symmetric] if_True if_False not_not refl not_True_eq_False
          if_not_P simp_thms) (simp add: fs_moved_def set_inode_def fs_set_device_def
          started_def set_info_def device_added_def inode_zero_def binder_device_zero_def)
  qed
  moreover have "\<exists>ret wr. ret \<noteq> 0 \<and> device_create_register env major userp req m info d i ?fs = Inr (ret, wr, fs_moved oks n fs)"
    if "\<not> (fe_kmemdup env \<and> \<not> (userp \<and> \<not> fe_copy env) \<and> fe_lookup_err env = 0 \<and> name \<notin> fst ` set (sb_names (fs_sb fs)))"
  proof -
    consider "\<not> fe_kmemdup env" | "fe_kmemdup env" "userp \<and> \<not> fe_copy env"
      | "fe_kmemdup env" "\<not> (userp \<and> \<not> fe_copy env)" "fe_lookup_err env \<noteq> 0"
      | "fe_kmemdup env" "\<not> (userp \<and> \<not> fe_copy env)" "fe_lookup_err env = 0" "name \<in> fst ` set (sb_names (fs_sb fs))"
      using \<open>\<not> (fe_kmemdup env \<and> _)\<close> by blast
    then show ?thesis
      by cases (simp_all only: device_create_register_def Let_def name [symmetric] if_True if_False not_not refl
          if_P if_not_P simp_thms, simp_all add: fail)
  qed
  ultimately show ?thesis by blast
qed

lemma new_inode_eq:
  "new_inode fs = (case fs_alloc fs of
     (Some i, fs) \<Rightarrow> (Some i, set_inode i (Some inode_zero) fs) | (None, fs) \<Rightarrow> (None, fs))"
  by (simp add: new_inode_def set_inode_def split: prod.split option.split)

lemma device_create_cases:
  assumes info: "sb_info (fs_sb fs) = Some info" and fresh: "fs_fresh fs"
    and name: "name = take BINDERFS_MAX_NAME (bd_name req)"
    and d: "d = bk_next (fs_bk fs)"
  shows "(\<exists>ret wr oks n. ret \<noteq> 0 \<and> d \<le> n \<and>
        binderfs_binder_device_create env major userp req fs = Inr (ret, wr, fs_moved oks n fs)) \<or>
    (\<exists>m oks. binderfs_binder_device_create env major userp req fs =
        Inr (0, if userp then Some \<lparr>bd_name = name, bd_major = major, bd_minor = m\<rparr> else None,
          fs_moved oks (d + 2) (device_added name d (d + 1) m info fs)) \<and>
      0 \<le> m \<and> m \<le> BINDERFS_MAX_MINOR \<and> m \<notin> set (fs_minors fs) \<and> name \<notin> fst ` set (sb_names (fs_sb fs)) \<and>
      bi_device_count info < mo_max (bi_mount_opts info))"
proof -
  obtain m used where minor: "device_create_minor env info (fs_minors fs) = (m, used)" by fastforce
  let ?create = "binderfs_binder_device_create env major userp req fs"
  have unfold: "?create = (if m < 0 then Inr (m, None, fs) else
      (case fs_alloc (started m info fs) of
         (None, fs) \<Rightarrow> device_create_fail (- ENOMEM) m None None None fs
       | (Some d, fs) \<Rightarrow>
           (case new_inode (fs_set_device d (Some binder_device_zero) fs) of
              (None, fs) \<Rightarrow> device_create_fail (- ENOMEM) m None (Some d) None fs
            | (Some i, fs) \<Rightarrow> device_create_register env major userp req m info d i fs)))"
    using minor info device_create_minor_cases(4) [OF minor]
    by (simp add: binderfs_binder_device_create_def fs_info_def set_info_same started_def)
  show ?thesis
  proof (cases "m < 0")
    case True
    have "fs = fs_moved (bk_kzalloc (fs_bk fs)) (bk_next (fs_bk fs)) fs" by (simp add: fs_moved_same)
    with True unfold d show ?thesis by (intro disjI1 exI conjI) (auto simp: d)
  next
    case False
    then have m: "m \<notin> set (fs_minors fs)" "m \<le> BINDERFS_MAX_MINOR" "bi_device_count info < mo_max (bi_mount_opts info)"
      using device_create_minor_cases [OF minor] by auto
    have dd: "bk_devices (fs_bk fs) d = None" and ii: "fs_inodes fs (d + 1) = None"
      using fresh d by (auto simp: fs_fresh_def)
    note undo = device_create_err_undoes [OF info dd ii m(1)]
    obtain r1 fs1 where alloc1: "fs_alloc (started m info fs) = (r1, fs1)" by fastforce
    from alloc1 show ?thesis
    proof (cases rule: fs_alloc_cases)
      case (none oks)
      with False unfold alloc1 d show ?thesis
        by (intro disjI1 exI [of _ "- ENOMEM"] exI [of _ None] exI [of _ oks] exI [of _ d])
          (simp add: device_create_fail_def undo)
    next
      case (some oks)
      let ?fs = "fs_set_device d (Some binder_device_zero) (started m info fs)"
      obtain r2 fs2 where alloc2: "fs_alloc (fs_moved oks (Suc d) ?fs) = (r2, fs2)" by fastforce
      have create: "?create = (case new_inode (fs_moved oks (Suc d) ?fs) of
              (None, fs) \<Rightarrow> device_create_fail (- ENOMEM) m None (Some d) None fs
            | (Some i, fs) \<Rightarrow> device_create_register env major userp req m info d i fs)"
        using unfold alloc1 some False unfolding d by simp
      from alloc2 show ?thesis
      proof (cases rule: fs_alloc_cases)
        case (none oks')
        with create alloc2 show ?thesis
          by (intro disjI1 exI [of _ "- ENOMEM"] exI [of _ None] exI [of _ oks'] exI [of _ "Suc d"])
            (simp add: device_create_fail_def undo new_inode_def)
      next
        case (some oks')
        let ?reg = "device_create_register env major userp req m info d (d + 1)
            (fs_moved oks' (d + 2) (set_inode (d + 1) (Some inode_zero) ?fs))"
        have create: "?create = ?reg"
          using create alloc2 some by (simp add: new_inode_eq)
        from device_create_register_cases [OF info dd ii m(1) name, of env major userp oks' "d + 2"]
        show ?thesis
        proof (elim disjE exE conjE)
          fix ret wr
          assume "ret \<noteq> 0" and "?reg = Inr (ret, wr, fs_moved oks' (d + 2) fs)"
          with create show ?thesis
            by (intro disjI1 exI [of _ ret] exI [of _ wr] exI [of _ oks'] exI [of _ "d + 2"]) simp
        next
          assume "name \<notin> fst ` set (sb_names (fs_sb fs))" and "?reg = Inr (0,
            if userp then Some \<lparr>bd_name = name, bd_major = major, bd_minor = m\<rparr> else None,
            fs_moved oks' (d + 2) (device_added name d (d + 1) m info fs))"
          with create m False show ?thesis
            by (intro disjI2 exI [of _ m] exI [of _ oks']) (simp del: One_nat_def)
        qed
      qed
    qed
  qed
qed

section \<open>The devices of an instance\<close>

text \<open>
  Every name of the root directory leads to an inode whose device carries the same minor
  number; names and numbers are distinct, and the numbers are taken in the shared pool.
\<close>

definition inode_minor :: "binderfs \<Rightarrow> nat \<Rightarrow> int" where
  "inode_minor fs i = (case fs_inodes fs i of Some ino \<Rightarrow> in_minor ino | None \<Rightarrow> - 1)"

definition listed_ok :: "binderfs \<Rightarrow> nat \<Rightarrow> bool" where
  "listed_ok fs i \<longleftrightarrow> i < bk_next (fs_bk fs) \<and>
     (\<exists>ino d dv. fs_inodes fs i = Some ino \<and> in_private ino = Some d \<and> d < bk_next (fs_bk fs) \<and>
        bk_devices (fs_bk fs) d = Some dv \<and> dv_inode dv = Some i \<and> dv_minor dv = in_minor ino \<and>
        in_minor ino \<in> set (fs_minors fs))"

definition instance_ok :: "binderfs \<Rightarrow> bool" where
  "instance_ok fs \<longleftrightarrow> fs_fresh fs \<and> sb_info (fs_sb fs) \<noteq> None \<and> distinct (fs_minors fs) \<and>
     distinct (map fst (sb_names (fs_sb fs))) \<and> distinct (map (inode_minor fs \<circ> snd) (sb_names (fs_sb fs))) \<and>
     (\<forall>(_, i) \<in> set (sb_names (fs_sb fs)). listed_ok fs i)"

lemma instance_ok_moved:
  assumes "instance_ok fs" and "bk_next (fs_bk fs) \<le> n"
  shows "instance_ok (fs_moved oks n fs)"
proof -
  have "inode_minor (fs_moved oks n fs) = inode_minor fs" by (rule ext) (simp add: inode_minor_def)
  with assms show ?thesis
    by (auto simp: instance_ok_def fs_fresh_def listed_ok_def intro: less_le_trans dest!: bspec)
qed

lemma instance_ok_added:
  assumes ok: "instance_ok fs" and info: "sb_info (fs_sb fs) = Some info" and d: "d = bk_next (fs_bk fs)"
    and m: "m \<notin> set (fs_minors fs)" and name: "name \<notin> fst ` set (sb_names (fs_sb fs))"
  shows "instance_ok (fs_moved oks (d + 2) (device_added name d (d + 1) m info fs))" (is "instance_ok ?fs")
proof -
  let ?names = "sb_names (fs_sb fs)"
  have same: "inode_minor ?fs i = inode_minor fs i \<and> listed_ok ?fs i \<and> inode_minor fs i \<in> set (fs_minors fs)"
    if "(x, i) \<in> set ?names" for x i
  proof -
    from that ok obtain ino e dv where i: "i < d" "e < d" and ino: "fs_inodes fs i = Some ino" "in_private ino = Some e"
      and dv: "bk_devices (fs_bk fs) e = Some dv" "dv_inode dv = Some i" "dv_minor dv = in_minor ino"
        "in_minor ino \<in> set (fs_minors fs)"
      by (auto simp: instance_ok_def listed_ok_def d)
    then have "fs_inodes ?fs i = Some ino" "bk_devices (fs_bk ?fs) e = Some dv" "bk_next (fs_bk ?fs) = d + 2"
      by (simp_all add: device_added_def)
    with i ino dv show ?thesis
      unfolding listed_ok_def inode_minor_def by (auto simp: device_added_def)
  qed
  have eq: "map (inode_minor ?fs \<circ> snd) ?names = map (inode_minor fs \<circ> snd) ?names"
    using same by (auto simp: comp_def)
  have "distinct (map (inode_minor ?fs \<circ> snd) ?names)"
    unfolding eq using ok by (simp only: instance_ok_def)
  moreover have "(inode_minor ?fs \<circ> snd) ` set ?names = (inode_minor fs \<circ> snd) ` set ?names"
    using arg_cong [OF eq, of set] by (simp only: set_map)
  moreover have "\<forall>(_, i) \<in> set ?names. listed_ok ?fs i" using same by auto
  moreover have "inode_minor ?fs (d + 1) = m"
    by (simp add: inode_minor_def device_added_def fs_moved_def)
  moreover have "m \<notin> (inode_minor fs \<circ> snd) ` set ?names"
    using same m by auto
  moreover have "listed_ok ?fs (d + 1)"
    by (simp add: listed_ok_def device_added_def fs_moved_def)
  moreover have "fs_fresh ?fs"
    using ok d by (auto simp: instance_ok_def fs_fresh_def device_added_def fs_moved_def)
  moreover have "sb_names (fs_sb ?fs) = ?names @ [(name, d + 1)]" "fs_minors ?fs = m # fs_minors fs"
    "sb_info (fs_sb ?fs) \<noteq> None"
    by (simp_all add: device_added_def)
  ultimately show ?thesis
    using ok m name by (auto simp: instance_ok_def simp del: One_nat_def)
qed

text \<open>A creation keeps the instance in order and extends the directory by at most the name asked for.\<close>

lemma device_create_keeps:
  assumes "instance_ok fs" and "sb_info (fs_sb fs) = Some info"
    and create: "binderfs_binder_device_create env major userp req fs = r"
  obtains ret written fs' info' where "r = Inr (ret, written, fs')" "instance_ok fs'" "sb_info (fs_sb fs') = Some info'"
    "ret \<noteq> 0 \<Longrightarrow> info' = info \<and> sb_names (fs_sb fs') = sb_names (fs_sb fs) \<and> fs_minors fs' = fs_minors fs"
    "ret = 0 \<Longrightarrow> map fst (sb_names (fs_sb fs')) = map fst (sb_names (fs_sb fs)) @ [take BINDERFS_MAX_NAME (bd_name req)] \<and>
       bi_device_count info' = bi_device_count info + 1"
proof -
  have "fs_fresh fs" using assms(1) by (simp add: instance_ok_def)
  then consider
    (failed) ret wr oks n where "ret \<noteq> 0" "bk_next (fs_bk fs) \<le> n" "r = Inr (ret, wr, fs_moved oks n fs)"
  | (added) wr m oks where "r = Inr (0, wr, fs_moved oks (bk_next (fs_bk fs) + 2)
        (device_added (take BINDERFS_MAX_NAME (bd_name req)) (bk_next (fs_bk fs)) (bk_next (fs_bk fs) + 1) m info fs))"
      "m \<notin> set (fs_minors fs)" "take BINDERFS_MAX_NAME (bd_name req) \<notin> fst ` set (sb_names (fs_sb fs))"
    using device_create_cases [OF assms(2) _ refl refl, of env major userp req] create by blast
  then show ?thesis
  proof cases
    case failed
    with assms show ?thesis by (intro that [of ret wr "fs_moved oks n fs" info]) (auto intro: instance_ok_moved)
  next
    case added
    with instance_ok_added [OF assms(1,2) refl added(2,3), of oks] show ?thesis
      by (intro that [of 0 wr _ "info\<lparr>bi_device_count := bi_device_count info + 1\<rparr>"]) auto
  qed
qed

section \<open>Mounting\<close>

text \<open>The names a parameter lists: its pieces up to the first empty one.\<close>

definition listed_names :: "string \<Rightarrow> string list" where
  "listed_names param = takeWhile (\<lambda>p. p \<noteq> []) (split_comma param)"

lemma split_comma_unfold:
  "split_comma s = takeWhile (\<lambda>c. c \<noteq> CHR '','') s #
     (case dropWhile (\<lambda>c. c \<noteq> CHR '','') s of [] \<Rightarrow> [] | c # cs \<Rightarrow> split_comma cs)"
  by (induction s) auto

lemma listed_names_unfold:
  "listed_names name = (let len = strcspn_comma name in
     if len = 0 then [] else take len name # listed_names (skip_name len name))"
proof -
  let ?p = "\<lambda>c. c \<noteq> CHR '',''"
  have "take (strcspn_comma name) name = takeWhile ?p name"
    unfolding strcspn_comma_def by (rule takeWhile_eq_take [symmetric])
  moreover have "skip_name (strcspn_comma name) name = (case dropWhile ?p name of [] \<Rightarrow> [] | c # cs \<Rightarrow> cs)"
  proof -
    have "drop (strcspn_comma name) name = dropWhile ?p name"
      unfolding strcspn_comma_def by (rule dropWhile_eq_drop [symmetric])
    moreover have "c = CHR '',''" if "dropWhile ?p name = c # cs" for c cs
      using that unfolding dropWhile_eq_Cons_conv by blast
    ultimately show ?thesis
      unfolding skip_name_def Let_def by (cases "dropWhile ?p name") (simp_all only: list.case refl if_True)
  qed
  moreover have "strcspn_comma name = 0 \<longleftrightarrow> takeWhile ?p name = []"
    by (simp add: strcspn_comma_def)
  ultimately show ?thesis
    by (subst listed_names_def, subst split_comma_unfold, cases "dropWhile ?p name")
      (simp_all add: Let_def listed_names_def del: dropWhile_eq_Nil_conv)
qed

lemma fill_super_loop_keeps:
  assumes "instance_ok fs" and "sb_info (fs_sb fs) = Some info" and "fill_super_loop envs major k name fs = Inr (0, fs')"
  shows "\<exists>info'. instance_ok fs' \<and> sb_info (fs_sb fs') = Some info' \<and>
    bi_device_count info' = bi_device_count info + int (length (listed_names name)) \<and>
    map fst (sb_names (fs_sb fs')) = map fst (sb_names (fs_sb fs)) @ listed_names name"
  using assms
proof (induction envs major k name fs arbitrary: info fs' rule: fill_super_loop.induct)
  case (1 envs major k name fs)
  let ?len = "strcspn_comma name"
  show ?case
  proof (cases "?len = 0")
    case True
    with 1(2-) show ?thesis
      by (subst (asm) fill_super_loop.simps) (auto simp: listed_names_unfold [of name] Let_def)
  next
    case False
    let ?req = "\<lparr>bd_name = take ?len name, bd_major = 0, bd_minor = 0\<rparr>"
    obtain ret wr fs1 where len: "?len \<le> BINDERFS_MAX_NAME"
      and create: "binderfs_binder_device_create (envs k) major False ?req fs = Inr (ret, wr, fs1)"
      and rest: "(if ret \<noteq> 0 then Inr (ret, fs1) else fill_super_loop envs major (Suc k) (skip_name ?len name) fs1) =
        Inr (0, fs')"
      using 1(4) False
      by (subst (asm) fill_super_loop.simps) (auto simp: Let_def bindE_Inr_iff assertE_def split: if_splits)
    with rest have loop: "ret = 0" "fill_super_loop envs major (Suc k) (skip_name ?len name) fs1 = Inr (0, fs')"
      by (auto split: if_splits)
    obtain info1 where one: "instance_ok fs1" "sb_info (fs_sb fs1) = Some info1"
      "bi_device_count info1 = bi_device_count info + 1"
      "map fst (sb_names (fs_sb fs1)) = map fst (sb_names (fs_sb fs)) @ [take ?len name]"
      using device_create_keeps [OF 1(2,3) create] loop(1) len by (auto simp: min_def)
    have "\<exists>info'. instance_ok fs' \<and> sb_info (fs_sb fs') = Some info' \<and>
        bi_device_count info' = bi_device_count info1 + int (length (listed_names (skip_name ?len name))) \<and>
        map fst (sb_names (fs_sb fs')) = map fst (sb_names (fs_sb fs1)) @ listed_names (skip_name ?len name)"
      using 1(1) [OF refl False _ one(1,2) loop(2), of 0] by simp
    with one False show ?thesis by (subst (1 2) listed_names_unfold) (auto simp: Let_def)
  qed
qed

text \<open>The control file, created in an empty directory.\<close>

definition ctl_added :: "nat \<Rightarrow> nat \<Rightarrow> int \<Rightarrow> binderfs_info \<Rightarrow> binderfs \<Rightarrow> binderfs" where
  "ctl_added d i m info fs =
     \<lparr>fs_minors = m # fs_minors fs,
      fs_inodes = (fs_inodes fs)(i \<mapsto> \<lparr>in_ino = SECOND_INODE, in_chr = True, in_minor = m,
        in_fop = Some Binder_Ctl_Fops, in_uid = bi_root_uid info, in_gid = bi_root_gid info, in_private = Some d\<rparr>),
      fs_sb = (fs_sb fs)\<lparr>sb_info := Some (info\<lparr>bi_control_dentry := Some i\<rparr>),
        sb_names := sb_names (fs_sb fs) @ [(''binder-control'', i)]\<rparr>,
      fs_bk = (fs_bk fs)\<lparr>bk_devices := (bk_devices (fs_bk fs))(d \<mapsto> binder_device_zero\<lparr>dv_ref := 1,
        dv_inode := Some i, dv_minor := m\<rparr>)\<rparr>\<rparr>"

lemma ctl_create_success:
  assumes info: "sb_info (fs_sb fs) = Some info" and ok: "binderfs_binder_ctl_create env fs = Inr (0, fs')"
  shows "\<exists>m oks. m \<notin> set (fs_minors fs) \<and>
    fs' = fs_moved oks (bk_next (fs_bk fs) + 2) (ctl_added (bk_next (fs_bk fs)) (bk_next (fs_bk fs) + 1) m info fs)"
proof -
  let ?d = "bk_next (fs_bk fs)"
  obtain r1 fs1 where alloc1: "fs_alloc fs = (r1, fs1)" by fastforce
  then show ?thesis
  proof (cases rule: fs_alloc_cases)
    case (none oks)
    with ok info alloc1 show ?thesis by (simp add: binderfs_binder_ctl_create_def fs_info_def)
  next
    case (some oks)
    let ?fs = "fs_set_device ?d (Some binder_device_zero) fs"
    have control: "bi_control_dentry info = None"
      using ok info alloc1 some by (cases "bi_control_dentry info") (simp_all add: binderfs_binder_ctl_create_def fs_info_def)
    obtain r2 fs2 where alloc2: "fs_alloc (fs_moved oks (Suc ?d) ?fs) = (r2, fs2)" by fastforce
    then show ?thesis
    proof (cases rule: fs_alloc_cases)
      case (none oks')
      with ok info alloc1 some control alloc2 show ?thesis
        by (simp add: binderfs_binder_ctl_create_def fs_info_def new_inode_eq)
    next
      case (some oks')
      let ?ida = "ida_alloc_max (fe_ida env) (if bi_reserve info then BINDERFS_MAX_MINOR else BINDERFS_MAX_MINOR_CAPPED)
        (fs_minors fs)"
      obtain m used where ida: "?ida = (m, used)" by fastforce
      from ida show ?thesis
      proof (cases rule: ida_alloc_max_cases)
        case 1
        with ok info alloc1 \<open>r1 = _\<close> \<open>fs1 = _\<close> control alloc2 some ida show ?thesis
          by (simp add: binderfs_binder_ctl_create_def fs_info_def new_inode_eq bindE_Inr_iff)
      next
        case 2
        have "fe_dentry env"
          using ok info alloc1 \<open>r1 = _\<close> \<open>fs1 = _\<close> control alloc2 some ida 2
          by (cases "fe_dentry env") (simp_all add: binderfs_binder_ctl_create_def fs_info_def new_inode_eq bindE_Inr_iff)
        with info alloc1 \<open>r1 = _\<close> \<open>fs1 = _\<close> control alloc2 some ida 2
        have "binderfs_binder_ctl_create env fs = Inr (0, fs_moved oks' (?d + 2) (ctl_added ?d (?d + 1) m info fs))"
          by (simp add: binderfs_binder_ctl_create_def fs_info_def new_inode_eq)
            (simp add: ctl_added_def fs_moved_def set_inode_def fs_set_device_def set_info_def inode_zero_def)
        with ok 2 show ?thesis by (intro exI [of _ m] exI [of _ oks']) simp
      qed
    qed
  qed
qed

lemma ctl_added_ok:
  assumes "fs_fresh fs" "distinct (fs_minors fs)" "sb_names (fs_sb fs) = []" "m \<notin> set (fs_minors fs)"
  shows "instance_ok (fs_moved oks (bk_next (fs_bk fs) + 2)
    (ctl_added (bk_next (fs_bk fs)) (bk_next (fs_bk fs) + 1) m info fs))"
  using assms
  by (auto simp: instance_ok_def fs_fresh_def listed_ok_def ctl_added_def fs_moved_def inode_minor_def
      binder_device_zero_def)

lemma fill_super_root_success:
  assumes fresh: "fs_fresh fs" "distinct (fs_minors fs)" "sb_names (fs_sb fs) = []" and info: "sb_info (fs_sb fs) = Some info"
    and ok: "fill_super_root env major fs = Inr (0, fs')"
  shows "\<exists>info'. instance_ok fs' \<and> sb_info (fs_sb fs') = Some info' \<and>
    bi_device_count info' = bi_device_count info + int (length (listed_names binder_devices_param)) \<and>
    map fst (sb_names (fs_sb fs')) = ''binder-control'' # listed_names binder_devices_param"
proof -
  let ?i = "bk_next (fs_bk fs)"
  obtain r fs1 where alloc: "fs_alloc fs = (r, fs1)" by fastforce
  then show ?thesis
  proof (cases rule: fs_alloc_cases)
    case (none oks)
    with ok alloc show ?thesis by (simp add: fill_super_root_def new_inode_eq)
  next
    case (some oks)
    define fs2 where "fs2 = (fs_moved oks (Suc ?i) (set_inode ?i (Some (inode_zero\<lparr>in_ino := FIRST_INODE,
      in_fop := Some Dir_Fops\<rparr>)) fs))\<lparr>fs_sb := (fs_sb fs)\<lparr>sb_root := Some ?i\<rparr>\<rparr>"
    have fs2: "fs_fresh fs2" "distinct (fs_minors fs2)" "sb_names (fs_sb fs2) = []" "sb_info (fs_sb fs2) = Some info"
      using fresh info by (simp_all add: fs2_def fs_fresh_def fs_moved_def set_inode_def)
    have root: "me_make_root env"
      using ok alloc some by (cases "me_make_root env") (simp_all add: fill_super_root_def new_inode_eq bindE_Inr_iff)
    obtain fs3 where ctl: "binderfs_binder_ctl_create (me_ctl env) fs2 = Inr (0, fs3)"
      and loop: "fill_super_loop (me_devices env) major 0 binder_devices_param fs3 = Inr (0, fs')"
      using ok alloc some root
      by (auto simp: fill_super_root_def new_inode_eq fs2_def bindE_Inr_iff split: if_splits)
    from ctl_create_success [OF fs2(4) ctl] obtain m oks' where m: "m \<notin> set (fs_minors fs2)"
      and fs3: "fs3 = fs_moved oks' (bk_next (fs_bk fs2) + 2)
        (ctl_added (bk_next (fs_bk fs2)) (bk_next (fs_bk fs2) + 1) m info fs2)" by blast
    have "instance_ok fs3"
      unfolding fs3 using fs2(1-3) m by (rule ctl_added_ok)
    moreover have "sb_info (fs_sb fs3) = Some (info\<lparr>bi_control_dentry := Some (bk_next (fs_bk fs2) + 1)\<rparr>)"
      "map fst (sb_names (fs_sb fs3)) = [''binder-control'']"
      using fs2 by (simp_all add: fs3 ctl_added_def)
    ultimately show ?thesis using fill_super_loop_keeps [OF _ _ loop] by auto
  qed
qed

lemma fill_super_success:
  assumes "fs_fresh fs" and "distinct (fs_minors fs)" and "sb_names (fs_sb fs) = []"
    and ok: "binderfs_fill_super env major data fs = Inr (0, fs')"
  shows "\<exists>info. instance_ok fs' \<and> sb_info (fs_sb fs') = Some info \<and>
    bi_device_count info = int (length (listed_names binder_devices_param)) \<and>
    map fst (sb_names (fs_sb fs')) = ''binder-control'' # listed_names binder_devices_param"
proof -
  let ?fs = "fs\<lparr>fs_sb := (fs_sb fs)\<lparr>sb_nodev := False, sb_noexec := True, sb_magic := BINDERFS_SUPER_MAGIC\<rparr>\<rparr>"
  obtain r fs1 where alloc: "fs_alloc ?fs = (r, fs1)" by fastforce
  then show ?thesis
  proof (cases rule: fs_alloc_cases)
    case (none oks)
    with ok alloc show ?thesis by (simp add: binderfs_fill_super_def)
  next
    case (some oks)
    obtain info where root: "fill_super_root env major (set_info info fs1) = Inr (0, fs')" and count: "bi_device_count info = 0"
      using ok alloc some
      by (auto simp: binderfs_fill_super_def Let_def binderfs_info_zero_def split: prod.splits if_splits)
    have "fs_fresh (set_info info fs1)" "distinct (fs_minors (set_info info fs1))" "sb_names (fs_sb (set_info info fs1)) = []"
      "sb_info (fs_sb (set_info info fs1)) = Some info"
      using assms(1-3) some(2) by (simp_all add: set_info_def fs_moved_def fs_fresh_def)
    from fill_super_root_success [OF this root] count show ?thesis by simp
  qed
qed

section \<open>Properties\<close>

text \<open>An instance not yet mounted, for concrete runs.\<close>

definition fs_demo_kernel :: binder_kernel where
  "fs_demo_kernel = demo0\<lparr>bk_devices := Map.empty, bk_kzalloc := replicate 20 True\<rparr>"

definition fs_demo :: binderfs where
  "fs_demo = \<lparr>fs_minors = [], fs_inodes = Map.empty,
     fs_sb = \<lparr>sb_magic = 0, sb_noexec = False, sb_nodev = False, sb_info = None, sb_root = None, sb_names = []\<rparr>,
     fs_bk = fs_demo_kernel\<rparr>"

definition fs_demo_info :: binderfs_info where
  "fs_demo_info = binderfs_info_zero\<lparr>bi_reserve := True, bi_mount_opts := \<lparr>mo_max = 2, mo_stats_mode = STATS_NONE\<rparr>\<rparr>"

definition fs_demo_env :: fs_env where
  "fs_demo_env = \<lparr>fe_ida = True, fe_kmemdup = True, fe_copy = True, fe_lookup_err = 0, fe_dentry = True\<rparr>"

definition mount_demo_env :: mount_env where
  "mount_demo_env = \<lparr>me_match_token = (\<lambda>_. Opt_err), me_sys_admin = True, me_root_uid = 0, me_root_gid = 0,
     me_init_ipc_ns = True, me_make_root = True, me_ctl = fs_demo_env, me_devices = (\<lambda>_. fs_demo_env)\<rparr>"

lemmas fs_demo_defs = fs_demo_def fs_demo_kernel_def demo0_def fs_demo_info_def fs_demo_env_def mount_demo_env_def
  binderfs_info_zero_def

definition returns_zero :: "(int \<times> 'a) chk \<Rightarrow> bool" where
  "returns_zero r = (case r of Inr (ret, _) \<Rightarrow> ret = 0 | Inl _ \<Rightarrow> False)"

lemma fs_demo_mounts: "returns_zero (binderfs_fill_super mount_demo_env 250 None fs_demo)"
  by (simp add: returns_zero_def fs_demo_defs binderfs_fill_super_def fill_super_root_def fs_alloc_def kzalloc_def new_inode_def
      binderfs_parse_mount_opts_def set_info_def set_inode_def binderfs_binder_ctl_create_def fs_info_def ida_alloc_max_def
      ida_lowest_def fs_set_device_def binder_devices_param_def fill_super_loop.simps strcspn_comma_def skip_name_def
      assertE_def derefE_def binderfs_binder_device_create_def device_create_minor_def device_create_register_def
      inode_zero_def binder_device_zero_def uid_valid_def Let_def eval_nat_numeral)

lemma fs_demo_fresh: "fs_fresh fs_demo" "distinct (fs_minors fs_demo)" "sb_names (fs_sb fs_demo) = []"
  by (simp_all add: fs_fresh_def fs_demo_def fs_demo_kernel_def)

text \<open>
  C20: Creating a device either fails with a code other than 0 and leaves the instance as it
  was, the numbers, names, inodes, devices and the count included (only the allocator has
  moved on), or it succeeds and adds exactly one device under the name cut at 255 characters,
  with a minor number nobody had and a new name, within the limit of the mount options.
\<close>

theorem device_create_outcome:
  assumes "sb_info (fs_sb fs) = Some info" and "fs_fresh fs"
    and "name = take BINDERFS_MAX_NAME (bd_name req)" and "d = bk_next (fs_bk fs)"
  shows "(\<exists>ret wr oks n. ret \<noteq> 0 \<and> d \<le> n \<and>
        binderfs_binder_device_create env major userp req fs = Inr (ret, wr, fs_moved oks n fs)) \<or>
    (\<exists>m oks. binderfs_binder_device_create env major userp req fs =
        Inr (0, if userp then Some \<lparr>bd_name = name, bd_major = major, bd_minor = m\<rparr> else None,
          fs_moved oks (d + 2) (device_added name d (d + 1) m info fs)) \<and>
      0 \<le> m \<and> m \<le> BINDERFS_MAX_MINOR \<and> m \<notin> set (fs_minors fs) \<and> name \<notin> fst ` set (sb_names (fs_sb fs)) \<and>
      bi_device_count info < mo_max (bi_mount_opts info))"
  using assms by (rule device_create_cases)

lemma fs_demo_create:
  "returns_zero (binderfs_binder_device_create fs_demo_env 250 True \<lparr>bd_name = ''spare'', bd_major = 0, bd_minor = 0\<rparr>
     (set_info fs_demo_info fs_demo))"
  by (simp add: returns_zero_def fs_demo_defs fs_alloc_def kzalloc_def new_inode_def set_info_def set_inode_def fs_info_def
      ida_alloc_max_def ida_lowest_def fs_set_device_def derefE_def binderfs_binder_device_create_def device_create_minor_def
      device_create_register_def inode_zero_def binder_device_zero_def Let_def eval_nat_numeral)

lemma fs_demo_info_fresh:
  "fs_fresh (set_info fs_demo_info fs_demo)" "sb_info (fs_sb (set_info fs_demo_info fs_demo)) = Some fs_demo_info"
  "bk_next (fs_bk (set_info fs_demo_info fs_demo)) = 5" "sb_names (fs_sb (set_info fs_demo_info fs_demo)) = []"
  by (simp_all add: fs_fresh_def set_info_def fs_demo_def fs_demo_kernel_def demo0_def binder_loaded_def)

theorem device_create_outcome_witness:
  "\<exists>m fs'. binderfs_binder_device_create fs_demo_env 250 True \<lparr>bd_name = ''spare'', bd_major = 0, bd_minor = 0\<rparr>
      (set_info fs_demo_info fs_demo) = Inr (0, Some \<lparr>bd_name = ''spare'', bd_major = 250, bd_minor = m\<rparr>, fs') \<and>
      sb_names (fs_sb fs') = [(''spare'', 6)]"
proof -
  have name: "''spare'' = take BINDERFS_MAX_NAME (bd_name \<lparr>bd_name = ''spare'', bd_major = 0, bd_minor = 0\<rparr>)"
    by (simp add: eval_nat_numeral)
  from device_create_outcome [OF fs_demo_info_fresh(2,1) name fs_demo_info_fresh(3) [symmetric], of fs_demo_env 250 True]
  show ?thesis using fs_demo_create fs_demo_info_fresh(4) by (auto simp: returns_zero_def)
qed

text \<open>Taking a device away again undoes its creation: evicting the inode of a device that was
  just created frees its minor number and its memory and restores the count, so the
  instance is the one before the creation apart from the name, which the file system
  removes itself.
\<close>

theorem create_evict_restores:
  assumes "sb_info (fs_sb fs) = Some info" and "fs_fresh fs"
    and "binderfs_binder_device_create env major userp req fs = Inr (0, written, fs')"
  shows "\<exists>i oks n. sb_names (fs_sb fs') = sb_names (fs_sb fs) @ [(take BINDERFS_MAX_NAME (bd_name req), i)] \<and>
    binderfs_evict_inode i fs' = Inr (fs_moved oks n (fs\<lparr>fs_sb := (fs_sb fs)\<lparr>sb_names := sb_names (fs_sb fs')\<rparr>\<rparr>))"
proof -
  let ?d = "bk_next (fs_bk fs)" and ?name = "take BINDERFS_MAX_NAME (bd_name req)"
  obtain m oks where fs': "fs' = fs_moved oks (?d + 2) (device_added ?name ?d (?d + 1) m info fs)"
    using device_create_cases [OF assms(1,2) refl refl, of env major userp req] assms(3) by auto
  have free: "bk_devices (fs_bk fs) ?d = None" "fs_inodes fs (?d + 1) = None"
    using assms(2) by (simp_all add: fs_fresh_def)
  have "binderfs_evict_inode (?d + 1) fs' =
      Inr (set_inode (?d + 1) None (fs_set_device ?d None ((set_info info fs')\<lparr>fs_minors := fs_minors fs\<rparr>)))"
    by (simp add: fs' binderfs_evict_inode_def fs_info_def device_added_def ida_free_def)
      (simp add: fs_moved_def set_info_def)
  also have "set_inode (?d + 1) None (fs_set_device ?d None ((set_info info fs')\<lparr>fs_minors := fs_minors fs\<rparr>)) =
      fs_moved oks (?d + 2) (fs\<lparr>fs_sb := (fs_sb fs)\<lparr>sb_names := sb_names (fs_sb fs')\<rparr>\<rparr>)"
    using free assms(1)
    by (intro binderfs.equality super_block.equality binder_kernel.equality)
      (simp_all add: fs' device_added_def fs_moved_def set_info_def fs_set_device_def set_inode_def fun_upd_idem)
  finally have "binderfs_evict_inode (?d + 1) fs' =
      Inr (fs_moved oks (?d + 2) (fs\<lparr>fs_sb := (fs_sb fs)\<lparr>sb_names := sb_names (fs_sb fs')\<rparr>\<rparr>))" .
  then show ?thesis by (intro exI conjI) (simp_all add: fs')
qed

theorem create_evict_restores_witness:
  "\<exists>w fs' i fs''. binderfs_binder_device_create fs_demo_env 250 True \<lparr>bd_name = ''spare'', bd_major = 0, bd_minor = 0\<rparr>
      (set_info fs_demo_info fs_demo) = Inr (0, w, fs') \<and>
    binderfs_evict_inode i fs' = Inr fs'' \<and> fs_minors fs'' = []"
proof -
  let ?create = "binderfs_binder_device_create fs_demo_env 250 True \<lparr>bd_name = ''spare'', bd_major = 0, bd_minor = 0\<rparr>
      (set_info fs_demo_info fs_demo)"
  obtain w fs' where run: "?create = Inr (0, w, fs')"
    using fs_demo_create by (auto simp: returns_zero_def split: sum.splits)
  have "fs_minors (set_info fs_demo_info fs_demo) = []" by (simp add: set_info_def fs_demo_def)
  moreover obtain i fs'' where "binderfs_evict_inode i fs' = Inr fs''"
    and "\<exists>oks n names. fs'' = fs_moved oks n ((set_info fs_demo_info fs_demo)
      \<lparr>fs_sb := (fs_sb (set_info fs_demo_info fs_demo))\<lparr>sb_names := names\<rparr>\<rparr>)"
    using create_evict_restores [OF fs_demo_info_fresh(2,1) run] by blast
  moreover from calculation have "fs_minors fs'' = []" by (elim exE) simp
  ultimately show ?thesis using run by blast
qed

text \<open>
  C28: Mounting creates exactly the files it should: when \<open>binderfs_fill_super\<close> returns 0 the
  root directory holds the control file and one device for every name of the parameter,
  the default \<open>binder,hwbinder,vndbinder\<close>, with different minor numbers that are all
  taken in the pool, and the device count is the number of these devices.
\<close>

theorem mount_success:
  assumes "fs_fresh fs" and "distinct (fs_minors fs)" and "sb_names (fs_sb fs) = []"
    and "binderfs_fill_super env major data fs = Inr (0, fs')"
  shows "\<exists>info. instance_ok fs' \<and> sb_info (fs_sb fs') = Some info \<and> bi_device_count info = 3 \<and>
    map fst (sb_names (fs_sb fs')) = [''binder-control'', ''binder'', ''hwbinder'', ''vndbinder'']"
proof -
  have "listed_names binder_devices_param = [''binder'', ''hwbinder'', ''vndbinder'']"
    by (simp add: listed_names_def binder_devices_param_def)
  with fill_super_success [OF assms] show ?thesis by simp
qed

theorem mount_success_witness:
  "\<exists>fs'. binderfs_fill_super mount_demo_env 250 None fs_demo = Inr (0, fs') \<and> instance_ok fs' \<and>
    length (sb_names (fs_sb fs')) = 4"
proof -
  obtain fs' where run: "binderfs_fill_super mount_demo_env 250 None fs_demo = Inr (0, fs')"
    using fs_demo_mounts by (auto simp: returns_zero_def split: sum.splits)
  from mount_success [OF fs_demo_fresh run]
  have "instance_ok fs'" "map fst (sb_names (fs_sb fs')) = [''binder-control'', ''binder'', ''hwbinder'', ''vndbinder'']"
    by auto
  moreover from this(2) have "length (sb_names (fs_sb fs')) = 4"
    using arg_cong [of _ _ length] by fastforce
  ultimately show ?thesis using run by blast
qed

text \<open>
  C29: A request on the control file keeps the instance in order: on an instance whose names,
  inodes, devices and numbers agree, \<open>binder_ctl_ioctl\<close> never traps for any command and any
  request, leaves an instance in order, and either adds one name (result 0) or changes no
  name and no number.
\<close>

theorem ctl_ioctl_keeps_instance:
  assumes "instance_ok fs"
  shows "\<exists>ret user fs'. binder_ctl_ioctl env major cmd user_req fs = Inr (ret, user, fs') \<and> instance_ok fs' \<and>
    (if ret = 0 then \<exists>name. map fst (sb_names (fs_sb fs')) = map fst (sb_names (fs_sb fs)) @ [name]
     else sb_names (fs_sb fs') = sb_names (fs_sb fs) \<and> fs_minors fs' = fs_minors fs)"
proof (cases "cmd = BINDER_CTL_ADD \<and> user_req \<noteq> None")
  case True
  then obtain req where req: "user_req = Some req" by auto
  obtain info where info: "sb_info (fs_sb fs) = Some info"
    using assms by (auto simp: instance_ok_def)
  show ?thesis
  proof (rule device_create_keeps [OF assms info refl, of env major True req])
    fix ret written fs' info'
    assume "binderfs_binder_device_create env major True req fs = Inr (ret, written, fs')" "instance_ok fs'"
      and "ret \<noteq> 0 \<Longrightarrow> info' = info \<and> sb_names (fs_sb fs') = sb_names (fs_sb fs) \<and> fs_minors fs' = fs_minors fs"
      and "ret = 0 \<Longrightarrow> map fst (sb_names (fs_sb fs')) = map fst (sb_names (fs_sb fs)) @ [take BINDERFS_MAX_NAME (bd_name req)] \<and>
        bi_device_count info' = bi_device_count info + 1"
    with True req show ?thesis by (cases "ret = 0") (auto simp: binder_ctl_ioctl_def)
  qed
next
  case False
  with assms show ?thesis by (auto simp: binder_ctl_ioctl_def split: option.splits)
qed

theorem ctl_ioctl_keeps_instance_witness:
  "\<exists>fs' ret user fs''. binderfs_fill_super mount_demo_env 250 None fs_demo = Inr (0, fs') \<and>
    binder_ctl_ioctl fs_demo_env 250 BINDER_CTL_ADD (Some \<lparr>bd_name = ''binder'', bd_major = 0, bd_minor = 0\<rparr>) fs' =
      Inr (ret, user, fs'') \<and> instance_ok fs''"
proof -
  obtain fs' where run: "binderfs_fill_super mount_demo_env 250 None fs_demo = Inr (0, fs')"
    using fs_demo_mounts by (auto simp: returns_zero_def split: sum.splits)
  then have "instance_ok fs'" using fill_super_success [OF fs_demo_fresh] by blast
  from ctl_ioctl_keeps_instance [OF this] run show ?thesis by blast
qed

lemma split_comma_single: "CHR '','' \<notin> set s \<Longrightarrow> split_comma s = [s]"
  by (induction s) auto

text \<open>Remounting: a remount that succeeds keeps the statistics mode of the mount and changes
  nothing but the options, whatever the option string. One that is refused is not without
  effect: an option the table does not know makes it return \<open>-EINVAL\<close> and yet resets the
  limit of devices and the statistics mode to their defaults.
\<close>

theorem remount_outcome:
  assumes "sb_info (fs_sb fs) = Some info"
  shows "(\<exists>ret opts. binderfs_remount match_token sys_admin data fs =
        Inr (ret, set_info (info\<lparr>bi_mount_opts := opts\<rparr>) fs) \<and>
      (ret = 0 \<longrightarrow> mo_stats_mode opts = mo_stats_mode (bi_mount_opts info))) \<and>
    (data = Some s \<and> s \<noteq> [] \<and> CHR '','' \<notin> set s \<and> match_token s = Opt_err \<longrightarrow>
      binderfs_remount match_token sys_admin data fs = Inr (- EINVAL,
        set_info (info\<lparr>bi_mount_opts := \<lparr>mo_max = BINDERFS_MAX_MINOR, mo_stats_mode = STATS_NONE\<rparr>\<rparr>) fs))" (is "?outcome \<and> ?refused")
proof
  obtain mx mode where opts: "bi_mount_opts info = \<lparr>mo_max = mx, mo_stats_mode = mode\<rparr>"
    by (cases "bi_mount_opts info")
  have twice: "set_info info1 (set_info info2 fs) = set_info info1 fs" for info1 info2
    by (simp add: set_info_def)
  obtain ret opts where "binderfs_parse_mount_opts match_token sys_admin data (bi_mount_opts info) = (ret, opts)"
    by fastforce
  with assms twice show ?outcome
    by (auto simp: binderfs_remount_def fs_info_def Let_def)
  show ?refused
    using assms by (auto simp: binderfs_remount_def fs_info_def Let_def binderfs_parse_mount_opts_def split_comma_single opts)
qed

theorem remount_outcome_witness:
  "\<exists>fs'. binderfs_remount (\<lambda>_. Opt_err) True (Some ''size=1'') (set_info fs_demo_info fs_demo) = Inr (- EINVAL, fs') \<and>
    fs' \<noteq> set_info fs_demo_info fs_demo"
proof -
  have "binderfs_remount (\<lambda>_. Opt_err) True (Some ''size=1'') (set_info fs_demo_info fs_demo) = Inr (- EINVAL,
      set_info (fs_demo_info\<lparr>bi_mount_opts := \<lparr>mo_max = BINDERFS_MAX_MINOR, mo_stats_mode = STATS_NONE\<rparr>\<rparr>)
        (set_info fs_demo_info fs_demo))"
    using remount_outcome [OF fs_demo_info_fresh(2), of "\<lambda>_. Opt_err" True "Some ''size=1''" "''size=1''"] by simp
  moreover have "set_info (fs_demo_info\<lparr>bi_mount_opts := \<lparr>mo_max = BINDERFS_MAX_MINOR, mo_stats_mode = STATS_NONE\<rparr>\<rparr>)
      (set_info fs_demo_info fs_demo) \<noteq> set_info fs_demo_info fs_demo"
    by (auto simp: set_info_def fs_demo_info_def dest!: arg_cong [where f = "\<lambda>fs. map_option (mo_max \<circ> bi_mount_opts) (sb_info (fs_sb fs))"])
  ultimately show ?thesis by blast
qed

end
