(* ===== verification/SharedBuffer.thy ===== *)
theory SharedBuffer
  imports Prelude
begin

text \<open>
  \<open>libutils/SharedBuffer.h\<close> and \<open>SharedBuffer.cpp\<close>: reference counted buffers on the heap of the
  process. A pointer to a buffer and the pointer to its data, which lies right behind the
  header, are both the address of the buffer here. The data is a list of elements of \<open>unit\<close>
  bytes each: bytes of a string with \<open>unit = 1\<close>, items of a vector otherwise; \<open>junk\<close> stands for
  memory that was not initialised. \<open>malloc\<close> succeeds or not as the heap's list of outcomes says, and
  a list that is used up means failure. The assertions \<open>LOGF_ASSERT\<close> only write to the
  log, so a size that wraps around is not stopped.
\<close>

record 'a shared_buffer =
  mRefs :: int
  mSize :: u64
  mClientMetadata :: u32
  sb_data :: "'a list"

record 'a sb_heap =
  hp_bufs :: "nat \<Rightarrow> 'a shared_buffer option"
  hp_next :: nat
  hp_malloc :: "bool list"

abbreviation (input) SIZEOF_SharedBuffer :: u64 where "SIZEOF_SharedBuffer \<equiv> 24"
abbreviation (input) eKeepStorage :: u32 where "eKeepStorage \<equiv> 1"

definition sb_get :: "'a sb_heap \<Rightarrow> nat \<Rightarrow> 'a shared_buffer chk" where
  "sb_get hp b = derefE UseAfterFree (hp_bufs hp b)"

definition sb_put :: "nat \<Rightarrow> 'a shared_buffer \<Rightarrow> 'a sb_heap \<Rightarrow> 'a sb_heap" where
  "sb_put b sb hp = hp\<lparr>hp_bufs := (hp_bufs hp)(b \<mapsto> sb)\<rparr>"

text \<open>The outcome of the next \<open>malloc\<close> or \<open>realloc\<close>.\<close>

definition sb_malloc :: "'a sb_heap \<Rightarrow> nat option \<times> 'a sb_heap" where
  "sb_malloc hp =
     (case hp_malloc hp of
        True # oks \<Rightarrow> (Some (hp_next hp), hp\<lparr>hp_malloc := oks, hp_next := Suc (hp_next hp)\<rparr>)
      | False # oks \<Rightarrow> (None, hp\<lparr>hp_malloc := oks\<rparr>)
      | [] \<Rightarrow> (None, hp))"

text \<open>How many elements fit behind the header in a block of \<open>sizeof(SharedBuffer) + size\<close> bytes.\<close>

definition sb_room :: "nat \<Rightarrow> u64 \<Rightarrow> nat" where
  "sb_room unit sz = (unat (SIZEOF_SharedBuffer + sz) - unat SIZEOF_SharedBuffer) div unit"

text \<open>A block smaller than the header is overrun by the initialisation.\<close>

definition SharedBuffer_alloc :: "nat \<Rightarrow> 'a \<Rightarrow> u64 \<Rightarrow> 'a sb_heap \<Rightarrow> (nat option \<times> 'a sb_heap) chk" where
  "SharedBuffer_alloc unit junk sz hp =
     (case sb_malloc hp of
        (None, hp) \<Rightarrow> Inr (None, hp)
      | (Some b, hp) \<Rightarrow>
          bindE (assertE OutOfBounds (SIZEOF_SharedBuffer \<le> SIZEOF_SharedBuffer + sz)) (\<lambda>_.
          Inr (Some b, sb_put b \<lparr>mRefs = 1, mSize = sz, mClientMetadata = 0,
                 sb_data = replicate (sb_room unit sz) junk\<rparr> hp)))"

definition SharedBuffer_dealloc :: "nat \<Rightarrow> 'a sb_heap \<Rightarrow> 'a sb_heap" where
  "SharedBuffer_dealloc b hp = hp\<lparr>hp_bufs := (hp_bufs hp)(b := None)\<rparr>"

definition sizeFromData :: "nat option \<Rightarrow> 'a sb_heap \<Rightarrow> u64 chk" where
  "sizeFromData data hp =
     (case data of None \<Rightarrow> Inr 0 | Some b \<Rightarrow> bindE (sb_get hp b) (\<lambda>sb. Inr (mSize sb)))"

definition onlyOwner :: "'a shared_buffer \<Rightarrow> bool" where
  "onlyOwner sb \<longleftrightarrow> mRefs sb = 1"

text \<open>The counter is 32 bits wide and wraps.\<close>

definition refs_dec :: "int \<Rightarrow> int" where
  "refs_dec n = sint (word_of_int n - 1 :: u32)"

definition SharedBuffer_release :: "nat \<Rightarrow> u32 \<Rightarrow> 'a sb_heap \<Rightarrow> (int \<times> 'a sb_heap) chk" where
  "SharedBuffer_release b flags hp =
     bindE (sb_get hp b) (\<lambda>sb.
     let useDealloc = (flags AND eKeepStorage = 0)
     in if onlyOwner sb then
          let hp = sb_put b (sb\<lparr>mRefs := 0\<rparr>) hp
          in Inr (1, if useDealloc then SharedBuffer_dealloc b hp else hp)
        else
          let prevRefCount = mRefs sb;
              hp = sb_put b (sb\<lparr>mRefs := refs_dec prevRefCount\<rparr>) hp;
              hp = (if prevRefCount = 1 \<and> useDealloc then SharedBuffer_dealloc b hp else hp)
          in Inr (prevRefCount, hp))"

text \<open>The part that copies to a new buffer, also reached when \<open>realloc\<close> fails.\<close>

definition editResize_copy :: "nat \<Rightarrow> 'a \<Rightarrow> nat \<Rightarrow> u64 \<Rightarrow> 'a sb_heap \<Rightarrow> (nat option \<times> 'a sb_heap) chk" where
  "editResize_copy unit junk b newSize hp =
     bindE (SharedBuffer_alloc unit junk newSize hp) (\<lambda>(r, hp).
     case r of
       None \<Rightarrow> Inr (None, hp)
     | Some n \<Rightarrow>
         bindE (sb_get hp b) (\<lambda>old.
         bindE (sb_get hp n) (\<lambda>new.
         let copySize = unat (min (mSize old) newSize) div unit in
         bindE (assertE OutOfBounds (copySize \<le> length (sb_data old) \<and> copySize \<le> length (sb_data new))) (\<lambda>_.
         let hp = sb_put n (new\<lparr>sb_data := take copySize (sb_data old) @ drop copySize (sb_data new)\<rparr>) hp
         in bindE (SharedBuffer_release b 0 hp) (\<lambda>(_, hp). Inr (Some n, hp))))))"

text \<open>
  \<open>realloc\<close> is modelled as moving the block: the old address is gone, and the contents are kept
  up to the smaller of the sizes.
\<close>

definition editResize :: "nat \<Rightarrow> 'a \<Rightarrow> nat \<Rightarrow> u64 \<Rightarrow> 'a sb_heap \<Rightarrow> (nat option \<times> 'a sb_heap) chk" where
  "editResize unit junk b newSize hp =
     bindE (sb_get hp b) (\<lambda>sb.
     if onlyOwner sb then
       if mSize sb = newSize then Inr (Some b, hp)
       else
         (case sb_malloc hp of
            (Some n, hp) \<Rightarrow>
              bindE (assertE OutOfBounds (SIZEOF_SharedBuffer \<le> SIZEOF_SharedBuffer + newSize)) (\<lambda>_.
              let room = sb_room unit newSize;
                  data = take room (sb_data sb) @ replicate (room - length (sb_data sb)) junk;
                  hp = SharedBuffer_dealloc b hp
              in Inr (Some n, sb_put n (sb\<lparr>mSize := newSize, sb_data := data\<rparr>) hp))
          | (None, hp) \<Rightarrow> editResize_copy unit junk b newSize hp)
     else editResize_copy unit junk b newSize hp)"

definition attemptEdit :: "nat \<Rightarrow> 'a sb_heap \<Rightarrow> nat option chk" where
  "attemptEdit b hp = bindE (sb_get hp b) (\<lambda>sb. Inr (if onlyOwner sb then Some b else None))"

text \<open>Reading a range of a buffer's data, and storing a list of elements at an index of it.\<close>

definition sb_read :: "nat \<Rightarrow> nat \<Rightarrow> nat \<Rightarrow> 'a sb_heap \<Rightarrow> 'a list chk" where
  "sb_read b off n hp = bindE (sb_get hp b) (\<lambda>sb. mem_read (sb_data sb) off n)"

definition sb_store :: "nat \<Rightarrow> nat \<Rightarrow> 'a list \<Rightarrow> 'a sb_heap \<Rightarrow> 'a sb_heap chk" where
  "sb_store b off xs hp =
     bindE (sb_get hp b) (\<lambda>sb.
     bindE (assertE OutOfBounds (off + length xs \<le> length (sb_data sb))) (\<lambda>_.
     Inr (sb_put b (sb\<lparr>sb_data := take off (sb_data sb) @ xs @ drop (off + length xs) (sb_data sb)\<rparr>) hp)))"

section \<open>Well-formed heaps and the effect of each operation\<close>

text \<open>New addresses are unused, and every buffer has the room its size says.\<close>

definition sb_heap_ok :: "nat \<Rightarrow> 'a sb_heap \<Rightarrow> bool" where
  "sb_heap_ok unit hp \<longleftrightarrow> (\<forall>b \<ge> hp_next hp. hp_bufs hp b = None) \<and>
     (\<forall>b sb. hp_bufs hp b = Some sb \<longrightarrow> length (sb_data sb) = unat (mSize sb) div unit \<and> 0 \<le> mRefs sb)"

abbreviation (input) size_fits :: "u64 \<Rightarrow> bool" where
  "size_fits sz \<equiv> unat sz < 2 ^ 64 - 24"

lemma sb_room_fits:
  assumes "size_fits sz"
  shows "sb_room unit sz = unat sz div unit" "SIZEOF_SharedBuffer \<le> SIZEOF_SharedBuffer + sz"
proof -
  have "unat (24 + sz) = 24 + unat sz" using assms by (simp add: unat_word_ariths)
  then show "sb_room unit sz = unat sz div unit" "SIZEOF_SharedBuffer \<le> SIZEOF_SharedBuffer + sz"
    by (simp_all add: sb_room_def word_le_nat_alt)
qed

lemma sb_put_simps [simp]:
  "hp_bufs (sb_put b sb hp) = (hp_bufs hp)(b \<mapsto> sb)" "hp_next (sb_put b sb hp) = hp_next hp"
  "hp_malloc (sb_put b sb hp) = hp_malloc hp"
  by (simp_all add: sb_put_def)

lemma dealloc_simps [simp]:
  "hp_bufs (SharedBuffer_dealloc b hp) = (hp_bufs hp)(b := None)"
  "hp_next (SharedBuffer_dealloc b hp) = hp_next hp"
  "hp_malloc (SharedBuffer_dealloc b hp) = hp_malloc hp"
  by (simp_all add: SharedBuffer_dealloc_def)

text \<open>A new buffer, when \<open>malloc\<close> gives one.\<close>

lemma alloc_cases:
  assumes "size_fits sz"
  obtains (none) hp' where "SharedBuffer_alloc unit junk sz hp = Inr (None, hp')" "hp_bufs hp' = hp_bufs hp"
      "hp_next hp' = hp_next hp" "hd (hp_malloc hp @ [False]) = False"
  | (some) hp' where "SharedBuffer_alloc unit junk sz hp = Inr (Some (hp_next hp), hp')"
      "hp_bufs hp' = (hp_bufs hp)(hp_next hp \<mapsto> \<lparr>mRefs = 1, mSize = sz, mClientMetadata = 0,
         sb_data = replicate (unat sz div unit) junk\<rparr>)" "hp_next hp' = Suc (hp_next hp)"
      "hp_malloc hp = True # hp_malloc hp'"
proof (cases "hp_malloc hp")
  case Nil
  then show ?thesis
    by (intro none [of hp]) (simp_all add: SharedBuffer_alloc_def sb_malloc_def)
next
  case (Cons ok oks)
  show ?thesis
  proof (cases ok)
    case True
    let ?hp = "hp\<lparr>hp_malloc := oks, hp_next := Suc (hp_next hp)\<rparr>"
    let ?sb = "\<lparr>mRefs = 1, mSize = sz, mClientMetadata = 0, sb_data = replicate (unat sz div unit) junk\<rparr>"
    have alloc: "SharedBuffer_alloc unit junk sz hp = Inr (Some (hp_next hp), sb_put (hp_next hp) ?sb ?hp)"
      using True Cons sb_room_fits [OF assms] by (simp add: SharedBuffer_alloc_def sb_malloc_def)
    show ?thesis by (rule some [OF alloc]) (simp_all add: True Cons)
  next
    case False
    then show ?thesis
      using Cons by (intro none [of "hp\<lparr>hp_malloc := oks\<rparr>"]) (simp_all add: SharedBuffer_alloc_def sb_malloc_def)
  qed
qed

lemma release_owned:
  assumes "hp_bufs hp b = Some sb" and "mRefs sb = 1"
  shows "SharedBuffer_release b 0 hp = Inr (1, SharedBuffer_dealloc b (sb_put b (sb\<lparr>mRefs := 0\<rparr>) hp))"
    and "SharedBuffer_release b eKeepStorage hp = Inr (1, sb_put b (sb\<lparr>mRefs := 0\<rparr>) hp)"
  using assms by (simp_all add: SharedBuffer_release_def sb_get_def onlyOwner_def Let_def)

text \<open>
  Resizing a buffer with one owner: as much of the contents as fits comes first in the new buffer, the old one is
  gone, and if no memory is left nothing has changed. \<open>realloc\<close> failing is not the
  end: a second attempt is made with \<open>alloc\<close>.
\<close>

definition resized :: "'a \<Rightarrow> nat \<Rightarrow> 'a list \<Rightarrow> 'a list" where
  "resized junk n xs = take n xs @ replicate (n - length xs) junk"

lemma length_resized [simp]: "length (resized junk n xs) = n"
  by (simp add: resized_def)

lemma editResize_owned:
  assumes b: "hp_bufs hp b = Some sb" "mRefs sb = 1" "length (sb_data sb) = unat (mSize sb) div unit"
    and sz: "mSize sb \<noteq> newSize" "size_fits newSize" and fresh: "hp_bufs hp (hp_next hp) = None"
  obtains (none) hp' where "editResize unit junk b newSize hp = Inr (None, hp')" "hp_bufs hp' = hp_bufs hp"
      "hp_next hp' = hp_next hp" "True \<notin> set (take 2 (hp_malloc hp))"
  | (some) sb' hp' where "editResize unit junk b newSize hp = Inr (Some (hp_next hp), hp')"
      "hp_bufs hp' = (hp_bufs hp)(b := None, hp_next hp \<mapsto> sb')" "mRefs sb' = 1" "mSize sb' = newSize"
      "sb_data sb' = resized junk (unat newSize div unit) (sb_data sb)" "hp_next hp' = Suc (hp_next hp)"
proof -
  let ?m = "unat newSize div unit"
  have ne: "b \<noteq> hp_next hp" using b(1) fresh by auto
  have copy_size: "unat (min (mSize sb) newSize) div unit = min (length (sb_data sb)) ?m"
    using b(3) div_le_mono [of "unat (mSize sb)" "unat newSize" unit] div_le_mono [of "unat newSize" "unat (mSize sb)" unit]
    by (auto simp: min_def word_le_nat_alt)
  have merge: "take (min (length (sb_data sb)) ?m) (sb_data sb) @ drop (min (length (sb_data sb)) ?m) (replicate ?m junk) =
      resized junk ?m (sb_data sb)"
    by (simp add: resized_def min_def)
  show ?thesis
  proof (cases "hp_malloc hp \<noteq> [] \<and> hd (hp_malloc hp)")
    case True
    then obtain oks where m: "hp_malloc hp = True # oks" by (cases "hp_malloc hp") auto
    let ?sb = "sb\<lparr>mSize := newSize, sb_data := resized junk ?m (sb_data sb)\<rparr>"
    show ?thesis
      by (rule some [of "SharedBuffer_dealloc b hp \<lparr>hp_malloc := oks, hp_next := Suc (hp_next hp),
            hp_bufs := (hp_bufs hp)(b := None, hp_next hp \<mapsto> ?sb)\<rparr>" ?sb])
        (use b sz ne sb_room_fits [OF sz(2)] m in
          \<open>simp_all add: editResize_def sb_get_def onlyOwner_def sb_malloc_def Let_def sb_put_def SharedBuffer_dealloc_def
            resized_def\<close>)
  next
    case False
    let ?hp = "hp\<lparr>hp_malloc := tl (hp_malloc hp)\<rparr>"
    have "sb_malloc hp = (None, ?hp)" using False by (cases "hp_malloc hp") (auto simp: sb_malloc_def)
    then have edit: "editResize unit junk b newSize hp = editResize_copy unit junk b newSize ?hp"
      using b sz(1) by (simp add: editResize_def sb_get_def onlyOwner_def)
    show ?thesis
    proof (rule alloc_cases [OF sz(2), of unit junk ?hp])
      fix hp' :: "'a sb_heap"
      assume *: "SharedBuffer_alloc unit junk newSize ?hp = Inr (None, hp')" "hp_bufs hp' = hp_bufs ?hp"
        "hp_next hp' = hp_next ?hp" "hd (hp_malloc ?hp @ [False]) = False"
      have "True \<notin> set (take 2 (hp_malloc hp))"
        using False *(4) by (cases "hp_malloc hp"; cases "tl (hp_malloc hp)") (auto simp: numeral_2_eq_2)
      then show ?thesis using * by (intro none [of hp']) (simp_all add: edit editResize_copy_def)
    next
      fix hp' :: "'a sb_heap"
      let ?n = "hp_next hp"
      let ?new = "\<lparr>mRefs = 1, mSize = newSize, mClientMetadata = 0, sb_data = replicate ?m junk\<rparr>"
      let ?sb = "?new\<lparr>sb_data := resized junk ?m (sb_data sb)\<rparr>"
      assume *: "SharedBuffer_alloc unit junk newSize ?hp = Inr (Some (hp_next ?hp), hp')"
        "hp_bufs hp' = (hp_bufs ?hp)(hp_next ?hp \<mapsto> ?new)" "hp_next hp' = Suc (hp_next ?hp)"
      let ?hp1 = "sb_put ?n ?sb hp'"
      have "hp_bufs ?hp1 b = Some sb" using b ne * by simp
      note rel = release_owned(1) [OF this b(2)]
      have "editResize_copy unit junk b newSize ?hp =
          Inr (Some ?n, SharedBuffer_dealloc b (sb_put b (sb\<lparr>mRefs := 0\<rparr>) ?hp1))"
        using * b ne copy_size rel merge by (simp add: editResize_copy_def sb_get_def Let_def)
      then show ?thesis
        using * ne by (intro some [of "SharedBuffer_dealloc b (sb_put b (sb\<lparr>mRefs := 0\<rparr>) ?hp1)" ?sb])
          (simp_all add: edit fun_eq_iff)
    qed
  qed
qed

text \<open>The next call of \<open>malloc\<close> succeeds.\<close>

definition has_memory :: "'a sb_heap \<Rightarrow> bool" where
  "has_memory hp \<longleftrightarrow> (case hp_malloc hp of [] \<Rightarrow> False | ok # _ \<Rightarrow> ok)"

lemma no_memory:
  "\<not> hd (hp_malloc hp @ [False]) \<Longrightarrow> \<not> has_memory hp"
  "True \<notin> set (take 2 (hp_malloc hp)) \<Longrightarrow> \<not> has_memory hp"
  by (auto simp: has_memory_def numeral_2_eq_2 split: list.splits)

end
