(* ===== verification/Unicode.thy ===== *)
theory Unicode
  imports Prelude
begin

text \<open>
  The string functions of \<open>libutils/Unicode.cpp\<close>. A pointer into a string is the list and
  an index; reading or writing outside the list is the trap \<open>OutOfBounds\<close>. Sizes are
  natural numbers; \<open>SSIZE_MAX\<close> is \<open>2^63 - 1\<close>. The macro \<open>LOGF_ASSERT\<close> writes a log message when its condition is
  false and then goes on, so it has no effect in the model.
\<close>

section \<open>UTF-32\<close>

abbreviation (input) kByteMask :: u32 where "kByteMask \<equiv> 0xBF"
abbreviation (input) kByteMark :: u32 where "kByteMark \<equiv> 0x80"
abbreviation (input) kUnicodeSurrogateStart :: u32 where "kUnicodeSurrogateStart \<equiv> 0xD800"
abbreviation (input) kUnicodeSurrogateEnd :: u32 where "kUnicodeSurrogateEnd \<equiv> 0xDFFF"
abbreviation (input) kUnicodeMaxCodepoint :: u32 where "kUnicodeMaxCodepoint \<equiv> 0x10FFFF"
abbreviation (input) SSIZE_MAX :: nat where "SSIZE_MAX \<equiv> 0x7FFFFFFFFFFFFFFF"

definition kFirstByteMark :: "u32 list" where
  "kFirstByteMark = [0x00, 0x00, 0xC0, 0xE0, 0xF0]"

definition utf32_codepoint_utf8_length :: "u32 \<Rightarrow> nat" where
  "utf32_codepoint_utf8_length srcChar =
     (if srcChar < 0x80 then 1
      else if srcChar < 0x800 then 2
      else if srcChar < 0x10000 then
        (if srcChar < kUnicodeSurrogateStart \<or> srcChar > kUnicodeSurrogateEnd then 3 else 0)
      else if srcChar \<le> kUnicodeMaxCodepoint then 4
      else 0)"

text \<open>
  The switch that falls through: from label \<open>n\<close> on, \<open>c\<close> is what is left of the character
  and \<open>out\<close> what is already stored behind the pointer, which moves down.
\<close>

fun utf8_labels :: "nat \<Rightarrow> nat \<Rightarrow> u32 \<Rightarrow> u8 list \<Rightarrow> u8 list" where
  "utf8_labels bytes 0 c out = out"
| "utf8_labels bytes (Suc 0) c out = ucast (c OR kFirstByteMark ! bytes) # out"
| "utf8_labels bytes (Suc (Suc n)) c out =
     utf8_labels bytes (Suc n) (drop_bit 6 c) (ucast ((c OR kByteMark) AND kByteMask) # out)"

text \<open>The bytes the function stores at \<open>dstP\<close>.\<close>

definition utf32_codepoint_to_utf8 :: "u32 \<Rightarrow> nat \<Rightarrow> u8 list" where
  "utf32_codepoint_to_utf8 srcChar bytes = (if bytes \<le> 4 then utf8_labels bytes bytes srcChar [] else [])"

text \<open>The loops of \<open>strlen32\<close> and \<open>strlen16\<close>, and of their bounded forms.\<close>

fun c_strlen :: "'a::zero list \<Rightarrow> nat chk" where
  "c_strlen [] = Inl OutOfBounds"
| "c_strlen (c # s) = (if c = 0 then Inr 0 else bindE (c_strlen s) (\<lambda>n. Inr (Suc n)))"

fun c_strnlen :: "'a::zero list \<Rightarrow> nat \<Rightarrow> nat chk" where
  "c_strnlen s 0 = Inr 0"
| "c_strnlen [] (Suc maxlen) = Inl OutOfBounds"
| "c_strnlen (c # s) (Suc maxlen) = (if c = 0 then Inr 0 else bindE (c_strnlen s maxlen) (\<lambda>n. Inr (Suc n)))"

definition strlen32 :: "u32 list \<Rightarrow> nat chk" where "strlen32 = c_strlen"
definition strnlen32 :: "u32 list \<Rightarrow> nat \<Rightarrow> nat chk" where "strnlen32 = c_strnlen"

text \<open>
  A \<open>char\<close> widened to 32 bits: it is signed or not as the compiler has it, signed on x86
  and unsigned on ARM.
\<close>

definition char_to_u32 :: "bool \<Rightarrow> u8 \<Rightarrow> u32" where
  "char_to_u32 char_signed c = (if char_signed then scast c else ucast c)"

text \<open>
  The loop of \<open>utf32_at_internal\<close>: it reads a byte for every further bit that is set in the
  first one. After the bit 1 the mask is 0 and the loop ends.
\<close>

function utf32_at_loop ::
  "u8 list \<Rightarrow> u32 \<Rightarrow> nat \<Rightarrow> nat \<Rightarrow> u32 \<Rightarrow> u32 \<Rightarrow> u32 \<Rightarrow> (nat \<times> u32 \<times> u32 \<times> u32) chk" where
  "utf32_at_loop s first_char cur num_to_read msk to_ignore_mask utf32 =
     (if first_char AND msk = 0 then Inr (num_to_read, msk, to_ignore_mask, utf32)
      else
        bindE (arr_get s cur) (\<lambda>c.
        utf32_at_loop s first_char (Suc cur) (Suc num_to_read) (drop_bit 1 msk) (to_ignore_mask OR msk)
          (push_bit 6 utf32 + (ucast c AND 0x3F))))"
  by pat_completeness auto
termination
proof (relation "measure (\<lambda>(_, _, _, _, msk, _, _). unat msk)")
  show "wf (measure (\<lambda>(_, _, _, _, msk, _, _). unat msk))" by simp
next
  fix s :: "u8 list" and first_char msk to_ignore_mask utf32 :: u32 and cur num_to_read :: nat and c :: u8
  assume "first_char AND msk \<noteq> 0"
  then have "msk \<noteq> 0" by auto
  then have "unat msk div 2 < unat msk" by (simp add: unat_gt_0)
  then show "((s, first_char, Suc cur, Suc num_to_read, drop_bit 1 msk, to_ignore_mask OR msk,
      push_bit 6 utf32 + (ucast c AND 0x3F)), s, first_char, cur, num_to_read, msk, to_ignore_mask, utf32)
    \<in> measure (\<lambda>(_, _, _, _, msk, _, _). unat msk)"
    by (simp add: drop_bit_Suc unat_div)
qed

declare utf32_at_loop.simps [simp del]

definition utf32_at_internal :: "bool \<Rightarrow> u8 list \<Rightarrow> nat \<Rightarrow> (u32 \<times> nat) chk" where
  "utf32_at_internal char_signed s cur =
     bindE (arr_get s cur) (\<lambda>c.
     let first_char = char_to_u32 char_signed c in
     if first_char AND 0x80 = 0 then Inr (first_char, 1)
     else
       bindE (utf32_at_loop s first_char (Suc cur) 1 0x40 0xFFFFFF80 first_char)
         (\<lambda>(num_to_read, msk, to_ignore_mask, utf32).
       let to_ignore_mask = to_ignore_mask OR msk
       in bindE (assertE BadShift (6 * (num_to_read - 1) < 32)) (\<lambda>_.
          Inr (utf32 AND NOT (push_bit (6 * (num_to_read - 1)) to_ignore_mask), num_to_read))))"

text \<open>The result and what is stored at \<open>next_index\<close>, if anything.\<close>

definition utf32_from_utf8_at :: "bool \<Rightarrow> u8 list \<Rightarrow> nat \<Rightarrow> nat \<Rightarrow> (int \<times> nat option) chk" where
  "utf32_from_utf8_at char_signed src src_len index =
     (if index \<ge> src_len then Inr (- 1, None)
      else
        bindE (utf32_at_internal char_signed src index) (\<lambda>(utf32, num_read).
        let ret = sint utf32
        in Inr (ret, if ret \<ge> 0 then Some (index + num_read) else None)))"

function utf32_to_utf8_length_loop :: "u32 list \<Rightarrow> nat \<Rightarrow> nat \<Rightarrow> nat \<Rightarrow> int chk" where
  "utf32_to_utf8_length_loop src src_len i ret =
     (if i < src_len then
        bindE (arr_get src i) (\<lambda>c.
        let char_len = utf32_codepoint_utf8_length c in
        if SSIZE_MAX - char_len < ret then Inr (- 1)
        else utf32_to_utf8_length_loop src src_len (Suc i) (ret + char_len))
      else Inr (int ret))"
  by pat_completeness auto
termination by (relation "measure (\<lambda>(_, src_len, i, _). src_len - i)") auto

declare utf32_to_utf8_length_loop.simps [simp del]

definition utf32_to_utf8_length :: "u32 list option \<Rightarrow> nat \<Rightarrow> int chk" where
  "utf32_to_utf8_length src src_len =
     (case src of
        None \<Rightarrow> Inr (- 1)
      | Some src \<Rightarrow> if src_len = 0 then Inr (- 1) else utf32_to_utf8_length_loop src src_len 0 0)"

text \<open>The loop stores at \<open>cur\<close> and ends with the terminating zero; \<open>dst_len\<close> only guards log messages.\<close>

function utf32_to_utf8_loop :: "u32 list \<Rightarrow> nat \<Rightarrow> nat \<Rightarrow> u8 list \<Rightarrow> nat \<Rightarrow> u8 list chk" where
  "utf32_to_utf8_loop src src_len i dst cur =
     (if i < src_len then
        bindE (arr_get src i) (\<lambda>c.
        let len = utf32_codepoint_utf8_length c in
        bindE (mem_write dst cur (utf32_codepoint_to_utf8 c len)) (\<lambda>dst.
        utf32_to_utf8_loop src src_len (Suc i) dst (cur + len)))
      else arr_set dst cur 0)"
  by pat_completeness auto
termination by (relation "measure (\<lambda>(_, src_len, i, _). src_len - i)") auto

declare utf32_to_utf8_loop.simps [simp del]

definition utf32_to_utf8 :: "u32 list option \<Rightarrow> nat \<Rightarrow> u8 list option \<Rightarrow> u8 list option chk" where
  "utf32_to_utf8 src src_len dst =
     (case (src, dst) of
        (Some src, Some dst) \<Rightarrow>
          if src_len = 0 then Inr (Some dst)
          else bindE (utf32_to_utf8_loop src src_len 0 dst 0) (\<lambda>dst. Inr (Some dst))
      | _ \<Rightarrow> Inr dst)"

section \<open>UTF-16\<close>

fun strcmp16 :: "u16 list \<Rightarrow> u16 list \<Rightarrow> int chk" where
  "strcmp16 (ch # s1) (c # s2) =
     (let d = uint ch - uint c in if d \<noteq> 0 \<or> ch = 0 then Inr d else strcmp16 s1 s2)"
| "strcmp16 _ _ = Inl OutOfBounds"

fun strncmp16_loop :: "u16 list \<Rightarrow> u16 list \<Rightarrow> nat \<Rightarrow> int \<Rightarrow> int chk" where
  "strncmp16_loop s1 s2 0 d = Inr d"
| "strncmp16_loop (ch # s1) (c # s2) (Suc n) _ =
     (let d = uint ch - uint c in if d \<noteq> 0 \<or> ch = 0 then Inr d else strncmp16_loop s1 s2 n d)"
| "strncmp16_loop _ _ (Suc n) _ = Inl OutOfBounds"

definition strncmp16 :: "u16 list \<Rightarrow> u16 list \<Rightarrow> nat \<Rightarrow> int chk" where
  "strncmp16 s1 s2 n = strncmp16_loop s1 s2 n 0"

fun strcpy16 :: "nat \<Rightarrow> u16 list \<Rightarrow> u16 list \<Rightarrow> u16 list chk" where
  "strcpy16 q dst [] = Inl OutOfBounds"
| "strcpy16 q dst (ch # p) =
     bindE (arr_set dst q ch) (\<lambda>dst. if ch = 0 then Inr dst else strcpy16 (Suc q) dst p)"

definition strlen16 :: "u16 list \<Rightarrow> nat chk" where "strlen16 = c_strlen"
definition strnlen16 :: "u16 list \<Rightarrow> nat \<Rightarrow> nat chk" where "strnlen16 = c_strnlen"

text \<open>The inner loop stops behind the next occurrence of \<open>needle\<close>; the outer one compares the rest.\<close>

fun strstr16_loop :: "u16 \<Rightarrow> u16 list \<Rightarrow> nat \<Rightarrow> u16 list \<Rightarrow> nat \<Rightarrow> nat option chk" where
  "strstr16_loop needle target target_len [] i = Inl OutOfBounds"
| "strstr16_loop needle target target_len (c # src) i =
     (if c = 0 then Inr None
      else if c \<noteq> needle then strstr16_loop needle target target_len src (Suc i)
      else
        bindE (strncmp16 src target target_len) (\<lambda>d.
        if d \<noteq> 0 then strstr16_loop needle target target_len src (Suc i) else Inr (Some i)))"

definition strstr16 :: "u16 list \<Rightarrow> u16 list \<Rightarrow> nat option chk" where
  "strstr16 src target =
     bindE (arr_get target 0) (\<lambda>needle.
     if needle = 0 then Inr (Some 0)
     else
       bindE (strlen16 (drop 1 target)) (\<lambda>target_len.
       strstr16_loop needle (drop 1 target) target_len src 0))"

fun strzcmp16 :: "u16 list \<Rightarrow> nat \<Rightarrow> u16 list \<Rightarrow> nat \<Rightarrow> int chk" where
  "strzcmp16 s1 (Suc n1) s2 (Suc n2) =
     bindE (arr_get s1 0) (\<lambda>a.
     bindE (arr_get s2 0) (\<lambda>b.
     let d = uint a - uint b
     in if d \<noteq> 0 then Inr d else strzcmp16 (drop 1 s1) n1 (drop 1 s2) n2))"
| "strzcmp16 s1 0 s2 (Suc n2) = bindE (arr_get s2 0) (\<lambda>b. Inr (0 - uint b))"
| "strzcmp16 s1 (Suc n1) s2 0 = bindE (arr_get s1 0) (\<lambda>a. Inr (uint a - 0))"
| "strzcmp16 s1 0 s2 0 = Inr 0"

text \<open>The test for a surrogate pair at \<open>i\<close>, before the end of the string.\<close>

definition surrogate_pair :: "u16 list \<Rightarrow> nat \<Rightarrow> nat \<Rightarrow> bool chk" where
  "surrogate_pair src src_len i =
     bindE (arr_get src i) (\<lambda>c.
     if c AND 0xFC00 = 0xD800 \<and> i + 1 < src_len
     then bindE (arr_get src (i + 1)) (\<lambda>d. Inr (d AND 0xFC00 = 0xDC00))
     else Inr False)"

text \<open>The character at \<open>i\<close> and the index behind it; the operations are those of \<open>int\<close>.\<close>

definition utf16_next :: "u16 list \<Rightarrow> nat \<Rightarrow> nat \<Rightarrow> (u32 \<times> nat) chk" where
  "utf16_next src src_len i =
     bindE (surrogate_pair src src_len i) (\<lambda>pair.
     bindE (arr_get src i) (\<lambda>c.
     if pair then
       bindE (arr_get src (i + 1)) (\<lambda>d.
       let utf32 = push_bit 10 (ucast c - 0xD800);
           utf32 = utf32 OR (ucast d - 0xDC00)
       in Inr (utf32 + 0x10000, i + 2))
     else Inr (ucast c, i + 1)))"

lemma utf16_next_advances: "utf16_next src src_len i = Inr (c, j) \<Longrightarrow> i < j"
  by (auto simp: utf16_next_def bindE_Inr_iff Let_def split: if_splits)

function utf16_to_utf8_loop :: "u16 list \<Rightarrow> nat \<Rightarrow> nat \<Rightarrow> u8 list \<Rightarrow> nat \<Rightarrow> u8 list chk" where
  "utf16_to_utf8_loop src src_len i dst cur =
     (if i < src_len then
        case utf16_next src src_len i of
          Inl e \<Rightarrow> Inl e
        | Inr (utf32, j) \<Rightarrow>
            let len = utf32_codepoint_utf8_length utf32 in
            bindE (mem_write dst cur (utf32_codepoint_to_utf8 utf32 len)) (\<lambda>dst.
            utf16_to_utf8_loop src src_len j dst (cur + len))
      else arr_set dst cur 0)"
  by pat_completeness auto
termination
  by (relation "measure (\<lambda>(_, src_len, i, _). src_len - i)") (auto dest: utf16_next_advances)

declare utf16_to_utf8_loop.simps [simp del]

definition utf16_to_utf8 :: "u16 list option \<Rightarrow> nat \<Rightarrow> u8 list option \<Rightarrow> u8 list option chk" where
  "utf16_to_utf8 src src_len dst =
     (case (src, dst) of
        (Some src, Some dst) \<Rightarrow>
          if src_len = 0 then Inr (Some dst)
          else bindE (utf16_to_utf8_loop src src_len 0 dst 0) (\<lambda>dst. Inr (Some dst))
      | _ \<Rightarrow> Inr dst)"

function utf16_to_utf8_length_loop :: "u16 list \<Rightarrow> nat \<Rightarrow> nat \<Rightarrow> nat \<Rightarrow> int chk" where
  "utf16_to_utf8_length_loop src src_len i ret =
     (if i < src_len then
        case surrogate_pair src src_len i of
          Inl e \<Rightarrow> Inl e
        | Inr pair \<Rightarrow>
            bindE (if pair then Inr 4
                   else bindE (arr_get src i) (\<lambda>c. Inr (utf32_codepoint_utf8_length (ucast c)))) (\<lambda>char_len.
            if SSIZE_MAX - char_len < ret then Inr (- 1)
            else utf16_to_utf8_length_loop src src_len (if pair then i + 2 else i + 1) (ret + char_len))
      else Inr (int ret))"
  by pat_completeness auto
termination by (relation "measure (\<lambda>(_, src_len, i, _). src_len - i)") (auto split: if_splits)

declare utf16_to_utf8_length_loop.simps [simp del]

definition utf16_to_utf8_length :: "u16 list option \<Rightarrow> nat \<Rightarrow> int chk" where
  "utf16_to_utf8_length src src_len =
     (case src of
        None \<Rightarrow> Inr (- 1)
      | Some src \<Rightarrow> if src_len = 0 then Inr (- 1) else utf16_to_utf8_length_loop src src_len 0 0)"

section \<open>UTF-8\<close>

text \<open>
  The inner loop of \<open>utf8_length\<close>: at most four turns. \<open>first_char\<close>, \<open>msk\<close> and
  \<open>to_ignore_mask\<close> are signed 32-bit integers, of which only the bits matter here.
\<close>

fun utf8_length_inner ::
  "nat \<Rightarrow> u8 list \<Rightarrow> u32 \<Rightarrow> nat \<Rightarrow> nat \<Rightarrow> u32 \<Rightarrow> u32 \<Rightarrow> u32 \<Rightarrow> (nat \<times> nat \<times> u32 \<times> u32 \<times> u32) option chk" where
  "utf8_length_inner 0 s first_char cur num_to_read msk to_ignore_mask utf32 =
     Inr (Some (cur, num_to_read, msk, to_ignore_mask, utf32))"
| "utf8_length_inner (Suc turns) s first_char cur num_to_read msk to_ignore_mask utf32 =
     (if first_char AND msk = 0 then Inr (Some (cur, num_to_read, msk, to_ignore_mask, utf32))
      else
        bindE (arr_get s cur) (\<lambda>c.
        if c AND 0xC0 \<noteq> 0x80 then Inr None
        else utf8_length_inner turns s first_char (Suc cur) (Suc num_to_read) (drop_bit 1 msk)
               (to_ignore_mask OR msk) (push_bit 6 utf32 + (ucast c AND 0x3F))))"

text \<open>One turn of the outer loop: the bytes of a character, or \<open>None\<close> for the return of \<open>-1\<close>.\<close>

definition utf8_length_char :: "bool \<Rightarrow> u8 list \<Rightarrow> nat \<Rightarrow> nat option chk" where
  "utf8_length_char char_signed s cur =
     bindE (arr_get s cur) (\<lambda>c.
     let first_char = char_to_u32 char_signed c in
     if first_char AND 0x80 = 0 then Inr (Some 1)
     else if first_char AND 0x40 = 0 then Inr None
     else
       bindE (utf8_length_inner 4 s first_char (Suc cur) 1 0x40 0x80 0) (\<lambda>r.
       case r of
         None \<Rightarrow> Inr None
       | Some (_, num_to_read, msk, to_ignore_mask, utf32) \<Rightarrow>
           if num_to_read = 5 then Inr None
           else
             let to_ignore_mask = to_ignore_mask OR msk;
                 utf32 = utf32 OR push_bit (6 * (num_to_read - 1)) (NOT to_ignore_mask AND first_char)
             in if utf32 > kUnicodeMaxCodepoint then Inr None else Inr (Some num_to_read)))"

text \<open>\<open>fuel\<close> bounds the number of characters; the length of the array is always enough.\<close>

fun utf8_length_loop :: "nat \<Rightarrow> bool \<Rightarrow> u8 list \<Rightarrow> nat \<Rightarrow> nat \<Rightarrow> int chk" where
  "utf8_length_loop 0 char_signed s cur ret = Inl OutOfFuel"
| "utf8_length_loop (Suc fuel) char_signed s cur ret =
     bindE (arr_get s cur) (\<lambda>c.
     if c = 0 then Inr (int ret)
     else
       bindE (utf8_length_char char_signed s cur) (\<lambda>r.
       case r of
         None \<Rightarrow> Inr (- 1)
       | Some n \<Rightarrow> utf8_length_loop fuel char_signed s (cur + n) (ret + n)))"

definition utf8_length :: "bool \<Rightarrow> u8 list \<Rightarrow> int chk" where
  "utf8_length char_signed src = utf8_length_loop (Suc (length src)) char_signed src 0 0"

definition utf8_codepoint_len :: "u8 \<Rightarrow> nat" where
  "utf8_codepoint_len ch =
     unat ((drop_bit (unat (drop_bit 3 (ucast ch :: u32) AND 0x1E)) (0xE5000000 :: u32)) AND 3) + 1"

definition utf8_shift_and_mask :: "u32 \<Rightarrow> u8 \<Rightarrow> u32" where
  "utf8_shift_and_mask codePoint byte = push_bit 6 codePoint OR (0x3F AND ucast byte)"

definition utf8_to_utf32_codepoint :: "u8 list \<Rightarrow> nat \<Rightarrow> nat \<Rightarrow> u32 chk" where
  "utf8_to_utf32_codepoint s src n =
     (if n = 1 then bindE (arr_get s src) (\<lambda>b0. Inr (ucast b0))
      else if n = 2 then
        bindE (arr_get s src) (\<lambda>b0.
        bindE (arr_get s (src + 1)) (\<lambda>b1.
        Inr (utf8_shift_and_mask (ucast b0 AND 0x1F) b1)))
      else if n = 3 then
        bindE (arr_get s src) (\<lambda>b0.
        bindE (arr_get s (src + 1)) (\<lambda>b1.
        bindE (arr_get s (src + 2)) (\<lambda>b2.
        Inr (utf8_shift_and_mask (utf8_shift_and_mask (ucast b0 AND 0x0F) b1) b2))))
      else if n = 4 then
        bindE (arr_get s src) (\<lambda>b0.
        bindE (arr_get s (src + 1)) (\<lambda>b1.
        bindE (arr_get s (src + 2)) (\<lambda>b2.
        bindE (arr_get s (src + 3)) (\<lambda>b3.
        Inr (utf8_shift_and_mask (utf8_shift_and_mask (utf8_shift_and_mask (ucast b0 AND 0x07) b1) b2) b3)))))
      else Inr 0xFFFF)"

function utf8_to_utf16_length_loop :: "bool \<Rightarrow> u8 list \<Rightarrow> nat \<Rightarrow> nat \<Rightarrow> nat \<Rightarrow> int chk" where
  "utf8_to_utf16_length_loop overreadIsFatal s u8end u8cur measured =
     (if u8cur < u8end then
        bindE (arr_get s u8cur) (\<lambda>ch.
        let u8charLen = utf8_codepoint_len ch in
        if u8cur + u8charLen - 1 \<ge> u8end \<and> \<not> overreadIsFatal then Inr (- 1)
        else
          bindE (utf8_to_utf32_codepoint s u8cur u8charLen) (\<lambda>codepoint.
          utf8_to_utf16_length_loop overreadIsFatal s u8end (u8cur + u8charLen)
            (measured + 1 + (if codepoint > 0xFFFF then 1 else 0))))
      else if u8cur \<noteq> u8end then Inr (- 1)
      else Inr (int measured))"
  by pat_completeness auto
termination
  by (relation "measure (\<lambda>(_, _, u8end, u8cur, _). u8end - u8cur)") (auto simp: utf8_codepoint_len_def)

declare utf8_to_utf16_length_loop.simps [simp del]

definition utf8_to_utf16_length :: "u8 list \<Rightarrow> nat \<Rightarrow> bool \<Rightarrow> int chk" where
  "utf8_to_utf16_length s u8len overreadIsFatal = utf8_to_utf16_length_loop overreadIsFatal s u8len 0 0"

text \<open>
  The conversion; \<open>u16end\<close> is \<open>dst + dstLen\<close> with \<open>dstLen\<close> a 64-bit size, which need not
  lie in the array. The result is the array and the index returned.
\<close>

function utf8_to_utf16_loop :: "u8 list \<Rightarrow> nat \<Rightarrow> nat \<Rightarrow> u16 list \<Rightarrow> nat \<Rightarrow> nat \<Rightarrow> (u16 list \<times> nat) chk" where
  "utf8_to_utf16_loop s u8end u8cur dst u16end u16cur =
     (if u8cur < u8end \<and> u16cur < u16end then
        bindE (arr_get s u8cur) (\<lambda>ch.
        let u8len = utf8_codepoint_len ch in
        bindE (utf8_to_utf32_codepoint s u8cur u8len) (\<lambda>codepoint.
        if codepoint \<le> 0xFFFF then
          bindE (arr_set dst u16cur (ucast codepoint)) (\<lambda>dst.
          utf8_to_utf16_loop s u8end (u8cur + u8len) dst u16end (Suc u16cur))
        else
          let codepoint = codepoint - 0x10000 in
          bindE (arr_set dst u16cur (ucast (drop_bit 10 codepoint + 0xD800))) (\<lambda>dst.
          if Suc u16cur \<ge> u16end then Inr (dst, u16cur)
          else
            bindE (arr_set dst (Suc u16cur) (ucast ((codepoint AND 0x3FF) + 0xDC00))) (\<lambda>dst.
            utf8_to_utf16_loop s u8end (u8cur + u8len) dst u16end (Suc (Suc u16cur))))))
      else Inr (dst, u16cur))"
  by pat_completeness auto
termination
  by (relation "measure (\<lambda>(_, u8end, u8cur, _). u8end - u8cur)") (auto simp: utf8_codepoint_len_def)

declare utf8_to_utf16_loop.simps [simp del]

definition utf8_to_utf16_no_null_terminator ::
  "u8 list \<Rightarrow> nat \<Rightarrow> u16 list \<Rightarrow> u64 \<Rightarrow> (u16 list \<times> nat) chk" where
  "utf8_to_utf16_no_null_terminator src srcLen dst dstLen =
     (if dstLen = 0 then Inr (dst, 0) else utf8_to_utf16_loop src srcLen 0 dst (unat dstLen) 0)"

definition utf8_to_utf16 :: "u8 list \<Rightarrow> nat \<Rightarrow> u16 list \<Rightarrow> u64 \<Rightarrow> (u16 list \<times> nat) chk" where
  "utf8_to_utf16 u8str u8len u16str u16len =
     bindE (utf8_to_utf16_no_null_terminator u8str u8len u16str (u16len - 1)) (\<lambda>(u16str, fin).
     bindE (arr_set u16str fin 0) (\<lambda>u16str. Inr (u16str, fin)))"

end
