(* ===== verification/Strings.thy ===== *)
theory Strings
  imports SharedBuffer Unicode
begin

text \<open>
  \<open>String8\<close> and \<open>String16\<close> of \<open>libutils\<close>. A string object is its member \<open>mString\<close>. The buffers of the two
  classes are two heaps, of bytes and of 16-bit units. \<open>String8\<close> shares one empty string,
  made at the first use; the empty \<open>String16\<close> is a constant of the program. The
  length handed to \<open>setTo\<close> and \<open>append\<close> is a 64-bit size; the characters come as a list that
  must be at least as long.
\<close>

record strings =
  st_bytes :: "u8 sb_heap"
  st_units :: "u16 sb_heap"
  gEmptyStringBuf :: "nat option"

abbreviation (input) NO_MEMORY :: int where "NO_MEMORY \<equiv> - 12"

section \<open>String8\<close>

definition getEmptyString :: "strings \<Rightarrow> (nat \<times> strings) chk" where
  "getEmptyString st =
     (case gEmptyStringBuf st of
        Some b \<Rightarrow> Inr (b, st)
      | None \<Rightarrow>
          bindE (SharedBuffer_alloc 1 0 1 (st_bytes st)) (\<lambda>(r, hp).
          bindE (derefE NullDeref r) (\<lambda>b.
          bindE (sb_store b 0 [0] hp) (\<lambda>hp.
          Inr (b, st\<lparr>st_bytes := hp, gEmptyStringBuf := Some b\<rparr>)))))"

definition String8_allocFromUTF8 :: "u8 list \<Rightarrow> u64 \<Rightarrow> strings \<Rightarrow> (nat option \<times> strings) chk" where
  "String8_allocFromUTF8 s len st =
     (if len > 0 then
        if len = - 1 then Inr (None, st)
        else
          bindE (SharedBuffer_alloc 1 0 (len + 1) (st_bytes st)) (\<lambda>(r, hp).
          case r of
            None \<Rightarrow> Inr (None, st\<lparr>st_bytes := hp\<rparr>)
          | Some b \<Rightarrow>
              bindE (mem_read s 0 (unat len)) (\<lambda>xs.
              bindE (sb_store b 0 xs hp) (\<lambda>hp.
              bindE (sb_store b (unat len) [0] hp) (\<lambda>hp.
              Inr (Some b, st\<lparr>st_bytes := hp\<rparr>)))))
      else bindE (getEmptyString st) (\<lambda>(b, st). Inr (Some b, st)))"

definition String8_allocFromUTF16 :: "u16 list \<Rightarrow> u64 \<Rightarrow> strings \<Rightarrow> (nat option \<times> strings) chk" where
  "String8_allocFromUTF16 s len st =
     (let empty = bindE (getEmptyString st) (\<lambda>(b, st). Inr (Some b, st)) in
      if len = 0 then empty
      else
        bindE (utf16_to_utf8_length (Some s) (unat len)) (\<lambda>n.
        let resultStrLen = n + 1 in
        if resultStrLen < 1 then empty
        else
          bindE (SharedBuffer_alloc 1 0 (word_of_int resultStrLen) (st_bytes st)) (\<lambda>(r, hp).
          case r of
            None \<Rightarrow> bindE (getEmptyString (st\<lparr>st_bytes := hp\<rparr>)) (\<lambda>(b, st). Inr (Some b, st))
          | Some b \<Rightarrow>
              bindE (sb_get hp b) (\<lambda>sb.
              bindE (utf16_to_utf8 (Some s) (unat len) (Some (sb_data sb))) (\<lambda>dst.
              bindE (derefE NullDeref dst) (\<lambda>dst.
              Inr (Some b, st\<lparr>st_bytes := sb_put b (sb\<lparr>sb_data := dst\<rparr>) hp\<rparr>)))))))"

definition String8_empty :: "strings \<Rightarrow> (nat option \<times> strings) chk" where
  "String8_empty st = bindE (getEmptyString st) (\<lambda>(b, st). Inr (Some b, st))"

definition String8_chars :: "u8 list \<Rightarrow> strings \<Rightarrow> (nat option \<times> strings) chk" where
  "String8_chars s st =
     bindE (c_strlen s) (\<lambda>len.
     bindE (String8_allocFromUTF8 s (of_nat len) st) (\<lambda>(mString, st).
     case mString of None \<Rightarrow> String8_empty st | Some b \<Rightarrow> Inr (Some b, st)))"

definition String8_length :: "nat option \<Rightarrow> strings \<Rightarrow> u64 chk" where
  "String8_length mString st = bindE (sizeFromData mString (st_bytes st)) (\<lambda>n. Inr (n - 1))"

text \<open>The return value, the new \<open>mString\<close> and the new state.\<close>

definition String8_setTo :: "u8 list \<Rightarrow> u64 \<Rightarrow> nat option \<Rightarrow> strings \<Rightarrow> (int \<times> nat option \<times> strings) chk" where
  "String8_setTo other len mString st =
     bindE (String8_allocFromUTF8 other len st) (\<lambda>(newString, st).
     bindE (derefE NullDeref mString) (\<lambda>b.
     bindE (SharedBuffer_release b 0 (st_bytes st)) (\<lambda>(_, hp).
     let st = st\<lparr>st_bytes := hp\<rparr>
     in case newString of
          Some n \<Rightarrow> Inr (0, Some n, st)
        | None \<Rightarrow> bindE (getEmptyString st) (\<lambda>(b, st). Inr (NO_MEMORY, Some b, st)))))"

definition String8_real_append :: "u8 list \<Rightarrow> u64 \<Rightarrow> nat option \<Rightarrow> strings \<Rightarrow> (int \<times> nat option \<times> strings) chk" where
  "String8_real_append other otherLen mString st =
     bindE (String8_length mString st) (\<lambda>myLen.
     bindE (derefE NullDeref mString) (\<lambda>b.
     bindE (editResize 1 0 b (otherLen + myLen + 1) (st_bytes st)) (\<lambda>(r, hp).
     case r of
       None \<Rightarrow> Inr (NO_MEMORY, mString, st\<lparr>st_bytes := hp\<rparr>)
     | Some n \<Rightarrow>
         bindE (mem_read other 0 (unat otherLen)) (\<lambda>xs.
         bindE (sb_store n (unat myLen) xs hp) (\<lambda>hp.
         bindE (sb_store n (unat (myLen + otherLen)) [0] hp) (\<lambda>hp.
         Inr (0, Some n, st\<lparr>st_bytes := hp\<rparr>)))))))"

definition String8_append :: "u8 list \<Rightarrow> u64 \<Rightarrow> nat option \<Rightarrow> strings \<Rightarrow> (int \<times> nat option \<times> strings) chk" where
  "String8_append other otherLen mString st =
     bindE (String8_length mString st) (\<lambda>n.
     if n = 0 then String8_setTo other otherLen mString st
     else if otherLen = 0 then Inr (0, mString, st)
     else String8_real_append other otherLen mString st)"

definition String8_append_chars :: "u8 list \<Rightarrow> nat option \<Rightarrow> strings \<Rightarrow> (int \<times> nat option \<times> strings) chk" where
  "String8_append_chars other mString st =
     bindE (c_strlen other) (\<lambda>n. String8_append other (of_nat n) mString st)"

section \<open>String16\<close>

text \<open>
  \<open>Static16 n s\<close> is a \<open>StaticData\<close>: the size word in front of the characters. The test for it looks at the word in
  front of the characters, which in a \<open>SharedBuffer\<close> is \<open>mClientMetadata\<close>.
\<close>

datatype string16 = Static16 u32 "u16 list" | Shared16 nat

abbreviation (input) kIsSharedBufferAllocated :: u32 where "kIsSharedBufferAllocated \<equiv> 0x80000000"

definition emptyString :: string16 where "emptyString = Static16 0 [0]"

definition String16_alloc :: "u64 \<Rightarrow> strings \<Rightarrow> (nat \<times> strings) chk" where
  "String16_alloc nbytes st =
     bindE (SharedBuffer_alloc 2 0 nbytes (st_units st)) (\<lambda>(r, hp).
     bindE (derefE NullDeref r) (\<lambda>b.
     bindE (sb_get hp b) (\<lambda>sb.
     Inr (b, st\<lparr>st_units := sb_put b (sb\<lparr>mClientMetadata := kIsSharedBufferAllocated\<rparr>) hp\<rparr>))))"

definition String16_allocFromUTF8 :: "u8 list \<Rightarrow> nat \<Rightarrow> strings \<Rightarrow> (string16 \<times> strings) chk" where
  "String16_allocFromUTF8 u8str u8len st =
     (if u8len = 0 then Inr (emptyString, st)
      else
        bindE (utf8_to_utf16_length u8str u8len False) (\<lambda>u16len.
        if u16len < 0 then Inr (emptyString, st)
        else
          bindE (String16_alloc (2 * (word_of_int u16len + 1)) st) (\<lambda>(b, st).
          bindE (sb_get (st_units st) b) (\<lambda>sb.
          bindE (utf8_to_utf16 u8str u8len (sb_data sb) (word_of_int u16len + 1)) (\<lambda>(dst, _).
          Inr (Shared16 b, st\<lparr>st_units := sb_put b (sb\<lparr>sb_data := dst\<rparr>) (st_units st)\<rparr>))))))"

definition String16_chars :: "u8 list \<Rightarrow> strings \<Rightarrow> (string16 \<times> strings) chk" where
  "String16_chars s st = bindE (c_strlen s) (\<lambda>n. String16_allocFromUTF8 s n st)"

definition isStaticString :: "string16 \<Rightarrow> strings \<Rightarrow> bool chk" where
  "isStaticString s st =
     (case s of
        Static16 n _ \<Rightarrow> Inr (n AND kIsSharedBufferAllocated = 0)
      | Shared16 b \<Rightarrow> bindE (sb_get (st_units st) b) (\<lambda>sb. Inr (mClientMetadata sb AND kIsSharedBufferAllocated = 0)))"

definition staticStringSize :: "string16 \<Rightarrow> strings \<Rightarrow> u64 chk" where
  "staticStringSize s st =
     (case s of
        Static16 n _ \<Rightarrow> Inr (ucast n)
      | Shared16 b \<Rightarrow> bindE (sb_get (st_units st) b) (\<lambda>sb. Inr (ucast (mClientMetadata sb))))"

text \<open>A \<open>StaticData\<close> that passes for a buffer would have its size read from before it.\<close>

definition String16_size :: "string16 \<Rightarrow> strings \<Rightarrow> u64 chk" where
  "String16_size s st =
     bindE (isStaticString s st) (\<lambda>static.
     if static then staticStringSize s st
     else
       (case s of
          Static16 _ _ \<Rightarrow> Inl OutOfBounds
        | Shared16 b \<Rightarrow> bindE (sizeFromData (Some b) (st_units st)) (\<lambda>n. Inr (n div 2 - 1))))"

definition String16_string :: "string16 \<Rightarrow> strings \<Rightarrow> u16 list chk" where
  "String16_string s st =
     (case s of
        Static16 _ xs \<Rightarrow> Inr xs
      | Shared16 b \<Rightarrow> bindE (sb_get (st_units st) b) (\<lambda>sb. Inr (sb_data sb)))"

definition String16_eq :: "string16 \<Rightarrow> string16 \<Rightarrow> strings \<Rightarrow> bool chk" where
  "String16_eq a b st =
     bindE (String16_string a st) (\<lambda>s1.
     bindE (String16_size a st) (\<lambda>n1.
     bindE (String16_string b st) (\<lambda>s2.
     bindE (String16_size b st) (\<lambda>n2.
     bindE (strzcmp16 s1 (unat n1) s2 (unat n2)) (\<lambda>d. Inr (d = 0))))))"

definition String8_from_String16 :: "string16 \<Rightarrow> strings \<Rightarrow> (nat option \<times> strings) chk" where
  "String8_from_String16 s st =
     bindE (String16_string s st) (\<lambda>xs.
     bindE (String16_size s st) (\<lambda>n. String8_allocFromUTF16 xs n st))"

end
