(* ===== verification/Unicode_Codec.thy ===== *)
theory Unicode_Codec
  imports Unicode
begin

text \<open>
  Characters and their encodings: the bytes of a character in UTF-8, the units in UTF-16,
  and the proofs that decoding gives the character back. The string functions are
  related to these encodings in \<open>Unicode_Strings\<close>.
\<close>

section \<open>Bits of the marks and masks\<close>

lemma bit_marks:
  "bit (0x80::u32) n \<longleftrightarrow> n = 7" "bit (0xBF::u32) n \<longleftrightarrow> n < 6 \<or> n = 7" "bit (0xC0::u32) n \<longleftrightarrow> n = 6 \<or> n = 7"
  "bit (0xE0::u32) n \<longleftrightarrow> 5 \<le> n \<and> n < 8" "bit (0xF0::u32) n \<longleftrightarrow> 4 \<le> n \<and> n < 8"
  "bit (0x07::u32) n \<longleftrightarrow> n < 3" "bit (0x0F::u32) n \<longleftrightarrow> n < 4" "bit (0x1F::u32) n \<longleftrightarrow> n < 5" "bit (0x3F::u32) n \<longleftrightarrow> n < 6"
  "bit (0x1E::u32) n \<longleftrightarrow> 1 \<le> n \<and> n < 5"
proof -
  have eqs: "(0x80::u32) = push_bit 7 (mask 1)" "(0xBF::u32) = mask 6 OR push_bit 7 (mask 1)" "(0xC0::u32) = push_bit 6 (mask 2)"
    "(0xE0::u32) = push_bit 5 (mask 3)" "(0xF0::u32) = push_bit 4 (mask 4)"
    "(0x07::u32) = mask 3" "(0x0F::u32) = mask 4" "(0x1F::u32) = mask 5" "(0x3F::u32) = mask 6" "(0x1E::u32) = push_bit 1 (mask 4)"
    by (simp_all add: mask_eq_exp_minus_1)
  note rules = bit_push_bit_iff bit_or_iff bit_mask_iff
  show "bit (0x80::u32) n \<longleftrightarrow> n = 7" unfolding eqs(1) rules by auto
  show "bit (0xBF::u32) n \<longleftrightarrow> n < 6 \<or> n = 7" unfolding eqs(2) rules by auto
  show "bit (0xC0::u32) n \<longleftrightarrow> n = 6 \<or> n = 7" unfolding eqs(3) rules by auto
  show "bit (0xE0::u32) n \<longleftrightarrow> 5 \<le> n \<and> n < 8" unfolding eqs(4) rules by auto
  show "bit (0xF0::u32) n \<longleftrightarrow> 4 \<le> n \<and> n < 8" unfolding eqs(5) rules by auto
  show "bit (0x07::u32) n \<longleftrightarrow> n < 3" unfolding eqs(6) rules by auto
  show "bit (0x0F::u32) n \<longleftrightarrow> n < 4" unfolding eqs(7) rules by auto
  show "bit (0x1F::u32) n \<longleftrightarrow> n < 5" unfolding eqs(8) rules by auto
  show "bit (0x3F::u32) n \<longleftrightarrow> n < 6" unfolding eqs(9) rules by auto
  show "bit (0x1E::u32) n \<longleftrightarrow> 1 \<le> n \<and> n < 5" unfolding eqs(10) rules by auto
qed

lemma bit_bound: "c < 2 ^ k \<Longrightarrow> bit (c::u32) n \<longrightarrow> n < k"
  using bit_take_bit_iff [of k c n] less_mask_eq [of c k]
  by (metis less_mask_eq not_le take_bit_eq_mask)

lemmas utf_bits = bit_push_bit_iff bit_or_iff bit_and_iff bit_unsigned_iff bit_drop_bit_eq o_apply bit_marks

section \<open>A character in UTF-8\<close>

definition scalar_value :: "u32 \<Rightarrow> bool" where
  "scalar_value c \<longleftrightarrow> c < 0xD800 \<or> 0xE000 \<le> c \<and> c \<le> 0x10FFFF"

definition utf8_encode :: "u32 \<Rightarrow> u8 list" where
  "utf8_encode c = utf32_codepoint_to_utf8 c (utf32_codepoint_utf8_length c)"

lemma utf8_length_scalar:
  "scalar_value c \<Longrightarrow> utf32_codepoint_utf8_length c =
     (if c < 0x80 then 1 else if c < 0x800 then 2 else if c < 0x10000 then 3 else 4)"
  by (auto simp: scalar_value_def utf32_codepoint_utf8_length_def word_less_nat_alt word_le_nat_alt)

lemma utf8_length_le_4: "utf32_codepoint_utf8_length c \<le> 4"
  by (simp add: utf32_codepoint_utf8_length_def)

lemma length_utf8_labels: "length (utf8_labels bytes n c out) = n + length out"
  by (induction bytes n c out rule: utf8_labels.induct) simp_all

lemma length_utf32_codepoint_to_utf8:
  "n \<le> 4 \<Longrightarrow> length (utf32_codepoint_to_utf8 c n) = n"
  by (simp add: utf32_codepoint_to_utf8_def length_utf8_labels)

lemma length_utf8_encode [simp]: "length (utf8_encode c) = utf32_codepoint_utf8_length c"
  by (simp add: utf8_encode_def length_utf32_codepoint_to_utf8 utf8_length_le_4)

lemma utf8_encode_not_scalar: "\<not> scalar_value c \<Longrightarrow> utf8_encode c = []"
proof -
  assume "\<not> scalar_value c"
  then have "utf32_codepoint_utf8_length c = 0"
    by (auto simp: scalar_value_def utf32_codepoint_utf8_length_def word_less_nat_alt word_le_nat_alt)
  then show ?thesis by (metis length_0_conv length_utf8_encode)
qed

text \<open>The bytes: the mark with the high bits, then six bits each behind \<open>10\<close>.\<close>

abbreviation (input) tail_byte :: "u32 \<Rightarrow> u8" where
  "tail_byte c \<equiv> ucast ((c OR 0x80) AND 0xBF)"

lemma utf32_codepoint_to_utf8_bytes:
  "utf32_codepoint_to_utf8 c 1 = [ucast c]"
  "utf32_codepoint_to_utf8 c 2 = [ucast (drop_bit 6 c OR 0xC0), tail_byte c]"
  "utf32_codepoint_to_utf8 c 3 = [ucast (drop_bit 12 c OR 0xE0), tail_byte (drop_bit 6 c), tail_byte c]"
  "utf32_codepoint_to_utf8 c 4 =
     [ucast (drop_bit 18 c OR 0xF0), tail_byte (drop_bit 12 c), tail_byte (drop_bit 6 c), tail_byte c]"
proof -
  have labels: "utf8_labels b 1 c out = ucast (c OR kFirstByteMark ! b) # out"
    "utf8_labels b 2 c out = utf8_labels b 1 (drop_bit 6 c) (tail_byte c # out)"
    "utf8_labels b 3 c out = utf8_labels b 2 (drop_bit 6 c) (tail_byte c # out)"
    "utf8_labels b 4 c out = utf8_labels b 3 (drop_bit 6 c) (tail_byte c # out)" for b c out
    by (simp_all add: eval_nat_numeral)
  have marks: "kFirstByteMark ! 1 = 0" "kFirstByteMark ! 2 = 0xC0" "kFirstByteMark ! 3 = 0xE0" "kFirstByteMark ! 4 = 0xF0"
    by (simp_all add: kFirstByteMark_def)
  note defs = utf32_codepoint_to_utf8_def labels marks drop_bit_drop_bit
  show "utf32_codepoint_to_utf8 c 1 = [ucast c]"
    unfolding defs by simp
  show "utf32_codepoint_to_utf8 c 2 = [ucast (drop_bit 6 c OR 0xC0), tail_byte c]"
    unfolding defs by simp
  show "utf32_codepoint_to_utf8 c 3 = [ucast (drop_bit 12 c OR 0xE0), tail_byte (drop_bit 6 c), tail_byte c]"
    unfolding defs by simp
  show "utf32_codepoint_to_utf8 c 4 =
     [ucast (drop_bit 18 c OR 0xF0), tail_byte (drop_bit 12 c), tail_byte (drop_bit 6 c), tail_byte c]"
    unfolding defs by simp
qed

lemma utf8_encode_bytes:
  assumes "scalar_value c"
  shows "utf8_encode c = (if c < 0x80 then [ucast c]
     else if c < 0x800 then [ucast (drop_bit 6 c OR 0xC0), tail_byte c]
     else if c < 0x10000 then [ucast (drop_bit 12 c OR 0xE0), tail_byte (drop_bit 6 c), tail_byte c]
     else [ucast (drop_bit 18 c OR 0xF0), tail_byte (drop_bit 12 c), tail_byte (drop_bit 6 c), tail_byte c])"
  unfolding utf8_encode_def utf8_length_scalar [OF assms]
  by (simp only: if_distrib [of "utf32_codepoint_to_utf8 c"] utf32_codepoint_to_utf8_bytes)

text \<open>Taking the bits out again.\<close>

lemma shift_tail_byte: "utf8_shift_and_mask (drop_bit 6 c) (tail_byte c) = c"
proof (rule bit_word_eqI)
  fix n
  assume "n < LENGTH(32)"
  then show "bit (utf8_shift_and_mask (drop_bit 6 c) (tail_byte c)) n = bit c n"
    unfolding utf8_shift_and_mask_def utf_bits by (cases "n < 6") auto
qed

lemma shift_tail_byte': "utf8_shift_and_mask (drop_bit (k + 6) c) (tail_byte (drop_bit k c)) = drop_bit k c"
  using shift_tail_byte [of "drop_bit k c"] by (simp add: drop_bit_drop_bit add.commute)

lemma lead_byte:
  fixes c :: u32
  shows "c < 0x20 \<Longrightarrow> ucast (ucast (c OR 0xC0) :: u8) AND 0x1F = c"
  "c < 0x10 \<Longrightarrow> ucast (ucast (c OR 0xE0) :: u8) AND 0x0F = c"
  "c < 0x08 \<Longrightarrow> ucast (ucast (c OR 0xF0) :: u8) AND 0x07 = c"
proof -
  show "ucast (ucast (c OR 0xC0) :: u8) AND 0x1F = c" if "c < 0x20"
  proof (rule bit_word_eqI)
    fix n
    show "bit (ucast (ucast (c OR 0xC0) :: u8) AND 0x1F :: u32) n = bit c n"
      using bit_bound [of c 5 n] that unfolding utf_bits by (auto dest: bit_imp_le_length)
  qed
  show "ucast (ucast (c OR 0xE0) :: u8) AND 0x0F = c" if "c < 0x10"
  proof (rule bit_word_eqI)
    fix n
    show "bit (ucast (ucast (c OR 0xE0) :: u8) AND 0x0F :: u32) n = bit c n"
      using bit_bound [of c 4 n] that unfolding utf_bits by (auto dest: bit_imp_le_length)
  qed
  show "ucast (ucast (c OR 0xF0) :: u8) AND 0x07 = c" if "c < 0x08"
  proof (rule bit_word_eqI)
    fix n
    show "bit (ucast (ucast (c OR 0xF0) :: u8) AND 0x07 :: u32) n = bit c n"
      using bit_bound [of c 3 n] that unfolding utf_bits by (auto dest: bit_imp_le_length)
  qed
qed

lemma drop_bit_less: "unat c < 2 ^ (k + m) \<Longrightarrow> unat (drop_bit k c :: u32) < 2 ^ m"
  unfolding unat_drop_bit_eq by (simp add: drop_bit_eq_div less_mult_imp_div_less power_add mult.commute)

lemma lead_bytes:
  fixes c :: u32
  shows "c < 0x800 \<Longrightarrow> ucast (ucast (drop_bit 6 c OR 0xC0) :: u8) AND 0x1F = drop_bit 6 c"
  "c < 0x10000 \<Longrightarrow> ucast (ucast (drop_bit 12 c OR 0xE0) :: u8) AND 0x0F = drop_bit 12 c"
  "c < 0x200000 \<Longrightarrow> ucast (ucast (drop_bit 18 c OR 0xF0) :: u8) AND 0x07 = drop_bit 18 c"
  using drop_bit_less [of c 6 5] drop_bit_less [of c 12 4] drop_bit_less [of c 18 3]
  by (intro lead_byte; simp add: word_less_nat_alt)+

lemma ascii_byte:
  fixes c :: u32
  assumes "c < 0x80"
  shows "ucast (ucast c :: u8) = c"
proof (rule bit_word_eqI)
  fix n
  show "bit (ucast (ucast c :: u8) :: u32) n = bit c n"
    using bit_bound [of c 7 n] assms unfolding utf_bits by (auto dest: bit_imp_le_length)
qed

text \<open>Decoding at the place where a character was encoded gives the character.\<close>

lemma utf8_decode_encode:
  assumes "scalar_value c"
  shows "utf8_to_utf32_codepoint (pre @ utf8_encode c @ post) (length pre) (utf32_codepoint_utf8_length c) = Inr c"
proof -
  have nth: "arr_get (pre @ bs @ post) (length pre + i) = Inr (bs ! i)" if "i < length bs" for bs :: "u8 list" and i
    using that by (simp add: nth_append)
  have bound: "c < 0x200000"
    using assms unfolding scalar_value_def by (elim disjE conjE) (simp_all add: word_less_nat_alt word_le_nat_alt)
  consider "c < 0x80" | "\<not> c < 0x80" "c < 0x800" | "\<not> c < 0x80" "\<not> c < 0x800" "c < 0x10000"
    | "\<not> c < 0x80" "\<not> c < 0x800" "\<not> c < 0x10000" by blast
  then show ?thesis
  proof cases
    case 1
    then have "ucast (ucast c :: u8) = c" by (rule ascii_byte)
    with 1 show ?thesis
      using utf8_encode_bytes [OF assms] nth [of 0 "utf8_encode c"] utf8_length_scalar [OF assms]
      by (simp add: utf8_to_utf32_codepoint_def)
  next
    case 2
    with nth [of 0 "utf8_encode c"] nth [of 1 "utf8_encode c"] show ?thesis
      using utf8_encode_bytes [OF assms] utf8_length_scalar [OF assms]
      by (simp add: utf8_to_utf32_codepoint_def lead_bytes shift_tail_byte)
  next
    case 3
    with nth [of 0 "utf8_encode c"] nth [of 1 "utf8_encode c"] nth [of 2 "utf8_encode c"] show ?thesis
      using utf8_encode_bytes [OF assms] utf8_length_scalar [OF assms]
      by (simp add: utf8_to_utf32_codepoint_def lead_bytes shift_tail_byte shift_tail_byte' [of 6, simplified])
  next
    case 4
    with nth [of 0 "utf8_encode c"] nth [of 1 "utf8_encode c"] nth [of 2 "utf8_encode c"] nth [of 3 "utf8_encode c"]
    show ?thesis
      using utf8_encode_bytes [OF assms] utf8_length_scalar [OF assms]
      by (simp add: utf8_to_utf32_codepoint_def lead_bytes bound shift_tail_byte shift_tail_byte' [of 6, simplified]
        shift_tail_byte' [of 12, simplified])
  qed
qed

text \<open>The number of bytes, from the upper four bits of the first one.\<close>

lemma unat_u8_less: "unat (b :: u8) < 256"
  using unsigned_less [of b, where 'a = nat] by simp

lemma utf8_codepoint_len_eq:
  "utf8_codepoint_len b = (if unat b < 192 then 1 else if unat b < 224 then 2 else if unat b < 240 then 3 else 4)"
proof -
  have "drop_bit 3 (ucast b :: u32) AND 0x1E = push_bit 1 (drop_bit 4 (ucast b))"
  proof (rule bit_word_eqI)
    fix n
    show "bit (drop_bit 3 (ucast b :: u32) AND 0x1E) n = bit (push_bit 1 (drop_bit 4 (ucast b)) :: u32) n"
      unfolding utf_bits by (auto dest: bit_imp_le_length)
  qed
  moreover have "unat (push_bit 1 (drop_bit 4 (ucast b)) :: u32) = 2 * (unat b div 16)"
  proof -
    have "unat (drop_bit 4 (ucast b) :: u32) = unat b div 16"
      unfolding unat_drop_bit_eq using unat_u8_less [of b]
      by (simp add: drop_bit_eq_div unsigned_ucast_eq take_bit_nat_eq_self)
    then show ?thesis using unat_u8_less [of b] by (simp add: unat_word_ariths)
  qed
  ultimately have eq: "utf8_codepoint_len b = unat (drop_bit (2 * (unat b div 16)) (0xE5000000 :: u32) AND 3) + 1"
    by (simp add: utf8_codepoint_len_def)
  define k where "k = unat b div 16"
  have k: "k < 16" using unat_u8_less [of b] by (simp add: k_def)
  have split: "unat b < 192 \<longleftrightarrow> k < 12" "unat b < 224 \<longleftrightarrow> k < 14" "unat b < 240 \<longleftrightarrow> k < 15"
    by (auto simp: k_def)
  have "k \<in> {0, 1, 2, 3, 4, 5, 6, 7, 8, 9, 10, 11, 12, 13, 14, 15}" using k unfolding insert_iff empty_iff by presburger
  then show ?thesis
    unfolding eq split k_def [symmetric] by (elim insertE) simp_all
qed

lemma or_mark:
  fixes x :: u32
  assumes "x < 2 ^ k"
  shows "x OR push_bit k m = x + push_bit k m"
  using bit_bound [OF assms] by (intro disjunctive_add_eq_or [symmetric]) (force simp: bit_eq_iff bit_simps)

lemma utf8_encode_head:
  assumes "scalar_value c"
  shows "utf8_codepoint_len (hd (utf8_encode c)) = utf32_codepoint_utf8_length c"
proof -
  have mark: "unat (ucast (x OR 0xC0) :: u8) = unat x + 192" if "unat x < 32" for x :: u32
    using or_mark [of x 5 6] that by (simp add: word_less_nat_alt unsigned_ucast_eq unat_word_ariths take_bit_nat_eq_self)
  have mark3: "unat (ucast (x OR 0xE0) :: u8) = unat x + 224" if "unat x < 16" for x :: u32
    using or_mark [of x 4 14] that by (simp add: word_less_nat_alt unsigned_ucast_eq unat_word_ariths take_bit_nat_eq_self)
  have mark4: "unat (ucast (x OR 0xF0) :: u8) = unat x + 240" if "unat x < 8" for x :: u32
    using or_mark [of x 3 30] that by (simp add: word_less_nat_alt unsigned_ucast_eq unat_word_ariths take_bit_nat_eq_self)
  have bound: "c < 0x200000"
    using assms unfolding scalar_value_def by (elim disjE conjE) (simp_all add: word_less_nat_alt word_le_nat_alt)
  have "unat (ucast c :: u8) < 192" if "c < 0x80"
    using that by (simp add: word_less_nat_alt unsigned_ucast_eq take_bit_nat_eq_self)
  with assms show ?thesis
    using drop_bit_less [of c 6 5] drop_bit_less [of c 12 4] drop_bit_less [of c 18 3] bound
    by (simp add: utf8_encode_bytes utf8_length_scalar utf8_codepoint_len_eq mark mark3 mark4 word_less_nat_alt)
qed

section \<open>A character in UTF-16\<close>

text \<open>The character a pair of surrogates stands for, as \<open>utf16_to_utf8\<close> computes it.\<close>

abbreviation (input) of_surrogates :: "u16 \<Rightarrow> u16 \<Rightarrow> u32" where
  "of_surrogates hi lo \<equiv> (push_bit 10 (ucast hi - 0xD800) OR (ucast lo - 0xDC00)) + 0x10000"

abbreviation (input) high_surrogate :: "u16 \<Rightarrow> bool" where "high_surrogate c \<equiv> c AND 0xFC00 = 0xD800"
abbreviation (input) low_surrogate :: "u16 \<Rightarrow> bool" where "low_surrogate c \<equiv> c AND 0xFC00 = 0xDC00"

definition utf16_encode :: "u32 \<Rightarrow> u16 list" where
  "utf16_encode c = (if c \<le> 0xFFFF then [ucast c]
     else [ucast (drop_bit 10 (c - 0x10000) + 0xD800), ucast ((c - 0x10000 AND 0x3FF) + 0xDC00)])"

text \<open>The upper six bits tell a surrogate.\<close>

lemma unat_upper_bits: "unat ((c::u16) AND 0xFC00) = unat c div 1024 * 1024"
proof -
  have "c AND 0xFC00 = push_bit 10 (drop_bit 10 c)"
  proof (rule bit_word_eqI)
    fix n
    have "(0xFC00::u16) = push_bit 10 (mask 6)" by (simp add: mask_eq_exp_minus_1)
    then have "bit (0xFC00::u16) n \<longleftrightarrow> 10 \<le> n \<and> n < 16"
      by (simp only: bit_push_bit_iff bit_mask_iff) auto
    then show "bit (c AND 0xFC00) n = bit (push_bit 10 (drop_bit 10 c)) n"
      unfolding bit_and_iff bit_push_bit_iff bit_drop_bit_eq o_apply by (auto dest: bit_imp_le_length)
  qed
  moreover have "unat (push_bit 10 (drop_bit 10 c) :: u16) = unat c div 1024 * 1024"
  proof -
    have "unat (drop_bit 10 c) = unat c div 1024"
      unfolding unat_drop_bit_eq by (simp add: drop_bit_eq_div)
    then show ?thesis using unat_u16_less [of c] by (simp add: push_bit_eq_mult unat_word_ariths)
  qed
  ultimately show ?thesis by simp
qed

lemma surrogate_iff:
  "high_surrogate c \<longleftrightarrow> 0xD800 \<le> unat c \<and> unat c < 0xDC00"
  "low_surrogate c \<longleftrightarrow> 0xDC00 \<le> unat c \<and> unat c < 0xE000"
  unfolding word_unat_eq_iff unat_upper_bits by auto

lemma unat_push_bit_10: "unat (x :: u32) < 1024 \<Longrightarrow> unat (push_bit 10 x) = unat x * 1024"
  by (simp add: push_bit_eq_mult unat_word_ariths)

lemma of_surrogates_unat:
  assumes "high_surrogate hi" "low_surrogate lo"
  shows "unat (push_bit 10 (ucast hi - 0xD800) OR (ucast lo - 0xDC00) :: u32) = (unat hi - 0xD800) * 1024 + (unat lo - 0xDC00)"
    and "unat (of_surrogates hi lo) = (unat hi - 0xD800) * 1024 + (unat lo - 0xDC00) + 0x10000"
proof -
  have hi: "unat (ucast hi - 0xD800 :: u32) = unat hi - 0xD800" "unat hi - 0xD800 < 1024"
    using assms(1) unfolding surrogate_iff by (auto simp: unat_sub_if' unsigned_ucast_eq take_bit_nat_eq_self)
  have lo: "unat (ucast lo - 0xDC00 :: u32) = unat lo - 0xDC00" "unat lo - 0xDC00 < 1024"
    using assms(2) unfolding surrogate_iff by (auto simp: unat_sub_if' unsigned_ucast_eq take_bit_nat_eq_self)
  have "push_bit 10 (ucast hi - 0xD800) OR (ucast lo - 0xDC00 :: u32) = (ucast lo - 0xDC00) + push_bit 10 (ucast hi - 0xD800)"
    using or_mark [of "ucast lo - 0xDC00" 10 "ucast hi - 0xD800"] lo by (simp add: or.commute word_less_nat_alt)
  moreover have "unat (push_bit 10 (ucast hi - 0xD800 :: u32)) = (unat hi - 0xD800) * 1024"
    using hi unat_push_bit_10 [of "ucast hi - 0xD800"] by simp
  ultimately show *: "unat (push_bit 10 (ucast hi - 0xD800) OR (ucast lo - 0xDC00) :: u32) =
      (unat hi - 0xD800) * 1024 + (unat lo - 0xDC00)"
    using hi lo by (simp only: unat_word_ariths) simp
  show "unat (of_surrogates hi lo) = (unat hi - 0xD800) * 1024 + (unat lo - 0xDC00) + 0x10000"
    unfolding unat_word_ariths(1) * using hi lo by simp
qed

lemma unat_and_3FF: "unat ((x :: u32) AND 0x3FF) = unat x mod 1024"
proof -
  have "x AND 0x3FF = take_bit 10 x" by (simp only: take_bit_eq_mask mask_eq_exp_minus_1) simp
  moreover have "unat (take_bit 10 x) = unat x mod 2 ^ 10"
    unfolding unsigned_take_bit_eq by (simp only: take_bit_eq_mod)
  ultimately show ?thesis by simp
qed

lemma utf16_encode_of_surrogates:
  assumes "high_surrogate hi" "low_surrogate lo"
  shows "utf16_encode (of_surrogates hi lo) = [hi, lo]" and "scalar_value (of_surrogates hi lo)"
    and "\<not> of_surrogates hi lo \<le> 0xFFFF"
proof -
  let ?c = "of_surrogates hi lo"
  note bounds = assms [unfolded surrogate_iff]
  note of_unat = of_surrogates_unat(2) [OF assms]
  show "scalar_value ?c" and big: "\<not> ?c \<le> 0xFFFF"
    using bounds unfolding scalar_value_def word_le_nat_alt of_unat by auto
  have minus: "unat (?c - 0x10000) = (unat hi - 0xD800) * 1024 + (unat lo - 0xDC00)"
    unfolding add_diff_cancel_right' by (rule of_surrogates_unat(1) [OF assms])
  have halves: "(x * 1024 + (y - 0xDC00)) div 2 ^ 10 = x" "(x * 1024 + (y - 0xDC00)) mod 2 ^ 10 = y - 0xDC00"
    if "y < 0xE000" for x y :: nat
    using that by auto
  have "ucast (drop_bit 10 (?c - 0x10000) + 0xD800) = hi"
  proof -
    have "unat (drop_bit 10 (?c - 0x10000)) = unat hi - 0xD800"
      unfolding unat_drop_bit_eq minus unfolding drop_bit_eq_div using bounds by (intro halves) simp
    then show ?thesis
      using bounds by (simp add: word_unat_eq_iff unsigned_ucast_eq unat_word_ariths take_bit_nat_eq_self)
  qed
  moreover have "ucast ((?c - 0x10000 AND 0x3FF) + 0xDC00) = lo"
  proof -
    have "unat (?c - 0x10000 AND 0x3FF) = unat lo - 0xDC00"
      unfolding unat_and_3FF minus using bounds halves(2) [of "unat lo" "unat hi - 0xD800"] by (simp only:) simp
    then show ?thesis
      using bounds by (simp add: word_unat_eq_iff unsigned_ucast_eq unat_word_ariths take_bit_nat_eq_self)
  qed
  ultimately show "utf16_encode ?c = [hi, lo]"
    using big by (simp add: utf16_encode_def)
qed

lemma utf16_encode_cases:
  assumes "scalar_value c"
  obtains (one) w where "utf16_encode c = [w]" "ucast w = c" "\<not> high_surrogate w" "\<not> low_surrogate w" "c \<le> 0xFFFF"
  | (two) hi lo where "utf16_encode c = [hi, lo]" "high_surrogate hi" "low_surrogate lo" "of_surrogates hi lo = c"
      "\<not> c \<le> 0xFFFF"
proof (cases "c \<le> 0xFFFF")
  case True
  then have *: "unat (ucast c :: u16) = unat c" "unat c < 0xD800 \<or> 0xE000 \<le> unat c" "unat c \<le> 0xFFFF"
    using assms by (auto simp: scalar_value_def word_le_nat_alt word_less_nat_alt unsigned_ucast_eq take_bit_nat_eq_self)
  have "unat (ucast (ucast c :: u16) :: u32) = unat c"
    using * by (simp only: unsigned_ucast_eq [where 'b = 16]) (simp add: take_bit_nat_eq_self)
  then have "ucast (ucast c :: u16) = c" by (simp only: word_unat_eq_iff)
  moreover have "\<not> high_surrogate (ucast c)" "\<not> low_surrogate (ucast c)"
    unfolding surrogate_iff using * by auto
  ultimately show ?thesis
    using True by (intro one [of "ucast c"]) (simp_all add: utf16_encode_def)
next
  case False
  define x where "x = c - 0x10000"
  have c: "unat c = unat x + 0x10000" and x: "unat x < 0x100000"
    using assms False by (auto simp: x_def scalar_value_def word_le_nat_alt word_less_nat_alt unat_sub_if')
  let ?hi = "ucast (drop_bit 10 x + 0xD800) :: u16" and ?lo = "ucast ((x AND 0x3FF) + 0xDC00) :: u16"
  have hi: "unat ?hi = unat x div 1024 + 0xD800"
  proof -
    have "unat (drop_bit 10 x) = unat x div 1024"
      unfolding unat_drop_bit_eq by (simp add: drop_bit_eq_div)
    then show ?thesis using x by (simp add: unsigned_ucast_eq unat_word_ariths take_bit_nat_eq_self)
  qed
  have lo: "unat ?lo = unat x mod 1024 + 0xDC00"
    by (simp add: unsigned_ucast_eq unat_word_ariths unat_and_3FF take_bit_nat_eq_self)
  have sur: "high_surrogate ?hi" "low_surrogate ?lo"
    unfolding surrogate_iff hi lo using x by (auto simp: less_mult_imp_div_less)
  moreover have "of_surrogates ?hi ?lo = c"
  proof -
    have "unat (of_surrogates ?hi ?lo) = unat c"
      unfolding of_surrogates_unat(2) [OF sur] hi lo c by simp
    then show ?thesis by (simp only: word_unat_eq_iff)
  qed
  ultimately show ?thesis
    using False by (intro two [of ?hi ?lo]) (simp_all add: utf16_encode_def x_def)
qed

end
