(* ===== verification/Unicode_Strings.thy ===== *)
theory Unicode_Strings
  imports Unicode_Codec
begin

text \<open>
  What the conversions between UTF-16 and UTF-8 compute, over whole strings: the list of
  characters of a string and the encoding of a list of characters, and the proofs that the
  loops produce them inside the arrays they are given.
\<close>

section \<open>From UTF-16\<close>

fun utf16_chars :: "u16 list \<Rightarrow> u32 list" where
  "utf16_chars [] = []"
| "utf16_chars [c] = [ucast c]"
| "utf16_chars (c # d # s) =
     (if high_surrogate c \<and> low_surrogate d then of_surrogates c d # utf16_chars s
      else ucast c # utf16_chars (d # s))"

definition utf8_bytes :: "u32 list \<Rightarrow> u8 list" where
  "utf8_bytes cs = concat (map utf8_encode cs)"

lemma utf8_bytes_simps [simp]:
  "utf8_bytes [] = []" "utf8_bytes (c # cs) = utf8_encode c @ utf8_bytes cs"
  "utf8_bytes (cs @ ds) = utf8_bytes cs @ utf8_bytes ds"
  by (simp_all add: utf8_bytes_def)

lemma utf16_step:
  assumes "i < n" and "n \<le> length src"
  obtains c j p where "utf16_next src n i = Inr (c, j)" "i < j" "j \<le> n"
    "utf16_chars (drop i (take n src)) = c # utf16_chars (drop j (take n src))"
    "surrogate_pair src n i = Inr p" "j = (if p then i + 2 else i + 1)"
    "utf32_codepoint_utf8_length c = (if p then 4 else utf32_codepoint_utf8_length (ucast (src ! i)))"
proof -
  let ?s = "take n src"
  have first: "drop i ?s = src ! i # drop (i + 1) ?s"
    using assms by (simp add: Cons_nth_drop_Suc [symmetric])
  show ?thesis
  proof (cases "i + 1 < n")
    case True
    have second: "drop (i + 1) ?s = src ! (i + 1) # drop (i + 2) ?s"
      using assms True Cons_nth_drop_Suc [of "i + 1" ?s] by simp
    show ?thesis
    proof (cases "high_surrogate (src ! i) \<and> low_surrogate (src ! (i + 1))")
      case pair: True
      then have "scalar_value (of_surrogates (src ! i) (src ! (i + 1)))"
        "\<not> of_surrogates (src ! i) (src ! (i + 1)) \<le> 0xFFFF"
        using utf16_encode_of_surrogates by blast+
      then have "utf32_codepoint_utf8_length (of_surrogates (src ! i) (src ! (i + 1))) = 4"
        by (auto simp: utf8_length_scalar word_less_nat_alt word_le_nat_alt)
      then show ?thesis
        using assms True pair first second
        by (intro that [of "of_surrogates (src ! i) (src ! (i + 1))" "i + 2" True])
          (simp_all add: utf16_next_def surrogate_pair_def Let_def)
    next
      case False
      then have "surrogate_pair src n i = Inr False"
        using assms True by (auto simp: surrogate_pair_def)
      then show ?thesis
        using assms True False first second
        by (intro that [of "ucast (src ! i)" "i + 1" False]) (auto simp: utf16_next_def)
    qed
  next
    case False
    then have "surrogate_pair src n i = Inr False" "drop (i + 1) ?s = []"
      using assms by (auto simp: surrogate_pair_def)
    then show ?thesis
      using assms first by (intro that [of "ucast (src ! i)" "i + 1" False]) (auto simp: utf16_next_def)
  qed
qed

lemma utf16_to_utf8_loop_eq:
  assumes "n \<le> length src" "i \<le> n" "cur \<le> length dst"
    and bytes: "bytes = utf8_bytes (utf16_chars (drop i (take n src)))"
  shows "utf16_to_utf8_loop src n i dst cur =
    (if cur + length bytes < length dst
     then Inr (take cur dst @ bytes @ 0 # drop (cur + length bytes + 1) dst) else Inl OutOfBounds)"
  using assms
proof (induction src n i dst cur arbitrary: bytes rule: utf16_to_utf8_loop.induct)
  case (1 src n i dst cur)
  show ?case
  proof (cases "i < n")
    case False
    with 1(2-) have "bytes = []" by simp
    with False 1(4) show ?thesis
      by (subst utf16_to_utf8_loop.simps) (auto simp: arr_set_def upd_conv_take_nth_drop)
  next
    case True
    obtain c j p where step: "utf16_next src n i = Inr (c, j)" "i < j" "j \<le> n"
      "utf16_chars (drop i (take n src)) = c # utf16_chars (drop j (take n src))"
      using utf16_step [OF True 1(2)] by metis
    let ?len = "utf32_codepoint_utf8_length c" and ?rest = "utf8_bytes (utf16_chars (drop j (take n src)))"
    have bytes: "bytes = utf8_encode c @ ?rest" using 1(5) step(4) by simp
    show ?thesis
    proof (cases "cur + ?len \<le> length dst")
      case fits: True
      let ?dst = "take cur dst @ utf8_encode c @ drop (cur + ?len) dst"
      have stored: "mem_write dst cur (utf32_codepoint_to_utf8 c ?len) = Inr ?dst"
        using fits by (simp add: mem_write_def flip: utf8_encode_def)
      have "utf16_to_utf8_loop src n i dst cur = utf16_to_utf8_loop src n j ?dst (cur + ?len)"
        using True step stored by (subst utf16_to_utf8_loop.simps) (simp add: Let_def)
      also have "\<dots> = (if cur + ?len + length ?rest < length ?dst
          then Inr (take (cur + ?len) ?dst @ ?rest @ 0 # drop (cur + ?len + length ?rest + 1) ?dst) else Inl OutOfBounds)"
        using 1(1) [OF True step(1) refl refl 1(2) step(3) _ refl, of ?dst] fits by simp
      finally show ?thesis
        using fits by (auto simp: bytes ac_simps)
    next
      case False
      then have "mem_write dst cur (utf32_codepoint_to_utf8 c ?len) = Inl OutOfBounds"
        by (simp add: mem_write_def flip: utf8_encode_def)
      then have "utf16_to_utf8_loop src n i dst cur = Inl OutOfBounds"
        using True step by (subst utf16_to_utf8_loop.simps) (simp add: Let_def)
      with False show ?thesis by (simp add: bytes)
    qed
  qed
qed

lemma utf16_to_utf8_length_loop_eq:
  assumes "n \<le> length src" "i \<le> n" "ret \<le> SSIZE_MAX"
    and bytes: "bytes = utf8_bytes (utf16_chars (drop i (take n src)))"
  shows "utf16_to_utf8_length_loop src n i ret =
    Inr (if ret + length bytes \<le> SSIZE_MAX then int (ret + length bytes) else - 1)"
  using assms
proof (induction src n i ret arbitrary: bytes rule: utf16_to_utf8_length_loop.induct)
  case (1 src n i ret)
  show ?case
  proof (cases "i < n")
    case False
    with 1(2-) show ?thesis by (subst utf16_to_utf8_length_loop.simps) simp
  next
    case True
    obtain c j p where step: "i < j" "j \<le> n"
      "utf16_chars (drop i (take n src)) = c # utf16_chars (drop j (take n src))"
      "surrogate_pair src n i = Inr p" "j = (if p then i + 2 else i + 1)"
      "utf32_codepoint_utf8_length c = (if p then 4 else utf32_codepoint_utf8_length (ucast (src ! i)))"
      using utf16_step [OF True 1(2)] by metis
    let ?len = "utf32_codepoint_utf8_length c" and ?rest = "utf8_bytes (utf16_chars (drop j (take n src)))"
    have bytes: "bytes = utf8_encode c @ ?rest" using 1(5) step(3) by simp
    have len: "(if p then Inr 4 else bindE (arr_get src i) (\<lambda>c. Inr (utf32_codepoint_utf8_length (ucast c)))) = Inr ?len"
      using step(6) True 1(2) by simp
    show ?thesis
    proof (cases "SSIZE_MAX - ?len < ret")
      case big: True
      then show ?thesis
        using True step len by (subst utf16_to_utf8_length_loop.simps) (simp add: bytes)
    next
      case False
      have "utf16_to_utf8_length_loop src n i ret = utf16_to_utf8_length_loop src n j (ret + ?len)"
        using True step len False by (subst utf16_to_utf8_length_loop.simps) simp
      also have "\<dots> = Inr (if ret + ?len + length ?rest \<le> SSIZE_MAX then int (ret + ?len + length ?rest) else - 1)"
        using 1(1) [OF True step(4) False 1(2) _ _ refl] step(2,5) False utf8_length_le_4 [of c] by simp
      finally show ?thesis by (simp add: bytes add.assoc)
    qed
  qed
qed

lemma ucast_16_32: "(ucast (ucast (c :: u16) :: u32) :: u16) = c" "(ucast c :: u32) \<le> 0xFFFF"
proof -
  have "unat (ucast c :: u32) = unat c"
    using unat_u16_less [of c] by (simp add: unsigned_ucast_eq take_bit_nat_eq_self)
  then show "(ucast c :: u32) \<le> 0xFFFF" using unat_u16_less [of c] by (simp add: word_le_nat_alt)
  show "(ucast (ucast c :: u32) :: u16) = c" by (rule bit_word_eqI) (auto simp: bit_simps)
qed

section \<open>From UTF-8\<close>

lemma utf8_codepoint_len_bounds: "0 < utf8_codepoint_len b" "utf8_codepoint_len b \<le> 4"
  by (simp_all add: utf8_codepoint_len_eq)

text \<open>
  The characters of a byte string as the code takes it apart: the first byte of each gives
  their number; \<open>None\<close> if the last character is cut off.
\<close>

function utf8_chars :: "u8 list \<Rightarrow> u32 list option" where
  "utf8_chars s =
     (if s = [] then Some []
      else
        let n = utf8_codepoint_len (hd s) in
        if length s < n then None
        else case utf8_to_utf32_codepoint s 0 n of
          Inl e \<Rightarrow> None
        | Inr c \<Rightarrow> map_option ((#) c) (utf8_chars (drop n s)))"
  by pat_completeness auto
termination
  by (relation "measure length") (simp_all add: utf8_codepoint_len_bounds)

declare utf8_chars.simps [simp del]

definition utf16_units :: "u32 list \<Rightarrow> u16 list" where
  "utf16_units cs = concat (map utf16_encode cs)"

lemma utf16_units_simps [simp]:
  "utf16_units [] = []" "utf16_units (c # cs) = utf16_encode c @ utf16_units cs"
  by (simp_all add: utf16_units_def)

lemma utf8_codepoint_inside:
  assumes "i + n \<le> e" "e \<le> length s" "0 < n" "n \<le> 4"
  obtains c where "utf8_to_utf32_codepoint s i n = Inr c" "utf8_to_utf32_codepoint (drop i (take e s)) 0 n = Inr c"
proof -
  have get: "arr_get s (i + k) = Inr (s ! (i + k))" "arr_get (drop i (take e s)) k = Inr (s ! (i + k))" if "k < n" for k
    using that assms by simp_all
  consider "n = 1" | "n = 2" | "n = 3" | "n = 4" using assms by linarith
  then show ?thesis
    using get [of 0] get [of 1] get [of 2] get [of 3] assms
    by cases (rule that; simp add: utf8_to_utf32_codepoint_def)+
qed

lemma utf8_step:
  assumes "i < e" "e \<le> length s"
  defines "n \<equiv> utf8_codepoint_len (s ! i)"
  shows "\<not> i + n \<le> e \<Longrightarrow> utf8_chars (drop i (take e s)) = None"
    and "i + n \<le> e \<Longrightarrow> \<exists>c. utf8_to_utf32_codepoint s i n = Inr c \<and>
      utf8_chars (drop i (take e s)) = map_option ((#) c) (utf8_chars (drop (i + n) (take e s)))"
proof -
  have first: "drop i (take e s) \<noteq> []" "hd (drop i (take e s)) = s ! i"
    using assms by (simp_all add: hd_drop_conv_nth)
  show "\<not> i + n \<le> e \<Longrightarrow> utf8_chars (drop i (take e s)) = None"
    using assms first by (subst utf8_chars.simps) (auto simp: Let_def)
  assume inside: "i + n \<le> e"
  obtain c where "utf8_to_utf32_codepoint s i n = Inr c" "utf8_to_utf32_codepoint (drop i (take e s)) 0 n = Inr c"
    using utf8_codepoint_inside [OF inside assms(2)] utf8_codepoint_len_bounds n_def by metis
  moreover from this have "utf8_chars (drop i (take e s)) = map_option ((#) c) (utf8_chars (drop (i + n) (take e s)))"
    using assms first inside by (subst utf8_chars.simps) (auto simp: Let_def drop_take add.commute)
  ultimately show "\<exists>c. utf8_to_utf32_codepoint s i n = Inr c \<and>
      utf8_chars (drop i (take e s)) = map_option ((#) c) (utf8_chars (drop (i + n) (take e s)))" by blast
qed

lemma length_utf16_encode: "length (utf16_encode c) = 1 + (if c > 0xFFFF then 1 else 0)"
  by (auto simp: utf16_encode_def)

text \<open>Measuring: the number of units, or \<open>-1\<close>; nothing is read behind the end.\<close>

lemma utf8_to_utf16_length_loop_eq:
  assumes "e \<le> length s" "i \<le> e"
  shows "utf8_to_utf16_length_loop False s e i measured =
    Inr (case utf8_chars (drop i (take e s)) of None \<Rightarrow> - 1 | Some cs \<Rightarrow> int (measured + length (utf16_units cs)))"
  using assms
proof (induction False s e i measured rule: utf8_to_utf16_length_loop.induct)
  case (1 s e i measured)
  show ?case
  proof (cases "i < e")
    case False
    with 1(3) have "i = e" by simp
    then show ?thesis by (subst utf8_to_utf16_length_loop.simps) (simp add: utf8_chars.simps)
  next
    case True
    let ?n = "utf8_codepoint_len (s ! i)"
    have get: "arr_get s i = Inr (s ! i)" using True 1(2) by simp
    show ?thesis
    proof (cases "i + ?n \<le> e")
      case False
      then have "e \<le> i + ?n - 1" by linarith
      then show ?thesis
        using True get utf8_step(1) [OF True 1(2) False]
        by (subst utf8_to_utf16_length_loop.simps) (simp add: Let_def)
    next
      case inside: True
      obtain c where c: "utf8_to_utf32_codepoint s i ?n = Inr c"
        "utf8_chars (drop i (take e s)) = map_option ((#) c) (utf8_chars (drop (i + ?n) (take e s)))"
        using utf8_step(2) [OF True 1(2) inside] by blast
      have "\<not> (e \<le> i + ?n - 1 \<and> \<not> False)"
        using inside utf8_codepoint_len_bounds(1) [of "s ! i"] by simp
      then have "utf8_to_utf16_length_loop False s e i measured =
          utf8_to_utf16_length_loop False s e (i + ?n) (measured + 1 + (if c > 0xFFFF then 1 else 0))"
        using True get c by (subst utf8_to_utf16_length_loop.simps) (simp add: Let_def)
      also have "\<dots> = Inr (case utf8_chars (drop (i + ?n) (take e s)) of None \<Rightarrow> - 1
          | Some cs \<Rightarrow> int (measured + 1 + (if c > 0xFFFF then 1 else 0) + length (utf16_units cs)))"
        using 1(1) [OF True refl] inside 1(2) by (metis \<open>\<not> (e \<le> i + ?n - 1 \<and> \<not> False)\<close>)
      finally show ?thesis
        by (simp add: c length_utf16_encode split: option.split)
    qed
  qed
qed

text \<open>Converting: into room for the units and no more.\<close>

lemma utf8_to_utf16_loop_eq:
  assumes "e \<le> length s" "i \<le> e" "utf8_chars (drop i (take e s)) = Some cs"
    and "k + length (utf16_units cs) \<le> fin" "k + length (utf16_units cs) \<le> length dst"
  shows "utf8_to_utf16_loop s e i dst fin k =
    Inr (take k dst @ utf16_units cs @ drop (k + length (utf16_units cs)) dst, k + length (utf16_units cs))"
  using assms
proof (induction s e i dst fin k arbitrary: cs rule: utf8_to_utf16_loop.induct)
  case (1 s e i dst fin k)
  show ?case
  proof (cases "i < e")
    case False
    with 1(4,5) have "cs = []" by (simp add: utf8_chars.simps)
    with False show ?thesis by (subst utf8_to_utf16_loop.simps) simp
  next
    case True
    let ?n = "utf8_codepoint_len (s ! i)"
    have get: "arr_get s i = Inr (s ! i)" using True 1(3) by simp
    have inside: "i + ?n \<le> e" using utf8_step(1) [OF True 1(3)] 1(5) by fastforce
    then obtain c where c: "utf8_to_utf32_codepoint s i ?n = Inr c"
      and "map_option ((#) c) (utf8_chars (drop (i + ?n) (take e s))) = Some cs"
      using utf8_step(2) [OF True 1(3)] 1(5) by metis
    then obtain ds where cs: "cs = c # ds" "utf8_chars (drop (i + ?n) (take e s)) = Some ds" by auto
    have k: "k < fin" "k < length dst" using 1(6,7) cs length_utf16_encode [of c] by auto
    show ?thesis
    proof (cases "c \<le> 0xFFFF")
      case small: True
      let ?dst = "dst[k := ucast c]"
      have "utf8_to_utf16_loop s e i dst fin k = utf8_to_utf16_loop s e (i + ?n) ?dst fin (Suc k)"
        using True get c small k by (subst utf8_to_utf16_loop.simps) (simp add: Let_def)
      also have "\<dots> = Inr (take (Suc k) ?dst @ utf16_units ds @ drop (Suc k + length (utf16_units ds)) ?dst,
          Suc k + length (utf16_units ds))"
        using 1(1) [OF _ refl small, of "s ! i" ds ?dst] True k inside 1(3,6,7) cs small
        by (simp add: utf16_encode_def)
      finally show ?thesis
        using k cs small by (simp add: utf16_encode_def take_Suc_conv_app_nth)
    next
      case large: False
      let ?hi = "ucast (drop_bit 10 (c - 0x10000) + 0xD800) :: u16"
      let ?lo = "ucast ((c - 0x10000 AND 0x3FF) + 0xDC00) :: u16"
      let ?dst = "dst[k := ?hi, Suc k := ?lo]"
      have room: "Suc k < fin" "Suc k < length dst" using 1(6,7) cs large by (auto simp: utf16_encode_def)
      then have "utf8_to_utf16_loop s e i dst fin k = utf8_to_utf16_loop s e (i + ?n) ?dst fin (Suc (Suc k))"
        using True get c large k by (subst utf8_to_utf16_loop.simps) (simp add: Let_def)
      also have "\<dots> = Inr (take (Suc (Suc k)) ?dst @ utf16_units ds @ drop (Suc (Suc k) + length (utf16_units ds)) ?dst,
          Suc (Suc k) + length (utf16_units ds))"
        using 1(2) [OF _ refl large refl, of "s ! i" ds ?dst] True k room inside 1(3,6,7) cs large
        by (simp add: utf16_encode_def)
      finally show ?thesis
        using k room cs large by (simp add: utf16_encode_def take_Suc_conv_app_nth)
    qed
  qed
qed

section \<open>Both ways\<close>

lemma utf8_chars_bytes: "list_all scalar_value cs \<Longrightarrow> utf8_chars (utf8_bytes cs) = Some cs"
proof (induction cs)
  case Nil
  show ?case by (simp add: utf8_chars.simps)
next
  case (Cons c cs)
  have "0 < utf32_codepoint_utf8_length c"
    using Cons(2) by (simp add: utf8_length_scalar)
  then have "utf8_encode c \<noteq> []" by (metis length_0_conv length_utf8_encode less_irrefl)
  then have "hd (utf8_encode c @ utf8_bytes cs) = hd (utf8_encode c)" "utf8_encode c @ utf8_bytes cs \<noteq> []" by simp_all
  then show ?case
    using Cons utf8_encode_head [of c] utf8_decode_encode [of c "[]" "utf8_bytes cs"]
    by (subst utf8_chars.simps) (simp add: Let_def)
qed

lemma utf16_units_chars: "utf16_units (utf16_chars s) = s"
proof (induction s rule: utf16_chars.induct)
  case (2 c)
  then show ?case by (simp add: utf16_encode_def ucast_16_32)
next
  case (3 c d s)
  then show ?case using utf16_encode_of_surrogates(1) [of c d]
    by (auto simp: utf16_encode_def ucast_16_32)
qed simp

lemma utf16_chars_units: "list_all scalar_value cs \<Longrightarrow> utf16_chars (utf16_units cs) = cs"
proof (induction cs)
  case (Cons c cs)
  then have c: "scalar_value c" by simp
  then show ?case
  proof (cases rule: utf16_encode_cases)
    case (one w)
    then show ?thesis using Cons by (cases "utf16_units cs") auto
  next
    case (two hi lo)
    then show ?thesis using Cons by simp
  qed
qed simp

end
