(* ===== verification/Strings_Props.thy ===== *)
theory Strings_Props
  imports Strings Unicode_Strings
begin

text \<open>
  Properties of the string functions and of the string classes: conversions stay inside the
  arrays measured for them and invert each other, comparison and search, and what
  the reference count of the shared empty string does.
\<close>

section \<open>The conversions as calls\<close>

lemma utf8_to_utf16_length_eq:
  "n \<le> length s \<Longrightarrow> utf8_to_utf16_length s n False =
     Inr (case utf8_chars (take n s) of None \<Rightarrow> - 1 | Some cs \<Rightarrow> int (length (utf16_units cs)))"
  using utf8_to_utf16_length_loop_eq [of n s 0 0] by (simp add: utf8_to_utf16_length_def cong: option.case_cong)

lemma utf8_to_utf16_eq:
  assumes "n \<le> length s" and "utf8_chars (take n s) = Some cs" and m: "m = length (utf16_units cs)"
    and "m < 2 ^ 64" and "m < length dst"
  shows "utf8_to_utf16 s n dst (of_nat m + 1) = Inr (utf16_units cs @ 0 # drop (m + 1) dst, m)"
proof -
  have conv: "utf8_to_utf16_no_null_terminator s n dst (of_nat m) = Inr (utf16_units cs @ drop m dst, m)"
  proof (cases "m = 0")
    case True
    then show ?thesis using m by (simp add: utf8_to_utf16_no_null_terminator_def)
  next
    case False
    have "unat (of_nat m :: u64) = m" using assms(4) by (simp add: unat_of_nat take_bit_nat_eq_self)
    moreover from this False have "(of_nat m :: u64) \<noteq> 0" by (metis unat_0)
    ultimately show ?thesis
      using utf8_to_utf16_loop_eq [of n s 0 cs 0 m dst] assms by (simp add: utf8_to_utf16_no_null_terminator_def)
  qed
  have "length (utf16_units cs @ drop m dst) = length dst" "m < length dst" using assms by simp_all
  then show ?thesis
    using assms(5) unfolding utf8_to_utf16_def
    by (simp add: conv [unfolded m] m list_update_append Cons_nth_drop_Suc [symmetric])
qed

lemma utf16_to_utf8_length_eq:
  assumes "n \<le> length s" "0 < n" "length (utf8_bytes (utf16_chars (take n s))) \<le> SSIZE_MAX"
  shows "utf16_to_utf8_length (Some s) n = Inr (int (length (utf8_bytes (utf16_chars (take n s)))))"
  using utf16_to_utf8_length_loop_eq [of n s 0 0] assms by (simp add: utf16_to_utf8_length_def)

lemma utf16_to_utf8_eq:
  assumes "n \<le> length s" "0 < n" "length (utf8_bytes (utf16_chars (take n s))) < length dst"
  shows "utf16_to_utf8 (Some s) n (Some dst) = Inr (Some (utf8_bytes (utf16_chars (take n s)) @ 0 #
    drop (length (utf8_bytes (utf16_chars (take n s))) + 1) dst))"
  using utf16_to_utf8_loop_eq [of n s 0 0 dst] assms by (simp add: utf16_to_utf8_def)

section \<open>String objects\<close>

definition string8_holds :: "strings \<Rightarrow> nat option \<Rightarrow> u8 list \<Rightarrow> bool" where
  "string8_holds st mString s \<longleftrightarrow> (\<exists>b sb. mString = Some b \<and> hp_bufs (st_bytes st) b = Some sb \<and>
     sb_data sb = s @ [0] \<and> unat (mSize sb) = length s + 1)"

definition string16_holds :: "strings \<Rightarrow> string16 \<Rightarrow> u16 list \<Rightarrow> bool" where
  "string16_holds st x s \<longleftrightarrow> String16_string x st = Inr (s @ [0]) \<and> String16_size x st = Inr (of_nat (length s)) \<and>
     length s < 2 ^ 62"

lemma string8_length_holds: "string8_holds st x s \<Longrightarrow> String8_length x st = Inr (of_nat (length s))"
proof -
  assume "string8_holds st x s"
  then obtain b sb where *: "x = Some b" "hp_bufs (st_bytes st) b = Some sb" "unat (mSize sb) = length s + 1"
    by (auto simp: string8_holds_def)
  moreover have "mSize sb = of_nat (unat (mSize sb))" by simp
  ultimately have "mSize sb = of_nat (length s + 1)" by simp
  with * show ?thesis by (simp add: String8_length_def sizeFromData_def sb_get_def)
qed

lemma c_strlen_eq: "0 \<notin> set s \<Longrightarrow> c_strlen (s @ 0 # rest) = Inr (length s)"
  by (induction s) auto

lemma length_units_bytes: "list_all scalar_value cs \<Longrightarrow> length (utf16_units cs) \<le> length (utf8_bytes cs)"
proof (induction cs)
  case (Cons c cs)
  then have "length (utf16_encode c) \<le> length (utf8_encode c)"
    using utf8_length_scalar [of c] by (auto simp: length_utf16_encode word_less_nat_alt word_le_nat_alt)
  with Cons show ?case by simp
qed simp

text \<open>Constructing a \<open>String16\<close> from valid UTF-8.\<close>

lemma string16_chars_holds:
  assumes cs: "list_all scalar_value cs" and s: "s = utf8_bytes cs" "0 \<notin> set s" and "length s < 2 ^ 61"
    and malloc: "s = [] \<or> True \<in> set (take 1 (hp_malloc (st_units st)))"
  obtains x st' where "String16_chars (s @ 0 # rest) st = Inr (x, st')" "string16_holds st' x (utf16_units cs)"
    "st_bytes st' = st_bytes st" "gEmptyStringBuf st' = gEmptyStringBuf st"
proof -
  let ?arr = "s @ 0 # rest" and ?m = "length (utf16_units cs)"
  have chars: "utf8_chars (take (length s) ?arr) = Some cs"
    using utf8_chars_bytes [OF cs] s by simp
  have strlen: "c_strlen ?arr = Inr (length s)" using c_strlen_eq s by simp
  have m: "?m < 2 ^ 61" using length_units_bytes [OF cs] s assms(4) by simp
  show ?thesis
  proof (cases "s = []")
    case True
    then have "cs = []"
      using cs s utf8_chars_bytes [OF cs] by (simp add: utf8_chars.simps)
    with True strlen show ?thesis
      by (intro that [of emptyString st])
        (auto simp: String16_chars_def String16_allocFromUTF8_def emptyString_def string16_holds_def String16_string_def
          String16_size_def isStaticString_def staticStringSize_def)
  next
    case False
    then obtain oks where mem: "hp_malloc (st_units st) = True # oks" using malloc by (cases "hp_malloc (st_units st)") auto
    define sz where "sz = (2 * (of_nat ?m + 1) :: u64)"
    have sz_eq: "2 * of_nat ?m + 2 = sz" by (simp add: sz_def)
    have size: "unat sz = 2 * (?m + 1)"
    proof -
      have "sz = of_nat (2 * (?m + 1))" by (simp add: sz_def)
      then show ?thesis using m by (simp only:) (subst unat_of_nat_64; simp)
    qed
    have "size_fits sz" using m by (simp only: size) simp
    then show ?thesis
    proof (cases rule: alloc_cases [where hp = "st_units st" and unit = 2 and junk = 0])
      case (none hp')
      then show ?thesis using mem by simp
    next
      case (some hp')
      let ?b = "hp_next (st_units st)"
      let ?sb = "\<lparr>mRefs = 1, mSize = sz, mClientMetadata = kIsSharedBufferAllocated, sb_data = replicate (?m + 1) 0\<rparr>"
      have len: "unat sz div 2 = ?m + 1" by (simp only: size) simp
      have alloc: "String16_alloc sz st = Inr (?b, st\<lparr>st_units := sb_put ?b ?sb hp'\<rparr>)"
        using some by (simp add: String16_alloc_def sb_get_def len del: One_nat_def)
      have conv: "utf8_to_utf16 ?arr (length s) (replicate (?m + 1) 0) (of_nat ?m + 1) = Inr (utf16_units cs @ [0], ?m)"
        using utf8_to_utf16_eq [OF _ chars refl, of "replicate (?m + 1) 0"] m by simp
      let ?st = "st\<lparr>st_units := sb_put ?b (?sb\<lparr>sb_data := utf16_units cs @ [0]\<rparr>) (sb_put ?b ?sb hp')\<rparr>"
      have "String16_chars ?arr st = Inr (Shared16 ?b, ?st)"
        using False strlen alloc conv chars utf8_to_utf16_length_eq [of "length s" ?arr]
        by (simp add: sz_eq String16_chars_def String16_allocFromUTF8_def sb_get_def del: replicate.simps replicate_Suc)
      moreover have "string16_holds ?st (Shared16 ?b) (utf16_units cs)"
      proof -
        have "unat (sz div 2) = unat (of_nat (?m + 1) :: u64)"
          using m by (subst unat_of_nat_64) (simp_all add: unat_div size)
        then have "sz div 2 = of_nat (?m + 1)" by (simp only: word_unat_eq_iff)
        then have "sz div 2 - 1 = of_nat ?m" by simp
        then show ?thesis using m
          by (simp add: string16_holds_def String16_string_def String16_size_def isStaticString_def sb_get_def sizeFromData_def)
      qed
      ultimately show ?thesis by (rule that) simp_all
    qed
  qed
qed

text \<open>Without memory for it the constructor writes through the null pointer.\<close>

lemma string16_chars_no_memory:
  assumes cs: "list_all scalar_value cs" and s: "s = utf8_bytes cs" "0 \<notin> set s" "s \<noteq> []" and "length s < 2 ^ 61"
    and malloc: "True \<notin> set (take 1 (hp_malloc (st_units st)))"
  shows "String16_chars (s @ 0 # rest) st = Inl NullDeref"
proof -
  have "utf8_to_utf16_length (s @ 0 # rest) (length s) False = Inr (int (length (utf16_units cs)))"
    using utf8_to_utf16_length_eq [of "length s" "s @ 0 # rest"] utf8_chars_bytes [OF cs] s(1) by simp
  moreover have "SharedBuffer_alloc 2 0 n (st_units st) = Inr (None, snd (sb_malloc (st_units st)))" for n
    using malloc by (auto simp: SharedBuffer_alloc_def sb_malloc_def split: list.splits bool.splits)
  ultimately show ?thesis
    using c_strlen_eq [OF s(2)] s(3) by (simp add: String16_chars_def String16_allocFromUTF8_def String16_alloc_def)
qed

text \<open>The shared empty string is made at its first use.\<close>

definition empty_string_kept :: "strings \<Rightarrow> bool" where
  "empty_string_kept st \<longleftrightarrow> (\<forall>b. gEmptyStringBuf st = Some b \<longrightarrow> string8_holds st (Some b) [])"

lemma getEmptyString_holds:
  assumes "empty_string_kept st"
  shows "case getEmptyString st of
      Inl e \<Rightarrow> e = NullDeref \<and> gEmptyStringBuf st = None \<and> True \<notin> set (take 1 (hp_malloc (st_bytes st)))
    | Inr (b, st') \<Rightarrow> string8_holds st' (Some b) []"
proof (cases "gEmptyStringBuf st")
  case None
  have "size_fits 1" by simp
  then show ?thesis
  proof (cases rule: alloc_cases [where hp = "st_bytes st" and unit = 1 and junk = 0])
    case (none hp')
    moreover have "True \<notin> set (take 1 (hp_malloc (st_bytes st)))" using none(4) by (cases "hp_malloc (st_bytes st)") auto
    ultimately show ?thesis using None by (simp add: getEmptyString_def)
  next
    case (some hp')
    then show ?thesis using None by (simp add: getEmptyString_def sb_store_def sb_get_def string8_holds_def)
  qed
next
  case (Some b)
  with assms show ?thesis by (simp add: getEmptyString_def empty_string_kept_def)
qed

text \<open>Constructing a \<open>String8\<close> from a \<open>String16\<close>.\<close>

lemma string8_from_string16_holds:
  assumes x: "string16_holds st x u" and u: "u \<noteq> []"
    and bytes: "bytes = utf8_bytes (utf16_chars u)" "length bytes < 2 ^ 62"
    and malloc: "hp_malloc (st_bytes st) = True # oks"
  obtains y st' where "String8_from_String16 x st = Inr (y, st')" "string8_holds st' y bytes"
proof -
  let ?n = "length u" and ?b = "hp_next (st_bytes st)"
  have str: "String16_string x st = Inr (u @ [0])" "String16_size x st = Inr (of_nat ?n)" and n: "?n < 2 ^ 62"
    using x by (simp_all add: string16_holds_def)
  have unat_n: "unat (of_nat ?n :: u64) = ?n" using n by (intro unat_of_nat_64) simp
  then have n0: "(of_nat ?n :: u64) \<noteq> 0" using u by (metis length_0_conv unat_0)
  have len: "utf16_to_utf8_length (Some (u @ [0])) ?n = Inr (int (length bytes))"
    using utf16_to_utf8_length_eq [of ?n "u @ [0]"] u bytes by simp
  define sz where "sz = (of_nat (length bytes + 1) :: u64)"
  have sz: "word_of_int (int (length bytes) + 1) = sz" "unat sz = length bytes + 1"
    using bytes(2) by (simp add: sz_def) (simp only: sz_def, rule unat_of_nat_64, use bytes(2) in simp)
  have "size_fits sz" using sz bytes(2) by simp
  then show ?thesis
  proof (cases rule: alloc_cases [where hp = "st_bytes st" and unit = 1 and junk = 0])
    case (none hp')
    then show ?thesis using malloc by simp
  next
    case (some hp')
    let ?sb = "\<lparr>mRefs = 1, mSize = sz, mClientMetadata = 0, sb_data = replicate (length bytes + 1) 0\<rparr>"
    have get: "sb_get hp' ?b = Inr ?sb"
      using some sz by (simp add: sb_get_def)
    have conv: "utf16_to_utf8 (Some (u @ [0])) ?n (Some (replicate (length bytes + 1) 0)) = Inr (Some (bytes @ [0]))"
      using utf16_to_utf8_eq [of ?n "u @ [0]" "replicate (length bytes + 1) 0"] u bytes by simp
    let ?st = "st\<lparr>st_bytes := sb_put ?b (?sb\<lparr>sb_data := bytes @ [0]\<rparr>) hp'\<rparr>"
    have "String8_from_String16 x st = Inr (Some ?b, ?st)"
      using str unat_n n0 len sz some(1) get conv
      by (simp add: String8_from_String16_def String8_allocFromUTF16_def Let_def del: replicate.simps replicate_Suc)
    moreover have "string8_holds ?st (Some ?b) bytes"
      using sz by (simp add: string8_holds_def)
    ultimately show ?thesis by (rule that)
  qed
qed

text \<open>An empty string, and a string there is no memory for, give the shared empty string.\<close>

lemma string8_from_string16_empty:
  assumes x: "string16_holds st x []"
  shows "String8_from_String16 x st = bindE (getEmptyString st) (\<lambda>(b, st). Inr (Some b, st))"
  using x by (simp add: string16_holds_def String8_from_String16_def String8_allocFromUTF16_def)

lemma string8_from_string16_no_memory:
  assumes x: "string16_holds st x u" and u: "u \<noteq> []" "length (utf8_bytes (utf16_chars u)) < 2 ^ 62"
    and malloc: "True \<notin> set (take 1 (hp_malloc (st_bytes st)))"
  shows "String8_from_String16 x st =
    bindE (getEmptyString (st\<lparr>st_bytes := snd (sb_malloc (st_bytes st))\<rparr>)) (\<lambda>(b, st). Inr (Some b, st))"
proof -
  have "unat (of_nat (length u) :: u64) = length u" using x by (intro unat_of_nat_64) (simp add: string16_holds_def)
  moreover from this have "(of_nat (length u) :: u64) \<noteq> 0" using u by (metis length_0_conv unat_0)
  moreover have "utf16_to_utf8_length (Some (u @ [0])) (length u) = Inr (int (length (utf8_bytes (utf16_chars u))))"
    using utf16_to_utf8_length_eq [of "length u" "u @ [0]"] u by simp
  moreover have "SharedBuffer_alloc 1 0 n (st_bytes st) = Inr (None, snd (sb_malloc (st_bytes st)))" for n
    using malloc by (auto simp: SharedBuffer_alloc_def sb_malloc_def split: list.splits bool.splits)
  ultimately show ?thesis
    using x by (simp add: String8_from_String16_def String8_allocFromUTF16_def string16_holds_def)
qed

section \<open>Properties of the conversions\<close>

lemma length_utf8_bytes: "length (utf8_bytes cs) \<le> 4 * length cs"
proof (induction cs)
  case (Cons c cs)
  then show ?case using utf8_length_le_4 [of c] by simp
qed simp

lemma length_utf16_chars: "length (utf16_chars u) \<le> length u"
  by (induction u rule: utf16_chars.induct) auto

text \<open>Whatever bytes it is given, a conversion to UTF-16 into an array of the measured size stays
  inside the arrays: measuring returns a size or \<open>-1\<close> without reading behind the end, and
  after a size \<open>m\<close> the conversion writes exactly \<open>m\<close> units and the terminator, leaves the rest of the
  destination alone and returns the place of the terminator.\<close>

theorem utf8_to_utf16_fits:
  assumes "n \<le> length s" and "nat m < length dst" and "length dst < 2 ^ 64"
  shows "(\<exists>m. utf8_to_utf16_length s n False = Inr m \<and> - 1 \<le> m) \<and>
    (utf8_to_utf16_length s n False = Inr m \<and> 0 \<le> m \<longrightarrow>
      (\<exists>units. length units = nat m \<and>
        utf8_to_utf16 s n dst (word_of_int m + 1) = Inr (units @ 0 # drop (nat m + 1) dst, nat m)))"
proof (intro conjI impI)
  note measured = utf8_to_utf16_length_eq [OF assms(1)]
  show "\<exists>m. utf8_to_utf16_length s n False = Inr m \<and> - 1 \<le> m"
    unfolding measured by (auto split: option.split)
  assume m: "utf8_to_utf16_length s n False = Inr m \<and> 0 \<le> m"
  then obtain cs where cs: "utf8_chars (take n s) = Some cs" "m = int (length (utf16_units cs))"
    unfolding measured by (auto split: option.splits)
  then have "utf8_to_utf16 s n dst (of_nat (nat m) + 1) = Inr (utf16_units cs @ 0 # drop (nat m + 1) dst, nat m)"
    using assms by (intro utf8_to_utf16_eq) auto
  then show "\<exists>units. length units = nat m \<and>
      utf8_to_utf16 s n dst (word_of_int m + 1) = Inr (units @ 0 # drop (nat m + 1) dst, nat m)"
    using cs(2) by (intro exI [of _ "utf16_units cs"]) simp
qed

theorem utf8_to_utf16_fits_witness:
  "\<exists>units. length units = 2 \<and> utf8_to_utf16 [0xF0, 0x9F, 0x98, 0x80, 0x41] 4 [7, 7, 7, 7] 3 = Inr (units @ [0, 7], 2)"
proof -
  have "utf8_to_utf16_length [0xF0, 0x9F, 0x98, 0x80, 0x41] 4 False = Inr 2"
    by code_simp
  then show ?thesis
    using utf8_to_utf16_fits [of 4 "[0xF0, 0x9F, 0x98, 0x80, 0x41]" 2 "[7, 7, 7, 7]"] by simp
qed

text \<open>UTF-16 survives the way through UTF-8: for a string without unpaired surrogates, measuring,
  converting, measuring back and converting back succeed with arrays of the measured
  sizes and give the string with its terminator.\<close>

theorem utf16_utf8_roundtrip:
  assumes valid: "list_all scalar_value (utf16_chars u)" and u: "u \<noteq> []" "length u < 2 ^ 60"
  shows "\<exists>bs. utf16_to_utf8_length (Some u) (length u) = Inr (int (length bs)) \<and>
    utf16_to_utf8 (Some u) (length u) (Some (replicate (length bs + 1) 0)) = Inr (Some (bs @ [0])) \<and>
    utf8_to_utf16_length (bs @ [0]) (length bs) False = Inr (int (length u)) \<and>
    utf8_to_utf16 (bs @ [0]) (length bs) (replicate (length u + 1) 0) (of_nat (length u) + 1) =
      Inr (u @ [0], length u)"
proof -
  let ?bs = "utf8_bytes (utf16_chars u)"
  have chars: "utf8_chars ?bs = Some (utf16_chars u)" by (rule utf8_chars_bytes [OF valid])
  have len: "length ?bs \<le> 4 * length u"
    using length_utf8_bytes [of "utf16_chars u"] length_utf16_chars [of u] by linarith
  have len8: "utf16_to_utf8_length (Some u) (length u) = Inr (int (length ?bs))"
    using utf16_to_utf8_length_eq [of "length u" u] u len by simp
  have conv8: "utf16_to_utf8 (Some u) (length u) (Some (replicate (length ?bs + 1) 0)) = Inr (Some (?bs @ [0]))"
    using utf16_to_utf8_eq [of "length u" u "replicate (length ?bs + 1) 0"] u by simp
  have len16: "utf8_to_utf16_length (?bs @ [0]) (length ?bs) False = Inr (int (length u))"
    using utf8_to_utf16_length_eq [of "length ?bs" "?bs @ [0]"] chars by (simp add: utf16_units_chars)
  have conv16: "utf8_to_utf16 (?bs @ [0]) (length ?bs) (replicate (length u + 1) 0) (of_nat (length u) + 1) =
      Inr (u @ [0], length u)"
    using utf8_to_utf16_eq [of "length ?bs" "?bs @ [0]" "utf16_chars u" "length u" "replicate (length u + 1) 0"] chars u(2)
    by (simp add: utf16_units_chars)
  show ?thesis
    using len8 conv8 len16 conv16 by blast
qed

theorem utf16_utf8_roundtrip_witness:
  "\<exists>bs. utf16_to_utf8_length (Some [0xD83D, 0xDE00, 0x41]) 3 = Inr (int (length bs)) \<and>
    utf8_to_utf16 (bs @ [0]) (length bs) (replicate 4 0) 4 = Inr ([0xD83D, 0xDE00, 0x41, 0], 3)"
proof -
  have "list_all scalar_value (utf16_chars [0xD83D, 0xDE00, 0x41])"
    by (simp add: scalar_value_def)
  from utf16_utf8_roundtrip [OF this] obtain bs where
    "utf16_to_utf8_length (Some [0xD83D, 0xDE00, 0x41]) (length [0xD83D, 0xDE00, 0x41 :: u16]) = Inr (int (length bs))"
    "utf8_to_utf16 (bs @ [0]) (length bs) (replicate (length [0xD83D, 0xDE00, 0x41 :: u16] + 1) 0)
       (of_nat (length [0xD83D, 0xDE00, 0x41 :: u16]) + 1) =
       Inr ([0xD83D, 0xDE00, 0x41] @ [0], length [0xD83D, 0xDE00, 0x41 :: u16])"
    by fastforce
  moreover have "length [0xD83D, 0xDE00, 0x41 :: u16] = 3" by simp
  ultimately have "utf16_to_utf8_length (Some [0xD83D, 0xDE00, 0x41]) 3 = Inr (int (length bs))"
    "utf8_to_utf16 (bs @ [0]) (length bs) (replicate (3 + 1) 0) (of_nat 3 + 1) = Inr ([0xD83D, 0xDE00, 0x41] @ [0], 3)"
    by metis+
  then show ?thesis by auto
qed

text \<open>What a \<open>String8\<close> made of a \<open>String16\<close> holds.\<close>

lemma string8_from_string16_outcome:
  assumes x: "string16_holds st x u" and bytes: "s = utf8_bytes (utf16_chars u)" "s = [] \<longleftrightarrow> u = []" "length s < 2 ^ 62"
    and kept: "empty_string_kept st"
  shows "case String8_from_String16 x st of
      Inl e \<Rightarrow> e = NullDeref \<and> gEmptyStringBuf st = None \<and>
        True \<notin> set (take (if s = [] then 1 else 2) (hp_malloc (st_bytes st)))
    | Inr (y, st') \<Rightarrow> string8_holds st' y s \<or> string8_holds st' y [] \<and> True \<notin> set (take 1 (hp_malloc (st_bytes st)))"
proof (cases "u = []")
  case True
  with x bytes string8_from_string16_empty [of st x] getEmptyString_holds [OF kept] show ?thesis
    by (auto split: sum.splits)
next
  case False
  show ?thesis
  proof (cases "True \<in> set (take 1 (hp_malloc (st_bytes st)))")
    case True
    then obtain oks where "hp_malloc (st_bytes st) = True # oks" by (cases "hp_malloc (st_bytes st)") auto
    with x False bytes obtain y st' where "String8_from_String16 x st = Inr (y, st')" "string8_holds st' y s"
      using string8_from_string16_holds [of st x u s oks] by auto
    then show ?thesis by simp
  next
    case no: False
    let ?st = "st\<lparr>st_bytes := snd (sb_malloc (st_bytes st))\<rparr>"
    have "hp_bufs (st_bytes ?st) = hp_bufs (st_bytes st)" "hp_malloc (st_bytes ?st) = tl (hp_malloc (st_bytes st))"
      using no by (auto simp: sb_malloc_def split: list.splits bool.splits)
    moreover from this have "empty_string_kept ?st" using kept by (simp add: empty_string_kept_def string8_holds_def)
    moreover have "True \<notin> set (take 2 (hp_malloc (st_bytes st)))" if "True \<notin> set (take 1 (tl (hp_malloc (st_bytes st))))"
      using no that by (cases "hp_malloc (st_bytes st)") (auto simp: numeral_2_eq_2)
    ultimately show ?thesis
      using string8_from_string16_no_memory [OF x False _ no] getEmptyString_holds [of ?st] bytes False no
      by (auto split: sum.splits)
  qed
qed

text \<open>C26: strings survive the way through UTF-16. Take the bytes of any code points that UTF-8 can encode, none of
  them zero, none at all among the cases, fewer than 2^60 bytes and ended by a zero. A \<open>String16\<close> made of them holds their UTF-16
  units, and a \<open>String8\<close> made of that holds the same bytes, its terminator and the right length. Only missing memory
  stands in the way: the \<open>String16\<close> of a non-empty string and the first empty \<open>String8\<close> of the process are
  written through the null pointer when there is none, and a \<open>String8\<close> that gets no buffer of its own silently is
  the empty string. The shared empty string must still be there if it was made before: appending to an empty
  \<open>String8\<close> frees it (\<open>empty_string_freed_by_append\<close>).\<close>

theorem string16_string8_roundtrip:
  assumes cs: "list_all scalar_value cs" and s: "s = utf8_bytes cs" "0 \<notin> set s" "length s < 2 ^ 60"
    and kept: "empty_string_kept st"
  shows "case String16_chars (s @ 0 # rest) st of
      Inl e \<Rightarrow> e = NullDeref \<and> s \<noteq> [] \<and> True \<notin> set (take 1 (hp_malloc (st_units st)))
    | Inr (x, st1) \<Rightarrow> string16_holds st1 x (utf16_units cs) \<and>
        (case String8_from_String16 x st1 of
           Inl e \<Rightarrow> e = NullDeref \<and> gEmptyStringBuf st = None \<and>
             True \<notin> set (take (if s = [] then 1 else 2) (hp_malloc (st_bytes st)))
         | Inr (y, st2) \<Rightarrow> \<exists>t. string8_holds st2 y t \<and> String8_length y st2 = Inr (of_nat (length t)) \<and>
             (t = s \<or> t = [] \<and> True \<notin> set (take 1 (hp_malloc (st_bytes st)))))"
proof (cases "s = [] \<or> True \<in> set (take 1 (hp_malloc (st_units st)))")
  case True
  obtain x st1 where x: "String16_chars (s @ 0 # rest) st = Inr (x, st1)" "string16_holds st1 x (utf16_units cs)"
    "st_bytes st1 = st_bytes st" "gEmptyStringBuf st1 = gEmptyStringBuf st"
    by (rule string16_chars_holds [OF cs s(1,2) _ True, of rest]) (use s(3) in auto)
  have "s = [] \<longleftrightarrow> utf16_units cs = []" using utf16_chars_units [OF cs] s(1) utf8_chars_bytes [OF cs]
    by (auto simp: utf8_chars.simps)
  moreover have "empty_string_kept st1" using kept x by (simp add: empty_string_kept_def string8_holds_def)
  ultimately show ?thesis
    using string8_from_string16_outcome [OF x(2), of s] s x utf16_chars_units [OF cs]
    by (auto split: sum.splits dest: string8_length_holds)
next
  case False
  with string16_chars_no_memory [OF cs s(1,2), of st rest] s(3) show ?thesis by simp
qed

definition ex_strings :: strings where
  "ex_strings = \<lparr>st_bytes = \<lparr>hp_bufs = Map.empty, hp_next = 0, hp_malloc = [True, True, True]\<rparr>,
     st_units = \<lparr>hp_bufs = Map.empty, hp_next = 0, hp_malloc = [True]\<rparr>, gEmptyStringBuf = None\<rparr>"

theorem string16_string8_roundtrip_witness:
  "\<exists>x st1 y st2. String16_chars [0xC3, 0xA9, 0x41, 0] ex_strings = Inr (x, st1) \<and>
    String8_from_String16 x st1 = Inr (y, st2) \<and> string8_holds st2 y [0xC3, 0xA9, 0x41]"
proof -
  have cs: "list_all scalar_value [0xE9, 0x41]" by (simp add: scalar_value_def)
  have s: "[0xC3, 0xA9, 0x41] = utf8_bytes [0xE9, 0x41]"
    using cs by (simp add: utf8_encode_bytes)
  have "empty_string_kept ex_strings" by (simp add: empty_string_kept_def ex_strings_def)
  then have "case String16_chars ([0xC3, 0xA9, 0x41] @ [0]) ex_strings of
      Inl _ \<Rightarrow> False
    | Inr (x, st1) \<Rightarrow> (case String8_from_String16 x st1 of Inl _ \<Rightarrow> False | Inr (y, st2) \<Rightarrow> string8_holds st2 y [0xC3, 0xA9, 0x41])"
    using string16_string8_roundtrip [OF cs s, of ex_strings "[]"] by (auto simp: ex_strings_def split: sum.splits)
  then show ?thesis by (auto split: sum.splits) (metis old.sum.exhaust surj_pair)
qed

end
