(* ===== verification/Unicode_Search.thy ===== *)
theory Unicode_Search
  imports Unicode
begin

text \<open>
  Comparison and search in terminated strings of 16-bit units, and the length of a
  UTF-8 string as \<open>utf8_length\<close> computes it.
\<close>

section \<open>Comparison\<close>

text \<open>
  The difference at the first index where the strings differ, a missing unit counting as
  zero: what \<open>strzcmp16\<close> computes.
\<close>

fun zcompare :: "u16 list \<Rightarrow> u16 list \<Rightarrow> int" where
  "zcompare (a # s) (b # t) = (if a \<noteq> b then uint a - uint b else zcompare s t)"
| "zcompare [] (b # t) = - uint b"
| "zcompare (a # s) [] = uint a"
| "zcompare [] [] = 0"

lemma strzcmp16_eq:
  "strzcmp16 (s @ 0 # r) (length s) (t @ 0 # r') (length t) = Inr (zcompare s t)"
  by (induction s t rule: zcompare.induct) (simp_all add: Let_def word_uint_eq_iff)

lemma zcompare_zero_iff:
  "zcompare s t = 0 \<longleftrightarrow> s = t \<or> (\<exists>z. t = s @ 0 # z) \<or> (\<exists>z. s = t @ 0 # z)"
  by (induction s t rule: zcompare.induct) (auto simp: word_uint_eq_iff)

lemma zcompare_swap: "zcompare t s = - zcompare s t"
  by (induction s t rule: zcompare.induct) auto

text \<open>\<open>strzcmp16\<close> compares two terminated strings without reading past their terminators, and finds
  them equal exactly if they are the same or one is the other followed by a zero unit and anything:
  that the lengths must match, as the header says, does not hold. Exchanging the strings changes the
  sign of the result.\<close>

theorem strzcmp16_equal_iff:
  "\<exists>d. strzcmp16 (s @ 0 # r) (length s) (t @ 0 # r') (length t) = Inr d \<and>
     strzcmp16 (t @ 0 # r') (length t) (s @ 0 # r) (length s) = Inr (- d) \<and>
     (d = 0 \<longleftrightarrow> s = t \<or> (\<exists>z. t = s @ 0 # z) \<or> (\<exists>z. s = t @ 0 # z))"
  by (intro exI [of _ "zcompare s t"]) (simp add: strzcmp16_eq zcompare_zero_iff zcompare_swap [of t s])

section \<open>Search\<close>

lemma strlen16_eq: "0 \<notin> set s \<Longrightarrow> strlen16 (s @ 0 # r) = Inr (length s)"
  unfolding strlen16_def by (induction s) auto

lemma strncmp16_loop_prefix:
  assumes "0 \<notin> set t" and "0 \<notin> set s"
  shows "\<exists>d'. strncmp16_loop (s @ 0 # r) (t @ r') (length t) 0 = Inr d' \<and> (d' = 0 \<longleftrightarrow> take (length t) s = t)"
  using assms
proof (induction t arbitrary: s)
  case Nil
  then show ?case by simp
next
  case (Cons b t)
  show ?case
  proof (cases s)
    case Nil
    have "b \<noteq> 0" using Cons.prems by auto
    then have "uint b \<noteq> 0" by (simp add: word_uint_eq_iff)
    then show ?thesis using Nil by simp
  next
    case (Cons a s')
    with Cons.IH [of s'] Cons.prems show ?thesis by (auto simp: word_uint_eq_iff Let_def)
  qed
qed

text \<open>The first place where \<open>t\<close> occurs in \<open>s\<close>.\<close>

definition first_occurrence :: "u16 list \<Rightarrow> u16 list \<Rightarrow> nat option" where
  "first_occurrence t s = find (\<lambda>i. take (length t) (drop i s) = t) [0..<Suc (length s)]"

lemma find_map_Suc: "find P (map Suc xs) = map_option Suc (find (\<lambda>i. P (Suc i)) xs)"
  by (induction xs) simp_all

lemma first_occurrence_Cons:
  "first_occurrence t (c # s) =
     (if take (length t) (c # s) = t then Some 0 else map_option Suc (first_occurrence t s))"
proof -
  have "[0..<Suc (length (c # s))] = 0 # map Suc [0..<Suc (length s)]"
    unfolding map_Suc_upt by (subst upt_conv_Cons) simp_all
  then show ?thesis by (simp add: first_occurrence_def find_map_Suc del: upt_Suc)
qed

lemma strstr16_loop_eq:
  assumes "0 \<notin> set (b # t)" and "0 \<notin> set s"
  shows "strstr16_loop b (t @ r') (length t) (s @ 0 # r) i = Inr (map_option ((+) i) (first_occurrence (b # t) s))"
  using assms(2)
proof (induction s arbitrary: i)
  case Nil
  then show ?case by (simp add: first_occurrence_def)
next
  case (Cons c s)
  obtain d where d: "strncmp16 (s @ 0 # r) (t @ r') (length t) = Inr d" "d = 0 \<longleftrightarrow> take (length t) s = t"
    using strncmp16_loop_prefix [of t s r r'] assms(1) Cons.prems by (auto simp: strncmp16_def)
  have "map_option ((+) (Suc i)) x = map_option ((+) i) (map_option Suc x)" for x
    by (cases x) simp_all
  with Cons d show ?case by (auto simp: first_occurrence_Cons)
qed

text \<open>C31: \<open>strstr16\<close> returns the first place where the target occurs in the string, the start for an empty
  target and null if there is none: for terminated strings it neither stops short nor
  reads past a terminator.\<close>

theorem strstr16_finds_first:
  assumes "0 \<notin> set s" and "0 \<notin> set t"
  shows "strstr16 (s @ 0 # r) (t @ 0 # r') = Inr (first_occurrence t s)"
proof (cases t)
  case Nil
  have "[0..<Suc (length s)] = 0 # [1..<Suc (length s)]" by (subst upt_conv_Cons) simp_all
  then show ?thesis using Nil by (simp add: strstr16_def first_occurrence_def del: upt_Suc)
next
  case (Cons b u)
  have id: "map_option ((+) 0) = (\<lambda>x :: nat option. x)" by (intro ext, rename_tac x, case_tac x) simp_all
  have "strlen16 (u @ 0 # r') = Inr (length u)" using assms Cons by (intro strlen16_eq) simp
  then show ?thesis
    using strstr16_loop_eq [of b u s "0 # r'" r 0] assms Cons by (auto simp: strstr16_def id)
qed

theorem strstr16_finds_first_witness:
  "strstr16 [1, 2, 1, 2, 3, 0] [1, 2, 3, 0] = Inr (Some 2)"
  using strstr16_finds_first [of "[1, 2, 1, 2, 3]" "[1, 2, 3]" "[]" "[]"]
  by (simp add: first_occurrence_def upt_rec)

section \<open>Length of a UTF-8 string\<close>

lemma bit_80: "bit (0x80 :: 'a::len word) i \<longleftrightarrow> i = 7 \<and> 7 < LENGTH('a)"
proof -
  have "(0x80 :: 'a word) = 2 ^ 7" by simp
  then show ?thesis by (metis bit_exp_iff possible_bit_word)
qed

lemma and_80_iff: "w AND 0x80 = 0 \<longleftrightarrow> \<not> bit (w :: 'a::len word) 7"
proof -
  have "bit (w AND 0x80) n \<longleftrightarrow> n = 7 \<and> bit w 7" for n
    by (auto simp only: bit_and_iff bit_80 dest: bit_imp_le_length)
  moreover have "w AND 0x80 = 0 \<longleftrightarrow> (\<forall>n. \<not> bit (w AND 0x80) n)"
    by (metis bit_0_eq bit_eqI bot_apply bot_bool_def)
  ultimately show ?thesis by simp
qed

lemma scast_and_80_iff: "scast (c :: u8) AND (0x80 :: u32) = 0 \<longleftrightarrow> c AND 0x80 = 0"
  unfolding and_80_iff by (simp add: bit_simps)

text \<open>With a signed \<open>char\<close>, the bits above the eight of the byte are set in whatever survives the mask.\<close>

lemma signed_high_bits: "c AND 0x80 \<noteq> 0 \<Longrightarrow> 7 \<le> i \<Longrightarrow> i < 32 \<Longrightarrow> bit (scast (c :: u8) :: u32) i"
  by (auto simp: and_80_iff bit_simps min_def le_less)

abbreviation (input) low_byte :: "u32 \<Rightarrow> bool" where "low_byte w \<equiv> (\<forall>i \<ge> 8. \<not> bit w i)"

lemma utf8_length_inner_masks:
  "utf8_length_inner turns s first cur n msk ign utf32 = Inr (Some (cur', n', msk', ign', utf32')) \<Longrightarrow>
   low_byte msk \<Longrightarrow> low_byte ign \<Longrightarrow> n \<le> n' \<and> n' \<le> n + turns \<and> low_byte msk' \<and> low_byte ign'"
proof (induction turns s first cur n msk ign utf32 rule: utf8_length_inner.induct)
  case 1
  then show ?case by simp
next
  case (2 turns s first cur n msk ign utf32)
  show ?case
  proof (cases "first AND msk = 0")
    case True
    then show ?thesis using 2 by auto
  next
    case False
    then obtain c where c: "arr_get s cur = Inr c" using "2.prems"(1) by (auto simp: bindE_Inr_iff)
    have "low_byte (drop_bit 1 msk)" "low_byte (ign OR msk)" using "2.prems" by (auto simp: bit_simps)
    with 2 False c show ?thesis by (fastforce simp: bindE_Inr_iff split: if_splits)
  qed
qed

lemma utf8_length_inner_safe:
  "cur \<le> length s \<Longrightarrow> \<exists>x. utf8_length_inner turns (s @ 0 # r) first cur n msk ign utf32 = Inr x"
proof (induction turns arbitrary: cur n msk ign utf32)
  case 0
  then show ?case by simp
next
  case (Suc turns)
  show ?case
  proof (cases "cur = length s")
    case True
    then show ?thesis by simp
  next
    case False
    with Suc have "cur < length s" by simp
    with Suc.IH [of "Suc cur"] show ?thesis by (simp add: nth_append)
  qed
qed

lemma top_bit_large:
  assumes "bit (w :: u32) 31"
  shows "kUnicodeMaxCodepoint < w"
proof -
  have "2 ^ 31 \<le> uint w"
  proof (rule ccontr)
    assume "\<not> 2 ^ 31 \<le> uint w"
    then have "uint w = take_bit 31 (uint w)" by (intro take_bit_int_eq_self [symmetric]) simp_all
    then have "\<not> bit (uint w) 31" by (metis bit_take_bit_iff less_irrefl)
    with assms show False by (simp add: bit_uint_iff)
  qed
  then show ?thesis by (simp add: word_less_def)
qed

lemma utf8_length_char_signed:
  assumes "cur < length s"
  shows "utf8_length_char True (s @ 0 # r) cur = Inr (if s ! cur AND 0x80 = 0 then Some 1 else None)"
proof (cases "s ! cur AND 0x80 = 0")
  case True
  with assms show ?thesis
    by (simp add: utf8_length_char_def nth_append char_to_u32_def scast_and_80_iff Let_def)
next
  case False
  let ?first = "scast (s ! cur) :: u32"
  have get: "arr_get (s @ 0 # r) cur = Inr (s ! cur)" using assms by (simp add: nth_append)
  obtain x where x: "utf8_length_inner 4 (s @ 0 # r) ?first (Suc cur) 1 0x40 0x80 0 = Inr x"
    using utf8_length_inner_safe [of "Suc cur" s 4 r ?first 1 "0x40" "0x80" 0] assms by auto
  show ?thesis
  proof (cases x)
    case None
    with x get False show ?thesis
      by (simp add: utf8_length_char_def char_to_u32_def scast_and_80_iff Let_def)
  next
    case (Some y)
    obtain cur' n msk ign utf32 where y: "y = (cur', n, msk, ign, utf32)" by (cases y)
    have "(0x40 :: u32) = drop_bit 1 0x80" by simp
    then have "low_byte (0x40 :: u32)" unfolding bit_drop_bit_eq by (auto simp only: bit_80 bit_drop_bit_eq comp_apply)
    moreover have "low_byte (0x80 :: u32)" by (simp only: bit_80) simp
    ultimately have "low_byte (0x40 :: u32)" "low_byte (0x80 :: u32)" .
    with utf8_length_inner_masks [OF x [unfolded Some y]]
    have n: "n \<le> 5" and low: "low_byte (ign OR msk)" by (auto simp: bit_simps)
    have "kUnicodeMaxCodepoint < utf32 OR push_bit (6 * (n - 1)) (NOT (ign OR msk) AND ?first)" if "n \<noteq> 5"
    proof (rule top_bit_large)
      have "6 * (n - 1) \<le> 18" using n that by simp
      then show "bit (utf32 OR push_bit (6 * (n - 1)) (NOT (ign OR msk) AND ?first)) 31"
        using low signed_high_bits [OF False] by (auto simp: bit_or_iff bit_push_bit_iff bit_and_iff bit_not_iff)
    qed
    with x get False Some y show ?thesis
      by (simp add: utf8_length_char_def char_to_u32_def scast_and_80_iff Let_def)
  qed
qed

lemma utf8_length_loop_signed:
  assumes "cur \<le> length s" and "0 \<notin> set s" and "length s - cur < fuel"
  shows "utf8_length_loop fuel True (s @ 0 # r) cur ret =
    Inr (if \<forall>c \<in> set (drop cur s). c AND 0x80 = 0 then int (ret + (length s - cur)) else - 1)"
  using assms
proof (induction fuel arbitrary: cur ret)
  case 0
  then show ?case by simp
next
  case (Suc fuel)
  show ?case
  proof (cases "cur = length s")
    case True
    then show ?thesis by simp
  next
    case False
    with Suc.prems have cur: "cur < length s" by simp
    then have "drop cur s = s ! cur # drop (Suc cur) s" "s ! cur \<noteq> 0"
      using Suc.prems(2) by (auto simp: Cons_nth_drop_Suc) (metis nth_mem)
    with cur Suc.IH [of "Suc cur" "Suc ret"] Suc.prems(2,3) show ?thesis
      by (simp add: utf8_length_char_signed nth_append)
  qed
qed

text \<open>Where \<open>char\<close> is signed, \<open>utf8_length\<close> reads no further than the terminator and is the length of a
  string of ASCII bytes, but \<open>-1\<close> for every other string, also where it is valid
  UTF-8: the sign of the first byte spreads into the code point.\<close>

theorem utf8_length_signed_ascii_only:
  assumes "0 \<notin> set s"
  shows "utf8_length True (s @ 0 # r) = Inr (if \<forall>c \<in> set s. c AND 0x80 = 0 then int (length s) else - 1)"
  using utf8_length_loop_signed [of 0 s "Suc (length (s @ 0 # r))" r 0] assms by (simp add: utf8_length_def)

theorem utf8_length_signed_ascii_only_witness:
  "utf8_length True [0xC3, 0xA9, 0] = Inr (- 1) \<and> utf8_length False [0xC3, 0xA9, 0] = Inr 2"
proof -
  have "utf8_length False [0xC3, 0xA9, 0] = Inr 2" by code_simp
  then show ?thesis using utf8_length_signed_ascii_only [of "[0xC3, 0xA9]" "[]"] by simp
qed

end
