(* ===== verification/String_Objects.thy ===== *)
theory String_Objects
  imports Strings_Props Unicode_Search
begin

text \<open>
  Operations of the string classes on objects that hold a string: comparison, appending,
  and what happens to the empty string all \<open>String8\<close> objects share.
\<close>

section \<open>Comparing\<close>

text \<open>C1: \<open>operator==\<close> of \<open>String16\<close> is equality of the strings for objects whose strings have no
  zero unit inside, and it does not read past the strings.\<close>

theorem string16_equality:
  assumes "string16_holds st x s" and "string16_holds st y t" and "0 \<notin> set s" and "0 \<notin> set t"
  shows "String16_eq x y st = Inr (s = t)"
proof -
  have len: "unat (of_nat (length s) :: u64) = length s" "unat (of_nat (length t) :: u64) = length t"
    using assms by (auto intro!: unat_of_nat_64 simp: string16_holds_def)
  have "zcompare s t = 0 \<longleftrightarrow> s = t" using assms(3,4) by (auto simp: zcompare_zero_iff)
  then show ?thesis
    using assms(1,2) strzcmp16_eq [of s "[]" t "[]"] by (simp add: String16_eq_def string16_holds_def len)
qed

theorem string16_equality_witness:
  "String16_eq (Static16 2 [65, 66, 0]) (Static16 1 [65, 0]) st = Inr False"
  using string16_equality [of st "Static16 2 [65, 66, 0]" "[65, 66]" "Static16 1 [65, 0]" "[65]"]
  by (simp add: string16_holds_def String16_string_def String16_size_def isStaticString_def staticStringSize_def)

section \<open>Appending\<close>

text \<open>The shape of a buffer that holds a string and belongs to one object.\<close>

definition string8_owns :: "strings \<Rightarrow> nat \<Rightarrow> u8 list \<Rightarrow> bool" where
  "string8_owns st b s \<longleftrightarrow> (\<exists>sb. hp_bufs (st_bytes st) b = Some sb \<and> sb_data sb = s @ [0] \<and>
     unat (mSize sb) = length s + 1 \<and> mRefs sb = 1)"

lemma string8_owns_holds: "string8_owns st b s \<Longrightarrow> string8_holds st (Some b) s"
  by (auto simp: string8_owns_def string8_holds_def)

text \<open>Appending to a non-empty \<open>String8\<close> that is the only owner of its buffer returns \<open>0\<close> with the
  concatenation in the object, or, if no memory is left, \<open>NO_MEMORY\<close> with the object unchanged; no
  other buffer changes.\<close>

theorem string8_append_outcome:
  assumes own: "string8_owns st b s" and s: "s \<noteq> []" and t: "0 \<notin> set t" and len: "length s + length t < 2 ^ 60"
    and fresh: "hp_bufs (st_bytes st) (hp_next (st_bytes st)) = None"
  shows "\<exists>ret y st'. String8_append_chars (t @ 0 # rest) (Some b) st = Inr (ret, Some y, st') \<and>
    (ret = 0 \<and> string8_owns st' y (s @ t) \<or> ret = NO_MEMORY \<and> y = b \<and> string8_owns st' b s) \<and>
    (\<forall>c. c \<noteq> b \<longrightarrow> c \<noteq> hp_next (st_bytes st) \<longrightarrow> hp_bufs (st_bytes st') c = hp_bufs (st_bytes st) c)"
proof -
  let ?hp = "st_bytes st" and ?n = "length s" and ?m = "length t"
  obtain sb where sb: "hp_bufs ?hp b = Some sb" "sb_data sb = s @ [0]" "unat (mSize sb) = ?n + 1" "mRefs sb = 1"
    using own by (auto simp: string8_owns_def)
  have n: "unat (of_nat ?n :: u64) = ?n" "unat (of_nat ?m :: u64) = ?m" using len by (simp_all add: unat_of_nat_64)
  then have n0: "(of_nat ?n :: u64) \<noteq> 0" using s by (metis length_0_conv unat_0)
  have length: "String8_length (Some b) st = Inr (of_nat ?n)"
    by (rule string8_length_holds [OF string8_owns_holds [OF own]])
  show ?thesis
  proof (cases "t = []")
    case True
    then show ?thesis
      using own n0 length by (intro exI [of _ 0] exI [of _ b] exI [of _ st])
        (simp add: String8_append_chars_def String8_append_def)
  next
    case False
    then have m0: "(of_nat ?m :: u64) \<noteq> 0" using n(2) by (metis length_0_conv unat_0)
    define sz where "sz = (of_nat ?m + of_nat ?n + 1 :: u64)"
    have sz_eq: "sz = of_nat (?m + ?n + 1)" by (simp add: sz_def)
    have sz: "unat sz = ?m + ?n + 1" unfolding sz_eq by (rule unat_of_nat_64) (use len in simp)
    have off: "unat (of_nat ?n + of_nat ?m :: u64) = ?n + ?m"
      using unat_of_nat_64 [of "?n + ?m"] len by simp
    have append: "String8_append_chars (t @ 0 # rest) (Some b) st = String8_real_append (t @ 0 # rest) (of_nat ?m) (Some b) st"
      using n0 m0 length c_strlen_eq [OF t] by (simp add: String8_append_chars_def String8_append_def)
    have read: "mem_read (t @ 0 # rest) 0 ?m = Inr t" by (simp add: mem_read_def)
    have data: "length (sb_data sb) = unat (mSize sb) div 1" using sb by simp
    have grow: "mSize sb \<noteq> sz" "size_fits sz" using sb(3) sz False len by auto
    show ?thesis
    proof (rule editResize_owned [OF sb(1,4) data grow fresh, of "0 :: u8"])
      fix hp'
      assume *: "editResize 1 0 b sz ?hp = Inr (None, hp')" "hp_bufs hp' = hp_bufs ?hp"
      have "String8_real_append (t @ 0 # rest) (of_nat ?m) (Some b) st = Inr (NO_MEMORY, Some b, st\<lparr>st_bytes := hp'\<rparr>)"
        using length * by (simp add: String8_real_append_def sz_def)
      then show ?thesis using own * by (auto simp: append string8_owns_def)
    next
      fix sb' hp'
      let ?new = "hp_next ?hp"
      assume *: "editResize 1 0 b sz ?hp = Inr (Some ?new, hp')"
        "hp_bufs hp' = (hp_bufs ?hp)(b := None, ?new \<mapsto> sb')" "mRefs sb' = 1" "mSize sb' = sz"
        "sb_data sb' = resized 0 (unat sz div 1) (sb_data sb)"
      have data: "sb_data sb' = s @ replicate (Suc ?m) 0" using * sb sz by (simp add: resized_def)
      let ?hp1 = "sb_put ?new (sb'\<lparr>sb_data := s @ t @ [0]\<rparr>) hp'"
      have store1: "sb_store ?new ?n t hp' = Inr ?hp1"
        using *(2) data by (simp add: sb_store_def sb_get_def replicate_append_same [symmetric])
      have store2: "sb_store ?new (?n + ?m) [0] ?hp1 = Inr ?hp1"
        by (simp add: sb_store_def sb_get_def sb_put_def)
      have "String8_real_append (t @ 0 # rest) (of_nat ?m) (Some b) st = Inr (0, Some ?new, st\<lparr>st_bytes := ?hp1\<rparr>)"
        using length * read store1 store2 n off by (simp add: String8_real_append_def sz_def)
      moreover have "string8_owns (st\<lparr>st_bytes := ?hp1\<rparr>) ?new (s @ t)"
        using * sz by (simp add: string8_owns_def)
      ultimately show ?thesis
        using * by (intro exI [of _ 0] exI [of _ ?new] exI [of _ "st\<lparr>st_bytes := ?hp1\<rparr>"]) (simp add: append)
    qed
  qed
qed

definition ex_string8 :: strings where
  "ex_string8 = \<lparr>st_bytes = \<lparr>hp_bufs = [0 \<mapsto> \<lparr>mRefs = 1, mSize = 3, mClientMetadata = 0, sb_data = [72, 105, 0]\<rparr>],
     hp_next = 1, hp_malloc = [False, True]\<rparr>,
     st_units = \<lparr>hp_bufs = Map.empty, hp_next = 0, hp_malloc = []\<rparr>, gEmptyStringBuf = None\<rparr>"

theorem string8_append_outcome_witness:
  "\<exists>ret y st'. String8_append_chars [33, 0] (Some 0) ex_string8 = Inr (ret, Some y, st') \<and>
    (ret = 0 \<and> string8_owns st' y [72, 105, 33] \<or> ret = NO_MEMORY \<and> y = 0 \<and> string8_owns st' 0 [72, 105])"
proof -
  have "string8_owns ex_string8 0 [72, 105]" by (simp add: string8_owns_def ex_string8_def)
  from string8_append_outcome [OF this, of "[33]" "[]"] show ?thesis
    by (auto simp: ex_string8_def)
qed

section \<open>The shared empty string\<close>

text \<open>The first append to a \<open>String8\<close> made empty frees the empty string all empty objects share, because the
  object took no reference on it: the next empty \<open>String8\<close> points to freed memory, and asking for its
  length is a use after free.\<close>

theorem empty_string_freed_by_append:
  assumes "gEmptyStringBuf st = None" and "hp_malloc (st_bytes st) = True # True # oks"
    and t: "t \<noteq> []" "0 \<notin> set t" "length t < 2 ^ 60"
  shows "\<exists>x st1 y st2. String8_empty st = Inr (x, st1) \<and> String8_length x st1 = Inr 0 \<and>
    String8_append_chars (t @ 0 # rest) x st1 = Inr (0, y, st2) \<and> string8_holds st2 y t \<and>
    String8_empty st2 = Inr (x, st2) \<and> String8_length x st2 = Inl UseAfterFree"
proof -
  let ?hp = "st_bytes st" and ?m = "length t"
  let ?b = "hp_next ?hp"
  let ?empty = "\<lparr>mRefs = 1, mSize = 1, mClientMetadata = 0, sb_data = [0 :: u8]\<rparr>"
  let ?hp1 = "?hp\<lparr>hp_malloc := True # oks, hp_next := Suc ?b, hp_bufs := (hp_bufs ?hp)(?b \<mapsto> ?empty)\<rparr>"
  let ?st1 = "st\<lparr>st_bytes := ?hp1, gEmptyStringBuf := Some ?b\<rparr>"
  have empty: "String8_empty st = Inr (Some ?b, ?st1)"
    using assms sb_room_fits [of 1]
    by (simp add: String8_empty_def getEmptyString_def SharedBuffer_alloc_def sb_malloc_def sb_store_def sb_get_def sb_put_def)
  have len: "String8_length (Some ?b) ?st1 = Inr 0"
    by (simp add: String8_length_def sizeFromData_def sb_get_def)
  have m: "unat (of_nat ?m :: u64) = ?m" using t by (simp add: unat_of_nat_64)
  then have m0: "(of_nat ?m :: u64) > 0" using t(1) by (metis length_0_conv unat_0 word_gt_0)
  have max: "(of_nat ?m :: u64) \<noteq> - 1"
  proof
    assume "(of_nat ?m :: u64) = - 1"
    then have "?m = unat (- 1 :: u64)" using m by metis
    then show False using t(3) by (simp add: unsigned_minus_1_eq_mask mask_eq_exp_minus_1)
  qed
  define sz where "sz = (of_nat ?m + 1 :: u64)"
  have sz: "unat sz = ?m + 1" unfolding sz_def using unat_of_nat_64 [of "?m + 1"] t(3) by (simp add: add.commute)
  have fits: "size_fits sz" using sz t(3) by simp
  let ?new = "\<lparr>mRefs = 1, mSize = sz, mClientMetadata = 0, sb_data = t @ [0 :: u8]\<rparr>"
  let ?hp2 = "?hp1\<lparr>hp_malloc := oks, hp_next := Suc (Suc ?b), hp_bufs := (hp_bufs ?hp1)(Suc ?b \<mapsto> ?new)\<rparr>"
  let ?st2 = "?st1\<lparr>st_bytes := ?hp2\<lparr>hp_bufs := (hp_bufs ?hp2)(?b := None)\<rparr>\<rparr>"
  have alloc: "String8_allocFromUTF8 (t @ 0 # rest) (of_nat ?m) ?st1 = Inr (Some (Suc ?b), ?st1\<lparr>st_bytes := ?hp2\<rparr>)"
    using m0 max m sb_room_fits [OF fits] sz
    by (simp add: String8_allocFromUTF8_def SharedBuffer_alloc_def sb_malloc_def sb_store_def sb_get_def sb_put_def
      mem_read_def sz_def [symmetric])
  have "String8_append_chars (t @ 0 # rest) (Some ?b) ?st1 = Inr (0, Some (Suc ?b), ?st2)"
    using len c_strlen_eq [OF t(2)] alloc release_owned(1) [of ?hp2 ?b ?empty]
    by (simp add: String8_append_chars_def String8_append_def String8_setTo_def SharedBuffer_dealloc_def sb_put_def)
  moreover have "string8_holds ?st2 (Some (Suc ?b)) t" using sz by (simp add: string8_holds_def)
  moreover have "String8_empty ?st2 = Inr (Some ?b, ?st2)" by (simp add: String8_empty_def getEmptyString_def)
  moreover have "String8_length (Some ?b) ?st2 = Inl UseAfterFree"
    by (simp add: String8_length_def sizeFromData_def sb_get_def)
  ultimately show ?thesis using empty len by blast
qed

theorem empty_string_freed_by_append_witness:
  "\<exists>x st1 y st2. String8_empty ex_strings = Inr (x, st1) \<and> String8_append_chars [33, 0] x st1 = Inr (0, y, st2) \<and>
    String8_empty st2 = Inr (x, st2) \<and> String8_length x st2 = Inl UseAfterFree"
proof -
  have "gEmptyStringBuf ex_strings = None" "hp_malloc (st_bytes ex_strings) = True # True # [True]"
    by (simp_all add: ex_strings_def)
  from empty_string_freed_by_append [OF this, of "[33]" "[]"] show ?thesis by auto
qed

end
