(* ===== verification/RefBase.thy ===== *)
theory RefBase
  imports Prelude
begin

text \<open>
  \<open>libutils/RefBase.cpp\<close>, \<open>RefBase.h\<close> and \<open>StrongPointer.h\<close>: objects with a strong and a weak
  reference count. An object and its \<open>weakref_impl\<close> are two allocations with the same address here:
  \<open>rh_base\<close> says which objects exist, \<open>rh_impl\<close> holds the counters. Both can be freed before the
  other, and an access to what is freed is the trap \<open>UseAfterFree\<close>. The counters are 32 bits wide
  and wrap. The hooks \<open>onFirstRef\<close>, \<open>onLastStrongRef\<close> and \<open>onLastWeakRef\<close> are empty in \<open>RefBase\<close>,
  as is what a derived class adds to the destructor: calls of them are entries of a trace.
  In this theory a method runs to its end before the next one starts.
\<close>

record weakref_impl =
  mStrong :: int
  mWeak :: int
  mFlags :: u32

datatype ref_event =
    OnFirstRef nat
  | OnLastStrongRef nat
  | OnLastWeakRef nat
  | BaseDeleted nat
  | ImplDeleted nat

record ref_heap =
  rh_base :: "nat \<Rightarrow> bool"
  rh_impl :: "nat \<Rightarrow> weakref_impl option"
  rh_next :: nat
  rh_trace :: "ref_event list"

abbreviation (input) INITIAL_STRONG_VALUE :: int where "INITIAL_STRONG_VALUE \<equiv> 268435456"
abbreviation (input) OBJECT_LIFETIME_STRONG :: u32 where "OBJECT_LIFETIME_STRONG \<equiv> 0"
abbreviation (input) OBJECT_LIFETIME_WEAK :: u32 where "OBJECT_LIFETIME_WEAK \<equiv> 1"
abbreviation (input) OBJECT_LIFETIME_MASK :: u32 where "OBJECT_LIFETIME_MASK \<equiv> 1"
abbreviation (input) FIRST_INC_STRONG :: u32 where "FIRST_INC_STRONG \<equiv> 1"

text \<open>A value of the type \<open>int32_t\<close> after an atomic addition.\<close>

definition wrap32 :: "int \<Rightarrow> int" where
  "wrap32 x = sint (word_of_int x :: u32)"

lemma wrap32_id: "- (2 ^ 31) \<le> x \<Longrightarrow> x < 2 ^ 31 \<Longrightarrow> wrap32 x = x"
  by (simp add: wrap32_def sint_sbintrunc' signed_take_bit_int_eq_self)

lemma wrap32_0 [simp]: "wrap32 0 = 0"
  by (simp add: wrap32_def)

section \<open>Access to an object and its counters\<close>

definition base_check :: "nat \<Rightarrow> ref_heap \<Rightarrow> unit chk" where
  "base_check a rh = assertE UseAfterFree (rh_base rh a)"

definition impl_get :: "nat \<Rightarrow> ref_heap \<Rightarrow> weakref_impl chk" where
  "impl_get a rh = derefE UseAfterFree (rh_impl rh a)"

definition impl_put :: "nat \<Rightarrow> weakref_impl \<Rightarrow> ref_heap \<Rightarrow> ref_heap" where
  "impl_put a i rh = rh\<lparr>rh_impl := (rh_impl rh)(a \<mapsto> i)\<rparr>"

definition ref_note :: "ref_event \<Rightarrow> ref_heap \<Rightarrow> ref_heap" where
  "ref_note e rh = rh\<lparr>rh_trace := rh_trace rh @ [e]\<rparr>"

text \<open>\<open>fetch_add\<close> and, with a negative amount, \<open>fetch_sub\<close>: the old value and the new heap.\<close>

definition strong_fetch_add :: "nat \<Rightarrow> int \<Rightarrow> ref_heap \<Rightarrow> (int \<times> ref_heap) chk" where
  "strong_fetch_add a n rh =
     bindE (impl_get a rh) (\<lambda>i. Inr (mStrong i, impl_put a (i\<lparr>mStrong := wrap32 (mStrong i + n)\<rparr>) rh))"

definition weak_fetch_add :: "nat \<Rightarrow> int \<Rightarrow> ref_heap \<Rightarrow> (int \<times> ref_heap) chk" where
  "weak_fetch_add a n rh =
     bindE (impl_get a rh) (\<lambda>i. Inr (mWeak i, impl_put a (i\<lparr>mWeak := wrap32 (mWeak i + n)\<rparr>) rh))"

section \<open>RefBase\<close>

definition RefBase_new :: "ref_heap \<Rightarrow> nat \<times> ref_heap" where
  "RefBase_new rh =
     (let a = rh_next rh
      in (a, rh\<lparr>rh_base := (rh_base rh)(a := True),
                rh_impl := (rh_impl rh)(a \<mapsto> \<lparr>mStrong = INITIAL_STRONG_VALUE, mWeak = 0, mFlags = 0\<rparr>),
                rh_next := Suc a\<rparr>))"

definition extendObjectLifetime :: "nat \<Rightarrow> u32 \<Rightarrow> ref_heap \<Rightarrow> ref_heap chk" where
  "extendObjectLifetime a mode rh =
     bindE (base_check a rh) (\<lambda>_.
     bindE (impl_get a rh) (\<lambda>i. Inr (impl_put a (i\<lparr>mFlags := mFlags i OR mode\<rparr>) rh)))"

definition weakref_impl_delete :: "nat \<Rightarrow> ref_heap \<Rightarrow> ref_heap chk" where
  "weakref_impl_delete a rh =
     bindE (impl_get a rh) (\<lambda>_.
     Inr (ref_note (ImplDeleted a) (rh\<lparr>rh_impl := (rh_impl rh)(a := None)\<rparr>)))"

text \<open>\<open>delete\<close> of an object: the destructor \<open>~RefBase\<close>, then its memory is gone.\<close>

definition RefBase_delete :: "nat \<Rightarrow> ref_heap \<Rightarrow> ref_heap chk" where
  "RefBase_delete a rh =
     bindE (base_check a rh) (\<lambda>_.
     bindE (impl_get a rh) (\<lambda>i.
     bindE (if mFlags i AND OBJECT_LIFETIME_WEAK = OBJECT_LIFETIME_WEAK
            then (if mWeak i = 0 then weakref_impl_delete a rh else Inr rh)
            else Inr rh) (\<lambda>rh.
     Inr (ref_note (BaseDeleted a) (rh\<lparr>rh_base := (rh_base rh)(a := False)\<rparr>)))))"

definition getStrongCount :: "nat \<Rightarrow> ref_heap \<Rightarrow> int chk" where
  "getStrongCount a rh = bindE (base_check a rh) (\<lambda>_. bindE (impl_get a rh) (\<lambda>i. Inr (mStrong i)))"

definition getWeakCount :: "nat \<Rightarrow> ref_heap \<Rightarrow> int chk" where
  "getWeakCount a rh = bindE (impl_get a rh) (\<lambda>i. Inr (mWeak i))"

definition onIncStrongAttempted :: "u32 \<Rightarrow> bool" where
  "onIncStrongAttempted flags = (flags AND FIRST_INC_STRONG \<noteq> 0)"

definition incWeak :: "nat \<Rightarrow> ref_heap \<Rightarrow> ref_heap chk" where
  "incWeak a rh = bindE (weak_fetch_add a 1 rh) (\<lambda>(c, rh). Inr rh)"

definition decWeak :: "nat \<Rightarrow> ref_heap \<Rightarrow> ref_heap chk" where
  "decWeak a rh =
     bindE (weak_fetch_add a (- 1) rh) (\<lambda>(c, rh).
     if c \<noteq> 1 then Inr rh
     else
       bindE (impl_get a rh) (\<lambda>i.
       if mFlags i AND OBJECT_LIFETIME_MASK = OBJECT_LIFETIME_STRONG then
         if mStrong i = INITIAL_STRONG_VALUE then Inr rh
         else weakref_impl_delete a rh
       else
         bindE (base_check a rh) (\<lambda>_.
         RefBase_delete a (ref_note (OnLastWeakRef a) rh))))"

definition incStrong :: "nat \<Rightarrow> ref_heap \<Rightarrow> ref_heap chk" where
  "incStrong a rh =
     bindE (base_check a rh) (\<lambda>_.
     bindE (incWeak a rh) (\<lambda>rh.
     bindE (strong_fetch_add a 1 rh) (\<lambda>(c, rh).
     if c \<noteq> INITIAL_STRONG_VALUE then Inr rh
     else
       bindE (strong_fetch_add a (- INITIAL_STRONG_VALUE) rh) (\<lambda>(_, rh).
       bindE (base_check a rh) (\<lambda>_.
       Inr (ref_note (OnFirstRef a) rh))))))"

definition decStrong :: "nat \<Rightarrow> ref_heap \<Rightarrow> ref_heap chk" where
  "decStrong a rh =
     bindE (base_check a rh) (\<lambda>_.
     bindE (strong_fetch_add a (- 1) rh) (\<lambda>(c, rh).
     bindE (if c = 1 then
              bindE (base_check a rh) (\<lambda>_.
              let rh = ref_note (OnLastStrongRef a) rh
              in bindE (impl_get a rh) (\<lambda>i.
                 if mFlags i AND OBJECT_LIFETIME_MASK = OBJECT_LIFETIME_STRONG then RefBase_delete a rh
                 else Inr rh))
            else Inr rh) (\<lambda>rh.
     decWeak a rh)))"

definition creatWeak :: "nat \<Rightarrow> ref_heap \<Rightarrow> ref_heap chk" where
  "creatWeak a rh = bindE (base_check a rh) (\<lambda>_. incWeak a rh)"

text \<open>
  A \<open>compare_exchange_weak\<close> loop ends with the first exchange that succeeds. While no other thread
  runs, the counter keeps the value that was loaded, so the loop is one exchange.
\<close>

definition strong_cas_loop :: "nat \<Rightarrow> int \<Rightarrow> ref_heap \<Rightarrow> ref_heap chk" where
  "strong_cas_loop a cur rh =
     bindE (impl_get a rh) (\<lambda>i. Inr (impl_put a (i\<lparr>mStrong := wrap32 (cur + 1)\<rparr>) rh))"

text \<open>The value of \<open>curCount\<close> at the end of the branch that handles objects without strong references.\<close>

definition attemptIncStrong_revive :: "nat \<Rightarrow> int \<Rightarrow> ref_heap \<Rightarrow> (int option \<times> ref_heap) chk" where
  "attemptIncStrong_revive a curCount rh =
     bindE (impl_get a rh) (\<lambda>i.
     if mFlags i AND OBJECT_LIFETIME_MASK = OBJECT_LIFETIME_STRONG then
       if curCount \<le> 0 then bindE (decWeak a rh) (\<lambda>rh. Inr (None, rh))
       else bindE (strong_cas_loop a curCount rh) (\<lambda>rh. Inr (Some curCount, rh))
     else
       bindE (base_check a rh) (\<lambda>_.
       if \<not> onIncStrongAttempted FIRST_INC_STRONG then bindE (decWeak a rh) (\<lambda>rh. Inr (None, rh))
       else
         bindE (strong_fetch_add a 1 rh) (\<lambda>(curCount, rh).
         if curCount \<noteq> 0 \<and> curCount \<noteq> INITIAL_STRONG_VALUE
         then bindE (base_check a rh) (\<lambda>_. Inr (Some curCount, ref_note (OnLastStrongRef a) rh))
         else Inr (Some curCount, rh))))"

definition attemptIncStrong :: "nat \<Rightarrow> ref_heap \<Rightarrow> (bool \<times> ref_heap) chk" where
  "attemptIncStrong a rh =
     bindE (incWeak a rh) (\<lambda>rh.
     bindE (impl_get a rh) (\<lambda>i.
     let curCount = mStrong i in
     bindE (if curCount > 0 \<and> curCount \<noteq> INITIAL_STRONG_VALUE
            then bindE (strong_cas_loop a curCount rh) (\<lambda>rh. Inr (Some curCount, rh))
            else attemptIncStrong_revive a curCount rh) (\<lambda>(cur, rh).
     case cur of
       None \<Rightarrow> Inr (False, rh)
     | Some curCount \<Rightarrow>
         if curCount = INITIAL_STRONG_VALUE
         then bindE (strong_fetch_add a (- INITIAL_STRONG_VALUE) rh) (\<lambda>(_, rh). Inr (True, rh))
         else Inr (True, rh))))"

definition attemptIncWeak :: "nat \<Rightarrow> ref_heap \<Rightarrow> (bool \<times> ref_heap) chk" where
  "attemptIncWeak a rh =
     bindE (impl_get a rh) (\<lambda>i.
     let curCount = mWeak i
     in if curCount > 0
        then Inr (True, impl_put a (i\<lparr>mWeak := wrap32 (curCount + 1)\<rparr>) rh)
        else Inr (False, rh))"

section \<open>Strong and weak pointers\<close>

text \<open>
  A \<open>sp\<close> is its \<open>m_ptr\<close>. A \<open>wp\<close> has two fields, but \<open>m_refs\<close> is read only where \<open>m_ptr\<close> is not
  null, and then belongs to the same object.
\<close>

definition sp_new :: "nat option \<Rightarrow> ref_heap \<Rightarrow> (nat option \<times> ref_heap) chk" where
  "sp_new other rh =
     (case other of
        None \<Rightarrow> Inr (None, rh)
      | Some a \<Rightarrow> bindE (incStrong a rh) (\<lambda>rh. Inr (Some a, rh)))"

definition sp_delete :: "nat option \<Rightarrow> ref_heap \<Rightarrow> ref_heap chk" where
  "sp_delete p rh = (case p of None \<Rightarrow> Inr rh | Some a \<Rightarrow> decStrong a rh)"

definition sp_clear :: "nat option \<Rightarrow> ref_heap \<Rightarrow> (nat option \<times> ref_heap) chk" where
  "sp_clear p rh = bindE (sp_delete p rh) (\<lambda>rh. Inr (None, rh))"

definition sp_assign :: "nat option \<Rightarrow> nat option \<Rightarrow> ref_heap \<Rightarrow> (nat option \<times> ref_heap) chk" where
  "sp_assign p other rh =
     bindE (case other of None \<Rightarrow> Inr rh | Some a \<Rightarrow> incStrong a rh) (\<lambda>rh.
     bindE (case p of None \<Rightarrow> Inr rh | Some a \<Rightarrow> decStrong a rh) (\<lambda>rh.
     Inr (other, rh)))"

definition wp_new :: "nat option \<Rightarrow> ref_heap \<Rightarrow> (nat option \<times> ref_heap) chk" where
  "wp_new other rh =
     (case other of
        None \<Rightarrow> Inr (None, rh)
      | Some a \<Rightarrow> bindE (creatWeak a rh) (\<lambda>rh. Inr (Some a, rh)))"

definition wp_copy :: "nat option \<Rightarrow> ref_heap \<Rightarrow> (nat option \<times> ref_heap) chk" where
  "wp_copy other rh =
     (case other of
        None \<Rightarrow> Inr (None, rh)
      | Some a \<Rightarrow> bindE (incWeak a rh) (\<lambda>rh. Inr (Some a, rh)))"

definition wp_delete :: "nat option \<Rightarrow> ref_heap \<Rightarrow> ref_heap chk" where
  "wp_delete p rh = (case p of None \<Rightarrow> Inr rh | Some a \<Rightarrow> decWeak a rh)"

definition wp_promote :: "nat option \<Rightarrow> ref_heap \<Rightarrow> (nat option \<times> ref_heap) chk" where
  "wp_promote p rh =
     (case p of
        None \<Rightarrow> Inr (None, rh)
      | Some a \<Rightarrow> bindE (attemptIncStrong a rh) (\<lambda>(ok, rh). Inr (if ok then Some a else None, rh)))"

section \<open>LightRefBase\<close>

text \<open>One counter inside the object: \<open>None\<close> when the object is deleted.\<close>

definition Light_incStrong :: "int option \<Rightarrow> int option chk" where
  "Light_incStrong obj = bindE (derefE UseAfterFree obj) (\<lambda>mCount. Inr (Some (wrap32 (mCount + 1))))"

definition Light_decStrong :: "int option \<Rightarrow> int option chk" where
  "Light_decStrong obj =
     bindE (derefE UseAfterFree obj) (\<lambda>mCount.
     if mCount = 1 then Inr None else Inr (Some (wrap32 (mCount - 1))))"

end
