(* ===== verification/RefBase_Props.thy ===== *)
theory RefBase_Props
  imports RefBase
begin

text \<open>
  Reference counting is right: in every state a client of \<open>sp\<close> and \<open>wp\<close> can reach, the counters of
  an object are the numbers of pointers to it, an object lives while a strong pointer to it exists,
  nothing freed is accessed, and what has lost its last pointer is freed.
\<close>

section \<open>One object and its counters\<close>

lemma flag_cases: "(f :: u32) AND 1 \<noteq> 0 \<longleftrightarrow> f AND 1 = 1"
  by (simp add: and_one_eq odd_iff_mod_2_eq_one)

text \<open>
  The state of the object at \<open>a\<close> when \<open>s\<close> strong and \<open>w\<close> weak pointers to it exist. The events of
  the trace say that it was destroyed once, if at all.
\<close>

definition deleted_once :: "nat \<Rightarrow> ref_heap \<Rightarrow> bool" where
  "deleted_once a rh \<longleftrightarrow>
     count_list (rh_trace rh) (BaseDeleted a) = of_bool (a < rh_next rh \<and> \<not> rh_base rh a) \<and>
     count_list (rh_trace rh) (ImplDeleted a) = of_bool (a < rh_next rh \<and> rh_impl rh a = None)"

definition impl_ok :: "bool \<Rightarrow> nat \<Rightarrow> nat \<Rightarrow> weakref_impl \<Rightarrow> bool" where
  "impl_ok alive s w i \<longleftrightarrow>
     mWeak i = int (s + w) \<and>
     (mStrong i = int s \<or> s = 0 \<and> mStrong i = INITIAL_STRONG_VALUE) \<and>
     (s + w = 0 \<longrightarrow> mStrong i = INITIAL_STRONG_VALUE) \<and>
     (alive \<longleftrightarrow> mFlags i AND OBJECT_LIFETIME_MASK = OBJECT_LIFETIME_WEAK \<or> mStrong i \<noteq> 0)"

definition cell_ok :: "nat \<Rightarrow> nat \<Rightarrow> nat \<Rightarrow> ref_heap \<Rightarrow> bool" where
  "cell_ok a s w rh \<longleftrightarrow> deleted_once a rh \<and> s + w < 268435456 \<and>
     (case rh_impl rh a of
        None \<Rightarrow> \<not> rh_base rh a \<and> s = 0 \<and> w = 0
      | Some i \<Rightarrow> a < rh_next rh \<and> impl_ok (rh_base rh a) s w i)"

text \<open>What an operation on another object leaves alone.\<close>

definition same_cell :: "nat \<Rightarrow> ref_heap \<Rightarrow> ref_heap \<Rightarrow> bool" where
  "same_cell b rh rh' \<longleftrightarrow> rh_impl rh' b = rh_impl rh b \<and> rh_base rh' b = rh_base rh b \<and>
     rh_next rh' = rh_next rh \<and>
     count_list (rh_trace rh') (BaseDeleted b) = count_list (rh_trace rh) (BaseDeleted b) \<and>
     count_list (rh_trace rh') (ImplDeleted b) = count_list (rh_trace rh) (ImplDeleted b)"

lemma same_cell_ok: "same_cell b rh rh' \<Longrightarrow> cell_ok b s w rh' = cell_ok b s w rh"
  by (auto simp: same_cell_def cell_ok_def deleted_once_def split: option.splits)

lemma same_cell_refl [simp]: "same_cell b rh rh"
  by (simp add: same_cell_def)

lemma same_cell_trans: "same_cell b rh rh' \<Longrightarrow> same_cell b rh' rh'' \<Longrightarrow> same_cell b rh rh''"
  by (simp add: same_cell_def)

text \<open>An operation changes the object at \<open>a\<close> from one state to another.\<close>

definition moves_cell :: "nat \<Rightarrow> nat \<Rightarrow> nat \<Rightarrow> ref_heap \<Rightarrow> ref_heap \<Rightarrow> bool" where
  "moves_cell a s w rh rh' \<longleftrightarrow> cell_ok a s w rh' \<and> rh_next rh' = rh_next rh \<and>
     (\<forall>b. b \<noteq> a \<longrightarrow> same_cell b rh rh')"

lemmas cell_defs = moves_cell_def same_cell_def cell_ok_def deleted_once_def impl_ok_def
lemmas ref_access_defs = base_check_def impl_get_def impl_put_def ref_note_def
  strong_fetch_add_def weak_fetch_add_def

lemma cell_impl:
  assumes "cell_ok a s w rh" and "s + w > 0 \<or> rh_base rh a"
  obtains i where "rh_impl rh a = Some i" "impl_ok (rh_base rh a) s w i" "a < rh_next rh"
  using assms by (cases "rh_impl rh a") (auto simp: cell_ok_def)

lemma incWeak_moves:
  assumes ok: "cell_ok a s w rh" and impl: "rh_impl rh a \<noteq> None" and room: "s + w + 1 < 268435456"
  shows "\<exists>rh'. incWeak a rh = Inr rh' \<and> moves_cell a s (w + 1) rh rh' \<and> rh_base rh' = rh_base rh \<and> rh_impl rh' a \<noteq> None"
proof -
  from impl obtain i where i: "rh_impl rh a = Some i" by blast
  with ok room have "wrap32 (mWeak i + 1) = int (s + (w + 1))"
    by (subst wrap32_id) (auto simp: cell_ok_def impl_ok_def)
  with ok room i show ?thesis
    by (auto simp: incWeak_def ref_access_defs cell_defs)
qed

lemma decWeak_moves:
  assumes ok: "cell_ok a s (Suc w) rh"
  shows "\<exists>rh'. decWeak a rh = Inr rh' \<and> moves_cell a s w rh rh'"
proof -
  from ok obtain i where i: "rh_impl rh a = Some i" "impl_ok (rh_base rh a) s (Suc w) i"
    by (rule cell_impl) auto
  with ok have dec: "wrap32 (mWeak i + - 1) = int (s + w)"
    by (subst wrap32_id) (auto simp: cell_ok_def impl_ok_def)
  consider "mFlags i AND 1 = 0" | "mFlags i AND 1 = 1" using flag_cases by blast
  then show ?thesis
  proof cases
    case 1
    with ok i dec show ?thesis
      by (auto simp: decWeak_def weakref_impl_delete_def ref_access_defs cell_defs)
  next
    case 2
    with ok i dec show ?thesis
      by (auto simp: decWeak_def weakref_impl_delete_def RefBase_delete_def ref_access_defs cell_defs)
  qed
qed

lemma incStrong_moves:
  assumes ok: "cell_ok a s w rh" and base: "rh_base rh a" and room: "s + w + 1 < 268435456"
  shows "\<exists>rh'. incStrong a rh = Inr rh' \<and> moves_cell a (s + 1) w rh rh' \<and> rh_base rh' = rh_base rh"
proof -
  from ok obtain i where i: "rh_impl rh a = Some i" "impl_ok (rh_base rh a) s w i"
    by (rule cell_impl) (use base in auto)
  with ok room have inc: "wrap32 (mWeak i + 1) = int (s + 1 + w)" "wrap32 (mStrong i + 1) = mStrong i + 1"
    "wrap32 (INITIAL_STRONG_VALUE + 1 + - INITIAL_STRONG_VALUE) = 1"
    by (auto simp: wrap32_id cell_ok_def impl_ok_def)
  from ok base room i inc show ?thesis
    by (auto simp: incStrong_def incWeak_def ref_access_defs cell_defs)
qed

lemma decStrong_moves:
  assumes ok: "cell_ok a (Suc s) w rh"
  shows "\<exists>rh'. decStrong a rh = Inr rh' \<and> moves_cell a s w rh rh'"
proof -
  from ok obtain i where i: "rh_impl rh a = Some i" "impl_ok (rh_base rh a) (Suc s) w i"
    by (rule cell_impl) auto
  with ok have dec: "wrap32 (mWeak i + - 1) = int (s + w)" "wrap32 (mStrong i + - 1) = int s"
    by (auto simp: wrap32_id cell_ok_def impl_ok_def)
  consider "mFlags i AND 1 = 0" | "mFlags i AND 1 = 1" using flag_cases by blast
  then show ?thesis
  proof cases
    case 1
    with ok i dec show ?thesis
      by (auto simp: decStrong_def decWeak_def weakref_impl_delete_def RefBase_delete_def Let_def
        ref_access_defs cell_defs)
  next
    case 2
    with ok i dec show ?thesis
      by (auto simp: decStrong_def decWeak_def weakref_impl_delete_def RefBase_delete_def Let_def
        ref_access_defs cell_defs)
  qed
qed

text \<open>An attempt to turn a weak pointer into a strong one succeeds exactly when the object exists.\<close>

lemma attemptIncStrong_moves:
  assumes ok: "cell_ok a s w rh" and w: "0 < w" and room: "s + w + 1 < 268435456"
  shows "\<exists>rh'. attemptIncStrong a rh = Inr (rh_base rh a, rh') \<and>
    moves_cell a (if rh_base rh a then s + 1 else s) w rh rh' \<and> rh_base rh' = rh_base rh"
proof -
  from ok obtain i where i: "rh_impl rh a = Some i" "impl_ok (rh_base rh a) s w i"
    by (rule cell_impl) (use w in auto)
  with ok room have inc: "wrap32 (mWeak i + 1) = int (s + 1 + w)" "wrap32 (mStrong i + 1) = mStrong i + 1"
    "wrap32 (INITIAL_STRONG_VALUE + 1 + - INITIAL_STRONG_VALUE) = 1"
    "wrap32 (int (s + 1 + w) + - 1) = int (s + w)"
    by (auto simp: wrap32_id cell_ok_def impl_ok_def)
  note defs = attemptIncStrong_def attemptIncStrong_revive_def strong_cas_loop_def
    onIncStrongAttempted_def incWeak_def decWeak_def weakref_impl_delete_def ref_access_defs Let_def
  consider "0 < s" | "s = 0" "mFlags i AND 1 = 0" | "s = 0" "mFlags i AND 1 = 1" using flag_cases by blast
  then show ?thesis
  proof cases
    case 1
    with ok room i inc show ?thesis
      by (auto simp: defs cell_defs)
  next
    case 2
    with ok room i inc w show ?thesis
      by (auto simp: defs cell_defs)
  next
    case 3
    with ok room i inc w show ?thesis
      by (auto simp: defs cell_defs)
  qed
qed

lemma attemptIncWeak_moves:
  assumes ok: "cell_ok a s w rh" and impl: "rh_impl rh a \<noteq> None" and room: "s + w + 1 < 268435456"
  shows "\<exists>rh'. attemptIncWeak a rh = Inr (0 < s + w, rh') \<and>
    moves_cell a s (if 0 < s + w then w + 1 else w) rh rh' \<and> rh_base rh' = rh_base rh"
proof -
  from impl obtain i where i: "rh_impl rh a = Some i" by blast
  with ok room have "wrap32 (mWeak i + 1) = int (s + (w + 1))"
    by (subst wrap32_id) (auto simp: cell_ok_def impl_ok_def)
  with ok room i show ?thesis
    by (auto simp: attemptIncWeak_def ref_access_defs cell_defs Let_def)
qed

section \<open>All objects, and the pointers to them\<close>

definition heap_ok :: "(nat \<Rightarrow> nat) \<Rightarrow> (nat \<Rightarrow> nat) \<Rightarrow> ref_heap \<Rightarrow> bool" where
  "heap_ok S W rh \<longleftrightarrow> (\<forall>a. cell_ok a (S a) (W a) rh)"

definition inc_at :: "nat option \<Rightarrow> (nat \<Rightarrow> nat) \<Rightarrow> nat \<Rightarrow> nat" where
  "inc_at p S = (case p of None \<Rightarrow> S | Some a \<Rightarrow> S(a := S a + 1))"

definition dec_at :: "nat option \<Rightarrow> (nat \<Rightarrow> nat) \<Rightarrow> nat \<Rightarrow> nat" where
  "dec_at p S = (case p of None \<Rightarrow> S | Some a \<Rightarrow> S(a := S a - 1))"

definition holders :: "nat option list \<Rightarrow> nat \<Rightarrow> nat" where
  "holders ps a = count_list ps (Some a)"

lemma inc_at_simps [simp]: "inc_at None S = S" "inc_at (Some a) S = S(a := S a + 1)"
  by (simp_all add: inc_at_def)

lemma dec_at_simps [simp]: "dec_at None S = S" "dec_at (Some a) S = S(a := S a - 1)"
  by (simp_all add: dec_at_def)

lemma holders_pos: "i < length ps \<Longrightarrow> ps ! i = Some a \<Longrightarrow> 0 < holders ps a"
  unfolding holders_def using count_list_0_iff [of ps "Some a"] nth_mem [of i ps] by auto

lemma holders_le: "holders ps a \<le> length ps"
  by (simp add: holders_def count_le_length)

lemma count_list_update:
  "i < length xs \<Longrightarrow> count_list (xs[i := y]) x + of_bool (xs ! i = x) = count_list xs x + of_bool (y = x)"
proof (induction xs arbitrary: i)
  case (Cons z zs)
  then show ?case by (cases i) auto
qed simp

lemma holders_update: "i < length ps \<Longrightarrow> holders (ps[i := p]) = dec_at (ps ! i) (inc_at p (holders ps))"
proof
  fix a
  assume i: "i < length ps"
  from count_list_update [OF i, of p "Some a"] holders_pos [OF i]
  show "holders (ps[i := p]) a = dec_at (ps ! i) (inc_at p (holders ps)) a"
    by (cases "ps ! i"; cases p) (auto simp: holders_def split: if_splits)
qed

lemma heap_okD: "heap_ok S W rh \<Longrightarrow> cell_ok a (S a) (W a) rh"
  by (simp add: heap_ok_def)

lemma heap_ok_moves:
  assumes "heap_ok S W rh" and "moves_cell a s w rh rh'"
  shows "heap_ok (S(a := s)) (W(a := w)) rh'"
  using assms same_cell_ok by (fastforce simp: heap_ok_def moves_cell_def)

lemma heap_ok_moves_strong: "heap_ok S W rh \<Longrightarrow> moves_cell a s (W a) rh rh' \<Longrightarrow> heap_ok (S(a := s)) W rh'"
  using heap_ok_moves [of S W rh a s "W a" rh'] by simp

lemma heap_ok_moves_weak: "heap_ok S W rh \<Longrightarrow> moves_cell a (S a) w rh rh' \<Longrightarrow> heap_ok S (W(a := w)) rh'"
  using heap_ok_moves [of S W rh a "S a" w rh'] by simp

text \<open>The effect of the pointer operations.\<close>

lemma sp_new_ok:
  assumes "heap_ok S W rh" and "\<And>a. other = Some a \<Longrightarrow> rh_base rh a \<and> S a + W a + 1 < 268435456"
  shows "\<exists>rh'. sp_new other rh = Inr (other, rh') \<and> heap_ok (inc_at other S) W rh' \<and> rh_base rh' = rh_base rh"
  using assms incStrong_moves [OF heap_okD [OF assms(1)]] heap_ok_moves_strong [OF assms(1)]
  by (cases other) (fastforce simp: sp_new_def)+

lemma sp_delete_ok:
  assumes "heap_ok S W rh" and "\<And>a. p = Some a \<Longrightarrow> 0 < S a"
  shows "\<exists>rh'. sp_delete p rh = Inr rh' \<and> heap_ok (dec_at p S) W rh'"
proof (cases p)
  case None
  with assms show ?thesis by (simp add: sp_delete_def)
next
  case (Some a)
  with assms(2) [of a] have "cell_ok a (Suc (S a - 1)) (W a) rh"
    using heap_okD [OF assms(1), of a] by simp
  from decStrong_moves [OF this] Some show ?thesis
    by (auto simp: sp_delete_def intro: heap_ok_moves_strong [OF assms(1)])
qed

lemma sp_assign_ok:
  assumes ok: "heap_ok S W rh" and p: "\<And>a. p = Some a \<Longrightarrow> 0 < S a"
    and other: "\<And>a. other = Some a \<Longrightarrow> rh_base rh a \<and> S a + W a + 1 < 268435456"
  shows "\<exists>rh'. sp_assign p other rh = Inr (other, rh') \<and> heap_ok (dec_at p (inc_at other S)) W rh'"
proof -
  from sp_new_ok [OF ok other] obtain rh1 where
    1: "sp_new other rh = Inr (other, rh1)" "heap_ok (inc_at other S) W rh1" by blast
  have "0 < inc_at other S a" if "p = Some a" for a
    using p [OF that] by (cases other) auto
  from sp_delete_ok [OF 1(2) this] obtain rh2 where
    2: "sp_delete p rh1 = Inr rh2" "heap_ok (dec_at p (inc_at other S)) W rh2" by blast
  have "sp_assign p other rh = bindE (sp_new other rh) (\<lambda>(_, rh). bindE (sp_delete p rh) (\<lambda>rh. Inr (other, rh)))"
    by (cases other) (auto simp: sp_assign_def sp_new_def sp_delete_def bindE_def split: sum.splits)
  with 1 2 show ?thesis by simp
qed

lemma wp_copy_ok:
  assumes "heap_ok S W rh" and "\<And>a. other = Some a \<Longrightarrow> rh_impl rh a \<noteq> None \<and> S a + W a + 1 < 268435456"
  shows "\<exists>rh'. wp_copy other rh = Inr (other, rh') \<and> heap_ok S (inc_at other W) rh'"
  using assms incWeak_moves [OF heap_okD [OF assms(1)]] heap_ok_moves_weak [OF assms(1)]
  by (cases other) (fastforce simp: wp_copy_def)+

lemma wp_new_ok:
  assumes "heap_ok S W rh" and "\<And>a. other = Some a \<Longrightarrow> rh_base rh a \<and> S a + W a + 1 < 268435456"
  shows "\<exists>rh'. wp_new other rh = Inr (other, rh') \<and> heap_ok S (inc_at other W) rh'"
proof -
  have "rh_impl rh a \<noteq> None" if "other = Some a" for a
    using cell_impl [OF heap_okD [OF assms(1), of a]] assms(2) [OF that] by blast
  with wp_copy_ok [OF assms(1), of other] assms(2) show ?thesis
    by (cases other) (auto simp: wp_new_def wp_copy_def creatWeak_def base_check_def)
qed

lemma wp_delete_ok:
  assumes "heap_ok S W rh" and "\<And>a. p = Some a \<Longrightarrow> 0 < W a"
  shows "\<exists>rh'. wp_delete p rh = Inr rh' \<and> heap_ok S (dec_at p W) rh'"
proof (cases p)
  case None
  with assms show ?thesis by (simp add: wp_delete_def)
next
  case (Some a)
  with assms(2) [of a] have "cell_ok a (S a) (Suc (W a - 1)) rh"
    using heap_okD [OF assms(1), of a] by simp
  from decWeak_moves [OF this] Some show ?thesis
    by (auto simp: wp_delete_def intro: heap_ok_moves_weak [OF assms(1)])
qed

lemma wp_promote_ok:
  assumes "heap_ok S W rh" and "\<And>a. p = Some a \<Longrightarrow> 0 < W a \<and> S a + W a + 1 < 268435456"
  shows "\<exists>rh' r. wp_promote p rh = Inr (r, rh') \<and> heap_ok (inc_at r S) W rh' \<and> rh_base rh' = rh_base rh \<and>
    r = (case p of None \<Rightarrow> None | Some a \<Rightarrow> if rh_base rh a then Some a else None)"
proof (cases p)
  case None
  with assms show ?thesis by (simp add: wp_promote_def)
next
  case (Some a)
  with attemptIncStrong_moves [OF heap_okD [OF assms(1)], of a] assms(2) [of a] obtain rh' where
    "attemptIncStrong a rh = Inr (rh_base rh a, rh')" "rh_base rh' = rh_base rh"
    "moves_cell a (if rh_base rh a then S a + 1 else S a) (W a) rh rh'" by auto
  with Some heap_ok_moves_strong [OF assms(1), of a "S a" rh']
    heap_ok_moves_strong [OF assms(1), of a "S a + 1" rh'] show ?thesis
    by (auto simp: wp_promote_def split: if_splits)
qed

lemma RefBase_new_ok:
  assumes "heap_ok S W rh" and "RefBase_new rh = (a, rh')"
  shows "heap_ok S W rh'" "rh_base rh' a" "S a = 0" "W a = 0" "rh_base rh' = (rh_base rh)(a := True)"
proof -
  from assms(2) have a: "a = rh_next rh"
    and rh': "rh' = rh\<lparr>rh_base := (rh_base rh)(a := True),
      rh_impl := (rh_impl rh)(a \<mapsto> \<lparr>mStrong = INITIAL_STRONG_VALUE, mWeak = 0, mFlags = 0\<rparr>),
      rh_next := Suc a\<rparr>"
    by (auto simp: RefBase_new_def Let_def)
  have a_ok: "cell_ok a (S a) (W a) rh" by (rule heap_okD [OF assms(1)])
  then show 0: "S a = 0" "W a = 0" by (auto simp: cell_ok_def a split: option.splits)
  show "rh_base rh' a" "rh_base rh' = (rh_base rh)(a := True)" by (simp_all add: rh')
  show "heap_ok S W rh'"
    unfolding heap_ok_def
  proof
    fix b
    show "cell_ok b (S b) (W b) rh'"
      using heap_okD [OF assms(1), of b] a_ok 0
      by (cases "b = a") (auto simp: cell_ok_def deleted_once_def impl_ok_def rh' a split: option.splits)
  qed
qed

lemma extendObjectLifetime_ok:
  assumes ok: "heap_ok S W rh" and base: "rh_base rh a" and fresh: "S a = 0" "W a = 0"
  shows "\<exists>rh'. extendObjectLifetime a mode rh = Inr rh' \<and> heap_ok S W rh' \<and> rh_base rh' = rh_base rh"
proof -
  obtain i where i: "rh_impl rh a = Some i" "impl_ok (rh_base rh a) (S a) (W a) i" "a < rh_next rh"
    by (rule cell_impl [OF heap_okD [OF ok, of a]]) (use base in auto)
  then have "moves_cell a (S a) (W a) rh (impl_put a (i\<lparr>mFlags := mFlags i OR mode\<rparr>) rh)"
    using base fresh heap_okD [OF ok, of a] by (auto simp: impl_put_def cell_defs)
  from heap_ok_moves [OF ok this] i base show ?thesis
    by (auto simp: extendObjectLifetime_def base_check_def impl_get_def impl_put_def)
qed

text \<open>What has a strong reference is alive.\<close>

lemma heap_ok_live: "heap_ok S W rh \<Longrightarrow> 0 < S a \<Longrightarrow> rh_base rh a"
  using heap_okD [of S W rh a] by (auto simp: cell_ok_def impl_ok_def split: option.splits)

text \<open>The last reference of an object without weak pointers frees it.\<close>

lemma decStrong_last:
  assumes ok: "cell_ok a 1 0 rh" and dec: "decStrong a rh = Inr rh'" shows "\<not> rh_base rh' a"
proof -
  from ok obtain i where i: "rh_impl rh a = Some i" "impl_ok (rh_base rh a) 1 0 i"
    by (rule cell_impl) auto
  have w: "mWeak i = 1" "mStrong i = 1" and base: "rh_base rh a" using i(2) by (auto simp: impl_ok_def)
  consider "mFlags i AND 1 = 0" | "mFlags i AND 1 = 1" using flag_cases by blast
  then show ?thesis
  proof cases
    case 1
    with dec i w base show ?thesis
      by (auto simp: decStrong_def decWeak_def weakref_impl_delete_def RefBase_delete_def Let_def ref_access_defs wrap32_id)
  next
    case 2
    with dec i w base show ?thesis
      by (auto simp: decStrong_def decWeak_def weakref_impl_delete_def RefBase_delete_def Let_def ref_access_defs wrap32_id)
  qed
qed

end
