(* ===== verification/RefBase_Client.thy ===== *)
theory RefBase_Client
  imports RefBase_Props
begin

text \<open>
  Programs that use \<open>sp\<close> and \<open>wp\<close>: a table of pointer variables of each kind and the operations of
  \<open>StrongPointer.h\<close> and \<open>RefBase.h\<close> on them, in any order, with the properties of every state such a
  program reaches.
\<close>

record ref_client =
  rc_heap :: ref_heap
  rc_sps :: "nat option list"
  rc_wps :: "nat option list"

text \<open>
  \<open>NewObject\<close> is \<open>sp[i] = new T\<close>, where the constructor of \<open>T\<close> calls \<open>extendObjectLifetime(mode)\<close>.
  \<open>SpRaw\<close> and \<open>WpRaw\<close> make a pointer from a plain pointer to an object that exists. A \<open>wp\<close> has no
  assignment of its own, so a variable is constructed when it is not in use. \<open>Promote\<close> is
  \<open>sp[i] = wp[j].promote()\<close>, whose result is a temporary that dies at the end of the statement.
\<close>

datatype ref_op =
    NewObject u32 nat
  | SpRaw nat nat
  | SpCopy nat nat
  | SpClear nat
  | WpRaw nat nat
  | WpFromSp nat nat
  | WpCopy nat nat
  | WpDelete nat
  | Promote nat nat

definition set_sp :: "nat \<Rightarrow> ref_client \<Rightarrow> nat option \<times> ref_heap \<Rightarrow> ref_client chk" where
  "set_sp i st = (\<lambda>(p, rh). Inr (st\<lparr>rc_heap := rh, rc_sps := (rc_sps st)[i := p]\<rparr>))"

definition set_wp :: "nat \<Rightarrow> ref_client \<Rightarrow> nat option \<times> ref_heap \<Rightarrow> ref_client chk" where
  "set_wp i st = (\<lambda>(p, rh). Inr (st\<lparr>rc_heap := rh, rc_wps := (rc_wps st)[i := p]\<rparr>))"

fun ref_run :: "ref_op \<Rightarrow> ref_client \<Rightarrow> ref_client chk" where
  "ref_run (NewObject mode i) st =
     (case RefBase_new (rc_heap st) of (a, rh) \<Rightarrow>
      bindE (extendObjectLifetime a mode rh) (\<lambda>rh.
      bindE (sp_assign (rc_sps st ! i) (Some a) rh) (set_sp i st)))"
| "ref_run (SpRaw i a) st = bindE (sp_assign (rc_sps st ! i) (Some a) (rc_heap st)) (set_sp i st)"
| "ref_run (SpCopy i j) st = bindE (sp_assign (rc_sps st ! i) (rc_sps st ! j) (rc_heap st)) (set_sp i st)"
| "ref_run (SpClear i) st = bindE (sp_clear (rc_sps st ! i) (rc_heap st)) (set_sp i st)"
| "ref_run (WpRaw i a) st = bindE (wp_new (Some a) (rc_heap st)) (set_wp i st)"
| "ref_run (WpFromSp i j) st = bindE (wp_new (rc_sps st ! j) (rc_heap st)) (set_wp i st)"
| "ref_run (WpCopy i j) st = bindE (wp_copy (rc_wps st ! j) (rc_heap st)) (set_wp i st)"
| "ref_run (WpDelete i) st = bindE (wp_delete (rc_wps st ! i) (rc_heap st)) (\<lambda>rh. set_wp i st (None, rh))"
| "ref_run (Promote i j) st =
     bindE (wp_promote (rc_wps st ! j) (rc_heap st)) (\<lambda>(r, rh).
     bindE (sp_assign (rc_sps st ! i) r rh) (\<lambda>(p, rh).
     bindE (sp_delete r rh) (\<lambda>rh. set_sp i st (p, rh))))"

text \<open>What a program must observe: the variables exist, and a plain pointer is to a living object.\<close>

fun ref_may :: "ref_op \<Rightarrow> ref_client \<Rightarrow> bool" where
  "ref_may (NewObject mode i) st = (i < length (rc_sps st))"
| "ref_may (SpRaw i a) st = (i < length (rc_sps st) \<and> rh_base (rc_heap st) a)"
| "ref_may (SpCopy i j) st = (i < length (rc_sps st) \<and> j < length (rc_sps st))"
| "ref_may (SpClear i) st = (i < length (rc_sps st))"
| "ref_may (WpRaw i a) st =
     (i < length (rc_wps st) \<and> rc_wps st ! i = None \<and> rh_base (rc_heap st) a)"
| "ref_may (WpFromSp i j) st =
     (i < length (rc_wps st) \<and> rc_wps st ! i = None \<and> j < length (rc_sps st))"
| "ref_may (WpCopy i j) st =
     (i < length (rc_wps st) \<and> rc_wps st ! i = None \<and> j < length (rc_wps st))"
| "ref_may (WpDelete i) st = (i < length (rc_wps st))"
| "ref_may (Promote i j) st = (i < length (rc_sps st) \<and> j < length (rc_wps st))"

text \<open>A program starts with null pointers, fewer than the counters can count, and no objects.\<close>

definition ref_init :: "ref_client \<Rightarrow> bool" where
  "ref_init st \<longleftrightarrow> set (rc_sps st) \<subseteq> {None} \<and> set (rc_wps st) \<subseteq> {None} \<and>
     length (rc_sps st) + length (rc_wps st) + 2 < 268435456 \<and>
     rc_heap st = \<lparr>rh_base = (\<lambda>_. False), rh_impl = (\<lambda>_. None), rh_next = 0, rh_trace = []\<rparr>"

inductive ref_step :: "ref_client \<Rightarrow> ref_client \<Rightarrow> bool" where
  ref_stepI: "ref_may op st \<Longrightarrow> ref_run op st = Inr st' \<Longrightarrow> ref_step st st'"

inductive_cases ref_stepE: "ref_step st st'"

definition client_ok :: "ref_client \<Rightarrow> bool" where
  "client_ok st \<longleftrightarrow> length (rc_sps st) + length (rc_wps st) + 2 < 268435456 \<and>
     heap_ok (holders (rc_sps st)) (holders (rc_wps st)) (rc_heap st)"

lemma client_room:
  "client_ok st \<Longrightarrow> holders (rc_sps st) a + holders (rc_wps st) a + 2 < 268435456"
  using holders_le [of "rc_sps st" a] holders_le [of "rc_wps st" a] by (simp add: client_ok_def)

lemma client_sp_base:
  assumes "client_ok st" "i < length (rc_sps st)" "rc_sps st ! i = Some a"
  shows "rh_base (rc_heap st) a" "rh_impl (rc_heap st) a \<noteq> None"
  using assms holders_pos [OF assms(2,3)] heap_okD [of _ _ "rc_heap st" a]
  by (fastforce simp: client_ok_def cell_ok_def impl_ok_def split: option.splits)+

lemma client_wp_impl:
  assumes "client_ok st" "i < length (rc_wps st)" "rc_wps st ! i = Some a"
  shows "rh_impl (rc_heap st) a \<noteq> None"
  using assms holders_pos [OF assms(2,3)] heap_okD [of _ _ "rc_heap st" a]
  by (fastforce simp: client_ok_def cell_ok_def impl_ok_def split: option.splits)

text \<open>Storing the result of an operation in a variable.\<close>

lemma set_sp_ok:
  assumes "client_ok st" "i < length (rc_sps st)"
    and "heap_ok (dec_at (rc_sps st ! i) (inc_at p (holders (rc_sps st)))) (holders (rc_wps st)) rh"
  shows "\<exists>st'. set_sp i st (p, rh) = Inr st' \<and> client_ok st'"
  using assms by (simp add: set_sp_def client_ok_def holders_update)

lemma set_wp_ok:
  assumes "client_ok st" "i < length (rc_wps st)"
    and "heap_ok (holders (rc_sps st)) (dec_at (rc_wps st ! i) (inc_at p (holders (rc_wps st)))) rh"
  shows "\<exists>st'. set_wp i st (p, rh) = Inr st' \<and> client_ok st'"
  using assms by (simp add: set_wp_def client_ok_def holders_update)

lemma client_assign:
  assumes ok: "client_ok st" and i: "i < length (rc_sps st)"
    and heap: "heap_ok (holders (rc_sps st)) (holders (rc_wps st)) rh"
    and other: "\<And>a. other = Some a \<Longrightarrow> rh_base rh a"
  shows "\<exists>st'. bindE (sp_assign (rc_sps st ! i) other rh) (set_sp i st) = Inr st' \<and> client_ok st'"
proof -
  have room: "holders (rc_sps st) a + holders (rc_wps st) a + 1 < 268435456" for a
    using client_room [OF ok, of a] by simp
  have "\<exists>rh'. sp_assign (rc_sps st ! i) other rh = Inr (other, rh') \<and>
    heap_ok (dec_at (rc_sps st ! i) (inc_at other (holders (rc_sps st)))) (holders (rc_wps st)) rh'"
    by (rule sp_assign_ok [OF heap]) (use holders_pos [OF i] other room in auto)
  then show ?thesis using set_sp_ok [OF ok i, of other] by fastforce
qed

lemma client_heap: "client_ok st \<Longrightarrow> heap_ok (holders (rc_sps st)) (holders (rc_wps st)) (rc_heap st)"
  by (simp add: client_ok_def)

lemma client_room1:
  assumes "client_ok st"
  shows "holders (rc_sps st) a + holders (rc_wps st) a + 1 < 268435456"
  using client_room [OF assms, of a] by simp

text \<open>A weak pointer made by \<open>wp(T*)\<close> or copied is stored in a variable that was not in use.\<close>

lemma client_wp_store:
  assumes ok: "client_ok st" and i: "i < length (rc_wps st)" "rc_wps st ! i = None"
    and made: "\<exists>rh. m = Inr (other, rh) \<and> heap_ok (holders (rc_sps st)) (inc_at other (holders (rc_wps st))) rh"
  shows "\<exists>st'. bindE m (set_wp i st) = Inr st' \<and> client_ok st'"
  using made set_wp_ok [OF ok i(1), of other] i(2) by auto

lemma dec_inc_at: "dec_at r (dec_at p (inc_at r (inc_at r S))) = dec_at p (inc_at r S)"
  by (cases r; cases p) (auto simp: fun_eq_iff)

text \<open>Every operation a program may carry out runs to its end and keeps the counters right.\<close>

lemma client_promote:
  assumes ok: "client_ok st" and may: "ref_may (Promote i j) st"
  shows "\<exists>st'. ref_run (Promote i j) st = Inr st' \<and> client_ok st'"
proof -
  let ?S = "holders (rc_sps st)" and ?W = "holders (rc_wps st)"
  from may have i: "i < length (rc_sps st)" and j: "j < length (rc_wps st)" by simp_all
  have heap: "heap_ok ?S ?W (rc_heap st)" using ok by (simp add: client_ok_def)
  have "0 < ?W a \<and> ?S a + ?W a + 1 < 268435456" if "rc_wps st ! j = Some a" for a
    using holders_pos [OF j that] client_room1 [OF ok] by simp
  from wp_promote_ok [OF heap this] obtain r rh1 where pr: "wp_promote (rc_wps st ! j) (rc_heap st) = Inr (r, rh1)"
    and h1: "heap_ok (inc_at r ?S) ?W rh1" and base: "rh_base rh1 = rh_base (rc_heap st)"
    and r: "r = (case rc_wps st ! j of None \<Rightarrow> None | Some a \<Rightarrow> if rh_base (rc_heap st) a then Some a else None)"
    by blast
  have pos: "0 < inc_at r ?S a" if "rc_sps st ! i = Some a" for a
    using holders_pos [OF i that] by (cases r) auto
  have alive: "rh_base rh1 a \<and> inc_at r ?S a + ?W a + 1 < 268435456" if "r = Some a" for a
    using r that base client_room [OF ok, of a] by (auto split: option.splits if_splits)
  obtain rh2 where as: "sp_assign (rc_sps st ! i) r rh1 = Inr (r, rh2)"
    and h2: "heap_ok (dec_at (rc_sps st ! i) (inc_at r (inc_at r ?S))) ?W rh2"
    using sp_assign_ok [OF h1 pos alive] by blast
  have "0 < dec_at (rc_sps st ! i) (inc_at r (inc_at r ?S)) a" if "r = Some a" for a
    using that by (cases "rc_sps st ! i") auto
  from sp_delete_ok [OF h2 this] obtain rh3 where del: "sp_delete r rh2 = Inr rh3"
    and h3: "heap_ok (dec_at r (dec_at (rc_sps st ! i) (inc_at r (inc_at r ?S)))) ?W rh3" by blast
  with h3 set_sp_ok [OF ok i, of r rh3] show ?thesis by (simp add: pr as del dec_inc_at)
qed

lemma client_run:
  assumes ok: "client_ok st" and may: "ref_may op st"
  shows "\<exists>st'. ref_run op st = Inr st' \<and> client_ok st'"
proof (cases op)
  case (NewObject mode i)
  with may have i: "i < length (rc_sps st)" by simp
  have heap: "heap_ok (holders (rc_sps st)) (holders (rc_wps st)) (rc_heap st)"
    using ok by (simp add: client_ok_def)
  obtain a rh1 where new: "RefBase_new (rc_heap st) = (a, rh1)" by fastforce
  note n = RefBase_new_ok [OF heap new]
  from extendObjectLifetime_ok [OF n(1,2,3,4), of mode] obtain rh2 where
    ext: "extendObjectLifetime a mode rh1 = Inr rh2"
    "heap_ok (holders (rc_sps st)) (holders (rc_wps st)) rh2" "rh_base rh2 a" using n(2) by auto
  from client_assign [OF ok i ext(2), of "Some a"] ext(1,3) NewObject new show ?thesis by auto
next
  case (SpRaw i a)
  with client_assign [OF ok, of i "rc_heap st" "Some a"] ok may show ?thesis
    by (auto simp: client_ok_def)
next
  case (SpCopy i j)
  with client_assign [OF ok, of i "rc_heap st" "rc_sps st ! j"] client_sp_base [OF ok, of j] ok may
  show ?thesis by (auto simp: client_ok_def)
next
  case (SpClear i)
  with may have i: "i < length (rc_sps st)" by simp
  from sp_delete_ok [of "holders (rc_sps st)" "holders (rc_wps st)" "rc_heap st" "rc_sps st ! i"]
    ok holders_pos [OF i] obtain rh where "sp_delete (rc_sps st ! i) (rc_heap st) = Inr rh"
    "heap_ok (dec_at (rc_sps st ! i) (holders (rc_sps st))) (holders (rc_wps st)) rh"
    by (auto simp: client_ok_def)
  with set_sp_ok [OF ok i, of None rh] SpClear show ?thesis by (simp add: sp_clear_def)
next
  case (WpRaw i a)
  then have "\<exists>rh. wp_new (Some a) (rc_heap st) = Inr (Some a, rh) \<and>
    heap_ok (holders (rc_sps st)) (inc_at (Some a) (holders (rc_wps st))) rh"
    by (intro wp_new_ok client_heap ok) (use may client_room1 [OF ok] in auto)
  with client_wp_store [OF ok, of i _ "Some a"] may WpRaw show ?thesis by simp
next
  case (WpFromSp i j)
  then have "\<exists>rh. wp_new (rc_sps st ! j) (rc_heap st) = Inr (rc_sps st ! j, rh) \<and>
    heap_ok (holders (rc_sps st)) (inc_at (rc_sps st ! j) (holders (rc_wps st))) rh"
    by (intro wp_new_ok client_heap ok) (use may client_room1 [OF ok] client_sp_base [OF ok] in auto)
  with client_wp_store [OF ok] may WpFromSp show ?thesis by simp
next
  case (WpCopy i j)
  then have "\<exists>rh. wp_copy (rc_wps st ! j) (rc_heap st) = Inr (rc_wps st ! j, rh) \<and>
    heap_ok (holders (rc_sps st)) (inc_at (rc_wps st ! j) (holders (rc_wps st))) rh"
    by (intro wp_copy_ok client_heap ok) (use may client_room1 [OF ok] client_wp_impl [OF ok] in auto)
  with client_wp_store [OF ok] may WpCopy show ?thesis by simp
next
  case (WpDelete i)
  with may have i: "i < length (rc_wps st)" by simp
  from wp_delete_ok [of "holders (rc_sps st)" "holders (rc_wps st)" "rc_heap st" "rc_wps st ! i"]
    ok holders_pos [OF i] obtain rh where "wp_delete (rc_wps st ! i) (rc_heap st) = Inr rh"
    "heap_ok (holders (rc_sps st)) (dec_at (rc_wps st ! i) (holders (rc_wps st))) rh"
    by (auto simp: client_ok_def)
  with set_wp_ok [OF ok i, of None rh] WpDelete show ?thesis by simp
next
  case (Promote i j)
  with client_promote [OF ok] may show ?thesis by blast
qed

lemma client_init: "ref_init st \<Longrightarrow> client_ok st"
proof -
  assume init: "ref_init st"
  then have "holders (rc_sps st) a = 0" "holders (rc_wps st) a = 0" for a
    by (auto simp: ref_init_def holders_def count_list_0_iff)
  with init show ?thesis
    by (simp add: client_ok_def ref_init_def heap_ok_def cell_ok_def deleted_once_def)
qed

interpretation rc: invariant_system ref_init ref_step client_ok
proof unfold_locales
  fix st st'
  assume "ref_step st st'" and "client_ok st"
  then show "client_ok st'" by (elim ref_stepE) (use client_run in fastforce)
qed (rule client_init)

section \<open>Releasing every pointer\<close>

fun ref_runs :: "ref_op list \<Rightarrow> ref_client \<Rightarrow> ref_client chk" where
  "ref_runs [] st = Inr st"
| "ref_runs (op # ops) st = bindE (ref_run op st) (ref_runs ops)"

definition release_ops :: "ref_client \<Rightarrow> ref_op list" where
  "release_ops st = map SpClear [0..<length (rc_sps st)] @ map WpDelete [0..<length (rc_wps st)]"

lemma ref_runs_append: "ref_runs (xs @ ys) st = bindE (ref_runs xs st) (ref_runs ys)"
  by (induction xs arbitrary: st) (auto simp: bindE_def split: sum.splits)

text \<open>An object that has had a strong pointer, also when it is gone by now.\<close>

definition was_held :: "nat \<Rightarrow> ref_heap \<Rightarrow> bool" where
  "was_held a rh \<longleftrightarrow> a < rh_next rh \<and>
     (case rh_impl rh a of None \<Rightarrow> True | Some i \<Rightarrow> mStrong i \<noteq> INITIAL_STRONG_VALUE)"

lemma was_held_same: "same_cell a rh rh' \<Longrightarrow> was_held a rh \<Longrightarrow> was_held a rh'"
  by (simp add: same_cell_def was_held_def split: option.splits)

lemma decWeak_held:
  assumes ok: "cell_ok b s (Suc w) rh" and run: "decWeak b rh = Inr rh'" and held: "was_held a rh"
  shows "was_held a rh'"
proof (cases "a = b")
  case True
  obtain i where i: "rh_impl rh b = Some i" by (rule cell_impl [OF ok]) auto
  with run held True show ?thesis
    by (auto simp: was_held_def decWeak_def weakref_impl_delete_def RefBase_delete_def ref_access_defs
      bindE_def assertE_def split: if_splits)
next
  case False
  with decWeak_moves [OF ok] run held was_held_same show ?thesis by (auto simp: moves_cell_def)
qed

lemma decStrong_held:
  assumes ok: "cell_ok b (Suc s) w rh" and run: "decStrong b rh = Inr rh'" and held: "was_held a rh"
  shows "was_held a rh'"
proof (cases "a = b")
  case True
  obtain i where i: "rh_impl rh b = Some i" "impl_ok (rh_base rh b) (Suc s) w i"
    by (rule cell_impl [OF ok]) auto
  with ok have "wrap32 (mStrong i + - 1) = int s" "s < 268435456"
    by (auto simp: wrap32_id cell_ok_def impl_ok_def)
  with i run held True show ?thesis
    by (auto simp: was_held_def decStrong_def decWeak_def weakref_impl_delete_def RefBase_delete_def
      ref_access_defs bindE_def assertE_def Let_def split: if_splits)
next
  case False
  with decStrong_moves [OF ok] run held was_held_same show ?thesis by (auto simp: moves_cell_def)
qed

lemma clear_step:
  assumes ok: "client_ok st" and i: "i < length (rc_sps st)"
  shows "\<exists>st'. ref_run (SpClear i) st = Inr st' \<and> client_ok st' \<and> rc_sps st' = (rc_sps st)[i := None] \<and>
    rc_wps st' = rc_wps st \<and> (\<forall>a. was_held a (rc_heap st) \<longrightarrow> was_held a (rc_heap st'))"
proof -
  from client_run [OF ok, of "SpClear i"] i obtain st' where
    run: "ref_run (SpClear i) st = Inr st'" and ok': "client_ok st'" by auto
  have "was_held a (rc_heap st')" if "was_held a (rc_heap st)" for a
  proof (cases "rc_sps st ! i")
    case None
    with run that show ?thesis by (auto simp: sp_clear_def sp_delete_def set_sp_def)
  next
    case (Some b)
    have "cell_ok b (Suc (holders (rc_sps st) b - 1)) (holders (rc_wps st) b) (rc_heap st)"
      using heap_okD [OF client_heap [OF ok], of b] holders_pos [OF i Some] by simp
    from decStrong_held [OF this _ that] run Some show ?thesis
      by (cases "decStrong b (rc_heap st)") (auto simp: sp_clear_def sp_delete_def set_sp_def)
  qed
  with run ok' show ?thesis
    by (cases "sp_delete (rc_sps st ! i) (rc_heap st)") (auto simp: sp_clear_def set_sp_def)
qed

lemma wp_delete_step:
  assumes ok: "client_ok st" and i: "i < length (rc_wps st)"
  shows "\<exists>st'. ref_run (WpDelete i) st = Inr st' \<and> client_ok st' \<and> rc_wps st' = (rc_wps st)[i := None] \<and>
    rc_sps st' = rc_sps st \<and> (\<forall>a. was_held a (rc_heap st) \<longrightarrow> was_held a (rc_heap st'))"
proof -
  from client_run [OF ok, of "WpDelete i"] i obtain st' where
    run: "ref_run (WpDelete i) st = Inr st'" and ok': "client_ok st'" by auto
  have "was_held a (rc_heap st')" if "was_held a (rc_heap st)" for a
  proof (cases "rc_wps st ! i")
    case None
    with run that show ?thesis by (auto simp: wp_delete_def set_wp_def)
  next
    case (Some b)
    have "cell_ok b (holders (rc_sps st) b) (Suc (holders (rc_wps st) b - 1)) (rc_heap st)"
      using heap_okD [OF client_heap [OF ok], of b] holders_pos [OF i Some] by simp
    from decWeak_held [OF this _ that] run Some show ?thesis
      by (cases "decWeak b (rc_heap st)") (auto simp: wp_delete_def set_wp_def)
  qed
  with run ok' show ?thesis
    by (cases "wp_delete (rc_wps st ! i) (rc_heap st)") (auto simp: set_wp_def)
qed

text \<open>Clearing the variables one by one.\<close>

definition cleared :: "nat \<Rightarrow> 'a option list \<Rightarrow> 'a option list" where
  "cleared n ps = replicate n None @ drop n ps"

lemma cleared_Suc: "n < length ps \<Longrightarrow> (cleared n ps)[n := None] = cleared (Suc n) ps"
  by (simp add: cleared_def list_update_append Cons_nth_drop_Suc [symmetric] replicate_append_same [symmetric])

lemma length_cleared [simp]: "n \<le> length ps \<Longrightarrow> length (cleared n ps) = length ps"
  by (simp add: cleared_def)

lemma clear_all_sps:
  assumes ok: "client_ok st" and n: "n \<le> length (rc_sps st)"
  shows "\<exists>st'. ref_runs (map SpClear [0..<n]) st = Inr st' \<and> client_ok st' \<and> rc_sps st' = cleared n (rc_sps st) \<and>
    rc_wps st' = rc_wps st \<and> (\<forall>a. was_held a (rc_heap st) \<longrightarrow> was_held a (rc_heap st'))"
  using n
proof (induction n)
  case 0
  with ok show ?case by (simp add: cleared_def)
next
  case (Suc n)
  then obtain st1 where st1: "ref_runs (map SpClear [0..<n]) st = Inr st1" "client_ok st1"
    "rc_sps st1 = cleared n (rc_sps st)" "rc_wps st1 = rc_wps st"
    "\<forall>a. was_held a (rc_heap st) \<longrightarrow> was_held a (rc_heap st1)" by auto
  with clear_step [OF st1(2), of n] Suc.prems cleared_Suc [of n "rc_sps st"] show ?case
    by (auto simp: ref_runs_append)
qed

lemma delete_all_wps:
  assumes ok: "client_ok st" and n: "n \<le> length (rc_wps st)"
  shows "\<exists>st'. ref_runs (map WpDelete [0..<n]) st = Inr st' \<and> client_ok st' \<and> rc_wps st' = cleared n (rc_wps st) \<and>
    rc_sps st' = rc_sps st \<and> (\<forall>a. was_held a (rc_heap st) \<longrightarrow> was_held a (rc_heap st'))"
  using n
proof (induction n)
  case 0
  with ok show ?case by (simp add: cleared_def)
next
  case (Suc n)
  then obtain st1 where st1: "ref_runs (map WpDelete [0..<n]) st = Inr st1" "client_ok st1"
    "rc_wps st1 = cleared n (rc_wps st)" "rc_sps st1 = rc_sps st"
    "\<forall>a. was_held a (rc_heap st) \<longrightarrow> was_held a (rc_heap st1)" by auto
  with wp_delete_step [OF st1(2), of n] Suc.prems cleared_Suc [of n "rc_wps st"] show ?case
    by (auto simp: ref_runs_append)
qed

lemma holders_cleared [simp]: "holders (cleared (length ps) ps) a = 0"
  by (simp add: holders_def cleared_def count_list_0_iff)

lemma client_release:
  assumes ok: "client_ok st"
  shows "\<exists>st'. ref_runs (release_ops st) st = Inr st' \<and> (\<forall>a. cell_ok a 0 0 (rc_heap st')) \<and>
    (\<forall>a. was_held a (rc_heap st) \<longrightarrow> was_held a (rc_heap st'))"
proof -
  from clear_all_sps [OF ok, of "length (rc_sps st)"] obtain st1 where
    1: "ref_runs (map SpClear [0..<length (rc_sps st)]) st = Inr st1" "client_ok st1"
      "rc_sps st1 = cleared (length (rc_sps st)) (rc_sps st)" "rc_wps st1 = rc_wps st"
      "\<forall>a. was_held a (rc_heap st) \<longrightarrow> was_held a (rc_heap st1)" by auto
  from delete_all_wps [OF 1(2), of "length (rc_wps st)"] 1(4) obtain st2 where
    2: "ref_runs (map WpDelete [0..<length (rc_wps st)]) st1 = Inr st2" "client_ok st2"
      "rc_wps st2 = cleared (length (rc_wps st)) (rc_wps st)" "rc_sps st2 = rc_sps st1"
      "\<forall>a. was_held a (rc_heap st1) \<longrightarrow> was_held a (rc_heap st2)" by auto
  from heap_okD [OF client_heap [OF 2(2)]] 1 2 show ?thesis
    by (auto simp: release_ops_def ref_runs_append)
qed

lemma held_freed:
  assumes "cell_ok a 0 0 rh" and "was_held a rh"
  shows "\<not> rh_base rh a \<and> rh_impl rh a = None \<and>
    count_list (rh_trace rh) (BaseDeleted a) = 1 \<and> count_list (rh_trace rh) (ImplDeleted a) = 1"
  using assms by (auto simp: cell_ok_def was_held_def deleted_once_def impl_ok_def split: option.splits)

section \<open>Properties\<close>

text \<open>A program with two objects, one with a weak lifetime, used as the concrete state below.\<close>

definition demo_client :: ref_client where
  "demo_client = \<lparr>rc_heap = \<lparr>rh_base = (\<lambda>_. False), rh_impl = (\<lambda>_. None), rh_next = 0, rh_trace = []\<rparr>,
     rc_sps = [None, None], rc_wps = [None, None]\<rparr>"

definition demo_ops :: "ref_op list" where
  "demo_ops = [NewObject 0 0, WpFromSp 0 0, NewObject 1 1, WpFromSp 1 1, SpCopy 1 0]"

lemma demo_init: "ref_init demo_client"
  by (simp add: ref_init_def demo_client_def)

fun ref_allowed :: "ref_op list \<Rightarrow> ref_client \<Rightarrow> bool" where
  "ref_allowed [] st = True"
| "ref_allowed (op # ops) st =
     (ref_may op st \<and> (case ref_run op st of Inl _ \<Rightarrow> False | Inr st' \<Rightarrow> ref_allowed ops st'))"

lemma ref_runs_reachable:
  "reachable ref_init ref_step st \<Longrightarrow> ref_allowed ops st \<Longrightarrow>
   \<exists>st'. ref_runs ops st = Inr st' \<and> reachable ref_init ref_step st'"
proof (induction ops arbitrary: st)
  case (Cons op ops)
  then obtain st1 where "ref_run op st = Inr st1" "ref_may op st" "ref_allowed ops st1"
    by (auto split: sum.splits)
  moreover from this have "ref_step st st1" by (blast intro: ref_stepI)
  with Cons.prems(1) have "reachable ref_init ref_step st1" by (rule reach_step)
  ultimately show ?case using Cons.IH [of st1] by simp
qed simp

definition demo_state :: ref_client where
  "demo_state = (case ref_runs demo_ops demo_client of Inr st \<Rightarrow> st | Inl _ \<Rightarrow> demo_client)"

lemma demo_allowed: "ref_allowed demo_ops demo_client"
  by code_simp

lemma ref_demo_reachable: "reachable ref_init ref_step demo_state"
proof -
  have "reachable ref_init ref_step demo_client" by (rule reach_init) (rule demo_init)
  from ref_runs_reachable [OF this demo_allowed] show ?thesis by (auto simp: demo_state_def)
qed

lemma demo_vars:
  "rc_sps demo_state = [Some 0, Some 0]" "rc_wps demo_state = [Some 0, Some 1]"
  "rh_base (rc_heap demo_state) 0" "rh_base (rc_heap demo_state) 1"
  by code_simp+

text \<open>C3: In every state a program reaches by operations on strong and weak pointers, each further
  operation runs to its end without an access to a freed object or a freed counter, and every object
  with a strong pointer to it exists. (The operations are those that \<open>StrongPointer.h\<close> and \<open>RefBase.h\<close> define; the assignment of
  weak pointers that the compiler generates, which copies a pointer without counting it, is none of them.)\<close>

theorem pointers_never_dangle:
  assumes "reachable ref_init ref_step st" and "ref_may op st"
  shows "(\<exists>st'. ref_run op st = Inr st' \<and> ref_step st st') \<and>
    (\<forall>i<length (rc_sps st). \<forall>a. rc_sps st ! i = Some a \<longrightarrow> rh_base (rc_heap st) a)"
proof -
  from assms(1) have ok: "client_ok st" by (rule rc.reachable_inv)
  from client_run [OF ok assms(2)] obtain st' where "ref_run op st = Inr st'" by blast
  with ref_stepI [OF assms(2)] client_sp_base(1) [OF ok] show ?thesis by blast
qed

lemma pointers_never_dangle_witness:
  "(\<exists>st'. ref_run (SpClear 1) demo_state = Inr st' \<and> ref_step demo_state st') \<and> rh_base (rc_heap demo_state) 0"
  using pointers_never_dangle [OF ref_demo_reachable, of "SpClear 1"] by (auto simp: demo_vars)

text \<open>C13: The counters of an object are the numbers of pointers to it: the weak count counts both
  kinds, the strong count the strong ones, unless there never was one. The object exists as long as
  its lifetime is that of the weak pointers or its strong count is not zero. (The operations are those that \<open>StrongPointer.h\<close> and \<open>RefBase.h\<close> define; the assignment of
  weak pointers that the compiler generates, which copies a pointer without counting it, is none of them.)\<close>

theorem counters_count_pointers:
  assumes "reachable ref_init ref_step st" and "rh_impl (rc_heap st) a = Some i"
  shows "mWeak i = int (count_list (rc_sps st) (Some a)) + int (count_list (rc_wps st) (Some a)) \<and>
    (if mStrong i = INITIAL_STRONG_VALUE then Some a \<notin> set (rc_sps st)
     else mStrong i = int (count_list (rc_sps st) (Some a))) \<and>
    (rh_base (rc_heap st) a \<longleftrightarrow> mFlags i AND OBJECT_LIFETIME_MASK = OBJECT_LIFETIME_WEAK \<or> mStrong i \<noteq> 0)"
proof -
  from assms(1) have ok: "client_ok st" by (rule rc.reachable_inv)
  from heap_okD [OF client_heap [OF ok], of a] assms(2)
  have i: "impl_ok (rh_base (rc_heap st) a) (holders (rc_sps st) a) (holders (rc_wps st) a) i"
    by (simp add: cell_ok_def)
  moreover have "holders (rc_sps st) a < 268435456"
    using client_room [OF ok, of a] by simp
  ultimately show ?thesis
    by (auto simp: impl_ok_def holders_def count_list_0_iff)
qed

lemma counters_count_pointers_witness:
  "\<exists>i. rh_impl (rc_heap demo_state) 0 = Some i \<and> mWeak i = 3 \<and> mStrong i = 2"
proof -
  have "rh_impl (rc_heap demo_state) 0 \<noteq> None" by code_simp
  then obtain i where i: "rh_impl (rc_heap demo_state) 0 = Some i" by blast
  from counters_count_pointers [OF ref_demo_reachable i] i show ?thesis
    by (auto simp: demo_vars split: if_splits)
qed

text \<open>C23: When a program gives up all its pointers, whatever it did before, each object it held by a
  strong pointer is destroyed exactly once and so are its counters: nothing leaks. (The operations are those that \<open>StrongPointer.h\<close> and \<open>RefBase.h\<close> define; the assignment of
  weak pointers that the compiler generates, which copies a pointer without counting it, is none of them.)\<close>

theorem released_objects_freed:
  assumes "reachable ref_init ref_step st"
  shows "\<exists>st'. ref_runs (release_ops st) st = Inr st' \<and>
    (\<forall>a. Some a \<in> set (rc_sps st) \<longrightarrow>
      \<not> rh_base (rc_heap st') a \<and> rh_impl (rc_heap st') a = None \<and>
      count_list (rh_trace (rc_heap st')) (BaseDeleted a) = 1 \<and>
      count_list (rh_trace (rc_heap st')) (ImplDeleted a) = 1)"
proof -
  from assms have ok: "client_ok st" by (rule rc.reachable_inv)
  have "was_held a (rc_heap st)" if mem: "Some a \<in> set (rc_sps st)" for a
  proof -
    from mem obtain n where n: "n < length (rc_sps st)" "rc_sps st ! n = Some a"
      by (auto simp: in_set_conv_nth)
    from client_sp_base(1) [OF ok n] holders_pos [OF n] client_room [OF ok, of a]
      heap_okD [OF client_heap [OF ok], of a]
    show ?thesis by (auto simp: was_held_def cell_ok_def impl_ok_def split: option.splits)
  qed
  with client_release [OF ok] held_freed show ?thesis by blast
qed

lemma released_objects_freed_witness:
  "\<exists>st'. ref_runs (release_ops demo_state) demo_state = Inr st' \<and> rh_impl (rc_heap st') 0 = None"
  using released_objects_freed [OF ref_demo_reachable] by (auto simp: demo_vars)

text \<open>Promoting a weak pointer gives a strong pointer to its object if the object still exists,
  and null otherwise.\<close>

theorem promote_iff_alive:
  assumes "reachable ref_init ref_step st" and "ref_may (Promote i j) st"
  shows "\<exists>st'. ref_run (Promote i j) st = Inr st' \<and> rc_wps st' = rc_wps st \<and>
    rc_sps st' = (rc_sps st)[i := (case rc_wps st ! j of
       None \<Rightarrow> None
     | Some a \<Rightarrow> if rh_base (rc_heap st) a then Some a else None)]"
proof -
  from assms(1) have ok: "client_ok st" by (rule rc.reachable_inv)
  from client_run [OF ok assms(2)] obtain st' where st': "ref_run (Promote i j) st = Inr st'" by blast
  from assms(2) have j: "j < length (rc_wps st)" by simp
  have "0 < holders (rc_wps st) a \<and> holders (rc_sps st) a + holders (rc_wps st) a + 1 < 268435456"
    if "rc_wps st ! j = Some a" for a
    using holders_pos [OF j that] client_room1 [OF ok] by simp
  from wp_promote_ok [OF client_heap [OF ok] this] obtain rh' where
    "wp_promote (rc_wps st ! j) (rc_heap st) = Inr ((case rc_wps st ! j of
       None \<Rightarrow> None | Some a \<Rightarrow> if rh_base (rc_heap st) a then Some a else None), rh')" by blast
  with st' show ?thesis
    by (auto simp: set_sp_def sp_assign_def bindE_Inr_iff)
qed

lemma promote_iff_alive_witness:
  "\<exists>st'. ref_run (Promote 0 1) demo_state = Inr st' \<and> rc_sps st' = [Some 1, Some 0]"
  using promote_iff_alive [OF ref_demo_reachable, of 0 1] demo_vars(4) by (auto simp: demo_vars(1,2))

end
