(* ===== verification/Parcel.thy ===== *)
theory Parcel
  imports Prelude
begin

text \<open>
  \<open>libs/binder/Parcel.cpp\<close>: the buffer in which the arguments of a call are collected and a reply is
  received. \<open>size_t\<close> is a natural number with the wrap at \<open>2\<^sup>6\<^sup>4\<close> written out. The blocks
  \<open>mData\<close> and \<open>mObjects\<close> are lists with the size they were allocated with, or the size of the
  mapping while the driver owns them; \<open>junk\<close> stands for memory that was not initialised. References
  taken and dropped on the objects of a parcel, and the call of the function that gives a mapping
  back, are entries of a trace. \<open>proxy\<close> is what \<open>ProcessState::getStrongProxyForHandle\<close> returns. A
  binder object in the data has the layout of the kernel's \<open>flat_binder_object\<close>: type, flags,
  binder or handle, cookie, 24 bytes in all.
\<close>

abbreviation (input) NO_ERROR :: int where "NO_ERROR \<equiv> 0"
abbreviation (input) NO_MEMORY :: int where "NO_MEMORY \<equiv> - 12"
abbreviation (input) BAD_VALUE :: int where "BAD_VALUE \<equiv> - 22"
abbreviation (input) INT32_MAX :: nat where "INT32_MAX \<equiv> 2147483647"
abbreviation (input) SIZE_MAX :: nat where "SIZE_MAX \<equiv> 18446744073709551615"

abbreviation (input) BINDER_TYPE_BINDER :: u32 where "BINDER_TYPE_BINDER \<equiv> 0x73622a85"
abbreviation (input) BINDER_TYPE_HANDLE :: u32 where "BINDER_TYPE_HANDLE \<equiv> 0x73682a85"
abbreviation (input) BINDER_TYPE_FD :: u32 where "BINDER_TYPE_FD \<equiv> 0x66642a85"
abbreviation (input) SIZEOF_flat_binder_object :: nat where "SIZEOF_flat_binder_object \<equiv> 24"

definition size_wrap :: "nat \<Rightarrow> nat" where
  "size_wrap n = n mod 18446744073709551616"

lemma size_wrap_id [simp]: "n < 18446744073709551616 \<Longrightarrow> size_wrap n = n"
  by (simp add: size_wrap_def)

datatype parcel_event =
    IncStrongLocal u64
  | DecStrongLocal u64
  | GetProxy u32
  | DecStrongProxy nat
  | OwnerCalled nat "u8 list option" nat "u64 list option" nat

record parcel =
  mError :: int
  mData :: "u8 list option"
  mDataSize :: nat
  mDataCapacity :: nat
  mDataPos :: nat
  mObjects :: "u64 list option"
  mObjectsSize :: nat
  mObjectsCapacity :: nat
  mNextObjectHint :: nat
  mObjectsSorted :: bool
  mFdsKnown :: bool
  mHasFds :: bool
  mOwner :: "nat option"
  mOpenAshmemSize :: nat

text \<open>What is shared by all parcels: the statistics, the outcomes of \<open>malloc\<close>, the trace.\<close>

record parcel_env =
  gParcelGlobalAllocSize :: nat
  gParcelGlobalAllocCount :: nat
  pe_malloc :: "bool list"
  pe_trace :: "parcel_event list"

definition pe_alloc :: "parcel_env \<Rightarrow> bool \<times> parcel_env" where
  "pe_alloc e =
     (case pe_malloc e of
        [] \<Rightarrow> (False, e)
      | ok # oks \<Rightarrow> (ok, e\<lparr>pe_malloc := oks\<rparr>))"

definition pe_note :: "parcel_event \<Rightarrow> parcel_env \<Rightarrow> parcel_env" where
  "pe_note ev e = e\<lparr>pe_trace := pe_trace e @ [ev]\<rparr>"

text \<open>\<open>(s + 3) & ~3\<close>\<close>

definition pad_size :: "nat \<Rightarrow> nat" where
  "pad_size s = size_wrap (s + 3) div 4 * 4"

section \<open>Objects in the data\<close>

definition flat_type :: "u8 list \<Rightarrow> nat \<Rightarrow> u32 chk" where
  "flat_type data off = bindE (mem_read data off 4) (\<lambda>bs. Inr (le_word bs))"

definition flat_binder :: "u8 list \<Rightarrow> nat \<Rightarrow> u64 chk" where
  "flat_binder data off = bindE (mem_read data (off + 8) 8) (\<lambda>bs. Inr (le_word bs))"

definition flat_handle :: "u8 list \<Rightarrow> nat \<Rightarrow> u32 chk" where
  "flat_handle data off = bindE (mem_read data (off + 8) 4) (\<lambda>bs. Inr (le_word bs))"

definition flat_cookie :: "u8 list \<Rightarrow> nat \<Rightarrow> u64 chk" where
  "flat_cookie data off = bindE (mem_read data (off + 16) 8) (\<lambda>bs. Inr (le_word bs))"

text \<open>The local \<open>sp\<close> on the proxy takes a reference and drops it again; \<open>decStrong\<close> is one more.\<close>

definition acquire_object :: "(u32 \<Rightarrow> nat option) \<Rightarrow> u8 list \<Rightarrow> nat \<Rightarrow> parcel_env \<Rightarrow> parcel_env chk" where
  "acquire_object proxy data off e =
     bindE (flat_type data off) (\<lambda>t.
     if t = BINDER_TYPE_BINDER then
       bindE (flat_binder data off) (\<lambda>b.
       if b \<noteq> 0 then bindE (flat_cookie data off) (\<lambda>c. Inr (pe_note (IncStrongLocal c) e))
       else Inr e)
     else if t = BINDER_TYPE_HANDLE then
       bindE (flat_handle data off) (\<lambda>h.
       let e = pe_note (GetProxy h) e
       in case proxy h of None \<Rightarrow> Inr e | Some b \<Rightarrow> Inr (pe_note (DecStrongProxy b) e))
     else Inr e)"

definition release_object :: "(u32 \<Rightarrow> nat option) \<Rightarrow> u8 list \<Rightarrow> nat \<Rightarrow> parcel_env \<Rightarrow> parcel_env chk" where
  "release_object proxy data off e =
     bindE (flat_type data off) (\<lambda>t.
     if t = BINDER_TYPE_BINDER then
       bindE (flat_binder data off) (\<lambda>b.
       if b \<noteq> 0 then bindE (flat_cookie data off) (\<lambda>c. Inr (pe_note (DecStrongLocal c) e))
       else Inr e)
     else if t = BINDER_TYPE_HANDLE then
       bindE (flat_handle data off) (\<lambda>h.
       let e = pe_note (GetProxy h) e
       in case proxy h of None \<Rightarrow> Inr e | Some b \<Rightarrow> Inr (pe_note (DecStrongProxy b) e))
     else Inr e)"

text \<open>The objects \<open>i - 1, \<dots>, 0\<close>.\<close>

fun releaseObjects_loop :: "(u32 \<Rightarrow> nat option) \<Rightarrow> parcel \<Rightarrow> nat \<Rightarrow> parcel_env \<Rightarrow> parcel_env chk" where
  "releaseObjects_loop proxy p 0 e = Inr e"
| "releaseObjects_loop proxy p (Suc i) e =
     bindE (derefE NullDeref (mObjects p)) (\<lambda>objs.
     bindE (arr_get objs i) (\<lambda>off.
     bindE (derefE NullDeref (mData p)) (\<lambda>data.
     bindE (release_object proxy data (unat off) e) (\<lambda>e.
     releaseObjects_loop proxy p i e))))"

definition releaseObjects :: "(u32 \<Rightarrow> nat option) \<Rightarrow> parcel \<Rightarrow> parcel_env \<Rightarrow> parcel_env chk" where
  "releaseObjects proxy p e = releaseObjects_loop proxy p (mObjectsSize p) e"

fun acquireObjects_loop :: "(u32 \<Rightarrow> nat option) \<Rightarrow> parcel \<Rightarrow> nat \<Rightarrow> parcel_env \<Rightarrow> parcel_env chk" where
  "acquireObjects_loop proxy p 0 e = Inr e"
| "acquireObjects_loop proxy p (Suc i) e =
     bindE (derefE NullDeref (mObjects p)) (\<lambda>objs.
     bindE (arr_get objs i) (\<lambda>off.
     bindE (derefE NullDeref (mData p)) (\<lambda>data.
     bindE (acquire_object proxy data (unat off) e) (\<lambda>e.
     acquireObjects_loop proxy p i e))))"

definition acquireObjects :: "(u32 \<Rightarrow> nat option) \<Rightarrow> parcel \<Rightarrow> parcel_env \<Rightarrow> parcel_env chk" where
  "acquireObjects proxy p e = acquireObjects_loop proxy p (mObjectsSize p) e"

section \<open>State\<close>

text \<open>\<open>mOwnerCookie\<close>, which the constructor leaves alone, is passed along with \<open>mOwner\<close> and part of it here.\<close>

definition initState :: parcel where
  "initState = \<lparr>mError = NO_ERROR, mData = None, mDataSize = 0, mDataCapacity = 0, mDataPos = 0,
     mObjects = None, mObjectsSize = 0, mObjectsCapacity = 0, mNextObjectHint = 0,
     mObjectsSorted = False, mFdsKnown = False, mHasFds = False, mOwner = None, mOpenAshmemSize = 0\<rparr>"

definition Parcel_new :: parcel where
  "Parcel_new = initState"

definition dataSize :: "parcel \<Rightarrow> nat" where
  "dataSize p = (if mDataSize p > mDataPos p then mDataSize p else mDataPos p)"

definition dataPosition :: "parcel \<Rightarrow> nat" where
  "dataPosition p = mDataPos p"

definition dataCapacity :: "parcel \<Rightarrow> nat" where
  "dataCapacity p = mDataCapacity p"

definition dataAvail :: "parcel \<Rightarrow> nat" where
  "dataAvail p = dataSize p - dataPosition p"

definition setDataPosition :: "nat \<Rightarrow> parcel \<Rightarrow> parcel" where
  "setDataPosition pos p = p\<lparr>mDataPos := pos, mNextObjectHint := 0, mObjectsSorted := False\<rparr>"

definition errorCheck :: "parcel \<Rightarrow> int" where
  "errorCheck p = mError p"

definition setError :: "int \<Rightarrow> parcel \<Rightarrow> parcel" where
  "setError err p = p\<lparr>mError := err\<rparr>"

definition call_owner :: "nat \<Rightarrow> parcel \<Rightarrow> parcel_env \<Rightarrow> parcel_env" where
  "call_owner own p e = pe_note (OwnerCalled own (mData p) (mDataSize p) (mObjects p) (mObjectsSize p)) e"

definition freeDataNoInit :: "(u32 \<Rightarrow> nat option) \<Rightarrow> parcel \<Rightarrow> parcel_env \<Rightarrow> parcel_env chk" where
  "freeDataNoInit proxy p e =
     (case mOwner p of
        Some own \<Rightarrow> Inr (call_owner own p e)
      | None \<Rightarrow>
          bindE (releaseObjects proxy p e) (\<lambda>e.
          if mData p \<noteq> None then
            Inr (e\<lparr>gParcelGlobalAllocSize :=
              (if mDataCapacity p \<le> gParcelGlobalAllocSize e
               then gParcelGlobalAllocSize e - mDataCapacity p else 0)\<rparr>)
          else Inr e))"

definition freeData :: "(u32 \<Rightarrow> nat option) \<Rightarrow> parcel \<Rightarrow> parcel_env \<Rightarrow> (parcel \<times> parcel_env) chk" where
  "freeData proxy p e = bindE (freeDataNoInit proxy p e) (\<lambda>e. Inr (initState, e))"

fun scanForFds_loop :: "u8 list option \<Rightarrow> u64 list \<Rightarrow> bool chk" where
  "scanForFds_loop data [] = Inr False"
| "scanForFds_loop data (off # offs) =
     bindE (derefE NullDeref data) (\<lambda>d.
     bindE (flat_type d (unat off)) (\<lambda>t.
     if t = BINDER_TYPE_FD then Inr True else scanForFds_loop data offs))"

text \<open>The objects in use: reading more of them than the array has is out of bounds.\<close>

definition objects_used :: "parcel \<Rightarrow> u64 list chk" where
  "objects_used p =
     (if mObjectsSize p = 0 then Inr []
      else bindE (derefE NullDeref (mObjects p)) (\<lambda>objs. mem_read objs 0 (mObjectsSize p)))"

definition scanForFds :: "parcel \<Rightarrow> parcel chk" where
  "scanForFds p =
     bindE (objects_used p) (\<lambda>offs.
     bindE (scanForFds_loop (mData p) offs) (\<lambda>has.
     Inr (p\<lparr>mHasFds := has, mFdsKnown := True\<rparr>)))"

section \<open>Size and capacity\<close>

definition finishWrite :: "nat \<Rightarrow> parcel \<Rightarrow> int \<times> parcel" where
  "finishWrite n p =
     (if n > INT32_MAX then (BAD_VALUE, p)
      else
        let p = p\<lparr>mDataPos := size_wrap (mDataPos p + n)\<rparr>;
            p = (if mDataPos p > mDataSize p then p\<lparr>mDataSize := mDataPos p\<rparr> else p)
        in (NO_ERROR, p))"

text \<open>How many objects stay when the data shrinks: the last ones that start behind it go.\<close>

fun kept_objects :: "u64 list \<Rightarrow> nat \<Rightarrow> nat \<Rightarrow> nat chk" where
  "kept_objects objs desired 0 = Inr 0"
| "kept_objects objs desired (Suc n) =
     bindE (arr_get objs n) (\<lambda>off.
     if unat off < desired then Inr (Suc n) else kept_objects objs desired n)"

definition objects_after :: "nat \<Rightarrow> parcel \<Rightarrow> nat chk" where
  "objects_after desired p =
     (if desired < mDataSize p then
        if desired = 0 then Inr 0
        else if mObjectsSize p = 0 then Inr 0
        else bindE (derefE NullDeref (mObjects p)) (\<lambda>objs. kept_objects objs desired (mObjectsSize p))
      else Inr (mObjectsSize p))"

definition count_alloc :: "nat \<Rightarrow> parcel_env \<Rightarrow> parcel_env" where
  "count_alloc desired e = e\<lparr>
     gParcelGlobalAllocSize := size_wrap (gParcelGlobalAllocSize e + desired),
     gParcelGlobalAllocCount := size_wrap (gParcelGlobalAllocCount e + 1)\<rparr>"

text \<open>\<open>memcpy\<close> of the first \<open>n\<close> elements of a block, which may be null, to a new one.\<close>

definition copy_block :: "'a list option \<Rightarrow> nat \<Rightarrow> 'a list \<Rightarrow> 'a list chk" where
  "copy_block src n dst =
     (case src of
        None \<Rightarrow> Inr dst
      | Some xs \<Rightarrow> bindE (mem_read xs 0 n) (\<lambda>ys. mem_write dst 0 ys))"

definition continueWrite_owned ::
    "(u32 \<Rightarrow> nat option) \<Rightarrow> u8 \<Rightarrow> nat \<Rightarrow> nat \<Rightarrow> nat \<Rightarrow> parcel \<Rightarrow> parcel_env \<Rightarrow> (int \<times> parcel \<times> parcel_env) chk" where
  "continueWrite_owned proxy junk own desired objectsSize p e =
     (if desired = 0 then bindE (freeData proxy p e) (\<lambda>(p, e). Inr (NO_ERROR, p, e))
      else
        case pe_alloc e of
          (False, e) \<Rightarrow> Inr (NO_MEMORY, p\<lparr>mError := NO_MEMORY\<rparr>, e)
        | (True, e) \<Rightarrow>
            let (objects, e) =
              (if objectsSize = 0 then (Some None, e)
               else case pe_alloc e of
                      (False, e) \<Rightarrow> (None, e)
                    | (True, e) \<Rightarrow> (Some (Some (replicate objectsSize (0 :: u64))), e))
            in case objects of
                 None \<Rightarrow> Inr (NO_MEMORY, p\<lparr>mError := NO_MEMORY\<rparr>, e)
               | Some objects \<Rightarrow>
                   bindE (if objectsSize = 0 then Inr e
                          else acquireObjects proxy (p\<lparr>mObjectsSize := objectsSize\<rparr>) e) (\<lambda>e.
                   bindE (copy_block (mData p) (min (mDataSize p) desired) (replicate desired junk)) (\<lambda>data.
                   bindE (case objects of
                            None \<Rightarrow> Inr None
                          | Some objs \<Rightarrow> bindE (copy_block (mObjects p) objectsSize objs) (\<lambda>objs. Inr (Some objs))) (\<lambda>objects.
                   let e = count_alloc desired (call_owner own p e)
                   in Inr (NO_ERROR,
                        p\<lparr>mOwner := None, mData := Some data, mObjects := objects,
                          mDataSize := min (mDataSize p) desired, mDataCapacity := desired,
                          mObjectsSize := objectsSize, mObjectsCapacity := objectsSize,
                          mNextObjectHint := 0, mObjectsSorted := False\<rparr>, e)))))"

text \<open>Releasing the objects from \<open>i\<close> up to the end of the list of their offsets.\<close>

fun drop_objects :: "(u32 \<Rightarrow> nat option) \<Rightarrow> u8 list \<Rightarrow> u64 list \<Rightarrow> bool \<Rightarrow> parcel_env \<Rightarrow> (bool \<times> parcel_env) chk" where
  "drop_objects proxy data [] fds e = Inr (fds, e)"
| "drop_objects proxy data (off # offs) fds e =
     bindE (flat_type data (unat off)) (\<lambda>t.
     let fds = (if t = BINDER_TYPE_FD then False else fds)
     in bindE (release_object proxy data (unat off) e) (\<lambda>e.
        drop_objects proxy data offs fds e))"

definition continueWrite_objects ::
    "(u32 \<Rightarrow> nat option) \<Rightarrow> u8 list \<Rightarrow> nat \<Rightarrow> parcel \<Rightarrow> parcel_env \<Rightarrow> (parcel \<times> parcel_env) chk" where
  "continueWrite_objects proxy data objectsSize p e =
     (if objectsSize < mObjectsSize p then
        bindE (derefE NullDeref (mObjects p)) (\<lambda>objs.
        bindE (mem_read objs objectsSize (mObjectsSize p - objectsSize)) (\<lambda>offs.
        bindE (drop_objects proxy data offs (mFdsKnown p) e) (\<lambda>(fds, e).
        let p = p\<lparr>mFdsKnown := fds\<rparr>;
            (p, e) =
              (if objectsSize = 0 then (p\<lparr>mObjects := None, mObjectsCapacity := 0\<rparr>, e)
               else case pe_alloc e of
                      (False, e) \<Rightarrow> (p, e)
                    | (True, e) \<Rightarrow>
                        (p\<lparr>mObjects := Some (take objectsSize objs), mObjectsCapacity := objectsSize\<rparr>, e))
        in Inr (p\<lparr>mObjectsSize := objectsSize, mNextObjectHint := 0, mObjectsSorted := False\<rparr>, e))))
      else Inr (p, e))"

definition continueWrite_data ::
    "u8 \<Rightarrow> nat \<Rightarrow> u8 list \<Rightarrow> parcel \<Rightarrow> parcel_env \<Rightarrow> int \<times> parcel \<times> parcel_env" where
  "continueWrite_data junk desired data p e =
     (if desired > mDataCapacity p then
        case pe_alloc e of
          (False, e) \<Rightarrow> (NO_MEMORY, p\<lparr>mError := NO_MEMORY\<rparr>, e)
        | (True, e) \<Rightarrow>
            (NO_ERROR,
             p\<lparr>mData := Some (take desired data @ replicate (desired - length data) junk),
               mDataCapacity := desired\<rparr>,
             e\<lparr>gParcelGlobalAllocSize :=
                 size_wrap (gParcelGlobalAllocSize e + desired + (SIZE_MAX + 1 - mDataCapacity p))\<rparr>)
      else
        let p = (if mDataSize p > desired then p\<lparr>mDataSize := desired\<rparr> else p);
            p = (if mDataPos p > desired then p\<lparr>mDataPos := desired\<rparr> else p)
        in (NO_ERROR, p, e))"

definition continueWrite_first :: "u8 \<Rightarrow> nat \<Rightarrow> parcel \<Rightarrow> parcel_env \<Rightarrow> int \<times> parcel \<times> parcel_env" where
  "continueWrite_first junk desired p e =
     (case pe_alloc e of
        (False, e) \<Rightarrow> (NO_MEMORY, p\<lparr>mError := NO_MEMORY\<rparr>, e)
      | (True, e) \<Rightarrow>
          (NO_ERROR,
           p\<lparr>mData := Some (replicate desired junk), mDataSize := 0, mDataPos := 0,
             mDataCapacity := desired\<rparr>,
           count_alloc desired e))"

definition continueWrite ::
    "(u32 \<Rightarrow> nat option) \<Rightarrow> u8 \<Rightarrow> nat \<Rightarrow> parcel \<Rightarrow> parcel_env \<Rightarrow> (int \<times> parcel \<times> parcel_env) chk" where
  "continueWrite proxy junk desired p e =
     (if desired > INT32_MAX then Inr (BAD_VALUE, p, e)
      else
        bindE (objects_after desired p) (\<lambda>objectsSize.
        case mOwner p of
          Some own \<Rightarrow> continueWrite_owned proxy junk own desired objectsSize p e
        | None \<Rightarrow>
            (case mData p of
               Some data \<Rightarrow>
                 bindE (continueWrite_objects proxy data objectsSize p e) (\<lambda>(p, e).
                 Inr (continueWrite_data junk desired data p e))
             | None \<Rightarrow> Inr (continueWrite_first junk desired p e))))"

definition growData ::
    "(u32 \<Rightarrow> nat option) \<Rightarrow> u8 \<Rightarrow> nat \<Rightarrow> parcel \<Rightarrow> parcel_env \<Rightarrow> (int \<times> parcel \<times> parcel_env) chk" where
  "growData proxy junk n p e =
     (if n > INT32_MAX then Inr (BAD_VALUE, p, e)
      else if n > SIZE_MAX - mDataSize p then Inr (NO_MEMORY, p, e)
      else if mDataSize p + n > SIZE_MAX div 3 then Inr (NO_MEMORY, p, e)
      else
        let newSize = (mDataSize p + n) * 3 div 2
        in if newSize \<le> mDataSize p then Inr (NO_MEMORY, p, e)
           else continueWrite proxy junk newSize p e)"

definition setDataSize ::
    "(u32 \<Rightarrow> nat option) \<Rightarrow> u8 \<Rightarrow> nat \<Rightarrow> parcel \<Rightarrow> parcel_env \<Rightarrow> (int \<times> parcel \<times> parcel_env) chk" where
  "setDataSize proxy junk n p e =
     (if n > INT32_MAX then Inr (BAD_VALUE, p, e)
      else
        bindE (continueWrite proxy junk n p e) (\<lambda>(err, p, e).
        Inr (err, if err = NO_ERROR then p\<lparr>mDataSize := n\<rparr> else p, e)))"

section \<open>Writing\<close>

text \<open>Writing bytes into the block, which must have room for them.\<close>

definition data_store :: "nat \<Rightarrow> u8 list \<Rightarrow> parcel \<Rightarrow> parcel chk" where
  "data_store off xs p =
     bindE (derefE NullDeref (mData p)) (\<lambda>data.
     bindE (mem_write data off xs) (\<lambda>data. Inr (p\<lparr>mData := Some data\<rparr>)))"

text \<open>
  The masks of a little endian machine keep the first \<open>4 - k\<close> of the last four bytes, where \<open>k\<close> is the
  amount of padding.
\<close>

definition pad_mask :: "nat \<Rightarrow> u32" where
  "pad_mask k = [0x00000000, 0x00FFFFFF, 0x0000FFFF, 0x000000FF] ! k"

text \<open>
  From the label \<open>restart_write\<close> on. The result is the offset of the place to write to, or \<open>None\<close>
  when that is a null pointer.
\<close>

definition writeInplace_at :: "nat \<Rightarrow> nat \<Rightarrow> parcel \<Rightarrow> (nat option \<times> parcel) chk" where
  "writeInplace_at n padded p =
     (let off = mDataPos p
      in bindE (if padded \<noteq> n then
                  bindE (derefE NullDeref (mData p)) (\<lambda>data.
                  bindE (mem_read data (off + padded - 4) 4) (\<lambda>last.
                  data_store (off + padded - 4) (le_bytes 4 (le_word last AND pad_mask (padded - n))) p))
                else Inr p) (\<lambda>p.
         let (_, p) = finishWrite padded p
         in Inr (if mData p = None \<and> off = 0 then None else Some off, p)))"

definition writeInplace ::
    "(u32 \<Rightarrow> nat option) \<Rightarrow> u8 \<Rightarrow> nat \<Rightarrow> parcel \<Rightarrow> parcel_env \<Rightarrow> (nat option \<times> parcel \<times> parcel_env) chk" where
  "writeInplace proxy junk n p e =
     (if n > INT32_MAX then Inr (None, p, e)
      else
        let padded = pad_size n
        in if size_wrap (mDataPos p + padded) < mDataPos p then Inr (None, p, e)
           else if size_wrap (mDataPos p + padded) \<le> mDataCapacity p then
             bindE (writeInplace_at n padded p) (\<lambda>(d, p). Inr (d, p, e))
           else
             bindE (growData proxy junk padded p e) (\<lambda>(err, p, e).
             if err = NO_ERROR then bindE (writeInplace_at n padded p) (\<lambda>(d, p). Inr (d, p, e))
             else Inr (None, p, e)))"

definition Parcel_write ::
    "(u32 \<Rightarrow> nat option) \<Rightarrow> u8 \<Rightarrow> u8 list \<Rightarrow> parcel \<Rightarrow> parcel_env \<Rightarrow> (int \<times> parcel \<times> parcel_env) chk" where
  "Parcel_write proxy junk xs p e =
     (if length xs > INT32_MAX then Inr (BAD_VALUE, p, e)
      else
        bindE (writeInplace proxy junk (length xs) p e) (\<lambda>(d, p, e).
        case d of
          Some off \<Rightarrow> bindE (if xs = [] then Inr p else data_store off xs p) (\<lambda>p. Inr (NO_ERROR, p, e))
        | None \<Rightarrow> Inr (mError p, p, e)))"

text \<open>\<open>writeAligned\<close> for a value of \<open>length bs\<close> bytes in memory, a multiple of four.\<close>

definition writeAligned ::
    "(u32 \<Rightarrow> nat option) \<Rightarrow> u8 \<Rightarrow> u8 list \<Rightarrow> parcel \<Rightarrow> parcel_env \<Rightarrow> (int \<times> parcel \<times> parcel_env) chk" where
  "writeAligned proxy junk bs p e =
     (if size_wrap (mDataPos p + length bs) \<le> mDataCapacity p then
        bindE (data_store (mDataPos p) bs p) (\<lambda>p.
        case finishWrite (length bs) p of (err, p) \<Rightarrow> Inr (err, p, e))
      else
        bindE (growData proxy junk (length bs) p e) (\<lambda>(err, p, e).
        if err = NO_ERROR then
          bindE (data_store (mDataPos p) bs p) (\<lambda>p.
          case finishWrite (length bs) p of (err, p) \<Rightarrow> Inr (err, p, e))
        else Inr (err, p, e)))"

definition writeInt32 ::
    "(u32 \<Rightarrow> nat option) \<Rightarrow> u8 \<Rightarrow> u32 \<Rightarrow> parcel \<Rightarrow> parcel_env \<Rightarrow> (int \<times> parcel \<times> parcel_env) chk" where
  "writeInt32 proxy junk val p e = writeAligned proxy junk (le_bytes 4 val) p e"

section \<open>Receiving\<close>

text \<open>
  The loop over the offsets of a received buffer: \<open>None\<close> when all are good, otherwise whether the
  objects are released before they are forgotten.
\<close>

fun ipc_check_loop :: "u8 list option \<Rightarrow> u64 \<Rightarrow> u64 list \<Rightarrow> bool option chk" where
  "ipc_check_loop data minOffset [] = Inr None"
| "ipc_check_loop data minOffset (off # offs) =
     (if off < minOffset then Inr (Some False)
      else
        bindE (derefE NullDeref data) (\<lambda>d.
        bindE (flat_type d (unat off)) (\<lambda>t.
        if \<not> (t = BINDER_TYPE_BINDER \<or> t = BINDER_TYPE_HANDLE \<or> t = BINDER_TYPE_FD) then Inr (Some True)
        else ipc_check_loop data (off + of_nat SIZEOF_flat_binder_object) offs)))"

definition ipcSetDataReference ::
    "(u32 \<Rightarrow> nat option) \<Rightarrow> u8 list option \<Rightarrow> nat \<Rightarrow> u64 list option \<Rightarrow> nat \<Rightarrow> nat option \<Rightarrow>
     parcel \<Rightarrow> parcel_env \<Rightarrow> (parcel \<times> parcel_env) chk" where
  "ipcSetDataReference proxy data dataSz objects objectsCount releaseFunc p e =
     bindE (freeDataNoInit proxy p e) (\<lambda>e.
     let p = p\<lparr>mError := NO_ERROR, mData := data, mDataSize := dataSz, mDataCapacity := dataSz,
               mObjects := objects, mObjectsSize := objectsCount, mObjectsCapacity := objectsCount,
               mNextObjectHint := 0, mObjectsSorted := False, mOwner := releaseFunc\<rparr>
     in bindE (objects_used p) (\<lambda>offs.
        bindE (ipc_check_loop data 0 offs) (\<lambda>bad.
        bindE (case bad of
                 None \<Rightarrow> Inr (p, e)
               | Some release \<Rightarrow>
                   bindE (if release then releaseObjects proxy p e else Inr e) (\<lambda>e.
                   Inr (p\<lparr>mObjectsSize := 0\<rparr>, e))) (\<lambda>(p, e).
        bindE (scanForFds p) (\<lambda>p. Inr (p, e))))))"

definition ipcDataSize :: "parcel \<Rightarrow> nat" where
  "ipcDataSize p = (if mDataSize p > mDataPos p then mDataSize p else mDataPos p)"

definition ipcObjectsCount :: "parcel \<Rightarrow> nat" where
  "ipcObjectsCount p = mObjectsSize p"

end
