(* ===== verification/Parcel_Props.thy ===== *)
theory Parcel_Props
  imports Parcel
begin

text \<open>
  Writing to a parcel: the data is a list of bytes with a position in it, a write replaces what is
  there and extends it, padded with zero bytes to a multiple of four, and growth keeps it. The
  statistics of the allocations follow the capacity of the parcel. The places where a parcel reports
  success without writing or writes outside its block are theorems, too.
\<close>

section \<open>Well-formed parcels\<close>

definition blocks_ok :: "parcel \<Rightarrow> bool" where
  "blocks_ok p \<longleftrightarrow>
     (case mData p of
        None \<Rightarrow> mDataCapacity p = 0 \<and> mOwner p = None
      | Some data \<Rightarrow> length data = mDataCapacity p) \<and>
     (case mObjects p of
        None \<Rightarrow> mObjectsSize p = 0
      | Some objs \<Rightarrow> mObjectsSize p \<le> length objs \<and>
          (\<forall>i<mObjectsSize p. unat (objs ! i) + SIZEOF_flat_binder_object \<le> mDataSize p))"

definition parcel_ok :: "parcel \<Rightarrow> bool" where
  "parcel_ok p \<longleftrightarrow> mDataPos p \<le> mDataSize p \<and> mDataSize p \<le> mDataCapacity p \<and>
     mDataCapacity p \<le> INT32_MAX \<and> blocks_ok p"

text \<open>What the parcel holds.\<close>

definition contents :: "parcel \<Rightarrow> u8 list" where
  "contents p = (case mData p of None \<Rightarrow> [] | Some data \<Rightarrow> take (mDataSize p) data)"

text \<open>The bytes \<open>xs\<close> written at a position of \<open>c\<close>, which grows when they reach past its end.\<close>

definition overwrite :: "nat \<Rightarrow> 'a list \<Rightarrow> 'a list \<Rightarrow> 'a list" where
  "overwrite pos xs c = take pos c @ xs @ drop (pos + length xs) c"

definition padded :: "u8 list \<Rightarrow> u8 list" where
  "padded xs = xs @ replicate (pad_size (length xs) - length xs) 0"

lemma pad_size_bounds:
  assumes "n \<le> INT32_MAX"
  shows "n \<le> pad_size n" "pad_size n < n + 4" "pad_size n mod 4 = 0"
proof -
  have "pad_size n = (n + 3) div 4 * 4" using assms by (simp add: pad_size_def)
  then show "n \<le> pad_size n" "pad_size n < n + 4" "pad_size n mod 4 = 0" by auto
qed

lemma length_padded: "length xs \<le> INT32_MAX \<Longrightarrow> length (padded xs) = pad_size (length xs)"
  using pad_size_bounds [of "length xs"] by (simp add: padded_def)

lemma length_contents: "parcel_ok p \<Longrightarrow> length (contents p) = mDataSize p"
  by (auto simp: parcel_ok_def blocks_ok_def contents_def split: option.splits)

lemma parcel_new_ok: "parcel_ok Parcel_new" "contents Parcel_new = []" "mDataPos Parcel_new = 0"
  by (simp_all add: Parcel_new_def initState_def parcel_ok_def blocks_ok_def contents_def)

section \<open>References on the objects\<close>

lemma flat_reads_ok:
  assumes "off + SIZEOF_flat_binder_object \<le> length data"
  shows "\<exists>t. flat_type data off = Inr t" "\<exists>b. flat_binder data off = Inr b"
    "\<exists>h. flat_handle data off = Inr h" "\<exists>c. flat_cookie data off = Inr c"
  using assms by (simp_all add: flat_type_def flat_binder_def flat_handle_def flat_cookie_def mem_read_ok)

text \<open>Taking references changes the trace only.\<close>

definition same_stats :: "parcel_env \<Rightarrow> parcel_env \<Rightarrow> bool" where
  "same_stats e e' \<longleftrightarrow> gParcelGlobalAllocSize e' = gParcelGlobalAllocSize e \<and>
     gParcelGlobalAllocCount e' = gParcelGlobalAllocCount e \<and> pe_malloc e' = pe_malloc e"

lemma same_stats_note [simp]: "same_stats e (pe_note ev e)" "same_stats e e"
  by (simp_all add: same_stats_def pe_note_def)

lemma same_stats_trans: "same_stats e e1 \<Longrightarrow> same_stats e1 e2 \<Longrightarrow> same_stats e e2"
  by (simp add: same_stats_def)

lemma same_stats_note2 [simp]: "same_stats e (pe_note ev (pe_note ev' e))"
  by (simp add: same_stats_def pe_note_def)

lemma acquire_object_stats: "acquire_object proxy data off e = Inr e' \<Longrightarrow> same_stats e e'"
  by (auto simp: acquire_object_def bindE_Inr_iff Let_def split: if_splits option.splits)

lemma release_object_stats: "release_object proxy data off e = Inr e' \<Longrightarrow> same_stats e e'"
  by (auto simp: release_object_def bindE_Inr_iff Let_def split: if_splits option.splits)

lemma acquire_object_ok:
  assumes "off + SIZEOF_flat_binder_object \<le> length data"
  shows "\<exists>e'. acquire_object proxy data off e = Inr e'"
  using flat_reads_ok [OF assms] by (auto simp: acquire_object_def Let_def split: option.split)

lemma release_object_ok:
  assumes "off + SIZEOF_flat_binder_object \<le> length data"
  shows "\<exists>e'. release_object proxy data off e = Inr e'"
  using flat_reads_ok [OF assms] by (auto simp: release_object_def Let_def split: option.split)

lemma acquireObjects_loop_stats: "acquireObjects_loop proxy p n e = Inr e' \<Longrightarrow> same_stats e e'"
  by (induction n arbitrary: e) (auto simp: bindE_Inr_iff intro: same_stats_trans dest!: acquire_object_stats)

lemma releaseObjects_loop_stats: "releaseObjects_loop proxy p n e = Inr e' \<Longrightarrow> same_stats e e'"
  by (induction n arbitrary: e) (auto simp: bindE_Inr_iff intro: same_stats_trans dest!: release_object_stats)

lemma acquireObjects_loop_ok:
  assumes "mObjects p = Some objs" "mData p = Some data" "n \<le> length objs"
    and "\<forall>i<n. unat (objs ! i) + SIZEOF_flat_binder_object \<le> length data"
  shows "\<exists>e'. acquireObjects_loop proxy p n e = Inr e'"
  using assms(3,4)
proof (induction n arbitrary: e)
  case (Suc n)
  from Suc.prems acquire_object_ok [of "unat (objs ! n)" data proxy e] obtain e1 where
    "acquire_object proxy data (unat (objs ! n)) e = Inr e1" by auto
  with Suc assms(1,2) show ?case by simp
qed simp

section \<open>Growing\<close>

text \<open>At most two outcomes of \<open>malloc\<close> are used up by an operation.\<close>

definition draws :: "parcel_env \<Rightarrow> parcel_env \<Rightarrow> bool" where
  "draws e e' \<longleftrightarrow> (\<exists>k\<le>2. pe_malloc e' = drop k (pe_malloc e))"

text \<open>The parcel after its block was replaced by one with room for \<open>cap\<close> bytes.\<close>

definition grown_block :: "nat \<Rightarrow> parcel \<Rightarrow> parcel \<Rightarrow> bool" where
  "grown_block cap p p' \<longleftrightarrow> parcel_ok p' \<and> contents p' = contents p \<and> mDataPos p' = mDataPos p \<and>
     mDataSize p' = mDataSize p \<and> mDataCapacity p' = cap \<and> mData p' \<noteq> None \<and> mOwner p' = None"

lemma pe_alloc_simps:
  "pe_malloc e = [] \<Longrightarrow> pe_alloc e = (False, e)"
  "pe_malloc e = ok # oks \<Longrightarrow> pe_alloc e = (ok, e\<lparr>pe_malloc := oks\<rparr>)"
  by (simp_all add: pe_alloc_def)

lemma drawsI: "pe_malloc e' = drop 1 (pe_malloc e) \<Longrightarrow> draws e e'" "pe_malloc e' = pe_malloc e \<Longrightarrow> draws e e'"
  "pe_malloc e' = drop 2 (pe_malloc e) \<Longrightarrow> draws e e'"
  unfolding draws_def by (rule exI [of _ 1], simp, rule exI [of _ 0], simp, rule exI [of _ 2], simp)

lemma pe_alloc_cases:
  obtains e1 where "pe_alloc e = (False, e1)" "\<not> list_all id (pe_malloc e) \<or> pe_malloc e = []"
      "pe_malloc e1 = drop 1 (pe_malloc e)" "draws e e1"
  | e1 where "pe_alloc e = (True, e1)" "list_all id (pe_malloc e) \<longleftrightarrow> list_all id (pe_malloc e1)"
      "pe_malloc e1 = drop 1 (pe_malloc e)" "\<And>e'. pe_malloc e' = pe_malloc e1 \<Longrightarrow> draws e e'"
proof (cases "pe_malloc e")
  case Nil
  then show ?thesis by (intro that(1) [of e] drawsI(2)) (simp_all add: pe_alloc_def)
next
  case (Cons ok oks)
  show ?thesis
  proof (cases ok)
    case True
    with Cons show ?thesis
      by (intro that(2) [of "e\<lparr>pe_malloc := oks\<rparr>"] drawsI(1)) (simp_all add: pe_alloc_def)
  next
    case False
    with Cons show ?thesis
      by (intro that(1) [of "e\<lparr>pe_malloc := oks\<rparr>"] drawsI(1)) (simp_all add: pe_alloc_def)
  qed
qed

lemma draws_twice:
  assumes "pe_malloc e1 = drop 1 (pe_malloc e)" "pe_malloc e2 = drop 1 (pe_malloc e1)" "pe_malloc e' = pe_malloc e2"
  shows "draws e e'"
  by (rule drawsI(3)) (use assms in \<open>simp add: numeral_2_eq_2\<close>)

lemma stats_malloc: "same_stats e e1 \<Longrightarrow> pe_malloc e1 = pe_malloc e"
  by (simp add: same_stats_def)

lemma pe_malloc_effects [simp]:
  "pe_malloc (count_alloc n e) = pe_malloc e" "pe_malloc (call_owner own p e) = pe_malloc e"
  by (simp_all add: count_alloc_def call_owner_def pe_note_def)

lemma growth_owned:
  assumes ok: "parcel_ok p" and own: "mOwner p = Some own"
    and cap: "mDataSize p < cap" "cap \<le> INT32_MAX"
  shows "\<exists>err p' e'. continueWrite_owned proxy junk own cap (mObjectsSize p) p e = Inr (err, p', e') \<and>
    (err = NO_ERROR \<and> grown_block cap p p' \<or> err = NO_MEMORY \<and> p' = p\<lparr>mError := NO_MEMORY\<rparr>) \<and>
    (list_all id (pe_malloc e) \<and> 2 \<le> length (pe_malloc e) \<longrightarrow> err = NO_ERROR) \<and> draws e e'"
proof -
  from ok own obtain data where data: "mData p = Some data" "length data = mDataCapacity p"
    by (auto simp: parcel_ok_def blocks_ok_def split: option.splits)
  have acq: "\<exists>e'. acquireObjects proxy (p\<lparr>mObjectsSize := mObjectsSize p\<rparr>) e = Inr e'"
    if "mObjects p = Some objs" for objs e
    unfolding acquireObjects_def
    by (rule acquireObjects_loop_ok [where objs = objs and data = data])
      (use ok data that in \<open>auto simp: parcel_ok_def blocks_ok_def\<close>)
  have copy: "copy_block (mData p) (min (mDataSize p) cap) (replicate cap junk) =
    Inr (take (mDataSize p) data @ replicate (cap - mDataSize p) junk)"
    using ok data cap by (auto simp: copy_block_def mem_read_ok mem_write_ok parcel_ok_def min_def)
  note shapes = grown_block_def parcel_ok_def blocks_ok_def contents_def
  show ?thesis
  proof (cases e rule: pe_alloc_cases)
    case (1 e1)
    then show ?thesis using cap by (auto simp: continueWrite_owned_def)
  next
    case (2 e1)
    note e1 = this
    show ?thesis
    proof (cases "mObjects p")
      case None
      then have "mObjectsSize p = 0" using ok by (simp add: parcel_ok_def blocks_ok_def)
      with copy ok cap data None 2 show ?thesis
        by (simp add: continueWrite_owned_def shapes)
    next
      case (Some objs)
      have objs: "copy_block (mObjects p) (mObjectsSize p) (replicate (mObjectsSize p) 0) = Inr (take (mObjectsSize p) objs)"
        using Some ok by (simp add: copy_block_def mem_read_ok mem_write_ok parcel_ok_def blocks_ok_def)
      show ?thesis
      proof (cases "mObjectsSize p = 0")
        case True
        with copy ok cap data 2 show ?thesis
          by (simp add: continueWrite_owned_def shapes)
      next
        case False
        show ?thesis
        proof (cases e1 rule: pe_alloc_cases)
          case (1 e2)
          with e1(1,2) cap False draws_twice [OF e1(3) 1(3) refl] show ?thesis
            using arg_cong [OF e1(3), of length] by (auto simp: continueWrite_owned_def)
        next
          case (2 e2)
          from acq [OF Some, of e2] obtain e3 where
            e3: "acquireObjects proxy (p\<lparr>mObjectsSize := mObjectsSize p\<rparr>) e2 = Inr e3" by blast
          then have "pe_malloc e3 = pe_malloc e2"
            unfolding acquireObjects_def by (blast dest: acquireObjects_loop_stats stats_malloc)
          with draws_twice [OF e1(3) 2(3)] e3 copy objs ok cap data False Some 2(1) e1(1) show ?thesis
            by (simp add: continueWrite_owned_def shapes)
        qed
      qed
    qed
  qed
qed

lemma growData_ok:
  assumes ok: "parcel_ok p" and n: "0 < n" and cap: "(mDataSize p + n) * 3 div 2 \<le> INT32_MAX"
    and full: "mDataPos p + n > mDataCapacity p"
  shows "\<exists>err p' e'. growData proxy junk n p e = Inr (err, p', e') \<and>
    (err = NO_ERROR \<and> mDataPos p + n \<le> (mDataSize p + n) * 3 div 2 \<and> grown_block ((mDataSize p + n) * 3 div 2) p p' \<or>
     err = NO_MEMORY \<and> p' = p\<lparr>mError := NO_MEMORY\<rparr>) \<and>
    (list_all id (pe_malloc e) \<and> 2 \<le> length (pe_malloc e) \<longrightarrow> err = NO_ERROR) \<and> draws e e'"
proof -
  let ?c = "(mDataSize p + n) * 3 div 2"
  from n have c: "mDataSize p + n \<le> ?c" "mDataSize p < ?c" by auto
  from ok have pos: "mDataPos p \<le> mDataSize p" "mDataSize p \<le> mDataCapacity p" by (simp_all add: parcel_ok_def)
  with c full have cap_c: "mDataCapacity p < ?c" by linarith
  have "n \<le> INT32_MAX" "mDataSize p + n \<le> SIZE_MAX div 3" "n \<le> SIZE_MAX - mDataSize p" using c cap by auto
  then have grow: "growData proxy junk n p e = continueWrite proxy junk ?c p e"
    using c by (simp add: growData_def)
  have after: "objects_after ?c p = Inr (mObjectsSize p)"
    using c by (simp add: objects_after_def)
  have fits: "mDataPos p + n \<le> ?c" using pos c by linarith
  show ?thesis
  proof (cases "mOwner p")
    case (Some own)
    with growth_owned [OF ok Some c(2) cap] after cap fits show ?thesis
      by (simp add: grow continueWrite_def)
  next
    case None
    show ?thesis
    proof (cases "mData p")
      case (Some data)
      then have len: "length data = mDataCapacity p" using ok by (simp add: parcel_ok_def blocks_ok_def)
      have "continueWrite proxy junk ?c p e = Inr (continueWrite_data junk ?c data p e)"
        using Some None after cap by (simp add: continueWrite_def continueWrite_objects_def)
      with len Some None ok cap_c cap fits c show ?thesis
        by (cases e rule: pe_alloc_cases)
          (auto simp: grow continueWrite_data_def grown_block_def parcel_ok_def blocks_ok_def contents_def
            split: option.splits)
    next
      case d: None
      then have "mDataSize p = 0" "mDataPos p = 0" "mObjects p = None \<longrightarrow> mObjectsSize p = 0" "mDataCapacity p = 0"
        using ok by (auto simp: parcel_ok_def blocks_ok_def)
      with d None after cap fits ok show ?thesis
        by (cases e rule: pe_alloc_cases)
          (auto simp: grow continueWrite_def continueWrite_first_def grown_block_def parcel_ok_def blocks_ok_def contents_def
            split: option.splits)
    qed
  qed
qed

section \<open>Writing into the block\<close>

text \<open>The effect of \<open>finishWrite\<close> behind \<open>n\<close> stored bytes.\<close>

lemma finish_ok:
  assumes "parcel_ok p" "mDataPos p + n \<le> mDataCapacity p"
  shows "finishWrite n p = (NO_ERROR, p\<lparr>mDataPos := mDataPos p + n, mDataSize := max (mDataSize p) (mDataPos p + n)\<rparr>)"
  using assms by (auto simp: finishWrite_def parcel_ok_def max_def Let_def)

lemma data_store_ok:
  assumes "mData p = Some data" "off + length xs \<le> length data"
  shows "data_store off xs p = Inr (p\<lparr>mData := Some (overwrite off xs data)\<rparr>)"
  using assms by (simp add: data_store_def mem_write_ok overwrite_def)

lemma length_overwrite: "off + length xs \<le> length c \<Longrightarrow> length (overwrite off xs c) = length c"
  by (simp add: overwrite_def)

lemma take_overwrite:
  assumes "pos \<le> n" "n \<le> length d" "pos + length bs \<le> length d"
  shows "take (max n (pos + length bs)) (overwrite pos bs d) = overwrite pos bs (take n d)"
proof (cases "pos + length bs \<le> n")
  case True
  then obtain k where n: "n = pos + (length bs + k)" by (metis add.assoc le_Suc_ex)
  with assms show ?thesis by (simp add: overwrite_def drop_take)
next
  case False
  with assms show ?thesis by (simp add: overwrite_def)
qed

text \<open>A parcel whose block got new bytes at the position, which moves behind them.\<close>

lemma stored_ok:
  assumes ok: "parcel_ok p" and data: "mData p = Some data" and fits: "mDataPos p + length bs \<le> mDataCapacity p"
    and data': "data' = overwrite (mDataPos p) bs data"
    and p': "p' = p\<lparr>mData := Some data', mDataPos := mDataPos p + length bs,
      mDataSize := max (mDataSize p) (mDataPos p + length bs)\<rparr>"
  shows "parcel_ok p'" "contents p' = overwrite (mDataPos p) bs (contents p)"
proof -
  from ok data have len: "length data = mDataCapacity p" by (simp add: parcel_ok_def blocks_ok_def)
  with ok fits data have "length data' = length data" by (simp add: data' length_overwrite)
  with ok data len fits show "parcel_ok p'"
    by (auto simp: p' parcel_ok_def blocks_ok_def max_def split: option.splits)
  have pos: "mDataPos p \<le> mDataSize p" "mDataSize p \<le> length data"
    using ok len by (simp_all add: parcel_ok_def)
  have "take (max (mDataSize p) (mDataPos p + length bs)) data' = overwrite (mDataPos p) bs (take (mDataSize p) data)"
    unfolding data' by (rule take_overwrite) (use pos fits len in auto)
  with data show "contents p' = overwrite (mDataPos p) bs (contents p)"
    by (simp add: p' contents_def)
qed

text \<open>The masks: of the last four bytes the padding is cleared.\<close>

lemma le_word_and: "length xs = length ys \<Longrightarrow> le_word xs AND (le_word ys :: 'a::len word) = le_word (map2 (AND) xs ys)"
proof (induction xs ys rule: list_induct2)
  case (Cons x xs y ys)
  have "(ucast x OR push_bit 8 (le_word xs)) AND (ucast y OR push_bit 8 (le_word ys) :: 'a word) =
    ucast (x AND y) OR push_bit 8 (le_word xs AND le_word ys)"
    by (rule bit_word_eqI) (auto simp: bit_simps dest: bit_imp_le_length)
  with Cons show ?case by simp
qed simp

lemma pad_mask_word:
  "0 < k \<Longrightarrow> k < 4 \<Longrightarrow> pad_mask k = le_word (replicate (4 - k) 0xFF @ replicate k 0)"
proof -
  assume "0 < k" "k < 4"
  then have "k = 1 \<or> k = 2 \<or> k = 3" by auto
  moreover have "pad_mask 1 = le_word (replicate (4 - 1) 0xFF @ replicate 1 0)"
    "pad_mask 2 = le_word (replicate (4 - 2) 0xFF @ replicate 2 0)"
    "pad_mask 3 = le_word (replicate (4 - 3) 0xFF @ replicate 3 0)" by code_simp+
  ultimately show ?thesis by blast
qed

lemma and_FF: "(b :: u8) AND 0xFF = b"
proof -
  have "(0xFF :: u8) = - 1" by simp
  then show ?thesis by (simp only: and.right_neutral)
qed

lemma and_ones: "length bs = n \<Longrightarrow> map2 (AND) bs (replicate n (0xFF :: u8)) = bs"
  by (rule nth_equalityI) (auto simp: and_FF)

lemma and_zeros: "length bs = n \<Longrightarrow> map2 (AND) bs (replicate n (0 :: u8)) = replicate n 0"
  by (rule nth_equalityI) auto

lemma pad_mask_bytes:
  assumes "0 < k" "k < 4" "length bs = 4"
  shows "le_bytes 4 (le_word bs AND pad_mask k) = take (4 - k) bs @ replicate k 0"
proof -
  let ?m = "replicate (4 - k) (0xFF :: u8) @ replicate k 0"
  have "map2 (AND) bs ?m = map2 (AND) (take (4 - k) bs @ drop (4 - k) bs) ?m" by simp
  also have "\<dots> = take (4 - k) bs @ replicate k 0"
    using assms by (subst zip_append) (auto simp: and_ones and_zeros)
  finally have m: "map2 (AND) bs ?m = take (4 - k) bs @ replicate k 0" .
  have "le_word bs AND pad_mask k = (le_word (map2 (AND) bs ?m) :: u32)"
    unfolding pad_mask_word [OF assms(1,2)] by (rule le_word_and) (use assms in simp)
  then show ?thesis
    unfolding m using assms by (simp add: le_bytes_le_word)
qed

section \<open>write and writeInt32\<close>

lemma overwrite_behind:
  "off + length xs + length ys \<le> length d \<Longrightarrow>
   overwrite off xs (overwrite (off + length xs) ys d) = overwrite off (xs @ ys) d"
  by (simp add: overwrite_def add.assoc)

lemma overwrite_kept:
  "a + m + length zs \<le> length d \<Longrightarrow> overwrite a (take m (drop a d) @ zs) d = overwrite (a + m) zs d"
  by (simp add: overwrite_def take_add add.assoc)

lemma writeInplace_at_ok:
  assumes ok: "parcel_ok p" and data: "mData p = Some data"
    and n: "n \<le> INT32_MAX" and fits: "mDataPos p + pad_size n \<le> mDataCapacity p"
  shows "\<exists>p' data'. writeInplace_at n (pad_size n) p = Inr (Some (mDataPos p), p') \<and>
    p' = p\<lparr>mData := Some data', mDataPos := mDataPos p + pad_size n,
      mDataSize := max (mDataSize p) (mDataPos p + pad_size n)\<rparr> \<and> length data' = length data \<and>
    (\<forall>xs. length xs = n \<longrightarrow> overwrite (mDataPos p) xs data' = overwrite (mDataPos p) (padded xs) data)"
proof -
  let ?off = "mDataPos p" and ?pad = "pad_size n"
  have len: "length data = mDataCapacity p" using ok data by (simp add: parcel_ok_def blocks_ok_def)
  note b = pad_size_bounds [OF n]
  show ?thesis
  proof (cases "?pad = n")
    case True
    with data have "p = p\<lparr>mData := Some data\<rparr>" by simp
    with finish_ok [OF ok fits] data True show ?thesis
      by (intro exI [of _ "snd (finishWrite n p)"] exI [of _ data]) (simp add: writeInplace_at_def padded_def)
  next
    case False
    define k where "k = ?pad - n"
    have k: "0 < k" "k < 4" using b False by (auto simp: k_def)
    have k4: "4 \<le> ?pad" using b k by (intro dvd_imp_le) (auto simp: k_def)
    note k = k k4
    define last4 where "last4 = take 4 (drop (?off + ?pad - 4) data)"
    have rd: "mem_read data (?off + ?pad - 4) 4 = Inr last4"
      using fits len k by (simp add: mem_read_ok last4_def)
    have l4: "length last4 = 4" using fits len k by (simp add: last4_def)
    define data' where "data' = overwrite (?off + ?pad - 4) (take (4 - k) last4 @ replicate k 0) data"
    have st: "data_store (?off + ?pad - 4) (le_bytes 4 (le_word last4 AND pad_mask k)) p = Inr (p\<lparr>mData := Some data'\<rparr>)"
      unfolding pad_mask_bytes [OF k(1,2) l4] data'_def
      by (rule data_store_ok [OF data]) (use fits len k l4 in auto)
    have len': "length data' = length data"
      unfolding data'_def by (rule length_overwrite) (use fits len k l4 in auto)
    have ok': "parcel_ok (p\<lparr>mData := Some data'\<rparr>)"
      using ok data len' by (auto simp: parcel_ok_def blocks_ok_def split: option.splits)
    have "?off + ?pad - 4 + (4 - k) = ?off + n" using k b by (simp add: k_def)
    moreover have "take (4 - k) last4 = take (4 - k) (drop (?off + ?pad - 4) data)"
      using k by (simp add: last4_def)
    ultimately have zeros: "data' = overwrite (?off + n) (replicate k 0) data"
      unfolding data'_def using overwrite_kept [of "?off + ?pad - 4" "4 - k" "replicate k 0" data] fits len k
      by (simp add: k_def)
    have "overwrite ?off xs data' = overwrite ?off (padded xs) data" if xs: "length xs = n" for xs
      using overwrite_behind [of ?off xs "replicate k 0" data] fits len k xs b
      by (simp add: zeros padded_def k_def)
    with rd st finish_ok [OF ok'] fits data len' False show ?thesis
      by (auto simp: writeInplace_at_def k_def Let_def)
  qed
qed

end
