(* ===== verification/Parcel_Marshal.thy ===== *)
theory Parcel_Marshal
  imports Parcel_Props
begin

text \<open>
  What a parcel promises its users: the outcome of each write, the encoding of a sequence of integers,
  the statistics of the allocations, and the calls after which the promise is broken.
\<close>

section \<open>One write\<close>

lemma overwrite_overwrite:
  assumes "pos \<le> length c" "length xs \<le> length ys" "pos + length ys \<le> length c"
  shows "length (overwrite pos ys c) = length c"
  using assms by (simp add: overwrite_def)

lemma Parcel_write_room:
  assumes ok: "parcel_ok p" and n: "length xs \<le> INT32_MAX" and data: "mData p \<noteq> None"
    and fits: "mDataPos p + pad_size (length xs) \<le> mDataCapacity p"
  shows "\<exists>p'. bindE (writeInplace_at (length xs) (pad_size (length xs)) p) (\<lambda>(d, p). Inr (d, p, e)) = Inr (Some (mDataPos p), p', e) \<and>
    (\<exists>p''. (if xs = [] then Inr p' else data_store (mDataPos p) xs p') = Inr p'' \<and>
      parcel_ok p'' \<and> contents p'' = overwrite (mDataPos p) (padded xs) (contents p) \<and>
      mDataPos p'' = mDataPos p + pad_size (length xs))"
proof -
  from data obtain d where d: "mData p = Some d" by blast
  from writeInplace_at_ok [OF ok d n fits] obtain p' d' where
    p': "writeInplace_at (length xs) (pad_size (length xs)) p = Inr (Some (mDataPos p), p')"
      "p' = p\<lparr>mData := Some d', mDataPos := mDataPos p + pad_size (length xs),
        mDataSize := max (mDataSize p) (mDataPos p + pad_size (length xs))\<rparr>"
      "length d' = length d" "overwrite (mDataPos p) xs d' = overwrite (mDataPos p) (padded xs) d"
    by blast
  have len: "length d = mDataCapacity p" using ok d by (simp add: parcel_ok_def blocks_ok_def)
  note pad = pad_size_bounds(1) [OF n] length_padded [OF n]
  define p'' where "p'' = p'\<lparr>mData := Some (overwrite (mDataPos p) (padded xs) d)\<rparr>"
  have "(if xs = [] then Inr p' else data_store (mDataPos p) xs p') = Inr p''"
  proof (cases "xs = []")
    case True
    then have "d' = overwrite (mDataPos p) (padded xs) d" using p'(4) by (simp add: overwrite_def)
    then show ?thesis using True by (simp add: p''_def p'(2))
  next
    case False
    with p' fits pad len data_store_ok [of p' d' "mDataPos p" xs] show ?thesis by (simp add: p''_def)
  qed
  moreover have "p'' = p\<lparr>mData := Some (overwrite (mDataPos p) (padded xs) d),
    mDataPos := mDataPos p + length (padded xs), mDataSize := max (mDataSize p) (mDataPos p + length (padded xs))\<rparr>"
    by (simp add: p''_def p'(2) pad)
  moreover from this have "parcel_ok p''" "contents p'' = overwrite (mDataPos p) (padded xs) (contents p)"
    using stored_ok [OF ok d, of "padded xs" _ p''] fits pad by auto
  ultimately show ?thesis using p'(1) pad by simp
qed

lemma pad_size_pos: "0 < n \<Longrightarrow> n \<le> INT32_MAX \<Longrightarrow> 0 < pad_size n"
  using pad_size_bounds(1) [of n] by simp

lemma parcel_pos_bound: "parcel_ok p \<Longrightarrow> mDataPos p \<le> INT32_MAX"
  by (simp add: parcel_ok_def)

lemma contents_with_error [simp]: "contents (p\<lparr>mError := err\<rparr>) = contents p"
  by (simp add: contents_def split: option.split)

lemma ok_with_error: "parcel_ok p \<Longrightarrow> parcel_ok (p\<lparr>mError := err\<rparr>)"
  by (auto simp: parcel_ok_def blocks_ok_def split: option.splits)

lemma Parcel_write_result:
  assumes ok: "parcel_ok p" and n: "0 < length xs" and xs: "length xs \<le> INT32_MAX"
    and fits: "(mDataSize p + pad_size (length xs)) * 3 div 2 \<le> INT32_MAX"
  shows "\<exists>err p' e'. Parcel_write proxy junk xs p e = Inr (err, p', e') \<and> parcel_ok p' \<and>
    (if err = NO_ERROR
     then contents p' = overwrite (mDataPos p) (padded xs) (contents p) \<and>
       mDataPos p' = mDataPos p + length (padded xs)
     else err = NO_MEMORY \<and> contents p' = contents p \<and> mDataPos p' = mDataPos p) \<and>
    (list_all id (pe_malloc e) \<and> 2 \<le> length (pe_malloc e) \<longrightarrow> err = NO_ERROR)"
proof -
  let ?pad = "pad_size (length xs)"
  note pad = pad_size_pos [OF n xs] pad_size_bounds [OF xs] length_padded [OF xs]
  have wrap: "size_wrap (mDataPos p + ?pad) = mDataPos p + ?pad"
    using parcel_pos_bound [OF ok] pad xs by simp
  show ?thesis
  proof (cases "mDataPos p + ?pad \<le> mDataCapacity p")
    case True
    with pad have "mData p \<noteq> None" using ok by (cases "mData p") (auto simp: parcel_ok_def blocks_ok_def)
    from Parcel_write_room [OF ok xs this True, of e] True wrap xs pad show ?thesis
      by (auto simp: Parcel_write_def writeInplace_def)
  next
    case False
    then have full: "mDataCapacity p < mDataPos p + ?pad" by simp
    from growData_ok [OF ok pad(1) fits full, of proxy junk e] obtain err p1 e1 where
      g: "growData proxy junk ?pad p e = Inr (err, p1, e1)"
      "err = NO_ERROR \<and> mDataPos p + ?pad \<le> (mDataSize p + ?pad) * 3 div 2 \<and> grown_block ((mDataSize p + ?pad) * 3 div 2) p p1 \<or>
        err = NO_MEMORY \<and> p1 = p\<lparr>mError := NO_MEMORY\<rparr>"
      "list_all id (pe_malloc e) \<and> 2 \<le> length (pe_malloc e) \<longrightarrow> err = NO_ERROR" by blast
    have split: "Parcel_write proxy junk xs p e =
      bindE (if err = NO_ERROR then bindE (writeInplace_at (length xs) ?pad p1) (\<lambda>(d, p). Inr (d, p, e1))
             else Inr (None, p1, e1)) (\<lambda>(d, p, e).
        case d of
          Some off \<Rightarrow> bindE (if xs = [] then Inr p else data_store off xs p) (\<lambda>p. Inr (NO_ERROR, p, e))
        | None \<Rightarrow> Inr (mError p, p, e))"
      using False wrap xs by (simp add: Parcel_write_def writeInplace_def g(1))
    from g(2) show ?thesis
    proof
      assume "err = NO_ERROR \<and> mDataPos p + ?pad \<le> (mDataSize p + ?pad) * 3 div 2 \<and> grown_block ((mDataSize p + ?pad) * 3 div 2) p p1"
      then have e0: "err = NO_ERROR" and gr: "parcel_ok p1" "contents p1 = contents p" "mDataPos p1 = mDataPos p"
        "mData p1 \<noteq> None" "mDataPos p1 + ?pad \<le> mDataCapacity p1" by (auto simp: grown_block_def)
      from Parcel_write_room [OF gr(1) xs gr(4,5), of e1] gr pad show ?thesis
        by (auto simp: split e0)
    next
      assume err: "err = NO_MEMORY \<and> p1 = p\<lparr>mError := NO_MEMORY\<rparr>"
      with g(3) ok_with_error [OF ok] show ?thesis by (auto simp: split)
    qed
  qed
qed

text \<open>C8: writing into a parcel. Let the parcel be well formed, which includes that its position is not behind its data, and let
  the write be of at least one byte and so small that the block it may have to grow to stays below two gigabytes. Then the write
  returns \<open>NO_ERROR\<close> or \<open>NO_MEMORY\<close>, and never the latter while every allocation succeeds. With \<open>NO_ERROR\<close> the bytes at the
  position are replaced by the argument, padded with zero bytes to a multiple of four, the parcel is extended where they reach past
  its end and the position stands behind them; the rest of the contents stays, also when the block grows or is taken over
  from the driver. With \<open>NO_MEMORY\<close> contents and position stay as they were. The parcel is well formed again in both cases.
  (Outside of these conditions the code goes wrong: \<open>position_behind_data_overruns\<close> and \<open>oversized_write_reports_success\<close>.)\<close>

theorem parcel_write_outcome:
  assumes ok: "parcel_ok p" and n: "0 < length xs" and xs: "length xs \<le> INT32_MAX"
    and fits: "(mDataSize p + pad_size (length xs)) * 3 div 2 \<le> INT32_MAX"
  shows "\<exists>err p' e'. Parcel_write proxy junk xs p e = Inr (err, p', e') \<and> parcel_ok p' \<and>
    (if err = NO_ERROR
     then contents p' = overwrite (mDataPos p) (padded xs) (contents p) \<and>
       mDataPos p' = mDataPos p + length (padded xs)
     else err = NO_MEMORY \<and> contents p' = contents p \<and> mDataPos p' = mDataPos p) \<and>
    (list_all id (pe_malloc e) \<and> 2 \<le> length (pe_malloc e) \<longrightarrow> err = NO_ERROR)"
  by (rule Parcel_write_result [OF assms])

text \<open>An environment in which memory is not short.\<close>

definition demo_env :: parcel_env where
  "demo_env = \<lparr>gParcelGlobalAllocSize = 100, gParcelGlobalAllocCount = 3,
     pe_malloc = [True, True, True, True], pe_trace = []\<rparr>"

lemma parcel_write_outcome_witness:
  "\<exists>p' e'. Parcel_write (\<lambda>_. None) 9 [1, 2, 3] Parcel_new demo_env = Inr (NO_ERROR, p', e') \<and>
    contents p' = [1, 2, 3, 0] \<and> mDataPos p' = 4"
proof -
  have size: "mDataSize Parcel_new = 0" by (simp add: Parcel_new_def initState_def)
  have pad: "padded [1, 2, 3] = [1, 2, 3, 0]" by (simp add: padded_def pad_size_def)
  have mem: "list_all id (pe_malloc demo_env) \<and> 2 \<le> length (pe_malloc demo_env)" by (simp add: demo_env_def)
  from parcel_write_outcome [OF parcel_new_ok(1), of "[1, 2, 3]" "\<lambda>_. None" 9 demo_env] mem show ?thesis
    by (auto simp: size pad parcel_new_ok overwrite_def pad_size_def)
qed

section \<open>Integers\<close>

lemma stored_aligned:
  assumes ok: "parcel_ok p" and data: "mData p \<noteq> None" and fits: "mDataPos p + length bs \<le> mDataCapacity p"
  shows "\<exists>p'. bindE (data_store (mDataPos p) bs p) (\<lambda>p. case finishWrite (length bs) p of (err, p) \<Rightarrow> Inr (err, p, e)) =
      Inr (NO_ERROR, p', e) \<and> parcel_ok p' \<and>
    contents p' = overwrite (mDataPos p) bs (contents p) \<and> mDataPos p' = mDataPos p + length bs"
proof -
  from data obtain d where d: "mData p = Some d" by blast
  have len: "length d = mDataCapacity p" using ok d by (simp add: parcel_ok_def blocks_ok_def)
  let ?p = "p\<lparr>mData := Some (overwrite (mDataPos p) bs d)\<rparr>"
  have st: "data_store (mDataPos p) bs p = Inr ?p" by (rule data_store_ok [OF d]) (use fits len in simp)
  have "parcel_ok ?p" using ok d len fits length_overwrite [of "mDataPos p" bs d]
    by (auto simp: parcel_ok_def blocks_ok_def split: option.splits)
  from finish_ok [OF this, of "length bs"] fits stored_ok [OF ok d fits refl refl] st show ?thesis by simp
qed

lemma writeInt32_outcome:
  assumes ok: "parcel_ok p" and fits: "(mDataSize p + 4) * 3 div 2 \<le> INT32_MAX"
  shows "\<exists>err p' e'. writeInt32 proxy junk v p e = Inr (err, p', e') \<and> parcel_ok p' \<and>
    (if err = NO_ERROR
     then contents p' = overwrite (mDataPos p) (le_bytes 4 v) (contents p) \<and> mDataPos p' = mDataPos p + 4
     else err = NO_MEMORY \<and> contents p' = contents p \<and> mDataPos p' = mDataPos p) \<and>
    (list_all id (pe_malloc e) \<and> 2 \<le> length (pe_malloc e) \<longrightarrow> err = NO_ERROR) \<and> draws e e'"
proof -
  have wrap: "size_wrap (mDataPos p + 4) = mDataPos p + 4" using parcel_pos_bound [OF ok] by simp
  have refl_draws: "draws e e" by (rule drawsI) simp
  show ?thesis
  proof (cases "mDataPos p + 4 \<le> mDataCapacity p")
    case True
    then have "mData p \<noteq> None" using ok by (cases "mData p") (auto simp: parcel_ok_def blocks_ok_def)
    from stored_aligned [OF ok this, of "le_bytes 4 v" e] True wrap refl_draws show ?thesis
      by (auto simp: writeInt32_def writeAligned_def)
  next
    case False
    then have full: "mDataCapacity p < mDataPos p + 4" by simp
    from growData_ok [OF ok _ fits full, of proxy junk e] obtain err p1 e1 where
      g: "growData proxy junk 4 p e = Inr (err, p1, e1)"
      "err = NO_ERROR \<and> mDataPos p + 4 \<le> (mDataSize p + 4) * 3 div 2 \<and> grown_block ((mDataSize p + 4) * 3 div 2) p p1 \<or>
        err = NO_MEMORY \<and> p1 = p\<lparr>mError := NO_MEMORY\<rparr>"
      "list_all id (pe_malloc e) \<and> 2 \<le> length (pe_malloc e) \<longrightarrow> err = NO_ERROR" "draws e e1" by auto
    from g(2) show ?thesis
    proof
      assume "err = NO_ERROR \<and> mDataPos p + 4 \<le> (mDataSize p + 4) * 3 div 2 \<and> grown_block ((mDataSize p + 4) * 3 div 2) p p1"
      then have e0: "err = NO_ERROR" and gr: "parcel_ok p1" "contents p1 = contents p" "mDataPos p1 = mDataPos p"
        "mData p1 \<noteq> None" "mDataPos p1 + 4 \<le> mDataCapacity p1" by (auto simp: grown_block_def)
      from stored_aligned [OF gr(1,4), of "le_bytes 4 v" e1] gr False wrap g(1,4) show ?thesis
        by (auto simp: writeInt32_def writeAligned_def e0)
    next
      assume err: "err = NO_MEMORY \<and> p1 = p\<lparr>mError := NO_MEMORY\<rparr>"
      with g False wrap ok_with_error [OF ok] show ?thesis
        by (auto simp: writeInt32_def writeAligned_def)
    qed
  qed
qed

text \<open>A caller that writes integers one after the other, until one cannot be written.\<close>

fun write_ints ::
    "(u32 \<Rightarrow> nat option) \<Rightarrow> u8 \<Rightarrow> u32 list \<Rightarrow> parcel \<Rightarrow> parcel_env \<Rightarrow> (int \<times> parcel \<times> parcel_env) chk" where
  "write_ints proxy junk [] p e = Inr (NO_ERROR, p, e)"
| "write_ints proxy junk (v # vs) p e =
     bindE (writeInt32 proxy junk v p e) (\<lambda>(err, p, e).
     if err = NO_ERROR then write_ints proxy junk vs p e else Inr (err, p, e))"

text \<open>And one who reads them from the contents.\<close>

fun read_ints :: "u8 list \<Rightarrow> u32 list" where
  "read_ints (b0 # b1 # b2 # b3 # bs) = le_word [b0, b1, b2, b3] # read_ints bs"
| "read_ints _ = []"

lemma length_4_cases: "length xs = 4 \<Longrightarrow> \<exists>a b c d. xs = [a, b, c, d]"
  by (auto simp: eval_nat_numeral length_Suc_conv)

lemma read_ints_append: "read_ints (le_bytes 4 v @ bs) = v # read_ints bs"
proof -
  obtain b0 b1 b2 b3 where b: "le_bytes 4 v = [b0, b1, b2, b3]"
    using length_4_cases [OF length_le_bytes [of 4 v]] by blast
  have "le_word (le_bytes 4 v) = v" by (rule le_word_le_bytes) simp
  then show ?thesis unfolding b by (simp only: append.simps read_ints.simps)
qed

lemma read_ints_encoded: "read_ints (concat (map (le_bytes 4) vs)) = vs"
  by (induction vs) (simp_all add: read_ints_append del: le_bytes.simps)

lemma draws_supply:
  assumes "draws e e'" "list_all id (pe_malloc e)" "2 * Suc n \<le> length (pe_malloc e)"
  shows "list_all id (pe_malloc e')" "2 * n \<le> length (pe_malloc e')"
proof -
  from assms(1) obtain k where k: "k \<le> 2" "pe_malloc e' = drop k (pe_malloc e)"
    unfolding draws_def by blast
  show "list_all id (pe_malloc e')"
    using assms(2) set_drop_subset [of k "pe_malloc e"] by (auto simp: k(2) list_all_iff)
  show "2 * n \<le> length (pe_malloc e')" using assms(3) k(1) by (simp add: k(2))
qed

lemma write_ints_ok:
  assumes "parcel_ok p" "mDataPos p = mDataSize p" "(mDataSize p + 4 * length vs) * 3 div 2 \<le> INT32_MAX"
    and "list_all id (pe_malloc e)" "2 * length vs \<le> length (pe_malloc e)"
  shows "\<exists>p' e'. write_ints proxy junk vs p e = Inr (NO_ERROR, p', e') \<and> parcel_ok p' \<and>
    contents p' = contents p @ concat (map (le_bytes 4) vs) \<and> mDataPos p' = mDataSize p'"
  using assms
proof (induction vs arbitrary: p e)
  case Nil
  then show ?case by simp
next
  case (Cons v vs)
  have "(mDataSize p + 4) * 3 div 2 \<le> (mDataSize p + 4 * length (v # vs)) * 3 div 2"
    by (intro div_le_mono) simp
  then have fits: "(mDataSize p + 4) * 3 div 2 \<le> INT32_MAX" using Cons.prems(3) by linarith
  from writeInt32_outcome [OF Cons.prems(1) fits, of proxy junk v e] Cons.prems(4,5) obtain p1 e1 where
    w: "writeInt32 proxy junk v p e = Inr (NO_ERROR, p1, e1)" "parcel_ok p1" "draws e e1"
      "contents p1 = overwrite (mDataPos p) (le_bytes 4 v) (contents p)" "mDataPos p1 = mDataPos p + 4"
    by fastforce
  have c: "contents p1 = contents p @ le_bytes 4 v"
    using w(4) Cons.prems(1,2) length_contents [OF Cons.prems(1)] by (simp add: overwrite_def)
  from length_contents [OF w(2)] c length_contents [OF Cons.prems(1)]
  have size: "mDataSize p1 = mDataSize p + 4" by simp
  have "list_all id (pe_malloc e1)" "2 * length vs \<le> length (pe_malloc e1)"
    using draws_supply [OF w(3), of "length vs"] Cons.prems(4,5) by simp_all
  from Cons.IH [OF w(2) _ _ this] w(1,5) size c Cons.prems(2,3) show ?case
    by (auto simp: algebra_simps)
qed

text \<open>Integers written to a new parcel, any number of them as long as the block stays below two
  gigabytes, are read back from its contents in the order of the writes, and nothing else is in it.\<close>

theorem write_ints_roundtrip:
  assumes "4 * length vs * 3 div 2 \<le> INT32_MAX"
    and "list_all id (pe_malloc e)" "2 * length vs \<le> length (pe_malloc e)"
  shows "\<exists>p' e'. write_ints proxy junk vs Parcel_new e = Inr (NO_ERROR, p', e') \<and>
    contents p' = concat (map (le_bytes 4) vs) \<and> read_ints (contents p') = vs \<and>
    dataSize p' = 4 * length vs \<and> dataAvail p' = 0"
proof -
  have new: "mDataSize Parcel_new = 0" by (simp add: Parcel_new_def initState_def)
  from write_ints_ok [OF parcel_new_ok(1), of vs e proxy junk] assms obtain p' e' where
    p': "write_ints proxy junk vs Parcel_new e = Inr (NO_ERROR, p', e')" "parcel_ok p'"
      "contents p' = concat (map (le_bytes 4) vs)" "mDataPos p' = mDataSize p'"
    by (auto simp: new parcel_new_ok)
  from length_contents [OF p'(2)] have "mDataSize p' = length (concat (map (le_bytes 4) vs))" by (simp add: p'(3))
  also have "\<dots> = 4 * length vs" by (induction vs) simp_all
  finally show ?thesis using p' by (simp add: read_ints_encoded dataSize_def dataAvail_def dataPosition_def)
qed

lemma write_ints_roundtrip_witness:
  "\<exists>p' e'. write_ints (\<lambda>_. None) 9 [7, 0xFFFFFFFF] Parcel_new demo_env = Inr (NO_ERROR, p', e') \<and>
    read_ints (contents p') = [7, 0xFFFFFFFF]"
  using write_ints_roundtrip [of "[7, 0xFFFFFFFF]" demo_env "\<lambda>_. None" 9] by (auto simp: demo_env_def)

end
