(* ===== verification/Parcel_Account.thy ===== *)
theory Parcel_Account
  imports Parcel_Marshal
begin

text \<open>
  The statistics of the parcels: \<open>gParcelGlobalAllocSize\<close> is the sum of the capacities of the blocks
  that the parcels have allocated. Each operation on a parcel keeps this.
\<close>

text \<open>What a parcel contributes, and the sum with the rest \<open>r\<close> of the parcels of the process.\<close>

definition own_capacity :: "parcel \<Rightarrow> nat" where
  "own_capacity p = (if mOwner p = None \<and> mData p \<noteq> None then mDataCapacity p else 0)"

definition accounted :: "nat \<Rightarrow> parcel \<Rightarrow> parcel_env \<Rightarrow> bool" where
  "accounted r p e \<longleftrightarrow> gParcelGlobalAllocSize e = r + own_capacity p \<and> own_capacity p \<le> INT32_MAX \<and>
     r + 2 * INT32_MAX < 18446744073709551616"

lemmas account_defs = accounted_def own_capacity_def

lemma accounted_stats: "same_stats e e' \<Longrightarrow> accounted r p e \<Longrightarrow> accounted r p e'"
  by (simp add: same_stats_def accounted_def)

lemma accounted_same:
  "accounted r p e \<Longrightarrow> mData p' = None \<longleftrightarrow> mData p = None \<Longrightarrow> mOwner p' = mOwner p \<Longrightarrow> mDataCapacity p' = mDataCapacity p \<Longrightarrow>
   accounted r p' e"
  by (auto simp: account_defs)

lemma pe_alloc_stats: "pe_alloc e = (ok, e') \<Longrightarrow>
   gParcelGlobalAllocSize e' = gParcelGlobalAllocSize e \<and> gParcelGlobalAllocCount e' = gParcelGlobalAllocCount e"
  by (auto simp: pe_alloc_def split: list.splits)

lemma pe_alloc_accounted: "pe_alloc e = (ok, e') \<Longrightarrow> accounted r p e \<Longrightarrow> accounted r p e'"
  by (auto simp: accounted_def dest: pe_alloc_stats)

lemma freeDataNoInit_accounted:
  assumes "freeDataNoInit proxy p e = Inr e'" and "accounted r p e"
  shows "gParcelGlobalAllocSize e' = r"
proof (cases "mOwner p")
  case None
  with assms(1) obtain e1 where rel: "releaseObjects proxy p e = Inr e1"
    and e': "e' = (if mData p \<noteq> None then e1\<lparr>gParcelGlobalAllocSize :=
      (if mDataCapacity p \<le> gParcelGlobalAllocSize e1 then gParcelGlobalAllocSize e1 - mDataCapacity p else 0)\<rparr> else e1)"
    by (auto simp: freeDataNoInit_def bindE_Inr_iff split: if_splits)
  from rel have "same_stats e e1" unfolding releaseObjects_def by (rule releaseObjects_loop_stats)
  with accounted_stats [OF this assms(2)] None show ?thesis by (auto simp: e' account_defs)
next
  case (Some own)
  with assms show ?thesis by (auto simp: freeDataNoInit_def call_owner_def pe_note_def account_defs)
qed

lemma freeData_accounted:
  assumes "freeData proxy p e = Inr (p', e')" and "accounted r p e"
  shows "accounted r p' e'"
  using assms freeDataNoInit_accounted [of proxy p e e' r]
  by (auto simp: freeData_def bindE_Inr_iff account_defs initState_def)

lemma count_alloc_accounted:
  "gParcelGlobalAllocSize e = r \<Longrightarrow> r + 2 * INT32_MAX < 18446744073709551616 \<Longrightarrow> desired \<le> INT32_MAX \<Longrightarrow>
   mOwner p = None \<Longrightarrow> mData p \<noteq> None \<Longrightarrow> mDataCapacity p = desired \<Longrightarrow> accounted r p (count_alloc desired e)"
  by (simp add: account_defs count_alloc_def)

lemma continueWrite_owned_accounted:
  assumes run: "continueWrite_owned proxy junk own desired n p e = Inr (err, p', e')" and acc: "accounted r p e"
    and own: "mOwner p = Some own" and desired: "desired \<le> INT32_MAX"
  shows "accounted r p' e'"
proof (cases "desired = 0")
  case True
  with run freeData_accounted [OF _ acc] show ?thesis
    by (auto simp: continueWrite_owned_def bindE_Inr_iff)
next
  case False
  have r: "gParcelGlobalAllocSize e = r" "r + 2 * INT32_MAX < 18446744073709551616"
    using acc own by (simp_all add: account_defs)
  have failed: "accounted r (p\<lparr>mError := NO_MEMORY\<rparr>) e2" if "gParcelGlobalAllocSize e2 = r" for e2
    using that r own by (simp add: account_defs)
  obtain ok1 e1 where a1: "pe_alloc e = (ok1, e1)" by fastforce
  obtain ok2 e2 where a2: "pe_alloc e1 = (ok2, e2)" by fastforce
  have g1: "gParcelGlobalAllocSize e1 = r" using pe_alloc_stats [OF a1] r by simp
  have g2: "gParcelGlobalAllocSize e2 = r" using pe_alloc_stats [OF a2] g1 by simp
  have acq: "gParcelGlobalAllocSize ea' = r" if "acquireObjects proxy q ea = Inr ea'" "gParcelGlobalAllocSize ea = r" for q ea ea'
    using that acquireObjects_loop_stats by (auto simp: acquireObjects_def same_stats_def)
  have fin: "accounted r q (count_alloc desired (call_owner own p ea))"
    if "mOwner q = None" "mData q \<noteq> None" "mDataCapacity q = desired" "gParcelGlobalAllocSize ea = r" for q ea
    by (rule count_alloc_accounted) (use that r desired in \<open>simp_all add: call_owner_def pe_note_def\<close>)
  have alloc: "gParcelGlobalAllocSize eb = r" if "pe_alloc ea = (ok, eb)" "gParcelGlobalAllocSize ea = r" for ea eb ok
    using pe_alloc_stats [OF that(1)] that(2) by simp
  from run False a1 a2 show ?thesis
    by (auto simp: continueWrite_owned_def bindE_Inr_iff Let_def split: bool.splits if_splits
      intro!: failed fin intro: g1 g2 acq alloc r(1))
qed

lemma release_stats: "release_object proxy data off e = Inr e' \<Longrightarrow> gParcelGlobalAllocSize e' = gParcelGlobalAllocSize e"
  using release_object_stats by (auto simp: same_stats_def)

lemma drop_objects_stats:
  "drop_objects proxy data offs fds e = Inr (fds', e') \<Longrightarrow> gParcelGlobalAllocSize e' = gParcelGlobalAllocSize e"
  by (induction offs arbitrary: fds e) (auto simp: bindE_Inr_iff Let_def dest!: release_stats)

lemma continueWrite_objects_accounted:
  assumes "continueWrite_objects proxy data n p e = Inr (p', e')" and "accounted r p e"
  shows "accounted r p' e' \<and> mOwner p' = mOwner p \<and> mData p' = mData p"
  using assms
  by (auto simp: continueWrite_objects_def bindE_Inr_iff Let_def account_defs
    dest!: drop_objects_stats pe_alloc_stats split: if_splits prod.splits bool.splits)

lemma continueWrite_accounted:
  assumes run: "continueWrite proxy junk desired p e = Inr (err, p', e')" and acc: "accounted r p e"
  shows "accounted r p' e'"
proof (cases "desired \<le> INT32_MAX")
  case False
  with run acc show ?thesis by (simp add: continueWrite_def)
next
  case desired: True
  with run obtain n where n: "objects_after desired p = Inr n"
    by (auto simp: continueWrite_def bindE_Inr_iff)
  show ?thesis
  proof (cases "mOwner p")
    case (Some own)
    with run n desired continueWrite_owned_accounted [OF _ acc Some desired] show ?thesis
      by (simp add: continueWrite_def)
  next
    case None
    show ?thesis
    proof (cases "mData p")
      case d: None
      with None run n desired acc show ?thesis
        by (auto simp: continueWrite_def continueWrite_first_def account_defs count_alloc_def
          dest!: pe_alloc_stats split: prod.splits bool.splits)
    next
      case (Some data)
      with None run n desired obtain p1 e1 where
        o: "continueWrite_objects proxy data n p e = Inr (p1, e1)"
        and c: "continueWrite_data junk desired data p1 e1 = (err, p', e')"
        by (auto simp: continueWrite_def bindE_Inr_iff)
      from continueWrite_objects_accounted [OF o acc] None Some have
        acc1: "accounted r p1 e1" "mOwner p1 = None" "mData p1 = Some data" by simp_all
      show ?thesis
      proof (cases "desired > mDataCapacity p1")
        case True
        obtain ok e2 where a: "pe_alloc e1 = (ok, e2)" by fastforce
        have "gParcelGlobalAllocSize e2 = r + mDataCapacity p1" "mDataCapacity p1 \<le> INT32_MAX"
          "r + 2 * INT32_MAX < 18446744073709551616"
          using pe_alloc_stats [OF a] acc1 by (simp_all add: account_defs)
        moreover from this have "r + mDataCapacity p1 + desired + (SIZE_MAX + 1 - mDataCapacity p1) =
          r + desired + 18446744073709551616" by simp
        then have "size_wrap (r + mDataCapacity p1 + desired + (SIZE_MAX + 1 - mDataCapacity p1)) = r + desired"
          unfolding size_wrap_def using desired calculation(3) by (simp only: mod_add_self2) simp
        ultimately show ?thesis
          using c True a acc1 desired by (cases ok) (auto simp: continueWrite_data_def account_defs)
      next
        case False
        with c acc1 show ?thesis by (auto simp: continueWrite_data_def Let_def account_defs split: if_splits)
      qed
    qed
  qed
qed

lemma growData_accounted:
  "growData proxy junk n p e = Inr (err, p', e') \<Longrightarrow> accounted r p e \<Longrightarrow> accounted r p' e'"
  by (auto simp: growData_def Let_def dest: continueWrite_accounted split: if_splits)

lemma data_store_accounted:
  "data_store off xs p = Inr p' \<Longrightarrow> accounted r p e \<Longrightarrow> accounted r p' e"
  by (auto simp: data_store_def bindE_Inr_iff account_defs)

lemma finishWrite_accounted: "accounted r p e \<Longrightarrow> accounted r (snd (finishWrite n p)) e"
  by (auto simp: finishWrite_def Let_def account_defs)

lemma writeInplace_at_accounted:
  "writeInplace_at n m p = Inr (d, p') \<Longrightarrow> accounted r p e \<Longrightarrow> accounted r p' e"
  by (auto simp: writeInplace_at_def bindE_Inr_iff Let_def case_prod_beta
    intro!: finishWrite_accounted dest: data_store_accounted split: if_splits)

lemma writeInplace_accounted:
  "writeInplace proxy junk n p e = Inr (d, p', e') \<Longrightarrow> accounted r p e \<Longrightarrow> accounted r p' e'"
  by (auto simp: writeInplace_def bindE_Inr_iff Let_def
    dest: growData_accounted writeInplace_at_accounted split: if_splits)

lemma Parcel_write_accounted:
  "Parcel_write proxy junk xs p e = Inr (err, p', e') \<Longrightarrow> accounted r p e \<Longrightarrow> accounted r p' e'"
  by (auto simp: Parcel_write_def bindE_Inr_iff
    dest: data_store_accounted writeInplace_accounted split: if_splits option.splits)

lemma writeInt32_accounted:
  "writeInt32 proxy junk v p e = Inr (err, p', e') \<Longrightarrow> accounted r p e \<Longrightarrow> accounted r p' e'"
  by (auto simp: writeInt32_def writeAligned_def bindE_Inr_iff case_prod_beta
    intro!: finishWrite_accounted dest: data_store_accounted growData_accounted split: if_splits)

lemma accounted_size [simp]: "accounted r (p\<lparr>mDataSize := n\<rparr>) e = accounted r p e"
  by (simp add: account_defs)

lemma setDataSize_accounted:
  assumes "setDataSize proxy junk n p e = Inr (err, p', e')" and "accounted r p e"
  shows "accounted r p' e'"
  using assms
  by (auto simp: setDataSize_def bindE_Inr_iff dest: continueWrite_accounted split: if_splits)

lemma scanForFds_owner: "scanForFds p = Inr p' \<Longrightarrow> mOwner p' = mOwner p"
  by (auto simp: scanForFds_def bindE_Inr_iff)

lemma ipcSetDataReference_accounted:
  assumes run: "ipcSetDataReference proxy data n objs k (Some own) p e = Inr (p', e')" and acc: "accounted r p e"
  shows "accounted r p' e'"
proof -
  let ?q = "p\<lparr>mError := NO_ERROR, mData := data, mDataSize := n, mDataCapacity := n, mObjects := objs,
    mObjectsSize := k, mObjectsCapacity := k, mNextObjectHint := 0, mObjectsSorted := False, mOwner := Some own\<rparr>"
  from run obtain e1 bad p1 e2 where e1: "freeDataNoInit proxy p e = Inr e1"
    and bad: "(case bad of
                 None \<Rightarrow> Inr (?q, e1)
               | Some release \<Rightarrow>
                   bindE (if release then releaseObjects proxy ?q e1 else Inr e1) (\<lambda>e.
                   Inr (?q\<lparr>mObjectsSize := 0\<rparr>, e))) = Inr (p1, e2)"
    and p1: "scanForFds p1 = Inr p'" "e' = e2"
    unfolding ipcSetDataReference_def Let_def bindE_Inr_iff by (elim exE conjE) (clarsimp simp: bindE_Inr_iff)
  from bad have e2: "e2 = e1 \<or> (\<exists>q. releaseObjects proxy q e1 = Inr e2)" and own: "mOwner p1 = Some own"
    by (cases bad; auto simp: bindE_Inr_iff split: if_splits)+
  note p1 = p1 own
  have "gParcelGlobalAllocSize e2 = gParcelGlobalAllocSize e1"
    using e2 releaseObjects_loop_stats by (auto simp: releaseObjects_def same_stats_def)
  with freeDataNoInit_accounted [OF e1 acc] scanForFds_owner [OF p1(1)] p1 acc show ?thesis
    by (simp add: account_defs)
qed

section \<open>Any sequence of calls\<close>

datatype parcel_call =
    Write "u8 list"
  | WriteInt32 u32
  | SetDataSize nat
  | SetDataPosition nat
  | Receive "u8 list option" nat "u64 list option" nat nat
  | FreeData

definition call_run ::
    "(u32 \<Rightarrow> nat option) \<Rightarrow> u8 \<Rightarrow> parcel_call \<Rightarrow> parcel \<Rightarrow> parcel_env \<Rightarrow> (parcel \<times> parcel_env) chk" where
  "call_run proxy junk c p e =
     (case c of
        Write xs \<Rightarrow> bindE (Parcel_write proxy junk xs p e) (\<lambda>(_, p, e). Inr (p, e))
      | WriteInt32 v \<Rightarrow> bindE (writeInt32 proxy junk v p e) (\<lambda>(_, p, e). Inr (p, e))
      | SetDataSize n \<Rightarrow> bindE (setDataSize proxy junk n p e) (\<lambda>(_, p, e). Inr (p, e))
      | SetDataPosition n \<Rightarrow> Inr (setDataPosition n p, e)
      | Receive data n objs k own \<Rightarrow> ipcSetDataReference proxy data n objs k (Some own) p e
      | FreeData \<Rightarrow> freeData proxy p e)"

fun calls_run ::
    "(u32 \<Rightarrow> nat option) \<Rightarrow> u8 \<Rightarrow> parcel_call list \<Rightarrow> parcel \<Rightarrow> parcel_env \<Rightarrow> (parcel \<times> parcel_env) chk" where
  "calls_run proxy junk [] p e = Inr (p, e)"
| "calls_run proxy junk (c # cs) p e =
     bindE (call_run proxy junk c p e) (\<lambda>(p, e). calls_run proxy junk cs p e)"

lemma call_run_accounted:
  assumes "call_run proxy junk c p e = Inr (p', e')" and "accounted r p e"
  shows "accounted r p' e'"
proof (cases c)
  case (SetDataPosition n)
  with assms show ?thesis by (auto simp: call_run_def setDataPosition_def account_defs)
qed (use assms in \<open>auto simp: call_run_def bindE_Inr_iff dest: Parcel_write_accounted writeInt32_accounted
  setDataSize_accounted ipcSetDataReference_accounted freeData_accounted\<close>)

text \<open>Whatever calls are made on a parcel, \<open>gParcelGlobalAllocSize\<close> stays the sum of the capacity
  of the block this parcel has allocated and what the other parcels have.\<close>

theorem allocation_accounted:
  assumes "calls_run proxy junk cs p e = Inr (p', e')"
    and "gParcelGlobalAllocSize e = r + own_capacity p" "own_capacity p \<le> INT32_MAX"
    and "r + 2 * INT32_MAX < 18446744073709551616"
  shows "gParcelGlobalAllocSize e' = r + own_capacity p'"
proof -
  from assms(2-) have "accounted r p e" by (simp add: accounted_def)
  with assms(1) have "accounted r p' e'"
  proof (induction cs arbitrary: p e)
    case (Cons c cs)
    then obtain p1 e1 where "call_run proxy junk c p e = Inr (p1, e1)" "calls_run proxy junk cs p1 e1 = Inr (p', e')"
      by (auto simp: bindE_Inr_iff)
    with Cons.IH call_run_accounted Cons.prems(2) show ?case by blast
  qed simp
  then show ?thesis by (simp add: accounted_def)
qed

lemmas parcel_run_defs = call_run_def Parcel_write_def writeInt32_def writeAligned_def growData_def
  continueWrite_def continueWrite_owned_def continueWrite_first_def continueWrite_data_def
  continueWrite_objects_def objects_after_def pe_alloc_def count_alloc_def call_owner_def pe_note_def
  data_store_def mem_write_def mem_read_def finishWrite_def size_wrap_def freeData_def freeDataNoInit_def
  releaseObjects_def setDataSize_def setDataPosition_def ipcSetDataReference_def objects_used_def
  scanForFds_def copy_block_def Parcel_new_def initState_def demo_env_def own_capacity_def

lemma allocation_accounted_witness:
  "\<exists>p' e'. calls_run (\<lambda>_. None) 0 [WriteInt32 7] Parcel_new demo_env = Inr (p', e') \<and>
    own_capacity p' = 6 \<and> gParcelGlobalAllocSize e' = 106"
proof -
  obtain p' e' where run: "calls_run (\<lambda>_. None) 0 [WriteInt32 7] Parcel_new demo_env = Inr (p', e')"
    and cap: "own_capacity p' = 6"
    by (simp add: parcel_run_defs)
  from allocation_accounted [OF run, of 100] cap have "gParcelGlobalAllocSize e' = 106"
    by (simp add: parcel_run_defs)
  with run cap show ?thesis by blast
qed

section \<open>Calls that break the promise\<close>

text \<open>A write whose growth would exceed two gigabytes is not carried out, yet its result is the
  error recorded earlier, which is \<open>NO_ERROR\<close> in a parcel that had none.\<close>

theorem oversized_write_reports_success:
  assumes ok: "parcel_ok p" and err: "errorCheck p = NO_ERROR"
    and xs: "0 < length xs" "length xs \<le> INT32_MAX"
    and full: "mDataCapacity p < mDataPos p + pad_size (length xs)"
    and big: "INT32_MAX < (mDataSize p + pad_size (length xs)) * 3 div 2"
  shows "Parcel_write proxy junk xs p e = Inr (NO_ERROR, p, e)"
proof -
  note pad = pad_size_pos [OF xs] pad_size_bounds [OF xs(2)]
  have size: "mDataSize p \<le> INT32_MAX" using ok by (simp add: parcel_ok_def)
  have wrap: "size_wrap (mDataPos p + pad_size (length xs)) = mDataPos p + pad_size (length xs)"
    using parcel_pos_bound [OF ok] pad xs by simp
  have "\<exists>r. growData proxy junk (pad_size (length xs)) p e = Inr (r, p, e) \<and> r \<noteq> NO_ERROR"
    using big size pad xs by (simp add: growData_def continueWrite_def Let_def)
  then obtain r where "growData proxy junk (pad_size (length xs)) p e = Inr (r, p, e)" "r \<noteq> NO_ERROR" by blast
  with wrap full xs err show ?thesis
    by (simp add: Parcel_write_def writeInplace_def errorCheck_def)
qed

lemma oversized_write_reports_success_witness:
  "Parcel_write (\<lambda>_. None) 9 (replicate 2000000000 1) Parcel_new demo_env = Inr (NO_ERROR, Parcel_new, demo_env)"
  by (rule oversized_write_reports_success)
    (use parcel_new_ok in \<open>auto simp: errorCheck_def Parcel_new_def initState_def pad_size_def\<close>)

text \<open>Writing at a position behind the end of the data, where \<open>setDataPosition\<close> lets it be put,
  stores outside the block: the growth is computed from the size of the data, not from the position.\<close>

theorem position_behind_data_overruns:
  assumes ok: "parcel_ok p" and data: "mData p \<noteq> None" "mOwner p = None"
    and pos: "(mDataSize p + 4) * 3 div 2 < pos + 4" "mDataCapacity p < (mDataSize p + 4) * 3 div 2" "pos \<le> INT32_MAX"
    and fits: "(mDataSize p + 4) * 3 div 2 \<le> INT32_MAX"
    and mem: "pe_malloc e = True # oks"
  shows "writeInt32 proxy junk v (setDataPosition pos p) e = Inl OutOfBounds"
proof -
  let ?p = "setDataPosition pos p" and ?c = "(mDataSize p + 4) * 3 div 2"
  from data obtain d where d: "mData p = Some d" by blast
  have len: "length d = mDataCapacity p" using ok d by (simp add: parcel_ok_def blocks_ok_def)
  have size: "mDataSize p \<le> mDataCapacity p" "mDataCapacity p \<le> INT32_MAX" using ok by (simp_all add: parcel_ok_def)
  have c: "mDataSize p < ?c" "4 \<le> SIZE_MAX - mDataSize p" using size by simp_all
  have grow: "growData proxy junk 4 ?p e = Inr (continueWrite_data junk ?c d ?p e)"
    using fits size c d data
    by (simp add: growData_def continueWrite_def objects_after_def continueWrite_objects_def setDataPosition_def)
  have none: "mem_write xs pos (le_bytes 4 v) = Inl OutOfBounds" if "length xs = ?c" for xs
    using that pos by (auto simp: mem_write_def)
  have "size_wrap (pos + 4) = pos + 4" using pos by simp
  with grow none len pos(1,2) d mem c show ?thesis
    by (auto simp: writeInt32_def writeAligned_def continueWrite_data_def setDataPosition_def data_store_def
      pe_alloc_def Let_def)
qed

lemma position_behind_data_overruns_witness:
  "writeInt32 (\<lambda>_. None) 9 5 (setDataPosition 100 (Parcel_new\<lparr>mData := Some [1, 0, 0, 0, 9, 9], mDataSize := 4,
     mDataCapacity := 6, mDataPos := 4\<rparr>)) demo_env = Inl OutOfBounds"
  by (rule position_behind_data_overruns)
    (auto simp: parcel_ok_def blocks_ok_def Parcel_new_def initState_def demo_env_def)

text \<open>\<open>acquire_object\<close> on a handle does what \<open>release_object\<close> does, it drops a reference on the
  proxy, while on a local binder the two are inverse to each other.\<close>

theorem acquire_handle_drops_reference:
  assumes "flat_type data off = Inr t"
  shows "(t = BINDER_TYPE_HANDLE \<longrightarrow> acquire_object proxy data off e = release_object proxy data off e) \<and>
    (t = BINDER_TYPE_BINDER \<longrightarrow> (\<forall>b c. flat_binder data off = Inr b \<longrightarrow> flat_cookie data off = Inr c \<longrightarrow> b \<noteq> 0 \<longrightarrow>
      acquire_object proxy data off e = Inr (pe_note (IncStrongLocal c) e) \<and>
      release_object proxy data off e = Inr (pe_note (DecStrongLocal c) e)))"
  using assms by (simp add: acquire_object_def release_object_def)

lemma acquire_handle_drops_reference_witness:
  "acquire_object (\<lambda>h. Some 5) ([0x85, 0x2a, 0x68, 0x73, 0, 0, 0, 0, 1] @ replicate 15 0) 0 demo_env =
   release_object (\<lambda>h. Some 5) ([0x85, 0x2a, 0x68, 0x73, 0, 0, 0, 0, 1] @ replicate 15 0) 0 demo_env"
proof -
  have "flat_type ([0x85, 0x2a, 0x68, 0x73, 0, 0, 0, 0, 1] @ replicate 15 0) 0 = Inr 0x73682a85"
    by code_simp
  from acquire_handle_drops_reference [OF this] show ?thesis by blast
qed

end
