(* ===== verification/Vector.thy ===== *)
theory Vector
  imports SharedBuffer
begin

text \<open>
  \<open>VectorImpl.cpp\<close> with the templates \<open>Vector.h\<close>, \<open>SortedVector.h\<close>, \<open>KeyedVector.h\<close> and
  \<open>TypeHelpers.h\<close>. The storage of a vector is a buffer of the heap of \<open>SharedBuffer\<close> whose elements are
  slots of \<open>sizeof(TYPE)\<close> bytes: \<open>Val x\<close> where an object lives, \<open>Raw\<close> for memory that holds none. A pointer
  into the storage is the address of the buffer and an index. Reading, copying or destroying
  an object that is not there is a trap. The assertions \<open>LOGF_ASSERT\<close> only write to the log.
\<close>

datatype 'a slot = Raw | Val 'a

type_synonym 'a vheap = "'a slot sb_heap"

section \<open>TypeHelpers.h\<close>

text \<open>The traits of a type, its size and the value its default constructor makes.\<close>

record 'a item_type =
  has_trivial_ctor :: bool
  has_trivial_dtor :: bool
  has_trivial_copy :: bool
  has_trivial_move :: bool
  sizeof_type :: u64
  default_item :: 'a

definition slot_value :: "nat \<Rightarrow> nat \<Rightarrow> 'a vheap \<Rightarrow> 'a chk" where
  "slot_value b i hp =
     bindE (sb_get hp b) (\<lambda>sb.
     bindE (arr_get (sb_data sb) i) (\<lambda>s.
     case s of Raw \<Rightarrow> Inl Uninitialised | Val x \<Rightarrow> Inr x))"

primrec construct_loop :: "'a \<Rightarrow> nat \<Rightarrow> nat \<Rightarrow> nat \<Rightarrow> 'a vheap \<Rightarrow> 'a vheap chk" where
  "construct_loop x b p 0 hp = Inr hp"
| "construct_loop x b p (Suc n) hp = bindE (sb_store b p [Val x] hp) (construct_loop x b (Suc p) n)"

definition construct_type :: "'a item_type \<Rightarrow> nat \<Rightarrow> nat \<Rightarrow> nat \<Rightarrow> 'a vheap \<Rightarrow> 'a vheap chk" where
  "construct_type ty b p n hp =
     (if \<not> has_trivial_ctor ty then construct_loop (default_item ty) b p n hp else Inr hp)"

text \<open>The destructor needs a living object.\<close>

primrec destroy_loop :: "nat \<Rightarrow> nat \<Rightarrow> nat \<Rightarrow> 'a vheap \<Rightarrow> 'a vheap chk" where
  "destroy_loop b p 0 hp = Inr hp"
| "destroy_loop b p (Suc n) hp =
     bindE (slot_value b p hp) (\<lambda>_. bindE (sb_store b p [Raw] hp) (destroy_loop b (Suc p) n))"

definition destroy_type :: "'a item_type \<Rightarrow> nat \<Rightarrow> nat \<Rightarrow> nat \<Rightarrow> 'a vheap \<Rightarrow> 'a vheap chk" where
  "destroy_type ty b p n hp = (if \<not> has_trivial_dtor ty then destroy_loop b p n hp else Inr hp)"

text \<open>The copy constructor in a loop, for types whose copies are not trivial.\<close>

primrec copy_type :: "nat \<Rightarrow> nat \<Rightarrow> nat \<Rightarrow> nat \<Rightarrow> nat \<Rightarrow> 'a vheap \<Rightarrow> 'a vheap chk" where
  "copy_type db d sb s 0 hp = Inr hp"
| "copy_type db d sb s (Suc n) hp =
     bindE (slot_value sb s hp) (\<lambda>x.
     bindE (sb_store db d [Val x] hp) (copy_type db (Suc d) sb (Suc s) n))"

text \<open>An item handed to the vector: an object outside of its storage, or one inside.\<close>

datatype 'a item_ref = Outside 'a | Inside nat nat

definition item_value :: "'a item_ref \<Rightarrow> 'a vheap \<Rightarrow> 'a chk" where
  "item_value what hp = (case what of Outside x \<Rightarrow> Inr x | Inside b i \<Rightarrow> slot_value b i hp)"

primrec splat_type :: "nat \<Rightarrow> nat \<Rightarrow> 'a item_ref \<Rightarrow> nat \<Rightarrow> 'a vheap \<Rightarrow> 'a vheap chk" where
  "splat_type b p what 0 hp = Inr hp"
| "splat_type b p what (Suc n) hp =
     bindE (item_value what hp) (\<lambda>x. bindE (sb_store b p [Val x] hp) (splat_type b (Suc p) what n))"

definition use_trivial_move :: "'a item_type \<Rightarrow> bool" where
  "use_trivial_move ty \<longleftrightarrow> (has_trivial_dtor ty \<and> has_trivial_ctor ty) \<or> has_trivial_move ty"

text \<open>The loop that runs from the last item to the first; both pointers point into one array.\<close>

primrec move_loop :: "'a item_type \<Rightarrow> nat \<Rightarrow> nat \<Rightarrow> nat \<Rightarrow> nat \<Rightarrow> 'a vheap \<Rightarrow> 'a vheap chk" where
  "move_loop ty b d s 0 hp = Inr hp"
| "move_loop ty b d s (Suc n) hp =
     bindE (if \<not> has_trivial_copy ty
            then bindE (slot_value b (s + n) hp) (\<lambda>x. sb_store b (d + n) [Val x] hp)
            else bindE (sb_read b (s + n) 1 hp) (\<lambda>xs. sb_store b (d + n) xs hp)) (\<lambda>hp.
     bindE (if \<not> has_trivial_dtor ty then destroy_loop b (s + n) 1 hp else Inr hp)
       (move_loop ty b d s n))"

definition move_forward_type :: "'a item_type \<Rightarrow> nat \<Rightarrow> nat \<Rightarrow> nat \<Rightarrow> nat \<Rightarrow> 'a vheap \<Rightarrow> 'a vheap chk" where
  "move_forward_type ty b d s n hp =
     (if use_trivial_move ty then bindE (sb_read b s n hp) (\<lambda>xs. sb_store b d xs hp)
      else move_loop ty b d s n hp)"

definition strictly_order_type :: "('a \<Rightarrow> 'a \<Rightarrow> bool) \<Rightarrow> 'a \<Rightarrow> 'a \<Rightarrow> int" where
  "strictly_order_type lt lhs rhs = (if lt lhs rhs then 1 else 0)"

definition compare_type :: "('a \<Rightarrow> 'a \<Rightarrow> bool) \<Rightarrow> 'a \<Rightarrow> 'a \<Rightarrow> int" where
  "compare_type lt lhs rhs = strictly_order_type lt rhs lhs - strictly_order_type lt lhs rhs"

record ('k, 'v) key_value_pair_t =
  kv_key :: 'k
  kv_value :: 'v

definition key_value_less :: "('k \<Rightarrow> 'k \<Rightarrow> bool) \<Rightarrow> ('k, 'v) key_value_pair_t \<Rightarrow> ('k, 'v) key_value_pair_t \<Rightarrow> bool" where
  "key_value_less lt p q \<longleftrightarrow> strictly_order_type lt (kv_key p) (kv_key q) \<noteq> 0"

text \<open>The traits of a pair; its size and default value are those of the compiler.\<close>

definition aggregate_traits ::
  "'k item_type \<Rightarrow> 'v item_type \<Rightarrow> u64 \<Rightarrow> ('k, 'v) key_value_pair_t item_type" where
  "aggregate_traits k v sz =
     \<lparr>has_trivial_ctor = has_trivial_ctor k \<and> has_trivial_ctor v,
      has_trivial_dtor = has_trivial_dtor k \<and> has_trivial_dtor v,
      has_trivial_copy = has_trivial_copy k \<and> has_trivial_copy v,
      has_trivial_move = has_trivial_move k \<and> has_trivial_move v,
      sizeof_type = sz, default_item = \<lparr>kv_key = default_item k, kv_value = default_item v\<rparr>\<rparr>"

section \<open>VectorImpl\<close>

record vec =
  mStorage :: "nat option"
  mCount :: u64
  mFlags :: u32
  mItemSize :: u64

abbreviation (input) HAS_TRIVIAL_CTOR :: u32 where "HAS_TRIVIAL_CTOR \<equiv> 1"
abbreviation (input) HAS_TRIVIAL_DTOR :: u32 where "HAS_TRIVIAL_DTOR \<equiv> 2"
abbreviation (input) HAS_TRIVIAL_COPY :: u32 where "HAS_TRIVIAL_COPY \<equiv> 4"
abbreviation (input) kMinVectorCapacity :: u64 where "kMinVectorCapacity \<equiv> 4"

abbreviation (input) VEC_NO_MEMORY :: int where "VEC_NO_MEMORY \<equiv> - 12"
abbreviation (input) VEC_BAD_VALUE :: int where "VEC_BAD_VALUE \<equiv> - 22"
abbreviation (input) VEC_BAD_INDEX :: int where "VEC_BAD_INDEX \<equiv> - 75"
abbreviation (input) NAME_NOT_FOUND :: int where "NAME_NOT_FOUND \<equiv> - 2"

definition VectorImpl_new :: "u64 \<Rightarrow> u32 \<Rightarrow> vec" where
  "VectorImpl_new itemSize flags = \<lparr>mStorage = None, mCount = 0, mFlags = flags, mItemSize = itemSize\<rparr>"

definition Vector_new :: "'a item_type \<Rightarrow> vec" where
  "Vector_new ty = VectorImpl_new (sizeof_type ty)
     ((if has_trivial_ctor ty then HAS_TRIVIAL_CTOR else 0) OR
      (if has_trivial_dtor ty then HAS_TRIVIAL_DTOR else 0) OR
      (if has_trivial_copy ty then HAS_TRIVIAL_COPY else 0))"

definition vec_do_construct :: "'a item_type \<Rightarrow> vec \<Rightarrow> nat \<Rightarrow> nat \<Rightarrow> nat \<Rightarrow> 'a vheap \<Rightarrow> 'a vheap chk" where
  "vec_do_construct ty v b p num hp =
     (if mFlags v AND HAS_TRIVIAL_CTOR = 0 then construct_type ty b p num hp else Inr hp)"

definition vec_do_destroy :: "'a item_type \<Rightarrow> vec \<Rightarrow> nat \<Rightarrow> nat \<Rightarrow> nat \<Rightarrow> 'a vheap \<Rightarrow> 'a vheap chk" where
  "vec_do_destroy ty v b p num hp =
     (if mFlags v AND HAS_TRIVIAL_DTOR = 0 then destroy_type ty b p num hp else Inr hp)"

text \<open>The source pointer may be null when nothing is copied.\<close>

definition vec_do_copy ::
  "vec \<Rightarrow> nat \<Rightarrow> nat \<Rightarrow> nat option \<Rightarrow> nat \<Rightarrow> nat \<Rightarrow> 'a vheap \<Rightarrow> 'a vheap chk" where
  "vec_do_copy v db d from s num hp =
     (if num = 0 then Inr hp
      else
        bindE (derefE NullDeref from) (\<lambda>sb.
        if mFlags v AND HAS_TRIVIAL_COPY = 0 then copy_type db d sb s num hp
        else bindE (sb_read sb s num hp) (\<lambda>xs. sb_store db d xs hp)))"

definition release_storage :: "'a item_type \<Rightarrow> vec \<Rightarrow> 'a vheap \<Rightarrow> 'a vheap chk" where
  "release_storage ty v hp =
     (case mStorage v of
        None \<Rightarrow> Inr hp
      | Some b \<Rightarrow>
          bindE (SharedBuffer_release b eKeepStorage hp) (\<lambda>(prev, hp).
          if prev = 1 then
            bindE (vec_do_destroy ty v b 0 (unat (mCount v)) hp) (\<lambda>hp. Inr (SharedBuffer_dealloc b hp))
          else Inr hp))"

definition vec_capacity :: "vec \<Rightarrow> 'a vheap \<Rightarrow> u64 chk" where
  "vec_capacity v hp =
     (case mStorage v of
        None \<Rightarrow> Inr 0
      | Some b \<Rightarrow> bindE (sizeFromData (Some b) hp) (\<lambda>n. Inr (n div mItemSize v)))"

text \<open>A copy of the storage for the case that it is shared.\<close>

definition vec_unshare :: "'a item_type \<Rightarrow> nat \<Rightarrow> vec \<Rightarrow> 'a vheap \<Rightarrow> (vec \<times> 'a vheap) chk" where
  "vec_unshare ty b v hp =
     bindE (sizeFromData (Some b) hp) (\<lambda>sz.
     bindE (SharedBuffer_alloc (unat (mItemSize v)) Raw sz hp) (\<lambda>(r, hp).
     bindE (derefE NullDeref r) (\<lambda>n.
     bindE (vec_do_copy v n 0 (Some b) 0 (unat (mCount v)) hp) (\<lambda>hp.
     bindE (release_storage ty v hp) (\<lambda>hp. Inr (v\<lparr>mStorage := Some n\<rparr>, hp))))))"

definition editArrayImpl :: "'a item_type \<Rightarrow> vec \<Rightarrow> 'a vheap \<Rightarrow> (nat option \<times> vec \<times> 'a vheap) chk" where
  "editArrayImpl ty v hp =
     (case mStorage v of
        None \<Rightarrow> Inr (None, v, hp)
      | Some b \<Rightarrow>
          bindE (attemptEdit b hp) (\<lambda>editable.
          bindE (if editable = None then vec_unshare ty b v hp else Inr (v, hp)) (\<lambda>(v, hp).
          Inr (mStorage v, v, hp))))"

text \<open>The index plays no part: the result is where the storage begins.\<close>

definition editItemLocation :: "'a item_type \<Rightarrow> u64 \<Rightarrow> vec \<Rightarrow> 'a vheap \<Rightarrow> (nat option \<times> vec \<times> 'a vheap) chk" where
  "editItemLocation ty index v hp = editArrayImpl ty v hp"

definition itemLocation :: "u64 \<Rightarrow> vec \<Rightarrow> 'a vheap \<Rightarrow> (nat \<times> nat) option chk" where
  "itemLocation index v hp =
     bindE (vec_capacity v hp) (\<lambda>cap.
     Inr (if index < cap then map_option (\<lambda>b. (b, unat index)) (mStorage v) else None))"

definition setCapacity :: "'a item_type \<Rightarrow> u64 \<Rightarrow> vec \<Rightarrow> 'a vheap \<Rightarrow> (int \<times> vec \<times> 'a vheap) chk" where
  "setCapacity ty new_capacity v hp =
     (if new_capacity \<le> mCount v then bindE (vec_capacity v hp) (\<lambda>cap. Inr (sint cap, v, hp))
      else
        let new_allocation_size = new_capacity * mItemSize v in
        bindE (SharedBuffer_alloc (unat (mItemSize v)) Raw new_allocation_size hp) (\<lambda>(r, hp).
        case r of
          None \<Rightarrow> Inr (VEC_NO_MEMORY, v, hp)
        | Some n \<Rightarrow>
            bindE (vec_do_copy v n 0 (mStorage v) 0 (unat (mCount v)) hp) (\<lambda>hp.
            bindE (release_storage ty v hp) (\<lambda>hp.
            Inr (sint new_capacity, v\<lparr>mStorage := Some n\<rparr>, hp)))))"

text \<open>
  New storage for \<open>_grow\<close>: \<open>False\<close> stands for the return of a null pointer. The second part copies the
  items before and behind the gap to a new buffer.
\<close>

definition grow_copy ::
  "'a item_type \<Rightarrow> u64 \<Rightarrow> u64 \<Rightarrow> u64 \<Rightarrow> vec \<Rightarrow> 'a vheap \<Rightarrow> (bool \<times> vec \<times> 'a vheap) chk" where
  "grow_copy ty whr amount new_alloc_size v hp =
     bindE (SharedBuffer_alloc (unat (mItemSize v)) Raw new_alloc_size hp) (\<lambda>(r, hp).
     case r of
       None \<Rightarrow> Inr (False, v, hp)
     | Some n \<Rightarrow>
         bindE (if whr \<noteq> 0 then vec_do_copy v n 0 (mStorage v) 0 (unat whr) hp else Inr hp) (\<lambda>hp.
         bindE (if whr \<noteq> mCount v
                then vec_do_copy v n (unat (whr + amount)) (mStorage v) (unat whr) (unat (mCount v - whr)) hp
                else Inr hp) (\<lambda>hp.
         bindE (release_storage ty v hp) (\<lambda>hp. Inr (True, v\<lparr>mStorage := Some n\<rparr>, hp)))))"

definition grow_storage ::
  "'a item_type \<Rightarrow> u64 \<Rightarrow> u64 \<Rightarrow> u64 \<Rightarrow> vec \<Rightarrow> 'a vheap \<Rightarrow> (bool \<times> vec \<times> 'a vheap) chk" where
  "grow_storage ty whr amount new_alloc_size v hp =
     (case mStorage v of
        Some b \<Rightarrow>
          if mCount v = whr \<and> mFlags v AND HAS_TRIVIAL_COPY \<noteq> 0 \<and> mFlags v AND HAS_TRIVIAL_DTOR \<noteq> 0 then
            bindE (editResize (unat (mItemSize v)) Raw b new_alloc_size hp) (\<lambda>(r, hp).
            case r of None \<Rightarrow> Inr (False, v, hp) | Some n \<Rightarrow> Inr (True, v\<lparr>mStorage := Some n\<rparr>, hp))
          else grow_copy ty whr amount new_alloc_size v hp
      | None \<Rightarrow> grow_copy ty whr amount new_alloc_size v hp)"

text \<open>Moving the items behind \<open>src\<close> to \<open>dst\<close> in the storage the vector has.\<close>

definition move_in_place ::
  "'a item_type \<Rightarrow> u64 \<Rightarrow> u64 \<Rightarrow> u64 \<Rightarrow> nat option \<Rightarrow> 'a vheap \<Rightarrow> 'a vheap chk" where
  "move_in_place ty dst src n arr hp =
     bindE (derefE NullDeref arr) (\<lambda>b. move_forward_type ty b (unat dst) (unat src) (unat n) hp)"

definition vec_grow ::
  "'a item_type \<Rightarrow> u64 \<Rightarrow> u64 \<Rightarrow> vec \<Rightarrow> 'a vheap \<Rightarrow> ((nat \<times> nat) option \<times> vec \<times> 'a vheap) chk" where
  "vec_grow ty whr amount v hp =
     (let new_size = mCount v + amount in
      bindE (vec_capacity v hp) (\<lambda>cap.
      bindE (if cap < new_size then
               let new_capacity = max kMinVectorCapacity (new_size + new_size div 2);
                   new_alloc_size = new_capacity * mItemSize v
               in grow_storage ty whr amount new_alloc_size v hp
             else
               bindE (editArrayImpl ty v hp) (\<lambda>(arr, v, hp).
               bindE (if whr \<noteq> mCount v then move_in_place ty (whr + amount) whr (mCount v - whr) arr hp
                      else Inr hp) (\<lambda>hp.
               Inr (True, v, hp)))) (\<lambda>(ok, v, hp).
      if \<not> ok then Inr (None, v, hp)
      else
        let v = v\<lparr>mCount := new_size\<rparr> in
        bindE (itemLocation whr v hp) (\<lambda>free_space. Inr (free_space, v, hp)))))"

definition insertAt ::
  "'a item_type \<Rightarrow> 'a item_ref option \<Rightarrow> u64 \<Rightarrow> u64 \<Rightarrow> vec \<Rightarrow> 'a vheap \<Rightarrow> (int \<times> vec \<times> 'a vheap) chk" where
  "insertAt ty item index numItems v hp =
     (if index > mCount v then Inr (VEC_BAD_INDEX, v, hp)
      else
        bindE (vec_grow ty index numItems v hp) (\<lambda>(whr, v, hp).
        case whr of
          None \<Rightarrow> Inr (VEC_NO_MEMORY, v, hp)
        | Some (b, p) \<Rightarrow>
            bindE (case item of
                     Some what \<Rightarrow> splat_type b p what (unat numItems) hp
                   | None \<Rightarrow> vec_do_construct ty v b p (unat numItems) hp) (\<lambda>hp.
            Inr (sint index, v, hp))))"

definition vec_push :: "'a item_type \<Rightarrow> 'a item_ref option \<Rightarrow> vec \<Rightarrow> 'a vheap \<Rightarrow> (vec \<times> 'a vheap) chk" where
  "vec_push ty item v hp = bindE (insertAt ty item (mCount v) 1 v hp) (\<lambda>(_, v, hp). Inr (v, hp))"

text \<open>Smaller storage for \<open>_shrink\<close>; \<open>False\<close> stands for the early return.\<close>

definition shrink_storage ::
  "'a item_type \<Rightarrow> u64 \<Rightarrow> u64 \<Rightarrow> u64 \<Rightarrow> u64 \<Rightarrow> nat \<Rightarrow> vec \<Rightarrow> 'a vheap \<Rightarrow> (bool \<times> vec \<times> 'a vheap) chk" where
  "shrink_storage ty whr amount new_size new_capacity b v hp =
     (if whr = new_size \<and> mFlags v AND HAS_TRIVIAL_COPY \<noteq> 0 \<and> mFlags v AND HAS_TRIVIAL_DTOR \<noteq> 0 then
        bindE (editResize (unat (mItemSize v)) Raw b (new_capacity * mItemSize v) hp) (\<lambda>(r, hp).
        case r of None \<Rightarrow> Inr (False, v, hp) | Some n \<Rightarrow> Inr (True, v\<lparr>mStorage := Some n\<rparr>, hp))
      else
        bindE (SharedBuffer_alloc (unat (mItemSize v)) Raw (new_capacity * mItemSize v) hp) (\<lambda>(r, hp).
        case r of
          None \<Rightarrow> Inr (False, v, hp)
        | Some n \<Rightarrow>
            bindE (if whr \<noteq> 0 then vec_do_copy v n 0 (Some b) 0 (unat whr) hp else Inr hp) (\<lambda>hp.
            bindE (if whr \<noteq> new_size
                   then vec_do_copy v n (unat whr) (Some b) (unat (whr + amount)) (unat (new_size - whr)) hp
                   else Inr hp) (\<lambda>hp.
            bindE (release_storage ty v hp) (\<lambda>hp. Inr (True, v\<lparr>mStorage := Some n\<rparr>, hp))))))"

definition vec_shrink :: "'a item_type \<Rightarrow> u64 \<Rightarrow> u64 \<Rightarrow> vec \<Rightarrow> 'a vheap \<Rightarrow> (vec \<times> 'a vheap) chk" where
  "vec_shrink ty whr amount v hp =
     (case mStorage v of
        None \<Rightarrow> Inr (v, hp)
      | Some b \<Rightarrow>
          let new_size = mCount v - amount in
          bindE (vec_capacity v hp) (\<lambda>cap.
          bindE (if new_size < cap div 2 then
                   let new_capacity = max kMinVectorCapacity (new_size * 2)
                   in shrink_storage ty whr amount new_size new_capacity b v hp
                 else
                   bindE (editArrayImpl ty v hp) (\<lambda>(arr, v, hp).
                   bindE (derefE NullDeref arr) (\<lambda>b.
                   bindE (vec_do_destroy ty v b (unat whr) (unat amount) hp) (\<lambda>hp.
                   bindE (if whr \<noteq> new_size
                          then move_in_place ty whr (whr + amount) (new_size - whr) (Some b) hp
                          else Inr hp) (\<lambda>hp.
                   Inr (True, v, hp)))))) (\<lambda>(ok, v, hp).
          Inr (if ok then v\<lparr>mCount := new_size\<rparr> else v, hp))))"

definition removeItemsAt :: "'a item_type \<Rightarrow> u64 \<Rightarrow> u64 \<Rightarrow> vec \<Rightarrow> 'a vheap \<Rightarrow> (int \<times> vec \<times> 'a vheap) chk" where
  "removeItemsAt ty index num v hp =
     (if index + num > mCount v then Inr (VEC_BAD_VALUE, v, hp)
      else bindE (vec_shrink ty index num v hp) (\<lambda>(v, hp). Inr (sint index, v, hp)))"

definition vec_clear :: "'a item_type \<Rightarrow> vec \<Rightarrow> 'a vheap \<Rightarrow> (vec \<times> 'a vheap) chk" where
  "vec_clear ty v hp = vec_shrink ty 0 (mCount v) v hp"

section \<open>Access to the items\<close>

definition Vector_at :: "u64 \<Rightarrow> vec \<Rightarrow> 'a vheap \<Rightarrow> 'a chk" where
  "Vector_at index v hp = bindE (derefE NullDeref (mStorage v)) (\<lambda>b. slot_value b (unat index) hp)"

text \<open>The item a reference from \<open>editItemAt\<close> refers to.\<close>

definition editItemAt :: "'a item_type \<Rightarrow> u64 \<Rightarrow> vec \<Rightarrow> 'a vheap \<Rightarrow> ((nat \<times> nat) \<times> vec \<times> 'a vheap) chk" where
  "editItemAt ty index v hp =
     bindE (editItemLocation ty index v hp) (\<lambda>(arr, v, hp).
     bindE (derefE NullDeref arr) (\<lambda>b. Inr ((b, 0), v, hp)))"

section \<open>SortedVector and KeyedVector\<close>

text \<open>The binary search of \<open>_indexOrderOf\<close>: the result and the value of \<open>l\<close> behind the loop.\<close>

function index_order_loop :: "('a \<Rightarrow> 'a \<Rightarrow> int) \<Rightarrow> nat \<Rightarrow> 'a vheap \<Rightarrow> 'a \<Rightarrow> int \<Rightarrow> int \<Rightarrow> (int \<times> int) chk" where
  "index_order_loop do_compare b hp item l h =
     (if l \<le> h then
        let mid = l + (h - l) div 2 in
        bindE (slot_value b (nat mid) hp) (\<lambda>curr.
        let c = do_compare curr item in
        if c = 0 then Inr (mid, mid)
        else if c < 0 then index_order_loop do_compare b hp item (mid + 1) h
        else index_order_loop do_compare b hp item l (mid - 1))
      else Inr (NAME_NOT_FOUND, l))"
  by pat_completeness auto
termination by (relation "measure (\<lambda>(_, _, _, _, l, h). nat (h - l + 1))") auto

declare index_order_loop.simps [simp del]

text \<open>The error or the index, and what is stored through \<open>order\<close>.\<close>

definition indexOrderOf :: "('a \<Rightarrow> 'a \<Rightarrow> int) \<Rightarrow> 'a \<Rightarrow> vec \<Rightarrow> 'a vheap \<Rightarrow> (int \<times> int) chk" where
  "indexOrderOf do_compare item v hp =
     (if mCount v = 0 then Inr (NAME_NOT_FOUND, 0)
      else
        let h = sint (mCount v - 1) in
        if 0 \<le> h
        then bindE (derefE NullDeref (mStorage v)) (\<lambda>b. index_order_loop do_compare b hp item 0 h)
        else Inr (NAME_NOT_FOUND, 0))"

definition sorted_indexOf :: "('a \<Rightarrow> 'a \<Rightarrow> int) \<Rightarrow> 'a \<Rightarrow> vec \<Rightarrow> 'a vheap \<Rightarrow> int chk" where
  "sorted_indexOf do_compare item v hp = bindE (indexOrderOf do_compare item v hp) (\<lambda>(err, _). Inr err)"

definition SortedVector_indexOf :: "('a \<Rightarrow> 'a \<Rightarrow> bool) \<Rightarrow> 'a \<Rightarrow> vec \<Rightarrow> 'a vheap \<Rightarrow> int chk" where
  "SortedVector_indexOf lt item v hp = sorted_indexOf (compare_type lt) item v hp"

text \<open>The key is paired with a value the default constructor makes.\<close>

definition indexOfKey ::
  "('k \<Rightarrow> 'k \<Rightarrow> bool) \<Rightarrow> 'v \<Rightarrow> 'k \<Rightarrow> vec \<Rightarrow> ('k, 'v) key_value_pair_t vheap \<Rightarrow> int chk" where
  "indexOfKey lt default_value key v hp =
     SortedVector_indexOf (key_value_less lt) \<lparr>kv_key = key, kv_value = default_value\<rparr> v hp"

definition valueAt :: "u64 \<Rightarrow> vec \<Rightarrow> ('k, 'v) key_value_pair_t vheap \<Rightarrow> 'v chk" where
  "valueAt index v hp = bindE (Vector_at index v hp) (\<lambda>p. Inr (kv_value p))"

end
