(* ===== verification/Vector_Slots.thy ===== *)
theory Vector_Slots
  imports Vector
begin

text \<open>
  What the loops of \<open>TypeHelpers.h\<close> do to the slots of a buffer, each as one store, and the effect of
  moving a range of items inside a buffer.
\<close>

section \<open>Stores and reads\<close>

lemma sb_put_same: "hp_bufs hp b = Some sb \<Longrightarrow> sb_put b sb hp = hp"
  by (cases hp) (simp add: sb_put_def fun_upd_idem)

lemma sb_put_put [simp]: "sb_put b sb' (sb_put b sb hp) = sb_put b sb' hp"
  by (simp add: sb_put_def)

lemma sb_store_eq:
  "hp_bufs hp b = Some sb \<Longrightarrow> off + length xs \<le> length (sb_data sb) \<Longrightarrow>
   sb_store b off xs hp = Inr (sb_put b (sb\<lparr>sb_data := take off (sb_data sb) @ xs @ drop (off + length xs) (sb_data sb)\<rparr>) hp)"
  by (simp add: sb_store_def sb_get_def)

lemma sb_read_eq:
  "hp_bufs hp b = Some sb \<Longrightarrow> off + n \<le> length (sb_data sb) \<Longrightarrow>
   sb_read b off n hp = Inr (take n (drop off (sb_data sb)))"
  by (simp add: sb_read_def sb_get_def mem_read_def)

lemma slot_value_eq:
  "hp_bufs hp b = Some sb \<Longrightarrow> i < length (sb_data sb) \<Longrightarrow> sb_data sb ! i = Val x \<Longrightarrow> slot_value b i hp = Inr x"
  by (simp add: slot_value_def sb_get_def)

text \<open>A store followed by one right behind it is one store.\<close>

lemma sb_store_Cons:
  assumes "hp_bufs hp b = Some sb" and "Suc (off + length xs) \<le> length (sb_data sb)"
  shows "bindE (sb_store b off [x] hp) (sb_store b (Suc off) xs) = sb_store b off (x # xs) hp"
proof -
  have "take (Suc off) (take off (sb_data sb) @ x # drop (Suc off) (sb_data sb)) = take off (sb_data sb) @ [x]"
    using assms by simp
  moreover have "drop (Suc (off + length xs)) (take off (sb_data sb) @ x # drop (Suc off) (sb_data sb)) =
      drop (Suc (off + length xs)) (sb_data sb)"
    using assms by (simp add: Suc_diff_le add.commute)
  ultimately show ?thesis using assms by (simp add: sb_store_eq)
qed

lemma sb_store_Nil: "hp_bufs hp b = Some sb \<Longrightarrow> off \<le> length (sb_data sb) \<Longrightarrow> sb_store b off [] hp = Inr hp"
  by (simp add: sb_store_eq sb_put_same)

lemma nth_stored:
  assumes "off + length xs \<le> length D"
  shows "length (take off D @ xs @ drop (off + length xs) D) = length D"
    "i < length D \<Longrightarrow> (take off D @ xs @ drop (off + length xs) D) ! i =
       (if off \<le> i \<and> i < off + length xs then xs ! (i - off) else D ! i)"
  using assms by (auto simp: nth_append min_def)

section \<open>The loops\<close>

lemma splat_type_eq:
  "hp_bufs hp b = Some sb \<Longrightarrow> p + n \<le> length (sb_data sb) \<Longrightarrow>
   splat_type b p (Outside x) n hp = sb_store b p (replicate n (Val x)) hp"
proof (induction n arbitrary: p hp sb)
  case 0
  then show ?case by (simp add: sb_store_Nil)
next
  case (Suc n)
  let ?sb = "sb\<lparr>sb_data := take p (sb_data sb) @ [Val x] @ drop (p + 1) (sb_data sb)\<rparr>"
  have "splat_type b (Suc p) (Outside x) n (sb_put b ?sb hp) =
      sb_store b (Suc p) (replicate n (Val x)) (sb_put b ?sb hp)"
    by (rule Suc.IH [where sb = ?sb]) (use Suc.prems in auto)
  moreover have st: "sb_store b p [Val x] hp = Inr (sb_put b ?sb hp)" using Suc.prems by (simp add: sb_store_eq)
  ultimately have "splat_type b p (Outside x) (Suc n) hp =
      bindE (sb_store b p [Val x] hp) (sb_store b (Suc p) (replicate n (Val x)))"
    by (simp add: item_value_def)
  also have "\<dots> = sb_store b p (Val x # replicate n (Val x)) hp" by (rule sb_store_Cons) (use Suc.prems in auto)
  finally show ?case by simp
qed

lemma construct_loop_splat: "construct_loop x b p n hp = splat_type b p (Outside x) n hp"
proof (induction n arbitrary: p hp)
  case (Suc n)
  have "construct_loop x b (Suc p) n = splat_type b (Suc p) (Outside x) n" by (rule ext, rule Suc.IH)
  then show ?case by (simp add: item_value_def)
qed simp

lemma copy_type_eq:
  assumes "db \<noteq> b" and "hp_bufs hp db = Some dst" and "hp_bufs hp b = Some src"
    and "d + length ys \<le> length (sb_data dst)" and "s + length ys \<le> length (sb_data src)"
    and "\<And>i. i < length ys \<Longrightarrow> sb_data src ! (s + i) = Val (ys ! i)"
  shows "copy_type db d b s (length ys) hp = sb_store db d (map Val ys) hp"
  using assms(2-)
proof (induction ys arbitrary: d s hp dst)
  case Nil
  then show ?case by (simp add: sb_store_Nil)
next
  case (Cons y ys)
  let ?dst = "dst\<lparr>sb_data := take d (sb_data dst) @ [Val y] @ drop (d + 1) (sb_data dst)\<rparr>"
  have "copy_type db (Suc d) b (Suc s) (length ys) (sb_put db ?dst hp) =
      sb_store db (Suc d) (map Val ys) (sb_put db ?dst hp)"
  proof (rule Cons.IH [where dst = ?dst])
    show "sb_data src ! (Suc s + i) = Val (ys ! i)" if "i < length ys" for i
      using Cons.prems(5) [of "Suc i"] that by simp
  qed (use Cons.prems assms(1) in auto)
  moreover have "slot_value b s hp = Inr y"
    using Cons.prems(2,4) Cons.prems(5) [of 0] by (intro slot_value_eq) auto
  moreover have st: "sb_store db d [Val y] hp = Inr (sb_put db ?dst hp)" using Cons.prems by (simp add: sb_store_eq)
  ultimately have "copy_type db d b s (length (y # ys)) hp = bindE (sb_store db d [Val y] hp) (sb_store db (Suc d) (map Val ys))"
    by simp
  also have "\<dots> = sb_store db d (Val y # map Val ys) hp" by (rule sb_store_Cons) (use Cons.prems in auto)
  finally show ?case by simp
qed

lemma destroy_loop_eq:
  assumes "hp_bufs hp b = Some sb" and "p + n \<le> length (sb_data sb)"
    and "\<And>i. p \<le> i \<Longrightarrow> i < p + n \<Longrightarrow> sb_data sb ! i \<noteq> Raw"
  shows "destroy_loop b p n hp = sb_store b p (replicate n Raw) hp"
  using assms
proof (induction n arbitrary: p hp sb)
  case 0
  then show ?case by (simp add: sb_store_Nil)
next
  case (Suc n)
  let ?sb = "sb\<lparr>sb_data := take p (sb_data sb) @ [Raw] @ drop (p + 1) (sb_data sb)\<rparr>"
  obtain x where x: "sb_data sb ! p = Val x" using Suc.prems(3) [of p] by (cases "sb_data sb ! p") auto
  have "destroy_loop b (Suc p) n (sb_put b ?sb hp) = sb_store b (Suc p) (replicate n Raw) (sb_put b ?sb hp)"
  proof (rule Suc.IH [where sb = ?sb])
    show "sb_data ?sb ! i \<noteq> Raw" if "Suc p \<le> i" "i < Suc p + n" for i
      using nth_stored(2) [of p "[Raw]" "sb_data sb" i] Suc.prems(2) Suc.prems(3) [of i] that by simp
  qed (use Suc.prems in auto)
  moreover have st: "sb_store b p [Raw] hp = Inr (sb_put b ?sb hp)" using Suc.prems by (simp add: sb_store_eq)
  moreover have "slot_value b p hp = Inr x" by (rule slot_value_eq) (use Suc.prems x in auto)
  ultimately have "destroy_loop b p (Suc n) hp = bindE (sb_store b p [Raw] hp) (sb_store b (Suc p) (replicate n Raw))"
    by simp
  also have "\<dots> = sb_store b p (Raw # replicate n Raw) hp" by (rule sb_store_Cons) (use Suc.prems in auto)
  finally show ?case by simp
qed

section \<open>Moving items\<close>

text \<open>The types whose moved items leave raw memory behind.\<close>

definition tracked :: "'a item_type \<Rightarrow> bool" where
  "tracked ty \<longleftrightarrow> \<not> use_trivial_move ty \<and> \<not> has_trivial_dtor ty"

definition moved :: "bool \<Rightarrow> nat \<Rightarrow> nat \<Rightarrow> nat \<Rightarrow> 'a slot list \<Rightarrow> nat \<Rightarrow> 'a slot" where
  "moved trk d s n D i =
     (if d \<le> i \<and> i < d + n then D ! (s + (i - d))
      else if s \<le> i \<and> i < s + n \<and> trk then Raw else D ! i)"

lemma move_loop_eq:
  assumes "hp_bufs hp b = Some sb" and "s < d \<or> d + n \<le> s"
    and "d + n \<le> length (sb_data sb)" and "s + n \<le> length (sb_data sb)"
    and "\<And>i. s \<le> i \<Longrightarrow> i < s + n \<Longrightarrow> sb_data sb ! i \<noteq> Raw"
  shows "\<exists>D. move_loop ty b d s n hp = Inr (sb_put b (sb\<lparr>sb_data := D\<rparr>) hp) \<and> length D = length (sb_data sb) \<and>
    (\<forall>i < length D. D ! i = moved (\<not> has_trivial_dtor ty) d s n (sb_data sb) i)"
  using assms
proof (induction n arbitrary: hp sb)
  case 0
  then show ?case by (intro exI [of _ "sb_data sb"]) (auto simp: sb_put_same moved_def)
next
  case (Suc n)
  let ?D = "sb_data sb"
  obtain x where x: "?D ! (s + n) = Val x" using Suc.prems(5) [of "s + n"] by (cases "?D ! (s + n)") auto
  define D1 where "D1 = ?D[d + n := Val x]"
  define D2 where "D2 = (if has_trivial_dtor ty then D1 else D1[s + n := Raw])"
  have len: "length D1 = length ?D" "length D2 = length ?D" by (simp_all add: D1_def D2_def)
  have store1: "sb_store b (d + n) [Val x] hp = Inr (sb_put b (sb\<lparr>sb_data := D1\<rparr>) hp)"
    using Suc.prems(1,3) by (simp add: sb_store_eq D1_def upd_conv_take_nth_drop)
  have copy: "(if \<not> has_trivial_copy ty
        then bindE (slot_value b (s + n) hp) (\<lambda>x. sb_store b (d + n) [Val x] hp)
        else bindE (sb_read b (s + n) 1 hp) (\<lambda>xs. sb_store b (d + n) xs hp)) = Inr (sb_put b (sb\<lparr>sb_data := D1\<rparr>) hp)"
    using Suc.prems(1,4) x store1
    by (simp add: slot_value_eq sb_read_eq take_Suc_conv_app_nth flip: Cons_nth_drop_Suc)
  have s1: "D1 ! (s + n) = Val x" using Suc.prems(3,4) x by (simp add: D1_def nth_list_update)
  have destroy: "(if \<not> has_trivial_dtor ty then destroy_loop b (s + n) 1 (sb_put b (sb\<lparr>sb_data := D1\<rparr>) hp)
      else Inr (sb_put b (sb\<lparr>sb_data := D1\<rparr>) hp)) = Inr (sb_put b (sb\<lparr>sb_data := D2\<rparr>) hp)"
    using Suc.prems(4) s1 len
    by (simp add: slot_value_def sb_get_def sb_store_def D2_def upd_conv_take_nth_drop)
  have below: "D2 ! i = ?D ! i" if "s \<le> i" "i < s + n" for i
    using Suc.prems(2,4) that by (auto simp: D1_def D2_def nth_list_update)
  have "\<exists>D. move_loop ty b d s n (sb_put b (sb\<lparr>sb_data := D2\<rparr>) hp) =
        Inr (sb_put b ((sb\<lparr>sb_data := D2\<rparr>)\<lparr>sb_data := D\<rparr>) (sb_put b (sb\<lparr>sb_data := D2\<rparr>) hp)) \<and>
      length D = length (sb_data (sb\<lparr>sb_data := D2\<rparr>)) \<and>
      (\<forall>i < length D. D ! i = moved (\<not> has_trivial_dtor ty) d s n (sb_data (sb\<lparr>sb_data := D2\<rparr>)) i)"
    by (rule Suc.IH) (use Suc.prems(2-) below len in auto)
  then obtain D where D: "move_loop ty b d s n (sb_put b (sb\<lparr>sb_data := D2\<rparr>) hp) = Inr (sb_put b (sb\<lparr>sb_data := D\<rparr>) hp)"
    "length D = length ?D" "\<And>i. i < length ?D \<Longrightarrow> D ! i = moved (\<not> has_trivial_dtor ty) d s n D2 i"
    using len by auto
  have "D ! i = moved (\<not> has_trivial_dtor ty) d s (Suc n) ?D i" if i: "i < length ?D" for i
  proof -
    have ends: "D2 ! (d + n) = Val x" "\<not> has_trivial_dtor ty \<Longrightarrow> D2 ! (s + n) = Raw"
      using Suc.prems(2-4) len by (auto simp: D1_def D2_def nth_list_update)
    have other: "D2 ! i = ?D ! i" if "i \<noteq> d + n" "i \<noteq> s + n \<or> has_trivial_dtor ty"
      using that i by (auto simp: D1_def D2_def nth_list_update)
    show ?thesis
      unfolding D(3) [OF i] moved_def
      using ends other below [of "s + (i - d)"] x Suc.prems(2) by (auto simp: less_Suc_eq)
  qed
  with D copy destroy show ?case by (intro exI [of _ D]) simp
qed

lemma move_forward_eq:
  assumes "hp_bufs hp b = Some sb" and "s < d \<or> d + n \<le> s \<or> use_trivial_move ty"
    and "d + n \<le> length (sb_data sb)" and "s + n \<le> length (sb_data sb)"
    and "\<And>i. s \<le> i \<Longrightarrow> i < s + n \<Longrightarrow> sb_data sb ! i \<noteq> Raw"
  shows "\<exists>D. move_forward_type ty b d s n hp = Inr (sb_put b (sb\<lparr>sb_data := D\<rparr>) hp) \<and>
    length D = length (sb_data sb) \<and> (\<forall>i < length D. D ! i = moved (tracked ty) d s n (sb_data sb) i)"
proof (cases "use_trivial_move ty")
  case True
  let ?xs = "take n (drop s (sb_data sb))"
  have len: "length ?xs = n" using assms(4) by simp
  have "move_forward_type ty b d s n hp =
      Inr (sb_put b (sb\<lparr>sb_data := take d (sb_data sb) @ ?xs @ drop (d + length ?xs) (sb_data sb)\<rparr>) hp)"
    using True assms(1,3,4) len by (simp add: move_forward_type_def sb_read_eq sb_store_eq)
  moreover have "(take d (sb_data sb) @ ?xs @ drop (d + length ?xs) (sb_data sb)) ! i = moved (tracked ty) d s n (sb_data sb) i"
    if "i < length (sb_data sb)" for i
  proof -
    have "?xs ! (i - d) = sb_data sb ! (s + (i - d))" if "d \<le> i" "i < d + n" using that assms(4) by simp
    then show ?thesis
      using nth_stored(2) [of d ?xs "sb_data sb" i] assms(3,4) len that True
      by (cases "d \<le> i \<and> i < d + n") (simp_all only: moved_def tracked_def if_True if_False simp_thms)
  qed
  ultimately show ?thesis
    using nth_stored(1) [of d ?xs "sb_data sb"] assms(3) len
    by (intro exI [of _ "take d (sb_data sb) @ ?xs @ drop (d + length ?xs) (sb_data sb)"]) auto
next
  case False
  with assms move_loop_eq [OF assms(1), of s d n ty] show ?thesis
    by (simp add: move_forward_type_def tracked_def)
qed

end
