(* ===== verification/Vector_Inv.thy ===== *)
theory Vector_Inv
  imports Vector_Slots
begin

text \<open>
  When a vector holds a list, and the lemmas that each step of \<open>_grow\<close> and \<open>_shrink\<close> needs: capacity,
  copying items to a new buffer, releasing the old one.
\<close>

section \<open>A vector that holds a list\<close>

text \<open>
  The items are in the first slots; behind them, a type whose items are destroyed one by one has no object
  left. The storage has one owner and the size of a whole number of slots.
\<close>

definition vec_wf :: "'a item_type \<Rightarrow> vec \<Rightarrow> bool" where
  "vec_wf ty v \<longleftrightarrow> mFlags v = mFlags (Vector_new ty) \<and> mItemSize v = sizeof_type ty \<and> 0 < sizeof_type ty"

definition vec_slots :: "'a item_type \<Rightarrow> 'a list \<Rightarrow> 'a slot list \<Rightarrow> bool" where
  "vec_slots ty xs D \<longleftrightarrow> length xs \<le> length D \<and> (\<forall>i < length xs. D ! i = Val (xs ! i)) \<and>
     (tracked ty \<longrightarrow> (\<forall>i < length D. length xs \<le> i \<longrightarrow> D ! i = Raw))"

definition vec_buffer :: "'a item_type \<Rightarrow> 'a slot shared_buffer \<Rightarrow> bool" where
  "vec_buffer ty sb \<longleftrightarrow> mRefs sb = 1 \<and> unat (mSize sb) = length (sb_data sb) * unat (sizeof_type ty)"

definition vec_holds :: "'a item_type \<Rightarrow> 'a vheap \<Rightarrow> vec \<Rightarrow> 'a list \<Rightarrow> bool" where
  "vec_holds ty hp v xs \<longleftrightarrow> vec_wf ty v \<and> unat (mCount v) = length xs \<and>
     (case mStorage v of
        None \<Rightarrow> xs = []
      | Some b \<Rightarrow> \<exists>sb. hp_bufs hp b = Some sb \<and> vec_buffer ty sb \<and> vec_slots ty xs (sb_data sb))"

definition sb_fresh :: "'a sb_heap \<Rightarrow> bool" where
  "sb_fresh hp \<longleftrightarrow> (\<forall>c \<ge> hp_next hp. hp_bufs hp c = None)"

lemma Vector_new_holds: "0 < sizeof_type ty \<Longrightarrow> vec_holds ty hp (Vector_new ty) []"
  by (simp add: vec_holds_def vec_wf_def Vector_new_def VectorImpl_new_def)

lemma vec_flags:
  assumes "vec_wf ty v"
  shows "mFlags v AND HAS_TRIVIAL_CTOR = 0 \<longleftrightarrow> \<not> has_trivial_ctor ty"
    "mFlags v AND HAS_TRIVIAL_DTOR = 0 \<longleftrightarrow> \<not> has_trivial_dtor ty"
    "mFlags v AND HAS_TRIVIAL_COPY = 0 \<longleftrightarrow> \<not> has_trivial_copy ty"
  using assms by (auto simp: vec_wf_def Vector_new_def VectorImpl_new_def)

lemma vec_holds_storage:
  assumes "vec_holds ty hp v xs" and "mStorage v = Some b"
  obtains sb where "hp_bufs hp b = Some sb" "vec_buffer ty sb" "vec_slots ty xs (sb_data sb)"
  using assms by (auto simp: vec_holds_def)

lemma vec_buffer_slots:
  assumes "vec_buffer ty sb" and "0 < sizeof_type ty"
  shows "length (sb_data sb) = unat (mSize sb) div unat (sizeof_type ty)"
    "mSize sb div sizeof_type ty = of_nat (length (sb_data sb))" "length (sb_data sb) < 2 ^ 64"
proof -
  have pos: "0 < unat (sizeof_type ty)" using assms(2) by (simp add: unat_gt_0)
  then show len: "length (sb_data sb) = unat (mSize sb) div unat (sizeof_type ty)"
    using assms(1) by (simp add: vec_buffer_def)
  have "unat (mSize sb) < 2 ^ 64" using unsigned_less [of "mSize sb", where 'a = nat] by simp
  with len div_le_dividend [of "unat (mSize sb)" "unat (sizeof_type ty)"]
  show small: "length (sb_data sb) < 2 ^ 64" by linarith
  show "mSize sb div sizeof_type ty = of_nat (length (sb_data sb))"
    using len small by (simp add: word_unat_eq_iff unat_div unat_of_nat_64)
qed

definition vec_cap :: "'a vheap \<Rightarrow> vec \<Rightarrow> nat" where
  "vec_cap hp v = (case mStorage v of None \<Rightarrow> 0 | Some b \<Rightarrow>
     (case hp_bufs hp b of None \<Rightarrow> 0 | Some sb \<Rightarrow> length (sb_data sb)))"

lemma vec_capacity_holds:
  assumes "vec_holds ty hp v xs"
  shows "vec_capacity v hp = Inr (of_nat (vec_cap hp v))" "vec_cap hp v < 2 ^ 64" "length xs \<le> vec_cap hp v"
proof -
  have "vec_capacity v hp = Inr (of_nat (vec_cap hp v)) \<and> vec_cap hp v < 2 ^ 64 \<and> length xs \<le> vec_cap hp v"
  proof (cases "mStorage v")
    case None
    then show ?thesis using assms by (simp add: vec_capacity_def vec_cap_def vec_holds_def)
  next
    case (Some b)
    then obtain sb where "hp_bufs hp b = Some sb" "vec_buffer ty sb" "vec_slots ty xs (sb_data sb)"
      using vec_holds_storage [OF assms] by blast
    with Some vec_buffer_slots [of ty sb] assms show ?thesis
      by (simp add: vec_capacity_def vec_cap_def sizeFromData_def sb_get_def vec_holds_def vec_wf_def vec_slots_def)
  qed
  then show "vec_capacity v hp = Inr (of_nat (vec_cap hp v))" "vec_cap hp v < 2 ^ 64" "length xs \<le> vec_cap hp v"
    by simp_all
qed

section \<open>Copying to a new buffer and releasing the old one\<close>

lemma vec_do_copy_eq:
  assumes wf: "vec_wf ty v" and dst: "db \<noteq> b" "hp_bufs hp db = Some dst" "d + length ys \<le> length (sb_data dst)"
    and src: "hp_bufs hp b = Some src" "s + length ys \<le> length (sb_data src)"
    and vals: "\<And>i. i < length ys \<Longrightarrow> sb_data src ! (s + i) = Val (ys ! i)"
  shows "vec_do_copy v db d (Some b) s (length ys) hp = sb_store db d (map Val ys) hp"
proof (cases "ys = []")
  case True
  then show ?thesis using dst by (simp add: vec_do_copy_def sb_store_Nil)
next
  case False
  have "take (length ys) (drop s (sb_data src)) = map Val ys"
    using src vals by (intro nth_equalityI) simp_all
  then show ?thesis
    using False copy_type_eq [OF dst(1,2) src(1) dst(3) src(2) vals] sb_read_eq [OF src]
    by (simp add: vec_do_copy_def)
qed

text \<open>A part of the items of a vector, stored in a fresh buffer.\<close>

lemma vec_do_copy_part:
  assumes holds: "vec_holds ty hp v xs" and range: "s + n \<le> length xs"
    and bufs: "\<And>b. mStorage v = Some b \<Longrightarrow> b \<noteq> db \<and> hp_bufs hp' b = hp_bufs hp b"
    and dst: "hp_bufs hp' db = Some dst" "d + n \<le> length (sb_data dst)"
  shows "vec_do_copy v db d (mStorage v) s n hp' =
    Inr (sb_put db (dst\<lparr>sb_data := take d (sb_data dst) @ map Val (take n (drop s xs)) @ drop (d + n) (sb_data dst)\<rparr>) hp')"
proof (cases "mStorage v")
  case None
  then have "n = 0" using holds range by (simp add: vec_holds_def)
  then show ?thesis using dst by (simp add: vec_do_copy_def sb_put_same)
next
  case (Some b)
  then obtain sb where sb: "hp_bufs hp b = Some sb" "vec_slots ty xs (sb_data sb)"
    using vec_holds_storage [OF holds] by blast
  let ?ys = "take n (drop s xs)"
  have len: "length ?ys = n" using range by simp
  have "vec_do_copy v db d (Some b) s (length ?ys) hp' = sb_store db d (map Val ?ys) hp'"
  proof (rule vec_do_copy_eq)
    show "vec_wf ty v" using holds by (simp add: vec_holds_def)
    show "db \<noteq> b" "hp_bufs hp' b = Some sb" using bufs [OF Some] sb by auto
    show "hp_bufs hp' db = Some dst" "d + length ?ys \<le> length (sb_data dst)" using dst len by simp_all
    show "s + length ?ys \<le> length (sb_data sb)" using sb(2) len range by (simp add: vec_slots_def)
    show "sb_data sb ! (s + i) = Val (?ys ! i)" if "i < length ?ys" for i
      using sb(2) range that by (simp add: vec_slots_def)
  qed
  then show ?thesis using Some len dst by (simp add: sb_store_eq)
qed

lemma release_storage_holds:
  assumes holds: "vec_holds ty hp v xs" and bufs: "\<And>b. mStorage v = Some b \<Longrightarrow> hp_bufs hp' b = hp_bufs hp b"
  shows "\<exists>hp''. release_storage ty v hp' = Inr hp'' \<and>
    hp_bufs hp'' = (case mStorage v of None \<Rightarrow> hp_bufs hp' | Some b \<Rightarrow> (hp_bufs hp')(b := None)) \<and>
    hp_next hp'' = hp_next hp' \<and> hp_malloc hp'' = hp_malloc hp'"
proof (cases "mStorage v")
  case None
  then show ?thesis by (simp add: release_storage_def)
next
  case (Some b)
  then obtain sb where sb: "hp_bufs hp b = Some sb" "vec_buffer ty sb" "vec_slots ty xs (sb_data sb)"
    using vec_holds_storage [OF holds] by blast
  have b: "hp_bufs hp' b = Some sb" using bufs [OF Some] sb by simp
  have rel: "SharedBuffer_release b eKeepStorage hp' = Inr (1, sb_put b (sb\<lparr>mRefs := 0\<rparr>) hp')"
    by (rule release_owned(2) [OF b]) (use sb(2) in \<open>simp add: vec_buffer_def\<close>)
  let ?hp = "sb_put b (sb\<lparr>mRefs := 0\<rparr>) hp'"
  have count: "unat (mCount v) = length xs" and wf: "vec_wf ty v" using holds by (simp_all add: vec_holds_def)
  have "destroy_loop b 0 (length xs) ?hp = sb_store b 0 (replicate (length xs) Raw) ?hp"
    by (rule destroy_loop_eq [of _ _ "sb\<lparr>mRefs := 0\<rparr>"]) (use sb(3) in \<open>auto simp: vec_slots_def\<close>)
  also have "\<dots> = Inr (sb_put b (sb\<lparr>mRefs := 0, sb_data := replicate (length xs) Raw @ drop (length xs) (sb_data sb)\<rparr>) hp')"
    using sb(3) by (simp add: sb_store_eq vec_slots_def)
  finally show ?thesis
    using rel Some vec_flags(2) [OF wf] count
    by (simp add: release_storage_def vec_do_destroy_def destroy_type_def)
qed

section \<open>Moving to a new buffer\<close>

text \<open>
  The first \<open>i\<close> items go to the front of the new buffer and those from \<open>s\<close> on to the slot \<open>d\<close>: with a gap
  when the vector grows, without a part of its items when it shrinks.
\<close>

definition two_parts :: "nat \<Rightarrow> 'a list \<Rightarrow> nat \<Rightarrow> nat \<Rightarrow> nat \<Rightarrow> 'a slot list" where
  "two_parts cap xs i d s = map Val (take i xs) @ replicate (d - i) Raw @ map Val (drop s xs) @
     replicate (cap - d - (length xs - s)) Raw"

lemma length_two_parts:
  "i \<le> s \<Longrightarrow> s \<le> length xs \<Longrightarrow> i \<le> d \<Longrightarrow> d + (length xs - s) \<le> cap \<Longrightarrow> length (two_parts cap xs i d s) = cap"
  by (simp add: two_parts_def)

lemma nth_two_parts:
  assumes "i \<le> s" "s \<le> length xs" "i \<le> d" "d + (length xs - s) \<le> cap" "j < cap"
  shows "two_parts cap xs i d s ! j =
    (if j < i then Val (xs ! j) else if d \<le> j \<and> j < d + (length xs - s) then Val (xs ! (s + (j - d))) else Raw)"
  using assms by (auto simp: two_parts_def nth_append)

definition rehouse ::
  "'a item_type \<Rightarrow> vec \<Rightarrow> nat \<Rightarrow> bool \<Rightarrow> nat \<Rightarrow> bool \<Rightarrow> nat \<Rightarrow> nat \<Rightarrow> nat \<Rightarrow> 'a vheap \<Rightarrow> (bool \<times> vec \<times> 'a vheap) chk" where
  "rehouse ty v n front i rear d s m hp =
     bindE (if front then vec_do_copy v n 0 (mStorage v) 0 i hp else Inr hp) (\<lambda>hp.
     bindE (if rear then vec_do_copy v n d (mStorage v) s m hp else Inr hp) (\<lambda>hp.
     bindE (release_storage ty v hp) (\<lambda>hp. Inr (True, v\<lparr>mStorage := Some n\<rparr>, hp))))"

lemma rehouse_outcome:
  assumes holds: "vec_holds ty hp v xs" and fresh: "sb_fresh hp" and m: "m = length xs - s"
    and range: "i \<le> s" "s \<le> length xs" "i \<le> d" "d + m \<le> cap"
    and flags: "\<not> front \<longrightarrow> i = 0" "\<not> rear \<longrightarrow> s = length xs"
    and new: "hp_bufs hp1 = (hp_bufs hp)(hp_next hp \<mapsto> \<lparr>mRefs = 1, mSize = sz, mClientMetadata = 0,
      sb_data = replicate cap Raw\<rparr>)" "hp_next hp1 = Suc (hp_next hp)"
  obtains hp' where "rehouse ty v (hp_next hp) front i rear d s m hp1 = Inr (True, v\<lparr>mStorage := Some (hp_next hp)\<rparr>, hp')"
    "hp_bufs hp' (hp_next hp) = Some \<lparr>mRefs = 1, mSize = sz, mClientMetadata = 0, sb_data = two_parts cap xs i d s\<rparr>"
    "sb_fresh hp'" "\<And>c. mStorage v \<noteq> Some c \<Longrightarrow> c \<noteq> hp_next hp \<Longrightarrow> hp_bufs hp' c = hp_bufs hp c"
    "\<And>c. mStorage v = Some c \<Longrightarrow> hp_bufs hp' c = None"
proof -
  let ?n = "hp_next hp"
  let ?new = "\<lambda>D. \<lparr>mRefs = 1, mSize = sz, mClientMetadata = 0, sb_data = D\<rparr> :: 'a slot shared_buffer"
  have other: "b \<noteq> ?n" "hp_bufs hp1 b = hp_bufs hp b" if "mStorage v = Some b" for b
    using that holds fresh new(1) by (auto simp: vec_holds_def sb_fresh_def)
  have hp1: "sb_put ?n (?new (replicate cap Raw)) hp1 = hp1" by (rule sb_put_same) (simp add: new)
  let ?D = "map Val (take i xs) @ replicate (cap - i) Raw"
  have copy1: "vec_do_copy v ?n 0 (mStorage v) 0 i hp1 = Inr (sb_put ?n (?new ?D) hp1)"
    using vec_do_copy_part [OF holds, of 0 i ?n hp1 "?new (replicate cap Raw)" 0] other range new by simp
  have step1: "(if front then vec_do_copy v ?n 0 (mStorage v) 0 i hp1 else Inr hp1) = Inr (sb_put ?n (?new ?D) hp1)"
    using copy1 hp1 flags(1) by (cases front) auto
  have "take d ?D @ map Val (drop s xs) @ drop (d + m) ?D = two_parts cap xs i d s"
  proof -
    have "min (length xs) i = i" "min (d - i) (cap - i) = d - i" "min (cap - i) (d - i) = d - i" using range m by auto
    then show ?thesis using range m by (simp add: two_parts_def)
  qed
  then have copy2: "vec_do_copy v ?n d (mStorage v) s m (sb_put ?n (?new ?D) hp1) = Inr (sb_put ?n (?new (two_parts cap xs i d s)) hp1)"
    using vec_do_copy_part [OF holds, of s m ?n "sb_put ?n (?new ?D) hp1" "?new ?D" d] other range m by simp
  have "two_parts cap xs i d (length xs) = ?D" if "d \<le> cap"
    using range that by (simp add: two_parts_def replicate_add [symmetric])
  with copy2 flags(2) range m
  have step2: "(if rear then vec_do_copy v ?n d (mStorage v) s m (sb_put ?n (?new ?D) hp1) else Inr (sb_put ?n (?new ?D) hp1)) =
      Inr (sb_put ?n (?new (two_parts cap xs i d s)) hp1)"
    by (cases rear) auto
  let ?hp2 = "sb_put ?n (?new (two_parts cap xs i d s)) hp1"
  obtain hp3 where rel: "release_storage ty v ?hp2 = Inr hp3" "hp_next hp3 = Suc ?n"
    "hp_bufs hp3 = (case mStorage v of None \<Rightarrow> hp_bufs ?hp2 | Some b \<Rightarrow> (hp_bufs ?hp2)(b := None))"
    using release_storage_holds [OF holds, of ?hp2] other new by auto
  show ?thesis
  proof (rule that)
    show "rehouse ty v ?n front i rear d s m hp1 = Inr (True, v\<lparr>mStorage := Some ?n\<rparr>, hp3)"
      unfolding rehouse_def step1 step2 bindE_simps rel(1) ..
    show "hp_bufs hp3 ?n = Some (?new (two_parts cap xs i d s))" using rel(3) other by (auto split: option.splits)
    show "sb_fresh hp3" using rel fresh new by (auto simp: sb_fresh_def split: option.splits)
    show "hp_bufs hp3 c = hp_bufs hp c" if "mStorage v \<noteq> Some c" "c \<noteq> ?n" for c
      using that rel new by (auto split: option.splits)
    show "hp_bufs hp3 c = None" if "mStorage v = Some c" for c using that rel by simp
  qed
qed

end
