(* ===== verification/Vector_Grow.thy ===== *)
theory Vector_Grow
  imports Vector_Inv
begin

text \<open>
  \<open>_grow\<close> opens a gap in the items of a vector, in the storage it has or in new storage, and \<open>insertAt\<close>
  fills it: inserting into the list the vector holds.
\<close>

section \<open>A gap\<close>

definition gap_slots :: "'a item_type \<Rightarrow> 'a list \<Rightarrow> nat \<Rightarrow> nat \<Rightarrow> 'a slot list \<Rightarrow> bool" where
  "gap_slots ty xs i k D \<longleftrightarrow> length xs + k \<le> length D \<and> (\<forall>j < i. D ! j = Val (xs ! j)) \<and>
     (\<forall>j < length xs. i \<le> j \<longrightarrow> D ! (j + k) = Val (xs ! j)) \<and>
     (tracked ty \<longrightarrow> (\<forall>j < length D. length xs + k \<le> j \<longrightarrow> D ! j = Raw))"

lemma gap_filled:
  assumes "gap_slots ty xs i k D" and "i \<le> length xs"
  shows "vec_slots ty (take i xs @ replicate k x @ drop i xs) (take i D @ replicate k (Val x) @ drop (i + k) D)"
proof -
  let ?ys = "take i xs @ replicate k x @ drop i xs" and ?D = "take i D @ replicate k (Val x) @ drop (i + k) D"
  have len: "length ?ys = length xs + k" "length ?D = length D" "length xs + k \<le> length D"
    using assms by (auto simp: gap_slots_def)
  have nth: "?D ! j = (if i \<le> j \<and> j < i + k then Val x else D ! j)" if "j < length D" for j
    using nth_stored(2) [of i "replicate k (Val x)" D j] that assms len by auto
  have "?D ! j = Val (?ys ! j)" if j: "j < length xs + k" for j
  proof -
    consider "j < i" | "i \<le> j" "j < i + k" | "i + k \<le> j" by linarith
    then show ?thesis
    proof cases
      case 3
      then have "j - k < length xs" "i \<le> j - k" "j - k + k = j" using j by auto
      then have "D ! j = Val (xs ! (j - k))" using assms(1) unfolding gap_slots_def by metis
      moreover have "i + (j - (i + k)) = j - k" "\<not> j - i < k" using 3 by simp_all
      ultimately show ?thesis using 3 j nth [of j] len assms(2) by (simp add: nth_append min_def)
    qed (use assms nth [of j] j len in \<open>auto simp: nth_append min_def gap_slots_def\<close>)
  qed
  moreover have "?D ! j = Raw" if "tracked ty" "j < length D" "length xs + k \<le> j" for j
    using assms nth [of j] that by (auto simp: gap_slots_def)
  ultimately show ?thesis unfolding vec_slots_def len using len(3) by blast
qed

section \<open>Sizes\<close>

text \<open>The room that inserting \<open>k\<close> items may ask for is far from wrapping around.\<close>

definition vec_fits :: "'a item_type \<Rightarrow> nat \<Rightarrow> bool" where
  "vec_fits ty n \<longleftrightarrow> (2 * n + 4) * unat (sizeof_type ty) < 2 ^ 62"

lemma vec_fits_bounds:
  assumes "vec_fits ty n" and "0 < sizeof_type ty" and "m \<le> 2 * n + 4"
  shows "m < 2 ^ 62" "m * unat (sizeof_type ty) < 2 ^ 62"
    "unat (of_nat m * sizeof_type ty) = m * unat (sizeof_type ty)"
proof -
  have pos: "1 \<le> unat (sizeof_type ty)" using assms(2) by (simp add: Suc_le_eq unat_gt_0)
  show less: "m * unat (sizeof_type ty) < 2 ^ 62"
    using assms(1,3) unfolding vec_fits_def by (meson le_less_trans mult_le_mono1)
  with pos show m: "m < 2 ^ 62" by (metis le_less_trans mult.right_neutral mult_le_mono2)
  have "m * unat (sizeof_type ty) < 2 ^ 64" using less by simp
  then show "unat (of_nat m * sizeof_type ty) = m * unat (sizeof_type ty)"
    using m by (simp add: unat_word_ariths unat_of_nat_64)
qed

lemma unat_add_64: "unat a + unat b < 2 ^ 64 \<Longrightarrow> unat (a + b :: u64) = unat a + unat b"
  by (simp add: unat_word_ariths)

text \<open>The capacity \<open>_grow\<close> asks for.\<close>

definition grown_capacity :: "nat \<Rightarrow> nat" where "grown_capacity n = max 4 (n + n div 2)"

lemma grown_capacity_word:
  assumes "unat (n :: u64) < 2 ^ 62"
  shows "max kMinVectorCapacity (n + n div 2) = of_nat (grown_capacity (unat n))"
proof -
  have "unat (n div 2) = unat n div 2" by (simp add: unat_div)
  then have "unat (n + n div 2) = unat n + unat n div 2" using assms by (simp add: unat_add_64)
  then have "unat (max 4 (n + n div 2)) = grown_capacity (unat n)"
    by (simp add: grown_capacity_def max_def word_le_nat_alt)
  moreover have "max 4 (n + n div 2) = of_nat (unat (max 4 (n + n div 2)))" by simp
  ultimately show ?thesis by simp
qed

lemma grown_capacity_bounds: "n \<le> grown_capacity n" "grown_capacity n \<le> 2 * n + 4"
  by (simp_all add: grown_capacity_def)

section \<open>New storage\<close>

text \<open>
  What \<open>_grow\<close> achieves when it succeeds: the vector has storage of its own with the gap in it, storage that it
  has no more is freed, and no other buffer has changed.
\<close>

definition grown :: "'a item_type \<Rightarrow> 'a list \<Rightarrow> nat \<Rightarrow> nat \<Rightarrow> vec \<Rightarrow> 'a vheap \<Rightarrow> vec \<Rightarrow> 'a vheap \<Rightarrow> bool" where
  "grown ty xs i k v hp v' hp' \<longleftrightarrow> (\<exists>b sb. v' = v\<lparr>mStorage := Some b\<rparr> \<and> hp_bufs hp' b = Some sb \<and>
     vec_buffer ty sb \<and> gap_slots ty xs i k (sb_data sb) \<and> sb_fresh hp' \<and>
     (\<forall>c. mStorage v' \<noteq> Some c \<longrightarrow> hp_bufs hp' c = (if mStorage v = Some c then None else hp_bufs hp c)))"

lemma gap_at_end:
  assumes "vec_slots ty xs D" and "length xs + k \<le> length D"
  shows "gap_slots ty xs (length xs) k D"
  using assms by (auto simp: gap_slots_def vec_slots_def)

lemma gap_two_parts:
  assumes "i \<le> length xs" and "length xs + k \<le> cap"
  shows "gap_slots ty xs i k (two_parts cap xs i (i + k) i)"
  using assms by (auto simp: gap_slots_def length_two_parts nth_two_parts)

lemma grow_copy_outcome:
  assumes holds: "vec_holds ty hp v xs" and fresh: "sb_fresh hp"
    and sz: "unat whr \<le> length xs" "unat sz = cap * unat (sizeof_type ty)" "cap * unat (sizeof_type ty) < 2 ^ 62"
      "length xs + unat amount \<le> cap" "length xs + unat amount < 2 ^ 64"
  obtains (none) hp' where "grow_copy ty whr amount sz v hp = Inr (False, v, hp')" "hp_bufs hp' = hp_bufs hp"
      "hp_next hp' = hp_next hp" "\<not> has_memory hp"
  | (some) v' hp' where "grow_copy ty whr amount sz v hp = Inr (True, v', hp')"
      "grown ty xs (unat whr) (unat amount) v hp v' hp'"
proof -
  have wf: "vec_wf ty v" and count: "unat (mCount v) = length xs" using holds by (simp_all add: vec_holds_def)
  then have item: "mItemSize v = sizeof_type ty" "0 < unat (sizeof_type ty)" by (simp_all add: vec_wf_def unat_gt_0 word_gt_0)
  let ?i = "unat whr" and ?k = "unat amount" and ?n = "hp_next hp"
  have fits: "size_fits sz" using sz(2,3) by simp
  have room: "unat sz div unat (mItemSize v) = cap" using sz(2) item by simp
  show ?thesis
  proof (rule alloc_cases [OF fits, of "unat (mItemSize v)" Raw hp])
    fix hp1 :: "'a vheap"
    assume "SharedBuffer_alloc (unat (mItemSize v)) Raw sz hp = Inr (None, hp1)" "hp_bufs hp1 = hp_bufs hp"
      "hp_next hp1 = hp_next hp" "hd (hp_malloc hp @ [False]) = False"
    then show ?thesis using no_memory(1) [of hp] by (intro none [of hp1]) (simp_all add: grow_copy_def)
  next
    fix hp1 :: "'a vheap"
    assume *: "SharedBuffer_alloc (unat (mItemSize v)) Raw sz hp = Inr (Some ?n, hp1)"
      "hp_bufs hp1 = (hp_bufs hp)(?n \<mapsto> \<lparr>mRefs = 1, mSize = sz, mClientMetadata = 0,
         sb_data = replicate (unat sz div unat (mItemSize v)) Raw\<rparr>)" "hp_next hp1 = Suc ?n"
    have m: "unat (mCount v - whr) = length xs - ?i" using sz(1) count by (simp add: unat_sub word_le_nat_alt)
    have d: "unat (whr + amount) = ?i + ?k" using sz by (intro unat_add_64) simp
    have grow: "grow_copy ty whr amount sz v hp =
        rehouse ty v ?n (whr \<noteq> 0) ?i (whr \<noteq> mCount v) (?i + ?k) ?i (length xs - ?i) hp1"
      unfolding grow_copy_def rehouse_def *(1) bindE_simps prod.case option.case m d ..
    show ?thesis
    proof (rule rehouse_outcome [OF holds fresh refl, of ?i ?i "?i + ?k" cap "whr \<noteq> 0" "whr \<noteq> mCount v" hp1 sz])
      fix hp'
      assume re: "rehouse ty v ?n (whr \<noteq> 0) ?i (whr \<noteq> mCount v) (?i + ?k) ?i (length xs - ?i) hp1 =
          Inr (True, v\<lparr>mStorage := Some ?n\<rparr>, hp')"
        "hp_bufs hp' ?n = Some \<lparr>mRefs = 1, mSize = sz, mClientMetadata = 0, sb_data = two_parts cap xs ?i (?i + ?k) ?i\<rparr>"
        "sb_fresh hp'" "\<And>c. mStorage v \<noteq> Some c \<Longrightarrow> c \<noteq> ?n \<Longrightarrow> hp_bufs hp' c = hp_bufs hp c"
        "\<And>c. mStorage v = Some c \<Longrightarrow> hp_bufs hp' c = None"
      have "grown ty xs ?i ?k v hp (v\<lparr>mStorage := Some ?n\<rparr>) hp'"
        using re(2-5) sz gap_two_parts [of ?i xs ?k cap ty]
        by (auto simp: grown_def vec_buffer_def length_two_parts)
      then show ?thesis using re(1) by (intro some) (simp_all add: grow)
    qed (use sz count * room in auto)
  qed
qed

lemma grow_storage_outcome:
  assumes holds: "vec_holds ty hp v xs" and fresh: "sb_fresh hp"
    and sz: "unat whr \<le> length xs" "unat sz = cap * unat (sizeof_type ty)" "cap * unat (sizeof_type ty) < 2 ^ 62"
      "length xs + unat amount \<le> cap" "length xs + unat amount < 2 ^ 64" "vec_cap hp v < cap"
  obtains (none) hp' where "grow_storage ty whr amount sz v hp = Inr (False, v, hp')" "hp_bufs hp' = hp_bufs hp"
      "hp_next hp' = hp_next hp" "\<not> has_memory hp"
  | (some) v' hp' where "grow_storage ty whr amount sz v hp = Inr (True, v', hp')"
      "grown ty xs (unat whr) (unat amount) v hp v' hp'"
proof -
  have wf: "vec_wf ty v" and count: "unat (mCount v) = length xs" using holds by (simp_all add: vec_holds_def)
  then have item: "mItemSize v = sizeof_type ty" "0 < unat (sizeof_type ty)" "0 < sizeof_type ty"
    by (simp_all add: vec_wf_def unat_gt_0 word_gt_0)
  show ?thesis
  proof (cases "\<exists>b. mStorage v = Some b \<and> mCount v = whr \<and> has_trivial_copy ty \<and> has_trivial_dtor ty")
    case False
    then have "grow_storage ty whr amount sz v hp = grow_copy ty whr amount sz v hp"
      using vec_flags [OF wf] by (auto simp: grow_storage_def split: option.splits)
    with grow_copy_outcome [OF holds fresh sz(1-5)] none some show ?thesis by metis
  next
    case True
    then obtain b where b: "mStorage v = Some b" "mCount v = whr" "has_trivial_copy ty" "has_trivial_dtor ty" by blast
    obtain sb where sb: "hp_bufs hp b = Some sb" "vec_buffer ty sb" "vec_slots ty xs (sb_data sb)"
      using vec_holds_storage [OF holds b(1)] by blast
    have cap: "length (sb_data sb) < cap" using sz(6) b sb by (simp add: vec_cap_def)
    have grow: "grow_storage ty whr amount sz v hp =
        bindE (editResize (unat (sizeof_type ty)) Raw b sz hp) (\<lambda>(r, hp).
          case r of None \<Rightarrow> Inr (False, v, hp) | Some n \<Rightarrow> Inr (True, v\<lparr>mStorage := Some n\<rparr>, hp))"
      using b vec_flags [OF wf] item by (simp add: grow_storage_def)
    have "unat (mSize sb) < unat sz" using sb(2) cap sz(2) item by (simp add: vec_buffer_def)
    then have ne: "mSize sb \<noteq> sz" by auto
    have fits: "size_fits sz" using sz(2,3) by simp
    have refs: "mRefs sb = 1" using sb(2) by (simp add: vec_buffer_def)
    have room: "unat sz div unat (sizeof_type ty) = cap" using sz(2) item by simp
    have next_free: "hp_bufs hp (hp_next hp) = None" using fresh by (simp add: sb_fresh_def)
    show ?thesis
    proof (rule editResize_owned [OF sb(1) refs vec_buffer_slots(1) [OF sb(2) item(3)] ne fits next_free, of Raw])
      fix hp'
      assume "editResize (unat (sizeof_type ty)) Raw b sz hp = Inr (None, hp')" "hp_bufs hp' = hp_bufs hp"
        "hp_next hp' = hp_next hp" "True \<notin> set (take 2 (hp_malloc hp))"
      then show ?thesis using no_memory(2) [of hp] by (intro none [of hp']) (simp_all add: grow)
    next
      fix sb' hp'
      assume *: "editResize (unat (sizeof_type ty)) Raw b sz hp = Inr (Some (hp_next hp), hp')"
        "hp_bufs hp' = (hp_bufs hp)(b := None, hp_next hp \<mapsto> sb')" "mRefs sb' = 1" "mSize sb' = sz"
        "sb_data sb' = resized Raw (unat sz div unat (sizeof_type ty)) (sb_data sb)"
        "hp_next hp' = Suc (hp_next hp)"
      have "vec_slots ty xs (sb_data sb')" using sb(3) *(5) cap room by (auto simp: vec_slots_def resized_def nth_append)
      then have "gap_slots ty xs (unat whr) (unat amount) (sb_data sb')"
        using gap_at_end [of ty xs "sb_data sb'" "unat amount"] * b(2) count sz(4) cap room by auto
      then have "grown ty xs (unat whr) (unat amount) v hp (v\<lparr>mStorage := Some (hp_next hp)\<rparr>) hp'"
        using * fresh b sb(1) room cap sz(2) by (auto simp: grown_def vec_buffer_def sb_fresh_def)
      then show ?thesis using * by (intro some) (simp_all add: grow)
    qed
  qed
qed

text \<open>In the storage the vector has, the items behind the gap move up.\<close>

lemma grow_in_place:
  assumes holds: "vec_holds ty hp v xs" and fresh: "sb_fresh hp"
    and sz: "unat whr \<le> length xs" "0 < unat amount" "length xs + unat amount \<le> vec_cap hp v"
  obtains b hp' where "mStorage v = Some b" "editArrayImpl ty v hp = Inr (Some b, v, hp)"
    "(if whr \<noteq> mCount v then move_in_place ty (whr + amount) whr (mCount v - whr) (Some b) hp else Inr hp) = Inr hp'"
    "grown ty xs (unat whr) (unat amount) v hp v hp'"
proof -
  have wf: "vec_wf ty v" and count: "unat (mCount v) = length xs" using holds by (simp_all add: vec_holds_def)
  let ?i = "unat whr" and ?k = "unat amount"
  obtain b where b: "mStorage v = Some b" using sz by (cases "mStorage v") (simp_all add: vec_cap_def)
  obtain sb where sb: "hp_bufs hp b = Some sb" "vec_buffer ty sb" "vec_slots ty xs (sb_data sb)"
    using vec_holds_storage [OF holds b] by blast
  have room: "length xs + ?k \<le> length (sb_data sb)" using sz b sb by (simp add: vec_cap_def)
  have edit: "editArrayImpl ty v hp = Inr (Some b, v, hp)"
    using b sb by (simp add: editArrayImpl_def attemptEdit_def sb_get_def onlyOwner_def vec_buffer_def)
  have same: "v\<lparr>mStorage := Some b\<rparr> = v" using b by simp
  show ?thesis
  proof (cases "whr = mCount v")
    case True
    then have "grown ty xs ?i ?k v hp v hp"
      unfolding grown_def using sb fresh gap_at_end [OF sb(3) room] count
      by (intro exI [of _ b] exI [of _ sb]) (simp add: same)
    with True b edit show ?thesis by (intro that [of b hp]) simp_all
  next
    case False
    have m: "unat (mCount v - whr) = length xs - ?i" using sz(1) count by (simp add: unat_sub word_le_nat_alt)
    have "unat (whr + amount) = ?i + ?k"
      using vec_capacity_holds [OF holds] sz by (intro unat_add_64) linarith
    moreover obtain D where D: "move_forward_type ty b (?i + ?k) ?i (length xs - ?i) hp = Inr (sb_put b (sb\<lparr>sb_data := D\<rparr>) hp)"
      "length D = length (sb_data sb)"
      "\<forall>j < length D. D ! j = moved (tracked ty) (?i + ?k) ?i (length xs - ?i) (sb_data sb) j"
      using move_forward_eq [OF sb(1), of ?i "?i + ?k" "length xs - ?i" ty] sz room sb(3) by (auto simp: vec_slots_def)
    ultimately have move: "move_in_place ty (whr + amount) whr (mCount v - whr) (Some b) hp = Inr (sb_put b (sb\<lparr>sb_data := D\<rparr>) hp)"
      using m by (simp add: move_in_place_def)
    have "gap_slots ty xs ?i ?k D"
      using D(2,3) sb(3) room sz(1,2) by (auto simp: gap_slots_def vec_slots_def moved_def)
    then have "grown ty xs ?i ?k v hp v (sb_put b (sb\<lparr>sb_data := D\<rparr>) hp)"
      unfolding grown_def using b sb fresh D(2)
      by (intro exI [of _ b] exI [of _ "sb\<lparr>sb_data := D\<rparr>"]) (auto simp: same vec_buffer_def sb_fresh_def)
    with False b edit move show ?thesis by (intro that) simp_all
  qed
qed

lemma vec_grow_outcome:
  assumes holds: "vec_holds ty hp v xs" and fresh: "sb_fresh hp"
    and sz: "unat whr \<le> length xs" "0 < unat amount" "vec_fits ty (length xs + unat amount)"
  obtains (none) hp' where "vec_grow ty whr amount v hp = Inr (None, v, hp')" "hp_bufs hp' = hp_bufs hp"
      "hp_next hp' = hp_next hp" "\<not> has_memory hp"
  | (some) b v' hp' where "vec_grow ty whr amount v hp = Inr (Some (b, unat whr), v'\<lparr>mCount := mCount v + amount\<rparr>, hp')"
      "mStorage v' = Some b" "grown ty xs (unat whr) (unat amount) v hp v' hp'"
proof -
  let ?n = "length xs + unat amount"
  have wf: "vec_wf ty v" and count: "unat (mCount v) = length xs" using holds by (simp_all add: vec_holds_def)
  then have item: "mItemSize v = sizeof_type ty" "0 < sizeof_type ty" by (simp_all add: vec_wf_def)
  note bound = vec_fits_bounds [OF sz(3) item(2)]
  have n: "?n < 2 ^ 62" by (rule bound) simp
  have new_size: "unat (mCount v + amount) = ?n" using count n by (simp add: unat_add_64)
  let ?sz = "max kMinVectorCapacity ((mCount v + amount) + (mCount v + amount) div 2) * mItemSize v"
  have cap_word: "max kMinVectorCapacity ((mCount v + amount) + (mCount v + amount) div 2) = of_nat (grown_capacity ?n)"
    using grown_capacity_word [of "mCount v + amount"] new_size n by simp
  note cap_bound = bound [OF grown_capacity_bounds(2)]
  have done': ?thesis if step: "(if of_nat (vec_cap hp v) < mCount v + amount then grow_storage ty whr amount ?sz v hp
      else bindE (editArrayImpl ty v hp) (\<lambda>(arr, v, hp).
        bindE (if whr \<noteq> mCount v then move_in_place ty (whr + amount) whr (mCount v - whr) arr hp else Inr hp) (\<lambda>hp.
        Inr (True, v, hp)))) = Inr (True, v', hp')" and grown: "grown ty xs (unat whr) (unat amount) v hp v' hp'" for v' hp'
  proof -
    obtain b sb where b: "v' = v\<lparr>mStorage := Some b\<rparr>" "hp_bufs hp' b = Some sb" "vec_buffer ty sb"
      "gap_slots ty xs (unat whr) (unat amount) (sb_data sb)"
      using grown by (auto simp: grown_def)
    have "unat whr < length (sb_data sb)" using b(4) sz by (auto simp: gap_slots_def)
    then have "whr < of_nat (length (sb_data sb))"
      using vec_buffer_slots(3) [OF b(3) item(2)] by (simp add: word_less_nat_alt unat_of_nat_64)
    then have "itemLocation whr (v'\<lparr>mCount := mCount v + amount\<rparr>) hp' = Inr (Some (b, unat whr))"
      using b vec_buffer_slots(2) [OF b(3) item(2)] item
      by (simp add: itemLocation_def vec_capacity_def sizeFromData_def sb_get_def)
    then have "vec_grow ty whr amount v hp = Inr (Some (b, unat whr), v'\<lparr>mCount := mCount v + amount\<rparr>, hp')"
      unfolding vec_grow_def Let_def vec_capacity_holds(1) [OF holds] bindE_simps step by simp
    then show ?thesis using b grown by (intro some) simp_all
  qed
  have cap_less: "of_nat (vec_cap hp v) < mCount v + amount \<longleftrightarrow> vec_cap hp v < ?n"
    using vec_capacity_holds(2) [OF holds] new_size by (simp add: word_less_nat_alt unat_of_nat_64)
  show ?thesis
  proof (cases "vec_cap hp v < ?n")
    case True
    have fits: "unat ?sz = grown_capacity ?n * unat (sizeof_type ty)" "?n \<le> grown_capacity ?n" "?n < 2 ^ 64"
        "vec_cap hp v < grown_capacity ?n"
      using cap_word item cap_bound n True grown_capacity_bounds(1) [of ?n] by simp_all
    show ?thesis
    proof (rule grow_storage_outcome [OF holds fresh sz(1) fits(1) cap_bound(2) fits(2,3,4)])
      fix hp'
      assume "grow_storage ty whr amount ?sz v hp = Inr (False, v, hp')" "hp_bufs hp' = hp_bufs hp" "hp_next hp' = hp_next hp"
        "\<not> has_memory hp"
      then show ?thesis
        using True cap_less vec_capacity_holds(1) [OF holds] by (intro none [of hp']) (simp_all add: vec_grow_def Let_def)
    next
      fix v' hp'
      assume "grow_storage ty whr amount ?sz v hp = Inr (True, v', hp')" "grown ty xs (unat whr) (unat amount) v hp v' hp'"
      with True cap_less show ?thesis by (intro done') simp_all
    qed
  next
    case False
    then obtain b hp' where "editArrayImpl ty v hp = Inr (Some b, v, hp)"
      "(if whr \<noteq> mCount v then move_in_place ty (whr + amount) whr (mCount v - whr) (Some b) hp else Inr hp) = Inr hp'"
      "grown ty xs (unat whr) (unat amount) v hp v hp'"
      using grow_in_place [OF holds fresh sz(1,2)] by (metis not_less)
    with False cap_less show ?thesis by (intro done') simp_all
  qed
qed

section \<open>Insertion\<close>

lemma vec_holds_cong:
  "(\<And>b. mStorage v = Some b \<Longrightarrow> hp_bufs hp' b = hp_bufs hp b) \<Longrightarrow> vec_holds ty hp' v xs = vec_holds ty hp v xs"
  by (auto simp: vec_holds_def split: option.splits)

lemma sint_of_small: "unat (w :: u64) < 2 ^ 63 \<Longrightarrow> sint w = int (unat w)"
proof -
  assume "unat w < 2 ^ 63"
  then have "int (unat w) < 2 ^ 63" by (metis of_nat_less_iff of_nat_numeral of_nat_power)
  then have "uint w < 2 ^ 63" by simp
  moreover have "- (2 ^ 63) \<le> (0 :: int)" by simp
  then have "- (2 ^ 63) \<le> uint w" by (rule order_trans) simp
  ultimately show ?thesis by (simp add: sint_uint signed_take_bit_int_eq_self)
qed

text \<open>What the vector holds once the gap is filled.\<close>

lemma splat_gap:
  assumes grown: "grown ty xs i k v hp v' hp'" and wf: "vec_wf ty v" and i: "i \<le> length xs"
    and count: "unat c = length xs + k" and b: "mStorage v' = Some b"
  obtains hp'' where "splat_type b i (Outside x) k hp' = Inr hp''"
    "vec_holds ty hp'' (v'\<lparr>mCount := c\<rparr>) (take i xs @ replicate k x @ drop i xs)" "sb_fresh hp''"
    "\<And>c. b \<noteq> c \<Longrightarrow> hp_bufs hp'' c = (if mStorage v = Some c then None else hp_bufs hp c)"
proof -
  obtain sb where sb: "v' = v\<lparr>mStorage := Some b\<rparr>" "hp_bufs hp' b = Some sb" "vec_buffer ty sb"
    "gap_slots ty xs i k (sb_data sb)" "sb_fresh hp'"
    "\<forall>c. b \<noteq> c \<longrightarrow> hp_bufs hp' c = (if mStorage v = Some c then None else hp_bufs hp c)"
    using grown b by (auto simp: grown_def)
  let ?D = "take i (sb_data sb) @ replicate k (Val x) @ drop (i + k) (sb_data sb)"
  have room: "i + k \<le> length (sb_data sb)" using sb(4) i by (simp add: gap_slots_def)
  then have len: "length ?D = length (sb_data sb)" by simp
  have "splat_type b i (Outside x) k hp' = Inr (sb_put b (sb\<lparr>sb_data := ?D\<rparr>) hp')"
    using splat_type_eq [OF sb(2) room] sb_store_eq [OF sb(2), of i "replicate k (Val x)"] room by simp
  moreover have "vec_holds ty (sb_put b (sb\<lparr>sb_data := ?D\<rparr>) hp') (v'\<lparr>mCount := c\<rparr>) (take i xs @ replicate k x @ drop i xs)"
    using sb wf i count gap_filled [OF sb(4) i, of x] len by (simp add: vec_holds_def vec_wf_def vec_buffer_def)
  moreover have "sb_fresh (sb_put b (sb\<lparr>sb_data := ?D\<rparr>) hp')" using sb(2,5) by (auto simp: sb_fresh_def)
  ultimately show ?thesis by (rule that) (use sb(6) in simp_all)
qed

lemma insertAt_list:
  assumes holds: "vec_holds ty hp v xs" and fresh: "sb_fresh hp"
    and i: "unat index \<le> length xs" and k: "0 < unat n" and fits: "vec_fits ty (length xs + unat n)"
  shows "\<exists>ret v' hp'. insertAt ty (Some (Outside x)) index n v hp = Inr (ret, v', hp') \<and> sb_fresh hp' \<and>
    (ret = int (unat index) \<and>
       vec_holds ty hp' v' (take (unat index) xs @ replicate (unat n) x @ drop (unat index) xs) \<or>
     ret = VEC_NO_MEMORY \<and> \<not> has_memory hp \<and> v' = v \<and> vec_holds ty hp' v xs) \<and>
    (\<forall>c. mStorage v' \<noteq> Some c \<longrightarrow> hp_bufs hp' c = (if mStorage v = Some c then None else hp_bufs hp c))"
proof -
  have wf: "vec_wf ty v" and count: "unat (mCount v) = length xs" using holds by (simp_all add: vec_holds_def)
  have item: "0 < sizeof_type ty" using wf by (simp add: vec_wf_def)
  have small: "length xs + unat n < 2 ^ 62" by (rule vec_fits_bounds [OF fits item]) simp
  have idx: "\<not> mCount v < index" using i count by (simp add: word_less_nat_alt)
  have sint: "sint index = int (unat index)" using i small by (intro sint_of_small) simp
  show ?thesis
  proof (rule vec_grow_outcome [OF holds fresh i k fits])
    fix hp'
    assume *: "vec_grow ty index n v hp = Inr (None, v, hp')" "hp_bufs hp' = hp_bufs hp" "hp_next hp' = hp_next hp"
      "\<not> has_memory hp"
    then have "vec_holds ty hp' v xs" "sb_fresh hp'"
      using holds fresh vec_holds_cong [of v hp' hp ty xs] by (simp_all add: sb_fresh_def)
    with * idx show ?thesis
      by (intro exI [of _ VEC_NO_MEMORY] exI [of _ v] exI [of _ hp']) (simp add: insertAt_def)
  next
    fix b v' hp'
    assume *: "vec_grow ty index n v hp = Inr (Some (b, unat index), v'\<lparr>mCount := mCount v + n\<rparr>, hp')"
      "mStorage v' = Some b" "grown ty xs (unat index) (unat n) v hp v' hp'"
    have "unat (mCount v + n) = length xs + unat n" using count small by (simp add: unat_add_64)
    then obtain hp'' where "splat_type b (unat index) (Outside x) (unat n) hp' = Inr hp''"
      "vec_holds ty hp'' (v'\<lparr>mCount := mCount v + n\<rparr>) (take (unat index) xs @ replicate (unat n) x @ drop (unat index) xs)"
      "sb_fresh hp''" "\<And>c. b \<noteq> c \<Longrightarrow> hp_bufs hp'' c = (if mStorage v = Some c then None else hp_bufs hp c)"
      using splat_gap [OF *(3) wf i _ *(2), of "mCount v + n" x] by blast
    with * idx sint show ?thesis
      by (intro exI [of _ "int (unat index)"] exI [of _ "v'\<lparr>mCount := mCount v + n\<rparr>"] exI [of _ hp''])
        (simp add: insertAt_def)
  qed
qed

text \<open>C14: inserting into a vector that has its storage for itself, at an index up to its size, of at least one copy of an item that lies
  outside of it, with a size that does not overflow. \<open>insertAt\<close> inserts into the list the vector holds: it returns the index and the
  vector holds the list with the copies at the index, whether it moves the items up in place, resizes or copies to new
  storage, for every kind of item type; or there is no memory, it returns \<open>NO_MEMORY\<close>, and the vector is as before. Storage that the
  vector has replaced is freed, no other buffer changes, and no item is destroyed twice or used where none is, which would be a trap.\<close>

theorem vector_insert_refines:
  assumes holds: "vec_holds ty hp v xs" and fresh: "sb_fresh hp"
    and i: "unat index \<le> length xs" and k: "0 < unat n" and fits: "vec_fits ty (length xs + unat n)"
  shows "\<exists>ret v' hp'. insertAt ty (Some (Outside x)) index n v hp = Inr (ret, v', hp') \<and> sb_fresh hp' \<and>
    (ret = int (unat index) \<and>
       vec_holds ty hp' v' (take (unat index) xs @ replicate (unat n) x @ drop (unat index) xs) \<or>
     ret = VEC_NO_MEMORY \<and> \<not> has_memory hp \<and> v' = v \<and> vec_holds ty hp' v xs) \<and>
    (\<forall>c. mStorage v' \<noteq> Some c \<longrightarrow> hp_bufs hp' c = (if mStorage v = Some c then None else hp_bufs hp c))"
  by (rule insertAt_list [OF assms])

text \<open>An instance: strings with a destructor in a vector of two items, of which the storage is full.\<close>

definition ex_item_type :: "nat item_type" where
  "ex_item_type = \<lparr>has_trivial_ctor = False, has_trivial_dtor = False, has_trivial_copy = False,
     has_trivial_move = False, sizeof_type = 8, default_item = 0\<rparr>"

definition ex_vec :: vec where
  "ex_vec = (Vector_new ex_item_type)\<lparr>mStorage := Some 0, mCount := 2\<rparr>"

definition ex_vheap :: "nat vheap" where
  "ex_vheap = \<lparr>hp_bufs = [0 \<mapsto> \<lparr>mRefs = 1, mSize = 16, mClientMetadata = 0, sb_data = [Val 1, Val 2]\<rparr>],
     hp_next = 1, hp_malloc = [True]\<rparr>"

lemma ex_vec_holds: "vec_holds ex_item_type ex_vheap ex_vec [1, 2]" "sb_fresh ex_vheap"
  by (auto simp: vec_holds_def vec_wf_def vec_buffer_def vec_slots_def ex_vec_def ex_vheap_def ex_item_type_def
    Vector_new_def VectorImpl_new_def sb_fresh_def less_Suc_eq)

theorem vector_insert_refines_witness:
  "\<exists>ret v' hp'. insertAt ex_item_type (Some (Outside 7)) 1 2 ex_vec ex_vheap = Inr (ret, v', hp') \<and>
    (ret = 1 \<and> vec_holds ex_item_type hp' v' [1, 7, 7, 2] \<or> ret = VEC_NO_MEMORY \<and> vec_holds ex_item_type hp' v' [1, 2])"
proof -
  have "vec_fits ex_item_type (length [1 :: nat, 2] + unat (2 :: u64))" by (simp add: vec_fits_def ex_item_type_def)
  moreover have "take (unat (1 :: u64)) [1 :: nat, 2] @ replicate (unat (2 :: u64)) 7 @ drop (unat (1 :: u64)) [1, 2] = [1, 7, 7, 2]"
  proof -
    have "unat (2 :: u64) = Suc (Suc 0)" by simp
    then show ?thesis by (simp only: replicate.simps) simp
  qed
  ultimately show ?thesis using vector_insert_refines [OF ex_vec_holds, of 1 2 7] by fastforce
qed

end
