(* ===== verification/Vector_Shrink.thy ===== *)
theory Vector_Shrink
  imports Vector_Grow
begin

text \<open>
  \<open>_shrink\<close> and \<open>removeItemsAt\<close>: when they remove from the list the vector holds, and where the
  code goes wrong.
\<close>

section \<open>Smaller storage\<close>

definition without :: "nat \<Rightarrow> nat \<Rightarrow> 'a list \<Rightarrow> 'a list" where
  "without i k xs = take i xs @ drop (i + k) xs"

lemma length_without: "i + k \<le> length xs \<Longrightarrow> length (without i k xs) = length xs - k"
  by (simp add: without_def)

lemma nth_without:
  "i + k \<le> length xs \<Longrightarrow> j < length xs - k \<Longrightarrow> without i k xs ! j = (if j < i then xs ! j else xs ! (j + k))"
  by (auto simp: without_def nth_append ac_simps)

definition shrunk :: "'a item_type \<Rightarrow> 'a list \<Rightarrow> vec \<Rightarrow> 'a vheap \<Rightarrow> vec \<Rightarrow> 'a vheap \<Rightarrow> bool" where
  "shrunk ty ys v hp v' hp' \<longleftrightarrow> (\<exists>b sb. v' = v\<lparr>mStorage := Some b\<rparr> \<and> hp_bufs hp' b = Some sb \<and>
     vec_buffer ty sb \<and> vec_slots ty ys (sb_data sb) \<and> sb_fresh hp' \<and>
     (\<forall>c. mStorage v \<noteq> Some c \<longrightarrow> c \<noteq> hp_next hp \<longrightarrow> hp_bufs hp' c = hp_bufs hp c))"

lemma shrunkI:
  assumes "v' = v\<lparr>mStorage := Some b\<rparr>" "hp_bufs hp' b = Some sb" "vec_buffer ty sb" "vec_slots ty ys (sb_data sb)"
    "sb_fresh hp'" "\<And>c. mStorage v \<noteq> Some c \<Longrightarrow> c \<noteq> hp_next hp \<Longrightarrow> hp_bufs hp' c = hp_bufs hp c"
  shows "shrunk ty ys v hp v' hp'"
  using assms unfolding shrunk_def by blast

lemma vec_slots_two_parts:
  assumes "i + k \<le> length xs" and "length xs - k \<le> cap"
  shows "vec_slots ty (without i k xs) (two_parts cap xs i i (i + k))"
  using assms by (auto simp: vec_slots_def length_without nth_without length_two_parts nth_two_parts ac_simps)

lemma shrink_resize:
  assumes holds: "vec_holds ty hp v xs" and fresh: "sb_fresh hp" and b: "mStorage v = Some b"
    and triv: "has_trivial_dtor ty" and sz: "i \<le> length xs" "i \<le> cap" "unat sz = cap * unat (sizeof_type ty)"
      "cap * unat (sizeof_type ty) < 2 ^ 62"
  obtains (none) hp' where "editResize (unat (sizeof_type ty)) Raw b sz hp = Inr (None, hp')" "hp_bufs hp' = hp_bufs hp"
      "hp_next hp' = hp_next hp" "\<not> has_memory hp"
  | (some) n hp' where "editResize (unat (sizeof_type ty)) Raw b sz hp = Inr (Some n, hp')"
      "shrunk ty (take i xs) v hp (v\<lparr>mStorage := Some n\<rparr>) hp'"
proof -
  obtain sb where sb: "hp_bufs hp b = Some sb" "vec_buffer ty sb" "vec_slots ty xs (sb_data sb)"
    using vec_holds_storage [OF holds b] by blast
  have item: "0 < sizeof_type ty" using holds by (simp add: vec_holds_def vec_wf_def)
  have refs: "mRefs sb = 1" using sb(2) by (simp add: vec_buffer_def)
  have room: "unat sz div unat (sizeof_type ty) = cap" using sz(3) item by (simp add: unat_gt_0 word_gt_0)
  have fits: "size_fits sz" using sz(3,4) by simp
  have next_free: "hp_bufs hp (hp_next hp) = None" using fresh by (simp add: sb_fresh_def)
  have untracked: "\<not> tracked ty" using triv by (simp add: tracked_def)
  show ?thesis
  proof (cases "mSize sb = sz")
    case True
    then have "editResize (unat (sizeof_type ty)) Raw b sz hp = Inr (Some b, hp)"
      using sb(1) refs by (simp add: editResize_def sb_get_def onlyOwner_def)
    moreover have "vec_slots ty (take i xs) (sb_data sb)" using sb(3) untracked by (simp add: vec_slots_def min.coboundedI1)
    ultimately show ?thesis using sb fresh by (intro some [of b hp] shrunkI) auto
  next
    case False
    show ?thesis
    proof (rule editResize_owned [OF sb(1) refs vec_buffer_slots(1) [OF sb(2) item] False fits next_free, of Raw])
      fix hp'
      assume "editResize (unat (sizeof_type ty)) Raw b sz hp = Inr (None, hp')" "hp_bufs hp' = hp_bufs hp"
        "hp_next hp' = hp_next hp" "True \<notin> set (take 2 (hp_malloc hp))"
      then show ?thesis using no_memory(2) [of hp] by (intro none [of hp'])
    next
      fix sb' hp'
      assume *: "editResize (unat (sizeof_type ty)) Raw b sz hp = Inr (Some (hp_next hp), hp')"
        "hp_bufs hp' = (hp_bufs hp)(b := None, hp_next hp \<mapsto> sb')" "mRefs sb' = 1" "mSize sb' = sz"
        "sb_data sb' = resized Raw (unat sz div unat (sizeof_type ty)) (sb_data sb)" "hp_next hp' = Suc (hp_next hp)"
      have "vec_slots ty (take i xs) (sb_data sb')"
        using sb(3) sz(1,2) untracked room *(5) by (auto simp: vec_slots_def resized_def nth_append)
      then have "shrunk ty (take i xs) v hp (v\<lparr>mStorage := Some (hp_next hp)\<rparr>) hp'"
        using * fresh b room sz(3) by (intro shrunkI) (auto simp: vec_buffer_def sb_fresh_def)
      with *(1) show ?thesis by (rule some)
    qed
  qed
qed

lemma shrink_storage_outcome:
  assumes holds: "vec_holds ty hp v xs" and fresh: "sb_fresh hp" and b: "mStorage v = Some b"
    and range: "unat whr + unat amount \<le> length xs" and new: "unat new_size = length xs - unat amount"
    and sz: "unat new_size \<le> cap" "unat (nc * sizeof_type ty) = cap * unat (sizeof_type ty)"
      "cap * unat (sizeof_type ty) < 2 ^ 62"
  obtains (none) hp' where "shrink_storage ty whr amount new_size nc b v hp = Inr (False, v, hp')"
      "hp_bufs hp' = hp_bufs hp" "hp_next hp' = hp_next hp" "\<not> has_memory hp"
  | (some) v' hp' where "shrink_storage ty whr amount new_size nc b v hp = Inr (True, v', hp')"
      "shrunk ty (without (unat whr) (unat amount) xs) v hp v' hp'"
proof -
  have wf: "vec_wf ty v" and count: "unat (mCount v) = length xs" using holds by (simp_all add: vec_holds_def)
  then have item: "mItemSize v = sizeof_type ty" "0 < unat (sizeof_type ty)" by (simp_all add: vec_wf_def unat_gt_0 word_gt_0)
  let ?i = "unat whr" and ?k = "unat amount" and ?n = "hp_next hp"
  have len: "length xs < 2 ^ 64" using count unsigned_less [of "mCount v", where 'a = nat] by simp
  show ?thesis
  proof (cases "whr = new_size \<and> has_trivial_copy ty \<and> has_trivial_dtor ty")
    case True
    then have shrink: "shrink_storage ty whr amount new_size nc b v hp =
        bindE (editResize (unat (sizeof_type ty)) Raw b (nc * sizeof_type ty) hp) (\<lambda>(r, hp).
          case r of None \<Rightarrow> Inr (False, v, hp) | Some n \<Rightarrow> Inr (True, v\<lparr>mStorage := Some n\<rparr>, hp))"
      using vec_flags [OF wf] item by (simp add: shrink_storage_def)
    have "without ?i ?k xs = take ?i xs" using True new range by (auto simp: without_def)
    with True sz new range shrink none some show ?thesis
      by (cases rule: shrink_resize [OF holds fresh b, of ?i cap "nc * sizeof_type ty"]) auto
  next
    case False
    let ?sz = "nc * sizeof_type ty"
    have fits: "size_fits ?sz" using sz by simp
    have room: "unat ?sz div unat (mItemSize v) = cap" using sz item by simp
    have alloc: "shrink_storage ty whr amount new_size nc b v hp =
        bindE (SharedBuffer_alloc (unat (mItemSize v)) Raw ?sz hp) (\<lambda>(r, hp).
        case r of None \<Rightarrow> Inr (False, v, hp)
        | Some n \<Rightarrow> rehouse ty v n (whr \<noteq> 0) ?i (whr \<noteq> new_size) ?i (unat (whr + amount)) (unat (new_size - whr)) hp)"
    proof -
      have "\<not> (whr = new_size \<and> mFlags v AND HAS_TRIVIAL_COPY \<noteq> 0 \<and> mFlags v AND HAS_TRIVIAL_DTOR \<noteq> 0)"
        using False vec_flags [OF wf] by simp
      then show ?thesis unfolding shrink_storage_def rehouse_def b item(1) by (simp only: if_False)
    qed
    show ?thesis
    proof (rule alloc_cases [OF fits, of "unat (mItemSize v)" Raw hp])
      fix hp1 :: "'a vheap"
      assume "SharedBuffer_alloc (unat (mItemSize v)) Raw ?sz hp = Inr (None, hp1)" "hp_bufs hp1 = hp_bufs hp"
        "hp_next hp1 = hp_next hp" "hd (hp_malloc hp @ [False]) = False"
      then show ?thesis using no_memory(1) [of hp] by (intro none [of hp1]) (simp_all add: alloc)
    next
      fix hp1 :: "'a vheap"
      assume *: "SharedBuffer_alloc (unat (mItemSize v)) Raw ?sz hp = Inr (Some ?n, hp1)"
        "hp_bufs hp1 = (hp_bufs hp)(?n \<mapsto> \<lparr>mRefs = 1, mSize = ?sz, mClientMetadata = 0,
           sb_data = replicate (unat ?sz div unat (mItemSize v)) Raw\<rparr>)" "hp_next hp1 = Suc ?n"
      have s: "unat (whr + amount) = ?i + ?k" using range len by (intro unat_add_64) simp
      have m: "unat (new_size - whr) = length xs - (?i + ?k)" using range new by (simp add: unat_sub word_le_nat_alt)
      show ?thesis
      proof (rule rehouse_outcome [OF holds fresh m, of ?i ?i cap "whr \<noteq> 0" "whr \<noteq> new_size" hp1 ?sz])
        fix hp'
        assume re: "rehouse ty v ?n (whr \<noteq> 0) ?i (whr \<noteq> new_size) ?i (?i + ?k) (unat (new_size - whr)) hp1 =
            Inr (True, v\<lparr>mStorage := Some ?n\<rparr>, hp')"
          "hp_bufs hp' ?n = Some \<lparr>mRefs = 1, mSize = ?sz, mClientMetadata = 0, sb_data = two_parts cap xs ?i ?i (?i + ?k)\<rparr>"
          "sb_fresh hp'" "\<And>c. mStorage v \<noteq> Some c \<Longrightarrow> c \<noteq> ?n \<Longrightarrow> hp_bufs hp' c = hp_bufs hp c"
        have "shrunk ty (without ?i ?k xs) v hp (v\<lparr>mStorage := Some ?n\<rparr>) hp'"
          by (rule shrunkI [OF refl re(2)])
            (use re sz new range vec_slots_two_parts [of ?i ?k xs cap ty] in
              \<open>auto simp: vec_buffer_def length_two_parts\<close>)
        moreover have "shrink_storage ty whr amount new_size nc b v hp = Inr (True, v\<lparr>mStorage := Some ?n\<rparr>, hp')"
          using re(1) * by (simp add: alloc s)
        ultimately show ?thesis by (intro some)
      qed (use range sz new m room * in auto)
    qed
  qed
qed

section \<open>In the storage the vector has\<close>

lemma destroy_part:
  assumes wf: "vec_wf ty v" and sb: "hp_bufs hp b = Some sb" "vec_slots ty xs (sb_data sb)" and range: "i + k \<le> length xs"
  obtains D where "vec_do_destroy ty v b i k hp = Inr (sb_put b (sb\<lparr>sb_data := D\<rparr>) hp)" "length D = length (sb_data sb)"
    "\<And>j. j < length D \<Longrightarrow> D ! j = (if \<not> has_trivial_dtor ty \<and> i \<le> j \<and> j < i + k then Raw else sb_data sb ! j)"
proof (cases "has_trivial_dtor ty")
  case True
  then show ?thesis using vec_flags(2) [OF wf] sb(1)
    by (intro that [of "sb_data sb"]) (simp_all add: vec_do_destroy_def sb_put_same)
next
  case False
  let ?D = "take i (sb_data sb) @ replicate k Raw @ drop (i + k) (sb_data sb)"
  have room: "i + length (replicate k (Raw :: 'a slot)) \<le> length (sb_data sb)"
    using sb(2) range by (simp add: vec_slots_def)
  have "destroy_loop b i k hp = sb_store b i (replicate k Raw) hp"
    by (rule destroy_loop_eq [OF sb(1)]) (use sb(2) range in \<open>auto simp: vec_slots_def\<close>)
  also have "\<dots> = Inr (sb_put b (sb\<lparr>sb_data := ?D\<rparr>) hp)" using sb_store_eq [OF sb(1) room] by simp
  finally show ?thesis
    using False vec_flags(2) [OF wf] nth_stored [OF room] nth_stored(1) [OF room]
    by (intro that [of ?D]) (auto simp: vec_do_destroy_def destroy_type_def)
qed

lemma shrink_in_place:
  assumes holds: "vec_holds ty hp v xs" and fresh: "sb_fresh hp" and b: "mStorage v = Some b"
    and range: "unat whr + unat amount \<le> length xs" and new: "unat new_size = length xs - unat amount"
    and safe: "use_trivial_move ty \<or> length xs \<le> unat whr + 2 * unat amount"
  obtains hp1 hp' where "vec_do_destroy ty v b (unat whr) (unat amount) hp = Inr hp1"
    "(if whr \<noteq> new_size then move_in_place ty whr (whr + amount) (new_size - whr) (Some b) hp1 else Inr hp1) = Inr hp'"
    "shrunk ty (without (unat whr) (unat amount) xs) v hp v hp'"
proof -
  note found = that
  let ?i = "unat whr" and ?k = "unat amount"
  have wf: "vec_wf ty v" and count: "unat (mCount v) = length xs" using holds by (simp_all add: vec_holds_def)
  have len: "length xs < 2 ^ 64" using count unsigned_less [of "mCount v", where 'a = nat] by simp
  obtain sb where sb: "hp_bufs hp b = Some sb" "vec_buffer ty sb" "vec_slots ty xs (sb_data sb)"
    using vec_holds_storage [OF holds b] by blast
  obtain D where D: "vec_do_destroy ty v b ?i ?k hp = Inr (sb_put b (sb\<lparr>sb_data := D\<rparr>) hp)" "length D = length (sb_data sb)"
    "\<And>j. j < length D \<Longrightarrow> D ! j = (if \<not> has_trivial_dtor ty \<and> ?i \<le> j \<and> j < ?i + ?k then Raw else sb_data sb ! j)"
    using destroy_part [OF wf sb(1,3) range] by blast
  let ?hp1 = "sb_put b (sb\<lparr>sb_data := D\<rparr>) hp"
  have done': thesis if "length D' = length D" and "vec_slots ty (without ?i ?k xs) D'"
    and "(if whr \<noteq> new_size then move_in_place ty whr (whr + amount) (new_size - whr) (Some b) ?hp1 else Inr ?hp1) =
      Inr (sb_put b (sb\<lparr>sb_data := D'\<rparr>) hp)" for D'
    by (rule found [OF D(1) that(3)])
      (rule shrunkI [where v' = v and v = v and b = b and sb = "sb\<lparr>sb_data := D'\<rparr>"], use b sb fresh that(1,2) D(2) in \<open>auto simp: vec_buffer_def sb_fresh_def\<close>)
  show ?thesis
  proof (cases "whr = new_size")
    case True
    then have "vec_slots ty (without ?i ?k xs) D"
      using sb(3) D(2,3) range new by (auto simp: vec_slots_def length_without nth_without tracked_def)
    with True show ?thesis by (intro done') simp_all
  next
    case False
    let ?n = "length xs - (?i + ?k)"
    have s: "unat (whr + amount) = ?i + ?k" using range len by (intro unat_add_64) simp
    have m: "unat (new_size - whr) = ?n" using range new by (simp add: unat_sub word_le_nat_alt)
    obtain D' where D': "move_forward_type ty b ?i (?i + ?k) ?n ?hp1 = Inr (sb_put b (sb\<lparr>sb_data := D'\<rparr>) hp)"
      "length D' = length D" "\<And>j. j < length D \<Longrightarrow> D' ! j = moved (tracked ty) ?i (?i + ?k) ?n D j"
    proof -
      have room: "length xs \<le> length D" using sb(3) D(2) by (simp add: vec_slots_def)
      have at: "hp_bufs ?hp1 b = Some (sb\<lparr>sb_data := D\<rparr>)" by simp
      have apart: "?i + ?k < ?i \<or> ?i + ?n \<le> ?i + ?k \<or> use_trivial_move ty" using safe range by auto
      have bounds: "?i + ?n \<le> length D" "?i + ?k + ?n \<le> length D" using range room by simp_all
      have vals: "D ! j \<noteq> Raw" if "?i + ?k \<le> j" "j < ?i + ?k + ?n" for j
        using that range room D(3) [of j] sb(3) by (simp add: vec_slots_def)
      show ?thesis using move_forward_eq [OF at apart] bounds vals that by auto
    qed
    have nth: "D' ! j = (if ?i \<le> j \<and> j < length xs - ?k then sb_data sb ! (j + ?k)
        else if tracked ty \<and> ?i \<le> j \<and> j < length xs then Raw else sb_data sb ! j)"
      if j: "j < length D" and tr: "tracked ty \<or> j < length xs - ?k" for j
    proof -
      consider "j < ?i" | "?i \<le> j" "j < length xs - ?k" | "?i \<le> j" "length xs - ?k \<le> j" "j < length xs" | "length xs \<le> j"
        by linarith
      then show ?thesis
      proof cases
        case 1
        then show ?thesis using D'(3) [OF j] D(3) [OF j] by (simp add: moved_def)
      next
        case 2
        then have "D' ! j = D ! (j + ?k)" using D'(3) [OF j] range by (simp add: moved_def ac_simps)
        moreover have "j + ?k < length D" using 2 sb(3) D(2) by (auto simp: vec_slots_def)
        ultimately have "D' ! j = sb_data sb ! (j + ?k)" using D(2) D(3) [of "j + ?k"] 2 sb(3) by (simp add: vec_slots_def)
        then show ?thesis using 2 by simp
      next
        case 3
        with tr have "tracked ty" by simp
        with 3 show ?thesis using D'(3) [OF j] D(3) [OF j] safe range by (auto simp: moved_def tracked_def)
      next
        case 4
        then show ?thesis using D'(3) [OF j] D(3) [OF j] range by (auto simp: moved_def)
      qed
    qed
    have "vec_slots ty (without ?i ?k xs) D'"
      using sb(3) D(2) D'(2) range nth by (auto simp: vec_slots_def length_without nth_without)
    with D'(1,2) s m False show ?thesis by (intro done') (simp_all add: move_in_place_def)
  qed
qed

section \<open>Removal\<close>

definition shrunk_capacity :: "nat \<Rightarrow> nat" where "shrunk_capacity n = max 4 (2 * n)"

lemma shrunk_capacity_word:
  assumes "unat (n :: u64) < 2 ^ 62"
  shows "max kMinVectorCapacity (n * 2) = of_nat (shrunk_capacity (unat n))"
proof -
  have "unat (n * 2) = 2 * unat n" using assms by (simp add: unat_word_ariths)
  then have "unat (max 4 (n * 2)) = shrunk_capacity (unat n)" by (simp add: shrunk_capacity_def max_def word_le_nat_alt)
  moreover have "max 4 (n * 2) = of_nat (unat (max 4 (n * 2)))" by simp
  ultimately show ?thesis by simp
qed

text \<open>
  Removal is safe when the storage is exchanged, when the items may be moved bytewise, or when those behind the
  removed ones do not overlap their new place.
\<close>

definition removal_safe :: "'a item_type \<Rightarrow> 'a vheap \<Rightarrow> vec \<Rightarrow> nat \<Rightarrow> nat \<Rightarrow> nat \<Rightarrow> bool" where
  "removal_safe ty hp v n i k \<longleftrightarrow> use_trivial_move ty \<or> n \<le> i + 2 * k \<or> n - k < vec_cap hp v div 2"

lemma vec_shrink_outcome:
  assumes holds: "vec_holds ty hp v xs" and fresh: "sb_fresh hp"
    and range: "unat whr + unat amount \<le> length xs" and fits: "vec_fits ty (length xs)"
    and safe: "removal_safe ty hp v (length xs) (unat whr) (unat amount)"
  obtains (none) hp' where "vec_shrink ty whr amount v hp = Inr (v, hp')" "hp_bufs hp' = hp_bufs hp" "hp_next hp' = hp_next hp"
      "\<not> has_memory hp \<or> mStorage v = None"
  | (some) v' hp' where "vec_shrink ty whr amount v hp = Inr (v'\<lparr>mCount := mCount v - amount\<rparr>, hp')"
      "shrunk ty (without (unat whr) (unat amount) xs) v hp v' hp'"
proof (cases "mStorage v")
  case None
  then show ?thesis by (intro none [of hp]) (simp_all add: vec_shrink_def)
next
  case (Some b)
  have wf: "vec_wf ty v" and count: "unat (mCount v) = length xs" using holds by (simp_all add: vec_holds_def)
  then have item: "mItemSize v = sizeof_type ty" "0 < sizeof_type ty" by (simp_all add: vec_wf_def)
  let ?new = "mCount v - amount"
  have new: "unat ?new = length xs - unat amount" using count range by (simp add: unat_sub word_le_nat_alt)
  note bound = vec_fits_bounds [OF fits item(2), of "shrunk_capacity (unat ?new)"]
  have cap_le: "shrunk_capacity (unat ?new) \<le> 2 * length xs + 4" using new by (simp add: shrunk_capacity_def)
  have small: "length xs < 2 ^ 62" by (rule vec_fits_bounds [OF fits item(2)]) simp
  have nc: "max kMinVectorCapacity (?new * 2) = of_nat (shrunk_capacity (unat ?new))"
    by (rule shrunk_capacity_word) (use new small in simp)
  have shrink: "vec_shrink ty whr amount v hp =
    bindE (if ?new < of_nat (vec_cap hp v) div 2
           then shrink_storage ty whr amount ?new (of_nat (shrunk_capacity (unat ?new))) b v hp
           else bindE (editArrayImpl ty v hp) (\<lambda>(arr, v, hp).
             bindE (derefE NullDeref arr) (\<lambda>b.
             bindE (vec_do_destroy ty v b (unat whr) (unat amount) hp) (\<lambda>hp.
             bindE (if whr \<noteq> ?new then move_in_place ty whr (whr + amount) (?new - whr) (Some b) hp else Inr hp) (\<lambda>hp.
             Inr (True, v, hp)))))) (\<lambda>(ok, v, hp). Inr (if ok then v\<lparr>mCount := ?new\<rparr> else v, hp))"
    unfolding vec_shrink_def Let_def Some option.case vec_capacity_holds(1) [OF holds] bindE_simps nc ..
  have half: "?new < of_nat (vec_cap hp v) div 2 \<longleftrightarrow> length xs - unat amount < vec_cap hp v div 2"
    using vec_capacity_holds(2) [OF holds] new by (simp add: word_less_nat_alt unat_div unat_of_nat_64)
  show ?thesis
  proof (cases "length xs - unat amount < vec_cap hp v div 2")
    case True
    have sizes: "unat ?new \<le> shrunk_capacity (unat ?new)" by (simp add: shrunk_capacity_def)
    show ?thesis
    proof (rule shrink_storage_outcome [OF holds fresh Some range new sizes bound(3) [OF cap_le] bound(2) [OF cap_le]])
      fix hp'
      assume "shrink_storage ty whr amount ?new (of_nat (shrunk_capacity (unat ?new))) b v hp = Inr (False, v, hp')"
        "hp_bufs hp' = hp_bufs hp" "hp_next hp' = hp_next hp" "\<not> has_memory hp"
      with True half show ?thesis by (intro none [of hp']) (simp_all add: shrink)
    next
      fix v' hp'
      assume *: "shrink_storage ty whr amount ?new (of_nat (shrunk_capacity (unat ?new))) b v hp = Inr (True, v', hp')"
        "shrunk ty (without (unat whr) (unat amount) xs) v hp v' hp'"
      with True half show ?thesis by (intro some [of v' hp']) (simp_all add: shrink)
    qed
  next
    case False
    obtain sb where "hp_bufs hp b = Some sb" "vec_buffer ty sb" using vec_holds_storage [OF holds Some] by blast
    then have edit: "editArrayImpl ty v hp = Inr (Some b, v, hp)"
      using Some by (simp add: editArrayImpl_def attemptEdit_def sb_get_def onlyOwner_def vec_buffer_def)
    obtain hp1 hp' where "vec_do_destroy ty v b (unat whr) (unat amount) hp = Inr hp1"
      "(if whr \<noteq> ?new then move_in_place ty whr (whr + amount) (?new - whr) (Some b) hp1 else Inr hp1) = Inr hp'"
      "shrunk ty (without (unat whr) (unat amount) xs) v hp v hp'"
      using shrink_in_place [OF holds fresh Some range new] safe False by (auto simp: removal_safe_def)
    with False half edit show ?thesis by (intro some) (simp_all add: shrink)
  qed
qed

lemma removeItemsAt_list:
  assumes holds: "vec_holds ty hp v xs" and fresh: "sb_fresh hp"
    and range: "unat index + unat n \<le> length xs" and fits: "vec_fits ty (length xs)"
    and safe: "removal_safe ty hp v (length xs) (unat index) (unat n)"
  shows "\<exists>v' hp'. removeItemsAt ty index n v hp = Inr (int (unat index), v', hp') \<and> sb_fresh hp' \<and>
    (vec_holds ty hp' v' (without (unat index) (unat n) xs) \<or>
     \<not> has_memory hp \<and> v' = v \<and> vec_holds ty hp' v xs) \<and>
    (\<forall>c. mStorage v \<noteq> Some c \<longrightarrow> c \<noteq> hp_next hp \<longrightarrow> hp_bufs hp' c = hp_bufs hp c)"
proof -
  have wf: "vec_wf ty v" and count: "unat (mCount v) = length xs" using holds by (simp_all add: vec_holds_def)
  have item: "0 < sizeof_type ty" using wf by (simp add: vec_wf_def)
  have small: "length xs < 2 ^ 62" by (rule vec_fits_bounds [OF fits item]) simp
  have sint: "sint index = int (unat index)" using range small by (intro sint_of_small) simp
  have "unat (index + n) = unat index + unat n" using range small by (intro unat_add_64) simp
  then have guard: "\<not> mCount v < index + n" using range count by (simp add: word_less_nat_alt)
  show ?thesis
  proof (rule vec_shrink_outcome [OF holds fresh range fits safe])
    fix hp'
    assume *: "vec_shrink ty index n v hp = Inr (v, hp')" "hp_bufs hp' = hp_bufs hp" "hp_next hp' = hp_next hp"
      "\<not> has_memory hp \<or> mStorage v = None"
    then have "vec_holds ty hp' v xs" "sb_fresh hp'"
      using holds fresh vec_holds_cong [of v hp' hp ty xs] by (simp_all add: sb_fresh_def)
    moreover have "without (unat index) (unat n) xs = xs" if "mStorage v = None"
      using that holds by (simp add: vec_holds_def without_def)
    ultimately show ?thesis
      using * guard sint by (intro exI [of _ v] exI [of _ hp']) (auto simp: removeItemsAt_def)
  next
    fix v' hp'
    assume *: "vec_shrink ty index n v hp = Inr (v'\<lparr>mCount := mCount v - n\<rparr>, hp')"
      "shrunk ty (without (unat index) (unat n) xs) v hp v' hp'"
    have "unat (mCount v - n) = length xs - unat n" using count range by (simp add: unat_sub word_le_nat_alt)
    then have "vec_holds ty hp' (v'\<lparr>mCount := mCount v - n\<rparr>) (without (unat index) (unat n) xs)"
      using *(2) wf range by (auto simp: shrunk_def vec_holds_def vec_wf_def length_without)
    with * guard sint show ?thesis
      by (intro exI [of _ "v'\<lparr>mCount := mCount v - n\<rparr>"] exI [of _ hp']) (auto simp: removeItemsAt_def shrunk_def)
  qed
qed

text \<open>C15: \<open>removeItemsAt\<close> returns the index for every range inside the vector, and either the vector holds
  the list without these items or, when memory for smaller storage is not to be had, it holds what it
  held, which the result does not tell. This holds whenever the removal exchanges the
  storage, the items may be moved bytewise, or no more items follow than are removed.\<close>

theorem vector_remove_refines:
  assumes holds: "vec_holds ty hp v xs" and fresh: "sb_fresh hp"
    and range: "unat index + unat n \<le> length xs" and fits: "vec_fits ty (length xs)"
    and safe: "removal_safe ty hp v (length xs) (unat index) (unat n)"
  shows "\<exists>v' hp'. removeItemsAt ty index n v hp = Inr (int (unat index), v', hp') \<and> sb_fresh hp' \<and>
    (vec_holds ty hp' v' (without (unat index) (unat n) xs) \<or>
     \<not> has_memory hp \<and> v' = v \<and> vec_holds ty hp' v xs) \<and>
    (\<forall>c. mStorage v \<noteq> Some c \<longrightarrow> c \<noteq> hp_next hp \<longrightarrow> hp_bufs hp' c = hp_bufs hp c)"
  by (rule removeItemsAt_list [OF assms])

theorem vector_remove_refines_witness:
  "\<exists>v' hp'. removeItemsAt ex_item_type 0 1 ex_vec ex_vheap = Inr (0, v', hp') \<and>
    (vec_holds ex_item_type hp' v' [2] \<or> vec_holds ex_item_type hp' v' [1, 2])"
proof -
  have "vec_fits ex_item_type (length [1 :: nat, 2])" by (simp add: vec_fits_def ex_item_type_def)
  moreover have "removal_safe ex_item_type ex_vheap ex_vec (length [1 :: nat, 2]) (unat (0 :: u64)) (unat (1 :: u64))"
    by (simp add: removal_safe_def)
  ultimately show ?thesis using vector_remove_refines [OF ex_vec_holds, of 0 1] by (fastforce simp: without_def)
qed

end
