(* ===== verification/Vector_Props.thy ===== *)
theory Vector_Props
  imports Vector_Shrink
begin

text \<open>
  The binary search of sorted vectors, proved once for every comparison that is a strict weak order and used
  for the keys of a \<open>KeyedVector\<close>; and removal from the front of a vector of objects, which loses one.
\<close>

section \<open>The contract of an order\<close>

text \<open>
  \<open>do_compare\<close> is \<open>compare_type\<close> over \<open>operator <\<close> of the item type. What the search relies on is that the operator is a
  strict weak order.
\<close>

locale weak_order =
  fixes lt :: "'a \<Rightarrow> 'a \<Rightarrow> bool"
  assumes asym: "lt x y \<Longrightarrow> \<not> lt y x"
    and split: "lt x y \<Longrightarrow> lt x z \<or> lt z y"
begin

definition ordered :: "'a list \<Rightarrow> bool" where
  "ordered xs \<longleftrightarrow> (\<forall>i j. i < j \<longrightarrow> j < length xs \<longrightarrow> \<not> lt (xs ! j) (xs ! i))"

lemma compare_type_sign:
  "compare_type lt x y = 0 \<longleftrightarrow> \<not> lt x y \<and> \<not> lt y x"
  "compare_type lt x y < 0 \<longleftrightarrow> lt x y"
  using asym by (auto simp: compare_type_def strictly_order_type_def)

lemma below: "ordered xs \<Longrightarrow> i \<le> j \<Longrightarrow> j < length xs \<Longrightarrow> lt (xs ! j) x \<Longrightarrow> lt (xs ! i) x"
  using split unfolding ordered_def by (metis le_neq_implies_less)

lemma above: "ordered xs \<Longrightarrow> i \<le> j \<Longrightarrow> j < length xs \<Longrightarrow> lt x (xs ! i) \<Longrightarrow> lt x (xs ! j)"
  using split unfolding ordered_def by (metis le_neq_implies_less)

text \<open>What the search is to find: an item equivalent to the wanted one, or the place where it belongs.\<close>

definition found :: "'a list \<Rightarrow> 'a \<Rightarrow> int \<Rightarrow> int \<Rightarrow> bool" where
  "found xs item err ord \<longleftrightarrow>
     (\<exists>k < length xs. err = int k \<and> ord = int k \<and> \<not> lt (xs ! k) item \<and> \<not> lt item (xs ! k)) \<or>
     err = NAME_NOT_FOUND \<and> (\<exists>k \<le> length xs. ord = int k \<and> (\<forall>i < k. lt (xs ! i) item) \<and>
       (\<forall>i < length xs. k \<le> i \<longrightarrow> lt item (xs ! i)))"

lemma index_order_loop_spec:
  assumes "hp_bufs hp b = Some sb" and "length xs \<le> length (sb_data sb)"
    and "\<And>i. i < length xs \<Longrightarrow> sb_data sb ! i = Val (xs ! i)" and "ordered xs"
    and "0 \<le> l" "l \<le> h + 1" "h < int (length xs)"
    and "\<And>i. i < length xs \<Longrightarrow> int i < l \<Longrightarrow> lt (xs ! i) item"
    and "\<And>i. i < length xs \<Longrightarrow> h < int i \<Longrightarrow> lt item (xs ! i)"
  shows "\<exists>err ord. index_order_loop (compare_type lt) b hp item l h = Inr (err, ord) \<and> found xs item err ord"
  using assms(5-)
proof (induction "nat (h - l + 1)" arbitrary: l h rule: less_induct)
  case less
  show ?case
  proof (cases "l \<le> h")
    case False
    then have "h + 1 = l" using less.prems by simp
    with less.prems have "found xs item NAME_NOT_FOUND l"
      unfolding found_def by (intro disjI2 conjI exI [of _ "nat l"]) auto
    with False show ?thesis by (simp add: index_order_loop.simps)
  next
    case True
    let ?mid = "l + (h - l) div 2"
    have mid: "l \<le> ?mid" "?mid \<le> h" using True by auto
    then have m: "int (nat ?mid) = ?mid" "nat ?mid < length xs" using less.prems by auto
    have slot: "slot_value b (nat ?mid) hp = Inr (xs ! nat ?mid)"
      using m(2) assms(2,3) by (intro slot_value_eq [OF assms(1)]) auto
    consider "lt (xs ! nat ?mid) item" | "lt item (xs ! nat ?mid)" "\<not> lt (xs ! nat ?mid) item"
      | "\<not> lt (xs ! nat ?mid) item" "\<not> lt item (xs ! nat ?mid)" by blast
    then show ?thesis
    proof cases
      case 1
      have "\<exists>err ord. index_order_loop (compare_type lt) b hp item (?mid + 1) h = Inr (err, ord) \<and> found xs item err ord"
      proof (rule less.hyps)
        show "lt (xs ! i) item" if "i < length xs" "int i < ?mid + 1" for i
          using below [OF assms(4) _ m(2) 1, of i] that m(1) by linarith
      qed (use less.prems mid True in auto)
      moreover have "compare_type lt (xs ! nat ?mid) item < 0" using 1 by (simp add: compare_type_sign)
      ultimately show ?thesis using True slot by (subst index_order_loop.simps) (simp add: Let_def)
    next
      case 2
      have "\<exists>err ord. index_order_loop (compare_type lt) b hp item l (?mid - 1) = Inr (err, ord) \<and> found xs item err ord"
      proof (rule less.hyps)
        show "lt item (xs ! i)" if "i < length xs" "?mid - 1 < int i" for i
          using above [OF assms(4) _ that(1) 2(1)] that m(1) by linarith
      qed (use less.prems mid True in auto)
      moreover have "\<not> compare_type lt (xs ! nat ?mid) item < 0" "compare_type lt (xs ! nat ?mid) item \<noteq> 0"
        using 2 by (simp_all add: compare_type_sign)
      ultimately show ?thesis using True slot by (subst index_order_loop.simps) (simp add: Let_def)
    next
      case 3
      then have "compare_type lt (xs ! nat ?mid) item = 0" by (simp add: compare_type_sign)
      moreover have "found xs item ?mid ?mid" unfolding found_def using 3 m by (intro disjI1 exI [of _ "nat ?mid"]) auto
      ultimately show ?thesis using True slot by (subst index_order_loop.simps) (simp add: Let_def)
    qed
  qed
qed

lemma indexOrderOf_spec:
  assumes holds: "vec_holds ty hp v xs" and "ordered xs" and small: "length xs < 2 ^ 63"
  shows "\<exists>err ord. indexOrderOf (compare_type lt) item v hp = Inr (err, ord) \<and> found xs item err ord"
proof (cases "xs = []")
  case True
  then have "mCount v = 0" using holds by (simp add: vec_holds_def unat_eq_0)
  then show ?thesis using True by (simp add: indexOrderOf_def found_def)
next
  case False
  then obtain b where b: "mStorage v = Some b" using holds by (cases "mStorage v") (simp_all add: vec_holds_def)
  then obtain sb where sb: "hp_bufs hp b = Some sb" "vec_slots ty xs (sb_data sb)"
    using vec_holds_storage [OF holds] by blast
  have count: "unat (mCount v) = length xs" using holds by (simp add: vec_holds_def)
  then have nonzero: "mCount v \<noteq> 0" using False by auto
  then have "unat (mCount v - 1) = length xs - 1" using count False by (simp add: unat_minus_one)
  then have h: "sint (mCount v - 1) = int (length xs) - 1"
    using sint_of_small [of "mCount v - 1"] small False by (cases xs) auto
  have "\<exists>err ord. index_order_loop (compare_type lt) b hp item 0 (int (length xs) - 1) = Inr (err, ord) \<and> found xs item err ord"
    by (rule index_order_loop_spec [OF sb(1)]) (use sb(2) assms(2) in \<open>auto simp: vec_slots_def\<close>)
  with h nonzero b False show ?thesis by (cases xs) (auto simp: indexOrderOf_def Let_def)
qed

end

interpretation key_order: weak_order "key_value_less ((<) :: 'k::linorder \<Rightarrow> _)"
  by unfold_locales (auto simp: key_value_less_def strictly_order_type_def split: if_splits)

lemma Vector_at_holds:
  assumes "vec_holds ty hp v xs" and "i < length xs" and "length xs < 2 ^ 64"
  shows "Vector_at (of_nat i) v hp = Inr (xs ! i)"
proof -
  obtain b where b: "mStorage v = Some b" using assms by (cases "mStorage v") (auto simp: vec_holds_def)
  then obtain sb where "hp_bufs hp b = Some sb" "vec_slots ty xs (sb_data sb)"
    using vec_holds_storage [OF assms(1)] by blast
  with b assms show ?thesis
    by (simp add: Vector_at_def slot_value_eq unat_of_nat_64 vec_slots_def)
qed

section \<open>Looking up a key\<close>

lemma key_value_less_iff: "key_value_less (<) p q \<longleftrightarrow> kv_key p < kv_key q"
  by (simp add: key_value_less_def strictly_order_type_def)

text \<open>In a \<open>KeyedVector\<close> sorted by its keys, the binary search ends and \<open>indexOfKey\<close> is the index of a pair with the
  key, whose value \<open>valueAt\<close> returns, exactly if the key occurs, and \<open>NAME_NOT_FOUND\<close> otherwise.\<close>

theorem keyed_vector_lookup:
  fixes k :: "'k::linorder" and ps :: "('k, 'v) key_value_pair_t list"
  assumes holds: "vec_holds ty hp v ps" and sorted: "sorted (map kv_key ps)" and small: "length ps < 2 ^ 63"
  shows "if k \<in> kv_key ` set ps
    then \<exists>i < length ps. indexOfKey (<) dflt k v hp = Inr (int i) \<and> kv_key (ps ! i) = k \<and>
      valueAt (of_nat i) v hp = Inr (kv_value (ps ! i))
    else indexOfKey (<) dflt k v hp = Inr NAME_NOT_FOUND"
proof -
  let ?item = "\<lparr>kv_key = k, kv_value = dflt\<rparr>"
  have "key_order.ordered ps"
    unfolding key_order.ordered_def key_value_less_iff
    using sorted by (auto simp: sorted_iff_nth_mono not_less)
  then obtain err ord where search: "indexOfKey (<) dflt k v hp = Inr err" and found: "key_order.found ps ?item err ord"
    using key_order.indexOrderOf_spec [OF holds _ small, of ?item]
    by (auto simp: indexOfKey_def SortedVector_indexOf_def sorted_indexOf_def)
  have val: "valueAt (of_nat i) v hp = Inr (kv_value (ps ! i))" if "i < length ps" for i
    using Vector_at_holds [OF holds that] small by (simp add: valueAt_def)
  from found have "(\<exists>i < length ps. err = int i \<and> kv_key (ps ! i) = k) \<or> err = NAME_NOT_FOUND \<and>
      (\<exists>n. (\<forall>i < n. kv_key (ps ! i) < k) \<and> (\<forall>i < length ps. n \<le> i \<longrightarrow> k < kv_key (ps ! i)))"
    unfolding key_order.found_def key_value_less_iff key_value_pair_t.select_convs not_less using order.antisym by blast
  then consider
    (hit) i where "i < length ps" "err = int i" "kv_key (ps ! i) = k"
    | (miss) n where "err = NAME_NOT_FOUND" "\<And>i. i < n \<Longrightarrow> kv_key (ps ! i) < k"
        "\<And>i. i < length ps \<Longrightarrow> n \<le> i \<Longrightarrow> k < kv_key (ps ! i)"
    by blast
  then show ?thesis
  proof cases
    case hit
    then have "k \<in> kv_key ` set ps" by (metis image_eqI nth_mem)
    with hit search val show ?thesis by auto
  next
    case miss
    have "k \<notin> kv_key ` set ps"
    proof
      assume "k \<in> kv_key ` set ps"
      then obtain i where "i < length ps" "kv_key (ps ! i) = k" by (auto simp: in_set_conv_nth)
      with miss(2,3) [of i] show False by (metis less_irrefl not_less)
    qed
    with miss search show ?thesis by simp
  qed
qed

text \<open>A vector of two pairs, sorted by key.\<close>

definition ex_pair_type :: "(nat, nat) key_value_pair_t item_type" where
  "ex_pair_type = aggregate_traits ex_item_type ex_item_type 16"

definition ex_pair_list :: "(nat, nat) key_value_pair_t list" where
  "ex_pair_list = [\<lparr>kv_key = 3, kv_value = 30\<rparr>, \<lparr>kv_key = 5, kv_value = 50\<rparr>]"

definition ex_pairs :: "(nat, nat) key_value_pair_t vheap" where
  "ex_pairs = \<lparr>hp_bufs = [0 \<mapsto> \<lparr>mRefs = 1, mSize = 32, mClientMetadata = 0,
       sb_data = [Val \<lparr>kv_key = 3, kv_value = 30\<rparr>, Val \<lparr>kv_key = 5, kv_value = 50\<rparr>]\<rparr>],
     hp_next = 1, hp_malloc = []\<rparr>"

definition ex_keyed :: vec where
  "ex_keyed = (Vector_new ex_pair_type)\<lparr>mStorage := Some 0, mCount := 2\<rparr>"

theorem keyed_vector_lookup_witness:
  "\<exists>i < 2. indexOfKey (<) 0 (5 :: nat) ex_keyed ex_pairs = Inr (int i) \<and>
     valueAt (of_nat i) ex_keyed ex_pairs = Inr (50 :: nat)"
proof -
  have "vec_holds ex_pair_type ex_pairs ex_keyed ex_pair_list"
    by (auto simp: ex_pair_list_def vec_holds_def vec_wf_def vec_buffer_def vec_slots_def ex_pairs_def ex_keyed_def ex_pair_type_def
      aggregate_traits_def ex_item_type_def Vector_new_def VectorImpl_new_def less_Suc_eq)
  from keyed_vector_lookup [OF this, of 5 0] obtain i where i: "i < 2" "kv_key (ex_pair_list ! i) = 5"
    and eqs: "indexOfKey (<) 0 5 ex_keyed ex_pairs = Inr (int i)"
      "valueAt (of_nat i) ex_keyed ex_pairs = Inr (kv_value (ex_pair_list ! i))"
    by (auto simp: ex_pair_list_def)
  from i have "i = 1" by (cases i) (simp_all add: ex_pair_list_def)
  with eqs show ?thesis by (intro exI [of _ 1]) (simp add: ex_pair_list_def)
qed

section \<open>Removing from the front\<close>

lemma three_slots:
  assumes holds: "vec_holds ty hp v [x, y, z]"
  obtains b sb rest where "mStorage v = Some b" "hp_bufs hp b = Some sb" "vec_buffer ty sb"
    "sb_data sb = Val x # Val y # Val z # rest"
proof -
  obtain b where b: "mStorage v = Some b" using holds by (cases "mStorage v") (auto simp: vec_holds_def)
  obtain sb where sb: "hp_bufs hp b = Some sb" "vec_buffer ty sb" "vec_slots ty [x, y, z] (sb_data sb)"
    using vec_holds_storage [OF holds b] by blast
  have len: "3 \<le> length (sb_data sb)" and nth: "\<forall>i < length [x, y, z]. sb_data sb ! i = Val ([x, y, z] ! i)"
    using sb(3) by (simp_all add: vec_slots_def)
  have "sb_data sb ! 0 = Val x" "sb_data sb ! Suc 0 = Val y" "sb_data sb ! Suc (Suc 0) = Val z"
    using nth by auto
  moreover have ne: "sb_data sb \<noteq> []" using len by auto
  ultimately have "sb_data sb = Val x # Val y # Val z # drop (Suc (Suc (Suc 0))) (sb_data sb)"
    using len Cons_nth_drop_Suc [of 0 "sb_data sb"] Cons_nth_drop_Suc [of "Suc 0" "sb_data sb"]
      Cons_nth_drop_Suc [of "Suc (Suc 0)" "sb_data sb"] ne by simp
  then show ?thesis by (rule that [OF b sb(1,2)])
qed

text \<open>What is in the slots after the first of three items is removed in place.\<close>

lemma remove_front_slots:
  assumes holds: "vec_holds ty hp v [x, y, z]" and cap: "vec_cap hp v < 6"
    and ty: "\<not> use_trivial_move ty" "\<not> has_trivial_dtor ty" "\<not> has_trivial_copy ty"
  obtains b sb rest where "mStorage v = Some b" "hp_bufs hp b = Some sb" "vec_buffer ty sb"
    "sb_data sb = Val x # Val y # Val z # rest"
    "removeItemsAt ty 0 1 v hp = Inr (0, v\<lparr>mCount := 2\<rparr>, sb_put b (sb\<lparr>sb_data := Val z # Raw # Raw # rest\<rparr>) hp)"
proof -
  have wf: "vec_wf ty v" and count: "mCount v = 3"
    using holds word_unat_eq_iff [of "mCount v" 3] by (simp_all add: vec_holds_def)
  obtain b sb rest where b: "mStorage v = Some b" and sb: "hp_bufs hp b = Some sb" "vec_buffer ty sb"
    and D: "sb_data sb = Val x # Val y # Val z # rest"
    by (rule three_slots [OF holds])
  have edit: "editArrayImpl ty v hp = Inr (Some b, v, hp)"
    using b sb by (simp add: editArrayImpl_def attemptEdit_def sb_get_def onlyOwner_def vec_buffer_def)
  have "unat (of_nat (vec_cap hp v) :: u64) = vec_cap hp v" using cap by (intro unat_of_nat_64) simp
  then have "unat (of_nat (vec_cap hp v) div 2 :: u64) = vec_cap hp v div 2" by (simp only: unat_div) simp
  moreover have "vec_cap hp v div 2 \<le> 2" using cap by simp
  ultimately have "\<not> (3 - 1 :: u64) < of_nat (vec_cap hp v) div 2" by (simp add: word_less_nat_alt)
  moreover have "vec_do_destroy ty v b (unat (0 :: u64)) (unat (1 :: u64)) hp =
      Inr (sb_put b (sb\<lparr>sb_data := Raw # Val y # Val z # rest\<rparr>) hp)"
    using ty(2) vec_flags(2) [OF wf] sb(1) D
    by (simp add: vec_do_destroy_def destroy_type_def slot_value_def sb_get_def sb_store_def)
  moreover have "move_in_place ty 0 (0 + 1) (3 - 1 - 0) (Some b) (sb_put b (sb\<lparr>sb_data := Raw # Val y # Val z # rest\<rparr>) hp) =
      Inr (sb_put b (sb\<lparr>sb_data := Val z # Raw # Raw # rest\<rparr>) hp)"
  proof -
    have "unat (3 - 1 - 0 :: u64) = Suc (Suc 0)" "unat (0 + 1 :: u64) = 1" by simp_all
    then show ?thesis
      using ty by (simp only: move_in_place_def) (simp add: move_forward_type_def slot_value_def sb_get_def sb_store_def)
  qed
  ultimately have "vec_shrink ty 0 1 v hp = Inr (v\<lparr>mCount := 2\<rparr>, sb_put b (sb\<lparr>sb_data := Val z # Raw # Raw # rest\<rparr>) hp)"
    using b edit count by (simp add: vec_shrink_def vec_capacity_holds(1) [OF holds] Let_def)
  then have "removeItemsAt ty 0 1 v hp = Inr (0, v\<lparr>mCount := 2\<rparr>, sb_put b (sb\<lparr>sb_data := Val z # Raw # Raw # rest\<rparr>) hp)"
    using count by (simp add: removeItemsAt_def)
  with b sb D show thesis by (rule that)
qed

text \<open>The next removal copies the slot that holds no object to smaller storage.\<close>

lemma remove_next_traps:
  assumes b: "mStorage v = Some b" "mCount v = 2" and wf: "vec_wf ty v" and sb: "hp_bufs hp b = Some sb" "vec_buffer ty sb"
    and D: "sb_data sb = s # Raw # rest" "4 \<le> length (sb_data sb)" and fits: "vec_fits ty 2" and ty: "\<not> has_trivial_copy ty"
    and mem: "has_memory hp" and fresh: "sb_fresh hp"
  shows "removeItemsAt ty 0 1 v hp = Inl Uninitialised"
proof -
  have item: "0 < sizeof_type ty" "mItemSize v = sizeof_type ty" using wf by (simp_all add: vec_wf_def)
  have capw: "vec_capacity v hp = Inr (of_nat (length (sb_data sb)))" and small: "length (sb_data sb) < 2 ^ 64"
    using b sb vec_buffer_slots [OF sb(2) item(1)] item by (simp_all add: vec_capacity_def sizeFromData_def sb_get_def)
  have "unat (of_nat (length (sb_data sb)) div 2 :: u64) = length (sb_data sb) div 2"
    using small by (simp add: unat_div unat_of_nat_64)
  moreover have "2 \<le> length (sb_data sb) div 2" using D(2) by simp
  ultimately have shrinks: "(2 - 1 :: u64) < of_nat (length (sb_data sb)) div 2" by (simp add: word_less_nat_alt)
  have "unat (of_nat 4 * sizeof_type ty) = 4 * unat (sizeof_type ty)" "4 * unat (sizeof_type ty) < 2 ^ 62"
    using vec_fits_bounds [OF fits item(1), of 4] by simp_all
  then have sz: "size_fits (4 * sizeof_type ty)" by simp
  obtain hp' where al: "SharedBuffer_alloc (unat (sizeof_type ty)) Raw (4 * sizeof_type ty) hp = Inr (Some (hp_next hp), hp')"
    and bufs: "\<And>c. c \<noteq> hp_next hp \<Longrightarrow> hp_bufs hp' c = hp_bufs hp c"
  proof (rule alloc_cases [OF sz, of "unat (sizeof_type ty)" Raw hp])
    assume "hd (hp_malloc hp @ [False]) = False"
    then show thesis using mem by (auto simp: has_memory_def split: list.splits)
  qed (simp_all add: that)
  have "b \<noteq> hp_next hp" using sb(1) fresh by (auto simp: sb_fresh_def)
  with bufs sb(1) have "hp_bufs hp' b = Some sb" by simp
  then have "slot_value b 1 hp' = Inl Uninitialised" using D by (simp add: slot_value_def sb_get_def arr_get_def)
  then have "copy_type (hp_next hp) 0 b 1 (Suc 0) hp' = Inl Uninitialised" by simp
  moreover have "unat (2 - 1 - 0 :: u64) = Suc 0" "unat (0 + 1 :: u64) = 1" by simp_all
  ultimately have "vec_do_copy v (hp_next hp) (unat (0 :: u64)) (Some b) (unat (0 + 1 :: u64)) (unat (2 - 1 - 0 :: u64)) hp' = Inl Uninitialised"
    using ty vec_flags(3) [OF wf] by (simp add: vec_do_copy_def)
  moreover have "max kMinVectorCapacity ((2 - 1) * 2) = 4" by (simp add: max_def)
  ultimately have "shrink_storage ty 0 1 (2 - 1) (max kMinVectorCapacity ((2 - 1) * 2)) b v hp = Inl Uninitialised"
    using al item by (simp add: shrink_storage_def)
  with b capw shrinks show ?thesis by (simp add: removeItemsAt_def vec_shrink_def Let_def)
qed

text \<open>For objects that are copied and destroyed one by one, removing the first of three items in place destroys one too
  many: the items behind move down from the last to the first, so the last item overwrites the middle one before
  that is copied. The call returns success, the middle item is lost, and the second slot of the vector holds no
  object.\<close>

theorem remove_front_loses_item:
  assumes holds: "vec_holds ty hp v [x, y, z]" and cap: "vec_cap hp v < 6"
    and ty: "\<not> use_trivial_move ty" "\<not> has_trivial_dtor ty" "\<not> has_trivial_copy ty"
  shows "\<exists>v' hp'. removeItemsAt ty 0 1 v hp = Inr (0, v', hp') \<and> mCount v' = 2 \<and>
    Vector_at 0 v' hp' = Inr z \<and> Vector_at 1 v' hp' = Inl Uninitialised"
  by (rule remove_front_slots [OF assms])
    (simp add: Vector_at_def slot_value_def sb_get_def arr_get_def)

definition ex_vec3 :: vec where
  "ex_vec3 = (Vector_new ex_item_type)\<lparr>mStorage := Some 0, mCount := 3\<rparr>"

definition ex_vheap3 :: "nat vheap" where
  "ex_vheap3 = \<lparr>hp_bufs = [0 \<mapsto> \<lparr>mRefs = 1, mSize = 32, mClientMetadata = 0, sb_data = [Val 1, Val 2, Val 3, Raw]\<rparr>],
     hp_next = 1, hp_malloc = [True]\<rparr>"

theorem remove_front_loses_item_witness:
  "\<exists>v' hp'. removeItemsAt ex_item_type 0 1 ex_vec3 ex_vheap3 = Inr (0, v', hp') \<and> mCount v' = 2 \<and>
    Vector_at 0 v' hp' = Inr 3 \<and> Vector_at 1 v' hp' = Inl Uninitialised"
proof (rule remove_front_loses_item)
  show "vec_holds ex_item_type ex_vheap3 ex_vec3 [1, 2, 3]"
    by (auto simp: vec_holds_def vec_wf_def vec_buffer_def vec_slots_def ex_vec3_def ex_vheap3_def ex_item_type_def
      Vector_new_def VectorImpl_new_def less_Suc_eq)
qed (simp_all add: vec_cap_def ex_vec3_def ex_vheap3_def ex_item_type_def use_trivial_move_def)

end
