(* ===== verification/Looper.thy ===== *)
theory Looper
  imports Vector_Props
begin

text \<open>
  \<open>libutils/Looper.cpp\<close> with the timeout of \<open>Timers.cpp\<close>: a queue of messages sorted by the time at
  which they are due, in a \<open>Vector\<close>, and the loop that waits and delivers them. The clock is a
  parameter, read in order; the results of \<open>epoll_wait\<close> and of the calls that make descriptors are
  lists in the state, and a list that is used up means a timeout or a failure. A handler is a list
  of calls on the looper for each message. The event descriptor is its counter, the mutex a flag: to
  lock it twice is a deadlock. References held through \<open>sp\<close> are counted in \<open>RefBase\<close>, not here.
\<close>

abbreviation (input) POLL_WAKE :: int where "POLL_WAKE \<equiv> - 1"
abbreviation (input) POLL_CALLBACK :: int where "POLL_CALLBACK \<equiv> - 2"
abbreviation (input) POLL_TIMEOUT :: int where "POLL_TIMEOUT \<equiv> - 3"
abbreviation (input) POLL_ERROR :: int where "POLL_ERROR \<equiv> - 4"
abbreviation (input) LLONG_MAX :: int where "LLONG_MAX \<equiv> 9223372036854775807"
abbreviation (input) INT_MAX :: int where "INT_MAX \<equiv> 2147483647"
abbreviation (input) EPOLLIN :: u32 where "EPOLLIN \<equiv> 1"
abbreviation (input) EPOLLOUT :: u32 where "EPOLLOUT \<equiv> 4"
abbreviation (input) EPOLLERR :: u32 where "EPOLLERR \<equiv> 8"
abbreviation (input) EPOLLHUP :: u32 where "EPOLLHUP \<equiv> 16"
abbreviation (input) EPOLL_MAX_EVENTS :: nat where "EPOLL_MAX_EVENTS \<equiv> 16"

section \<open>Timers.cpp\<close>

definition toMillisecondTimeoutDelay :: "int \<Rightarrow> int \<Rightarrow> int" where
  "toMillisecondTimeoutDelay referenceTime timeoutTime =
     (if timeoutTime > referenceTime then
        let timeoutDelay = (timeoutTime - referenceTime) mod 2 ^ 64
        in if timeoutDelay > (INT_MAX - 1) * 1000000 then - 1
           else (timeoutDelay + 999999) div 1000000
      else 0)"

definition milliseconds_to_nanoseconds :: "int \<Rightarrow> int" where
  "milliseconds_to_nanoseconds secs = secs * 1000000"

section \<open>State\<close>

record envelope =
  env_uptime :: int
  env_handler :: "nat option"
  env_what :: int

record request =
  rq_fd :: int
  rq_ident :: int
  rq_events :: int
  rq_seq :: int
  rq_callback :: "nat option"
  rq_data :: nat

record response =
  rs_events :: int
  rs_request :: request

definition default_request :: request where
  "default_request = \<lparr>rq_fd = 0, rq_ident = 0, rq_events = 0, rq_seq = 0, rq_callback = None, rq_data = 0\<rparr>"

text \<open>The types of the items have no traits, so they are copied and destroyed one by one.\<close>

definition plain_type :: "u64 \<Rightarrow> 'a \<Rightarrow> 'a item_type" where
  "plain_type sz x = \<lparr>has_trivial_ctor = False, has_trivial_dtor = False, has_trivial_copy = False,
     has_trivial_move = False, sizeof_type = sz, default_item = x\<rparr>"

definition envelope_type :: "envelope item_type" where
  "envelope_type = plain_type 24 \<lparr>env_uptime = 0, env_handler = None, env_what = 0\<rparr>"

definition response_type :: "response item_type" where
  "response_type = plain_type 40 \<lparr>rs_events = 0, rs_request = default_request\<rparr>"

definition request_type :: "(int, request) key_value_pair_t item_type" where
  "request_type = plain_type 40 \<lparr>kv_key = 0, kv_value = default_request\<rparr>"

datatype epoll_result = EpollFailed bool | EpollEvents "(int \<times> u32) list"

datatype looper_event =
    EpollAdd int u32
  | EpollWait int
  | Handled nat int
  | CallbackRun nat int int nat

record looper =
  mAllowNonCallbacks :: bool
  mWakeEventFd :: int
  mLock :: bool
  mMessageEnvelopes :: vec
  lp_messages :: "envelope vheap"
  mSendingMessage :: bool
  mPolling :: bool
  mEpollFd :: int
  mEpollRebuildRequired :: bool
  mRequests :: vec
  lp_requests :: "(int, request) key_value_pair_t vheap"
  mNextRequestSeq :: int
  mResponses :: vec
  lp_responses :: "response vheap"
  mResponseIndex :: nat
  mNextMessageUptime :: int
  lp_reads :: nat
  lp_epoll :: "epoll_result list"
  lp_fds :: "int list"
  lp_wakes :: nat
  lp_trace :: "looper_event list"

definition systemTime :: "(nat \<Rightarrow> int) \<Rightarrow> looper \<Rightarrow> int \<times> looper" where
  "systemTime clock st = (clock (lp_reads st), st\<lparr>lp_reads := Suc (lp_reads st)\<rparr>)"

definition lp_note :: "looper_event \<Rightarrow> looper \<Rightarrow> looper" where
  "lp_note ev st = st\<lparr>lp_trace := lp_trace st @ [ev]\<rparr>"

definition lp_lock :: "looper \<Rightarrow> looper chk" where
  "lp_lock st = (if mLock st then Inl Deadlock else Inr (st\<lparr>mLock := True\<rparr>))"

definition lp_unlock :: "looper \<Rightarrow> looper" where
  "lp_unlock st = st\<lparr>mLock := False\<rparr>"

definition new_fd :: "looper \<Rightarrow> int \<times> looper" where
  "new_fd st = (case lp_fds st of [] \<Rightarrow> (- 1, st) | fd # fds \<Rightarrow> (fd, st\<lparr>lp_fds := fds\<rparr>))"

section \<open>Construction\<close>

definition EVENT_flags :: "u32 \<Rightarrow> int" where
  "EVENT_flags epollEvents =
     (if epollEvents AND EPOLLIN \<noteq> 0 then 1 else 0) + (if epollEvents AND EPOLLOUT \<noteq> 0 then 2 else 0) +
     (if epollEvents AND EPOLLERR \<noteq> 0 then 4 else 0) + (if epollEvents AND EPOLLHUP \<noteq> 0 then 8 else 0)"

definition initEventItem :: "request \<Rightarrow> u32" where
  "initEventItem rq =
     (if odd (rq_events rq) then EPOLLIN else 0) OR (if odd (rq_events rq div 2) then EPOLLOUT else 0)"

primrec rebuild_requests :: "nat \<Rightarrow> nat \<Rightarrow> looper \<Rightarrow> looper chk" where
  "rebuild_requests i 0 st = Inr st"
| "rebuild_requests i (Suc n) st =
     bindE (valueAt (of_nat i) (mRequests st) (lp_requests st)) (\<lambda>rq.
     rebuild_requests (Suc i) n (lp_note (EpollAdd (rq_fd rq) (initEventItem rq)) st))"

definition rebuildEpollLocked :: "looper \<Rightarrow> looper chk" where
  "rebuildEpollLocked st =
     (let st = (if mEpollFd st > 0 then st\<lparr>mEpollFd := - 1\<rparr> else st);
          (fd, st) = new_fd st;
          st = lp_note (EpollAdd (mWakeEventFd st) EPOLLIN) (st\<lparr>mEpollFd := fd\<rparr>)
      in rebuild_requests 0 (unat (mCount (mRequests st))) st)"

definition Looper_init :: "bool \<Rightarrow> epoll_result list \<Rightarrow> int list \<Rightarrow> bool list \<Rightarrow> looper" where
  "Looper_init allowNonCallbacks epoll fds mallocs =
     \<lparr>mAllowNonCallbacks = allowNonCallbacks, mWakeEventFd = - 1, mLock = False,
      mMessageEnvelopes = Vector_new envelope_type,
      lp_messages = \<lparr>hp_bufs = (\<lambda>_. None), hp_next = 0, hp_malloc = mallocs\<rparr>,
      mSendingMessage = False, mPolling = False, mEpollFd = - 1, mEpollRebuildRequired = False,
      mRequests = Vector_new request_type,
      lp_requests = \<lparr>hp_bufs = (\<lambda>_. None), hp_next = 0, hp_malloc = []\<rparr>,
      mNextRequestSeq = 0, mResponses = Vector_new response_type,
      lp_responses = \<lparr>hp_bufs = (\<lambda>_. None), hp_next = 0, hp_malloc = []\<rparr>,
      mResponseIndex = 0, mNextMessageUptime = LLONG_MAX,
      lp_reads = 0, lp_epoll = epoll, lp_fds = fds, lp_wakes = 0, lp_trace = []\<rparr>"

definition Looper_new :: "bool \<Rightarrow> epoll_result list \<Rightarrow> int list \<Rightarrow> bool list \<Rightarrow> looper chk" where
  "Looper_new allowNonCallbacks epoll fds mallocs =
     (let (fd, st) = new_fd (Looper_init allowNonCallbacks epoll fds mallocs)
      in bindE (lp_lock (st\<lparr>mWakeEventFd := fd\<rparr>)) (\<lambda>st.
         bindE (rebuildEpollLocked st) (\<lambda>st. Inr (lp_unlock st))))"

section \<open>Sending\<close>

text \<open>An \<open>eventfd\<close> counts up to \<open>2\<^sup>6\<^sup>4 - 2\<close>; a write that would go past it fails with \<open>EAGAIN\<close>.\<close>

definition Looper_wake :: "looper \<Rightarrow> looper" where
  "Looper_wake st = (if lp_wakes st + 1 < 2 ^ 64 - 1 then st\<lparr>lp_wakes := lp_wakes st + 1\<rparr> else st)"

definition awoken :: "looper \<Rightarrow> looper" where
  "awoken st = st\<lparr>lp_wakes := 0\<rparr>"

text \<open>The index of the first of the \<open>n\<close> messages from \<open>i\<close> on that is due after \<open>uptime\<close>.\<close>

primrec send_index :: "int \<Rightarrow> vec \<Rightarrow> envelope vheap \<Rightarrow> nat \<Rightarrow> nat \<Rightarrow> nat chk" where
  "send_index uptime v hp i 0 = Inr i"
| "send_index uptime v hp i (Suc n) =
     bindE (Vector_at (of_nat i) v hp) (\<lambda>m.
     if uptime \<ge> env_uptime m then send_index uptime v hp (Suc i) n else Inr i)"

definition sendMessageAtTime :: "int \<Rightarrow> nat option \<Rightarrow> int \<Rightarrow> looper \<Rightarrow> looper chk" where
  "sendMessageAtTime uptime handler message st =
     bindE (lp_lock st) (\<lambda>st.
     bindE (send_index uptime (mMessageEnvelopes st) (lp_messages st) 0 (unat (mCount (mMessageEnvelopes st)))) (\<lambda>i.
     bindE (insertAt envelope_type
             (Some (Outside \<lparr>env_uptime = uptime, env_handler = handler, env_what = message\<rparr>))
             (of_nat i) 1 (mMessageEnvelopes st) (lp_messages st)) (\<lambda>(_, v, hp).
     let sending = mSendingMessage st;
         st = lp_unlock (st\<lparr>mMessageEnvelopes := v, lp_messages := hp\<rparr>)
     in Inr (if sending then st else if i = 0 then Looper_wake st else st))))"

definition sendMessage :: "(nat \<Rightarrow> int) \<Rightarrow> nat option \<Rightarrow> int \<Rightarrow> looper \<Rightarrow> looper chk" where
  "sendMessage clock handler message st =
     (case systemTime clock st of (now, st) \<Rightarrow> sendMessageAtTime now handler message st)"

definition sendMessageDelayed :: "(nat \<Rightarrow> int) \<Rightarrow> int \<Rightarrow> nat option \<Rightarrow> int \<Rightarrow> looper \<Rightarrow> looper chk" where
  "sendMessageDelayed clock uptimeDelay handler message st =
     (case systemTime clock st of (now, st) \<Rightarrow> sendMessageAtTime (now + uptimeDelay) handler message st)"

text \<open>What a handler may do.\<close>

datatype looper_call =
    SendAt int "nat option" int
  | Send "nat option" int
  | SendDelayed int "nat option" int
  | Wake

fun call_looper :: "(nat \<Rightarrow> int) \<Rightarrow> looper_call \<Rightarrow> looper \<Rightarrow> looper chk" where
  "call_looper clock (SendAt t h w) st = sendMessageAtTime t h w st"
| "call_looper clock (Send h w) st = sendMessage clock h w st"
| "call_looper clock (SendDelayed d h w) st = sendMessageDelayed clock d h w st"
| "call_looper clock Wake st = Inr (Looper_wake st)"

fun call_all :: "(nat \<Rightarrow> int) \<Rightarrow> looper_call list \<Rightarrow> looper \<Rightarrow> looper chk" where
  "call_all clock [] st = Inr st"
| "call_all clock (c # cs) st = bindE (call_looper clock c st) (call_all clock cs)"

section \<open>Polling\<close>

definition pushResponse :: "int \<Rightarrow> request \<Rightarrow> looper \<Rightarrow> looper chk" where
  "pushResponse events rq st =
     bindE (vec_push response_type (Some (Outside \<lparr>rs_events = events, rs_request = rq\<rparr>)) (mResponses st) (lp_responses st))
       (\<lambda>(v, hp). Inr (st\<lparr>mResponses := v, lp_responses := hp\<rparr>))"

text \<open>The timeout \<open>pollInner\<close> waits with: not longer than until the next message is due.\<close>

definition poll_timeout :: "(nat \<Rightarrow> int) \<Rightarrow> int \<Rightarrow> looper \<Rightarrow> int \<times> looper" where
  "poll_timeout clock timeoutMillis st =
     (if timeoutMillis \<noteq> 0 \<and> mNextMessageUptime st \<noteq> LLONG_MAX then
        let (now, st) = systemTime clock st;
            messageTimeoutMillis = toMillisecondTimeoutDelay now (mNextMessageUptime st)
        in (if messageTimeoutMillis \<ge> 0 \<and> (timeoutMillis < 0 \<or> messageTimeoutMillis < timeoutMillis)
            then messageTimeoutMillis else timeoutMillis, st)
      else (timeoutMillis, st))"

definition epoll_wait :: "int \<Rightarrow> looper \<Rightarrow> epoll_result \<times> looper" where
  "epoll_wait timeoutMillis st =
     (let st = lp_note (EpollWait timeoutMillis) st
      in case lp_epoll st of
           [] \<Rightarrow> (EpollEvents [], st)
         | r # rs \<Rightarrow> (r, st\<lparr>lp_epoll := rs\<rparr>))"

fun poll_events :: "(int \<times> u32) list \<Rightarrow> looper \<Rightarrow> looper chk" where
  "poll_events [] st = Inr st"
| "poll_events ((fd, epollEvents) # evs) st =
     bindE (if fd = mWakeEventFd st then
              Inr (if epollEvents AND EPOLLIN \<noteq> 0 then awoken st else st)
            else
              bindE (indexOfKey (<) default_request fd (mRequests st) (lp_requests st)) (\<lambda>requestIndex.
              if requestIndex \<ge> 0 then
                bindE (valueAt (of_int requestIndex) (mRequests st) (lp_requests st)) (\<lambda>rq.
                pushResponse (EVENT_flags epollEvents) rq st)
              else Inr st)) (poll_events evs)"

text \<open>From \<open>Done\<close> on: deliver what is due. A handler that sends due messages for ever uses up the fuel.\<close>

fun message_loop ::
    "(nat \<Rightarrow> int) \<Rightarrow> (nat \<Rightarrow> int \<Rightarrow> looper_call list) \<Rightarrow> nat \<Rightarrow> int \<Rightarrow> looper \<Rightarrow> (int \<times> looper) chk" where
  "message_loop clock handle 0 result st = Inl OutOfFuel"
| "message_loop clock handle (Suc fuel) result st =
     (if mCount (mMessageEnvelopes st) \<noteq> 0 then
        case systemTime clock st of (now, st) \<Rightarrow>
        bindE (Vector_at 0 (mMessageEnvelopes st) (lp_messages st)) (\<lambda>m.
        if env_uptime m \<le> now then
          bindE (removeItemsAt envelope_type 0 1 (mMessageEnvelopes st) (lp_messages st)) (\<lambda>(_, v, hp).
          let st = lp_unlock (st\<lparr>mMessageEnvelopes := v, lp_messages := hp, mSendingMessage := True\<rparr>)
          in bindE (derefE NullDeref (env_handler m)) (\<lambda>h.
             bindE (call_all clock (handle h (env_what m)) (lp_note (Handled h (env_what m)) st)) (\<lambda>st.
             bindE (lp_lock st) (\<lambda>st.
             message_loop clock handle fuel POLL_CALLBACK (st\<lparr>mSendingMessage := False\<rparr>)))))
        else Inr (result, st\<lparr>mNextMessageUptime := env_uptime m\<rparr>))
      else Inr (result, st))"

text \<open>The reference that \<open>editItemAt\<close> gives, through which the callback is cleared.\<close>

primrec response_loop :: "nat \<Rightarrow> nat \<Rightarrow> looper \<Rightarrow> looper chk" where
  "response_loop i 0 st = Inr st"
| "response_loop i (Suc n) st =
     bindE (editItemAt response_type (of_nat i) (mResponses st) (lp_responses st)) (\<lambda>((b, k), v, hp).
     bindE (slot_value b k hp) (\<lambda>rs.
     let st = st\<lparr>mResponses := v, lp_responses := hp\<rparr>
     in if rq_ident (rs_request rs) = POLL_CALLBACK then
          bindE (derefE NullDeref (rq_callback (rs_request rs))) (\<lambda>cb.
          let st = lp_note (CallbackRun cb (rq_fd (rs_request rs)) (rs_events rs) (rq_data (rs_request rs))) st
          in bindE (sb_store b k [Val (rs\<lparr>rs_request := (rs_request rs)\<lparr>rq_callback := None\<rparr>\<rparr>)] (lp_responses st)) (\<lambda>hp.
             response_loop (Suc i) n (st\<lparr>lp_responses := hp\<rparr>)))
        else response_loop (Suc i) n st))"

text \<open>The events that \<open>epoll_wait\<close> stored, and what they mean for the result.\<close>

definition poll_dispatch :: "epoll_result \<Rightarrow> looper \<Rightarrow> (int \<times> looper) chk" where
  "poll_dispatch r st =
     (if mEpollRebuildRequired st then
        bindE (rebuildEpollLocked (st\<lparr>mEpollRebuildRequired := False\<rparr>)) (\<lambda>st. Inr (POLL_WAKE, st))
      else
        case r of
          EpollFailed interrupted \<Rightarrow> Inr (if interrupted then POLL_WAKE else POLL_ERROR, st)
        | EpollEvents evs \<Rightarrow>
            if evs = [] then Inr (POLL_TIMEOUT, st)
            else bindE (poll_events (take EPOLL_MAX_EVENTS evs) st) (\<lambda>st. Inr (POLL_WAKE, st)))"

definition pollInner ::
    "(nat \<Rightarrow> int) \<Rightarrow> (nat \<Rightarrow> int \<Rightarrow> looper_call list) \<Rightarrow> nat \<Rightarrow> int \<Rightarrow> looper \<Rightarrow> (int \<times> looper) chk" where
  "pollInner clock handle fuel timeoutMillis st =
     (case poll_timeout clock timeoutMillis st of (timeoutMillis, st) \<Rightarrow>
      bindE (vec_clear response_type (mResponses st) (lp_responses st)) (\<lambda>(v, hp).
      let st = st\<lparr>mResponses := v, lp_responses := hp, mResponseIndex := 0, mPolling := True\<rparr>;
          (r, st) = epoll_wait timeoutMillis st;
          st = st\<lparr>mPolling := False\<rparr>
      in bindE (lp_lock st) (\<lambda>st.
         bindE (poll_dispatch r st) (\<lambda>(result, st).
         bindE (message_loop clock handle fuel result (st\<lparr>mNextMessageUptime := LLONG_MAX\<rparr>)) (\<lambda>(result, st).
         let st = lp_unlock st
         in bindE (response_loop 0 (unat (mCount (mResponses st))) st) (\<lambda>st.
            Inr (result, st)))))))"

text \<open>
  The responses from \<open>mResponseIndex\<close> on: the first with an identifier that is not negative is the
  result, with its descriptor, events and data.
\<close>

primrec response_scan :: "nat \<Rightarrow> looper \<Rightarrow> ((int \<times> int \<times> int \<times> nat) option \<times> looper) chk" where
  "response_scan 0 st = Inr (None, st)"
| "response_scan (Suc n) st =
     bindE (Vector_at (of_nat (mResponseIndex st)) (mResponses st) (lp_responses st)) (\<lambda>rs.
     let st = st\<lparr>mResponseIndex := Suc (mResponseIndex st)\<rparr>;
         rq = rs_request rs
     in if rq_ident rq \<ge> 0 then Inr (Some (rq_ident rq, rq_fd rq, rs_events rs, rq_data rq), st)
        else response_scan n st)"

fun pollOnce_loop ::
    "(nat \<Rightarrow> int) \<Rightarrow> (nat \<Rightarrow> int \<Rightarrow> looper_call list) \<Rightarrow> nat \<Rightarrow> nat \<Rightarrow> int \<Rightarrow> int \<Rightarrow> looper \<Rightarrow>
     ((int \<times> int \<times> int \<times> nat) \<times> looper) chk" where
  "pollOnce_loop clock handle fuel 0 timeoutMillis result st = Inl OutOfFuel"
| "pollOnce_loop clock handle fuel (Suc n) timeoutMillis result st =
     bindE (response_scan (unat (mCount (mResponses st)) - mResponseIndex st) st) (\<lambda>(r, st).
     case r of
       Some out \<Rightarrow> Inr (out, st)
     | None \<Rightarrow>
         if result \<noteq> 0 then Inr ((result, 0, 0, 0), st)
         else bindE (pollInner clock handle fuel timeoutMillis st) (\<lambda>(result, st).
              pollOnce_loop clock handle fuel n timeoutMillis result st))"

definition pollOnce ::
    "(nat \<Rightarrow> int) \<Rightarrow> (nat \<Rightarrow> int \<Rightarrow> looper_call list) \<Rightarrow> nat \<Rightarrow> int \<Rightarrow> looper \<Rightarrow>
     ((int \<times> int \<times> int \<times> nat) \<times> looper) chk" where
  "pollOnce clock handle fuel timeoutMillis st = pollOnce_loop clock handle fuel fuel timeoutMillis 0 st"

text \<open>The loops of \<open>pollAll\<close>: without a deadline, and until \<open>endTime\<close>.\<close>

fun pollAll_forever ::
    "(nat \<Rightarrow> int) \<Rightarrow> (nat \<Rightarrow> int \<Rightarrow> looper_call list) \<Rightarrow> nat \<Rightarrow> nat \<Rightarrow> int \<Rightarrow> looper \<Rightarrow>
     ((int \<times> int \<times> int \<times> nat) \<times> looper) chk" where
  "pollAll_forever clock handle fuel 0 timeoutMillis st = Inl OutOfFuel"
| "pollAll_forever clock handle fuel (Suc n) timeoutMillis st =
     bindE (pollOnce clock handle fuel timeoutMillis st) (\<lambda>(out, st).
     if fst out = POLL_CALLBACK then pollAll_forever clock handle fuel n timeoutMillis st else Inr (out, st))"

fun pollAll_until ::
    "(nat \<Rightarrow> int) \<Rightarrow> (nat \<Rightarrow> int \<Rightarrow> looper_call list) \<Rightarrow> nat \<Rightarrow> nat \<Rightarrow> int \<Rightarrow> int \<Rightarrow> looper \<Rightarrow>
     ((int \<times> int \<times> int \<times> nat) \<times> looper) chk" where
  "pollAll_until clock handle fuel 0 endTime timeoutMillis st = Inl OutOfFuel"
| "pollAll_until clock handle fuel (Suc n) endTime timeoutMillis st =
     bindE (pollOnce clock handle fuel timeoutMillis st) (\<lambda>(out, st).
     if fst out \<noteq> POLL_CALLBACK then Inr (out, st)
     else
       case systemTime clock st of (now, st) \<Rightarrow>
       let timeoutMillis = toMillisecondTimeoutDelay now endTime
       in if timeoutMillis = 0 then Inr ((POLL_TIMEOUT, snd out), st)
          else pollAll_until clock handle fuel n endTime timeoutMillis st)"

definition pollAll ::
    "(nat \<Rightarrow> int) \<Rightarrow> (nat \<Rightarrow> int \<Rightarrow> looper_call list) \<Rightarrow> nat \<Rightarrow> int \<Rightarrow> looper \<Rightarrow>
     ((int \<times> int \<times> int \<times> nat) \<times> looper) chk" where
  "pollAll clock handle fuel timeoutMillis st =
     (if timeoutMillis \<le> 0 then pollAll_forever clock handle fuel fuel timeoutMillis st
      else
        case systemTime clock st of (now, st) \<Rightarrow>
        pollAll_until clock handle fuel fuel (now + milliseconds_to_nanoseconds timeoutMillis) timeoutMillis st)"

end
