(* ===== verification/Vector_Memory.thy ===== *)
theory Vector_Memory
  imports Vector_Props
begin

text \<open>
  How much memory the operations of a vector ask for: each uses up at most two outcomes of \<open>malloc\<close>, so
  a sequence of operations on a heap with memory enough cannot run out of it.
\<close>

definition uses_memory :: "nat \<Rightarrow> 'a sb_heap \<Rightarrow> 'a sb_heap \<Rightarrow> bool" where
  "uses_memory n hp hp' \<longleftrightarrow> (\<exists>k\<le>n. hp_malloc hp' = drop k (hp_malloc hp))"

definition memory_for :: "nat \<Rightarrow> 'a sb_heap \<Rightarrow> bool" where
  "memory_for n hp \<longleftrightarrow> n \<le> length (hp_malloc hp) \<and> list_all id (hp_malloc hp)"

lemma memory_for_has: "memory_for n hp \<Longrightarrow> 0 < n \<Longrightarrow> has_memory hp"
  by (auto simp: memory_for_def has_memory_def split: list.split)

lemma memory_for_less: "memory_for n hp \<Longrightarrow> m \<le> n \<Longrightarrow> memory_for m hp"
  by (simp add: memory_for_def)

lemma memory_for_after:
  assumes "uses_memory k hp hp'" and "memory_for (n + k) hp"
  shows "memory_for n hp'"
proof -
  from assms(1) obtain j where j: "j \<le> k" "hp_malloc hp' = drop j (hp_malloc hp)"
    by (auto simp: uses_memory_def)
  with assms(2) set_drop_subset [of j "hp_malloc hp"] show ?thesis
    by (auto simp: memory_for_def list_all_iff)
qed

lemma uses_memory_same: "hp_malloc hp' = hp_malloc hp \<Longrightarrow> uses_memory n hp hp'"
  unfolding uses_memory_def by (rule exI [of _ 0]) simp

lemma uses_memory_then: "uses_memory n hp hp1 \<Longrightarrow> hp_malloc hp2 = hp_malloc hp1 \<Longrightarrow> uses_memory n hp hp2"
  by (simp add: uses_memory_def)

section \<open>Operations that ask for none\<close>

lemma sb_store_malloc: "sb_store b off xs hp = Inr hp' \<Longrightarrow> hp_malloc hp' = hp_malloc hp"
  by (auto simp: sb_store_def bindE_Inr_iff)

lemma construct_loop_malloc: "construct_loop x b p n hp = Inr hp' \<Longrightarrow> hp_malloc hp' = hp_malloc hp"
  by (induction n arbitrary: p hp) (auto simp: bindE_Inr_iff dest!: sb_store_malloc)

lemma destroy_loop_malloc: "destroy_loop b p n hp = Inr hp' \<Longrightarrow> hp_malloc hp' = hp_malloc hp"
  by (induction n arbitrary: p hp) (auto simp: bindE_Inr_iff dest!: sb_store_malloc)

lemma copy_type_malloc: "copy_type db d sb s n hp = Inr hp' \<Longrightarrow> hp_malloc hp' = hp_malloc hp"
  by (induction n arbitrary: d s hp) (auto simp: bindE_Inr_iff dest!: sb_store_malloc)

lemma splat_type_malloc: "splat_type b p what n hp = Inr hp' \<Longrightarrow> hp_malloc hp' = hp_malloc hp"
  by (induction n arbitrary: p hp) (auto simp: bindE_Inr_iff dest!: sb_store_malloc)

lemma move_loop_malloc: "move_loop ty b d s n hp = Inr hp' \<Longrightarrow> hp_malloc hp' = hp_malloc hp"
proof (induction n arbitrary: hp)
  case (Suc n)
  then obtain hp1 hp2 where
    1: "(if \<not> has_trivial_copy ty
         then bindE (slot_value b (s + n) hp) (\<lambda>x. sb_store b (d + n) [Val x] hp)
         else bindE (sb_read b (s + n) 1 hp) (\<lambda>xs. sb_store b (d + n) xs hp)) = Inr hp1"
    and 2: "(if \<not> has_trivial_dtor ty then destroy_loop b (s + n) 1 hp1 else Inr hp1) = Inr hp2"
    and 3: "move_loop ty b d s n hp2 = Inr hp'"
    by (simp add: bindE_Inr_iff) blast
  from 1 have "hp_malloc hp1 = hp_malloc hp"
    by (auto simp: bindE_Inr_iff dest!: sb_store_malloc split: if_splits)
  moreover from 2 have "hp_malloc hp2 = hp_malloc hp1"
    by (auto simp del: destroy_loop.simps dest!: destroy_loop_malloc split: if_splits)
  ultimately show ?case using Suc.IH [OF 3] by simp
qed simp

lemma SharedBuffer_release_malloc: "SharedBuffer_release b f hp = Inr (r, hp') \<Longrightarrow> hp_malloc hp' = hp_malloc hp"
  by (auto simp: SharedBuffer_release_def bindE_Inr_iff Let_def split: if_splits)

lemmas store_malloc = sb_store_malloc construct_loop_malloc destroy_loop_malloc copy_type_malloc
  splat_type_malloc move_loop_malloc

lemma vec_do_malloc:
  "vec_do_construct ty v b p n hp = Inr hp' \<Longrightarrow> hp_malloc hp' = hp_malloc hp"
  "vec_do_destroy ty v b p n hp = Inr hp' \<Longrightarrow> hp_malloc hp' = hp_malloc hp"
  "vec_do_copy v db d from s n hp = Inr hp' \<Longrightarrow> hp_malloc hp' = hp_malloc hp"
  "move_forward_type ty b d s n hp = Inr hp' \<Longrightarrow> hp_malloc hp' = hp_malloc hp"
  by (auto simp: vec_do_construct_def construct_type_def vec_do_destroy_def destroy_type_def vec_do_copy_def
    move_forward_type_def bindE_Inr_iff dest!: store_malloc split: if_splits)

lemma move_in_place_malloc: "move_in_place ty d s n arr hp = Inr hp' \<Longrightarrow> hp_malloc hp' = hp_malloc hp"
  by (auto simp: move_in_place_def bindE_Inr_iff dest!: vec_do_malloc(4))

lemma release_storage_malloc: "release_storage ty v hp = Inr hp' \<Longrightarrow> hp_malloc hp' = hp_malloc hp"
  by (auto simp: release_storage_def bindE_Inr_iff
    dest!: SharedBuffer_release_malloc vec_do_malloc(2) split: option.splits if_splits)

section \<open>Operations that may allocate\<close>

lemma sb_malloc_uses: "sb_malloc hp = (r, hp') \<Longrightarrow> hp_malloc hp' = drop 1 (hp_malloc hp)"
  by (auto simp: sb_malloc_def split: list.splits bool.splits)

lemma alloc_uses: "SharedBuffer_alloc unit junk sz hp = Inr (r, hp') \<Longrightarrow> hp_malloc hp' = drop 1 (hp_malloc hp)"
  by (auto simp: SharedBuffer_alloc_def bindE_Inr_iff split: prod.splits option.splits dest!: sb_malloc_uses)

lemma alloc_uses_memory: "SharedBuffer_alloc unit junk sz hp = Inr (r, hp') \<Longrightarrow> uses_memory 2 hp hp'"
  unfolding uses_memory_def by (rule exI [of _ 1]) (simp add: alloc_uses)

lemma editResize_copy_uses:
  "editResize_copy unit junk b sz hp = Inr (r, hp') \<Longrightarrow> hp_malloc hp' = drop 1 (hp_malloc hp)"
  by (auto simp: editResize_copy_def bindE_Inr_iff Let_def split: option.splits
    dest!: alloc_uses SharedBuffer_release_malloc)

lemma editResize_uses_memory:
  assumes "editResize unit junk b sz hp = Inr (r, hp')"
  shows "uses_memory 2 hp hp'"
proof -
  obtain q hp1 where m: "sb_malloc hp = (q, hp1)" by fastforce
  have one: "uses_memory 2 hp h" if "hp_malloc h = drop 1 (hp_malloc hp)" for h :: "'a sb_heap"
    unfolding uses_memory_def by (rule exI [of _ 1]) (simp add: that)
  have two: "uses_memory 2 hp h" if "hp_malloc h = drop 1 (drop 1 (hp_malloc hp))" for h :: "'a sb_heap"
    unfolding uses_memory_def by (rule exI [of _ 2]) (simp add: that numeral_2_eq_2)
  from assms m have "hp_malloc hp' = hp_malloc hp \<or> hp_malloc hp' = drop 1 (hp_malloc hp) \<or>
      hp_malloc hp' = drop 1 (drop 1 (hp_malloc hp))"
    using sb_malloc_uses [OF m]
    by (auto simp: editResize_def bindE_Inr_iff Let_def dest!: editResize_copy_uses split: if_splits option.splits)
  then show ?thesis using one two uses_memory_same by blast
qed

lemma copies_malloc:
  assumes "bindE (if a then vec_do_copy v n d from s k hp else Inr hp) (\<lambda>hp.
      bindE (if c then vec_do_copy v n d2 from s2 k2 hp else Inr hp) (\<lambda>hp.
      bindE (release_storage ty v hp) (\<lambda>hp. Inr (True, v1, hp)))) = Inr (ok, v', hp')"
  shows "hp_malloc hp' = hp_malloc hp"
  using assms by (auto simp: bindE_Inr_iff dest!: vec_do_malloc(3) release_storage_malloc split: if_splits)

lemma grow_copy_uses_memory:
  assumes "grow_copy ty whr amount sz v hp = Inr (ok, v', hp')"
  shows "uses_memory 2 hp hp'"
proof -
  from assms obtain r hp1 where al: "SharedBuffer_alloc (unat (mItemSize v)) Raw sz hp = Inr (r, hp1)"
    by (auto simp: grow_copy_def bindE_Inr_iff)
  show ?thesis
  proof (cases r)
    case None
    with assms al have "hp' = hp1" by (simp add: grow_copy_def)
    with alloc_uses_memory [OF al] show ?thesis by simp
  next
    case (Some n)
    from assms [unfolded grow_copy_def al Some bindE_simps prod.case option.case] have "hp_malloc hp' = hp_malloc hp1"
      by (rule copies_malloc)
    with alloc_uses_memory [OF al] show ?thesis by (rule uses_memory_then)
  qed
qed

lemma resize_uses_memory:
  assumes "bindE (editResize unit junk b sz hp) (\<lambda>(r, hp).
      case r of None \<Rightarrow> Inr (False, v, hp) | Some n \<Rightarrow> Inr (True, f n, hp)) = Inr (ok, v', hp')"
  shows "uses_memory 2 hp hp'"
proof -
  from assms obtain r hp1 where ed: "editResize unit junk b sz hp = Inr (r, hp1)"
    by (auto simp: bindE_Inr_iff)
  with assms have "hp' = hp1" by (cases r) auto
  with editResize_uses_memory [OF ed] show ?thesis by simp
qed

lemma grow_storage_uses_memory:
  assumes "grow_storage ty whr amount sz v hp = Inr (ok, v', hp')"
  shows "uses_memory 2 hp hp'"
  using assms
  by (auto simp: grow_storage_def split: option.splits if_splits
    dest: resize_uses_memory grow_copy_uses_memory)

lemma vec_unshare_uses_memory:
  assumes "vec_unshare ty b v hp = Inr (v', hp')"
  shows "uses_memory 2 hp hp'"
proof -
  from assms obtain sz r hp1 where "sizeFromData (Some b) hp = Inr sz"
    and al: "SharedBuffer_alloc (unat (mItemSize v)) Raw sz hp = Inr (r, hp1)"
    by (auto simp: vec_unshare_def bindE_Inr_iff)
  with assms have "hp_malloc hp' = hp_malloc hp1"
    by (cases r) (auto simp: vec_unshare_def bindE_Inr_iff dest!: vec_do_malloc(3) release_storage_malloc)
  with alloc_uses_memory [OF al] show ?thesis by (rule uses_memory_then)
qed

lemma editArrayImpl_uses_memory:
  assumes "editArrayImpl ty v hp = Inr (arr, v', hp')"
  shows "uses_memory 2 hp hp'"
  using assms
  by (auto simp: editArrayImpl_def bindE_Inr_iff split: option.splits if_splits
    dest: vec_unshare_uses_memory intro: uses_memory_same)

lemma shrink_storage_uses_memory:
  assumes "shrink_storage ty whr amount n c b v hp = Inr (ok, v', hp')"
  shows "uses_memory 2 hp hp'"
proof (cases "whr = n \<and> mFlags v AND HAS_TRIVIAL_COPY \<noteq> 0 \<and> mFlags v AND HAS_TRIVIAL_DTOR \<noteq> 0")
  case True
  with assms show ?thesis by (auto simp: shrink_storage_def dest: resize_uses_memory)
next
  case False
  with assms obtain q where al: "SharedBuffer_alloc (unat (mItemSize v)) Raw (c * mItemSize v) hp = Inr q"
    by (auto simp: shrink_storage_def bindE_Inr_iff)
  obtain r hp1 where q: "q = (r, hp1)" by fastforce
  from assms have rest: "(case r of None \<Rightarrow> Inr (False, v, hp1) | Some m \<Rightarrow>
      bindE (if whr \<noteq> 0 then vec_do_copy v m 0 (Some b) 0 (unat whr) hp1 else Inr hp1) (\<lambda>hp.
      bindE (if whr \<noteq> n then vec_do_copy v m (unat whr) (Some b) (unat (whr + amount)) (unat (n - whr)) hp else Inr hp) (\<lambda>hp.
      bindE (release_storage ty v hp) (\<lambda>hp. Inr (True, v\<lparr>mStorage := Some m\<rparr>, hp))))) = Inr (ok, v', hp')"
    unfolding shrink_storage_def if_not_P [OF False] al q bindE_simps prod.case .
  show ?thesis
  proof (cases r)
    case None
    with rest have "hp' = hp1" by simp
    with alloc_uses_memory [OF al [unfolded q]] show ?thesis by simp
  next
    case (Some m)
    from rest [unfolded Some option.case] have "hp_malloc hp' = hp_malloc hp1" by (rule copies_malloc)
    with alloc_uses_memory [OF al [unfolded q]] show ?thesis by (rule uses_memory_then)
  qed
qed

lemma insertAt_uses_memory:
  assumes "insertAt ty item index n v hp = Inr (ret, v', hp')"
  shows "uses_memory 2 hp hp'"
proof (cases "index > mCount v")
  case True
  with assms show ?thesis by (simp add: insertAt_def uses_memory_same)
next
  case False
  with assms obtain w v1 hp1 where grow: "vec_grow ty index n v hp = Inr (w, v1, hp1)"
    and rest: "(case w of
        None \<Rightarrow> Inr (VEC_NO_MEMORY, v1, hp1)
      | Some (b, p) \<Rightarrow>
          bindE (case item of
                   Some what \<Rightarrow> splat_type b p what (unat n) hp1
                 | None \<Rightarrow> vec_do_construct ty v1 b p (unat n) hp1) (\<lambda>hp.
          Inr (sint index, v1, hp))) = Inr (ret, v', hp')"
    by (auto simp: insertAt_def bindE_Inr_iff)
  have after: "hp_malloc hp' = hp_malloc hp1"
  proof (cases w)
    case None
    with rest show ?thesis by simp
  next
    case (Some bp)
    with rest show ?thesis
      by (cases bp; cases item) (auto simp: bindE_Inr_iff dest!: splat_type_malloc vec_do_malloc(1))
  qed
  from grow have "uses_memory 2 hp hp1"
    by (auto simp: vec_grow_def bindE_Inr_iff Let_def split: if_splits
      dest!: grow_storage_uses_memory editArrayImpl_uses_memory move_in_place_malloc intro: uses_memory_then)
  with after show ?thesis by (rule uses_memory_then [rotated])
qed

lemma removeItemsAt_uses_memory:
  assumes "removeItemsAt ty index n v hp = Inr (ret, v', hp')"
  shows "uses_memory 2 hp hp'"
  using assms
  by (auto simp: removeItemsAt_def vec_shrink_def bindE_Inr_iff Let_def split: if_splits option.splits
    dest!: shrink_storage_uses_memory editArrayImpl_uses_memory move_in_place_malloc vec_do_malloc(2)
    intro: uses_memory_then uses_memory_same)

end
