(* ===== verification/Looper_Props.thy ===== *)
theory Looper_Props
  imports Looper Vector_Memory
begin

text \<open>
  The message queue of a looper as a list of messages sorted by the time at which they are due, and the loops that
  send and deliver refined to operations on that list.
\<close>

section \<open>Timeouts\<close>

text \<open>\<open>toMillisecondTimeoutDelay\<close> rounds up to whole milliseconds, so that a wait of that length is not too
  short and less than a millisecond too long; it is 0 exactly when the time has come, and -1, which means no timeout,
  exactly when the delay exceeds \<open>INT_MAX - 1\<close> milliseconds. The result fits an \<open>int\<close>.\<close>

theorem timeout_rounds_up:
  assumes "timeoutTime - referenceTime < 2 ^ 64"
  shows "let d = timeoutTime - referenceTime; ms = toMillisecondTimeoutDelay referenceTime timeoutTime in
    (ms = 0 \<longleftrightarrow> d \<le> 0) \<and> (ms = - 1 \<longleftrightarrow> (INT_MAX - 1) * 1000000 < d) \<and> - 1 \<le> ms \<and> ms < INT_MAX \<and>
    (0 < ms \<longrightarrow> d \<le> ms * 1000000 \<and> ms * 1000000 < d + 1000000)"
proof (cases "0 < timeoutTime - referenceTime")
  case False
  then show ?thesis by (simp add: toMillisecondTimeoutDelay_def)
next
  case True
  let ?d = "timeoutTime - referenceTime"
  have "?d mod 2 ^ 64 = ?d" using True assms by simp
  then have ms: "toMillisecondTimeoutDelay referenceTime timeoutTime =
      (if (INT_MAX - 1) * 1000000 < ?d then - 1 else (?d + 999999) div 1000000)"
    using True by (simp add: toMillisecondTimeoutDelay_def Let_def)
  have "?d + 999999 = (?d + 999999) div 1000000 * 1000000 + (?d + 999999) mod 1000000"
    "0 \<le> (?d + 999999) mod 1000000" "(?d + 999999) mod 1000000 < 1000000"
    by simp_all
  with True show ?thesis unfolding ms Let_def by (simp split: if_split) linarith
qed

theorem timeout_rounds_up_witness:
  "toMillisecondTimeoutDelay 10 1000011 = 2 \<and> 1000001 \<le> (2 :: int) * 1000000 \<and> toMillisecondTimeoutDelay 10 9 = 0"
proof -
  have "(0 :: int) < toMillisecondTimeoutDelay 10 1000011"
    by (simp add: toMillisecondTimeoutDelay_def)
  with timeout_rounds_up [of 1000011 10] timeout_rounds_up [of 9 10] show ?thesis
    by (simp add: Let_def)
qed

section \<open>The queue\<close>

definition queue_holds :: "looper \<Rightarrow> envelope list \<Rightarrow> bool" where
  "queue_holds st q \<longleftrightarrow> vec_holds envelope_type (lp_messages st) (mMessageEnvelopes st) q \<and> sb_fresh (lp_messages st)"

definition enqueue :: "envelope \<Rightarrow> envelope list \<Rightarrow> envelope list" where
  "enqueue m q = takeWhile (\<lambda>e. env_uptime e \<le> env_uptime m) q @ m # dropWhile (\<lambda>e. env_uptime e \<le> env_uptime m) q"

lemma length_enqueue [simp]: "length (enqueue m q) = Suc (length q)"
proof -
  have "length (takeWhile P q) + length (dropWhile P q) = length q" for P :: "envelope \<Rightarrow> bool"
    by (metis length_append takeWhile_dropWhile_id)
  then show ?thesis by (simp add: enqueue_def)
qed

lemma sorted_enqueue: "sorted (map env_uptime q) \<Longrightarrow> sorted (map env_uptime (enqueue m q))"
proof (induction q)
  case (Cons e q)
  then show ?case
    by (cases "env_uptime e \<le> env_uptime m")
      (auto simp: enqueue_def dest: set_takeWhileD set_dropWhileD)
qed (simp add: enqueue_def)

lemma send_index_eq:
  assumes holds: "vec_holds ty hp v q" and small: "length q < 2 ^ 64"
  shows "i + n = length q \<Longrightarrow>
    send_index t v hp i n = Inr (i + length (takeWhile (\<lambda>e. env_uptime e \<le> t) (drop i q)))"
proof (induction n arbitrary: i)
  case (Suc n)
  then have "i < length q" by simp
  moreover from this have "drop i q = q ! i # drop (Suc i) q" by (rule Cons_nth_drop_Suc [symmetric])
  ultimately show ?case using Suc Vector_at_holds [OF holds _ small, of i] by simp
qed simp

section \<open>Sending\<close>

definition bump :: "nat \<Rightarrow> nat" where
  "bump w = (if w + 1 < 2 ^ 64 - 1 then w + 1 else w)"

lemma Looper_wake_eq: "Looper_wake st = st\<lparr>lp_wakes := bump (lp_wakes st)\<rparr>"
  by (simp add: Looper_wake_def bump_def)

text \<open>The message is at the front of the queue it is put in.\<close>

definition comes_first :: "int \<Rightarrow> envelope list \<Rightarrow> bool" where
  "comes_first t q \<longleftrightarrow> (case q of [] \<Rightarrow> True | e # _ \<Rightarrow> t < env_uptime e)"

lemma comes_first_iff: "comes_first t q \<longleftrightarrow> takeWhile (\<lambda>e. env_uptime e \<le> t) q = []"
  by (cases q) (auto simp: comes_first_def)

lemma enqueue_split:
  "enqueue m q = (let i = length (takeWhile (\<lambda>e. env_uptime e \<le> env_uptime m) q) in take i q @ [m] @ drop i q)"
  by (simp add: enqueue_def Let_def takeWhile_eq_take [symmetric] dropWhile_eq_drop [symmetric])

lemma queue_holds_cong:
  "mMessageEnvelopes st' = mMessageEnvelopes st \<Longrightarrow> lp_messages st' = lp_messages st \<Longrightarrow> queue_holds st' q = queue_holds st q"
  by (simp add: queue_holds_def)

definition queue_fits :: "nat \<Rightarrow> bool" where
  "queue_fits n \<longleftrightarrow> vec_fits envelope_type n"

lemma queue_fits_small: "queue_fits n \<Longrightarrow> n < 2 ^ 62"
  using vec_fits_bounds(1) [of envelope_type n n] by (simp add: queue_fits_def envelope_type_def plain_type_def)

lemma queue_fits_mono: "queue_fits n \<Longrightarrow> m \<le> n \<Longrightarrow> queue_fits m"
  by (simp add: queue_fits_def vec_fits_def envelope_type_def plain_type_def)

lemma sendMessageAtTime_enqueues:
  assumes holds: "queue_holds st q" and unlocked: "\<not> mLock st" and fits: "queue_fits (Suc (length q))"
  shows "\<exists>v hp. sendMessageAtTime t h w st = Inr (st\<lparr>mMessageEnvelopes := v, lp_messages := hp,
      lp_wakes := (if comes_first t q \<and> \<not> mSendingMessage st then bump else id) (lp_wakes st)\<rparr>) \<and>
    sb_fresh hp \<and>
    (vec_holds envelope_type hp v (enqueue \<lparr>env_uptime = t, env_handler = h, env_what = w\<rparr> q) \<or>
     \<not> has_memory (lp_messages st) \<and> vec_holds envelope_type hp v q) \<and>
    (sorted (map env_uptime q) \<longrightarrow>
       sorted (map env_uptime (enqueue \<lparr>env_uptime = t, env_handler = h, env_what = w\<rparr> q)))"
proof -
  let ?m = "\<lparr>env_uptime = t, env_handler = h, env_what = w\<rparr>" and ?v = "mMessageEnvelopes st" and ?hp = "lp_messages st"
  define i where "i = length (takeWhile (\<lambda>e. env_uptime e \<le> t) q)"
  have i: "i \<le> length q" by (simp add: i_def length_takeWhile_le)
  have small: "length q < 2 ^ 62" using queue_fits_small [OF fits] by simp
  have holds': "vec_holds envelope_type ?hp ?v q" "sb_fresh ?hp" using holds by (simp_all add: queue_holds_def)
  then have count: "unat (mCount ?v) = length q" by (simp add: vec_holds_def)
  have index: "send_index t ?v ?hp 0 (unat (mCount ?v)) = Inr i"
    using send_index_eq [OF holds'(1), of 0 "length q" t] small count by (simp add: i_def)
  have ui: "unat (of_nat i :: u64) = i" using i small by (intro unat_of_nat_64) simp
  have "vec_fits envelope_type (length q + unat (1 :: u64))" using fits by (simp add: queue_fits_def)
  from insertAt_list [OF holds', of "of_nat i" 1, unfolded ui, OF i _ this, of ?m]
  obtain ret v hp where ins: "insertAt envelope_type (Some (Outside ?m)) (of_nat i) 1 ?v ?hp = Inr (ret, v, hp)"
    and fresh: "sb_fresh hp"
    and out: "vec_holds envelope_type hp v (take i q @ [?m] @ drop i q) \<or>
      \<not> has_memory ?hp \<and> v = ?v \<and> vec_holds envelope_type hp ?v q"
    by auto
  have "take i q @ [?m] @ drop i q = enqueue ?m q" by (simp add: enqueue_split i_def Let_def)
  moreover have "i = 0 \<longleftrightarrow> comes_first t q" by (simp add: i_def comes_first_iff)
  ultimately show ?thesis
    using index ins fresh out unlocked sorted_enqueue [of q ?m]
    by (intro exI [of _ v] exI [of _ hp])
      (auto simp: sendMessageAtTime_def lp_lock_def lp_unlock_def Looper_wake_eq Let_def)
qed

text \<open>C4: \<open>sendMessageAtTime\<close> puts the message behind the messages that are due no later and before those that are due
  later, so the queue stays sorted and messages for the same time keep the order in which they were sent. It wakes
  the looper exactly if the message is the next one due and no message is being delivered, gives the lock
  back and touches nothing else. Only when the next \<open>malloc\<close> fails may the message be dropped, which the
  caller is not told.\<close>

theorem sendMessageAtTime_refines:
  assumes holds: "queue_holds st q" and unlocked: "\<not> mLock st" and fits: "queue_fits (Suc (length q))"
  shows "\<exists>v hp. sendMessageAtTime t h w st = Inr (st\<lparr>mMessageEnvelopes := v, lp_messages := hp,
      lp_wakes := (if comes_first t q \<and> \<not> mSendingMessage st then bump else id) (lp_wakes st)\<rparr>) \<and>
    sb_fresh hp \<and>
    (vec_holds envelope_type hp v (enqueue \<lparr>env_uptime = t, env_handler = h, env_what = w\<rparr> q) \<or>
     \<not> has_memory (lp_messages st) \<and> vec_holds envelope_type hp v q) \<and>
    (sorted (map env_uptime q) \<longrightarrow>
       sorted (map env_uptime (enqueue \<lparr>env_uptime = t, env_handler = h, env_what = w\<rparr> q)))"
  by (rule sendMessageAtTime_enqueues [OF assms])

text \<open>A looper that has just been made.\<close>

definition ex_looper :: "bool list \<Rightarrow> looper" where
  "ex_looper mallocs = (Looper_init False [] [] mallocs)\<lparr>mWakeEventFd := 3, mEpollFd := 4\<rparr>"

lemma ex_looper_holds: "queue_holds (ex_looper mallocs) []" "\<not> mLock (ex_looper mallocs)"
  by (simp_all add: queue_holds_def ex_looper_def Looper_init_def sb_fresh_def Vector_new_holds envelope_type_def
    plain_type_def)

lemma queue_fits_few: "n \<le> 2 ^ 33 \<Longrightarrow> queue_fits n"
  by (simp add: queue_fits_def vec_fits_def envelope_type_def plain_type_def)

theorem sendMessageAtTime_refines_witness:
  "\<exists>st. sendMessageAtTime 5 (Some 7) 1 (ex_looper [True]) = Inr st \<and> lp_wakes st = 1 \<and>
    queue_holds st [\<lparr>env_uptime = 5, env_handler = Some 7, env_what = 1\<rparr>]"
proof -
  have mem: "has_memory (lp_messages (ex_looper [True]))" "\<not> mSendingMessage (ex_looper [True])" "lp_wakes (ex_looper [True]) = 0"
    by (simp_all add: ex_looper_def Looper_init_def has_memory_def)
  have "queue_fits (Suc (length ([] :: envelope list)))" by (simp add: queue_fits_few)
  from sendMessageAtTime_refines [OF ex_looper_holds this, of 5 "Some 7" 1 "[True]"] mem
  show ?thesis by (auto simp: enqueue_def comes_first_def bump_def queue_holds_def)
qed

end
