(* ===== verification/Looper_Poll.thy ===== *)
theory Looper_Poll
  imports Looper_Props
begin

text \<open>
  The loops of the looper refined to operations on a sorted list: what polling delivers, in which order, and with
  which result; and the two ways in which the vector below the queue breaks that.
\<close>

section \<open>The abstract looper\<close>

text \<open>
  What a client sees: the queue, how often the clock was read, the counter of the wake event and the trace. The
  abstract loop traps when a handler is missing, as the code does, or when the fuel is used up; it has no result when
  a message is delivered while more than two are queued, which the vector below does not survive.
\<close>

record sched =
  sq_queue :: "envelope list"
  sq_reads :: nat
  sq_wakes :: nat
  sq_trace :: "looper_event list"

definition spec_put :: "bool \<Rightarrow> int \<Rightarrow> nat option \<Rightarrow> int \<Rightarrow> sched \<Rightarrow> sched" where
  "spec_put sending t h w a = a\<lparr>sq_queue := enqueue \<lparr>env_uptime = t, env_handler = h, env_what = w\<rparr> (sq_queue a),
     sq_wakes := (if comes_first t (sq_queue a) \<and> \<not> sending then bump else id) (sq_wakes a)\<rparr>"

fun spec_call :: "(nat \<Rightarrow> int) \<Rightarrow> bool \<Rightarrow> looper_call \<Rightarrow> sched \<Rightarrow> sched" where
  "spec_call clock sending (SendAt t h w) a = spec_put sending t h w a"
| "spec_call clock sending (Send h w) a =
     spec_put sending (clock (sq_reads a)) h w (a\<lparr>sq_reads := Suc (sq_reads a)\<rparr>)"
| "spec_call clock sending (SendDelayed d h w) a =
     spec_put sending (clock (sq_reads a) + d) h w (a\<lparr>sq_reads := Suc (sq_reads a)\<rparr>)"
| "spec_call clock sending Wake a = a\<lparr>sq_wakes := bump (sq_wakes a)\<rparr>"

definition spec_calls :: "(nat \<Rightarrow> int) \<Rightarrow> bool \<Rightarrow> looper_call list \<Rightarrow> sched \<Rightarrow> sched" where
  "spec_calls clock sending cs a = fold (spec_call clock sending) cs a"

primrec spec_loop ::
    "(nat \<Rightarrow> int) \<Rightarrow> (nat \<Rightarrow> int \<Rightarrow> looper_call list) \<Rightarrow> nat \<Rightarrow> int \<Rightarrow> sched \<Rightarrow> (int \<times> int \<times> sched) chk option" where
  "spec_loop clock handle 0 result a = Some (Inl OutOfFuel)"
| "spec_loop clock handle (Suc fuel) result a =
     (case sq_queue a of
        [] \<Rightarrow> Some (Inr (result, LLONG_MAX, a))
      | m # q \<Rightarrow>
          let now = clock (sq_reads a); a = a\<lparr>sq_reads := Suc (sq_reads a)\<rparr>
          in if now < env_uptime m then Some (Inr (result, env_uptime m, a))
             else if length q > 1 then None
             else
               case env_handler m of
                 None \<Rightarrow> Some (Inl NullDeref)
               | Some h \<Rightarrow>
                   spec_loop clock handle fuel POLL_CALLBACK
                     (spec_calls clock True (handle h (env_what m))
                       (a\<lparr>sq_queue := q, sq_trace := sq_trace a @ [Handled h (env_what m)]\<rparr>)))"

section \<open>Refinement\<close>

definition runs :: "looper \<Rightarrow> sched \<Rightarrow> bool" where
  "runs st a \<longleftrightarrow> queue_holds st (sq_queue a) \<and> lp_reads st = sq_reads a \<and> lp_wakes st = sq_wakes a \<and>
     lp_trace st = sq_trace a"

text \<open>What sending leaves alone.\<close>

definition frame ::
    "looper \<Rightarrow> vec \<times> vec \<times> bool \<times> nat \<times> int \<times> epoll_result list \<times> int" where
  "frame st = (mRequests st, mResponses st, mEpollRebuildRequired st, mResponseIndex st, mWakeEventFd st, lp_epoll st,
     mNextMessageUptime st)"

lemma sendMessageAtTime_uses_memory:
  assumes "sendMessageAtTime t h w st = Inr st'"
  shows "uses_memory 2 (lp_messages st) (lp_messages st')"
proof -
  let ?m = "\<lparr>env_uptime = t, env_handler = h, env_what = w\<rparr>"
  from assms have "\<not> mLock st" by (simp add: sendMessageAtTime_def lp_lock_def split: if_splits)
  with assms obtain i where i: "send_index t (mMessageEnvelopes st) (lp_messages st) 0
      (unat (mCount (mMessageEnvelopes st))) = Inr i"
    by (auto simp: sendMessageAtTime_def lp_lock_def bindE_Inr_iff)
  with assms \<open>\<not> mLock st\<close> obtain r where ins: "insertAt envelope_type (Some (Outside ?m)) (of_nat i) 1
      (mMessageEnvelopes st) (lp_messages st) = Inr r"
    by (auto simp: sendMessageAtTime_def lp_lock_def bindE_Inr_iff)
  obtain ret v hp where r: "r = (ret, v, hp)" by (cases r)
  have "lp_messages st' = hp"
    using assms \<open>\<not> mLock st\<close> i ins r
    by (auto simp: sendMessageAtTime_def lp_lock_def lp_unlock_def Looper_wake_eq Let_def split: if_splits)
  with insertAt_uses_memory [OF ins [unfolded r]] show ?thesis by simp
qed

lemma send_runs:
  assumes "runs st a" and "\<not> mLock st" and "queue_fits (Suc (length (sq_queue a)))"
    and "memory_for (n + 2) (lp_messages st)"
  shows "\<exists>st'. sendMessageAtTime t h w st = Inr st' \<and> runs st' (spec_put (mSendingMessage st) t h w a) \<and>
    memory_for n (lp_messages st') \<and> \<not> mLock st' \<and> mSendingMessage st' = mSendingMessage st \<and> frame st' = frame st"
proof -
  have "queue_holds st (sq_queue a)" using assms(1) by (simp add: runs_def)
  from sendMessageAtTime_enqueues [OF this assms(2,3), of t h w] memory_for_has [OF assms(4)]
  obtain v hp where send: "sendMessageAtTime t h w st = Inr (st\<lparr>mMessageEnvelopes := v, lp_messages := hp,
      lp_wakes := (if comes_first t (sq_queue a) \<and> \<not> mSendingMessage st then bump else id) (lp_wakes st)\<rparr>)"
    and "sb_fresh hp"
    "vec_holds envelope_type hp v (enqueue \<lparr>env_uptime = t, env_handler = h, env_what = w\<rparr> (sq_queue a))"
    by auto
  with assms(1,2) memory_for_after [OF sendMessageAtTime_uses_memory [OF send], of n] assms(4)
  show ?thesis by (auto simp: runs_def queue_holds_def spec_put_def frame_def)
qed

lemma length_spec_put [simp]: "length (sq_queue (spec_put sending t h w a)) = Suc (length (sq_queue a))"
  by (simp add: spec_put_def)

lemma length_spec_call:
  "length (sq_queue (spec_call clock sending c a)) = length (sq_queue a) + (if c = Wake then 0 else 1)"
  by (cases c) simp_all

lemma length_spec_calls:
  "length (sq_queue (spec_calls clock sending cs a)) = length (sq_queue a) + length (filter (\<lambda>c. c \<noteq> Wake) cs)"
  by (induction cs arbitrary: a) (simp_all add: spec_calls_def length_spec_call)

lemma call_runs:
  assumes "runs st a" and "\<not> mLock st" and "queue_fits (length (sq_queue (spec_call clock (mSendingMessage st) c a)))"
    and "memory_for (n + (if c = Wake then 0 else 2)) (lp_messages st)"
  shows "\<exists>st'. call_looper clock c st = Inr st' \<and> runs st' (spec_call clock (mSendingMessage st) c a) \<and>
    memory_for n (lp_messages st') \<and> \<not> mLock st' \<and> mSendingMessage st' = mSendingMessage st \<and> frame st' = frame st"
proof -
  have tick: "runs (snd (systemTime clock st)) (a\<lparr>sq_reads := Suc (sq_reads a)\<rparr>)"
    "fst (systemTime clock st) = clock (sq_reads a)"
    using assms(1) by (simp_all add: runs_def systemTime_def queue_holds_def)
  have rest: "\<not> mLock (snd (systemTime clock st))" "mSendingMessage (snd (systemTime clock st)) = mSendingMessage st"
    "frame (snd (systemTime clock st)) = frame st" "lp_messages (snd (systemTime clock st)) = lp_messages st"
    using assms(2) by (simp_all add: systemTime_def frame_def)
  show ?thesis
  proof (cases c)
    case (SendAt t h w)
    with assms send_runs [OF assms(1,2), of n t h w] show ?thesis by (simp add: length_spec_call)
  next
    case (Send h w)
    with assms send_runs [OF tick(1) rest(1), of n "clock (sq_reads a)" h w] rest tick show ?thesis
      by (simp add: length_spec_call sendMessage_def case_prod_beta)
  next
    case (SendDelayed d h w)
    with assms send_runs [OF tick(1) rest(1), of n "clock (sq_reads a) + d" h w] rest tick show ?thesis
      by (simp add: length_spec_call sendMessageDelayed_def case_prod_beta)
  next
    case Wake
    with assms show ?thesis by (simp add: Looper_wake_eq runs_def queue_holds_def frame_def)
  qed
qed

lemma calls_run:
  assumes "runs st a" and "\<not> mLock st"
    and "queue_fits (length (sq_queue (spec_calls clock (mSendingMessage st) cs a)))"
    and "memory_for (n + 2 * length (filter (\<lambda>c. c \<noteq> Wake) cs)) (lp_messages st)"
  shows "\<exists>st'. call_all clock cs st = Inr st' \<and> runs st' (spec_calls clock (mSendingMessage st) cs a) \<and>
    memory_for n (lp_messages st') \<and> \<not> mLock st' \<and> mSendingMessage st' = mSendingMessage st \<and> frame st' = frame st"
  using assms
proof (induction cs arbitrary: st a)
  case (Cons c cs)
  let ?s = "mSendingMessage st" and ?n = "n + 2 * length (filter (\<lambda>c. c \<noteq> Wake) cs)"
  have "length (sq_queue (spec_call clock ?s c a)) \<le> length (sq_queue (spec_calls clock ?s (c # cs) a))"
    by (simp add: spec_calls_def length_spec_calls [unfolded spec_calls_def])
  then have "queue_fits (length (sq_queue (spec_call clock ?s c a)))" by (rule queue_fits_mono [OF Cons.prems(3)])
  moreover have "memory_for (?n + (if c = Wake then 0 else 2)) (lp_messages st)"
    using Cons.prems(4) by (rule memory_for_less) simp
  ultimately obtain st1 where st1: "call_looper clock c st = Inr st1" "runs st1 (spec_call clock ?s c a)"
    "memory_for ?n (lp_messages st1)" "\<not> mLock st1" "mSendingMessage st1 = ?s" "frame st1 = frame st"
    using call_runs [OF Cons.prems(1,2), of clock c ?n] by blast
  have "queue_fits (length (sq_queue (spec_calls clock (mSendingMessage st1) cs (spec_call clock ?s c a))))"
    using Cons.prems(3) st1(5) by (simp add: spec_calls_def)
  from Cons.IH [OF st1(2,4) this st1(3)] st1 show ?case by (auto simp: spec_calls_def)
qed (simp add: spec_calls_def)

section \<open>Delivering\<close>

lemma front_removed:
  assumes holds: "queue_holds st (m # q)" and len: "length q \<le> 1" and mem: "memory_for (n + 2) (lp_messages st)"
  shows "\<exists>v hp. removeItemsAt envelope_type 0 1 (mMessageEnvelopes st) (lp_messages st) = Inr (0, v, hp) \<and>
    sb_fresh hp \<and> vec_holds envelope_type hp v q \<and> memory_for n hp"
proof -
  have holds': "vec_holds envelope_type (lp_messages st) (mMessageEnvelopes st) (m # q)" "sb_fresh (lp_messages st)"
    using holds by (simp_all add: queue_holds_def)
  have "vec_fits envelope_type (length (m # q))" using len queue_fits_few [of "length (m # q)"] by (simp add: queue_fits_def)
  moreover have "removal_safe envelope_type (lp_messages st) (mMessageEnvelopes st) (length (m # q))
      (unat (0 :: u64)) (unat (1 :: u64))"
    using len by (simp add: removal_safe_def)
  moreover have "without (unat (0 :: u64)) (unat (1 :: u64)) (m # q) = q" by (simp add: without_def)
  ultimately obtain v hp where rem: "removeItemsAt envelope_type 0 1 (mMessageEnvelopes st) (lp_messages st) = Inr (0, v, hp)"
    "sb_fresh hp" "vec_holds envelope_type hp v q"
    using removeItemsAt_list [OF holds', of 0 1] memory_for_has [OF mem] by auto
  with memory_for_after [OF removeItemsAt_uses_memory [OF rem(1)] mem] show ?thesis by blast
qed

text \<open>Each turn of the loop asks for the memory of one removal and of the messages the handler sends.\<close>

fun sent_in_loop :: "(nat \<Rightarrow> int) \<Rightarrow> (nat \<Rightarrow> int \<Rightarrow> looper_call list) \<Rightarrow> nat \<Rightarrow> sched \<Rightarrow> nat" where
  "sent_in_loop clock handle 0 a = 0"
| "sent_in_loop clock handle (Suc fuel) a =
     (case sq_queue a of
        [] \<Rightarrow> 0
      | m # q \<Rightarrow>
          (if clock (sq_reads a) < env_uptime m then 0
           else if env_handler m = None then 1
           else let cs = handle (the (env_handler m)) (env_what m) in
             1 + length (filter (\<lambda>c. c \<noteq> Wake) cs) +
             sent_in_loop clock handle fuel (spec_calls clock True cs
               (a\<lparr>sq_reads := Suc (sq_reads a), sq_queue := q,
                  sq_trace := sq_trace a @ [Handled (the (env_handler m)) (env_what m)]\<rparr>))))"

lemma message_loop_runs:
  assumes "runs st a" and "mLock st" and "\<not> mSendingMessage st" and "mNextMessageUptime st = LLONG_MAX"
    and "spec_loop clock handle fuel result a = Some r"
    and "memory_for (2 * sent_in_loop clock handle fuel a) (lp_messages st)"
    and "\<And>h w. length (handle h w) < 2 ^ 32" and "length (sq_queue a) \<le> 2 ^ 32"
  shows "case r of
      Inl e \<Rightarrow> message_loop clock handle fuel result st = Inl e
    | Inr (res, nxt, a') \<Rightarrow>
        (\<exists>st'. message_loop clock handle fuel result st = Inr (res, st') \<and> runs st' a' \<and> mLock st' \<and>
          \<not> mSendingMessage st' \<and> mNextMessageUptime st' = nxt \<and> frame st' = frame (st\<lparr>mNextMessageUptime := nxt\<rparr>))"
  using assms
proof (induction fuel arbitrary: st a result)
  case (Suc fuel)
  let ?v = "mMessageEnvelopes st" and ?hp = "lp_messages st"
  have holds: "queue_holds st (sq_queue a)" "vec_holds envelope_type ?hp ?v (sq_queue a)"
    using Suc.prems(1) by (simp_all add: runs_def queue_holds_def)
  then have count: "unat (mCount ?v) = length (sq_queue a)" by (simp add: vec_holds_def)
  show ?case
  proof (cases "sq_queue a")
    case Nil
    then have "mCount ?v = 0" using count by (simp add: unat_eq_0)
    with Nil Suc.prems show ?thesis by (auto simp: frame_def)
  next
    case (Cons m q)
    have nonzero: "mCount ?v \<noteq> 0" using count Cons by auto
    let ?st1 = "snd (systemTime clock st)" and ?now = "clock (sq_reads a)"
    have tick: "systemTime clock st = (?now, st\<lparr>lp_reads := Suc (sq_reads a)\<rparr>)"
      using Suc.prems(1) by (simp add: systemTime_def runs_def)
    have front: "Vector_at 0 ?v ?hp = Inr m"
      using Vector_at_holds [OF holds(2), of 0] Cons Suc.prems(8) by simp
    show ?thesis
    proof (cases "?now < env_uptime m")
      case True
      with Cons Suc.prems(5) have "r = Inr (result, env_uptime m, a\<lparr>sq_reads := Suc (sq_reads a)\<rparr>)"
        by (simp add: Let_def)
      with True nonzero tick front Suc.prems(1-4) show ?thesis
        by (simp add: runs_def queue_holds_def frame_def)
    next
      case False
      with Cons Suc.prems(5) have short: "length q \<le> 1" by (auto simp: Let_def split: if_splits)
      show ?thesis
      proof (cases "env_handler m")
        case None
        with Cons False have "sent_in_loop clock handle (Suc fuel) a = 1" by simp
        then have "memory_for (0 + 2) ?hp" using Suc.prems(6) by (metis add_0 mult.right_neutral)
        then obtain v hp where "removeItemsAt envelope_type 0 1 ?v ?hp = Inr (0, v, hp)"
          using front_removed [OF holds(1) [unfolded Cons] short] by blast
        moreover have "r = Inl NullDeref" using Cons False None short Suc.prems(5) by (simp add: Let_def)
        ultimately show ?thesis using nonzero tick front False None by (simp add: not_less Let_def derefE_def)
      next
      case h: (Some h)
      let ?cs = "handle h (env_what m)"
      let ?a2 = "a\<lparr>sq_reads := Suc (sq_reads a), sq_queue := q, sq_trace := sq_trace a @ [Handled h (env_what m)]\<rparr>"
      let ?a3 = "spec_calls clock True ?cs ?a2"
      define k where "k = length (filter (\<lambda>c. c \<noteq> Wake) ?cs)"
      have next_spec: "spec_loop clock handle fuel POLL_CALLBACK ?a3 = Some r"
        using Suc.prems(5) Cons False h short by (simp add: Let_def)
      have budget: "2 * sent_in_loop clock handle (Suc fuel) a = 2 * sent_in_loop clock handle fuel ?a3 + 2 * k + 2"
        using Cons False h by (simp add: k_def Let_def)
      obtain v hp where rem: "removeItemsAt envelope_type 0 1 ?v ?hp = Inr (0, v, hp)" "sb_fresh hp"
        "vec_holds envelope_type hp v q" "memory_for (2 * sent_in_loop clock handle fuel ?a3 + 2 * k) hp"
        using front_removed [OF holds(1) [unfolded Cons] short, of "2 * sent_in_loop clock handle fuel ?a3 + 2 * k"]
          Suc.prems(6) [unfolded budget] by blast
      let ?st2 = "lp_note (Handled h (env_what m)) (lp_unlock (st\<lparr>lp_reads := Suc (sq_reads a), mMessageEnvelopes := v,
        lp_messages := hp, mSendingMessage := True\<rparr>))"
      have st2: "runs ?st2 ?a2" "\<not> mLock ?st2" "mSendingMessage ?st2" "lp_messages ?st2 = hp" "frame ?st2 = frame st"
        using Suc.prems(1) rem by (simp_all add: runs_def queue_holds_def lp_note_def lp_unlock_def frame_def)
      have "k < 2 ^ 32" using Suc.prems(7) [of h "env_what m"] length_filter_le [of _ ?cs] unfolding k_def
        by (rule le_less_trans [rotated])
      then have len3: "length (sq_queue ?a3) \<le> 2 ^ 32" using short by (simp add: length_spec_calls k_def)
      then have "queue_fits (length (sq_queue (spec_calls clock (mSendingMessage ?st2) ?cs ?a2)))"
        using st2(3) queue_fits_few by simp
      from calls_run [OF st2(1,2) this, of "2 * sent_in_loop clock handle fuel ?a3"] rem(4) st2 k_def
      obtain st3 where st3: "call_all clock ?cs ?st2 = Inr st3" "runs st3 ?a3"
        "memory_for (2 * sent_in_loop clock handle fuel ?a3) (lp_messages st3)" "\<not> mLock st3" "frame st3 = frame st"
        by auto
      let ?st4 = "st3\<lparr>mLock := True, mSendingMessage := False\<rparr>"
      have "runs ?st4 ?a3" "mLock ?st4" "\<not> mSendingMessage ?st4" "mNextMessageUptime ?st4 = LLONG_MAX"
        "lp_messages ?st4 = lp_messages st3" "frame ?st4 = frame st"
        using st3(2,5) Suc.prems(4) by (simp_all add: runs_def queue_holds_def frame_def)
      then have "case r of
          Inl e \<Rightarrow> message_loop clock handle fuel POLL_CALLBACK ?st4 = Inl e
        | Inr (res, nxt, a') \<Rightarrow>
            (\<exists>st'. message_loop clock handle fuel POLL_CALLBACK ?st4 = Inr (res, st') \<and> runs st' a' \<and> mLock st' \<and>
              \<not> mSendingMessage st' \<and> mNextMessageUptime st' = nxt \<and> frame st' = frame (?st4\<lparr>mNextMessageUptime := nxt\<rparr>))"
        using Suc.IH [OF _ _ _ _ next_spec, of ?st4] st3(3) Suc.prems(7) len3 by simp
      moreover have "frame (?st4\<lparr>mNextMessageUptime := nxt\<rparr>) = frame (st\<lparr>mNextMessageUptime := nxt\<rparr>)" for nxt
        using st3(5) by (simp add: frame_def)
      moreover have "message_loop clock handle (Suc fuel) result st = message_loop clock handle fuel POLL_CALLBACK ?st4"
        using nonzero tick front False rem(1) h st3(1,4) by (simp add: lp_lock_def not_less Let_def)
      ultimately show ?thesis by (cases r) (auto simp del: message_loop.simps)
      qed
    qed
  qed
qed (auto split: sum.splits)

section \<open>Polling\<close>

definition spec_timeout :: "(nat \<Rightarrow> int) \<Rightarrow> int \<Rightarrow> int \<Rightarrow> sched \<Rightarrow> int \<times> sched" where
  "spec_timeout clock timeoutMillis nxt a =
     (if timeoutMillis \<noteq> 0 \<and> nxt \<noteq> LLONG_MAX then
        let ms = toMillisecondTimeoutDelay (clock (sq_reads a)) nxt
        in (if 0 \<le> ms \<and> (timeoutMillis < 0 \<or> ms < timeoutMillis) then ms else timeoutMillis,
            a\<lparr>sq_reads := Suc (sq_reads a)\<rparr>)
      else (timeoutMillis, a))"

text \<open>Waiting, and what the events mean when no descriptor but that of the wake event is registered.\<close>

definition spec_event :: "int \<Rightarrow> epoll_result \<Rightarrow> int \<times> bool" where
  "spec_event wakeFd r =
     (case r of
        EpollFailed interrupted \<Rightarrow> (if interrupted then POLL_WAKE else POLL_ERROR, False)
      | EpollEvents evs \<Rightarrow>
          if evs = [] then (POLL_TIMEOUT, False)
          else (POLL_WAKE, \<exists>(fd, e) \<in> set (take EPOLL_MAX_EVENTS evs). fd = wakeFd \<and> e AND EPOLLIN \<noteq> 0))"

definition spec_wait :: "(nat \<Rightarrow> int) \<Rightarrow> int \<Rightarrow> int \<Rightarrow> int \<Rightarrow> epoll_result \<Rightarrow> sched \<Rightarrow> int \<times> sched" where
  "spec_wait clock timeoutMillis nxt wakeFd r a =
     (let (t, a) = spec_timeout clock timeoutMillis nxt a; (result, woken) = spec_event wakeFd r
      in (result, a\<lparr>sq_trace := sq_trace a @ [EpollWait t], sq_wakes := (if woken then 0 else sq_wakes a)\<rparr>))"

definition next_epoll :: "looper \<Rightarrow> epoll_result" where
  "next_epoll st = (case lp_epoll st of [] \<Rightarrow> EpollEvents [] | r # _ \<Rightarrow> r)"

text \<open>A looper between two polls: no descriptors registered, as the code has no way to do so, and the lock free.\<close>

definition quiet :: "looper \<Rightarrow> bool" where
  "quiet st \<longleftrightarrow> mRequests st = Vector_new request_type \<and> mResponses st = Vector_new response_type \<and>
     \<not> mEpollRebuildRequired st \<and> \<not> mLock st \<and> \<not> mSendingMessage st"

lemma no_responses: "mCount (Vector_new ty) = 0" "mStorage (Vector_new ty) = None"
  by (simp_all add: Vector_new_def VectorImpl_new_def)

lemma poll_events_quiet:
  "mRequests st = Vector_new request_type \<Longrightarrow>
   poll_events evs st = Inr (if \<exists>(fd, e) \<in> set evs. fd = mWakeEventFd st \<and> e AND EPOLLIN \<noteq> 0 then st\<lparr>lp_wakes := 0\<rparr> else st)"
proof (induction evs arbitrary: st)
  case (Cons ev evs)
  have search: "indexOfKey (<) default_request fd (mRequests st) (lp_requests st) = Inr NAME_NOT_FOUND" for fd :: int
    by (simp add: Cons.prems indexOfKey_def SortedVector_indexOf_def sorted_indexOf_def indexOrderOf_def no_responses)
  have awake: "mRequests (awoken st) = Vector_new request_type" "mWakeEventFd (awoken st) = mWakeEventFd st"
    using Cons.prems by (simp_all add: awoken_def)
  obtain fd e where ev: "ev = (fd, e)" by (cases ev)
  show ?case
    using Cons.IH [OF Cons.prems] Cons.IH [OF awake(1)] awake(2) search
    by (cases "fd = mWakeEventFd st \<and> e AND EPOLLIN \<noteq> 0") (auto simp: ev awoken_def)
qed simp

lemma poll_dispatch_quiet:
  assumes "mRequests st = Vector_new request_type" and "\<not> mEpollRebuildRequired st"
  shows "poll_dispatch r st = Inr (fst (spec_event (mWakeEventFd st) r),
    if snd (spec_event (mWakeEventFd st) r) then st\<lparr>lp_wakes := 0\<rparr> else st)"
  using assms by (cases r) (simp_all add: poll_dispatch_def spec_event_def poll_events_quiet)

lemma poll_timeout_runs:
  assumes "runs st a"
  shows "\<exists>st'. poll_timeout clock timeoutMillis st = (fst (spec_timeout clock timeoutMillis (mNextMessageUptime st) a), st') \<and>
    runs st' (snd (spec_timeout clock timeoutMillis (mNextMessageUptime st) a)) \<and> st' = st\<lparr>lp_reads := lp_reads st'\<rparr>"
  using assms
  by (auto simp: poll_timeout_def spec_timeout_def systemTime_def Let_def runs_def queue_holds_def)

text \<open>The first part of \<open>pollInner\<close>, up to the loop that delivers messages.\<close>

lemma pollInner_waits:
  assumes quiet: "quiet st" and runs: "runs st a"
    and wait: "spec_wait clock timeoutMillis (mNextMessageUptime st) (mWakeEventFd st) (next_epoll st) a = (result, a1)"
  obtains st1 where
    "pollInner clock handle fuel timeoutMillis st =
       bindE (message_loop clock handle fuel result st1) (\<lambda>(res, st).
       bindE (response_loop 0 (unat (mCount (mResponses (lp_unlock st)))) (lp_unlock st)) (\<lambda>st. Inr (res, st)))"
    "runs st1 a1" "mLock st1" "\<not> mSendingMessage st1" "mNextMessageUptime st1 = LLONG_MAX"
    "mRequests st1 = Vector_new request_type" "mResponses st1 = Vector_new response_type" "\<not> mEpollRebuildRequired st1"
    "mResponseIndex st1 = 0" "lp_messages st1 = lp_messages st" "mMessageEnvelopes st1 = mMessageEnvelopes st"
proof -
  let ?t = "spec_timeout clock timeoutMillis (mNextMessageUptime st) a"
  obtain st0 where pt: "poll_timeout clock timeoutMillis st = (fst ?t, st0)" "runs st0 (snd ?t)"
    "st0 = st\<lparr>lp_reads := lp_reads st0\<rparr>"
    using poll_timeout_runs [OF runs] by blast
  have st0: "mRequests st0 = Vector_new request_type" "mResponses st0 = Vector_new response_type"
    "\<not> mEpollRebuildRequired st0" "\<not> mLock st0" "\<not> mSendingMessage st0" "lp_epoll st0 = lp_epoll st"
    "mWakeEventFd st0 = mWakeEventFd st" "lp_messages st0 = lp_messages st" "mMessageEnvelopes st0 = mMessageEnvelopes st"
    using quiet by (subst pt(3), simp add: quiet_def)+
  let ?a0 = "(snd ?t)\<lparr>sq_trace := sq_trace (snd ?t) @ [EpollWait (fst ?t)]\<rparr>"
  define waited where "waited = epoll_wait (fst ?t) (st0\<lparr>mResponses := Vector_new response_type, mResponseIndex := 0, mPolling := True\<rparr>)"
  define st1 where "st1 = (snd waited)\<lparr>mPolling := False, mLock := True\<rparr>"
  have waited: "fst waited = next_epoll st" "\<not> mLock (snd waited)"
    using st0 by (simp_all add: waited_def epoll_wait_def next_epoll_def lp_note_def Let_def split: list.split)
  have st1: "runs st1 ?a0" "mRequests st1 = Vector_new request_type" "mResponses st1 = Vector_new response_type"
    "\<not> mEpollRebuildRequired st1" "mLock st1" "\<not> mSendingMessage st1" "mWakeEventFd st1 = mWakeEventFd st"
    "mResponseIndex st1 = 0" "lp_messages st1 = lp_messages st" "mMessageEnvelopes st1 = mMessageEnvelopes st"
    using pt(2) st0
    by (simp_all add: st1_def waited_def epoll_wait_def lp_note_def Let_def runs_def queue_holds_def split: list.split)
  have inner: "pollInner clock handle fuel timeoutMillis st =
      bindE (poll_dispatch (next_epoll st) st1) (\<lambda>(result, st).
      bindE (message_loop clock handle fuel result (st\<lparr>mNextMessageUptime := LLONG_MAX\<rparr>)) (\<lambda>(res, st).
      bindE (response_loop 0 (unat (mCount (mResponses (lp_unlock st)))) (lp_unlock st)) (\<lambda>st. Inr (res, st))))"
    using pt(1) st0 waited
    by (simp add: pollInner_def vec_clear_def vec_shrink_def no_responses st1_def lp_lock_def waited_def [symmetric]
      case_prod_beta Let_def)
  let ?e = "spec_event (mWakeEventFd st) (next_epoll st)"
  define st2 where "st2 = (if snd ?e then st1\<lparr>lp_wakes := 0\<rparr> else st1)\<lparr>mNextMessageUptime := LLONG_MAX\<rparr>"
  have disp: "poll_dispatch (next_epoll st) st1 = Inr (result, if snd ?e then st1\<lparr>lp_wakes := 0\<rparr> else st1)"
    using poll_dispatch_quiet [OF st1(2,4), of "next_epoll st"] wait st1(7) by (simp add: spec_wait_def case_prod_beta)
  have "a1 = ?a0\<lparr>sq_wakes := (if snd ?e then 0 else sq_wakes ?a0)\<rparr>" using wait by (auto simp: spec_wait_def case_prod_beta)
  then have "runs st2 a1" using st1(1) by (simp add: st2_def runs_def queue_holds_def)
  moreover have "mLock st2" "\<not> mSendingMessage st2" "mNextMessageUptime st2 = LLONG_MAX"
    "mRequests st2 = Vector_new request_type" "mResponses st2 = Vector_new response_type" "\<not> mEpollRebuildRequired st2"
    "mResponseIndex st2 = 0" "lp_messages st2 = lp_messages st" "mMessageEnvelopes st2 = mMessageEnvelopes st"
    using st1 by (simp_all add: st2_def)
  ultimately show thesis using inner disp by (intro that [of st2]) (simp_all add: st2_def)
qed

lemma spec_wait_facts:
  assumes "spec_wait clock timeoutMillis nxt wakeFd r a = (result, a1)"
  shows "result < 0" "sq_queue a1 = sq_queue a"
    "\<exists>t. sq_trace a1 = sq_trace a @ [EpollWait t]" "sq_reads a \<le> sq_reads a1"
  using assms
  by (auto simp: spec_wait_def spec_event_def spec_timeout_def Let_def split: epoll_result.splits if_splits)

lemma spec_loop_facts:
  assumes "spec_loop clock handle fuel result a = Some (Inr (res, nxt, a'))"
  shows "res = result \<or> res = POLL_CALLBACK"
    "case sq_queue a' of [] \<Rightarrow> nxt = LLONG_MAX
       | m # _ \<Rightarrow> nxt = env_uptime m \<and> 0 < sq_reads a' \<and> clock (sq_reads a' - 1) < nxt"
  using assms
  by (induction fuel arbitrary: result a) (auto simp: Let_def split: list.splits option.splits if_splits)

lemma pollOnce_spec_loop:
  assumes quiet: "quiet st" and runs: "runs st a" and len: "length (sq_queue a) \<le> 2 ^ 32"
    and wait: "spec_wait clock timeoutMillis (mNextMessageUptime st) (mWakeEventFd st) (next_epoll st) a = (result, a1)"
    and loop: "spec_loop clock handle fuel result a1 = Some r"
    and calls: "\<And>h w. length (handle h w) < 2 ^ 32" and fuel: "2 \<le> fuel"
    and memory: "memory_for (2 * sent_in_loop clock handle fuel a1) (lp_messages st)"
    and index: "mResponseIndex st = 0"
  shows "case r of
      Inl e \<Rightarrow> pollOnce clock handle fuel timeoutMillis st = Inl e
    | Inr (res, nxt, a') \<Rightarrow>
        (\<exists>st'. pollOnce clock handle fuel timeoutMillis st = Inr ((res, 0, 0, 0), st') \<and> runs st' a' \<and>
          quiet st' \<and> mNextMessageUptime st' = nxt \<and>
          (case sq_queue a' of [] \<Rightarrow> nxt = LLONG_MAX | m # _ \<Rightarrow> nxt = env_uptime m \<and> clock (sq_reads a' - 1) < nxt))"
proof -
  obtain st1 where inner: "pollInner clock handle fuel timeoutMillis st =
       bindE (message_loop clock handle fuel result st1) (\<lambda>(res, st).
       bindE (response_loop 0 (unat (mCount (mResponses (lp_unlock st)))) (lp_unlock st)) (\<lambda>st. Inr (res, st)))"
    and st1: "runs st1 a1" "mLock st1" "\<not> mSendingMessage st1" "mNextMessageUptime st1 = LLONG_MAX"
    "mRequests st1 = Vector_new request_type" "mResponses st1 = Vector_new response_type" "\<not> mEpollRebuildRequired st1"
    "mResponseIndex st1 = 0" "lp_messages st1 = lp_messages st"
    by (rule pollInner_waits [OF quiet runs wait])
  have "length (sq_queue a1) \<le> 2 ^ 32" using spec_wait_facts(2) [OF wait] len by simp
  note run = message_loop_runs [OF st1(1-4) loop memory [folded st1(9)] calls this]
  obtain n where n: "fuel = Suc (Suc n)" using fuel by (metis Suc_le_D numeral_2_eq_2 Suc_le_mono)
  show ?thesis
  proof (cases r)
    case (Inl e)
    then have "pollInner clock handle fuel timeoutMillis st = Inl e" using run inner by simp
    then show ?thesis using Inl quiet index by (simp add: n pollOnce_def quiet_def no_responses)
  next
    case (Inr r')
    obtain res nxt a' where r': "r' = (res, nxt, a')" by (cases r')
    obtain st2 where st2: "message_loop clock handle fuel result st1 = Inr (res, st2)" "runs st2 a'" "mLock st2"
      "\<not> mSendingMessage st2" "mNextMessageUptime st2 = nxt" "frame st2 = frame (st1\<lparr>mNextMessageUptime := nxt\<rparr>)"
      using run by (auto simp: Inr r')
    have same: "mRequests st2 = Vector_new request_type" "mResponses st2 = Vector_new response_type"
      "\<not> mEpollRebuildRequired st2" "mResponseIndex st2 = 0"
      using st2(6) st1(5-8) by (simp_all add: frame_def)
    have "pollInner clock handle fuel timeoutMillis st = Inr (res, lp_unlock st2)"
      using inner st2(1) same(2) by (simp add: no_responses lp_unlock_def)
    moreover have "res < 0" using spec_loop_facts(1) [OF loop [unfolded Inr r']] spec_wait_facts(1) [OF wait] by auto
    ultimately have "pollOnce clock handle fuel timeoutMillis st = Inr ((res, 0, 0, 0), lp_unlock st2)"
      using quiet same(2,4) index by (simp add: n pollOnce_def quiet_def no_responses lp_unlock_def)
    moreover have "runs (lp_unlock st2) a'" using st2(2) by (simp add: runs_def queue_holds_def lp_unlock_def)
    moreover have "quiet (lp_unlock st2)" using same st2(4) by (simp add: quiet_def lp_unlock_def)
    moreover have "mNextMessageUptime (lp_unlock st2) = nxt" using st2(5) by (simp add: lp_unlock_def)
    ultimately show ?thesis using spec_loop_facts(2) [OF loop [unfolded Inr r']] by (auto simp: Inr r' split: list.splits)
  qed
qed

text \<open>C7: polling is the loop on the sorted list. The looper is between two polls, with no descriptor of a client registered, as nothing
  in the code registers one; there is memory for the removals and for what handlers send; and no more than two messages are queued whenever
  one is delivered, so that \<open>spec_loop\<close> has a result; the queue has at most 2^32 messages, and a handler makes fewer calls than that. \<open>pollOnce\<close> first waits for \<open>timeoutMillis\<close>, or until the time in
  \<open>mNextMessageUptime\<close> if that is set and comes earlier (\<open>spec_wait\<close>; it was noted by the poll before, so it does not count messages sent since
  then, for which there is the wake event). Then it delivers what is due, in order, including what handlers
  send meanwhile, returns after one \<open>pollInner\<close> with its result, and leaves in \<open>mNextMessageUptime\<close> the time of the first message that is
  left, which was not yet due. A message that is due and has no handler makes it dereference a null pointer; and if the fuel, one unit for
  each message, is used up in the abstract loop it is used up in the code.\<close>

theorem pollOnce_refines:
  assumes quiet: "quiet st" and runs: "runs st a" and len: "length (sq_queue a) \<le> 2 ^ 32"
    and wait: "spec_wait clock timeoutMillis (mNextMessageUptime st) (mWakeEventFd st) (next_epoll st) a = (result, a1)"
    and loop: "spec_loop clock handle fuel result a1 = Some r"
    and calls: "\<And>h w. length (handle h w) < 2 ^ 32" and fuel: "2 \<le> fuel"
    and memory: "memory_for (2 * sent_in_loop clock handle fuel a1) (lp_messages st)"
    and index: "mResponseIndex st = 0"
  shows "case r of
      Inl e \<Rightarrow> pollOnce clock handle fuel timeoutMillis st = Inl e
    | Inr (res, nxt, a') \<Rightarrow>
        (\<exists>st'. pollOnce clock handle fuel timeoutMillis st = Inr ((res, 0, 0, 0), st') \<and> runs st' a' \<and>
          quiet st' \<and> mNextMessageUptime st' = nxt \<and>
          (case sq_queue a' of [] \<Rightarrow> nxt = LLONG_MAX | m # _ \<Rightarrow> nxt = env_uptime m \<and> clock (sq_reads a' - 1) < nxt))"
  by (rule pollOnce_spec_loop [OF assms])

text \<open>Two messages, of which the first is due; its handler sends a third for later.\<close>

definition ex_queue :: "envelope list" where
  "ex_queue = [\<lparr>env_uptime = 5, env_handler = Some 7, env_what = 1\<rparr>, \<lparr>env_uptime = 9, env_handler = Some 7, env_what = 2\<rparr>]"

definition ex_waiting :: "bool list \<Rightarrow> envelope list \<Rightarrow> looper" where
  "ex_waiting mallocs q = (ex_looper mallocs)\<lparr>
     mMessageEnvelopes := (Vector_new envelope_type)\<lparr>mStorage := Some 0, mCount := of_nat (length q)\<rparr>,
     lp_messages := \<lparr>hp_bufs = [0 \<mapsto> \<lparr>mRefs = 1, mSize = 96, mClientMetadata = 0,
         sb_data = map Val q @ replicate (4 - length q) Raw\<rparr>], hp_next = 1, hp_malloc = mallocs\<rparr>\<rparr>"

definition ex_handle :: "nat \<Rightarrow> int \<Rightarrow> looper_call list" where
  "ex_handle h w = (if w = 1 then [SendDelayed 20 (Some 7) 3, Wake] else [])"

lemma ex_waiting_holds:
  assumes "length q \<le> 4"
  shows "queue_holds (ex_waiting mallocs q) q" "quiet (ex_waiting mallocs q)" "mResponseIndex (ex_waiting mallocs q) = 0"
proof -
  have "unat (of_nat (length q) :: u64) = length q" using assms by (intro unat_of_nat_64) simp
  then show "queue_holds (ex_waiting mallocs q) q"
    using assms
    by (simp add: queue_holds_def ex_waiting_def vec_holds_def vec_wf_def vec_buffer_def vec_slots_def sb_fresh_def
      envelope_type_def plain_type_def Vector_new_def VectorImpl_new_def nth_append)
qed (simp_all add: quiet_def ex_waiting_def ex_looper_def Looper_init_def)

definition ex_sched :: sched where
  "ex_sched = \<lparr>sq_queue = ex_queue, sq_reads = 0, sq_wakes = 0, sq_trace = []\<rparr>"

lemma ex_waiting_runs:
  "length q \<le> 4 \<Longrightarrow> runs (ex_waiting mallocs q) \<lparr>sq_queue = q, sq_reads = 0, sq_wakes = 0, sq_trace = []\<rparr>"
  by (simp add: runs_def ex_waiting_holds) (simp add: ex_waiting_def ex_looper_def Looper_init_def)

lemma ex_waiting_fields:
  "mNextMessageUptime (ex_waiting mallocs q) = LLONG_MAX" "mWakeEventFd (ex_waiting mallocs q) = 3"
  "next_epoll (ex_waiting mallocs q) = EpollEvents []" "hp_malloc (lp_messages (ex_waiting mallocs q)) = mallocs"
  by (simp_all add: ex_waiting_def ex_looper_def Looper_init_def next_epoll_def)

theorem pollOnce_refines_witness:
  "\<exists>st q. pollOnce (\<lambda>_. 6) ex_handle 3 (- 1) (ex_waiting [True, True, True, True] ex_queue) = Inr ((POLL_CALLBACK, 0, 0, 0), st) \<and>
    lp_trace st = [EpollWait (- 1), Handled 7 1] \<and> mNextMessageUptime st = 9 \<and>
    queue_holds st q \<and> map env_uptime q = [9, 26]"
proof -
  let ?a1 = "ex_sched\<lparr>sq_trace := [EpollWait (- 1)]\<rparr>"
  have wait: "spec_wait (\<lambda>_. 6) (- 1) LLONG_MAX 3 (EpollEvents []) ex_sched = (POLL_TIMEOUT, ?a1)"
    by (simp add: spec_wait_def spec_timeout_def spec_event_def ex_sched_def)
  obtain a' where loop: "spec_loop (\<lambda>_. 6) ex_handle 3 POLL_TIMEOUT ?a1 = Some (Inr (POLL_CALLBACK, 9, a'))"
    and a': "sq_trace a' = [EpollWait (- 1), Handled 7 1]" "map env_uptime (sq_queue a') = [9, 26]"
    by (simp add: numeral_3_eq_3 ex_sched_def ex_queue_def ex_handle_def spec_calls_def spec_put_def enqueue_def)
  have sent: "sent_in_loop (\<lambda>_. 6) ex_handle 3 ?a1 = 2"
    by (simp add: numeral_3_eq_3 ex_sched_def ex_queue_def ex_handle_def spec_calls_def spec_put_def enqueue_def)
  have q: "length ex_queue \<le> 4" by (simp add: ex_queue_def)
  have "case Inr (POLL_CALLBACK, 9, a') of
      Inl e \<Rightarrow> pollOnce (\<lambda>_. 6) ex_handle 3 (- 1) (ex_waiting [True, True, True, True] ex_queue) = Inl e
    | Inr (res, nxt, a') \<Rightarrow>
        (\<exists>st'. pollOnce (\<lambda>_. 6) ex_handle 3 (- 1) (ex_waiting [True, True, True, True] ex_queue) = Inr ((res, 0, 0, 0), st') \<and>
          runs st' a' \<and> quiet st' \<and> mNextMessageUptime st' = nxt \<and>
          (case sq_queue a' of [] \<Rightarrow> nxt = LLONG_MAX | m # _ \<Rightarrow> nxt = env_uptime m \<and> (\<lambda>_. 6) (sq_reads a' - 1) < nxt))"
  proof (rule pollOnce_refines)
    show "runs (ex_waiting [True, True, True, True] ex_queue) ex_sched" using ex_waiting_runs [OF q] by (simp add: ex_sched_def)
    show "memory_for (2 * sent_in_loop (\<lambda>_. 6) ex_handle 3 ?a1) (lp_messages (ex_waiting [True, True, True, True] ex_queue))"
      unfolding sent by (simp add: ex_waiting_fields memory_for_def)
  qed (use wait loop sent ex_waiting_holds [OF q] q in
    \<open>simp_all add: ex_waiting_fields memory_for_def ex_handle_def ex_sched_def\<close>)
  then obtain st' where "pollOnce (\<lambda>_. 6) ex_handle 3 (- 1) (ex_waiting [True, True, True, True] ex_queue) =
      Inr ((POLL_CALLBACK, 0, 0, 0), st')" "runs st' a'" "mNextMessageUptime st' = 9"
    by auto
  with a' show ?thesis by (intro exI [of _ st'] exI [of _ "sq_queue a'"]) (simp add: runs_def)
qed

section \<open>What is due is delivered\<close>

definition handled :: "envelope \<Rightarrow> looper_event" where
  "handled m = Handled (the (env_handler m)) (env_what m)"

definition delivers ::
    "(nat \<Rightarrow> int) \<Rightarrow> (nat \<Rightarrow> int \<Rightarrow> looper_call list) \<Rightarrow> nat \<Rightarrow> int \<Rightarrow> sched \<Rightarrow> nat \<Rightarrow> nat \<Rightarrow> bool" where
  "delivers clock handle fuel result a k r \<longleftrightarrow>
     (let q = sq_queue a in
      k \<le> length q \<and> sq_reads a \<le> r \<and>
      spec_loop clock handle fuel result a =
        Some (Inr (if k = 0 then result else POLL_CALLBACK, if k = length q then LLONG_MAX else env_uptime (q ! k),
          a\<lparr>sq_queue := drop k q, sq_reads := r, sq_trace := sq_trace a @ map handled (take k q)\<rparr>)) \<and>
      (k < length q \<longrightarrow> clock (sq_reads a) < env_uptime (q ! k)) \<and>
      (\<forall>m \<in> set (take k q). env_uptime m \<le> clock r) \<and> sent_in_loop clock handle fuel a = k)"

lemma spec_loop_delivers:
  assumes silent: "\<And>h w. handle h w = []" and mono: "mono clock"
    and "\<And>m. m \<in> set (sq_queue a) \<Longrightarrow> env_handler m \<noteq> None"
    and "length (sq_queue a) \<le> 2" and "length (sq_queue a) < fuel"
  shows "\<exists>k r. delivers clock handle fuel result a k r"
  using assms(3-)
proof (induction fuel arbitrary: a result)
  case (Suc fuel)
  show ?case
  proof (cases "sq_queue a")
    case Nil
    moreover have "a\<lparr>sq_queue := []\<rparr> = a" using Nil by (cases a) simp
    ultimately have "delivers clock handle (Suc fuel) result a 0 (sq_reads a)" by (simp add: delivers_def)
    then show ?thesis by blast
  next
    case (Cons m q)
    show ?thesis
    proof (cases "clock (sq_reads a) < env_uptime m")
      case True
      moreover have "a\<lparr>sq_queue := m # q\<rparr> = a" using Cons by (cases a) simp
      ultimately have "delivers clock handle (Suc fuel) result a 0 (Suc (sq_reads a))"
        using Cons by (simp add: delivers_def Let_def)
      then show ?thesis by blast
    next
      case False
      obtain h where h: "env_handler m = Some h" using Suc.prems(1) [of m] Cons by auto
      define a2 where "a2 = a\<lparr>sq_reads := Suc (sq_reads a), sq_queue := q, sq_trace := sq_trace a @ [Handled h (env_what m)]\<rparr>"
      have a2: "sq_queue a2 = q" "sq_reads a2 = Suc (sq_reads a)" "sq_trace a2 = sq_trace a @ [Handled h (env_what m)]"
        by (simp_all add: a2_def)
      obtain k r where d: "delivers clock handle fuel POLL_CALLBACK a2 k r"
        using Suc.IH [of a2 POLL_CALLBACK] Suc.prems Cons a2 by auto
      have "spec_loop clock handle (Suc fuel) result a = spec_loop clock handle fuel POLL_CALLBACK a2"
        "sent_in_loop clock handle (Suc fuel) a = Suc (sent_in_loop clock handle fuel a2)"
        using Cons False h Suc.prems(2) by (simp_all add: silent spec_calls_def a2_def Let_def)
      moreover have "clock (sq_reads a) \<le> clock (Suc (sq_reads a))" "clock (sq_reads a) \<le> clock r"
        using d a2 by (auto simp: delivers_def intro: monoD [OF mono])
      moreover have "a2\<lparr>sq_queue := Q, sq_reads := r, sq_trace := T\<rparr> = a\<lparr>sq_queue := Q, sq_reads := r, sq_trace := T\<rparr>" for Q T
        by (simp add: a2_def)
      ultimately have "delivers clock handle (Suc fuel) result a (Suc k) r"
        using d False Cons h a2 by (auto simp: delivers_def handled_def Let_def)
      then show ?thesis by blast
    qed
  qed
qed simp

text \<open>C25: what is due is delivered. The looper is between two polls and the clock does not run backwards. If no more than two messages are
  queued, in the order of their times, all of them have handlers, the handlers send nothing, and there is memory for the
  removals (without it a message stays and is delivered again), then \<open>pollOnce\<close>, given fuel for three turns,
  delivers a prefix of the queue, in order and each message once: every message that is due when the
  call begins, and none before its time.\<close>

theorem poll_delivers_due:
  assumes quiet: "quiet st" and holds: "queue_holds st q" and index: "mResponseIndex st = 0"
    and few: "length q \<le> 2" and handlers: "\<And>m. m \<in> set q \<Longrightarrow> env_handler m \<noteq> None"
    and silent: "\<And>h w. handle h w = []" and mono: "mono clock" and fuel: "3 \<le> fuel"
    and memory: "memory_for 4 (lp_messages st)" and sorted: "sorted (map env_uptime q)"
  shows "\<exists>st' res k t. pollOnce clock handle fuel timeoutMillis st = Inr ((res, 0, 0, 0), st') \<and> k \<le> length q \<and>
    queue_holds st' (drop k q) \<and> lp_trace st' = lp_trace st @ EpollWait t # map handled (take k q) \<and>
    (\<forall>m \<in> set (drop k q). clock (lp_reads st) < env_uptime m) \<and>
    (\<forall>m \<in> set (take k q). env_uptime m \<le> clock (lp_reads st')) \<and> (0 < k \<longrightarrow> res = POLL_CALLBACK)"
proof -
  define a where "a = \<lparr>sq_queue = q, sq_reads = lp_reads st, sq_wakes = lp_wakes st, sq_trace = lp_trace st\<rparr>"
  have runs: "runs st a" using holds by (simp add: runs_def a_def)
  obtain result a1 where wait: "spec_wait clock timeoutMillis (mNextMessageUptime st) (mWakeEventFd st) (next_epoll st) a = (result, a1)"
    by fastforce
  obtain t where a1: "sq_queue a1 = q" "sq_trace a1 = lp_trace st @ [EpollWait t]" "lp_reads st \<le> sq_reads a1"
    using spec_wait_facts [OF wait] by (auto simp: a_def)
  obtain k r where "delivers clock handle fuel result a1 k r"
    using spec_loop_delivers [OF silent mono, where a = a1 and fuel = fuel and result = result] handlers few fuel a1(1) by fastforce
  then have k: "k \<le> length q" and loop: "spec_loop clock handle fuel result a1 =
      Some (Inr (if k = 0 then result else POLL_CALLBACK, if k = length q then LLONG_MAX else env_uptime (q ! k),
        a1\<lparr>sq_queue := drop k q, sq_reads := r, sq_trace := sq_trace a1 @ map handled (take k q)\<rparr>))"
    and due: "k < length q \<longrightarrow> clock (sq_reads a1) < env_uptime (q ! k)"
      "\<forall>m \<in> set (take k q). env_uptime m \<le> clock r" and sent: "sent_in_loop clock handle fuel a1 = k"
    unfolding delivers_def a1(1) Let_def by blast+
  have "memory_for (2 * sent_in_loop clock handle fuel a1) (lp_messages st)"
    using memory sent k few by (intro memory_for_less [OF memory]) simp
  from pollOnce_spec_loop [OF quiet runs _ wait loop _ _ this index] few fuel
  obtain st' where "pollOnce clock handle fuel timeoutMillis st = Inr ((if k = 0 then result else POLL_CALLBACK, 0, 0, 0), st')"
    "runs st' (a1\<lparr>sq_queue := drop k q, sq_reads := r, sq_trace := sq_trace a1 @ map handled (take k q)\<rparr>)"
    by (auto simp: a_def silent)
  moreover have "clock (lp_reads st) \<le> clock (sq_reads a1)" using a1(3) by (rule monoD [OF mono])
  moreover have "clock (sq_reads a1) < env_uptime m" if "m \<in> set (drop k q)" for m
  proof -
    obtain i where i: "k + i < length q" "m = q ! (k + i)" using \<open>m \<in> set (drop k q)\<close> by (auto simp: in_set_conv_nth less_diff_conv add.commute [of k])
    then have "env_uptime (q ! k) \<le> env_uptime m" using sorted_nth_mono [OF sorted, of k "k + i"] by simp
    with due(1) i(1) show ?thesis by simp
  qed
  ultimately show ?thesis using k due(2) a1 by (intro exI [of _ st'] exI [of _ "if k = 0 then result else POLL_CALLBACK"]
    exI [of _ k] exI [of _ t]) (fastforce simp: runs_def queue_holds_def)
qed

theorem poll_delivers_due_witness:
  "\<exists>st. pollOnce (\<lambda>_. 6) (\<lambda>_ _. []) 3 0 (ex_waiting [True, True, True, True] ex_queue) = Inr ((POLL_CALLBACK, 0, 0, 0), st) \<and>
    queue_holds st [ex_queue ! 1]"
proof -
  let ?st = "ex_waiting [True, True, True, True] ex_queue"
  have q: "length ex_queue \<le> 4" "length ex_queue = 2" by (simp_all add: ex_queue_def)
  have "\<exists>st' res k t. pollOnce (\<lambda>_. 6) (\<lambda>_ _. []) 3 0 ?st = Inr ((res, 0, 0, 0), st') \<and> k \<le> length ex_queue \<and>
    queue_holds st' (drop k ex_queue) \<and> lp_trace st' = lp_trace ?st @ EpollWait t # map handled (take k ex_queue) \<and>
    (\<forall>m \<in> set (drop k ex_queue). (\<lambda>_. 6) (lp_reads ?st) < env_uptime m) \<and>
    (\<forall>m \<in> set (take k ex_queue). env_uptime m \<le> (\<lambda>_. 6) (lp_reads st')) \<and> (0 < k \<longrightarrow> res = POLL_CALLBACK)"
    using ex_waiting_holds [OF q(1)]
    by (intro poll_delivers_due) (auto simp: ex_waiting_fields memory_for_def q ex_queue_def mono_def)
  then obtain st' res k where *: "pollOnce (\<lambda>_. 6) (\<lambda>_ _. []) 3 0 ?st = Inr ((res, 0, 0, 0), st')" "k \<le> 2"
    "queue_holds st' (drop k ex_queue)" "\<forall>m \<in> set (drop k ex_queue). 6 < env_uptime m"
    "\<forall>m \<in> set (take k ex_queue). env_uptime m \<le> 6" "0 < k \<longrightarrow> res = POLL_CALLBACK"
    unfolding q(2) by (elim exE conjE) (rule that)
  have "k = 1"
  proof -
    have "k \<noteq> 0" using *(4) by (cases k) (auto simp: ex_queue_def)
    moreover have "k \<noteq> 2" using *(5) by (auto simp: ex_queue_def)
    ultimately show ?thesis using *(2) by simp
  qed
  with * show ?thesis by (auto simp: ex_queue_def)
qed

section \<open>Where the vector lets the queue down\<close>

text \<open>The first turns of \<open>message_loop\<close>, when the handler of a due message sends nothing.\<close>

lemma message_loop_turn:
  assumes lock: "mLock st" "mCount (mMessageEnvelopes st) \<noteq> 0"
    and front: "Vector_at 0 (mMessageEnvelopes st) (lp_messages st) = Inr m" "env_uptime m \<le> clock (lp_reads st)"
      "env_handler m = Some h" "handle h (env_what m) = []"
    and rem: "removeItemsAt envelope_type 0 1 (mMessageEnvelopes st) (lp_messages st) = Inr (r, v, hp)"
  shows "message_loop clock handle (Suc fuel) result st = message_loop clock handle fuel POLL_CALLBACK
    (st\<lparr>lp_reads := Suc (lp_reads st), mMessageEnvelopes := v, lp_messages := hp,
       lp_trace := lp_trace st @ [Handled h (env_what m)], mLock := True, mSendingMessage := False\<rparr>)"
  using assms by (simp add: systemTime_def lp_lock_def lp_unlock_def lp_note_def Let_def)

lemma message_loop_trap:
  assumes lock: "mCount (mMessageEnvelopes st) \<noteq> 0"
    and front: "Vector_at 0 (mMessageEnvelopes st) (lp_messages st) = Inr m" "env_uptime m \<le> clock (lp_reads st)"
    and rem: "removeItemsAt envelope_type 0 1 (mMessageEnvelopes st) (lp_messages st) = Inl e"
  shows "message_loop clock handle (Suc fuel) result st = Inl e"
  using assms by (simp add: systemTime_def)

lemma envelope_type_plain:
  "\<not> use_trivial_move envelope_type" "\<not> has_trivial_dtor envelope_type" "\<not> has_trivial_copy envelope_type"
  by (simp_all add: use_trivial_move_def envelope_type_def plain_type_def)

lemma three_due_trap:
  assumes holds: "queue_holds st [x, y, z]" and lock: "mLock st" and cap: "vec_cap (lp_messages st) (mMessageEnvelopes st) = 4"
    and due: "env_uptime x \<le> clock (lp_reads st)" "env_uptime z \<le> clock (Suc (lp_reads st))"
    and handler: "env_handler x = Some h" "handle h (env_what x) = []" and mem: "has_memory (lp_messages st)"
  shows "message_loop clock handle (Suc (Suc fuel)) result st = Inl Uninitialised"
proof -
  let ?v = "mMessageEnvelopes st" and ?hp = "lp_messages st"
  have holds': "vec_holds envelope_type ?hp ?v [x, y, z]" "sb_fresh ?hp" using holds by (simp_all add: queue_holds_def)
  have "vec_cap ?hp ?v < 6" using cap by simp
  then obtain b sb rest where b: "mStorage ?v = Some b" and sb: "hp_bufs ?hp b = Some sb" "vec_buffer envelope_type sb"
    and D: "sb_data sb = Val x # Val y # Val z # rest"
    and rem: "removeItemsAt envelope_type 0 1 ?v ?hp =
      Inr (0, ?v\<lparr>mCount := 2\<rparr>, sb_put b (sb\<lparr>sb_data := Val z # Raw # Raw # rest\<rparr>) ?hp)"
    by (rule remove_front_slots [OF holds'(1) _ envelope_type_plain])
  let ?v2 = "?v\<lparr>mCount := 2\<rparr>" and ?hp2 = "sb_put b (sb\<lparr>sb_data := Val z # Raw # Raw # rest\<rparr>) ?hp"
  have "mCount ?v \<noteq> 0" using holds'(1) by (auto simp: vec_holds_def)
  moreover have "Vector_at 0 ?v ?hp = Inr x" using Vector_at_holds [OF holds'(1), of 0] by simp
  ultimately have first: "message_loop clock handle (Suc (Suc fuel)) result st = message_loop clock handle (Suc fuel) POLL_CALLBACK
    (st\<lparr>lp_reads := Suc (lp_reads st), mMessageEnvelopes := ?v2, lp_messages := ?hp2,
       lp_trace := lp_trace st @ [Handled h (env_what x)], mLock := True, mSendingMessage := False\<rparr>)"
    using due(1) handler rem by (intro message_loop_turn [OF lock]) simp_all
  have len: "length (sb_data sb) = 4" using cap b sb(1) by (simp add: vec_cap_def)
  have "removeItemsAt envelope_type 0 1 ?v2 ?hp2 = Inl Uninitialised"
  proof (rule remove_next_traps)
    show "mStorage ?v2 = Some b" using b by simp
    show "hp_bufs ?hp2 b = Some (sb\<lparr>sb_data := Val z # Raw # Raw # rest\<rparr>)" by simp
    show "vec_wf envelope_type ?v2" using holds'(1) by (simp add: vec_holds_def vec_wf_def)
    show "sb_fresh ?hp2" using holds'(2) sb(1) by (auto simp: sb_fresh_def)
    show "vec_fits envelope_type 2" using queue_fits_few [of 2] by (simp add: queue_fits_def)
    show "has_memory ?hp2" using mem by (simp add: has_memory_def)
    show "vec_buffer envelope_type (sb\<lparr>sb_data := Val z # Raw # Raw # rest\<rparr>)" using sb(2) D by (simp add: vec_buffer_def)
  qed (use b D len envelope_type_plain in simp_all)
  moreover have "Vector_at 0 ?v2 ?hp2 = Inr z" using b by (simp add: Vector_at_def slot_value_def sb_get_def arr_get_def)
  ultimately show ?thesis using due(2) unfolding first by (intro message_loop_trap [where m = z]) simp_all
qed

text \<open>With three messages queued in a vector of the smallest capacity, delivering the first one moves the third
  over the second, which is lost, and leaves a slot without an object: when the third message is due as well,
  \<open>pollOnce\<close> copies from that slot, so it does not return but runs into undefined behaviour.\<close>

theorem three_due_messages_crash:
  assumes quiet: "quiet st" and holds: "queue_holds st [x, y, z]" and index: "mResponseIndex st = 0"
    and cap: "vec_cap (lp_messages st) (mMessageEnvelopes st) = 4" and mem: "has_memory (lp_messages st)"
    and due: "\<And>n. env_uptime x \<le> clock n" "\<And>n. env_uptime z \<le> clock n"
    and handler: "env_handler x = Some h" "handle h (env_what x) = []" and fuel: "2 \<le> fuel"
  shows "pollOnce clock handle fuel timeoutMillis st = Inl Uninitialised"
proof -
  define a where "a = \<lparr>sq_queue = [x, y, z], sq_reads = lp_reads st, sq_wakes = lp_wakes st, sq_trace = lp_trace st\<rparr>"
  have runs: "runs st a" using holds by (simp add: runs_def a_def)
  obtain result a1 where wait: "spec_wait clock timeoutMillis (mNextMessageUptime st) (mWakeEventFd st) (next_epoll st) a = (result, a1)"
    by fastforce
  obtain n where n: "fuel = Suc (Suc n)" using fuel by (metis Suc_le_D numeral_2_eq_2 Suc_le_mono)
  obtain st1 where inner: "pollInner clock handle fuel timeoutMillis st =
       bindE (message_loop clock handle fuel result st1) (\<lambda>(res, st).
       bindE (response_loop 0 (unat (mCount (mResponses (lp_unlock st)))) (lp_unlock st)) (\<lambda>st. Inr (res, st)))"
    and st1: "runs st1 a1" "mLock st1" "lp_messages st1 = lp_messages st" "mMessageEnvelopes st1 = mMessageEnvelopes st"
    by (rule pollInner_waits [OF quiet runs wait])
  have "queue_holds st1 [x, y, z]" using holds st1(3,4) by (simp add: queue_holds_def)
  then have "message_loop clock handle fuel result st1 = Inl Uninitialised"
    using st1(2-4) cap mem due handler unfolding n by (intro three_due_trap) simp_all
  with inner show ?thesis
    using quiet index by (simp add: n pollOnce_def quiet_def no_responses)
qed

definition ex_three :: "envelope list" where
  "ex_three = map (\<lambda>i. \<lparr>env_uptime = i, env_handler = Some 7, env_what = i\<rparr>) [1, 2, 3]"

theorem three_due_messages_crash_witness:
  "queue_holds (ex_waiting [True] ex_three) ex_three \<and>
   pollOnce (\<lambda>_. 6) (\<lambda>_ _. []) 2 0 (ex_waiting [True] ex_three) = Inl Uninitialised"
proof -
  have q: "length ex_three \<le> 4" by (simp add: ex_three_def)
  have cap: "vec_cap (lp_messages (ex_waiting [True] ex_three)) (mMessageEnvelopes (ex_waiting [True] ex_three)) = 4"
    "has_memory (lp_messages (ex_waiting [True] ex_three))"
    by (simp_all add: vec_cap_def has_memory_def ex_waiting_def ex_three_def)
  let ?m = "\<lambda>i. \<lparr>env_uptime = i, env_handler = Some 7, env_what = i\<rparr>"
  have "queue_holds (ex_waiting [True] ex_three) [?m 1, ?m 2, ?m 3]"
    using ex_waiting_holds(1) [OF q] by (simp add: ex_three_def)
  from three_due_messages_crash [OF ex_waiting_holds(2) [OF q] this ex_waiting_holds(3) [OF q] cap, of "\<lambda>_. 6" 7 "\<lambda>_ _. []" 2 0]
  have "pollOnce (\<lambda>_. 6) (\<lambda>_ _. []) 2 0 (ex_waiting [True] ex_three) = Inl Uninitialised"
    by simp
  with ex_waiting_holds(1) [OF q] show ?thesis by simp
qed

text \<open>Without memory for smaller storage the removal of the only message is not done.\<close>

lemma removal_without_memory:
  assumes holds: "vec_holds ty hp v [x]" and cap: "2 \<le> vec_cap hp v" and fits: "vec_fits ty 1" and mem: "hp_malloc hp = []"
    and ty: "\<not> has_trivial_copy ty"
  shows "removeItemsAt ty 0 1 v hp = Inr (0, v, hp)"
proof -
  have wf: "vec_wf ty v" and count: "mCount v = 1"
    using holds word_unat_eq_iff [of "mCount v" 1] by (simp_all add: vec_holds_def)
  obtain b where b: "mStorage v = Some b" using holds by (cases "mStorage v") (auto simp: vec_holds_def)
  have "unat (of_nat (vec_cap hp v) div 2 :: u64) = vec_cap hp v div 2"
    using vec_capacity_holds(2) [OF holds] by (simp add: unat_div unat_of_nat_64)
  moreover have "0 < vec_cap hp v div 2" using cap by simp
  ultimately have "(1 - 1 :: u64) < of_nat (vec_cap hp v) div 2" by (simp add: word_less_nat_alt)
  moreover have "SharedBuffer_alloc u Raw sz hp = Inr (None, hp)" for u sz
    using mem by (simp add: SharedBuffer_alloc_def sb_malloc_def)
  ultimately show ?thesis
    using b count vec_capacity_holds(1) [OF holds] ty vec_flags(3) [OF wf]
    by (simp add: removeItemsAt_def vec_shrink_def shrink_storage_def Let_def)
qed

text \<open>When no memory is left, the message that \<open>removeAt\<close> was to take out stays in the queue, which the loop does not
  notice: a due message is delivered again and again, and the loop never ends.\<close>

theorem no_memory_redelivers:
  assumes holds: "queue_holds st [m]" and lock: "mLock st" and cap: "2 \<le> vec_cap (lp_messages st) (mMessageEnvelopes st)"
    and mem: "hp_malloc (lp_messages st) = []" and due: "\<And>n. env_uptime m \<le> clock n"
    and handler: "env_handler m = Some h" "handle h (env_what m) = []"
  shows "message_loop clock handle fuel result st = Inl OutOfFuel \<and>
    removeItemsAt envelope_type 0 1 (mMessageEnvelopes st) (lp_messages st) = Inr (0, mMessageEnvelopes st, lp_messages st)"
proof -
  let ?v = "mMessageEnvelopes st" and ?hp = "lp_messages st"
  have holds': "vec_holds envelope_type ?hp ?v [m]" using holds by (simp add: queue_holds_def)
  have "vec_fits envelope_type 1" using queue_fits_few [of 1] by (simp add: queue_fits_def)
  then have rem: "removeItemsAt envelope_type 0 1 ?v ?hp = Inr (0, ?v, ?hp)"
    using removal_without_memory [OF holds' cap _ mem] envelope_type_plain by blast
  have count: "mCount ?v \<noteq> 0" using holds' by (auto simp: vec_holds_def)
  have front: "Vector_at 0 ?v ?hp = Inr m" using Vector_at_holds [OF holds', of 0] by simp
  have "message_loop clock handle fuel result st' = Inl OutOfFuel"
    if "mLock st'" "mMessageEnvelopes st' = ?v" "lp_messages st' = ?hp" for st' result
    using that
  proof (induction fuel arbitrary: st' result)
    case (Suc fuel)
    have "message_loop clock handle (Suc fuel) result st' = message_loop clock handle fuel POLL_CALLBACK
      (st'\<lparr>lp_reads := Suc (lp_reads st'), mMessageEnvelopes := ?v, lp_messages := ?hp,
         lp_trace := lp_trace st' @ [Handled h (env_what m)], mLock := True, mSendingMessage := False\<rparr>)"
      using Suc.prems count front due handler rem by (intro message_loop_turn) simp_all
    also have "\<dots> = Inl OutOfFuel" by (rule Suc.IH) simp_all
    finally show ?case .
  qed simp
  with lock rem show ?thesis by simp
qed

theorem no_memory_redelivers_witness:
  "message_loop (\<lambda>_. 6) (\<lambda>_ _. []) 1000 POLL_WAKE ((ex_waiting [] [hd ex_queue])\<lparr>mLock := True\<rparr>) = Inl OutOfFuel"
proof -
  let ?st = "(ex_waiting [] [hd ex_queue])\<lparr>mLock := True\<rparr>"
  have "queue_holds ?st [hd ex_queue]"
    using ex_waiting_holds(1) [of "[hd ex_queue]" "[]"] by (simp add: queue_holds_def)
  moreover have "2 \<le> vec_cap (lp_messages ?st) (mMessageEnvelopes ?st)" by (simp add: vec_cap_def ex_waiting_def)
  ultimately show ?thesis
    using no_memory_redelivers [of ?st "hd ex_queue" "\<lambda>_. 6" 7 "\<lambda>_ _. []" 1000 POLL_WAKE]
    by (simp add: ex_waiting_fields ex_queue_def)
qed

end
