(* ===== verification/Threads.thy ===== *)
theory Threads
  imports RefBase
begin

text \<open>
  \<open>libutils/Threads.cpp\<close> with \<open>Thread.h\<close>: raw threads, and the class \<open>Thread\<close>, an object of \<open>RefBase\<close> that
  keeps itself alive until its thread has started. The thread runs \<open>_threadLoop\<close>, one step for each
  access to the object or its counters, so that other threads can come in between. Where the code holds
  \<open>mLock\<close> of the object, the whole section is one step. What \<open>pthread_create\<close>, \<open>readyToRun\<close> and
  \<open>threadLoop\<close> return are parameters.
\<close>

abbreviation (input) PRIORITY_DEFAULT :: int where "PRIORITY_DEFAULT \<equiv> 19"
abbreviation (input) THREAD_OK :: int where "THREAD_OK \<equiv> 0"
abbreviation (input) THREAD_UNKNOWN_ERROR :: int where "THREAD_UNKNOWN_ERROR \<equiv> - 2147483648"
abbreviation (input) INVALID_OPERATION :: int where "INVALID_OPERATION \<equiv> - 38"

section \<open>Raw threads\<close>

text \<open>The scan of the name: whether there is an at sign, and a dot.\<close>

fun scan_name :: "string \<Rightarrow> bool \<Rightarrow> bool \<Rightarrow> bool \<times> bool" where
  "scan_name [] hasAt hasDot = (hasAt, hasDot)"
| "scan_name (c # cs) hasAt hasDot =
     (if c = CHR ''.'' then scan_name cs hasAt True
      else if c = CHR ''@'' then scan_name cs True hasDot
      else scan_name cs hasAt hasDot)"

text \<open>The name that \<open>prctl\<close> is called with.\<close>

definition droidSetThreadName :: "string \<Rightarrow> string" where
  "droidSetThreadName name =
     (let (hasAt, hasDot) = scan_name name False False; len = length name
      in if len < 15 \<or> hasAt \<or> \<not> hasDot then name else drop (len - 15) name)"

record thread_data_t =
  entryFunction :: nat
  userData :: nat
  td_priority :: int
  td_threadName :: "string option"

datatype thread_entry = Direct nat nat | Trampoline nat

text \<open>The blocks that \<open>new\<close> gave, the threads that were started, and the results of \<open>pthread_create\<close>.\<close>

record raw_threads =
  rt_create :: "int list"
  rt_data :: "thread_data_t option list"
  rt_started :: "thread_entry list"

definition pthread_create :: "thread_entry \<Rightarrow> raw_threads \<Rightarrow> int \<times> raw_threads" where
  "pthread_create entry rt =
     (case rt_create rt of
        [] \<Rightarrow> (11, rt)
      | r # rs \<Rightarrow>
          let rt = rt\<lparr>rt_create := rs\<rparr>
          in if r = 0 then (0, rt\<lparr>rt_started := rt_started rt @ [entry]\<rparr>) else (r, rt))"

text \<open>The result is the number of the thread, or \<open>None\<close> where the code returns 0.\<close>

definition droidCreateRawThreadEtc ::
    "nat \<Rightarrow> nat \<Rightarrow> string option \<Rightarrow> int \<Rightarrow> raw_threads \<Rightarrow> nat option \<times> raw_threads" where
  "droidCreateRawThreadEtc entry user threadName threadPriority rt =
     (let (start, rt) =
        (if threadPriority \<noteq> PRIORITY_DEFAULT \<or> threadName \<noteq> None then
           (Trampoline (length (rt_data rt)),
            rt\<lparr>rt_data := rt_data rt @ [Some \<lparr>entryFunction = entry, userData = user,
              td_priority = threadPriority, td_threadName = threadName\<rparr>]\<rparr>)
         else (Direct entry user, rt));
        (result, rt) = pthread_create start rt
      in if result \<noteq> 0 then (None, rt) else (Some (length (rt_started rt) - 1), rt))"

text \<open>What a started thread does first: the priority and the name it sets, and the function it calls.\<close>

definition thread_trampoline ::
    "nat \<Rightarrow> raw_threads \<Rightarrow> ((int \<times> string option \<times> nat \<times> nat) \<times> raw_threads) chk" where
  "thread_trampoline t rt =
     bindE (arr_get (rt_data rt) t) (\<lambda>block.
     bindE (derefE UseAfterFree block) (\<lambda>td.
     Inr ((td_priority td, map_option droidSetThreadName (td_threadName td), entryFunction td, userData td),
          rt\<lparr>rt_data := (rt_data rt)[t := None]\<rparr>)))"

section \<open>The class Thread\<close>

record thread_obj =
  mCanCallJava :: bool
  mThread :: "nat option"
  mStatus :: int
  mExitPending :: bool
  mRunning :: bool
  mHoldSelf :: "nat option"
  mTid :: int

definition Thread_new :: "bool \<Rightarrow> thread_obj" where
  "Thread_new canCallJava = \<lparr>mCanCallJava = canCallJava, mThread = None, mStatus = THREAD_OK,
     mExitPending = False, mRunning = False, mHoldSelf = None, mTid = - 1\<rparr>"

text \<open>
  \<open>run\<close> on the object at \<open>a\<close>. The variable \<open>res\<close> has no value where \<open>mCanCallJava\<close> is set. In
  the branch for a failure, \<open>clear\<close> writes to the object and the lock is given back after the count has gone down.
\<close>

definition Thread_run ::
    "nat \<Rightarrow> string \<Rightarrow> int \<Rightarrow> thread_obj \<Rightarrow> raw_threads \<Rightarrow> ref_heap \<Rightarrow>
     (int \<times> thread_obj \<times> raw_threads \<times> ref_heap) chk" where
  "Thread_run a name priority obj rt rh =
     bindE (base_check a rh) (\<lambda>_.
     if mRunning obj then Inr (INVALID_OPERATION, obj, rt, rh)
     else
       let obj = obj\<lparr>mStatus := THREAD_OK, mExitPending := False, mThread := None\<rparr>
       in bindE (sp_assign (mHoldSelf obj) (Some a) rh) (\<lambda>(hold, rh).
          let obj = obj\<lparr>mHoldSelf := hold, mRunning := True\<rparr>
          in if mCanCallJava obj then Inl Uninitialised
             else
               case droidCreateRawThreadEtc 0 a (Some name) priority rt of
                 (Some thread, rt) \<Rightarrow> Inr (THREAD_OK, obj\<lparr>mThread := Some thread\<rparr>, rt, rh)
               | (None, rt) \<Rightarrow>
                   let obj = obj\<lparr>mStatus := THREAD_UNKNOWN_ERROR, mRunning := False, mThread := None\<rparr>
                   in bindE (sp_clear (mHoldSelf obj) rh) (\<lambda>(hold, rh).
                      bindE (base_check a rh) (\<lambda>_.
                      Inr (THREAD_UNKNOWN_ERROR, obj\<lparr>mHoldSelf := hold\<rparr>, rt, rh)))))"

definition exitPending :: "nat \<Rightarrow> thread_obj \<Rightarrow> ref_heap \<Rightarrow> bool chk" where
  "exitPending a obj rh = bindE (base_check a rh) (\<lambda>_. Inr (mExitPending obj))"

definition getTid :: "nat \<Rightarrow> thread_obj \<Rightarrow> ref_heap \<Rightarrow> int chk" where
  "getTid a obj rh = bindE (base_check a rh) (\<lambda>_. Inr (if mRunning obj then mTid obj else - 1))"

definition getPthreadId :: "nat \<Rightarrow> thread_obj \<Rightarrow> ref_heap \<Rightarrow> nat option chk" where
  "getPthreadId a obj rh = bindE (base_check a rh) (\<lambda>_. Inr (if mRunning obj then mThread obj else None))"

section \<open>The loop of a thread\<close>

text \<open>
  Where a thread is in \<open>_threadLoop\<close>: before the statement that makes \<open>strong\<close>, the one that makes \<open>weak\<close>,
  the one that clears \<open>mHoldSelf\<close>, the one that stores \<open>mTid\<close>; before \<open>readyToRun\<close>, \<open>exitPending\<close>,
  \<open>threadLoop\<close>; before the locked section, with the value of \<open>result\<close>; before \<open>strong.clear()\<close>,
  \<open>promote\<close> and the assignment of its result, a temporary; before each destructor at the end.
\<close>

datatype loop_pc =
    AtStrong | AtWeak | AtRelease | AtTid | AtReady | AtPending | AtBody | AtDecide bool
  | AtClear | AtPromote | AtAssign | AtEndWeak | AtEndStrong | AtDone

record loop_thread =
  tl_pc :: loop_pc
  tl_strong :: "nat option"
  tl_weak :: "nat option"
  tl_tmp :: "nat option"

text \<open>What a thread meets on the way: its id, the results of \<open>readyToRun\<close> and \<open>threadLoop\<close>.\<close>

record loop_choice =
  ch_tid :: int
  ch_ready :: int
  ch_body :: bool

definition loop_step ::
    "nat \<Rightarrow> loop_choice \<Rightarrow> loop_thread \<Rightarrow> thread_obj \<Rightarrow> ref_heap \<Rightarrow> (loop_thread \<times> thread_obj \<times> ref_heap) chk" where
  "loop_step self ch l obj rh =
     (case tl_pc l of
        AtStrong \<Rightarrow>
          bindE (base_check self rh) (\<lambda>_.
          bindE (sp_new (mHoldSelf obj) rh) (\<lambda>(strong, rh).
          Inr (l\<lparr>tl_pc := AtWeak, tl_strong := strong\<rparr>, obj, rh)))
      | AtWeak \<Rightarrow>
          bindE (wp_new (tl_strong l) rh) (\<lambda>(weak, rh).
          Inr (l\<lparr>tl_pc := AtRelease, tl_weak := weak\<rparr>, obj, rh))
      | AtRelease \<Rightarrow>
          bindE (base_check self rh) (\<lambda>_.
          bindE (sp_clear (mHoldSelf obj) rh) (\<lambda>(hold, rh).
          bindE (base_check self rh) (\<lambda>_.
          Inr (l\<lparr>tl_pc := AtTid\<rparr>, obj\<lparr>mHoldSelf := hold\<rparr>, rh))))
      | AtTid \<Rightarrow>
          bindE (base_check self rh) (\<lambda>_. Inr (l\<lparr>tl_pc := AtReady\<rparr>, obj\<lparr>mTid := ch_tid ch\<rparr>, rh))
      | AtReady \<Rightarrow>
          bindE (base_check self rh) (\<lambda>_.
          Inr (l\<lparr>tl_pc := (if ch_ready ch = THREAD_OK then AtPending else AtDecide False)\<rparr>,
               obj\<lparr>mStatus := ch_ready ch\<rparr>, rh))
      | AtPending \<Rightarrow>
          bindE (exitPending self obj rh) (\<lambda>pending.
          Inr (l\<lparr>tl_pc := (if pending then AtDecide True else AtBody)\<rparr>, obj, rh))
      | AtBody \<Rightarrow>
          bindE (base_check self rh) (\<lambda>_. Inr (l\<lparr>tl_pc := AtDecide (ch_body ch)\<rparr>, obj, rh))
      | AtDecide result \<Rightarrow>
          bindE (base_check self rh) (\<lambda>_.
          if \<not> result \<or> mExitPending obj then
            Inr (l\<lparr>tl_pc := AtEndWeak\<rparr>, obj\<lparr>mExitPending := True, mRunning := False, mThread := None\<rparr>, rh)
          else Inr (l\<lparr>tl_pc := AtClear\<rparr>, obj, rh))
      | AtClear \<Rightarrow>
          bindE (sp_clear (tl_strong l) rh) (\<lambda>(strong, rh).
          Inr (l\<lparr>tl_pc := AtPromote, tl_strong := strong\<rparr>, obj, rh))
      | AtPromote \<Rightarrow>
          bindE (wp_promote (tl_weak l) rh) (\<lambda>(tmp, rh).
          Inr (l\<lparr>tl_pc := AtAssign, tl_tmp := tmp\<rparr>, obj, rh))
      | AtAssign \<Rightarrow>
          bindE (sp_assign (tl_strong l) (tl_tmp l) rh) (\<lambda>(strong, rh).
          bindE (sp_delete (tl_tmp l) rh) (\<lambda>rh.
          Inr (l\<lparr>tl_pc := (if strong = None then AtEndWeak else AtBody), tl_strong := strong, tl_tmp := None\<rparr>, obj, rh)))
      | AtEndWeak \<Rightarrow>
          bindE (wp_delete (tl_weak l) rh) (\<lambda>rh. Inr (l\<lparr>tl_pc := AtEndStrong, tl_weak := None\<rparr>, obj, rh))
      | AtEndStrong \<Rightarrow>
          bindE (sp_delete (tl_strong l) rh) (\<lambda>rh. Inr (l\<lparr>tl_pc := AtDone, tl_strong := None\<rparr>, obj, rh))
      | AtDone \<Rightarrow> Inr (l, obj, rh))"

end
