(* ===== verification/Threads_Machine.thy ===== *)
theory Threads_Machine
  imports Threads RefBase_Props
begin

text \<open>
  A \<open>Thread\<close> object, the clients that hold it and the threads that run its loop, step by step in any
  order: the invariant of this system. The object is at address 0.
\<close>

section \<open>The system\<close>

record thread_sys =
  ts_heap :: ref_heap
  ts_obj :: thread_obj
  ts_raw :: raw_threads
  ts_slots :: "loop_thread list"
  ts_sps :: "nat option list"

definition idle_thread :: loop_thread where
  "idle_thread = \<lparr>tl_pc = AtDone, tl_strong = None, tl_weak = None, tl_tmp = None\<rparr>"

definition fresh_thread :: loop_thread where
  "fresh_thread = \<lparr>tl_pc = AtStrong, tl_strong = None, tl_weak = None, tl_tmp = None\<rparr>"

text \<open>A client copies and clears its pointers, and calls \<open>run\<close>; the new thread takes a free slot.\<close>

datatype thread_act =
    LoopStep nat loop_choice
  | ClientCopy nat nat
  | ClientClear nat
  | ClientRun nat string int nat

fun act_run :: "thread_act \<Rightarrow> thread_sys \<Rightarrow> thread_sys chk" where
  "act_run (LoopStep i ch) st =
     bindE (loop_step 0 ch (ts_slots st ! i) (ts_obj st) (ts_heap st)) (\<lambda>(l, obj, rh).
     Inr (st\<lparr>ts_slots := (ts_slots st)[i := l], ts_obj := obj, ts_heap := rh\<rparr>))"
| "act_run (ClientCopy i j) st =
     bindE (sp_assign (ts_sps st ! i) (ts_sps st ! j) (ts_heap st)) (\<lambda>(p, rh).
     Inr (st\<lparr>ts_sps := (ts_sps st)[i := p], ts_heap := rh\<rparr>))"
| "act_run (ClientClear i) st =
     bindE (sp_clear (ts_sps st ! i) (ts_heap st)) (\<lambda>(p, rh).
     Inr (st\<lparr>ts_sps := (ts_sps st)[i := p], ts_heap := rh\<rparr>))"
| "act_run (ClientRun i name priority k) st =
     bindE (Thread_run 0 name priority (ts_obj st) (ts_raw st) (ts_heap st)) (\<lambda>(r, obj, rt, rh).
     Inr (st\<lparr>ts_slots := (if r = THREAD_OK then (ts_slots st)[k := fresh_thread] else ts_slots st),
             ts_obj := obj, ts_raw := rt, ts_heap := rh\<rparr>))"

fun act_may :: "thread_act \<Rightarrow> thread_sys \<Rightarrow> bool" where
  "act_may (LoopStep i ch) st = (i < length (ts_slots st))"
| "act_may (ClientCopy i j) st = (i < length (ts_sps st) \<and> j < length (ts_sps st))"
| "act_may (ClientClear i) st = (i < length (ts_sps st))"
| "act_may (ClientRun i name priority k) st =
     (i < length (ts_sps st) \<and> ts_sps st ! i = Some 0 \<and> k < length (ts_slots st) \<and> ts_slots st ! k = idle_thread)"

text \<open>At the start a client has made the object, with \<open>canCallJava\<close> true or false, and holds it.\<close>

definition empty_heap :: ref_heap where
  "empty_heap = \<lparr>rh_base = (\<lambda>_. False), rh_impl = (\<lambda>_. None), rh_next = 0, rh_trace = []\<rparr>"

definition thread_init :: "thread_sys \<Rightarrow> bool" where
  "thread_init st \<longleftrightarrow>
     sp_new (Some 0) (snd (RefBase_new empty_heap)) = Inr (Some 0, ts_heap st) \<and> ts_obj st \<in> {Thread_new True, Thread_new False} \<and>
     set (ts_slots st) \<subseteq> {idle_thread} \<and> ts_sps st \<noteq> [] \<and> hd (ts_sps st) = Some 0 \<and> set (tl (ts_sps st)) \<subseteq> {None} \<and>
     length (ts_sps st) + 3 * length (ts_slots st) + 4 < 268435456"

inductive thread_step :: "thread_sys \<Rightarrow> thread_sys \<Rightarrow> bool" where
  thread_stepI: "act_may act st \<Longrightarrow> act_run act st = Inr st' \<Longrightarrow> thread_step st st'"

inductive_cases thread_stepE: "thread_step st st'"

section \<open>Operations on the counters of one object\<close>

lemma cell_alive: "cell_ok a s w rh \<Longrightarrow> 0 < s \<Longrightarrow> rh_base rh a"
  by (auto simp: cell_ok_def impl_ok_def split: option.splits)

lemma decWeak_base:
  assumes ok: "cell_ok a s (Suc w) rh" and run: "decWeak a rh = Inr rh'" and alive: "rh_base rh' a"
  shows "rh_base rh a"
proof -
  from ok obtain i where i: "rh_impl rh a = Some i" "impl_ok (rh_base rh a) s (Suc w) i"
    by (rule cell_impl) auto
  consider "mFlags i AND 1 = 0" | "mFlags i AND 1 = 1" using flag_cases by blast
  then show ?thesis
  proof cases
    case 1
    with run i alive show ?thesis
      by (simp add: decWeak_def weakref_impl_delete_def ref_access_defs split: if_splits)
        (auto simp: ref_access_defs)
  next
    case 2
    with i show ?thesis by (simp add: impl_ok_def)
  qed
qed

lemma sp_new_cell:
  assumes "cell_ok a s w rh" and "p \<in> {None, Some a}" and "p = Some a \<Longrightarrow> rh_base rh a" and "s + w + 1 < 268435456"
  shows "\<exists>rh'. sp_new p rh = Inr (p, rh') \<and> cell_ok a (s + of_bool (p = Some a)) w rh' \<and> rh_base rh' a = rh_base rh a"
  using assms incStrong_moves [OF assms(1)] by (cases p) (auto simp: sp_new_def moves_cell_def)

lemma sp_delete_cell:
  assumes ok: "cell_ok a s w rh" and p: "p \<in> {None, Some a}" "p = Some a \<Longrightarrow> 0 < s"
  shows "\<exists>rh'. sp_delete p rh = Inr rh' \<and> cell_ok a (s - of_bool (p = Some a)) w rh' \<and>
    (rh_base rh' a \<longrightarrow> rh_base rh a) \<and> (p = None \<longrightarrow> rh' = rh)"
proof (cases p)
  case None
  with ok show ?thesis by (simp add: sp_delete_def)
next
  case (Some b)
  with p have "p = Some a" "0 < s" by auto
  moreover from this ok have "cell_ok a (Suc (s - 1)) w rh" by simp
  ultimately show ?thesis
    using decStrong_moves [of a "s - 1" w rh] cell_alive [OF ok] by (auto simp: sp_delete_def moves_cell_def)
qed

lemma sp_clear_cell:
  assumes "cell_ok a s w rh" and "p \<in> {None, Some a}" "p = Some a \<Longrightarrow> 0 < s"
  shows "\<exists>rh'. sp_clear p rh = Inr (None, rh') \<and> cell_ok a (s - of_bool (p = Some a)) w rh' \<and>
    (rh_base rh' a \<longrightarrow> rh_base rh a)"
  using sp_delete_cell [OF assms] by (auto simp: sp_clear_def)

lemma sp_assign_two: "sp_assign p q rh = bindE (sp_new q rh) (\<lambda>(_, rh). bindE (sp_delete p rh) (\<lambda>rh. Inr (q, rh)))"
  by (cases q) (auto simp: sp_assign_def sp_new_def sp_delete_def bindE_def split: sum.splits)

lemma sp_assign_cell:
  assumes ok: "cell_ok a s w rh" and q: "q \<in> {None, Some a}" "q = Some a \<Longrightarrow> rh_base rh a" and room: "s + w + 1 < 268435456"
    and p: "p \<in> {None, Some a}" "p = Some a \<Longrightarrow> 0 < s"
  shows "\<exists>rh'. sp_assign p q rh = Inr (q, rh') \<and>
    cell_ok a (s + of_bool (q = Some a) - of_bool (p = Some a)) w rh' \<and> (rh_base rh' a \<longrightarrow> rh_base rh a)"
proof -
  obtain rh1 where 1: "sp_new q rh = Inr (q, rh1)" "cell_ok a (s + of_bool (q = Some a)) w rh1" "rh_base rh1 a = rh_base rh a"
    using sp_new_cell [OF ok q room] by blast
  with sp_delete_cell [OF 1(2) p(1)] p(2) show ?thesis by (auto simp: sp_assign_two)
qed

lemma wp_new_cell:
  assumes "cell_ok a s w rh" and "0 < s" and "s + w + 1 < 268435456"
  shows "\<exists>rh'. wp_new (Some a) rh = Inr (Some a, rh') \<and> cell_ok a s (w + 1) rh' \<and> rh_base rh' a = rh_base rh a"
proof -
  have "rh_impl rh a \<noteq> None" by (rule cell_impl [OF assms(1)]) (use assms(2) in auto)
  with incWeak_moves [OF assms(1) _ assms(3)] cell_alive [OF assms(1,2)] show ?thesis
    by (auto simp: wp_new_def creatWeak_def base_check_def moves_cell_def)
qed

lemma wp_delete_cell:
  assumes "cell_ok a s w rh" and "0 < w"
  shows "\<exists>rh'. wp_delete (Some a) rh = Inr rh' \<and> cell_ok a s (w - 1) rh' \<and> (rh_base rh' a \<longrightarrow> rh_base rh a)"
  using decWeak_moves [of a s "w - 1" rh] assms decWeak_base [of a s "w - 1" rh] by (auto simp: wp_delete_def moves_cell_def)

lemma wp_promote_cell:
  assumes "cell_ok a s w rh" and "0 < w" and "s + w + 1 < 268435456"
  shows "\<exists>rh'. wp_promote (Some a) rh = Inr (if rh_base rh a then Some a else None, rh') \<and>
    cell_ok a (s + of_bool (rh_base rh a)) w rh' \<and> rh_base rh' a = rh_base rh a"
  using attemptIncStrong_moves [OF assms] by (auto simp: wp_promote_def moves_cell_def)

section \<open>The invariant\<close>

abbreviation (input) here :: "nat option" where "here \<equiv> Some 0"
abbreviation (input) maybe_here :: "nat option \<Rightarrow> bool" where "maybe_here p \<equiv> p = None \<or> p = Some 0"

text \<open>The pointers a thread holds in each place.\<close>

definition slot_ok :: "loop_thread \<Rightarrow> bool" where
  "slot_ok l \<longleftrightarrow>
     (case tl_pc l of
        AtStrong \<Rightarrow> tl_strong l = None \<and> tl_weak l = None \<and> tl_tmp l = None
      | AtWeak \<Rightarrow> tl_strong l = here \<and> tl_weak l = None \<and> tl_tmp l = None
      | AtPromote \<Rightarrow> tl_strong l = None \<and> tl_weak l = here \<and> tl_tmp l = None
      | AtAssign \<Rightarrow> tl_strong l = None \<and> tl_weak l = here \<and> maybe_here (tl_tmp l)
      | AtEndWeak \<Rightarrow> maybe_here (tl_strong l) \<and> tl_weak l = here \<and> tl_tmp l = None
      | AtEndStrong \<Rightarrow> maybe_here (tl_strong l) \<and> tl_weak l = None \<and> tl_tmp l = None
      | AtDone \<Rightarrow> l = idle_thread
      | _ \<Rightarrow> tl_strong l = here \<and> tl_weak l = here \<and> tl_tmp l = None)"

text \<open>Before the thread has taken over the pointer in \<open>mHoldSelf\<close>, and before it has decided to end.\<close>

definition starting :: "loop_thread \<Rightarrow> bool" where
  "starting l \<longleftrightarrow> tl_pc l = AtStrong \<or> tl_pc l = AtWeak \<or> tl_pc l = AtRelease"

definition in_loop :: "loop_thread \<Rightarrow> bool" where
  "in_loop l \<longleftrightarrow> tl_pc l \<noteq> AtEndWeak \<and> tl_pc l \<noteq> AtEndStrong \<and> tl_pc l \<noteq> AtDone"

text \<open>The thread was told that the object is gone.\<close>

definition lost :: "loop_thread \<Rightarrow> bool" where
  "lost l \<longleftrightarrow> tl_pc l = AtAssign \<and> tl_tmp l = None"

definition tally :: "(loop_thread \<Rightarrow> 'a) \<Rightarrow> 'a \<Rightarrow> loop_thread list \<Rightarrow> nat" where
  "tally f x ls = count_list (map f ls) x"

lemma tally_update:
  "i < length ls \<Longrightarrow> tally f x (ls[i := l]) + of_bool (f (ls ! i) = x) = tally f x ls + of_bool (f l = x)"
  using count_list_update [of i "map f ls" "f l" x] by (simp add: tally_def map_update)

lemma tally_pos: "i < length ls \<Longrightarrow> f (ls ! i) = x \<Longrightarrow> 0 < tally f x ls"
  unfolding tally_def using count_list_0_iff [of "map f ls" x] nth_mem [of i ls] by fastforce

lemma tally_le: "tally f x ls \<le> length ls"
  using count_le_length [of "map f ls" x] by (simp add: tally_def)

definition strong_refs :: "nat option list \<Rightarrow> loop_thread list \<Rightarrow> thread_obj \<Rightarrow> nat" where
  "strong_refs sps ls obj = count_list sps here + tally tl_strong here ls + tally tl_tmp here ls + of_bool (mHoldSelf obj = here)"

definition loops_inv :: "nat option list \<Rightarrow> loop_thread list \<Rightarrow> thread_obj \<Rightarrow> ref_heap \<Rightarrow> bool" where
  "loops_inv sps ls obj rh \<longleftrightarrow>
     length sps + 3 * length ls + 4 < 268435456 \<and> set sps \<subseteq> {None, here} \<and> maybe_here (mHoldSelf obj) \<and>
     list_all slot_ok ls \<and>
     cell_ok 0 (strong_refs sps ls obj) (tally tl_weak here ls) rh \<and>
     tally starting True ls = of_bool (mHoldSelf obj = here) \<and> tally in_loop True ls \<le> 1 \<and>
     (rh_base rh 0 \<longrightarrow> tally in_loop True ls = of_bool (mRunning obj)) \<and>
     (list_ex lost ls \<longrightarrow> \<not> rh_base rh 0)"

definition thread_inv :: "thread_sys \<Rightarrow> bool" where
  "thread_inv st \<longleftrightarrow> loops_inv (ts_sps st) (ts_slots st) (ts_obj st) (ts_heap st)"

lemma loops_room:
  assumes "loops_inv sps ls obj rh"
  shows "strong_refs sps ls obj + tally tl_weak here ls + 2 < 268435456"
  using assms tally_le [of tl_strong here ls] tally_le [of tl_tmp here ls] tally_le [of tl_weak here ls]
    count_le_length [of sps here]
  by (simp add: loops_inv_def strong_refs_def split: if_splits)

text \<open>A step of one thread, given what it does to the counters.\<close>

lemma loops_inv_step:
  assumes inv: "loops_inv sps ls obj rh" and i: "i < length ls" and slot: "slot_ok l"
    and cell: "cell_ok 0 s w rh'"
    and s: "s + of_bool (tl_strong (ls ! i) = here) + of_bool (tl_tmp (ls ! i) = here) + of_bool (mHoldSelf obj = here) =
      strong_refs sps ls obj + of_bool (tl_strong l = here) + of_bool (tl_tmp l = here) + of_bool (mHoldSelf obj' = here)"
    and w: "w + of_bool (tl_weak (ls ! i) = here) = tally tl_weak here ls + of_bool (tl_weak l = here)"
    and base: "rh_base rh' 0 \<Longrightarrow> rh_base rh 0" and hold: "maybe_here (mHoldSelf obj')"
    and start: "of_bool (starting l) + of_bool (mHoldSelf obj = here) = (of_bool (starting (ls ! i)) + of_bool (mHoldSelf obj' = here) :: nat)"
    and loop: "in_loop l \<Longrightarrow> in_loop (ls ! i) \<or> tally in_loop True ls = 0"
    and run: "rh_base rh' 0 \<Longrightarrow> of_bool (in_loop l) + of_bool (mRunning obj) = (of_bool (in_loop (ls ! i)) + of_bool (mRunning obj') :: nat)"
    and lost: "lost l \<Longrightarrow> \<not> rh_base rh' 0"
  shows "loops_inv sps (ls[i := l]) obj' rh'"
proof -
  note t = tally_update [OF i, of tl_strong here l] tally_update [OF i, of tl_tmp here l] tally_update [OF i, of tl_weak here l]
    tally_update [OF i, of starting True l] tally_update [OF i, of in_loop True l]
  have "strong_refs sps (ls[i := l]) obj' = s" using s t(1,2) by (simp add: strong_refs_def)
  moreover have "tally tl_weak here (ls[i := l]) = w" using w t(3) by simp
  ultimately have "cell_ok 0 (strong_refs sps (ls[i := l]) obj') (tally tl_weak here (ls[i := l])) rh'" using cell by simp
  moreover have "list_all slot_ok (ls[i := l])"
    using inv slot by (auto simp: loops_inv_def list_all_iff dest!: set_update_subset_insert [THEN subsetD])
  moreover have "list_ex lost (ls[i := l]) \<Longrightarrow> \<not> rh_base rh' 0"
    using inv lost base by (auto simp: loops_inv_def list_ex_iff dest!: set_update_subset_insert [THEN subsetD])
  moreover have "tally in_loop True (ls[i := l]) \<le> 1"
  proof -
    have "tally in_loop True ls \<le> 1" using inv by (simp add: loops_inv_def)
    then show ?thesis using loop t(5) by (cases "in_loop l") auto
  qed
  moreover have "tally starting True (ls[i := l]) = of_bool (mHoldSelf obj' = here)"
    using inv start t(4) by (simp add: loops_inv_def)
  moreover have "rh_base rh' 0 \<Longrightarrow> tally in_loop True (ls[i := l]) = of_bool (mRunning obj')"
    using inv run base t(5) by (simp add: loops_inv_def)
  ultimately show ?thesis using inv hold by (simp add: loops_inv_def)
qed

lemma loop_step_ok:
  assumes inv: "loops_inv sps ls obj rh" and i: "i < length ls"
  shows "\<exists>l obj' rh'. loop_step 0 ch (ls ! i) obj rh = Inr (l, obj', rh') \<and> loops_inv sps (ls[i := l]) obj' rh'"
proof -
  let ?l = "ls ! i" and ?s = "strong_refs sps ls obj" and ?w = "tally tl_weak here ls"
  have slot: "slot_ok ?l" using inv i by (simp add: loops_inv_def list_all_length)
  have cell: "cell_ok 0 ?s ?w rh" and hold: "mHoldSelf obj \<in> {None, here}"
    and starts: "tally starting True ls = of_bool (mHoldSelf obj = here)"
    using inv by (simp_all add: loops_inv_def)
  have room: "?s + ?w + 1 < 268435456" using loops_room [OF inv] by simp
  have strong: "0 < ?s" if "tl_strong ?l = here \<or> tl_tmp ?l = here \<or> mHoldSelf obj = here"
    using that tally_pos [OF i, of tl_strong here] tally_pos [OF i, of tl_tmp here] by (auto simp: strong_refs_def)
  have alive: "rh_base rh 0" if "tl_strong ?l = here \<or> tl_tmp ?l = here \<or> mHoldSelf obj = here"
    by (rule cell_alive [OF cell strong [OF that]])
  have weak: "0 < ?w" if "tl_weak ?l = here" using that tally_pos [OF i, of tl_weak here] by simp
  have held: "mHoldSelf obj = here" if "starting ?l" using that starts tally_pos [OF i, of starting True] by simp
  have gone: "\<not> rh_base rh 0" if "lost ?l" using that inv i by (auto simp: loops_inv_def list_ex_length)
  note step = loops_inv_step [OF inv i]
  note defs = loop_step_def base_check_def exitPending_def
  show ?thesis
  proof (cases "tl_pc ?l")
    case AtStrong
    then have l: "tl_strong ?l = None" "tl_weak ?l = None" "tl_tmp ?l = None" "mHoldSelf obj = here"
      using slot held by (simp_all add: slot_ok_def starting_def)
    obtain rh' where *: "sp_new here rh = Inr (here, rh')" "cell_ok 0 (?s + 1) ?w rh'" "rh_base rh' 0 = rh_base rh 0"
      using sp_new_cell [OF cell _ _ room, of here] alive l by auto
    show ?thesis
      using AtStrong l * alive by (auto simp: defs slot_ok_def starting_def in_loop_def lost_def intro!: step [OF _ *(2)])
  next
    case AtWeak
    then have l: "tl_strong ?l = here" "tl_weak ?l = None" "tl_tmp ?l = None" "mHoldSelf obj = here"
      using slot held by (simp_all add: slot_ok_def starting_def)
    obtain rh' where *: "wp_new here rh = Inr (here, rh')" "cell_ok 0 ?s (?w + 1) rh'" "rh_base rh' 0 = rh_base rh 0"
      using wp_new_cell [OF cell _ room] strong l by auto
    show ?thesis
      using AtWeak l * by (auto simp: defs slot_ok_def starting_def in_loop_def lost_def intro!: step [OF _ *(2)])
  next
    case AtRelease
    then have l: "tl_strong ?l = here" "tl_weak ?l = here" "tl_tmp ?l = None" "mHoldSelf obj = here"
      using slot held by (simp_all add: slot_ok_def starting_def)
    then have two: "1 < ?s" using tally_pos [OF i, of tl_strong here] by (simp add: strong_refs_def)
    obtain rh' where *: "sp_clear here rh = Inr (None, rh')" "cell_ok 0 (?s - 1) ?w rh'" "rh_base rh' 0 \<longrightarrow> rh_base rh 0"
      using sp_clear_cell [OF cell, of here] strong l by auto
    then have "rh_base rh' 0" using cell_alive [OF *(2)] two by simp
    with AtRelease l * two alive show ?thesis
      by (auto simp: defs slot_ok_def starting_def in_loop_def lost_def intro!: step [OF _ *(2)])
  next
    case AtTid
    then show ?thesis
      using slot alive hold by (auto simp: defs slot_ok_def starting_def in_loop_def lost_def intro!: step [OF _ cell])
  next
    case AtReady
    then show ?thesis
      using slot alive hold by (auto simp: defs slot_ok_def starting_def in_loop_def lost_def intro!: step [OF _ cell])
  next
    case AtPending
    then show ?thesis
      using slot alive hold by (auto simp: defs slot_ok_def starting_def in_loop_def lost_def intro!: step [OF _ cell])
  next
    case AtBody
    then show ?thesis
      using slot alive hold by (auto simp: defs slot_ok_def starting_def in_loop_def lost_def intro!: step [OF _ cell])
  next
    case (AtDecide result)
    then have l: "in_loop ?l" by (simp add: in_loop_def)
    have "rh_base rh 0" using AtDecide slot alive by (simp add: slot_ok_def)
    then have "tally in_loop True ls = of_bool (mRunning obj)" using inv by (simp add: loops_inv_def)
    then have running: "mRunning obj" using tally_pos [OF i, of in_loop True] l by (cases "mRunning obj") auto
    then show ?thesis
      using AtDecide slot alive hold by (auto simp: defs slot_ok_def starting_def in_loop_def lost_def intro!: step [OF _ cell])
  next
    case AtClear
    then have l: "tl_strong ?l = here" "tl_weak ?l = here" "tl_tmp ?l = None" using slot by (simp_all add: slot_ok_def)
    obtain rh' where *: "sp_clear here rh = Inr (None, rh')" "cell_ok 0 (?s - 1) ?w rh'" "rh_base rh' 0 \<longrightarrow> rh_base rh 0"
      using sp_clear_cell [OF cell, of here] strong l by auto
    show ?thesis
      using AtClear l * strong hold by (auto simp: defs slot_ok_def starting_def in_loop_def lost_def intro!: step [OF _ *(2)])
  next
    case AtPromote
    then have l: "tl_strong ?l = None" "tl_weak ?l = here" "tl_tmp ?l = None" using slot by (simp_all add: slot_ok_def)
    obtain rh' where *: "wp_promote here rh = Inr (if rh_base rh 0 then here else None, rh')"
      "cell_ok 0 (?s + of_bool (rh_base rh 0)) ?w rh'" "rh_base rh' 0 = rh_base rh 0"
      using wp_promote_cell [OF cell _ room] weak l by auto
    show ?thesis
      using AtPromote l * hold by (auto simp: defs slot_ok_def starting_def in_loop_def lost_def intro!: step [OF _ *(2)])
  next
    case AtAssign
    then have l: "tl_strong ?l = None" "tl_weak ?l = here" "tl_tmp ?l \<in> {None, here}" using slot by (auto simp: slot_ok_def)
    obtain rh1 where 1: "sp_assign None (tl_tmp ?l) rh = Inr (tl_tmp ?l, rh1)"
      "cell_ok 0 (?s + of_bool (tl_tmp ?l = here) - of_bool (None = here)) ?w rh1" "rh_base rh1 0 \<longrightarrow> rh_base rh 0"
      using sp_assign_cell [OF cell l(3) _ room, of None] alive by auto
    obtain rh2 where 2: "sp_delete (tl_tmp ?l) rh1 = Inr rh2"
      "cell_ok 0 (?s + of_bool (tl_tmp ?l = here) - of_bool (None = here) - of_bool (tl_tmp ?l = here)) ?w rh2"
      "rh_base rh2 0 \<longrightarrow> rh_base rh1 0"
      using sp_delete_cell [OF 1(2) l(3)] by auto
    have "tl_tmp ?l = None \<Longrightarrow> \<not> rh_base rh 0" using gone AtAssign by (simp add: lost_def)
    with AtAssign l 1 2 hold show ?thesis
      by (auto simp: defs slot_ok_def starting_def in_loop_def lost_def intro!: step [OF _ 2(2)])
  next
    case AtEndWeak
    then have l: "tl_weak ?l = here" "tl_tmp ?l = None" "maybe_here (tl_strong ?l)" using slot by (simp_all add: slot_ok_def)
    obtain rh' where *: "wp_delete here rh = Inr rh'" "cell_ok 0 ?s (?w - 1) rh'" "rh_base rh' 0 \<longrightarrow> rh_base rh 0"
      using wp_delete_cell [OF cell] weak l by auto
    show ?thesis
      using AtEndWeak l * weak hold by (auto simp: defs slot_ok_def starting_def in_loop_def lost_def intro!: step [OF _ *(2)])
  next
    case AtEndStrong
    then have l: "tl_weak ?l = None" "tl_tmp ?l = None" "tl_strong ?l \<in> {None, here}" using slot by (auto simp: slot_ok_def)
    obtain rh' where *: "sp_delete (tl_strong ?l) rh = Inr rh'" "cell_ok 0 (?s - of_bool (tl_strong ?l = here)) ?w rh'"
      "rh_base rh' 0 \<longrightarrow> rh_base rh 0"
      using sp_delete_cell [OF cell l(3)] strong by auto
    show ?thesis
      using AtEndStrong l * strong hold
      by (auto simp: defs slot_ok_def starting_def in_loop_def lost_def idle_thread_def intro!: step [OF _ *(2)])
  next
    case AtDone
    then have "?l = idle_thread" using slot by (simp add: slot_ok_def)
    with inv i AtDone show ?thesis by (auto simp: defs) (metis list_update_id)
  qed
qed

section \<open>Clients\<close>

lemma client_ptr_ok:
  assumes inv: "loops_inv sps ls obj rh" and i: "i < length sps"
  shows "sps ! i \<in> {None, here}" "sps ! i = here \<Longrightarrow> 0 < count_list sps here"
    "sps ! i = here \<Longrightarrow> rh_base rh 0"
proof -
  show "sps ! i \<in> {None, here}" using inv nth_mem [OF i] by (auto simp: loops_inv_def)
  show pos: "0 < count_list sps here" if "sps ! i = here"
    using that count_list_0_iff [of sps here] nth_mem [OF i] by fastforce
  show "rh_base rh 0" if "sps ! i = here"
    using inv pos [OF that] by (intro cell_alive [of 0 "strong_refs sps ls obj"]) (auto simp: loops_inv_def strong_refs_def)
qed

lemma client_set_ok:
  assumes inv: "loops_inv sps ls obj rh" and i: "i < length sps" and p: "maybe_here p"
    and cell: "cell_ok 0 (strong_refs sps ls obj + of_bool (p = here) - of_bool (sps ! i = here)) (tally tl_weak here ls) rh'"
    and base: "rh_base rh' 0 \<Longrightarrow> rh_base rh 0"
  shows "loops_inv (sps[i := p]) ls obj rh'"
proof -
  have "count_list (sps[i := p]) here + of_bool (sps ! i = here) = count_list sps here + of_bool (p = here)"
    by (rule count_list_update [OF i])
  then have "strong_refs (sps[i := p]) ls obj = strong_refs sps ls obj + of_bool (p = here) - of_bool (sps ! i = here)"
    using client_ptr_ok(2) [OF inv i] by (simp add: strong_refs_def)
  moreover have "set (sps[i := p]) \<subseteq> {None, here}"
    using inv p set_update_subset_insert [of sps i p] by (auto simp: loops_inv_def)
  ultimately show ?thesis using inv cell base by (auto simp: loops_inv_def)
qed

lemma tally_starting_le: "tally starting True ls \<le> tally in_loop True ls"
  by (induction ls) (auto simp: tally_def starting_def in_loop_def)

lemma thread_run_ok:
  assumes inv: "loops_inv sps ls obj rh" and i: "i < length sps" "sps ! i = here"
    and k: "k < length ls" "ls ! k = idle_thread" and java: "mCanCallJava obj \<longrightarrow> mRunning obj"
  shows "\<exists>r obj' rt' rh'. Thread_run 0 name priority obj rt rh = Inr (r, obj', rt', rh') \<and>
    loops_inv sps (if r = THREAD_OK then ls[k := fresh_thread] else ls) obj' rh'"
proof -
  let ?s = "strong_refs sps ls obj" and ?w = "tally tl_weak here ls"
  have cell: "cell_ok 0 ?s ?w rh" using inv by (simp add: loops_inv_def)
  have room: "?s + ?w + 1 < 268435456" using loops_room [OF inv] by simp
  have alive: "rh_base rh 0" and s: "0 < ?s"
    using client_ptr_ok(2,3) [OF inv i(1)] i(2) by (simp_all add: strong_refs_def)
  show ?thesis
  proof (cases "mRunning obj")
    case True
    with inv alive show ?thesis by (simp add: Thread_run_def base_check_def)
  next
    case False
    with java have can: "\<not> mCanCallJava obj" by simp
    have none: "tally in_loop True ls = 0" using inv alive False by (simp add: loops_inv_def)
    then have hold: "mHoldSelf obj = None" using inv tally_starting_le [of ls] by (auto simp: loops_inv_def)
    obtain rh1 where 1: "sp_assign None here rh = Inr (here, rh1)" "cell_ok 0 (?s + 1) ?w rh1" "rh_base rh1 0 \<longrightarrow> rh_base rh 0"
      using sp_assign_cell [OF cell _ _ room, of here None] alive by auto
    obtain w rt' where cr: "droidCreateRawThreadEtc 0 0 (Some name) priority rt = (w, rt')" by fastforce
    show ?thesis
    proof (cases w)
      case None
      obtain rh2 where 2: "sp_clear here rh1 = Inr (None, rh2)" "cell_ok 0 ?s ?w rh2" "rh_base rh2 0 \<longrightarrow> rh_base rh1 0"
        using sp_clear_cell [OF 1(2), of here] by auto
      have "rh_base rh2 0" by (rule cell_alive [OF 2(2) s])
      moreover have "loops_inv sps ls (obj\<lparr>mExitPending := False, mStatus := THREAD_UNKNOWN_ERROR, mRunning := False, mThread := None,
          mHoldSelf := None\<rparr>) rh2"
        using inv 1(3) 2 hold False by (auto simp: loops_inv_def strong_refs_def)
      ultimately show ?thesis
        using False alive 1 2 cr None can hold by (simp add: Thread_run_def base_check_def Let_def)
    next
      case (Some n)
      let ?obj = "obj\<lparr>mStatus := THREAD_OK, mExitPending := False, mHoldSelf := here, mRunning := True, mThread := Some n\<rparr>"
      have "loops_inv sps (ls[k := fresh_thread]) ?obj rh1"
        by (rule loops_inv_step [OF inv k(1) _ 1(2)])
          (use k(2) hold can none alive False in \<open>simp_all add: fresh_thread_def idle_thread_def slot_ok_def starting_def in_loop_def lost_def\<close>)
      then show ?thesis
        using False alive 1 cr Some can hold by (simp add: Thread_run_def base_check_def Let_def)
    qed
  qed
qed

text \<open>The calls of \<open>run\<close> that read \<open>res\<close> without a value.\<close>

fun reads_unset :: "thread_act \<Rightarrow> thread_sys \<Rightarrow> bool" where
  "reads_unset (ClientRun i name priority k) st = (mCanCallJava (ts_obj st) \<and> \<not> mRunning (ts_obj st))"
| "reads_unset _ st = False"

lemma act_run_ok:
  assumes inv: "thread_inv st" and may: "act_may act st" and set: "\<not> reads_unset act st"
  shows "\<exists>st'. act_run act st = Inr st' \<and> thread_inv st'"
proof (cases act)
  case (LoopStep i ch)
  with loop_step_ok [of "ts_sps st" "ts_slots st" "ts_obj st" "ts_heap st" i ch] inv may show ?thesis
    by (auto simp: thread_inv_def)
next
  case (ClientCopy i j)
  let ?p = "ts_sps st ! i" and ?q = "ts_sps st ! j"
  have inv': "loops_inv (ts_sps st) (ts_slots st) (ts_obj st) (ts_heap st)" and ij: "i < length (ts_sps st)" "j < length (ts_sps st)"
    using inv may ClientCopy by (simp_all add: thread_inv_def)
  have "0 < strong_refs (ts_sps st) (ts_slots st) (ts_obj st)" if "?p = here"
    using client_ptr_ok(2) [OF inv' ij(1) that] by (simp add: strong_refs_def)
  moreover have "cell_ok 0 (strong_refs (ts_sps st) (ts_slots st) (ts_obj st)) (tally tl_weak here (ts_slots st)) (ts_heap st)"
    using inv' by (simp add: loops_inv_def)
  ultimately obtain rh where "sp_assign ?p ?q (ts_heap st) = Inr (?q, rh)"
    "cell_ok 0 (strong_refs (ts_sps st) (ts_slots st) (ts_obj st) + of_bool (?q = here) - of_bool (?p = here)) (tally tl_weak here (ts_slots st)) rh"
    "rh_base rh 0 \<longrightarrow> rh_base (ts_heap st) 0"
    using sp_assign_cell [of 0 _ _ "ts_heap st" ?q ?p] client_ptr_ok [OF inv' ij(1)] client_ptr_ok [OF inv' ij(2)]
      loops_room [OF inv'] by fastforce
  with client_set_ok [OF inv' ij(1), of ?q rh] client_ptr_ok(1) [OF inv' ij(2)] ClientCopy show ?thesis
    by (auto simp: thread_inv_def)
next
  case (ClientClear i)
  let ?p = "ts_sps st ! i"
  have inv': "loops_inv (ts_sps st) (ts_slots st) (ts_obj st) (ts_heap st)" and i: "i < length (ts_sps st)"
    using inv may ClientClear by (simp_all add: thread_inv_def)
  have "0 < strong_refs (ts_sps st) (ts_slots st) (ts_obj st)" if "?p = here"
    using client_ptr_ok(2) [OF inv' i that] by (simp add: strong_refs_def)
  moreover have "cell_ok 0 (strong_refs (ts_sps st) (ts_slots st) (ts_obj st)) (tally tl_weak here (ts_slots st)) (ts_heap st)"
    using inv' by (simp add: loops_inv_def)
  ultimately obtain rh where "sp_clear ?p (ts_heap st) = Inr (None, rh)"
    "cell_ok 0 (strong_refs (ts_sps st) (ts_slots st) (ts_obj st) - of_bool (?p = here)) (tally tl_weak here (ts_slots st)) rh"
    "rh_base rh 0 \<longrightarrow> rh_base (ts_heap st) 0"
    using sp_clear_cell [of 0 _ _ "ts_heap st" ?p] client_ptr_ok(1) [OF inv' i] by blast
  with client_set_ok [OF inv' i, of None rh] ClientClear show ?thesis by (auto simp: thread_inv_def)
next
  case (ClientRun i name priority k)
  with thread_run_ok [of "ts_sps st" "ts_slots st" "ts_obj st" "ts_heap st" i k name priority "ts_raw st"] inv may set
  show ?thesis by (auto simp: thread_inv_def)
qed

lemma thread_run_unset:
  assumes inv: "loops_inv sps ls obj rh" and i: "i < length sps" "sps ! i = here" and java: "mCanCallJava obj" "\<not> mRunning obj"
  shows "Thread_run 0 name priority obj rt rh = Inl Uninitialised"
proof -
  let ?s = "strong_refs sps ls obj" and ?w = "tally tl_weak here ls"
  have cell: "cell_ok 0 ?s ?w rh" using inv by (simp add: loops_inv_def)
  have alive: "rh_base rh 0" using client_ptr_ok(2,3) [OF inv i(1)] i(2) by simp
  then have "tally in_loop True ls = 0" using inv java(2) by (simp add: loops_inv_def)
  then have "mHoldSelf obj = None" using inv tally_starting_le [of ls] by (auto simp: loops_inv_def)
  moreover obtain rh1 where "sp_assign None here rh = Inr (here, rh1)"
    using sp_assign_cell [OF cell, of here None] loops_room [OF inv] alive by auto
  ultimately show ?thesis using alive java by (simp add: Thread_run_def base_check_def Let_def)
qed

lemma act_run_unset:
  assumes "thread_inv st" and "act_may act st" and "reads_unset act st"
  shows "act_run act st = Inl Uninitialised"
proof (cases act)
  case (ClientRun i name priority k)
  with assms show ?thesis by (simp add: thread_inv_def thread_run_unset [of _ _ _ _ i])
qed (use assms(3) in simp_all)

lemma thread_init_inv:
  assumes "thread_init st"
  shows "thread_inv st"
proof -
  obtain a rh where new: "RefBase_new empty_heap = (a, rh)" by fastforce
  have empty: "heap_ok (\<lambda>_. 0) (\<lambda>_. 0) empty_heap"
    by (simp add: heap_ok_def cell_ok_def deleted_once_def empty_heap_def)
  note n = RefBase_new_ok [OF empty new]
  have a: "a = 0" using new by (simp add: RefBase_new_def empty_heap_def Let_def)
  from sp_new_cell [OF heap_okD [OF n(1), of 0], of here] n(2) a assms new
  have cell: "cell_ok 0 1 0 (ts_heap st)" by (simp add: thread_init_def)
  obtain ps where sps: "ts_sps st = here # ps" "set ps \<subseteq> {None}" using assms by (cases "ts_sps st") (auto simp: thread_init_def)
  then have one: "count_list (ts_sps st) here = 1" using count_list_0_iff [of ps here] by auto
  have idle: "f idle_thread \<noteq> x \<Longrightarrow> tally f x (ts_slots st) = 0" for f :: "loop_thread \<Rightarrow> 'x" and x
    using assms by (auto simp: tally_def count_list_0_iff thread_init_def)
  have "tally tl_strong here (ts_slots st) = 0" "tally tl_tmp here (ts_slots st) = 0" "tally tl_weak here (ts_slots st) = 0"
    "tally starting True (ts_slots st) = 0" "tally in_loop True (ts_slots st) = 0"
    by (auto intro!: idle simp: idle_thread_def starting_def in_loop_def)
  moreover have "list_all slot_ok (ts_slots st)" "\<not> list_ex lost (ts_slots st)"
    using assms by (auto simp: thread_init_def list_all_iff list_ex_iff slot_ok_def lost_def idle_thread_def)
  ultimately show ?thesis
    using assms cell one sps
    by (auto simp: thread_inv_def loops_inv_def strong_refs_def thread_init_def Thread_new_def)
qed

interpretation threads: invariant_system thread_init thread_step thread_inv
proof unfold_locales
  fix st st'
  assume "thread_step st st'" and "thread_inv st"
  then show "thread_inv st'"
    by (elim thread_stepE) (metis act_run_ok act_run_unset Inl_Inr_False sum.inject(2))
qed (rule thread_init_inv)

end
