(* ===== verification/Threads_Props.thy ===== *)
theory Threads_Props
  imports Threads_Machine
begin

text \<open>
  What clients and threads can rely on, and what happens when \<open>run\<close> fails for an object nobody holds.
\<close>

section \<open>Any interleaving\<close>

text \<open>A run for the witnesses: two client pointers, one started thread in \<open>threadLoop\<close>.\<close>

definition ex_threads :: thread_sys where
  "ex_threads = \<lparr>ts_heap = (case sp_new (Some 0) (snd (RefBase_new empty_heap)) of Inr (p, rh) \<Rightarrow> rh | Inl e \<Rightarrow> empty_heap),
     ts_obj = Thread_new False, ts_raw = \<lparr>rt_create = [0, 11], rt_data = [], rt_started = []\<rparr>,
     ts_slots = [idle_thread, idle_thread], ts_sps = [Some 0, None]\<rparr>"

definition ex_choice :: loop_choice where
  "ex_choice = \<lparr>ch_tid = 42, ch_ready = 0, ch_body = True\<rparr>"

definition ex_acts :: "thread_act list" where
  "ex_acts = [ClientRun 0 ''looper'' 19 0, LoopStep 0 ex_choice, ClientCopy 1 0, LoopStep 0 ex_choice, LoopStep 0 ex_choice,
     LoopStep 0 ex_choice, LoopStep 0 ex_choice, LoopStep 0 ex_choice]"

fun acts_run :: "thread_act list \<Rightarrow> thread_sys \<Rightarrow> thread_sys chk" where
  "acts_run [] st = Inr st"
| "acts_run (act # acts) st = (if act_may act st then bindE (act_run act st) (acts_run acts) else Inl BugOn)"

lemma acts_reachable:
  "reachable thread_init thread_step st \<Longrightarrow> acts_run acts st = Inr st' \<Longrightarrow> reachable thread_init thread_step st'"
proof (induction acts arbitrary: st)
  case (Cons act acts)
  then obtain st1 where "act_may act st" "act_run act st = Inr st1" "acts_run acts st1 = Inr st'"
    by (auto simp: bindE_Inr_iff split: if_splits)
  with Cons show ?case using reach_step [OF Cons.prems(1) thread_stepI] by blast
qed simp

lemma ex_threads_init: "thread_init ex_threads"
proof -
  have "case sp_new (Some 0) (snd (RefBase_new empty_heap)) of Inr (p, _) \<Rightarrow> p = Some 0 | Inl _ \<Rightarrow> False" by code_simp
  then have "sp_new (Some 0) (snd (RefBase_new empty_heap)) = Inr (Some 0, ts_heap ex_threads)"
    by (auto simp: ex_threads_def split: sum.splits)
  then show ?thesis by (simp add: thread_init_def) (simp add: ex_threads_def)
qed

definition ex_running :: thread_sys where
  "ex_running = (case acts_run ex_acts ex_threads of Inr st \<Rightarrow> st | Inl e \<Rightarrow> ex_threads)"

lemma ex_running_reachable: "reachable thread_init thread_step ex_running"
proof -
  have "case acts_run ex_acts ex_threads of Inr _ \<Rightarrow> True | Inl _ \<Rightarrow> False" by code_simp
  then obtain st where st: "acts_run ex_acts ex_threads = Inr st" by (auto split: sum.splits)
  from acts_reachable [OF reach_init [where init = thread_init and step = thread_step, OF ex_threads_init] st] st show ?thesis by (simp add: ex_running_def)
qed

lemma ex_running_state:
  "length (ts_slots ex_running) = 2" "tl_pc (ts_slots ex_running ! 0) = AtBody" "ts_slots ex_running ! 1 = idle_thread"
  "ts_sps ex_running = [Some 0, Some 0]" "mRunning (ts_obj ex_running)"
  by code_simp+

lemma reachable_loops:
  assumes "reachable thread_init thread_step st"
  shows "loops_inv (ts_sps st) (ts_slots st) (ts_obj st) (ts_heap st)"
  using threads.reachable_inv [OF assms] by (simp add: thread_inv_def)

text \<open>C22: a \<open>Thread\<close> object and its references. A client has made the object and holds it; after that clients copy
  and clear their pointers and call \<open>run\<close> on the object through a pointer they hold at the time, and the
  threads that \<open>run\<close> has started go through \<open>_threadLoop\<close>, all step by step in any order. Then no step touches
  freed memory: each runs to its end, save a call of \<open>run\<close> on an object that is not running and was made with
  \<open>canCallJava\<close> true, the default of the constructor, which reads \<open>res\<close> without a value. The object exists as
  long as a client points to it or a thread is in \<open>readyToRun\<close>, in \<open>threadLoop\<close> or in the section that
  decides whether to go on. (A call of \<open>run\<close> on an object that no strong pointer holds is not among the
  steps: \<open>run_failure_frees_unowned\<close> shows what it may do.)\<close>

theorem thread_steps_are_safe:
  assumes "reachable thread_init thread_step st" and "act_may act st"
  shows "(if (\<exists>i name priority k. act = ClientRun i name priority k) \<and> mCanCallJava (ts_obj st) \<and> \<not> mRunning (ts_obj st)
      then act_run act st = Inl Uninitialised
      else \<exists>st'. act_run act st = Inr st' \<and> reachable thread_init thread_step st') \<and>
    (list_ex (\<lambda>l. tl_pc l \<in> {AtReady, AtPending, AtBody, AtDecide True, AtDecide False}) (ts_slots st) \<or>
       Some 0 \<in> set (ts_sps st) \<longrightarrow> rh_base (ts_heap st) 0)"
proof -
  have inv: "thread_inv st" using assms(1) by (rule threads.reachable_inv)
  have unset: "((\<exists>i name priority k. act = ClientRun i name priority k) \<and> mCanCallJava (ts_obj st) \<and> \<not> mRunning (ts_obj st)) =
      reads_unset act st"
    by (cases act) simp_all
  have "\<exists>st'. act_run act st = Inr st' \<and> reachable thread_init thread_step st'" if "\<not> reads_unset act st"
    using act_run_ok [OF inv assms(2) that] reach_step [OF assms(1) thread_stepI [OF assms(2)]] by blast
  moreover have "act_run act st = Inl Uninitialised" if "reads_unset act st" by (rule act_run_unset [OF inv assms(2) that])
  moreover have "rh_base (ts_heap st) 0"
    if "list_ex (\<lambda>l. tl_pc l \<in> {AtReady, AtPending, AtBody, AtDecide True, AtDecide False}) (ts_slots st) \<or> Some 0 \<in> set (ts_sps st)"
  proof -
    note loops = reachable_loops [OF assms(1)]
    from that have "0 < strong_refs (ts_sps st) (ts_slots st) (ts_obj st)"
    proof
      assume "list_ex (\<lambda>l. tl_pc l \<in> {AtReady, AtPending, AtBody, AtDecide True, AtDecide False}) (ts_slots st)"
      then obtain i where "i < length (ts_slots st)" "tl_pc (ts_slots st ! i) \<in> {AtReady, AtPending, AtBody, AtDecide True, AtDecide False}"
        by (auto simp: list_ex_length)
      moreover from this loops have "slot_ok (ts_slots st ! i)" by (simp add: loops_inv_def list_all_length)
      ultimately show ?thesis
        using tally_pos [of i "ts_slots st" tl_strong "Some 0"] by (auto simp: strong_refs_def slot_ok_def)
    next
      assume "Some 0 \<in> set (ts_sps st)"
      then show ?thesis using count_list_0_iff [of "ts_sps st" "Some 0"] by (simp add: strong_refs_def)
    qed
    then show ?thesis using loops cell_alive by (auto simp: loops_inv_def)
  qed
  ultimately show ?thesis by (simp add: unset)
qed

theorem thread_steps_are_safe_witness:
  "(\<exists>st'. act_run (LoopStep 0 ex_choice) ex_running = Inr st' \<and> reachable thread_init thread_step st') \<and>
    rh_base (ts_heap ex_running) 0"
  using thread_steps_are_safe [OF ex_running_reachable, of "LoopStep 0 ex_choice"] by (simp add: ex_running_state)

text \<open>C24: no two threads are in the loop of one object at a time: while one has not decided to end, \<open>run\<close> is
  refused and no other thread is in \<open>threadLoop\<close>.\<close>

theorem one_thread_in_loop:
  assumes "reachable thread_init thread_step st" and "i < length (ts_slots st)" and "in_loop (ts_slots st ! i)"
    and "rh_base (ts_heap st) 0"
  shows "mRunning (ts_obj st) \<and>
    (\<forall>j < length (ts_slots st). in_loop (ts_slots st ! j) \<longrightarrow> j = i) \<and>
    Thread_run 0 name priority (ts_obj st) (ts_raw st) (ts_heap st) =
      Inr (INVALID_OPERATION, ts_obj st, ts_raw st, ts_heap st)"
proof -
  note loops = reachable_loops [OF assms(1)]
  have pos: "0 < tally in_loop True (ts_slots st)" using tally_pos [OF assms(2), of in_loop True] assms(3) by simp
  have count: "tally in_loop True (ts_slots st) = of_bool (mRunning (ts_obj st))" using loops assms(4) by (simp add: loops_inv_def)
  with pos have running: "mRunning (ts_obj st)" by (cases "mRunning (ts_obj st)") auto
  have "j = i" if j: "j < length (ts_slots st)" "in_loop (ts_slots st ! j)" for j
  proof (rule ccontr)
    assume "j \<noteq> i"
    have "tally in_loop True ((ts_slots st)[j := idle_thread]) + 1 = tally in_loop True (ts_slots st)"
      using tally_update [OF j(1), of in_loop True idle_thread] j(2) by (simp add: in_loop_def idle_thread_def)
    moreover have "0 < tally in_loop True ((ts_slots st)[j := idle_thread])"
      using tally_pos [of i "(ts_slots st)[j := idle_thread]" in_loop True] assms(2,3) \<open>j \<noteq> i\<close> by simp
    ultimately show False using count running by simp
  qed
  with running assms(4) show ?thesis by (simp add: Thread_run_def base_check_def)
qed

theorem one_thread_in_loop_witness:
  "mRunning (ts_obj ex_running) \<and> \<not> in_loop (ts_slots ex_running ! 1)"
proof -
  have "rh_base (ts_heap ex_running) 0" by code_simp
  moreover have "0 < length (ts_slots ex_running)" "in_loop (ts_slots ex_running ! 0)"
    by (simp_all add: ex_running_state in_loop_def)
  ultimately have "mRunning (ts_obj ex_running) \<and>
      (\<forall>j < length (ts_slots ex_running). in_loop (ts_slots ex_running ! j) \<longrightarrow> j = 0)"
    using one_thread_in_loop [OF ex_running_reachable] by blast
  moreover have "1 < length (ts_slots ex_running)" by (simp add: ex_running_state)
  ultimately show ?thesis by fastforce
qed

section \<open>When run fails\<close>

text \<open>When \<open>pthread_create\<close> fails, \<open>run\<close> gives up the reference it took for itself before it gives back the lock: an
  object no strong pointer held is destroyed with its lock taken, and the write to \<open>mHoldSelf\<close> and the
  unlocking go to freed memory.\<close>

theorem run_failure_frees_unowned:
  assumes new: "RefBase_new rh = (a, rh1)" and obj: "\<not> mCanCallJava obj" "\<not> mRunning obj" "mHoldSelf obj = None"
    and fails: "case rt_create rt of [] \<Rightarrow> True | r # _ \<Rightarrow> r \<noteq> 0"
  shows "Thread_run a name priority obj rt rh1 = Inl UseAfterFree"
proof -
  have "fst (droidCreateRawThreadEtc 0 a (Some name) priority rt) = None"
    using fails by (auto simp: droidCreateRawThreadEtc_def pthread_create_def Let_def split: list.splits)
  then obtain rt' where "droidCreateRawThreadEtc 0 a (Some name) priority rt = (None, rt')" by (metis prod.collapse)
  moreover have "wrap32 (0 + 1) = 1" "wrap32 (INITIAL_STRONG_VALUE + 1) = INITIAL_STRONG_VALUE + 1"
    "wrap32 (INITIAL_STRONG_VALUE + 1 + - INITIAL_STRONG_VALUE) = 1" "wrap32 (1 + - 1) = 0"
    by (simp_all add: wrap32_id)
  ultimately show ?thesis
    using assms
    by (auto simp: Thread_run_def RefBase_new_def sp_assign_def sp_clear_def sp_delete_def incStrong_def decStrong_def incWeak_def
      decWeak_def weakref_impl_delete_def RefBase_delete_def ref_access_defs Let_def)
qed

theorem run_failure_frees_unowned_witness:
  "Thread_run 0 ''worker'' 19 (Thread_new False) \<lparr>rt_create = [11], rt_data = [], rt_started = []\<rparr>
     (snd (RefBase_new empty_heap)) = Inl UseAfterFree"
proof -
  have "RefBase_new empty_heap = (0, snd (RefBase_new empty_heap))" by (simp add: RefBase_new_def empty_heap_def Let_def)
  from run_failure_frees_unowned [OF this] show ?thesis by (simp add: Thread_new_def)
qed

section \<open>Raw threads\<close>

text \<open>C4: a thread that is started with a name or a priority of its own calls the function it was given with the argument it was
  given, after setting both, and its \<open>thread_data_t\<close> is freed. When \<open>pthread_create\<close> fails, nobody frees the
  block and the copy of the name.\<close>

theorem raw_thread_data:
  assumes "threadName \<noteq> None \<or> threadPriority \<noteq> PRIORITY_DEFAULT"
    and "droidCreateRawThreadEtc entry user threadName threadPriority rt = (r, rt')"
  shows "case r of
      Some n \<Rightarrow> \<exists>rt''. rt_started rt' ! n = Trampoline (length (rt_data rt)) \<and>
        thread_trampoline (length (rt_data rt)) rt' =
          Inr ((threadPriority, map_option droidSetThreadName threadName, entry, user), rt'') \<and>
        rt_data rt'' = rt_data rt @ [None]
    | None \<Rightarrow> rt_started rt' = rt_started rt \<and>
        rt_data rt' = rt_data rt @ [Some \<lparr>entryFunction = entry, userData = user,
          td_priority = threadPriority, td_threadName = threadName\<rparr>]"
  using assms
  by (auto simp: droidCreateRawThreadEtc_def pthread_create_def thread_trampoline_def arr_get_def Let_def
    split: list.splits if_splits)

theorem raw_thread_data_witness:
  "rt_data (snd (droidCreateRawThreadEtc 1 2 (Some ''worker'') 19 \<lparr>rt_create = [11], rt_data = [], rt_started = []\<rparr>)) =
    [Some \<lparr>entryFunction = 1, userData = 2, td_priority = 19, td_threadName = Some ''worker''\<rparr>]"
proof -
  let ?rt = "\<lparr>rt_create = [11], rt_data = [], rt_started = []\<rparr>"
  have "fst (droidCreateRawThreadEtc 1 2 (Some ''worker'') 19 ?rt) = None"
    by (simp add: droidCreateRawThreadEtc_def pthread_create_def)
  then have "droidCreateRawThreadEtc 1 2 (Some ''worker'') 19 ?rt =
      (None, snd (droidCreateRawThreadEtc 1 2 (Some ''worker'') 19 ?rt))"
    by (metis prod.collapse)
  from raw_thread_data [OF _ this] show ?thesis by simp
qed

lemma scan_name_eq: "scan_name cs hasAt hasDot = (hasAt \<or> CHR ''@'' \<in> set cs, hasDot \<or> CHR ''.'' \<in> set cs)"
  by (induction cs arbitrary: hasAt hasDot) auto

text \<open>C5: the name a thread shows is the name it was given, except that a name with a dot and without an at sign is
  cut at the front to its last 15 characters.\<close>

theorem thread_name_suffix:
  "droidSetThreadName name =
    (if CHR ''.'' \<in> set name \<and> CHR ''@'' \<notin> set name then rev (take 15 (rev name)) else name)"
  by (cases "length name < 15") (simp_all add: droidSetThreadName_def scan_name_eq rev_take)

end
