(* ===== verification/Process_State.thy ===== *)
theory Process_State
  imports RefBase Vector Binder_Ioctl
begin

text \<open>
  \<open>libs/binder/ProcessState.cpp\<close> and the constructor of \<open>BpBinder.cpp\<close>: the one object of a process that holds the
  open and mapped binder device, and its table of proxies. What a system call returns is given by functions of
  the number of calls made before, so that every behaviour of the kernel is covered; the calls are recorded
  in a trace. Objects are addresses of the heap of \<open>RefBase\<close>, with their fields beside it. The mutexes
  are held from the start of a function to its end, so each function is one step.
\<close>

section \<open>System calls\<close>

datatype ioctl_arg =
    NoArg
  | Number nat
  | FlatObject flat_binder_object
  | WriteRead binder_write_read "u8 list"

datatype sys_event =
    OpenFile string int
  | CloseFile int
  | MapFile int
  | IoctlCall int u32 ioctl_arg

text \<open>
  The value an \<open>ioctl\<close> returns, \<open>errno\<close> after a call that failed, and what the call has stored behind
  its argument: the protocol version, or the number of bytes consumed and the bytes that were read.
\<close>

record ioctl_reply =
  io_ret :: int
  io_errno :: int
  io_vers :: int
  io_write_consumed :: nat
  io_read :: "u8 list"

record sys =
  sys_open :: "nat \<Rightarrow> int"
  sys_ioctl :: "nat \<Rightarrow> ioctl_reply"
  sys_mmap :: "nat \<Rightarrow> nat option"
  sys_access :: "nat \<Rightarrow> int"
  sys_calls :: nat
  sys_errno :: int
  sys_trace :: "sys_event list"

definition do_open :: "string \<Rightarrow> sys \<Rightarrow> int \<times> sys" where
  "do_open path s =
     (let fd = sys_open s (sys_calls s)
      in (fd, s\<lparr>sys_calls := Suc (sys_calls s), sys_trace := sys_trace s @ [OpenFile path fd]\<rparr>))"

definition do_close :: "int \<Rightarrow> sys \<Rightarrow> sys" where
  "do_close fd s = s\<lparr>sys_calls := Suc (sys_calls s), sys_trace := sys_trace s @ [CloseFile fd]\<rparr>"

text \<open>\<open>errno\<close> keeps its value when the call does not fail.\<close>

definition do_ioctl :: "int \<Rightarrow> u32 \<Rightarrow> ioctl_arg \<Rightarrow> sys \<Rightarrow> ioctl_reply \<times> sys" where
  "do_ioctl fd cmd arg s =
     (let r = sys_ioctl s (sys_calls s)
      in (r, s\<lparr>sys_calls := Suc (sys_calls s),
               sys_errno := (if io_ret r = - 1 then io_errno r else sys_errno s),
               sys_trace := sys_trace s @ [IoctlCall fd cmd arg]\<rparr>))"

text \<open>\<open>None\<close> is \<open>MAP_FAILED\<close>.\<close>

definition do_mmap :: "int \<Rightarrow> sys \<Rightarrow> nat option \<times> sys" where
  "do_mmap fd s =
     (sys_mmap s (sys_calls s), s\<lparr>sys_calls := Suc (sys_calls s), sys_trace := sys_trace s @ [MapFile fd]\<rparr>)"

definition do_access :: "string \<Rightarrow> sys \<Rightarrow> int \<times> sys" where
  "do_access path s = (sys_access s (sys_calls s), s\<lparr>sys_calls := Suc (sys_calls s)\<rparr>)"

section \<open>State\<close>

datatype call_restriction = NoRestriction | ERROR_IF_NOT_ONEWAY | FATAL_IF_NOT_ONEWAY

record handle_entry =
  he_binder :: "nat option"
  he_refs :: "nat option"

definition handle_entry_type :: "handle_entry item_type" where
  "handle_entry_type = \<lparr>has_trivial_ctor = False, has_trivial_dtor = False, has_trivial_copy = False,
     has_trivial_move = False, sizeof_type = 16, default_item = \<lparr>he_binder = None, he_refs = None\<rparr>\<rparr>"

text \<open>
  \<open>mHandleToObject\<close> has a heap of its own. The name is its characters. The callback of the context
  manager and its data are not set by the constructor and never read.
\<close>

record process_state =
  mDriverName :: string
  mDriverFD :: int
  mVMStart :: "nat option"
  mMaxThreads :: nat
  mHandleToObject :: vec
  ps_entries :: "handle_entry vheap"
  mBinderContextCheckFunc :: "nat option"
  mBinderContextUserData :: "nat option"
  mCallRestriction :: call_restriction

text \<open>
  The process: its objects, \<open>gProcess\<close>, the \<open>ProcessState\<close>s and the handles of the \<open>BpBinder\<close>s by address,
  and the outcomes of \<open>malloc\<close> for the table of a new \<open>ProcessState\<close>.
\<close>

record process =
  pc_heap :: ref_heap
  pc_sys :: sys
  gProcess :: "nat option"
  pc_states :: "nat \<Rightarrow> process_state option"
  pc_proxies :: "nat \<Rightarrow> int option"
  pc_malloc :: "bool list"

definition the_state :: "nat \<Rightarrow> process \<Rightarrow> process_state chk" where
  "the_state a pr = derefE UseAfterFree (pc_states pr a)"

definition set_state :: "nat \<Rightarrow> process_state \<Rightarrow> process \<Rightarrow> process" where
  "set_state a ps pr = pr\<lparr>pc_states := (pc_states pr)(a \<mapsto> ps)\<rparr>"

section \<open>Opening the driver\<close>

definition defaultDriver :: string where
  "defaultDriver = ''/dev/binder''"

abbreviation (input) BINDER_CURRENT_PROTOCOL_VERSION :: int where "BINDER_CURRENT_PROTOCOL_VERSION \<equiv> 8"
abbreviation (input) DEFAULT_MAX_BINDER_THREADS :: nat where "DEFAULT_MAX_BINDER_THREADS \<equiv> 15"

definition open_driver :: "string \<Rightarrow> sys \<Rightarrow> int \<times> sys" where
  "open_driver driver s =
     (let (fd, s) = do_open driver s
      in if fd \<ge> 0 then
           let (r, s) = do_ioctl fd BINDER_VERSION (Number 0) s;
               (fd, s) = (if io_ret r = - 1 then (- 1, do_close fd s) else (fd, s));
               (fd, s) = (if io_ret r \<noteq> 0 \<or> io_vers r \<noteq> BINDER_CURRENT_PROTOCOL_VERSION
                          then (- 1, do_close fd s) else (fd, s));
               (_, s) = do_ioctl fd BINDER_SET_MAX_THREADS (Number DEFAULT_MAX_BINDER_THREADS) s
           in (fd, s)
         else (fd, s))"

definition ProcessState_init :: "string \<Rightarrow> bool list \<Rightarrow> sys \<Rightarrow> process_state \<times> sys" where
  "ProcessState_init driver mallocs s =
     (let (fd, s) = open_driver driver s;
          (vm, fd, s) =
            (if fd \<ge> 0 then
               case do_mmap fd s of
                 (None, s) \<Rightarrow> (None, - 1, do_close fd s)
               | (Some m, s) \<Rightarrow> (Some m, fd, s)
             else (None, fd, s))
      in (\<lparr>mDriverName = driver, mDriverFD = fd, mVMStart = vm, mMaxThreads = DEFAULT_MAX_BINDER_THREADS,
           mHandleToObject = Vector_new handle_entry_type,
           ps_entries = \<lparr>hp_bufs = (\<lambda>_. None), hp_next = 0, hp_malloc = mallocs\<rparr>,
           mBinderContextCheckFunc = None, mBinderContextUserData = None,
           mCallRestriction = NoRestriction\<rparr>, s))"

definition ProcessState_new :: "string \<Rightarrow> process \<Rightarrow> nat \<times> process" where
  "ProcessState_new driver pr =
     (let (a, rh) = RefBase_new (pc_heap pr);
          (ps, s) = ProcessState_init driver (pc_malloc pr) (pc_sys pr)
      in (a, set_state a ps (pr\<lparr>pc_heap := rh, pc_sys := s\<rparr>)))"

text \<open>The destructor. The descriptor 0 is not closed.\<close>

definition ProcessState_destroy :: "nat \<Rightarrow> process \<Rightarrow> process" where
  "ProcessState_destroy a pr =
     (case pc_states pr a of
        None \<Rightarrow> pr
      | Some ps \<Rightarrow>
          let pr = (if mDriverFD ps > 0 then pr\<lparr>pc_sys := do_close (mDriverFD ps) (pc_sys pr)\<rparr> else pr)
          in pr\<lparr>pc_states := (pc_states pr)(a := None)\<rparr>)"

text \<open>A heap after an operation that may have deleted the object: the virtual destructor runs then.\<close>

definition heap_after :: "nat option \<Rightarrow> ref_heap \<Rightarrow> process \<Rightarrow> process" where
  "heap_after old rh pr =
     (case old of
        None \<Rightarrow> pr\<lparr>pc_heap := rh\<rparr>
      | Some a \<Rightarrow>
          if rh_base (pc_heap pr) a \<and> \<not> rh_base rh a then ProcessState_destroy a (pr\<lparr>pc_heap := rh\<rparr>)
          else pr\<lparr>pc_heap := rh\<rparr>)"

section \<open>The object of the process\<close>

text \<open>\<open>gProcess = p\<close> and the \<open>sp\<close> that is returned.\<close>

definition set_gProcess :: "nat \<Rightarrow> process \<Rightarrow> process chk" where
  "set_gProcess a pr =
     bindE (sp_assign (gProcess pr) (Some a) (pc_heap pr)) (\<lambda>(p, rh).
     Inr ((heap_after (gProcess pr) rh pr)\<lparr>gProcess := p\<rparr>))"

definition return_gProcess :: "process \<Rightarrow> (nat option \<times> process) chk" where
  "return_gProcess pr =
     bindE (sp_new (gProcess pr) (pc_heap pr)) (\<lambda>(p, rh). Inr (p, pr\<lparr>pc_heap := rh\<rparr>))"

definition ProcessState_self :: "process \<Rightarrow> (nat option \<times> process) chk" where
  "ProcessState_self pr =
     (if gProcess pr \<noteq> None then return_gProcess pr
      else
        case ProcessState_new defaultDriver pr of (a, pr) \<Rightarrow>
        bindE (set_gProcess a pr) return_gProcess)"

definition getDriverName :: "nat \<Rightarrow> process \<Rightarrow> string chk" where
  "getDriverName a pr = bindE (the_state a pr) (\<lambda>ps. Inr (mDriverName ps))"

definition initWithDriver :: "string \<Rightarrow> process \<Rightarrow> (nat option \<times> process) chk" where
  "initWithDriver driver pr =
     bindE (case gProcess pr of
              None \<Rightarrow> Inr False
            | Some a \<Rightarrow> bindE (getDriverName a pr) (\<lambda>name. Inr (name = driver))) (\<lambda>same.
     if same then return_gProcess pr
     else
       case do_access driver (pc_sys pr) of (ret, s) \<Rightarrow>
       let driver = (if ret = - 1 then ''/dev/binder'' else driver)
       in case ProcessState_new driver (pr\<lparr>pc_sys := s\<rparr>) of (a, pr) \<Rightarrow>
          bindE (set_gProcess a pr) return_gProcess)"

section \<open>Settings\<close>

abbreviation (input) FLAT_BINDER_FLAG_TXN_SECURITY_CTX :: u32 where "FLAT_BINDER_FLAG_TXN_SECURITY_CTX \<equiv> 0x1000"

definition manager_object :: flat_binder_object where
  "manager_object = \<lparr>fbo_type = 0, fbo_flags = FLAT_BINDER_FLAG_TXN_SECURITY_CTX, fbo_binder = 0, fbo_cookie = 0\<rparr>"

definition becomeContextManager ::
    "nat \<Rightarrow> nat option \<Rightarrow> nat option \<Rightarrow> process \<Rightarrow> (bool \<times> process) chk" where
  "becomeContextManager a checkFunc userData pr =
     bindE (the_state a pr) (\<lambda>ps.
     let ps = ps\<lparr>mBinderContextCheckFunc := checkFunc, mBinderContextUserData := userData\<rparr>;
         (r, s) = do_ioctl (mDriverFD ps) BINDER_SET_CONTEXT_MGR_EXT (FlatObject manager_object) (pc_sys pr);
         (r, s) = (if io_ret r \<noteq> 0 then do_ioctl (mDriverFD ps) BINDER_SET_CONTEXT_MGR (Number 0) s else (r, s));
         ps = (if io_ret r = - 1 then ps\<lparr>mBinderContextCheckFunc := None, mBinderContextUserData := None\<rparr> else ps)
     in Inr (io_ret r = 0, set_state a ps (pr\<lparr>pc_sys := s\<rparr>)))"

definition setThreadPoolMaxThreadCount :: "nat \<Rightarrow> nat \<Rightarrow> process \<Rightarrow> (int \<times> process) chk" where
  "setThreadPoolMaxThreadCount a maxThreads pr =
     bindE (the_state a pr) (\<lambda>ps.
     case do_ioctl (mDriverFD ps) BINDER_SET_MAX_THREADS (Number maxThreads) (pc_sys pr) of (r, s) \<Rightarrow>
     if io_ret r \<noteq> - 1 then Inr (0, set_state a (ps\<lparr>mMaxThreads := maxThreads\<rparr>) (pr\<lparr>pc_sys := s\<rparr>))
     else Inr (- sys_errno s, pr\<lparr>pc_sys := s\<rparr>))"

text \<open>The assertion that no thread has an \<open>IPCThreadState\<close> yet only writes to the log.\<close>

definition setCallRestriction :: "nat \<Rightarrow> call_restriction \<Rightarrow> process \<Rightarrow> process chk" where
  "setCallRestriction a restriction pr =
     bindE (the_state a pr) (\<lambda>ps. Inr (set_state a (ps\<lparr>mCallRestriction := restriction\<rparr>) pr))"

section \<open>Proxies\<close>

definition BpBinder_create :: "int \<Rightarrow> process \<Rightarrow> nat \<times> process" where
  "BpBinder_create handle pr =
     (case RefBase_new (pc_heap pr) of (a, rh) \<Rightarrow>
      (a, pr\<lparr>pc_heap := rh, pc_proxies := (pc_proxies pr)(a \<mapsto> handle)\<rparr>))"

text \<open>
  The handle is converted to \<open>size_t\<close> for the comparison; the error of \<open>insertAt\<close> is cut to 32 bits. The
  result refers to an entry in the storage of the vector.
\<close>

definition lookupHandleLocked :: "int \<Rightarrow> process_state \<Rightarrow> ((nat \<times> nat) option \<times> process_state) chk" where
  "lookupHandleLocked handle ps =
     (let N = mCount (mHandleToObject ps)
      in bindE (if N \<le> (word_of_int handle :: u64) then
                  bindE (insertAt handle_entry_type (Some (Outside \<lparr>he_binder = None, he_refs = None\<rparr>)) N
                           (word_of_int (wrap32 (handle + 1)) - N) (mHandleToObject ps) (ps_entries ps)) (\<lambda>(err, v, hp).
                  Inr (wrap32 err \<ge> 0, ps\<lparr>mHandleToObject := v, ps_entries := hp\<rparr>))
                else Inr (True, ps)) (\<lambda>(ok, ps).
         if \<not> ok then Inr (None, ps)
         else
           bindE (editItemAt handle_entry_type (word_of_int handle) (mHandleToObject ps) (ps_entries ps)) (\<lambda>(loc, v, hp).
           Inr (Some loc, ps\<lparr>mHandleToObject := v, ps_entries := hp\<rparr>))))"

text \<open>Whether the entry needs a new proxy: it has none, or its weak references are gone.\<close>

definition entry_unusable :: "handle_entry \<Rightarrow> ref_heap \<Rightarrow> (bool \<times> ref_heap) chk" where
  "entry_unusable e rh =
     (if he_binder e = None then Inr (True, rh)
      else
        bindE (derefE NullDeref (he_refs e)) (\<lambda>r.
        bindE (attemptIncWeak r rh) (\<lambda>(ok, rh). Inr (\<not> ok, rh))))"

text \<open>The part of \<open>getStrongProxyForHandle\<close> that has the entry, with the value \<open>e\<close> at \<open>(b, i)\<close>.\<close>

definition proxy_for_entry ::
    "nat \<Rightarrow> int \<Rightarrow> nat \<times> nat \<Rightarrow> handle_entry \<Rightarrow> process_state \<Rightarrow> process \<Rightarrow> (nat option \<times> process) chk" where
  "proxy_for_entry a handle loc e ps pr =
     bindE (entry_unusable e (pc_heap pr)) (\<lambda>(create, rh).
     let pr = pr\<lparr>pc_heap := rh\<rparr> in
     if create then
       case BpBinder_create handle pr of (proxy, pr) \<Rightarrow>
       bindE (sb_store (fst loc) (snd loc) [Val (e\<lparr>he_binder := Some proxy, he_refs := Some proxy\<rparr>)] (ps_entries ps)) (\<lambda>hp.
       bindE (base_check proxy (pc_heap pr)) (\<lambda>_.
       bindE (sp_assign None (Some proxy) (pc_heap pr)) (\<lambda>(result, rh).
       Inr (result, set_state a (ps\<lparr>ps_entries := hp\<rparr>) (pr\<lparr>pc_heap := rh\<rparr>)))))
     else Inr (None, pr))"

definition getStrongProxyForHandle :: "nat \<Rightarrow> int \<Rightarrow> process \<Rightarrow> (nat option \<times> process) chk" where
  "getStrongProxyForHandle a handle pr =
     bindE (the_state a pr) (\<lambda>ps.
     bindE (lookupHandleLocked handle ps) (\<lambda>(entry, ps).
     let pr = set_state a ps pr in
     case entry of
       None \<Rightarrow> Inr (None, pr)
     | Some loc \<Rightarrow>
         bindE (slot_value (fst loc) (snd loc) (ps_entries ps)) (\<lambda>e. proxy_for_entry a handle loc e ps pr)))"

text \<open>A failure is only logged.\<close>

definition getContextObject :: "nat \<Rightarrow> process \<Rightarrow> (nat option \<times> process) chk" where
  "getContextObject a pr = getStrongProxyForHandle a 0 pr"

end
