(* ===== verification/IPC_Thread.thy ===== *)
theory IPC_Thread
  imports Process_State Parcel
begin

text \<open>
  \<open>libs/binder/IPCThreadState.cpp\<close> and \<open>BpBinder::transact\<close>: what a thread keeps to talk to the binder driver, the
  commands it queues in a \<open>Parcel\<close>, and the \<open>ioctl\<close> that hands them over. The objects are addresses; the slot of
  each thread is the value \<open>pthread_getspecific\<close> gives it. The vectors of pointers, to which nothing is ever added,
  are lists. \<open>proxy\<close> and \<open>junk\<close> are those of \<open>Parcel\<close>; the addresses of the blocks of a parcel are parameters. The loop of
  \<open>talkWithDriver\<close> takes fuel, one unit for each call of \<open>ioctl\<close>.
\<close>

abbreviation (input) EBADF :: int where "EBADF \<equiv> 9"
abbreviation (input) TF_ONE_WAY :: u32 where "TF_ONE_WAY \<equiv> 0x01"
abbreviation (input) TF_STATUS_CODE :: u32 where "TF_STATUS_CODE \<equiv> 0x08"
abbreviation (input) TF_ACCEPT_FDS :: u32 where "TF_ACCEPT_FDS \<equiv> 0x10"

section \<open>State\<close>

record ipc_thread =
  mProcess :: "nat option"
  mPostWriteWeakDerefs :: "nat list"
  mPostWriteStrongDerefs :: "nat list"
  mIn :: parcel
  mOut :: parcel
  mLastError :: int
  mCallingPid :: int
  mCallingSid :: "string option"
  mCallingUid :: int

text \<open>
  The process with its threads: \<open>ip_tls\<close> is the slot of each thread, \<open>ip_key\<close> what \<open>pthread_key_create\<close> returns,
  \<open>ip_pid\<close> and \<open>ip_uid\<close> what \<open>getpid\<close> and \<open>getuid\<close> return.
\<close>

record ipc =
  ip_process :: process
  ip_env :: parcel_env
  gHaveTLS :: bool
  gShutdown :: bool
  ip_key :: int
  ip_pid :: int
  ip_uid :: int
  ip_tls :: "nat \<Rightarrow> nat option"
  ip_threads :: "nat \<Rightarrow> ipc_thread option"
  ip_next :: nat
  the_context_object :: "nat option"

definition the_ipc :: "nat \<Rightarrow> ipc \<Rightarrow> ipc_thread chk" where
  "the_ipc t st = derefE UseAfterFree (ip_threads st t)"

definition set_ipc :: "nat \<Rightarrow> ipc_thread \<Rightarrow> ipc \<Rightarrow> ipc" where
  "set_ipc t th st = st\<lparr>ip_threads := (ip_threads st)(t \<mapsto> th)\<rparr>"

section \<open>One object for each thread\<close>

definition clearCaller :: "ipc \<Rightarrow> ipc_thread \<Rightarrow> ipc_thread" where
  "clearCaller st th = th\<lparr>mCallingPid := ip_pid st, mCallingSid := None, mCallingUid := ip_uid st\<rparr>"

text \<open>The constructor; \<open>mLastError\<close> is not set by it.\<close>

definition IPCThreadState_new :: "nat \<Rightarrow> ipc \<Rightarrow> (nat \<times> ipc) chk" where
  "IPCThreadState_new tid st =
     bindE (ProcessState_self (ip_process st)) (\<lambda>(p, pr).
     let t = ip_next st;
         th = \<lparr>mProcess = p, mPostWriteWeakDerefs = [], mPostWriteStrongDerefs = [], mIn = Parcel_new,
               mOut = Parcel_new, mLastError = 0, mCallingPid = 0, mCallingSid = None, mCallingUid = 0\<rparr>;
         st = st\<lparr>ip_process := pr, ip_next := Suc t, ip_tls := (ip_tls st)(tid \<mapsto> t)\<rparr>
     in Inr (t, set_ipc t (clearCaller st th) st))"

text \<open>From the label \<open>restart\<close> on.\<close>

definition self_restart :: "nat \<Rightarrow> ipc \<Rightarrow> (nat option \<times> ipc) chk" where
  "self_restart tid st =
     (case ip_tls st tid of
        Some t \<Rightarrow> Inr (Some t, st)
      | None \<Rightarrow> bindE (IPCThreadState_new tid st) (\<lambda>(t, st). Inr (Some t, st)))"

definition IPCThreadState_self :: "nat \<Rightarrow> ipc \<Rightarrow> (nat option \<times> ipc) chk" where
  "IPCThreadState_self tid st =
     (if gHaveTLS st then self_restart tid st
      else if gShutdown st then Inr (None, st)
      else if ip_key st \<noteq> 0 then Inr (None, st)
      else self_restart tid (st\<lparr>gHaveTLS := True\<rparr>))"

definition selfOrNull :: "nat \<Rightarrow> ipc \<Rightarrow> nat option" where
  "selfOrNull tid st = (if gHaveTLS st then ip_tls st tid else None)"

definition flushCommands :: "nat \<Rightarrow> ipc \<Rightarrow> ipc" where
  "flushCommands t st = st"

text \<open>
  When a thread ends, its slot is null and the destructor gets the value. \<open>delete\<close> runs the destructors of the
  members; only the one of \<open>mProcess\<close> has an effect, as parcels and vectors do not free what they hold.
\<close>

definition ipc_threadDestructor :: "nat \<Rightarrow> ipc \<Rightarrow> ipc chk" where
  "ipc_threadDestructor tid st =
     (case ip_tls st tid of
        None \<Rightarrow> Inr st
      | Some t \<Rightarrow>
          let st = flushCommands t (st\<lparr>ip_tls := (ip_tls st)(tid := None)\<rparr>) in
          bindE (the_ipc t st) (\<lambda>th.
          bindE (derefE NullDeref (mProcess th)) (\<lambda>p.
          bindE (the_state p (ip_process st)) (\<lambda>ps.
          let pr = ip_process st;
              pr = (if mDriverFD ps \<ge> 0
                    then pr\<lparr>pc_sys := snd (do_ioctl (mDriverFD ps) BINDER_THREAD_EXIT (Number 0) (pc_sys pr))\<rparr> else pr)
          in bindE (sp_delete (Some p) (pc_heap pr)) (\<lambda>rh.
             Inr (st\<lparr>ip_process := heap_after (Some p) rh pr, ip_threads := (ip_threads st)(t := None)\<rparr>))))))"

definition setTheContextObject :: "nat option \<Rightarrow> ipc \<Rightarrow> ipc chk" where
  "setTheContextObject obj st =
     bindE (sp_assign (the_context_object st) obj (pc_heap (ip_process st))) (\<lambda>(p, rh).
     Inr (st\<lparr>ip_process := (ip_process st)\<lparr>pc_heap := rh\<rparr>, the_context_object := p\<rparr>))"

section \<open>Talking to the driver\<close>

fun decWeak_all :: "nat list \<Rightarrow> ref_heap \<Rightarrow> ref_heap chk" where
  "decWeak_all [] rh = Inr rh"
| "decWeak_all (a # as) rh = bindE (decWeak a rh) (decWeak_all as)"

fun decStrong_all :: "nat list \<Rightarrow> ref_heap \<Rightarrow> ref_heap chk" where
  "decStrong_all [] rh = Inr rh"
| "decStrong_all (a # as) rh = bindE (decStrong a rh) (decStrong_all as)"

definition processPostWriteDerefs :: "ipc_thread \<Rightarrow> ref_heap \<Rightarrow> (ipc_thread \<times> ref_heap) chk" where
  "processPostWriteDerefs th rh =
     bindE (decWeak_all (mPostWriteWeakDerefs th) rh) (\<lambda>rh.
     bindE (decStrong_all (mPostWriteStrongDerefs th) rh) (\<lambda>rh.
     Inr (th\<lparr>mPostWriteWeakDerefs := [], mPostWriteStrongDerefs := []\<rparr>, rh)))"

text \<open>
  One \<open>ioctl\<close>: the driver stores what it read in \<open>mIn\<close> and updates the two counts. A value that is not zero counts
  as success, and zero as the failure that \<open>errno\<close> says.
\<close>

definition talk_ioctl ::
    "int \<Rightarrow> u8 list \<Rightarrow> binder_write_read \<Rightarrow> parcel \<Rightarrow> sys \<Rightarrow> (int \<times> binder_write_read \<times> parcel \<times> sys) chk" where
  "talk_ioctl fd out bwr inp s =
     (case do_ioctl fd BINDER_WRITE_READ (WriteRead bwr out) s of (r, s) \<Rightarrow>
      bindE (if io_read r = [] then Inr inp else data_store 0 (io_read r) inp) (\<lambda>inp.
      Inr (if io_ret r \<noteq> 0 then NO_ERROR else - sys_errno s,
           bwr\<lparr>bwr_write_consumed := of_nat (io_write_consumed r), bwr_read_consumed := of_nat (length (io_read r))\<rparr>,
           inp, s)))"

fun talk_loop ::
    "nat \<Rightarrow> int \<Rightarrow> u8 list \<Rightarrow> binder_write_read \<Rightarrow> parcel \<Rightarrow> sys \<Rightarrow> (int \<times> binder_write_read \<times> parcel \<times> sys) chk" where
  "talk_loop 0 fd out bwr inp s = Inl OutOfFuel"
| "talk_loop (Suc fuel) fd out bwr inp s =
     bindE (talk_ioctl fd out bwr inp s) (\<lambda>(err, bwr, inp, s).
     if err = - EINTR then talk_loop fuel fd out bwr inp s else Inr (err, bwr, inp, s))"

text \<open>The bytes that \<open>mOut\<close> hands over, and what is done with the counts after the loop.\<close>

definition out_bytes :: "parcel \<Rightarrow> nat \<Rightarrow> u8 list chk" where
  "out_bytes p n = (if n = 0 then Inr [] else bindE (derefE NullDeref (mData p)) (\<lambda>data. mem_read data 0 n))"

definition talk_consumed ::
    "(u32 \<Rightarrow> nat option) \<Rightarrow> u8 \<Rightarrow> binder_write_read \<Rightarrow> ipc_thread \<Rightarrow> ipc \<Rightarrow> (ipc_thread \<times> ipc) chk" where
  "talk_consumed proxy junk bwr th st =
     bindE (if bwr_write_consumed bwr > 0 then
              if unat (bwr_write_consumed bwr) < dataSize (mOut th) then Inr (th, st)
              else
                bindE (setDataSize proxy junk 0 (mOut th) (ip_env st)) (\<lambda>(_, out, e).
                bindE (processPostWriteDerefs (th\<lparr>mOut := out\<rparr>) (pc_heap (ip_process st))) (\<lambda>(th, rh).
                Inr (th, st\<lparr>ip_env := e, ip_process := (ip_process st)\<lparr>pc_heap := rh\<rparr>\<rparr>)))
            else Inr (th, st)) (\<lambda>(th, st).
     if bwr_read_consumed bwr > 0 then
       bindE (setDataSize proxy junk (unat (bwr_read_consumed bwr)) (mIn th) (ip_env st)) (\<lambda>(_, inp, e).
       Inr (th\<lparr>mIn := setDataPosition 0 inp\<rparr>, st\<lparr>ip_env := e\<rparr>))
     else Inr (th, st))"

text \<open>\<open>outAddr\<close> and \<open>inAddr\<close> are the addresses of the blocks of the two parcels.\<close>

definition talkWithDriver ::
    "(u32 \<Rightarrow> nat option) \<Rightarrow> u8 \<Rightarrow> u64 \<Rightarrow> u64 \<Rightarrow> nat \<Rightarrow> bool \<Rightarrow> nat \<Rightarrow> ipc \<Rightarrow> (int \<times> ipc) chk" where
  "talkWithDriver proxy junk outAddr inAddr fuel doReceive t st =
     bindE (the_ipc t st) (\<lambda>th.
     bindE (derefE NullDeref (mProcess th)) (\<lambda>p.
     bindE (the_state p (ip_process st)) (\<lambda>ps.
     if mDriverFD ps < 0 then Inr (- EBADF, st)
     else
       let needRead = (dataPosition (mIn th) \<ge> dataSize (mIn th));
           outAvail = (if \<not> doReceive \<or> needRead then dataSize (mOut th) else 0);
           readSize = (if doReceive \<and> needRead then dataCapacity (mIn th) else 0);
           bwr = \<lparr>bwr_write_size = of_nat outAvail, bwr_write_consumed = 0, bwr_write_buffer = outAddr,
                  bwr_read_size = of_nat readSize, bwr_read_consumed = 0,
                  bwr_read_buffer = (if doReceive \<and> needRead then inAddr else 0)\<rparr>
       in if outAvail = 0 \<and> readSize = 0 then Inr (NO_ERROR, st)
          else
            bindE (out_bytes (mOut th) outAvail) (\<lambda>out.
            bindE (talk_loop fuel (mDriverFD ps) out bwr (mIn th) (pc_sys (ip_process st))) (\<lambda>(err, bwr, inp, s).
            let th = th\<lparr>mIn := inp\<rparr>;
                st = st\<lparr>ip_process := (ip_process st)\<lparr>pc_sys := s\<rparr>\<rparr>
            in if err \<ge> NO_ERROR then
                 bindE (talk_consumed proxy junk bwr th st) (\<lambda>(th, st). Inr (NO_ERROR, set_ipc t th st))
               else Inr (- EBADF, set_ipc t th st))))))"

text \<open>The loop of \<open>waitForResponse\<close> is left in its first turn; \<open>acquireResult\<close> is what is stored through the pointer.\<close>

definition waitForResponse ::
    "(u32 \<Rightarrow> nat option) \<Rightarrow> u8 \<Rightarrow> u64 \<Rightarrow> u64 \<Rightarrow> nat \<Rightarrow> nat \<Rightarrow> parcel option \<Rightarrow> ipc \<Rightarrow>
     (int \<times> parcel option \<times> int option \<times> ipc) chk" where
  "waitForResponse proxy junk outAddr inAddr fuel t reply st =
     bindE (talkWithDriver proxy junk outAddr inAddr fuel True t st) (\<lambda>(err, st).
     bindE (the_ipc t st) (\<lambda>th.
     let err = (if err < NO_ERROR then err else errorCheck (mIn th))
     in if err \<noteq> NO_ERROR
        then Inr (err, map_option (setError err) reply, Some err, set_ipc t (th\<lparr>mLastError := err\<rparr>) st)
        else Inr (err, reply, None, st)))"

section \<open>Transactions\<close>

text \<open>The 64 bytes of \<open>tr\<close>: the target is a union of which the handle is the low half.\<close>

definition tr_bytes :: "binder_transaction_data \<Rightarrow> u8 list" where
  "tr_bytes tr =
     le_bytes 4 (tr_handle tr) @ le_bytes 4 (0 :: u32) @ le_bytes 8 (tr_cookie tr) @ le_bytes 4 (tr_code tr) @
     le_bytes 4 (tr_flags tr) @ le_bytes 4 (0 :: u32) @ le_bytes 4 (0 :: u32) @ le_bytes 8 (tr_data_size tr) @
     le_bytes 8 (tr_offsets_size tr) @ le_bytes 8 (tr_buffer tr) @ le_bytes 8 (tr_offsets tr)"

text \<open>
  \<open>buffer\<close> and \<open>offsets\<close> are the addresses of the blocks of \<open>data\<close>, \<open>statusBuffer\<close> the address of the status if it
  is not null. The results of the two writes are not looked at.
\<close>

definition transaction_data ::
    "u32 \<Rightarrow> int \<Rightarrow> u32 \<Rightarrow> parcel \<Rightarrow> u64 \<Rightarrow> u64 \<Rightarrow> u64 option \<Rightarrow> binder_transaction_data option" where
  "transaction_data binderFlags handle code data buffer offsets statusBuffer =
     (let tr = \<lparr>tr_handle = word_of_int handle, tr_cookie = 0, tr_code = code, tr_flags = binderFlags,
                tr_data_size = 0, tr_offsets_size = 0, tr_buffer = 0, tr_offsets = 0\<rparr>
      in if errorCheck data = NO_ERROR then
           Some (tr\<lparr>tr_data_size := of_nat (ipcDataSize data), tr_buffer := buffer,
                    tr_offsets_size := of_nat (ipcObjectsCount data * 8), tr_offsets := offsets\<rparr>)
         else
           case statusBuffer of
             Some status \<Rightarrow>
               Some (tr\<lparr>tr_flags := binderFlags OR TF_STATUS_CODE, tr_data_size := 4, tr_buffer := status\<rparr>)
           | None \<Rightarrow> None)"

definition writeTransactionData ::
    "(u32 \<Rightarrow> nat option) \<Rightarrow> u8 \<Rightarrow> u32 \<Rightarrow> u32 \<Rightarrow> int \<Rightarrow> u32 \<Rightarrow> parcel \<Rightarrow> u64 \<Rightarrow> u64 \<Rightarrow> u64 option \<Rightarrow> nat \<Rightarrow> ipc \<Rightarrow>
     (int \<times> ipc) chk" where
  "writeTransactionData proxy junk cmd binderFlags handle code data buffer offsets statusBuffer t st =
     bindE (the_ipc t st) (\<lambda>th.
     case transaction_data binderFlags handle code data buffer offsets statusBuffer of
       None \<Rightarrow> Inr (errorCheck data, set_ipc t (th\<lparr>mLastError := errorCheck data\<rparr>) st)
     | Some tr \<Rightarrow>
         bindE (writeInt32 proxy junk cmd (mOut th) (ip_env st)) (\<lambda>(_, out, e).
         bindE (Parcel_write proxy junk (tr_bytes tr) out e) (\<lambda>(_, out, e).
         Inr (NO_ERROR, set_ipc t (th\<lparr>mOut := out\<rparr>) (st\<lparr>ip_env := e\<rparr>)))))"

text \<open>
  The reply is the parcel behind the pointer, or \<open>None\<close> for a null pointer; a call that is not one way waits
  with a parcel of its own then.
\<close>

definition IPC_transact ::
    "(u32 \<Rightarrow> nat option) \<Rightarrow> u8 \<Rightarrow> u64 \<Rightarrow> u64 \<Rightarrow> nat \<Rightarrow> int \<Rightarrow> u32 \<Rightarrow> parcel \<Rightarrow> u64 \<Rightarrow> u64 \<Rightarrow> parcel option \<Rightarrow> u32 \<Rightarrow> nat \<Rightarrow> ipc \<Rightarrow>
     (int \<times> parcel option \<times> ipc) chk" where
  "IPC_transact proxy junk outAddr inAddr fuel handle code data buffer offsets reply flags t st =
     (let flags = flags OR TF_ACCEPT_FDS
      in bindE (writeTransactionData proxy junk BC_TRANSACTION flags handle code data buffer offsets None t st) (\<lambda>(err, st).
         if err \<noteq> NO_ERROR then
           bindE (the_ipc t st) (\<lambda>th.
           Inr (err, map_option (setError err) reply, set_ipc t (th\<lparr>mLastError := err\<rparr>) st))
         else if flags AND TF_ONE_WAY = 0 then
           (case reply of
              Some r \<Rightarrow>
                bindE (waitForResponse proxy junk outAddr inAddr fuel t (Some r) st) (\<lambda>(err, reply, _, st). Inr (err, reply, st))
            | None \<Rightarrow>
                bindE (waitForResponse proxy junk outAddr inAddr fuel t (Some Parcel_new) st) (\<lambda>(err, _, _, st). Inr (err, None, st)))
         else
           bindE (waitForResponse proxy junk outAddr inAddr fuel t None st) (\<lambda>(err, _, _, st). Inr (err, reply, st))))"

section \<open>BpBinder\<close>

definition BpBinder_transact ::
    "(u32 \<Rightarrow> nat option) \<Rightarrow> u8 \<Rightarrow> u64 \<Rightarrow> u64 \<Rightarrow> nat \<Rightarrow> nat \<Rightarrow> nat \<Rightarrow> u32 \<Rightarrow> parcel \<Rightarrow> u64 \<Rightarrow> u64 \<Rightarrow> parcel option \<Rightarrow> u32 \<Rightarrow> ipc \<Rightarrow>
     (int \<times> parcel option \<times> ipc) chk" where
  "BpBinder_transact proxy junk outAddr inAddr fuel tid b code data buffer offsets reply flags st =
     bindE (base_check b (pc_heap (ip_process st))) (\<lambda>_.
     bindE (derefE UseAfterFree (pc_proxies (ip_process st) b)) (\<lambda>mHandle.
     bindE (IPCThreadState_self tid st) (\<lambda>(t, st).
     bindE (derefE NullDeref t) (\<lambda>t.
     IPC_transact proxy junk outAddr inAddr fuel mHandle code data buffer offsets reply flags t st))))"

end
