(* ===== verification/Process_State_Props.thy ===== *)
theory Process_State_Props
  imports Process_State Vector_Grow
begin

text \<open>
  The descriptor of the binder device is closed on every path that does not keep it, and the table of proxies,
  which serves one proxy for every handle, once.
\<close>

section \<open>Descriptors\<close>

text \<open>What a call does to the set of open descriptors.\<close>

fun file_effect :: "sys_event \<Rightarrow> int set \<Rightarrow> int set" where
  "file_effect (OpenFile path fd) F = (if fd \<ge> 0 then insert fd F else F)"
| "file_effect (CloseFile fd) F = F - {fd}"
| "file_effect (MapFile fd) F = F"
| "file_effect (IoctlCall fd cmd arg) F = F"

definition files_after :: "sys \<Rightarrow> sys \<Rightarrow> int set \<Rightarrow> int set" where
  "files_after s s' F = fold file_effect (drop (length (sys_trace s)) (sys_trace s')) F"

lemmas sys_defs = do_open_def do_close_def do_ioctl_def do_mmap_def do_access_def Let_def

text \<open>The replies that make \<open>open_driver\<close> keep the descriptor.\<close>

definition driver_accepts :: "sys \<Rightarrow> bool" where
  "driver_accepts s \<longleftrightarrow>
     (let c = sys_calls s
      in 0 \<le> sys_open s c \<and> io_ret (sys_ioctl s (c + 1)) = 0 \<and>
         io_vers (sys_ioctl s (c + 1)) = BINDER_CURRENT_PROTOCOL_VERSION)"

lemma open_driver_kept:
  assumes "driver_accepts s"
  shows "open_driver driver s =
    (sys_open s (sys_calls s), snd (do_ioctl (sys_open s (sys_calls s)) BINDER_SET_MAX_THREADS (Number 15)
       (snd (do_ioctl (sys_open s (sys_calls s)) BINDER_VERSION (Number 0) (snd (do_open driver s))))))"
  using assms by (simp add: open_driver_def driver_accepts_def sys_defs)

lemma open_driver_closed:
  assumes "\<not> driver_accepts s" and "sys_open s (sys_calls s) \<notin> F" and "\<forall>fd\<in>F. 0 \<le> fd"
  shows "\<exists>s'. open_driver driver s = (if sys_open s (sys_calls s) < 0 then sys_open s (sys_calls s) else - 1, s') \<and>
    files_after s s' F = F"
proof -
  have "- 1 \<notin> F" using assms(3) by force
  with assms show ?thesis
    by (auto simp: open_driver_def driver_accepts_def sys_defs files_after_def not_le)
qed

text \<open>C19: the descriptor of the driver has one owner. Whatever \<open>open\<close>, the two \<open>ioctl\<close>s and \<open>mmap\<close> answer, after the
  constructor of \<open>ProcessState\<close> the descriptors that are open are those that were, and \<open>mDriverFD\<close> if it is not
  negative. It is kept exactly when the device opens, answers with the version the library was built for, and can
  be mapped; then, and only then, \<open>mVMStart\<close> is a mapping.\<close>

theorem driver_descriptor_owned:
  assumes init: "ProcessState_init driver mallocs s = (ps, s')"
    and fresh: "sys_open s (sys_calls s) \<notin> F" "\<forall>fd\<in>F. 0 \<le> fd"
  shows "files_after s s' F = (if 0 \<le> mDriverFD ps then insert (mDriverFD ps) F else F) \<and>
    (0 \<le> mDriverFD ps \<longleftrightarrow> driver_accepts s \<and> sys_mmap s (sys_calls s + 3) \<noteq> None) \<and>
    (mVMStart ps \<noteq> None \<longleftrightarrow> 0 \<le> mDriverFD ps)"
proof (cases "driver_accepts s")
  case True
  with init fresh show ?thesis
    by (auto simp: ProcessState_init_def open_driver_kept sys_defs files_after_def driver_accepts_def numeral_3_eq_3
      split: option.splits)
next
  case False
  obtain s1 where "open_driver driver s = (if sys_open s (sys_calls s) < 0 then sys_open s (sys_calls s) else - 1, s1)"
    "files_after s s1 F = F"
    using open_driver_closed [OF False fresh] by blast
  with init False show ?thesis by (auto simp: ProcessState_init_def split: if_splits)
qed

definition demo_sys :: sys where
  "demo_sys = \<lparr>sys_open = (\<lambda>_. 5),
     sys_ioctl = (\<lambda>_. \<lparr>io_ret = 0, io_errno = 0, io_vers = 8, io_write_consumed = 68, io_read = []\<rparr>),
     sys_mmap = (\<lambda>_. Some 4096), sys_access = (\<lambda>_. 0), sys_calls = 0, sys_errno = 0, sys_trace = []\<rparr>"

lemma driver_descriptor_owned_witness:
  "\<exists>ps s'. ProcessState_init defaultDriver [] demo_sys = (ps, s') \<and>
     files_after demo_sys s' {0, 1, 2} = (if 0 \<le> mDriverFD ps then insert (mDriverFD ps) {0, 1, 2} else {0, 1, 2}) \<and>
     mDriverFD ps = 5"
proof -
  obtain ps s' where run: "ProcessState_init defaultDriver [] demo_sys = (ps, s')" by fastforce
  moreover from run have "mDriverFD ps = 5"
    by (auto simp: ProcessState_init_def open_driver_def sys_defs demo_sys_def)
  ultimately show ?thesis
    using driver_descriptor_owned [OF run, of "{0, 1, 2}"] by (simp add: demo_sys_def)
qed

section \<open>The table of proxies\<close>

definition handles_hold :: "process_state \<Rightarrow> handle_entry list \<Rightarrow> bool" where
  "handles_hold ps xs \<longleftrightarrow>
     vec_holds handle_entry_type (ps_entries ps) (mHandleToObject ps) xs \<and> sb_fresh (ps_entries ps)"

abbreviation (input) null_entry :: handle_entry where "null_entry \<equiv> \<lparr>he_binder = None, he_refs = None\<rparr>"

text \<open>The size of the table once it has an entry for the handle.\<close>

definition table_with :: "int \<Rightarrow> handle_entry list \<Rightarrow> handle_entry list" where
  "table_with handle xs = xs @ replicate (Suc (nat handle) - length xs) null_entry"

lemma table_with_ne: "table_with handle xs \<noteq> []"
  by (cases xs) (simp_all add: table_with_def)

lemma hd_table_with: "hd (table_with handle xs) = (if xs = [] then null_entry else hd xs)"
  by (cases xs) (simp_all add: table_with_def)

text \<open>\<open>editItemAt\<close> gives the first item, whatever the index.\<close>

lemma edit_first:
  assumes "vec_holds ty hp v xs" and "xs \<noteq> []"
  shows "\<exists>b. mStorage v = Some b \<and> editItemAt ty index v hp = Inr ((b, 0), v, hp) \<and> slot_value b 0 hp = Inr (hd xs)"
proof -
  obtain b where b: "mStorage v = Some b" using assms by (cases "mStorage v") (auto simp: vec_holds_def)
  then obtain sb where "hp_bufs hp b = Some sb" "vec_buffer ty sb" "vec_slots ty xs (sb_data sb)"
    using vec_holds_storage [OF assms(1)] by blast
  moreover from this assms(2) have "slot_value b 0 hp = Inr (hd xs)"
    by (intro slot_value_eq) (auto simp: vec_slots_def hd_conv_nth)
  ultimately show ?thesis using b
    by (simp add: editItemAt_def editItemLocation_def editArrayImpl_def attemptEdit_def sb_get_def onlyOwner_def
      vec_buffer_def)
qed

abbreviation (input) TABLE_MAX :: nat where "TABLE_MAX \<equiv> 134217728"

lemma lookup_words:
  assumes "0 \<le> handle" and "nat handle < TABLE_MAX" and "length xs \<le> TABLE_MAX" and "unat (N :: u64) = length xs"
  shows "N \<le> word_of_int handle \<longleftrightarrow> length xs \<le> nat handle"
    and "length xs \<le> nat handle \<Longrightarrow> unat (word_of_int (wrap32 (handle + 1)) - N) = Suc (nat handle) - length xs"
proof -
  obtain n where n: "handle = int n" using assms(1) nonneg_int_cases by blast
  have *: "unat (of_nat n :: u64) = n" "unat (of_nat (Suc n) :: u64) = Suc n"
    using assms(2) n by (intro unat_of_nat_64; simp)+
  show "N \<le> word_of_int handle \<longleftrightarrow> length xs \<le> nat handle"
    using n * assms(4) by (simp add: word_le_nat_alt)
  assume le: "length xs \<le> nat handle"
  have "wrap32 (handle + 1) = int (Suc n)" using n assms(2) by (subst wrap32_id) auto
  then have eq: "(word_of_int (wrap32 (handle + 1)) :: u64) = of_nat (Suc n)"
    by (simp only: of_int_of_nat_eq)
  have "N \<le> of_nat (Suc n)" using le n * assms(4) by (simp add: word_le_nat_alt del: of_nat_Suc)
  then show "unat (word_of_int (wrap32 (handle + 1)) - N) = Suc (nat handle) - length xs"
    unfolding eq using n * assms(4) by (simp add: unat_sub del: of_nat_Suc)
qed

text \<open>The lookup grows the table to the handle, or finds no memory, and then refers to the first entry.\<close>

lemma lookup_outcome:
  assumes hold: "handles_hold ps xs" and h: "0 \<le> handle" "nat handle < TABLE_MAX" and len: "length xs \<le> TABLE_MAX"
    and mem: "length xs \<le> nat handle \<Longrightarrow> has_memory (ps_entries ps)"
  shows "\<exists>b ps'. lookupHandleLocked handle ps = Inr (Some (b, 0), ps') \<and> handles_hold ps' (table_with handle xs) \<and>
    mStorage (mHandleToObject ps') = Some b \<and> slot_value b 0 (ps_entries ps') = Inr (hd (table_with handle xs)) \<and>
    ps' = ps\<lparr>mHandleToObject := mHandleToObject ps', ps_entries := ps_entries ps'\<rparr> \<and>
    (nat handle < length xs \<longrightarrow> ps' = ps)"
proof -
  let ?v = "mHandleToObject ps" and ?hp = "ps_entries ps"
  have holds: "vec_holds handle_entry_type ?hp ?v xs" and fresh: "sb_fresh ?hp" using hold by (simp_all add: handles_hold_def)
  then have count: "unat (mCount ?v) = length xs" by (simp add: vec_holds_def)
  note words = lookup_words [OF h len count]
  show ?thesis
  proof (cases "length xs \<le> nat handle")
    case False
    then have eq: "table_with handle xs = xs" and "xs \<noteq> []" by (auto simp: table_with_def)
    then obtain b where "mStorage ?v = Some b" "editItemAt handle_entry_type (word_of_int handle) ?v ?hp = Inr ((b, 0), ?v, ?hp)"
      "slot_value b 0 ?hp = Inr (hd xs)"
      using edit_first [OF holds] by blast
    with False hold eq show ?thesis
      by (intro exI [of _ b] exI [of _ ps]) (simp add: lookupHandleLocked_def words(1))
  next
    case True
    let ?n = "word_of_int (wrap32 (handle + 1)) - mCount ?v" and ?ys = "table_with handle xs"
    have n: "unat ?n = Suc (nat handle) - length xs" by (rule words(2) [OF True])
    have "vec_fits handle_entry_type (length xs + unat ?n)" using True h n by (simp add: vec_fits_def handle_entry_type_def)
    then obtain ret v hp where ins: "insertAt handle_entry_type (Some (Outside null_entry)) (mCount ?v) ?n ?v ?hp = Inr (ret, v, hp)"
      "sb_fresh hp" "ret = int (length xs)" "vec_holds handle_entry_type hp v ?ys"
      using insertAt_list [OF holds fresh, of "mCount ?v" ?n null_entry] n True mem count
      by (auto simp: table_with_def)
    then obtain b where "mStorage v = Some b" "editItemAt handle_entry_type (word_of_int handle) v hp = Inr ((b, 0), v, hp)"
      "slot_value b 0 hp = Inr (hd ?ys)"
      using edit_first [OF ins(4) table_with_ne] by blast
    moreover have "wrap32 ret \<ge> 0" using ins(3) len by (simp add: wrap32_id)
    ultimately show ?thesis
      using True ins by (intro exI [of _ b] exI [of _ "ps\<lparr>mHandleToObject := v, ps_entries := hp\<rparr>"])
        (simp add: lookupHandleLocked_def words(1) handles_hold_def)
  qed
qed

section \<open>One proxy, once\<close>

text \<open>What a lookup does with the first entry, for any handle the table has room for.\<close>

lemma proxy_lookup:
  assumes state: "pc_states pr a = Some ps" and hold: "handles_hold ps xs"
    and h: "0 \<le> handle" "nat handle < TABLE_MAX" and len: "length xs \<le> TABLE_MAX"
    and mem: "nat handle < length xs \<or> has_memory (ps_entries ps)"
  obtains b ps' where "handles_hold ps' (table_with handle xs)" "mStorage (mHandleToObject ps') = Some b"
    "ps' = ps\<lparr>mHandleToObject := mHandleToObject ps', ps_entries := ps_entries ps'\<rparr>"
    "nat handle < length xs \<Longrightarrow> ps' = ps"
    "getStrongProxyForHandle a handle pr =
       proxy_for_entry a handle (b, 0) (hd (table_with handle xs)) ps' (set_state a ps' pr)"
proof -
  obtain b ps' where look: "lookupHandleLocked handle ps = Inr (Some (b, 0), ps')"
    and rest: "handles_hold ps' (table_with handle xs)" "mStorage (mHandleToObject ps') = Some b"
      "slot_value b 0 (ps_entries ps') = Inr (hd (table_with handle xs))"
      "ps' = ps\<lparr>mHandleToObject := mHandleToObject ps', ps_entries := ps_entries ps'\<rparr>"
      "nat handle < length xs \<longrightarrow> ps' = ps"
    using lookup_outcome [OF hold h len] mem by (metis not_le)
  show ?thesis
    by (rule that [OF rest(1,2,4)])
      (use rest(5) in \<open>simp_all add: getStrongProxyForHandle_def the_state_def state look rest(3) Let_def\<close>)
qed

text \<open>The counters of an object that exists.\<close>

definition counted :: "nat \<Rightarrow> ref_heap \<Rightarrow> int \<Rightarrow> int \<Rightarrow> bool" where
  "counted p rh s w \<longleftrightarrow> rh_base rh p \<and> rh_impl rh p = Some \<lparr>mStrong = s, mWeak = w, weakref_impl.mFlags = 0\<rparr>"

lemma fresh_proxy:
  "\<exists>rh'. sp_assign None (Some (rh_next rh)) (snd (RefBase_new rh)) = Inr (Some (rh_next rh), rh') \<and>
     counted (rh_next rh) rh' 1 1"
proof -
  have "wrap32 1 = 1" "wrap32 268435457 = 268435457" by (simp_all add: wrap32_id)
  then show ?thesis
    by (simp add: sp_assign_def incStrong_def incWeak_def RefBase_new_def Let_def base_check_def impl_get_def impl_put_def
      ref_note_def strong_fetch_add_def weak_fetch_add_def counted_def)
qed

text \<open>Filling the first entry.\<close>

lemma first_entry_store:
  assumes hold: "handles_hold ps xs" and ne: "xs \<noteq> []" and b: "mStorage (mHandleToObject ps) = Some b"
  obtains hp where "sb_store b 0 [Val e] (ps_entries ps) = Inr hp" "handles_hold (ps\<lparr>ps_entries := hp\<rparr>) (e # tl xs)"
proof -
  from hold b obtain sb where sb: "hp_bufs (ps_entries ps) b = Some sb" "vec_buffer handle_entry_type sb"
    "vec_slots handle_entry_type xs (sb_data sb)"
    using vec_holds_storage [of handle_entry_type "ps_entries ps" "mHandleToObject ps" xs b] by (auto simp: handles_hold_def)
  have room: "0 < length (sb_data sb)" using sb(3) ne by (auto simp: vec_slots_def)
  let ?D = "Val e # drop 1 (sb_data sb)"
  let ?hp = "sb_put b (sb\<lparr>sb_data := ?D\<rparr>) (ps_entries ps)"
  have st: "sb_store b 0 [Val e] (ps_entries ps) = Inr ?hp" using sb_store_eq [OF sb(1), of 0 "[Val e]"] room by simp
  have slots: "vec_slots handle_entry_type (e # tl xs) ?D"
    using sb(3) room ne by (cases xs; cases "sb_data sb") (auto simp: vec_slots_def nth_Cons')
  have "handles_hold (ps\<lparr>ps_entries := ?hp\<rparr>) (e # tl xs)"
    using hold b sb room slots ne
    by (auto simp: handles_hold_def vec_holds_def vec_buffer_def sb_fresh_def sb_put_def)
  with st show ?thesis by (rule that)
qed

lemma first_lookup_heap:
  assumes state: "pc_states pr a = Some ps" and hold: "handles_hold ps xs" and none: "xs = [] \<or> he_binder (hd xs) = None"
    and h: "0 \<le> handle" "nat handle < TABLE_MAX" and len: "length xs \<le> TABLE_MAX"
    and mem: "nat handle < length xs \<or> has_memory (ps_entries ps)"
  shows "\<exists>p pr' ps'. getStrongProxyForHandle a handle pr = Inr (Some p, pr') \<and>
    p = rh_next (pc_heap pr) \<and> pc_proxies pr' = (pc_proxies pr)(p \<mapsto> handle) \<and> counted p (pc_heap pr') 1 1 \<and>
    sp_assign None (Some p) (snd (RefBase_new (pc_heap pr))) = Inr (Some p, pc_heap pr') \<and>
    pc_states pr' = (pc_states pr)(a \<mapsto> ps') \<and>
    handles_hold ps' (\<lparr>he_binder = Some p, he_refs = Some p\<rparr> # tl (table_with handle xs))"
proof -
  let ?ys = "table_with handle xs" and ?p = "rh_next (pc_heap pr)"
  let ?e = "\<lparr>he_binder = Some ?p, he_refs = Some ?p\<rparr>"
  obtain b ps' where ps': "handles_hold ps' ?ys" "mStorage (mHandleToObject ps') = Some b"
    and run: "getStrongProxyForHandle a handle pr = proxy_for_entry a handle (b, 0) (hd ?ys) ps' (set_state a ps' pr)"
    using proxy_lookup [OF state hold h len mem] by metis
  have e: "he_binder (hd ?ys) = None" using none by (auto simp: hd_table_with)
  then have entry: "(hd ?ys)\<lparr>he_binder := Some ?p, he_refs := Some ?p\<rparr> = ?e" by (cases "hd ?ys") simp
  obtain rh where rh: "sp_assign None (Some ?p) (snd (RefBase_new (pc_heap pr))) = Inr (Some ?p, rh)" "counted ?p rh 1 1"
    using fresh_proxy by blast
  obtain hp where hp: "sb_store b 0 [Val ?e] (ps_entries ps') = Inr hp" "handles_hold (ps'\<lparr>ps_entries := hp\<rparr>) (?e # tl ?ys)"
    using first_entry_store [OF ps'(1) table_with_ne ps'(2)] by blast
  have "getStrongProxyForHandle a handle pr = Inr (Some ?p, set_state a (ps'\<lparr>ps_entries := hp\<rparr>)
      ((set_state a ps' pr)\<lparr>pc_heap := rh, pc_proxies := (pc_proxies pr)(?p \<mapsto> handle)\<rparr>))"
    using run e entry hp(1) rh
    by (simp add: Let_def proxy_for_entry_def entry_unusable_def BpBinder_create_def set_state_def RefBase_new_def base_check_def)
  with hp(2) rh show ?thesis by (auto simp: set_state_def)
qed

lemma first_lookup:
  assumes state: "pc_states pr a = Some ps" and hold: "handles_hold ps xs" and none: "xs = [] \<or> he_binder (hd xs) = None"
    and h: "0 \<le> handle" "nat handle < TABLE_MAX" and len: "length xs \<le> TABLE_MAX"
    and mem: "nat handle < length xs \<or> has_memory (ps_entries ps)"
  shows "\<exists>p pr' ps'. getStrongProxyForHandle a handle pr = Inr (Some p, pr') \<and>
    p = rh_next (pc_heap pr) \<and> pc_proxies pr' = (pc_proxies pr)(p \<mapsto> handle) \<and> counted p (pc_heap pr') 1 1 \<and>
    pc_states pr' = (pc_states pr)(a \<mapsto> ps') \<and>
    handles_hold ps' (\<lparr>he_binder = Some p, he_refs = Some p\<rparr> # tl (table_with handle xs))"
  using first_lookup_heap [OF assms] by blast

text \<open>The first lookup. While the table has no proxy in its first entry, \<open>getStrongProxyForHandle\<close> makes a new
  proxy for the handle it was asked for and returns the only strong reference to it; the table has an
  entry for each handle up to this one, and the first of them, not the one of the handle, refers to the proxy.\<close>

theorem first_lookup_makes_proxy:
  assumes state: "pc_states pr a = Some ps" and hold: "handles_hold ps xs" and none: "xs = [] \<or> he_binder (hd xs) = None"
    and h: "0 \<le> handle" "nat handle < TABLE_MAX" and len: "length xs \<le> TABLE_MAX"
    and mem: "nat handle < length xs \<or> has_memory (ps_entries ps)"
  shows "\<exists>p pr' ps'. getStrongProxyForHandle a handle pr = Inr (Some p, pr') \<and>
    p = rh_next (pc_heap pr) \<and> pc_proxies pr' = (pc_proxies pr)(p \<mapsto> handle) \<and> counted p (pc_heap pr') 1 1 \<and>
    pc_states pr' = (pc_states pr)(a \<mapsto> ps') \<and>
    handles_hold ps' (\<lparr>he_binder = Some p, he_refs = Some p\<rparr> # tl (table_with handle xs))"
  by (rule first_lookup [OF assms])

definition demo_process :: process where
  "demo_process = snd (ProcessState_new defaultDriver
     \<lparr>pc_heap = \<lparr>rh_base = (\<lambda>_. False), rh_impl = (\<lambda>_. None), rh_next = 0, rh_trace = []\<rparr>,
      pc_sys = demo_sys, gProcess = None, pc_states = (\<lambda>_. None), pc_proxies = (\<lambda>_. None), pc_malloc = [True]\<rparr>)"

lemma demo_process_state:
  "\<exists>ps. pc_states demo_process 0 = Some ps \<and> handles_hold ps [] \<and> has_memory (ps_entries ps)"
  "rh_next (pc_heap demo_process) = 1"
  by (auto simp: demo_process_def ProcessState_new_def ProcessState_init_def RefBase_new_def set_state_def Let_def
    handles_hold_def sb_fresh_def has_memory_def handle_entry_type_def intro!: Vector_new_holds split: prod.splits option.splits)

lemma first_lookup_makes_proxy_witness:
  "\<exists>pr'. getStrongProxyForHandle 0 0 demo_process = Inr (Some 1, pr') \<and> counted 1 (pc_heap pr') 1 1 \<and>
     pc_proxies pr' 1 = Some 0"
proof -
  obtain ps where "pc_states demo_process 0 = Some ps" "handles_hold ps []" "has_memory (ps_entries ps)"
    using demo_process_state(1) by blast
  then show ?thesis
    using first_lookup_makes_proxy [of demo_process 0 ps "[]" 0] demo_process_state(2) by auto
qed

text \<open>What a lookup makes of a first entry that has a proxy: it needs the counters of that proxy.\<close>

lemma later_lookup:
  assumes state: "pc_states pr a = Some ps" and hold: "handles_hold ps (\<lparr>he_binder = Some p, he_refs = Some p\<rparr> # xs)"
    and h: "0 \<le> handle" "nat handle \<le> length xs" "length xs < TABLE_MAX"
  shows "rh_impl (pc_heap pr) p = None \<Longrightarrow> getStrongProxyForHandle a handle pr = Inl UseAfterFree"
    and "rh_impl (pc_heap pr) p = Some i \<Longrightarrow> 0 < mWeak i \<Longrightarrow> getStrongProxyForHandle a handle pr =
      Inr (None, pr\<lparr>pc_heap := impl_put p (i\<lparr>mWeak := wrap32 (mWeak i + 1)\<rparr>) (pc_heap pr)\<rparr>)"
proof -
  let ?e = "\<lparr>he_binder = Some p, he_refs = Some p\<rparr>"
  obtain b ps' where "nat handle < length (?e # xs) \<Longrightarrow> ps' = ps"
    and run: "getStrongProxyForHandle a handle pr =
      proxy_for_entry a handle (b, 0) (hd (table_with handle (?e # xs))) ps' (set_state a ps' pr)"
  proof (rule proxy_lookup [OF state hold h(1)])
    show "nat handle < TABLE_MAX" "length (?e # xs) \<le> TABLE_MAX"
      "nat handle < length (?e # xs) \<or> has_memory (ps_entries ps)" using h by simp_all
  qed blast
  then have "set_state a ps' pr = pr" using h(2) state by (simp add: set_state_def fun_upd_idem)
  with run have "getStrongProxyForHandle a handle pr = proxy_for_entry a handle (b, 0) ?e ps' pr" by (simp add: hd_table_with)
  then show "rh_impl (pc_heap pr) p = None \<Longrightarrow> getStrongProxyForHandle a handle pr = Inl UseAfterFree"
    and "rh_impl (pc_heap pr) p = Some i \<Longrightarrow> 0 < mWeak i \<Longrightarrow> getStrongProxyForHandle a handle pr =
      Inr (None, pr\<lparr>pc_heap := impl_put p (i\<lparr>mWeak := wrap32 (mWeak i + 1)\<rparr>) (pc_heap pr)\<rparr>)"
    by (simp_all add: proxy_for_entry_def entry_unusable_def attemptIncWeak_def impl_get_def Let_def)
qed

lemma release_last:
  assumes "counted p rh 1 1"
  shows "\<exists>rh'. sp_delete (Some p) rh = Inr rh' \<and> rh_impl rh' p = None \<and> \<not> rh_base rh' p"
  using assms by (auto simp: counted_def sp_delete_def decStrong_def decWeak_def base_check_def impl_get_def impl_put_def
    strong_fetch_add_def weak_fetch_add_def ref_note_def RefBase_delete_def weakref_impl_delete_def Let_def)

text \<open>C33: there is no second proxy. Take the lookup of a handle, for which the table has room or gets it, that makes the proxy, because there is
  none in the first entry, which the code uses for every handle. A lookup after it, of any handle up to this one, gives a null pointer and leaks a weak reference as long as the caller holds the
  proxy; and when the caller releases the proxy right after the first lookup, the entry dangles: the next lookup reads counters that
  were freed.\<close>

theorem proxy_served_once:
  assumes state: "pc_states pr a = Some ps" and hold: "handles_hold ps xs" and none: "xs = [] \<or> he_binder (hd xs) = None"
    and h: "0 \<le> handle" "nat handle < TABLE_MAX" and len: "length xs \<le> TABLE_MAX"
    and mem: "nat handle < length xs \<or> has_memory (ps_entries ps)"
    and again: "0 \<le> other" "other \<le> handle"
  shows "\<exists>p pr1. getStrongProxyForHandle a handle pr = Inr (Some p, pr1) \<and>
    (\<exists>pr2. getStrongProxyForHandle a other pr1 = Inr (None, pr2) \<and> counted p (pc_heap pr2) 1 2) \<and>
    (\<exists>rh. sp_delete (Some p) (pc_heap pr1) = Inr rh \<and>
      getStrongProxyForHandle a other (pr1\<lparr>pc_heap := rh\<rparr>) = Inl UseAfterFree)"
proof -
  obtain p pr1 ps1 where first: "getStrongProxyForHandle a handle pr = Inr (Some p, pr1)" "counted p (pc_heap pr1) 1 1"
    and tbl: "pc_states pr1 = (pc_states pr)(a \<mapsto> ps1)"
      "handles_hold ps1 (\<lparr>he_binder = Some p, he_refs = Some p\<rparr> # tl (table_with handle xs))"
    using first_lookup [OF assms(1-7)] by blast
  from tbl(1) have st: "pc_states pr1 a = Some ps1" by simp
  have room: "nat other \<le> length (tl (table_with handle xs))" "length (tl (table_with handle xs)) < TABLE_MAX"
    using again h(2) len by (auto simp: table_with_def)
  obtain rh where rh: "sp_delete (Some p) (pc_heap pr1) = Inr rh" "rh_impl rh p = None"
    using release_last [OF first(2)] by blast
  have "getStrongProxyForHandle a other (pr1\<lparr>pc_heap := rh\<rparr>) = Inl UseAfterFree"
    by (rule later_lookup(1) [of _ a ps1, OF _ tbl(2) again(1) room]) (use st rh in simp_all)
  moreover have "\<exists>pr2. getStrongProxyForHandle a other pr1 = Inr (None, pr2) \<and> counted p (pc_heap pr2) 1 2"
    using later_lookup(2) [OF st tbl(2) again(1) room] first(2) by (simp add: counted_def impl_put_def wrap32_id)
  ultimately show ?thesis using first(1) rh(1) by blast
qed

lemma proxy_served_once_witness:
  "\<exists>p pr1. getStrongProxyForHandle 0 3 demo_process = Inr (Some p, pr1) \<and>
    (\<exists>pr2. getStrongProxyForHandle 0 1 pr1 = Inr (None, pr2) \<and> counted p (pc_heap pr2) 1 2) \<and>
    (\<exists>rh. sp_delete (Some p) (pc_heap pr1) = Inr rh \<and>
      getStrongProxyForHandle 0 1 (pr1\<lparr>pc_heap := rh\<rparr>) = Inl UseAfterFree)"
proof -
  obtain ps where "pc_states demo_process 0 = Some ps" "handles_hold ps []" "has_memory (ps_entries ps)"
    using demo_process_state(1) by blast
  then show ?thesis
    using proxy_served_once [of demo_process 0 ps "[]" 3 1] by simp
qed

end
