(* ===== verification/IPC_Thread_Props.thy ===== *)
theory IPC_Thread_Props
  imports IPC_Thread Process_State_Props Parcel_Marshal Binder_Demo
begin

text \<open>
  The queue of commands from the library to the driver: what \<open>writeTransactionData\<close> appends to \<open>mOut\<close> is what
  \<open>binder_thread_write\<close> of the driver decodes. Then what \<open>talkWithDriver\<close> makes of the answer of the driver.
\<close>

section \<open>Commands in memory\<close>

lemma length_tr_bytes [simp]: "length (tr_bytes tr) = 64"
  by (simp add: tr_bytes_def del: le_bytes.simps)

lemma take_drop_parts:
  "take (length xs) (xs @ ys) = xs" "length xs \<le> n \<Longrightarrow> drop n (xs @ ys) = drop (n - length xs) ys"
  by simp_all

lemma tr_bytes_decoded: "tr_of_bytes (tr_bytes tr) = tr"
proof -
  have w: "\<And>v :: u32. le_word (le_bytes 4 v) = v" "\<And>v :: u64. le_word (le_bytes 8 v) = v"
    by (rule le_word_le_bytes, simp)+
  show ?thesis
    by (cases tr) (simp add: tr_of_bytes_def tr_bytes_def w del: le_bytes.simps le_word.simps)
qed

text \<open>The transactions in the order in which they were queued, each behind its command.\<close>

definition queued :: "binder_transaction_data list \<Rightarrow> u8 list" where
  "queued trs = concat (map (\<lambda>tr. le_bytes 4 BC_TRANSACTION @ tr_bytes tr) trs)"

lemma queued_simps [simp]:
  "queued [] = []" "queued (tr # trs) = le_bytes 4 BC_TRANSACTION @ tr_bytes tr @ queued trs"
  "queued (trs @ [tr]) = queued trs @ le_bytes 4 BC_TRANSACTION @ tr_bytes tr"
  by (simp_all add: queued_def del: le_bytes.simps)

lemma length_queued: "length (queued trs) = 68 * length trs"
  by (induction trs) (simp_all del: le_bytes.simps)

text \<open>Memory of a process that holds a list of bytes at an address.\<close>

definition user_holds :: "user_mem \<Rightarrow> u64 \<Rightarrow> u8 list \<Rightarrow> bool" where
  "user_holds um addr bs \<longleftrightarrow> (\<forall>i < length bs. um (addr + of_nat i) = Some (bs ! i))"

lemma user_holds_append:
  "user_holds um addr (xs @ ys) \<longleftrightarrow> user_holds um addr xs \<and> user_holds um (addr + of_nat (length xs)) ys"
proof
  assume all: "user_holds um addr (xs @ ys)"
  have "um (addr + of_nat (length xs) + of_nat i) = Some (ys ! i)" if "i < length ys" for i
    using all that by (auto simp: user_holds_def nth_append add.assoc dest: spec [of _ "length xs + i"])
  with all show "user_holds um addr xs \<and> user_holds um (addr + of_nat (length xs)) ys"
    by (auto simp: user_holds_def nth_append split: if_splits)
next
  assume two: "user_holds um addr xs \<and> user_holds um (addr + of_nat (length xs)) ys"
  have "um (addr + of_nat i) = Some ((xs @ ys) ! i)" if i: "i < length (xs @ ys)" for i
  proof (cases "i < length xs")
    case False
    with i have "i - length xs < length ys" by simp
    with two have "um (addr + of_nat (length xs) + of_nat (i - length xs)) = Some (ys ! (i - length xs))"
      by (simp add: user_holds_def)
    with False show ?thesis by (simp add: nth_append of_nat_diff)
  qed (use two in \<open>simp add: user_holds_def nth_append\<close>)
  then show "user_holds um addr (xs @ ys)" by (simp add: user_holds_def)
qed

lemma those_Some: "those (map (\<lambda>i. Some (f i)) is) = Some (map f is)"
  by (induction "is") simp_all

lemma copy_held: "user_holds um addr bs \<Longrightarrow> copy_from_user um addr (length bs) = Some bs"
proof -
  assume "user_holds um addr bs"
  then have eq: "map (\<lambda>i. um (addr + of_nat i)) [0..<length bs] = map (\<lambda>i. Some (bs ! i)) [0..<length bs]"
    by (simp add: user_holds_def)
  show ?thesis unfolding copy_from_user_def eq those_Some by (simp add: map_nth)
qed

section \<open>The driver's side\<close>

text \<open>What the driver is to do with the transactions: one after the other, while the thread has no error to return.\<close>

fun serve_transactions ::
  "rb_kernel \<Rightarrow> (nat \<Rightarrow> u32) \<Rightarrow> task \<Rightarrow> nat \<Rightarrow> nat \<Rightarrow> binder_transaction_data list \<Rightarrow> binder_kernel \<Rightarrow> binder_kernel chk" where
  "serve_transactions rb task_euid cur p th [] bk = bindE (the_thread bk th) (\<lambda>_. Inr bk)"
| "serve_transactions rb task_euid cur p th (tr # trs) bk =
     bindE (the_thread bk th) (\<lambda>thread.
     if th_return_error_cmd thread = BR_OK then
       bindE (thread_write_count p th BC_TRANSACTION bk) (\<lambda>bk.
       bindE (binder_transaction rb task_euid cur p th tr False bk) (serve_transactions rb task_euid cur p th trs))
     else Inr bk)"

lemma bindE_assoc: "bindE (bindE m f) g = bindE m (\<lambda>x. bindE (f x) g)"
  by (cases m) simp_all

lemma bindE_cong_right: "(\<And>x. m = Inr x \<Longrightarrow> f x = g x) \<Longrightarrow> bindE m f = bindE m g"
  by (cases m) simp_all

lemma write_loop_queue:
  assumes "user_holds um ptr (queued trs)" and "unat ptr + 68 * length trs < 2 ^ 64" and "length trs < fuel"
    and "end_ptr = ptr + of_nat (68 * length trs)"
  shows "thread_write_loop fuel rb task_euid cur um p th ptr end_ptr bk =
    bindE (serve_transactions rb task_euid cur p th trs bk) (\<lambda>bk. Inr (0, bk))"
  using assms
proof (induction trs arbitrary: ptr fuel bk)
  case Nil
  then obtain k where "fuel = Suc k" by (cases fuel) auto
  with Nil show ?case by (simp add: bindE_assoc)
next
  case (Cons tr trs)
  then obtain k where k: "fuel = Suc k" "length trs < k" by (cases fuel) auto
  have held: "user_holds um ptr (le_bytes 4 BC_TRANSACTION)" "user_holds um (ptr + 4) (tr_bytes tr)"
    "user_holds um (ptr + 4 + 64) (queued trs)"
    using Cons.prems(1) by (simp_all add: user_holds_append del: le_bytes.simps)
  have cmd: "get_user32 um ptr = Some BC_TRANSACTION"
    using copy_held [OF held(1)] le_word_le_bytes [of 4 "BC_TRANSACTION"] by (simp add: get_user32_def del: le_bytes.simps le_word.simps)
  have bytes: "copy_from_user um (ptr + 4) 64 = Some (tr_bytes tr)" using copy_held [OF held(2)] by simp
  have end_un: "unat end_ptr = unat ptr + 68 * length (tr # trs)"
    using Cons.prems(2,4) unat_of_nat_64 [of "68 * length (tr # trs)"] unat_add_64 [of ptr "of_nat (68 * length (tr # trs))"]
    by simp
  then have less: "ptr < end_ptr" by (simp add: word_less_nat_alt)
  have next_ptr: "unat (ptr + 4 + 64) = unat ptr + 68"
    using Cons.prems(2) by (simp add: unat_word_ariths)
  have end2: "end_ptr = ptr + 4 + 64 + of_nat (68 * length trs)" using Cons.prems(4) by (simp add: algebra_simps)
  have IH: "thread_write_loop k rb task_euid cur um p th (ptr + 4 + 64) end_ptr =
      (\<lambda>bk. bindE (serve_transactions rb task_euid cur p th trs bk) (\<lambda>bk. Inr (0, bk)))"
    by (rule ext, rule Cons.IH [OF held(3) _ k(2) end2]) (use next_ptr Cons.prems(2) in simp)
  have sum: "ptr + 4 + 64 = 68 + ptr" by simp
  show ?case
    unfolding k(1) thread_write_loop.simps serve_transactions.simps bindE_assoc
    by (rule bindE_cong_right)
      (simp add: less cmd bytes tr_bytes_decoded IH [unfolded sum] bindE_assoc Let_def del: thread_write_loop.simps)
qed

text \<open>C9: the driver decodes what the library encodes. Handed a buffer that holds queued transactions, the driver's
  \<open>binder_thread_write\<close> carries out exactly these, in this order, each with the handle, code, flags, sizes
  and addresses that were put into it, and returns 0, unless one of them leaves the thread with an error to return.\<close>

theorem driver_decodes_queue:
  assumes "user_holds um addr (queued trs)" and "unat addr + length (queued trs) < 2 ^ 64"
  shows "binder_thread_write rb task_euid cur um p th addr (of_nat (length (queued trs))) 0 bk =
    bindE (the_proc bk p) (\<lambda>_. bindE (serve_transactions rb task_euid cur p th trs bk) (\<lambda>bk. Inr (0, bk)))"
proof -
  let ?stop = "addr + of_nat (length (queued trs))"
  have len: "unat (?stop - (addr + 0)) + 1 = 68 * length trs + 1"
    using assms(2) unat_of_nat_64 [of "68 * length trs"] by (simp add: length_queued)
  have "thread_write_loop (68 * length trs + 1) rb task_euid cur um p th addr ?stop bk =
      bindE (serve_transactions rb task_euid cur p th trs bk) (\<lambda>bk. Inr (0, bk))"
    by (rule write_loop_queue [OF assms(1)]) (use assms(2) in \<open>simp_all add: length_queued\<close>)
  then have "thread_write_loop (unat (?stop - (addr + 0)) + 1) rb task_euid cur um p th (addr + 0) ?stop bk =
      bindE (serve_transactions rb task_euid cur p th trs bk) (\<lambda>bk. Inr (0, bk))"
    unfolding len by (simp only: add_0_right)
  then show ?thesis unfolding binder_thread_write_def Let_def by (simp only:)
qed

text \<open>Memory that holds a list of bytes at an address and nothing else.\<close>

definition user_at :: "u64 \<Rightarrow> u8 list \<Rightarrow> user_mem" where
  "user_at addr bs = (\<lambda>a. if unat (a - addr) < length bs then Some (bs ! unat (a - addr)) else None)"

lemma user_at_holds: "length bs < 2 ^ 64 \<Longrightarrow> user_holds (user_at addr bs) addr bs"
  by (auto simp: user_holds_def user_at_def unat_of_nat_64)

definition demo_call :: binder_transaction_data where
  "demo_call = \<lparr>tr_handle = 0, tr_cookie = 0, tr_code = 3, tr_flags = 0x10, tr_data_size = 8, tr_offsets_size = 0,
     tr_buffer = 8192, tr_offsets = 0\<rparr>"

lemma driver_decodes_queue_witness:
  "binder_thread_write rb_kernel_plain (\<lambda>_. 1000) demo_task (user_at 4096 (queued [demo_call])) 5 6 4096 68 0 demo2 =
    bindE (the_proc demo2 5) (\<lambda>_. bindE (serve_transactions rb_kernel_plain (\<lambda>_. 1000) demo_task 5 6 [demo_call] demo2)
      (\<lambda>bk. Inr (0, bk)))"
proof -
  have "length (queued [demo_call]) = 68" by (simp only: length_queued) simp
  then show ?thesis
    using driver_decodes_queue [OF user_at_holds, of "[demo_call]" 4096 rb_kernel_plain "\<lambda>_. 1000" demo_task 5 6 demo2]
    by (simp del: queued_simps serve_transactions.simps)
qed

section \<open>The library's side\<close>

definition out_queue :: "ipc_thread \<Rightarrow> binder_transaction_data list \<Rightarrow> bool" where
  "out_queue th trs \<longleftrightarrow> parcel_ok (mOut th) \<and> mDataPos (mOut th) = mDataSize (mOut th) \<and> contents (mOut th) = queued trs"

lemma out_queue_size: "out_queue th trs \<Longrightarrow> mDataSize (mOut th) = 68 * length trs"
  using length_contents [of "mOut th"] by (simp add: out_queue_def length_queued)

text \<open>No allocation fails, and there are enough outcomes for \<open>n\<close> writes.\<close>

definition plenty :: "nat \<Rightarrow> parcel_env \<Rightarrow> bool" where
  "plenty n e \<longleftrightarrow> list_all id (pe_malloc e) \<and> 2 * n \<le> length (pe_malloc e)"

lemma padded_tr [simp]: "padded (tr_bytes tr) = tr_bytes tr"
  by (simp add: padded_def pad_size_def)

lemma write_command:
  assumes q: "out_queue th trs" and mem: "plenty 2 e" and fits: "68 * Suc (length trs) * 3 div 2 \<le> INT32_MAX"
  obtains p1 e1 p2 e2 where "writeInt32 proxy junk BC_TRANSACTION (mOut th) e = Inr (NO_ERROR, p1, e1)"
    "Parcel_write proxy junk (tr_bytes tr) p1 e1 = Inr (NO_ERROR, p2, e2)"
    "out_queue (th\<lparr>mOut := p2\<rparr>) (trs @ [tr])"
proof -
  let ?p = "mOut th"
  have ok: "parcel_ok ?p" "mDataPos ?p = mDataSize ?p" "contents ?p = queued trs" using q by (simp_all add: out_queue_def)
  note size = out_queue_size [OF q]
  have "(mDataSize ?p + 4) * 3 div 2 \<le> 68 * Suc (length trs) * 3 div 2" unfolding size by (intro div_le_mono) simp
  with fits have fits1: "(mDataSize ?p + 4) * 3 div 2 \<le> INT32_MAX" by linarith
  obtain p1 e1 where w: "writeInt32 proxy junk BC_TRANSACTION ?p e = Inr (NO_ERROR, p1, e1)" "parcel_ok p1"
    "contents p1 = overwrite (mDataPos ?p) (le_bytes 4 BC_TRANSACTION) (contents ?p)" "mDataPos p1 = mDataPos ?p + 4" "draws e e1"
    using writeInt32_outcome [OF ok(1) fits1, of proxy junk BC_TRANSACTION e] mem by (fastforce simp: plenty_def)
  have c1: "contents p1 = queued trs @ le_bytes 4 BC_TRANSACTION"
    using w(3) ok length_contents [OF ok(1)] by (simp add: overwrite_def del: le_bytes.simps)
  have size1: "mDataSize p1 = mDataSize ?p + 4"
    using length_contents [OF w(2)] c1 ok(3) length_contents [OF ok(1)] by (simp del: le_bytes.simps)
  have "(mDataSize p1 + pad_size 64) * 3 div 2 = 68 * Suc (length trs) * 3 div 2"
    unfolding size1 size by (simp add: pad_size_def)
  with fits have fits2: "(mDataSize p1 + pad_size (length (tr_bytes tr))) * 3 div 2 \<le> INT32_MAX" by simp
  have mem1: "list_all id (pe_malloc e1) \<and> 2 \<le> length (pe_malloc e1)"
    using draws_supply [OF w(5), of 1] mem by (simp add: plenty_def)
  obtain err p2 e2 where x: "Parcel_write proxy junk (tr_bytes tr) p1 e1 = Inr (err, p2, e2)" "parcel_ok p2"
    "if err = NO_ERROR then contents p2 = overwrite (mDataPos p1) (padded (tr_bytes tr)) (contents p1) \<and>
       mDataPos p2 = mDataPos p1 + length (padded (tr_bytes tr))
     else err = NO_MEMORY \<and> contents p2 = contents p1 \<and> mDataPos p2 = mDataPos p1"
    "list_all id (pe_malloc e1) \<and> 2 \<le> length (pe_malloc e1) \<longrightarrow> err = NO_ERROR"
    using Parcel_write_result [OF w(2) _ _ fits2, of proxy junk e1] by auto
  with mem1 obtain p2 e2 where x: "Parcel_write proxy junk (tr_bytes tr) p1 e1 = Inr (NO_ERROR, p2, e2)" "parcel_ok p2"
    "contents p2 = overwrite (mDataPos p1) (tr_bytes tr) (contents p1)" "mDataPos p2 = mDataPos p1 + 64"
    by simp
  have pos1: "mDataPos p1 = length (contents p1)" using w(2,4) size1 ok(2) length_contents [OF w(2)] by simp
  have c2: "contents p2 = queued (trs @ [tr])" using x(3) c1 pos1 by (simp add: overwrite_def del: le_bytes.simps)
  then have "mDataPos p2 = mDataSize p2"
    using x(4) pos1 c1 length_contents [OF x(2)] by (simp del: le_bytes.simps)
  with x(2) c2 have "out_queue (th\<lparr>mOut := p2\<rparr>) (trs @ [tr])" by (simp add: out_queue_def)
  with w(1) x(1) show ?thesis by (rule that)
qed

text \<open>The transaction that a call without errors puts together.\<close>

definition call_data :: "u32 \<Rightarrow> int \<Rightarrow> u32 \<Rightarrow> parcel \<Rightarrow> u64 \<Rightarrow> u64 \<Rightarrow> binder_transaction_data" where
  "call_data flags handle code data buffer offsets =
     \<lparr>tr_handle = word_of_int handle, tr_cookie = 0, tr_code = code, tr_flags = flags,
      tr_data_size = of_nat (ipcDataSize data), tr_offsets_size = of_nat (ipcObjectsCount data * 8),
      tr_buffer = buffer, tr_offsets = offsets\<rparr>"

lemma transaction_queued:
  assumes th: "ip_threads st t = Some th" and q: "out_queue th trs" and mem: "plenty 2 (ip_env st)"
    and fits: "68 * Suc (length trs) * 3 div 2 \<le> INT32_MAX" and data: "errorCheck data = NO_ERROR"
  shows "\<exists>out e. writeTransactionData proxy junk BC_TRANSACTION flags handle code data buffer offsets status t st =
      Inr (NO_ERROR, set_ipc t (th\<lparr>mOut := out\<rparr>) (st\<lparr>ip_env := e\<rparr>)) \<and>
    out_queue (th\<lparr>mOut := out\<rparr>) (trs @ [call_data flags handle code data buffer offsets])"
proof -
  let ?tr = "call_data flags handle code data buffer offsets"
  obtain p1 e1 p2 e2 where "writeInt32 proxy junk BC_TRANSACTION (mOut th) (ip_env st) = Inr (NO_ERROR, p1, e1)"
    "Parcel_write proxy junk (tr_bytes ?tr) p1 e1 = Inr (NO_ERROR, p2, e2)" "out_queue (th\<lparr>mOut := p2\<rparr>) (trs @ [?tr])"
    by (rule write_command [OF q mem fits])
  with th data show ?thesis
    by (intro exI [of _ p2] exI [of _ e2])
      (simp add: writeTransactionData_def the_ipc_def transaction_data_def call_data_def Let_def)
qed

text \<open>\<open>writeTransactionData\<close> appends one transaction to the queue \<open>mOut\<close> holds: the handle, the code and the flags
  it was given, the size of the data and eight bytes for each object in it, behind all that was queued before.\<close>

theorem writeTransactionData_appends:
  assumes th: "ip_threads st t = Some th" and q: "out_queue th trs" and mem: "plenty 2 (ip_env st)"
    and fits: "68 * Suc (length trs) * 3 div 2 \<le> INT32_MAX" and data: "errorCheck data = NO_ERROR"
  shows "\<exists>out e. writeTransactionData proxy junk BC_TRANSACTION flags handle code data buffer offsets status t st =
      Inr (NO_ERROR, set_ipc t (th\<lparr>mOut := out\<rparr>) (st\<lparr>ip_env := e\<rparr>)) \<and>
    out_queue (th\<lparr>mOut := out\<rparr>) (trs @ [call_data flags handle code data buffer offsets])"
  by (rule transaction_queued [OF assms])

definition demo_thread :: ipc_thread where
  "demo_thread = \<lparr>mProcess = Some 0, mPostWriteWeakDerefs = [], mPostWriteStrongDerefs = [], mIn = Parcel_new,
     mOut = Parcel_new, mLastError = 0, mCallingPid = 7, mCallingSid = None, mCallingUid = 1000\<rparr>"

definition demo_ipc :: "sys \<Rightarrow> ipc" where
  "demo_ipc s = \<lparr>ip_process = demo_process\<lparr>pc_sys := s\<rparr>, ip_env = demo_env, gHaveTLS = True, gShutdown = False, ip_key = 0,
     ip_pid = 7, ip_uid = 1000, ip_tls = [1 \<mapsto> 0], ip_threads = [0 \<mapsto> demo_thread], ip_next = 1, the_context_object = None\<rparr>"

lemma demo_ipc_simps:
  "ip_threads (demo_ipc s) 0 = Some demo_thread" "out_queue demo_thread []" "plenty 2 (ip_env (demo_ipc s))"
  by (simp_all add: demo_ipc_def demo_thread_def out_queue_def parcel_new_ok plenty_def demo_env_def)
    (simp add: Parcel_new_def initState_def)

lemma writeTransactionData_appends_witness:
  "\<exists>out e. writeTransactionData (\<lambda>_. None) 9 BC_TRANSACTION 0x10 0 3 Parcel_new 8192 0 None 0 (demo_ipc demo_sys) =
      Inr (NO_ERROR, set_ipc 0 (demo_thread\<lparr>mOut := out\<rparr>) ((demo_ipc demo_sys)\<lparr>ip_env := e\<rparr>)) \<and>
    contents out = queued [call_data 0x10 0 3 Parcel_new 8192 0]"
  using writeTransactionData_appends [OF demo_ipc_simps, of Parcel_new "\<lambda>_. None" 9 "0x10" 0 3 8192 0 None demo_sys]
  by (auto simp: out_queue_def errorCheck_def Parcel_new_def initState_def simp del: queued_simps)

section \<open>An empty parcel\<close>

lemma drop_objects_ok:
  "\<forall>off\<in>set offs. unat off + SIZEOF_flat_binder_object \<le> length data \<Longrightarrow> \<exists>r. drop_objects proxy data offs fds e = Inr r"
proof (induction offs arbitrary: fds e)
  case (Cons off offs)
  then have off: "unat off + SIZEOF_flat_binder_object \<le> length data" by simp
  obtain ty where "flat_type data (unat off) = Inr ty" using flat_reads_ok(1) [OF off] by blast
  moreover obtain e1 where "release_object proxy data (unat off) e = Inr e1" using release_object_ok [OF off] by blast
  ultimately show ?case using Cons by (simp add: Let_def)
qed simp

lemma setDataSize_0:
  assumes ok: "parcel_ok p" and size: "0 < mDataSize p"
  obtains p' e' where "setDataSize proxy junk 0 p e = Inr (NO_ERROR, p', e')" "parcel_ok p'" "contents p' = []"
    "mDataPos p' = 0" "mDataSize p' = 0"
proof (cases "mOwner p")
  case (Some own)
  then show ?thesis
    by (intro that [of "initState\<lparr>mDataSize := 0\<rparr>" "call_owner own p e"])
      (use size in \<open>simp_all add: setDataSize_def continueWrite_def objects_after_def continueWrite_owned_def freeData_def
        freeDataNoInit_def initState_def parcel_ok_def blocks_ok_def contents_def\<close>)
next
  case None
  obtain data where data: "mData p = Some data" "length data = mDataCapacity p"
    using ok size by (auto simp: parcel_ok_def blocks_ok_def split: option.splits)
  have "\<exists>p1 e1. continueWrite_objects proxy data 0 p e = Inr (p1, e1) \<and> mData p1 = Some data \<and>
      mDataCapacity p1 = mDataCapacity p \<and> mDataSize p1 = mDataSize p \<and> mDataPos p1 = mDataPos p \<and> mObjectsSize p1 = 0"
  proof (cases "mObjectsSize p = 0")
    case False
    then obtain objs where objs: "mObjects p = Some objs" "mObjectsSize p \<le> length objs"
      "\<forall>i<mObjectsSize p. unat (objs ! i) + SIZEOF_flat_binder_object \<le> mDataSize p"
      using ok by (auto simp: parcel_ok_def blocks_ok_def split: option.splits)
    have "\<forall>off\<in>set (take (mObjectsSize p) objs). unat off + SIZEOF_flat_binder_object \<le> length data"
      using objs(2,3) data(2) ok by (fastforce simp: in_set_conv_nth parcel_ok_def)
    then obtain fds e1 where "drop_objects proxy data (take (mObjectsSize p) objs) (mFdsKnown p) e = Inr (fds, e1)"
      using drop_objects_ok by fastforce
    with False objs data show ?thesis by (simp add: continueWrite_objects_def mem_read_ok Let_def)
  qed (use data in \<open>simp add: continueWrite_objects_def\<close>)
  then obtain p1 e1 where p1: "continueWrite_objects proxy data 0 p e = Inr (p1, e1)" "mData p1 = Some data"
    "mDataCapacity p1 = mDataCapacity p" "mDataSize p1 = mDataSize p" "mObjectsSize p1 = 0" by blast
  let ?p2 = "if mDataPos p1 > 0 then p1\<lparr>mDataSize := 0, mDataPos := 0\<rparr> else p1\<lparr>mDataSize := 0\<rparr>"
  have "setDataSize proxy junk 0 p e = Inr (NO_ERROR, ?p2\<lparr>mDataSize := 0\<rparr>, e1)"
    using None data p1 size by (simp add: setDataSize_def continueWrite_def objects_after_def continueWrite_data_def)
  then show ?thesis
    by (rule that) (use p1 data ok in \<open>auto simp: parcel_ok_def blocks_ok_def contents_def split: option.splits\<close>)
qed

end
