(* ===== verification/IPC_Talk_Props.thy ===== *)
theory IPC_Talk_Props
  imports IPC_Thread_Props
begin

text \<open>
  \<open>talkWithDriver\<close> and \<open>transact\<close>: when the loop around \<open>ioctl\<close> ends, what is reported for which answer of the driver,
  and what is left in the queue. The test of the value of \<open>ioctl\<close> is the wrong way round.
\<close>

section \<open>The loop\<close>

lemma talk_ioctl_quiet:
  assumes "io_read (sys_ioctl s (sys_calls s)) = []"
  shows "talk_ioctl fd out bwr inp s =
    (let r = sys_ioctl s (sys_calls s); s' = snd (do_ioctl fd BINDER_WRITE_READ (WriteRead bwr out) s)
     in Inr (if io_ret r \<noteq> 0 then NO_ERROR else - sys_errno s,
             bwr\<lparr>bwr_write_consumed := of_nat (io_write_consumed r), bwr_read_consumed := 0\<rparr>, inp, s'))"
  using assms by (simp add: talk_ioctl_def do_ioctl_def Let_def)

lemma talk_loop_stuck:
  assumes "\<forall>k. io_read (sys_ioctl s k) = []" and "\<forall>k. io_ret (sys_ioctl s (sys_calls s + k)) = 0" and "sys_errno s = EINTR"
  shows "talk_loop fuel fd out bwr inp s = Inl OutOfFuel"
  using assms
proof (induction fuel arbitrary: bwr s)
  case (Suc fuel)
  let ?s = "snd (do_ioctl fd BINDER_WRITE_READ (WriteRead bwr out) s)"
  have "io_ret (sys_ioctl s (sys_calls s)) = 0" using Suc.prems(2) by (metis add_0_right)
  moreover have "talk_loop fuel fd out bwr' inp ?s = Inl OutOfFuel" for bwr'
  proof (rule Suc.IH)
    have "io_ret (sys_ioctl s (Suc (sys_calls s + k))) = 0" for k using Suc.prems(2) by (metis add_Suc_right)
    then show "\<forall>k. io_ret (sys_ioctl ?s (sys_calls ?s + k)) = 0" by (simp add: do_ioctl_def Let_def)
    show "sys_errno ?s = EINTR" using Suc.prems(3) calculation by (simp add: do_ioctl_def Let_def)
  qed (use Suc.prems(1) in \<open>simp add: do_ioctl_def Let_def\<close>)
  ultimately show ?case using Suc.prems by (simp add: talk_ioctl_quiet Let_def)
qed simp

lemma talk_loop_ends:
  assumes "\<forall>k. io_read (sys_ioctl s k) = []" and "io_ret (sys_ioctl s (sys_calls s + k)) \<noteq> 0"
  shows "\<exists>r. talk_loop (Suc k) fd out bwr inp s = Inr r"
  using assms
proof (induction k arbitrary: bwr s)
  case 0
  then show ?case by (simp add: talk_ioctl_quiet Let_def)
next
  case (Suc k)
  let ?s = "snd (do_ioctl fd BINDER_WRITE_READ (WriteRead bwr out) s)"
  have "\<exists>r. talk_loop (Suc k) fd out bwr' inp ?s = Inr r" for bwr'
    by (rule Suc.IH) (use Suc.prems in \<open>simp_all add: do_ioctl_def Let_def\<close>)
  then show ?case
    using Suc.prems(1) by (subst talk_loop.simps) (simp add: talk_ioctl_quiet Let_def del: talk_loop.simps)
qed

text \<open>C34: when the loop of \<open>talkWithDriver\<close> ends. If the driver reads nothing back, the loop returns unless \<open>errno\<close> holds an
  \<open>EINTR\<close> that some earlier call has left, and then it returns only if one of the coming calls of \<open>ioctl\<close> fails: as long as
  they succeed, each success is taken for an interruption and the commands are handed over again.\<close>

theorem talk_loop_returns_iff:
  assumes quiet: "\<forall>k. io_read (sys_ioctl s k) = []"
  shows "(\<exists>fuel r. talk_loop fuel fd out bwr inp s = Inr r) \<longleftrightarrow>
    sys_errno s \<noteq> EINTR \<or> (\<exists>k. io_ret (sys_ioctl s (sys_calls s + k)) \<noteq> 0)"
proof
  assume "\<exists>fuel r. talk_loop fuel fd out bwr inp s = Inr r"
  then show "sys_errno s \<noteq> EINTR \<or> (\<exists>k. io_ret (sys_ioctl s (sys_calls s + k)) \<noteq> 0)"
    using talk_loop_stuck [OF quiet] by fastforce
next
  assume "sys_errno s \<noteq> EINTR \<or> (\<exists>k. io_ret (sys_ioctl s (sys_calls s + k)) \<noteq> 0)"
  then show "\<exists>fuel r. talk_loop fuel fd out bwr inp s = Inr r"
  proof
    assume "sys_errno s \<noteq> EINTR"
    then have "\<exists>r. talk_loop 1 fd out bwr inp s = Inr r" using quiet by (simp add: talk_ioctl_quiet Let_def)
    then show ?thesis by blast
  next
    assume "\<exists>k. io_ret (sys_ioctl s (sys_calls s + k)) \<noteq> 0"
    then show ?thesis using talk_loop_ends [OF quiet] by blast
  qed
qed

lemma talk_loop_returns_iff_witness:
  "\<not> (\<exists>fuel r. talk_loop fuel 5 [1] \<lparr>bwr_write_size = 1, bwr_write_consumed = 0, bwr_write_buffer = 4096, bwr_read_size = 0,
     bwr_read_consumed = 0, bwr_read_buffer = 0\<rparr> Parcel_new (demo_sys\<lparr>sys_errno := EINTR\<rparr>) = Inr r)"
  by (subst talk_loop_returns_iff) (simp_all add: demo_sys_def)

section \<open>One call\<close>

text \<open>What a thread needs to talk to the driver: a descriptor, nothing read so far, no references to drop.\<close>

definition can_talk :: "nat \<Rightarrow> ipc_thread \<Rightarrow> int \<Rightarrow> ipc \<Rightarrow> bool" where
  "can_talk t th fd st \<longleftrightarrow> ip_threads st t = Some th \<and>
     (\<exists>p ps. mProcess th = Some p \<and> pc_states (ip_process st) p = Some ps \<and> mDriverFD ps = fd) \<and> 0 \<le> fd \<and>
     mIn th = Parcel_new \<and> mPostWriteWeakDerefs th = [] \<and> mPostWriteStrongDerefs th = []"

abbreviation (input) the_sys :: "ipc \<Rightarrow> sys" where "the_sys st \<equiv> pc_sys (ip_process st)"
text \<open>What the call after \<open>k\<close> others will answer.\<close>

definition answer :: "sys \<Rightarrow> nat \<Rightarrow> ioctl_reply" where
  "answer s k = sys_ioctl s (sys_calls s + k)"

text \<open>
  The driver stores nothing behind a read buffer of size 0, and a count of bytes fits its field; \<open>errno\<close> is not negative.
\<close>

definition reads_nothing :: "sys \<Rightarrow> bool" where
  "reads_nothing s \<longleftrightarrow> (\<forall>i. io_read (sys_ioctl s i) = [] \<and> io_write_consumed (sys_ioctl s i) < 2 ^ 64) \<and> 0 \<le> sys_errno s"

text \<open>The call, counted from the next one, that ends the loop; the error that is reported then, and what stays in the queue.\<close>

definition last_call :: "sys \<Rightarrow> nat \<Rightarrow> bool" where
  "last_call s k \<longleftrightarrow>
     (if sys_errno s = EINTR then io_ret (answer s k) \<noteq> 0 \<and> (\<forall>i<k. io_ret (answer s i) = 0) else k = 0)"

definition reported :: "sys \<Rightarrow> nat \<Rightarrow> int" where
  "reported s k = (if io_ret (answer s k) \<noteq> 0 \<or> sys_errno s = 0 then NO_ERROR else - EBADF)"

definition left_over :: "sys \<Rightarrow> nat \<Rightarrow> binder_transaction_data list \<Rightarrow> binder_transaction_data list" where
  "left_over s k trs = (if reported s k = NO_ERROR \<and> 68 * length trs \<le> io_write_consumed (answer s k) then [] else trs)"

text \<open>The record of call \<open>i\<close> of the loop, and the system after \<open>n\<close> calls.\<close>

definition bwr_after :: "ioctl_reply \<Rightarrow> binder_write_read \<Rightarrow> binder_write_read" where
  "bwr_after r bwr = bwr\<lparr>bwr_write_consumed := of_nat (io_write_consumed r), bwr_read_consumed := 0\<rparr>"

definition request_of :: "sys \<Rightarrow> binder_write_read \<Rightarrow> nat \<Rightarrow> binder_write_read" where
  "request_of s bwr i = (case i of 0 \<Rightarrow> bwr | Suc n \<Rightarrow> bwr_after (answer s n) bwr)"

abbreviation (input) sys_ioctl_done :: "int \<Rightarrow> u8 list \<Rightarrow> binder_write_read \<Rightarrow> sys \<Rightarrow> sys" where
  "sys_ioctl_done fd out bwr s \<equiv> snd (do_ioctl fd BINDER_WRITE_READ (WriteRead bwr out) s)"

primrec after_calls :: "int \<Rightarrow> u8 list \<Rightarrow> nat \<Rightarrow> binder_write_read \<Rightarrow> sys \<Rightarrow> sys" where
  "after_calls fd out 0 bwr s = s"
| "after_calls fd out (Suc n) bwr s = after_calls fd out n (bwr_after (answer s 0) bwr) (sys_ioctl_done fd out bwr s)"

lemma sys_ioctl_done_simps [simp]:
  "answer (sys_ioctl_done fd out bwr s) k = answer s (Suc k)"
  "reads_nothing s \<Longrightarrow> io_ret (answer s 0) = 0 \<Longrightarrow> reads_nothing (sys_ioctl_done fd out bwr s)"
  "io_ret (answer s 0) = 0 \<Longrightarrow> sys_errno (sys_ioctl_done fd out bwr s) = sys_errno s"
  "sys_trace (sys_ioctl_done fd out bwr s) = sys_trace s @ [IoctlCall fd BINDER_WRITE_READ (WriteRead bwr out)]"
  by (simp_all add: do_ioctl_def Let_def answer_def reads_nothing_def)

lemma talk_loop_step:
  assumes "reads_nothing s"
  shows "talk_loop (Suc fuel) fd out bwr inp s =
    (if io_ret (answer s 0) = 0 \<and> sys_errno s = EINTR
     then talk_loop fuel fd out (bwr_after (answer s 0) bwr) inp (sys_ioctl_done fd out bwr s)
     else Inr (if io_ret (answer s 0) \<noteq> 0 then NO_ERROR else - sys_errno s, bwr_after (answer s 0) bwr, inp, sys_ioctl_done fd out bwr s))"
  using assms by (auto simp: reads_nothing_def talk_ioctl_quiet Let_def bwr_after_def answer_def)

lemma after_calls_trace:
  "sys_trace (after_calls fd out n bwr s) =
    sys_trace s @ map (\<lambda>i. IoctlCall fd BINDER_WRITE_READ (WriteRead (request_of s bwr i) out)) [0..<n]"
proof (induction n arbitrary: bwr s)
  case (Suc n)
  have "request_of (sys_ioctl_done fd out bwr s) (bwr_after (answer s 0) bwr) i = request_of s bwr (Suc i)" for i
    by (cases i) (simp_all add: request_of_def bwr_after_def)
  moreover have "request_of s bwr 0 = bwr" by (simp add: request_of_def)
  moreover have "map f [0..<Suc n] = f 0 # map (\<lambda>i. f (Suc i)) [0..<n]" for f :: "nat \<Rightarrow> sys_event"
    by (induction n) simp_all
  ultimately show ?case
    using Suc.IH [of "bwr_after (answer s 0) bwr" "sys_ioctl_done fd out bwr s"] by (simp del: upt_Suc)
qed simp

lemma talk_loop_last:
  assumes "reads_nothing s" and "last_call s k" and "k < fuel"
  shows "talk_loop fuel fd out bwr inp s =
    Inr (if io_ret (answer s k) \<noteq> 0 then NO_ERROR else - sys_errno s, bwr_after (answer s k) bwr, inp, after_calls fd out (Suc k) bwr s)"
  using assms
proof (induction k arbitrary: fuel bwr s)
  case 0
  then obtain m where m: "fuel = Suc m" by (cases fuel) auto
  have "\<not> (io_ret (answer s 0) = 0 \<and> sys_errno s = EINTR)" using 0(2) by (simp add: last_call_def split: if_splits)
  then show ?case unfolding m talk_loop_step [OF 0(1)] by (subst if_not_P) simp_all
next
  case (Suc k)
  then obtain m where m: "fuel = Suc m" "k < m" by (cases fuel) auto
  let ?s = "sys_ioctl_done fd out bwr s"
  have err: "sys_errno s = EINTR" "io_ret (answer s 0) = 0" using Suc.prems(2) by (auto simp: last_call_def split: if_splits)
  have "last_call ?s k" using Suc.prems(2) err by (auto simp: last_call_def)
  note step = Suc.IH [OF sys_ioctl_done_simps(2) [OF Suc.prems(1) err(2)] this m(2)]
  show ?case unfolding m(1) talk_loop_step [OF Suc.prems(1)]
    using err by (simp add: step bwr_after_def del: talk_loop.simps)
qed

lemma no_last_call:
  assumes "\<forall>k. \<not> last_call s k"
  shows "sys_errno s = EINTR" "\<forall>k. io_ret (answer s k) = 0"
proof -
  show errno: "sys_errno s = EINTR" using assms by (metis last_call_def)
  have "io_ret (answer s k) = 0" for k
  proof (induction k rule: less_induct)
    case (less k)
    then show ?case using assms errno unfolding last_call_def by auto
  qed
  then show "\<forall>k. io_ret (answer s k) = 0" ..
qed

lemma out_queue_same: "mOut th' = mOut th \<Longrightarrow> out_queue th' trs = out_queue th trs"
  by (simp add: out_queue_def)

lemma talk_consumed_plain:
  assumes q: "out_queue th trs" and trs: "trs \<noteq> []" and small: "68 * length trs < 2 ^ 64"
    and n: "n < 2 ^ 64" and bwr: "bwr_write_consumed bwr = of_nat n" "bwr_read_consumed bwr = 0"
    and derefs: "mPostWriteWeakDerefs th = []" "mPostWriteStrongDerefs th = []"
  shows "\<exists>out e. talk_consumed proxy junk bwr th st = Inr (th\<lparr>mOut := out\<rparr>, st\<lparr>ip_env := e\<rparr>) \<and>
    out_queue (th\<lparr>mOut := out\<rparr>) (if 68 * length trs \<le> n then [] else trs)"
proof -
  have size: "mDataSize (mOut th) = 68 * length trs" "dataSize (mOut th) = 68 * length trs"
    using out_queue_size [OF q] q by (simp_all add: dataSize_def out_queue_def)
  have un: "unat (of_nat n :: u64) = n" by (rule unat_of_nat_64 [OF n])
  then have pos: "(0 < (of_nat n :: u64)) = (0 < n)" by (simp add: word_less_nat_alt)
  have same: "th\<lparr>mOut := mOut th\<rparr> = th" "st\<lparr>ip_env := ip_env st\<rparr> = st" by simp_all
  show ?thesis
  proof (cases "68 * length trs \<le> n")
    case False
    then have "talk_consumed proxy junk bwr th st = Inr (th, st)"
      using bwr un pos size by (simp add: talk_consumed_def)
    with False q same show ?thesis by (intro exI [of _ "mOut th"] exI [of _ "ip_env st"]) simp
  next
    case True
    have "0 < length trs" using trs by simp
    obtain p' e' where p': "setDataSize proxy junk 0 (mOut th) (ip_env st) = Inr (NO_ERROR, p', e')" "parcel_ok p'"
      "contents p' = []" "mDataPos p' = 0" "mDataSize p' = 0"
    proof (rule setDataSize_0 [of "mOut th" proxy junk "ip_env st"])
      show "parcel_ok (mOut th)" using q by (simp add: out_queue_def)
      show "0 < mDataSize (mOut th)" using size \<open>0 < length trs\<close> by simp
    qed blast
    have "st\<lparr>ip_env := e', ip_process := (ip_process st)\<lparr>pc_heap := pc_heap (ip_process st)\<rparr>\<rparr> = st\<lparr>ip_env := e'\<rparr>" by simp
    moreover have "th\<lparr>mOut := p', mPostWriteWeakDerefs := [], mPostWriteStrongDerefs := []\<rparr> = th\<lparr>mOut := p'\<rparr>"
      using derefs by (cases th) simp
    ultimately have "talk_consumed proxy junk bwr th st = Inr (th\<lparr>mOut := p'\<rparr>, st\<lparr>ip_env := e'\<rparr>)"
      using True bwr un pos size p'(1) derefs \<open>0 < length trs\<close>
      by (simp add: talk_consumed_def processPostWriteDerefs_def)
    with True p' show ?thesis by (intro exI [of _ p'] exI [of _ e']) (simp add: out_queue_def)
  qed
qed

lemma out_bytes_queue:
  assumes "out_queue th trs" shows "out_bytes (mOut th) (68 * length trs) = Inr (queued trs)"
proof (cases "trs = []")
  case False
  have size: "mDataSize (mOut th) = 68 * length trs" by (rule out_queue_size [OF assms])
  from False size assms obtain data where "mData (mOut th) = Some data" "68 * length trs \<le> length data"
    by (auto simp: out_queue_def parcel_ok_def blocks_ok_def split: option.splits)
  with False size assms show ?thesis by (simp add: out_bytes_def mem_read_ok out_queue_def contents_def)
qed (simp add: out_bytes_def)

text \<open>The record handed to the driver.\<close>

definition write_request :: "u64 \<Rightarrow> u64 \<Rightarrow> binder_transaction_data list \<Rightarrow> binder_write_read" where
  "write_request outAddr inAddr trs =
     \<lparr>bwr_write_size = of_nat (length (queued trs)), bwr_write_consumed = 0, bwr_write_buffer = outAddr,
      bwr_read_size = 0, bwr_read_consumed = 0, bwr_read_buffer = inAddr\<rparr>"

definition talked :: "u64 \<Rightarrow> u64 \<Rightarrow> int \<Rightarrow> binder_transaction_data list \<Rightarrow> nat \<Rightarrow> sys \<Rightarrow> sys" where
  "talked outAddr inAddr fd trs k s = after_calls fd (queued trs) (Suc k) (write_request outAddr inAddr trs) s"

text \<open>\<open>talkWithDriver\<close> in terms of its loop.\<close>

lemma talk_unfold:
  assumes can: "can_talk t th fd st" and q: "out_queue th trs" and trs: "trs \<noteq> []"
  shows "talkWithDriver proxy junk outAddr inAddr fuel True t st =
    bindE (talk_loop fuel fd (queued trs) (write_request outAddr inAddr trs) Parcel_new (the_sys st)) (\<lambda>(err, bwr, inp, s).
      let th = th\<lparr>mIn := inp\<rparr>; st = st\<lparr>ip_process := (ip_process st)\<lparr>pc_sys := s\<rparr>\<rparr>
      in if err \<ge> NO_ERROR then
           bindE (talk_consumed proxy junk bwr th st) (\<lambda>(th, st). Inr (NO_ERROR, set_ipc t th st))
         else Inr (- EBADF, set_ipc t th st))"
proof -
  obtain p ps where th: "ip_threads st t = Some th" "mProcess th = Some p" "pc_states (ip_process st) p = Some ps"
    "mDriverFD ps = fd" "0 \<le> fd" "mIn th = Parcel_new"
    using can by (auto simp: can_talk_def)
  have new: "dataPosition Parcel_new = 0" "dataSize Parcel_new = 0" "dataCapacity Parcel_new = 0"
    by (simp_all add: dataPosition_def dataSize_def dataCapacity_def Parcel_new_def initState_def)
  have size: "dataSize (mOut th) = 68 * length trs"
    using out_queue_size [OF q] q by (simp add: dataSize_def out_queue_def)
  have ne: "68 * length trs \<noteq> 0" using trs by simp
  show ?thesis
    using th size new ne out_bytes_queue [OF q]
    by (simp add: talkWithDriver_def the_ipc_def the_state_def Let_def write_request_def length_queued)
qed

lemma talk_outcome:
  assumes can: "can_talk t th fd st" and q: "out_queue th trs" and trs: "trs \<noteq> []" and small: "68 * length trs < 2 ^ 64"
    and quiet: "reads_nothing (the_sys st)" and k: "last_call (the_sys st) k" "k < fuel"
  shows "\<exists>out e. talkWithDriver proxy junk outAddr inAddr fuel True t st =
      Inr (reported (the_sys st) k, set_ipc t (th\<lparr>mOut := out\<rparr>)
        (st\<lparr>ip_env := e, ip_process := (ip_process st)\<lparr>pc_sys := talked outAddr inAddr fd trs k (the_sys st)\<rparr>\<rparr>)) \<and>
    out_queue (th\<lparr>mOut := out\<rparr>) (left_over (the_sys st) k trs)"
proof -
  have th: "mIn th = Parcel_new" "mPostWriteWeakDerefs th = []" "mPostWriteStrongDerefs th = []"
    using can by (auto simp: can_talk_def)
  have same: "th\<lparr>mIn := Parcel_new\<rparr> = th" using th(1) by (cases th) simp
  let ?r = "answer (the_sys st) k" and ?s = "talked outAddr inAddr fd trs k (the_sys st)"
  let ?st = "st\<lparr>ip_process := (ip_process st)\<lparr>pc_sys := ?s\<rparr>\<rparr>" and ?bwr' = "bwr_after ?r (write_request outAddr inAddr trs)"
  let ?err = "if io_ret ?r \<noteq> 0 then NO_ERROR else - sys_errno (the_sys st)"
  have run: "talkWithDriver proxy junk outAddr inAddr fuel True t st =
      (if ?err \<ge> NO_ERROR then bindE (talk_consumed proxy junk ?bwr' th ?st) (\<lambda>(th, st). Inr (NO_ERROR, set_ipc t th st))
       else Inr (- EBADF, set_ipc t th ?st))"
    by (simp add: talk_unfold [OF can q trs] talk_loop_last [OF quiet k] same Let_def talked_def)
  have errno: "0 \<le> sys_errno (the_sys st)" using quiet by (simp add: reads_nothing_def)
  show ?thesis
  proof (cases "reported (the_sys st) k = NO_ERROR")
    case True
    then have ge: "?err \<ge> NO_ERROR" by (auto simp: reported_def split: if_splits)
    have n: "io_write_consumed ?r < 2 ^ 64" using quiet by (simp add: reads_nothing_def answer_def)
    have "bwr_write_consumed ?bwr' = of_nat (io_write_consumed ?r)" "bwr_read_consumed ?bwr' = 0" by (simp_all add: bwr_after_def)
    from talk_consumed_plain [OF q trs small n this th(2,3), of proxy junk ?st] obtain out e where
      "talk_consumed proxy junk ?bwr' th ?st = Inr (th\<lparr>mOut := out\<rparr>, ?st\<lparr>ip_env := e\<rparr>)"
      "out_queue (th\<lparr>mOut := out\<rparr>) (if 68 * length trs \<le> io_write_consumed ?r then [] else trs)" by blast
    moreover have "?st\<lparr>ip_env := e\<rparr> = st\<lparr>ip_env := e, ip_process := (ip_process st)\<lparr>pc_sys := ?s\<rparr>\<rparr>" by simp
    ultimately show ?thesis using True run ge
      by (intro exI [of _ out] exI [of _ e]) (simp add: left_over_def)
  next
    case False
    then have lt: "\<not> ?err \<ge> NO_ERROR" and rep: "reported (the_sys st) k = - EBADF"
      using errno by (auto simp: reported_def split: if_splits)
    have "th\<lparr>mOut := mOut th\<rparr> = th" "st\<lparr>ip_env := ip_env st\<rparr> = st" by simp_all
    with lt rep run q show ?thesis
      by (intro exI [of _ "mOut th"] exI [of _ "ip_env st"]) (simp add: left_over_def)
  qed
qed

lemma talk_never_ends:
  assumes can: "can_talk t th fd st" and q: "out_queue th trs" and trs: "trs \<noteq> []"
    and quiet: "reads_nothing (the_sys st)" and never: "\<forall>k. \<not> last_call (the_sys st) k"
  shows "talkWithDriver proxy junk outAddr inAddr fuel True t st = Inl OutOfFuel"
  using quiet no_last_call [OF never]
  by (simp add: talk_unfold [OF can q trs] talk_loop_stuck reads_nothing_def answer_def)

section \<open>A transaction\<close>

text \<open>The reply parcel as the caller gets it back.\<close>

definition reply_after :: "int \<Rightarrow> u32 \<Rightarrow> parcel option \<Rightarrow> parcel option" where
  "reply_after err flags reply =
     (if err \<noteq> NO_ERROR \<and> flags AND TF_ONE_WAY = 0 then map_option (setError err) reply else reply)"

lemma wait_outcome:
  assumes can: "can_talk t th fd st" and q: "out_queue th trs" and trs: "trs \<noteq> []" and small: "68 * length trs < 2 ^ 64"
    and quiet: "reads_nothing (the_sys st)" and k: "last_call (the_sys st) k" "k < fuel"
  shows "\<exists>st' th'. waitForResponse proxy junk outAddr inAddr fuel t reply st =
      Inr (reported (the_sys st) k,
           if reported (the_sys st) k = NO_ERROR then reply else map_option (setError (reported (the_sys st) k)) reply,
           if reported (the_sys st) k = NO_ERROR then None else Some (reported (the_sys st) k), st') \<and>
    ip_threads st' t = Some th' \<and> out_queue th' (left_over (the_sys st) k trs) \<and> mIn th' = Parcel_new \<and>
    the_sys st' = talked outAddr inAddr fd trs k (the_sys st)"
proof -
  let ?rep = "reported (the_sys st) k" and ?s = "talked outAddr inAddr fd trs k (the_sys st)"
  obtain out e where run: "talkWithDriver proxy junk outAddr inAddr fuel True t st =
      Inr (?rep, set_ipc t (th\<lparr>mOut := out\<rparr>) (st\<lparr>ip_env := e, ip_process := (ip_process st)\<lparr>pc_sys := ?s\<rparr>\<rparr>))"
    and q': "out_queue (th\<lparr>mOut := out\<rparr>) (left_over (the_sys st) k trs)"
    using talk_outcome [OF assms, of proxy junk outAddr inAddr] by blast
  let ?th = "th\<lparr>mOut := out\<rparr>"
  let ?st = "set_ipc t ?th (st\<lparr>ip_env := e, ip_process := (ip_process st)\<lparr>pc_sys := ?s\<rparr>\<rparr>)"
  have new: "mIn th = Parcel_new" "mError Parcel_new = 0" using can by (simp_all add: can_talk_def Parcel_new_def initState_def)
  have thread: "the_ipc t ?st = Inr ?th" by (simp add: the_ipc_def set_ipc_def)
  show ?thesis
  proof (cases "?rep = NO_ERROR")
    case True
    have "waitForResponse proxy junk outAddr inAddr fuel t reply st = Inr (NO_ERROR, reply, None, ?st)"
      unfolding waitForResponse_def run by (simp add: True thread errorCheck_def new)
    with True q' new show ?thesis by (intro exI [of _ ?st] exI [of _ ?th]) (simp add: set_ipc_def)
  next
    case False
    then have err: "?rep = - EBADF" by (simp add: reported_def split: if_splits)
    let ?th' = "?th\<lparr>mLastError := - EBADF\<rparr>"
    have "waitForResponse proxy junk outAddr inAddr fuel t reply st =
        Inr (- EBADF, map_option (setError (- EBADF)) reply, Some (- EBADF), set_ipc t ?th' ?st)"
      unfolding waitForResponse_def run by (simp add: err thread)
    with err q' new out_queue_same [of ?th' ?th] show ?thesis
      by (intro exI [of _ "set_ipc t ?th' ?st"] exI [of _ ?th']) (simp add: set_ipc_def)
  qed
qed

text \<open>What \<open>transact\<close> waits with.\<close>

lemma transact_waits:
  assumes can: "can_talk t th fd st" and q: "out_queue th trs" and mem: "plenty 2 (ip_env st)"
    and fits: "68 * Suc (length trs) * 3 div 2 \<le> INT32_MAX" and data: "errorCheck data = NO_ERROR"
    and all: "all = trs @ [call_data (flags OR TF_ACCEPT_FDS) handle code data buffer offsets]"
  shows "\<exists>th1 st1. can_talk t th1 fd st1 \<and> out_queue th1 all \<and> the_sys st1 = the_sys st \<and>
    IPC_transact proxy junk outAddr inAddr fuel handle code data buffer offsets reply flags t st =
      (if flags AND TF_ONE_WAY = 0 then
         (case reply of
            Some r \<Rightarrow> bindE (waitForResponse proxy junk outAddr inAddr fuel t (Some r) st1) (\<lambda>(err, reply, _, st). Inr (err, reply, st))
          | None \<Rightarrow>
              bindE (waitForResponse proxy junk outAddr inAddr fuel t (Some Parcel_new) st1) (\<lambda>(err, _, _, st). Inr (err, None, st)))
       else bindE (waitForResponse proxy junk outAddr inAddr fuel t None st1) (\<lambda>(err, _, _, st). Inr (err, reply, st)))"
proof -
  have th: "ip_threads st t = Some th" using can by (simp add: can_talk_def)
  obtain out e where w: "writeTransactionData proxy junk BC_TRANSACTION (flags OR TF_ACCEPT_FDS) handle code data buffer offsets None t st =
      Inr (NO_ERROR, set_ipc t (th\<lparr>mOut := out\<rparr>) (st\<lparr>ip_env := e\<rparr>))" "out_queue (th\<lparr>mOut := out\<rparr>) all"
    using transaction_queued [OF th q mem fits data, of proxy junk "flags OR TF_ACCEPT_FDS" handle code buffer offsets None]
    unfolding all by blast
  have "can_talk t (th\<lparr>mOut := out\<rparr>) fd (set_ipc t (th\<lparr>mOut := out\<rparr>) (st\<lparr>ip_env := e\<rparr>))"
    using can by (auto simp: can_talk_def set_ipc_def)
  moreover have "((flags OR 0x10) AND TF_ONE_WAY = 0) = (flags AND TF_ONE_WAY = 0)"
    by (simp add: bit.conj_disj_distrib2)
  moreover have "the_sys (set_ipc t (th\<lparr>mOut := out\<rparr>) (st\<lparr>ip_env := e\<rparr>)) = the_sys st" by (simp add: set_ipc_def)
  ultimately show ?thesis using w
    by (intro exI [of _ "th\<lparr>mOut := out\<rparr>"] exI [of _ "set_ipc t (th\<lparr>mOut := out\<rparr>) (st\<lparr>ip_env := e\<rparr>)"])
      (simp add: IPC_transact_def Let_def)
qed

lemma transact_result:
  assumes can: "can_talk t th fd st" and q: "out_queue th trs" and mem: "plenty 2 (ip_env st)"
    and fits: "68 * Suc (length trs) * 3 div 2 \<le> INT32_MAX" and data: "errorCheck data = NO_ERROR"
    and quiet: "reads_nothing (the_sys st)" and k: "last_call (the_sys st) k" "k < fuel"
    and all: "all = trs @ [call_data (flags OR TF_ACCEPT_FDS) handle code data buffer offsets]"
  shows "\<exists>st' th'. IPC_transact proxy junk outAddr inAddr fuel handle code data buffer offsets reply flags t st =
      Inr (reported (the_sys st) k, reply_after (reported (the_sys st) k) flags reply, st') \<and>
    ip_threads st' t = Some th' \<and> out_queue th' (left_over (the_sys st) k all) \<and>
    sys_trace (the_sys st') = sys_trace (the_sys st) @
      map (\<lambda>i. IoctlCall fd BINDER_WRITE_READ (WriteRead (request_of (the_sys st) (write_request outAddr inAddr all) i) (queued all)))
        [0..<Suc k]"
proof -
  obtain th1 st1 where 1: "can_talk t th1 fd st1" "out_queue th1 all" "the_sys st1 = the_sys st"
    "IPC_transact proxy junk outAddr inAddr fuel handle code data buffer offsets reply flags t st =
      (if flags AND TF_ONE_WAY = 0 then
         (case reply of
            Some r \<Rightarrow> bindE (waitForResponse proxy junk outAddr inAddr fuel t (Some r) st1) (\<lambda>(err, reply, _, st). Inr (err, reply, st))
          | None \<Rightarrow>
              bindE (waitForResponse proxy junk outAddr inAddr fuel t (Some Parcel_new) st1) (\<lambda>(err, _, _, st). Inr (err, None, st)))
       else bindE (waitForResponse proxy junk outAddr inAddr fuel t None st1) (\<lambda>(err, _, _, st). Inr (err, reply, st)))"
    using transact_waits [OF can q mem fits data all, where proxy = proxy and junk = junk and outAddr = outAddr and inAddr = inAddr and fuel = fuel and reply = reply] by blast
  have small: "68 * length all < 2 ^ 64" and ne: "all \<noteq> []" using fits all by auto
  note wait = wait_outcome [OF 1(1,2) ne small, unfolded 1(3), OF quiet k, where proxy = proxy and junk = junk and outAddr = outAddr and inAddr = inAddr]
  have "\<exists>st' th'. IPC_transact proxy junk outAddr inAddr fuel handle code data buffer offsets reply flags t st =
      Inr (reported (the_sys st) k, reply_after (reported (the_sys st) k) flags reply, st') \<and>
    ip_threads st' t = Some th' \<and> out_queue th' (left_over (the_sys st) k all) \<and>
    the_sys st' = talked outAddr inAddr fd all k (the_sys st)"
  proof (cases "flags AND TF_ONE_WAY = 0")
    case True
    show ?thesis
    proof (cases reply)
      case None
      show ?thesis unfolding 1(4) using wait [where reply = "Some Parcel_new"] True None by (auto simp: reply_after_def)
    next
      case (Some r)
      show ?thesis unfolding 1(4) using wait [where reply = "Some r"] True Some by (auto simp: reply_after_def)
    qed
  next
    case False
    then show ?thesis unfolding 1(4) using wait [where reply = None] by (auto simp: reply_after_def)
  qed
  then show ?thesis by (auto simp: talked_def after_calls_trace simp del: after_calls.simps upt_Suc)
qed

lemma transact_never_ends:
  assumes can: "can_talk t th fd st" and q: "out_queue th trs" and mem: "plenty 2 (ip_env st)"
    and fits: "68 * Suc (length trs) * 3 div 2 \<le> INT32_MAX" and data: "errorCheck data = NO_ERROR"
    and quiet: "reads_nothing (the_sys st)" and never: "\<forall>k. \<not> last_call (the_sys st) k"
  shows "IPC_transact proxy junk outAddr inAddr fuel handle code data buffer offsets reply flags t st = Inl OutOfFuel"
proof -
  obtain th1 st1 where 1: "can_talk t th1 fd st1" "the_sys st1 = the_sys st"
    "out_queue th1 (trs @ [call_data (flags OR TF_ACCEPT_FDS) handle code data buffer offsets])"
    "IPC_transact proxy junk outAddr inAddr fuel handle code data buffer offsets reply flags t st =
      (if flags AND TF_ONE_WAY = 0 then
         (case reply of
            Some r \<Rightarrow> bindE (waitForResponse proxy junk outAddr inAddr fuel t (Some r) st1) (\<lambda>(err, reply, _, st). Inr (err, reply, st))
          | None \<Rightarrow>
              bindE (waitForResponse proxy junk outAddr inAddr fuel t (Some Parcel_new) st1) (\<lambda>(err, _, _, st). Inr (err, None, st)))
       else bindE (waitForResponse proxy junk outAddr inAddr fuel t None st1) (\<lambda>(err, _, _, st). Inr (err, reply, st)))"
    using transact_waits [OF can q mem fits data refl, where proxy = proxy and junk = junk and outAddr = outAddr and inAddr = inAddr and fuel = fuel and reply = reply and flags = flags and handle = handle and code = code and buffer = buffer and offsets = offsets] by blast
  have "waitForResponse proxy junk outAddr inAddr fuel t r st1 = Inl OutOfFuel" for r
    using talk_never_ends [OF 1(1,3), where proxy = proxy and junk = junk and outAddr = outAddr and inAddr = inAddr and fuel = fuel] quiet never 1(2) by (simp add: waitForResponse_def)
  then show ?thesis by (simp add: 1(4) split: option.splits)
qed

text \<open>C5: the outcome of a transaction, for every sequence of answers of the driver, and every value that \<open>errno\<close> may have kept. The thread
  has the driver open, is not in the middle of an answer and has no references to give back; there is memory for the queue, which
  stays below two gigabytes, and the data is without error; the driver stores nothing behind the read buffer, whose size is 0.

  \<open>transact\<close> queues the call behind what is left from earlier ones and hands the whole queue to the driver, with one \<open>ioctl\<close> unless
  \<open>errno\<close> holds an old \<open>EINTR\<close>: then it repeats the call as long as it succeeds, and never returns if it always does. If the last \<open>ioctl\<close>
  fails, that is reported as success, also when the driver refused the call. If it succeeds while \<open>errno\<close> is not zero, because some
  earlier call has failed, the caller gets \<open>-EBADF\<close>, and the call stays in the queue although the driver has carried it
  out: it is sent again with the next one. Otherwise the queue is emptied if the driver says that it consumed it all, and kept as it is
  if not.\<close>

theorem transact_outcome:
  assumes can: "can_talk t th fd st" and q: "out_queue th trs" and mem: "plenty 2 (ip_env st)"
    and fits: "68 * Suc (length trs) * 3 div 2 \<le> INT32_MAX" and data: "errorCheck data = NO_ERROR"
    and quiet: "reads_nothing (the_sys st)"
    and all: "all = trs @ [call_data (flags OR TF_ACCEPT_FDS) handle code data buffer offsets]"
  shows "(\<forall>k < fuel. last_call (the_sys st) k \<longrightarrow>
      (\<exists>st' th'. IPC_transact proxy junk outAddr inAddr fuel handle code data buffer offsets reply flags t st =
          Inr (reported (the_sys st) k, reply_after (reported (the_sys st) k) flags reply, st') \<and>
        reported (the_sys st) k = (if io_ret (answer (the_sys st) k) \<noteq> 0 \<or> sys_errno (the_sys st) = 0 then NO_ERROR else - EBADF) \<and>
        ip_threads st' t = Some th' \<and>
        out_queue th' (if reported (the_sys st) k = NO_ERROR \<and> 68 * length all \<le> io_write_consumed (answer (the_sys st) k)
                       then [] else all) \<and>
        sys_trace (the_sys st') = sys_trace (the_sys st) @
          map (\<lambda>i. IoctlCall fd BINDER_WRITE_READ
                (WriteRead (request_of (the_sys st) (write_request outAddr inAddr all) i) (queued all))) [0..<Suc k])) \<and>
    ((\<forall>k. \<not> last_call (the_sys st) k) \<longrightarrow>
      IPC_transact proxy junk outAddr inAddr fuel handle code data buffer offsets reply flags t st = Inl OutOfFuel)"
proof (intro conjI allI impI)
  fix k assume k: "k < fuel" "last_call (the_sys st) k"
  show "\<exists>st' th'. IPC_transact proxy junk outAddr inAddr fuel handle code data buffer offsets reply flags t st =
          Inr (reported (the_sys st) k, reply_after (reported (the_sys st) k) flags reply, st') \<and>
        reported (the_sys st) k = (if io_ret (answer (the_sys st) k) \<noteq> 0 \<or> sys_errno (the_sys st) = 0 then NO_ERROR else - EBADF) \<and>
        ip_threads st' t = Some th' \<and>
        out_queue th' (if reported (the_sys st) k = NO_ERROR \<and> 68 * length all \<le> io_write_consumed (answer (the_sys st) k)
                       then [] else all) \<and>
        sys_trace (the_sys st') = sys_trace (the_sys st) @
          map (\<lambda>i. IoctlCall fd BINDER_WRITE_READ
                (WriteRead (request_of (the_sys st) (write_request outAddr inAddr all) i) (queued all))) [0..<Suc k]"
    using transact_result [OF can q mem fits data quiet k(2,1) all, where proxy = proxy and junk = junk and outAddr = outAddr and inAddr = inAddr and reply = reply]
    unfolding left_over_def by (simp only: reported_def) blast
next
  assume "\<forall>k. \<not> last_call (the_sys st) k"
  then show "IPC_transact proxy junk outAddr inAddr fuel handle code data buffer offsets reply flags t st = Inl OutOfFuel"
    by (rule transact_never_ends [OF can q mem fits data quiet])
qed

lemma demo_fd: "\<exists>ps. pc_states demo_process 0 = Some ps \<and> mDriverFD ps = 5"
  by (simp add: demo_process_def ProcessState_new_def ProcessState_init_def RefBase_new_def set_state_def Let_def
    open_driver_def sys_defs demo_sys_def)

lemma transact_outcome_witness:
  "\<exists>st' th'. IPC_transact (\<lambda>_. None) 9 4096 0 1 0 3 Parcel_new 8192 0 None 0 0 (demo_ipc (demo_sys\<lparr>sys_errno := 2\<rparr>)) =
      Inr (- EBADF, None, st') \<and> ip_threads st' 0 = Some th' \<and>
    out_queue th' [call_data 0x10 0 3 Parcel_new 8192 0]"
proof -
  let ?st = "demo_ipc (demo_sys\<lparr>sys_errno := 2\<rparr>)"
  have "can_talk 0 demo_thread 5 ?st"
    using demo_fd by (simp add: can_talk_def demo_ipc_def demo_thread_def)
  moreover have "reads_nothing (the_sys ?st)" "last_call (the_sys ?st) 0" "reported (the_sys ?st) 0 = - EBADF"
    by (simp_all add: reads_nothing_def last_call_def answer_def reported_def demo_ipc_def demo_sys_def)
  moreover have "errorCheck Parcel_new = 0" by (simp add: errorCheck_def Parcel_new_def initState_def)
  ultimately show ?thesis
    using transact_outcome [OF _ demo_ipc_simps(2) demo_ipc_simps(3) [of "demo_sys\<lparr>sys_errno := 2\<rparr>"] _ _ _ refl, where t = 0 and fd = 5 and data = Parcel_new
        and fuel = 1 and flags = 0 and handle = 0 and code = 3 and buffer = 8192 and offsets = 0 and proxy = "\<lambda>_. None"
        and junk = 9 and outAddr = 4096 and inAddr = 0 and reply = None]
    by (fastforce simp: reply_after_def)
qed

end
