(* ===== verification/IPC_Lifetime.thy ===== *)
theory IPC_Lifetime
  imports IPC_Thread Process_State_Props RefBase_Props
begin

text \<open>
  The objects of a process and of its threads: the \<open>ProcessState\<close> exists while \<open>gProcess\<close> or a thread refers to it, and
  each thread that has an \<open>IPCThreadState\<close> has one of its own.
\<close>

section \<open>Process states and the references to them\<close>

definition states_ok :: "(nat \<Rightarrow> nat) \<Rightarrow> process \<Rightarrow> bool" where
  "states_ok S pr \<longleftrightarrow> heap_ok S (\<lambda>_. 0) (pc_heap pr) \<and> (\<forall>a. pc_states pr a \<noteq> None \<longleftrightarrow> 0 < S a)"

lemma states_okD: "states_ok S pr \<Longrightarrow> heap_ok S (\<lambda>_. 0) (pc_heap pr)" "states_ok S pr \<Longrightarrow> pc_states pr a \<noteq> None \<longleftrightarrow> 0 < S a"
  unfolding states_ok_def by blast+

lemma states_take:
  assumes ok: "states_ok S pr" and a: "0 < S a" and room: "S a + 1 < 268435456"
  shows "\<exists>rh. sp_new (Some a) (pc_heap pr) = Inr (Some a, rh) \<and> states_ok (S(a := S a + 1)) (pr\<lparr>pc_heap := rh\<rparr>) \<and>
    rh_base rh = rh_base (pc_heap pr)"
proof -
  note heap = states_okD(1) [OF ok]
  have "rh_base (pc_heap pr) a" by (rule heap_ok_live [OF heap a])
  then obtain rh where rh: "sp_new (Some a) (pc_heap pr) = Inr (Some a, rh)" "heap_ok (S(a := S a + 1)) (\<lambda>_. 0) rh"
    "rh_base rh = rh_base (pc_heap pr)"
    using sp_new_ok [OF heap, of "Some a"] room by auto
  have "pc_states pr b \<noteq> None \<longleftrightarrow> 0 < (S(a := S a + 1)) b" for b using states_okD(2) [OF ok, of b] a by simp
  with rh show ?thesis by (auto simp: states_ok_def)
qed

lemma states_drop:
  assumes ok: "states_ok S pr" and a: "0 < S a"
  shows "\<exists>rh. sp_delete (Some a) (pc_heap pr) = Inr rh \<and> states_ok (S(a := S a - 1)) (heap_after (Some a) rh pr)"
proof -
  note heap = states_okD(1) [OF ok]
  obtain rh where rh: "sp_delete (Some a) (pc_heap pr) = Inr rh" "heap_ok (S(a := S a - 1)) (\<lambda>_. 0) rh"
    using sp_delete_ok [OF heap, of "Some a"] a by auto
  have live: "rh_base (pc_heap pr) a" by (rule heap_ok_live [OF heap a])
  have gone: "rh_base rh a \<longleftrightarrow> 1 < S a"
  proof
    assume base: "rh_base rh a"
    show "1 < S a"
    proof (rule ccontr)
      assume "\<not> 1 < S a"
      then have "S a = 1" using a by linarith
      then have "cell_ok a 1 0 (pc_heap pr)" using heap_okD [OF heap, of a] by simp
      moreover have "decStrong a (pc_heap pr) = Inr rh" using rh(1) by (simp add: sp_delete_def)
      ultimately have "\<not> rh_base rh a" by (rule decStrong_last)
      with base show False by contradiction
    qed
  next
    assume "1 < S a"
    then show "rh_base rh a" using heap_ok_live [OF rh(2), of a] by simp
  qed
  obtain ps where ps: "pc_states pr a = Some ps" using states_okD(2) [OF ok, of a] a by blast
  have heap': "pc_heap (heap_after (Some a) rh pr) = rh"
    using ps by (simp add: heap_after_def ProcessState_destroy_def Let_def)
  have "pc_states (heap_after (Some a) rh pr) b \<noteq> None \<longleftrightarrow> 0 < (S(a := S a - 1)) b" for b
  proof (cases "1 < S a")
    case True
    then show ?thesis using gone states_okD(2) [OF ok, of b] by (simp add: heap_after_def)
  next
    case False
    then show ?thesis using gone live ps states_okD(2) [OF ok, of b] by (simp add: heap_after_def ProcessState_destroy_def Let_def)
  qed
  with rh heap' show ?thesis by (auto simp: states_ok_def)
qed

text \<open>The references with that of \<open>gProcess\<close>; \<open>E\<close> are the others.\<close>

definition with_process :: "nat option \<Rightarrow> (nat \<Rightarrow> nat) \<Rightarrow> nat \<Rightarrow> nat" where
  "with_process g E a = E a + of_bool (g = Some a)"

definition process_ok :: "(nat \<Rightarrow> nat) \<Rightarrow> process \<Rightarrow> bool" where
  "process_ok E pr \<longleftrightarrow> states_ok (with_process (gProcess pr) E) pr"

lemma gProcess_heap_after [simp]: "gProcess (heap_after p rh pr) = gProcess pr"
  by (simp add: heap_after_def ProcessState_destroy_def Let_def split: option.split)

lemma states_ok_gProcess [simp]: "states_ok S (pr\<lparr>gProcess := g\<rparr>) = states_ok S pr"
  by (simp add: states_ok_def)

lemma states_ok_sys [simp]: "states_ok S (pr\<lparr>pc_sys := s\<rparr>) = states_ok S pr"
  by (simp add: states_ok_def)

lemma return_gProcess_ok:
  assumes ok: "process_ok E pr" and g: "gProcess pr = Some a" and room: "E a + 2 < 268435456"
  shows "\<exists>pr'. return_gProcess pr = Inr (Some a, pr') \<and> process_ok (E(a := E a + 1)) pr' \<and> gProcess pr' = Some a"
proof -
  let ?S = "with_process (Some a) E"
  have S: "states_ok ?S pr" using ok g by (simp add: process_ok_def)
  obtain rh where rh: "sp_new (Some a) (pc_heap pr) = Inr (Some a, rh)" "states_ok (?S(a := ?S a + 1)) (pr\<lparr>pc_heap := rh\<rparr>)"
    using states_take [OF S, of a] room by (auto simp: with_process_def)
  have "?S(a := ?S a + 1) = with_process (Some a) (E(a := E a + 1))" by (auto simp: with_process_def)
  with rh g show ?thesis by (simp add: return_gProcess_def process_ok_def)
qed

text \<open>A new state for the process takes the place of the one it had.\<close>

lemma set_gProcess_ok:
  assumes ok: "process_ok E pr" and new: "ProcessState_new driver pr = (a, pr1)"
  shows "\<exists>pr2. set_gProcess a pr1 = Inr pr2 \<and> process_ok E pr2 \<and> gProcess pr2 = Some a \<and> E a = 0"
proof -
  let ?S = "with_process (gProcess pr) E"
  have S: "states_ok ?S pr" using ok by (simp add: process_ok_def)
  obtain ps s rh1 where init: "ProcessState_init driver (pc_malloc pr) (pc_sys pr) = (ps, s)" "RefBase_new (pc_heap pr) = (a, rh1)"
    and pr1: "pr1 = set_state a ps (pr\<lparr>pc_heap := rh1, pc_sys := s\<rparr>)"
    using new by (auto simp: ProcessState_new_def split: prod.splits)
  note n = RefBase_new_ok [OF states_okD(1) [OF S] init(2)]
  obtain rh2 where 2: "sp_new (Some a) rh1 = Inr (Some a, rh2)" "heap_ok (?S(a := 1)) (\<lambda>_. 0) rh2" "rh_base rh2 = rh_base rh1"
    using sp_new_ok [OF n(1), of "Some a"] n by auto
  let ?pr2 = "pr1\<lparr>pc_heap := rh2\<rparr>"
  have "pc_states ?pr2 b \<noteq> None \<longleftrightarrow> 0 < (?S(a := 1)) b" for b
    using states_okD(2) [OF S, of b] by (simp add: pr1 set_state_def)
  then have ok2: "states_ok (?S(a := 1)) ?pr2" using 2(2) by (simp add: states_ok_def)
  have Ea: "E a = 0" "gProcess pr \<noteq> Some a" using n(3) by (auto simp: with_process_def split: if_splits)
  have gp: "gProcess pr1 = gProcess pr" by (simp add: pr1 set_state_def)
  have eq: "with_process (Some a) E b = (dec_at (gProcess pr) (?S(a := 1))) b" for b
    using Ea by (cases "gProcess pr") (auto simp: with_process_def)
  show ?thesis
  proof (cases "gProcess pr")
    case None
    then have "set_gProcess a pr1 = Inr (?pr2\<lparr>gProcess := Some a\<rparr>)"
      using 2(1) by (simp add: set_gProcess_def sp_assign_def heap_after_def gp pr1 set_state_def sp_new_def bindE_Inr_iff split: sum.splits)
    moreover have "with_process (Some a) E = ?S(a := 1)" using eq None by auto
    ultimately show ?thesis using ok2 Ea by (simp add: process_ok_def)
  next
    case (Some b)
    have b: "0 < (?S(a := 1)) b" using Some by (simp add: with_process_def)
    obtain rh3 where 3: "sp_delete (Some b) rh2 = Inr rh3" "states_ok ((?S(a := 1))(b := (?S(a := 1)) b - 1)) (heap_after (Some b) rh3 ?pr2)"
    proof -
      have "\<exists>rh. sp_delete (Some b) (pc_heap ?pr2) = Inr rh \<and>
          states_ok ((?S(a := 1))(b := (?S(a := 1)) b - 1)) (heap_after (Some b) rh ?pr2)" by (rule states_drop [OF ok2 b])
      then obtain rh where r: "sp_delete (Some b) (pc_heap ?pr2) = Inr rh"
        "states_ok ((?S(a := 1))(b := (?S(a := 1)) b - 1)) (heap_after (Some b) rh ?pr2)" by blast
      from r(1) have "sp_delete (Some b) rh2 = Inr rh" by simp
      then show ?thesis using r(2) by (rule that)
    qed
    have "heap_after (Some b) rh3 ?pr2 = heap_after (Some b) rh3 pr1"
      using 2(3) by (simp add: heap_after_def pr1 set_state_def ProcessState_destroy_def)
    moreover have "set_gProcess a pr1 = Inr ((heap_after (Some b) rh3 pr1)\<lparr>gProcess := Some a\<rparr>)"
      using 2(1) 3(1) Some by (auto simp: set_gProcess_def sp_assign_def gp sp_new_def sp_delete_def pr1 set_state_def bindE_Inr_iff)
    moreover have "with_process (Some a) E = (?S(a := 1))(b := (?S(a := 1)) b - 1)"
      using eq unfolding Some dec_at_simps by (rule ext)
    ultimately show ?thesis using 3(2) Ea by (simp add: process_ok_def)
  qed
qed

lemma ProcessState_self_ok:
  assumes ok: "process_ok E pr" and room: "\<forall>a. E a + 2 < 268435456"
  shows "\<exists>a pr'. ProcessState_self pr = Inr (Some a, pr') \<and> process_ok (E(a := E a + 1)) pr' \<and> gProcess pr' = Some a"
proof (cases "gProcess pr")
  case (Some a)
  have "E a + 2 < 268435456" using room ..
  from return_gProcess_ok [OF ok Some this] Some show ?thesis by (auto simp: ProcessState_self_def)
next
  case None
  obtain a pr1 where new: "ProcessState_new defaultDriver pr = (a, pr1)" by fastforce
  obtain pr2 where 2: "set_gProcess a pr1 = Inr pr2" "process_ok E pr2" "gProcess pr2 = Some a"
    using set_gProcess_ok [OF ok new] by blast
  have "E a + 2 < 268435456" using room ..
  from return_gProcess_ok [OF 2(2,3) this] 2(1) None new show ?thesis by (auto simp: ProcessState_self_def)
qed

lemma process_ok_sys [simp]: "process_ok E (pr\<lparr>pc_sys := s\<rparr>) = process_ok E pr"
  by (simp add: process_ok_def)

lemma initWithDriver_ok:
  assumes ok: "process_ok E pr" and room: "\<forall>a. E a + 2 < 268435456"
  shows "\<exists>a pr'. initWithDriver driver pr = Inr (Some a, pr') \<and> process_ok (E(a := E a + 1)) pr' \<and> gProcess pr' = Some a"
proof -
  have same: "\<exists>b. (case gProcess pr of None \<Rightarrow> Inr False | Some a \<Rightarrow> bindE (getDriverName a pr) (\<lambda>name. Inr (name = driver))) = Inr b \<and>
      (b \<longrightarrow> gProcess pr \<noteq> None)"
  proof (cases "gProcess pr")
    case (Some a)
    have "states_ok (with_process (Some a) E) pr" using ok Some by (simp add: process_ok_def)
    from states_okD(2) [OF this, of a] have "pc_states pr a \<noteq> None" by (simp add: with_process_def)
    with Some show ?thesis by (auto simp: getDriverName_def the_state_def)
  qed (auto intro: exI [of _ False])
  then obtain b where b: "(case gProcess pr of None \<Rightarrow> Inr False | Some a \<Rightarrow> bindE (getDriverName a pr) (\<lambda>name. Inr (name = driver))) = Inr b"
    "b \<longrightarrow> gProcess pr \<noteq> None" by blast
  show ?thesis
  proof (cases b)
    case True
    then obtain a where a: "gProcess pr = Some a" using b(2) by blast
    have "E a + 2 < 268435456" using room ..
    from return_gProcess_ok [OF ok a this] b(1) True show ?thesis by (auto simp: initWithDriver_def)
  next
    case False
    obtain ret s where acc: "do_access driver (pc_sys pr) = (ret, s)" by fastforce
    obtain a pr1 where new: "ProcessState_new (if ret = - 1 then ''/dev/binder'' else driver) (pr\<lparr>pc_sys := s\<rparr>) = (a, pr1)" by fastforce
    obtain pr2 where 2: "set_gProcess a pr1 = Inr pr2" "process_ok E pr2" "gProcess pr2 = Some a"
      using set_gProcess_ok [OF _ new, of E] ok by auto
    have "E a + 2 < 268435456" using room ..
    from return_gProcess_ok [OF 2(2,3) this] 2(1) False b(1) acc new show ?thesis by (auto simp: initWithDriver_def Let_def)
  qed
qed

lemma proc_drop:
  assumes ok: "process_ok E pr" and a: "0 < E a"
  shows "\<exists>rh. sp_delete (Some a) (pc_heap pr) = Inr rh \<and> process_ok (E(a := E a - 1)) (heap_after (Some a) rh pr)"
proof -
  let ?S = "with_process (gProcess pr) E"
  have S: "states_ok ?S pr" using ok by (simp add: process_ok_def)
  obtain rh where "sp_delete (Some a) (pc_heap pr) = Inr rh" "states_ok (?S(a := ?S a - 1)) (heap_after (Some a) rh pr)"
    using states_drop [OF S, of a] a by (auto simp: with_process_def)
  moreover have "with_process (gProcess pr) (E(a := E a - 1)) = ?S(a := ?S a - 1)" using a by (auto simp: with_process_def)
  ultimately show ?thesis by (simp add: process_ok_def)
qed

section \<open>Threads\<close>

definition users :: "ipc \<Rightarrow> nat \<Rightarrow> nat" where
  "users st a = card {t. \<exists>th. ip_threads st t = Some th \<and> mProcess th = Some a}"

definition ipc_ok :: "ipc \<Rightarrow> bool" where
  "ipc_ok st \<longleftrightarrow> process_ok (users st) (ip_process st) \<and> finite (dom (ip_threads st)) \<and>
     (\<forall>t th. ip_threads st t = Some th \<longrightarrow> mProcess th \<noteq> None \<and> t < ip_next st) \<and>
     (\<forall>tid t. ip_tls st tid = Some t \<longrightarrow> ip_threads st t \<noteq> None) \<and>
     (\<forall>x y t. ip_tls st x = Some t \<and> ip_tls st y = Some t \<longrightarrow> x = y)"

lemma users_le: "finite (dom (ip_threads st)) \<Longrightarrow> users st a \<le> card (dom (ip_threads st))"
  unfolding users_def by (rule card_mono) auto

lemma users_add:
  assumes fin: "finite (dom (ip_threads st))" and new: "ip_threads st t = None" and th: "mProcess th = Some a"
    and st': "ip_threads st' = (ip_threads st)(t \<mapsto> th)"
  shows "users st' = (users st)(a := users st a + 1)"
proof
  fix b
  let ?U = "{u. \<exists>th. ip_threads st u = Some th \<and> mProcess th = Some b}"
  have "finite ?U" by (rule finite_subset [OF _ fin]) auto
  moreover have "t \<notin> ?U" using new by simp
  moreover have "{u. \<exists>th. ip_threads st' u = Some th \<and> mProcess th = Some b} = (if b = a then insert t ?U else ?U)"
    using new th by (auto simp: st')
  ultimately show "users st' b = ((users st)(a := users st a + 1)) b" using card_insert_disjoint [of ?U t] by (auto simp: users_def)
qed

lemma users_remove:
  assumes fin: "finite (dom (ip_threads st))" and t: "ip_threads st t = Some th" "mProcess th = Some a"
    and st': "ip_threads st' = (ip_threads st)(t := None)"
  shows "users st' = (users st)(a := users st a - 1)" and "0 < users st a"
proof -
  have U: "finite {u. \<exists>th. ip_threads st u = Some th \<and> mProcess th = Some b}" for b
    by (rule finite_subset [OF _ fin]) auto
  show "users st' = (users st)(a := users st a - 1)"
  proof
    fix b
    let ?U = "{u. \<exists>th. ip_threads st u = Some th \<and> mProcess th = Some b}"
    have "{u. \<exists>th. ip_threads st' u = Some th \<and> mProcess th = Some b} = (if b = a then ?U - {t} else ?U)"
      using t by (auto simp: st')
    moreover have "b = a \<Longrightarrow> t \<in> ?U" using t by simp
    ultimately show "users st' b = ((users st)(a := users st a - 1)) b" using U [of b] by (simp add: users_def)
  qed
  have "t \<in> {u. \<exists>th. ip_threads st u = Some th \<and> mProcess th = Some a}" using t by simp
  then show "0 < users st a" using U [of a] card_gt_0_iff unfolding users_def by blast
qed

lemma users_cong: "ip_threads st' = ip_threads st \<Longrightarrow> users st' = users st"
  by (simp add: users_def fun_eq_iff)

lemma ipc_new_ok:
  assumes ok: "ipc_ok st" and none: "ip_tls st tid = None" and room: "card (dom (ip_threads st)) + 2 < 268435456"
  shows "\<exists>t st'. IPCThreadState_new tid st = Inr (t, st') \<and> ipc_ok st' \<and> ip_tls st' = (ip_tls st)(tid \<mapsto> t) \<and>
    card (dom (ip_threads st')) \<le> Suc (card (dom (ip_threads st))) \<and> ip_key st' = ip_key st \<and> gShutdown st' = gShutdown st"
proof -
  have proc: "process_ok (users st) (ip_process st)" and fin: "finite (dom (ip_threads st))"
    and old: "\<And>t th. ip_threads st t = Some th \<Longrightarrow> mProcess th \<noteq> None \<and> t < ip_next st"
    and tls: "\<And>x t. ip_tls st x = Some t \<Longrightarrow> ip_threads st t \<noteq> None" "\<And>x y t. ip_tls st x = Some t \<Longrightarrow> ip_tls st y = Some t \<Longrightarrow> x = y"
    using ok unfolding ipc_ok_def by blast+
  have "\<forall>a. users st a + 2 < 268435456"
  proof
    fix a show "users st a + 2 < 268435456" using users_le [OF fin, of a] room by linarith
  qed
  then obtain p pr where 1: "ProcessState_self (ip_process st) = Inr (Some p, pr)" "process_ok ((users st)(p := users st p + 1)) pr"
    using ProcessState_self_ok [OF proc] by blast
  let ?t = "ip_next st"
  define th where "th = clearCaller (st\<lparr>ip_process := pr, ip_next := Suc ?t, ip_tls := (ip_tls st)(tid \<mapsto> ?t)\<rparr>)
    \<lparr>mProcess = Some p, mPostWriteWeakDerefs = [], mPostWriteStrongDerefs = [], mIn = Parcel_new, mOut = Parcel_new,
     mLastError = 0, mCallingPid = 0, mCallingSid = None, mCallingUid = 0\<rparr>"
  let ?st = "set_ipc ?t th (st\<lparr>ip_process := pr, ip_next := Suc ?t, ip_tls := (ip_tls st)(tid \<mapsto> ?t)\<rparr>)"
  have run: "IPCThreadState_new tid st = Inr (?t, ?st)" by (simp add: IPCThreadState_new_def 1(1) Let_def th_def)
  have p: "mProcess th = Some p" by (simp add: th_def clearCaller_def)
  have thr: "ip_threads ?st = (ip_threads st)(?t \<mapsto> th)" by (simp add: set_ipc_def)
  have fresh: "ip_threads st ?t = None" using old [of ?t] by (cases "ip_threads st ?t") auto
  have us: "users ?st = (users st)(p := users st p + 1)" by (rule users_add [OF fin fresh p thr])
  have "ipc_ok ?st" unfolding ipc_ok_def us thr
  proof (intro conjI allI impI)
    show "process_ok ((users st)(p := users st p + 1)) (ip_process ?st)" using 1(2) by (simp add: set_ipc_def)
    show "finite (dom ((ip_threads st)(?t \<mapsto> th)))" using fin by simp
    show "mProcess th' \<noteq> None" "u < ip_next ?st" if "((ip_threads st)(?t \<mapsto> th)) u = Some th'" for u th'
      using that old [of u th'] p by (auto simp: set_ipc_def split: if_splits)
    show "((ip_threads st)(?t \<mapsto> th)) u \<noteq> None" if "ip_tls ?st x = Some u" for x u
      using that tls(1) [of x u] by (auto simp: set_ipc_def split: if_splits)
    have new: "ip_tls st x \<noteq> Some ?t" for x using tls(1) [of x ?t] fresh by blast
    show "x = y" if "ip_tls ?st x = Some u \<and> ip_tls ?st y = Some u" for x y u
      using that tls(2) [of x u y] new [of x] new [of y] by (auto simp: set_ipc_def split: if_splits)
  qed
  moreover have "card (dom (ip_threads ?st)) \<le> Suc (card (dom (ip_threads st)))" unfolding thr using fin by (simp add: card_insert_if)
  ultimately show ?thesis using run by (intro exI [of _ ?t] exI [of _ ?st]) (simp add: set_ipc_def)
qed

text \<open>\<open>self\<close>, when the key can be made and the process does not shut down.\<close>

lemma self_ok:
  assumes ok: "ipc_ok st" and key: "ip_key st = 0" "\<not> gShutdown st" and room: "card (dom (ip_threads st)) + 2 < 268435456"
  shows "\<exists>t st'. IPCThreadState_self tid st = Inr (Some t, st') \<and> ipc_ok st' \<and> ip_tls st' = (ip_tls st)(tid \<mapsto> t) \<and>
    (\<forall>u. ip_tls st tid = Some u \<longrightarrow> u = t) \<and> card (dom (ip_threads st')) \<le> Suc (card (dom (ip_threads st))) \<and>
    ip_key st' = ip_key st \<and> gShutdown st' = gShutdown st"
proof -
  let ?st = "if gHaveTLS st then st else st\<lparr>gHaveTLS := True\<rparr>"
  have run: "IPCThreadState_self tid st = self_restart tid ?st" using key by (simp add: IPCThreadState_self_def)
  have same: "ip_threads ?st = ip_threads st" "ip_tls ?st = ip_tls st" "ip_process ?st = ip_process st" "ip_next ?st = ip_next st"
    by simp_all
  have ok': "ipc_ok ?st" using ok unfolding ipc_ok_def same users_cong [OF same(1)] .
  show ?thesis
  proof (cases "ip_tls st tid")
    case (Some t)
    then have "self_restart tid ?st = Inr (Some t, ?st)" by (simp add: self_restart_def same)
    moreover have "ip_tls ?st = (ip_tls st)(tid \<mapsto> t)" using Some same(2) by (simp add: fun_upd_idem)
    ultimately show ?thesis using run ok' Some same(1) by (intro exI [of _ t] exI [of _ ?st]) simp
  next
    case None
    have "ip_tls ?st tid = None" "card (dom (ip_threads ?st)) + 2 < 268435456" using None room unfolding same by simp_all
    from ipc_new_ok [OF ok' this] obtain t st' where "IPCThreadState_new tid ?st = Inr (t, st')" "ipc_ok st'"
      "ip_tls st' = (ip_tls st)(tid \<mapsto> t)" "card (dom (ip_threads st')) \<le> Suc (card (dom (ip_threads st)))"
      "ip_key st' = ip_key ?st" "gShutdown st' = gShutdown ?st"
      unfolding same by blast
    moreover from this(1) None same(2) have "self_restart tid ?st = Inr (Some t, st')" by (simp add: self_restart_def)
    ultimately show ?thesis using run None by simp
  qed
qed

lemma thread_end_ok:
  assumes ok: "ipc_ok st"
  shows "\<exists>st'. ipc_threadDestructor tid st = Inr st' \<and> ipc_ok st' \<and> ip_tls st' = (ip_tls st)(tid := None) \<and>
    card (dom (ip_threads st')) \<le> card (dom (ip_threads st)) \<and> ip_key st' = ip_key st \<and> gShutdown st' = gShutdown st"
proof (cases "ip_tls st tid")
  case None
  then show ?thesis using ok by (auto simp: ipc_threadDestructor_def fun_upd_idem)
next
  case (Some t)
  have proc: "process_ok (users st) (ip_process st)" and fin: "finite (dom (ip_threads st))"
    and old: "\<And>t th. ip_threads st t = Some th \<Longrightarrow> mProcess th \<noteq> None \<and> t < ip_next st"
    and tls: "\<And>x t. ip_tls st x = Some t \<Longrightarrow> ip_threads st t \<noteq> None" "\<And>x y t. ip_tls st x = Some t \<Longrightarrow> ip_tls st y = Some t \<Longrightarrow> x = y"
    using ok unfolding ipc_ok_def by blast+
  obtain th p where th: "ip_threads st t = Some th" "mProcess th = Some p" using tls(1) [OF Some] old by fastforce
  let ?st' = "\<lambda>pr. st\<lparr>ip_tls := (ip_tls st)(tid := None), ip_process := pr, ip_threads := (ip_threads st)(t := None)\<rparr>"
  have us: "users (?st' pr) = (users st)(p := users st p - 1)" "0 < users st p" for pr
    using users_remove [OF fin th, of "?st' pr"] by simp_all
  have "states_ok (with_process (gProcess (ip_process st)) (users st)) (ip_process st)" using proc by (simp add: process_ok_def)
  from states_okD(2) [OF this, of p] us(2) obtain ps where ps: "pc_states (ip_process st) p = Some ps"
    by (auto simp: with_process_def)
  define pr where "pr = (if mDriverFD ps \<ge> 0
      then (ip_process st)\<lparr>pc_sys := snd (do_ioctl (mDriverFD ps) BINDER_THREAD_EXIT (Number 0) (pc_sys (ip_process st)))\<rparr> else ip_process st)"
  have pr: "process_ok (users st) pr" "pc_heap pr = pc_heap (ip_process st)" using proc by (simp_all add: pr_def)
  obtain rh where rh: "sp_delete (Some p) (pc_heap pr) = Inr rh" "process_ok ((users st)(p := users st p - 1)) (heap_after (Some p) rh pr)"
    using proc_drop [OF pr(1) us(2)] by blast
  let ?s = "?st' (heap_after (Some p) rh pr)"
  have "ipc_threadDestructor tid st = Inr ?s"
    using Some th ps rh(1)
    by (cases "0 \<le> mDriverFD ps")
      (simp_all add: ipc_threadDestructor_def flushCommands_def the_ipc_def the_state_def Let_def pr_def)
  moreover have "ipc_ok ?s" unfolding ipc_ok_def us(1)
  proof (intro conjI allI impI)
    show "process_ok ((users st)(p := users st p - 1)) (ip_process ?s)" using rh(2) by simp
    show "finite (dom (ip_threads ?s))" using fin by simp
    show "mProcess th' \<noteq> None" "u < ip_next ?s" if "ip_threads ?s u = Some th'" for u th'
      using that old [of u th'] by (auto split: if_splits)
    show "ip_threads ?s u \<noteq> None" if "ip_tls ?s x = Some u" for x u
      using that tls(1) [of x u] tls(2) [of x u tid] Some by (auto split: if_splits)
    show "x = y" if "ip_tls ?s x = Some u \<and> ip_tls ?s y = Some u" for x y u
      using that tls(2) [of x u y] by (auto split: if_splits)
  qed
  moreover have "card (dom (ip_threads ?s)) \<le> card (dom (ip_threads st))" using fin by (simp add: card_Diff1_le)
  ultimately show ?thesis by (intro exI [of _ ?s]) simp
qed

section \<open>A process and its threads\<close>

text \<open>What the threads of a process do: use the state of the thread, end, or set the driver of the process, without keeping the
  pointer they get.\<close>

datatype ipc_use = Self nat | Ends nat | Init string

definition init_and_drop :: "string \<Rightarrow> ipc \<Rightarrow> ipc chk" where
  "init_and_drop driver st =
     bindE (initWithDriver driver (ip_process st)) (\<lambda>(p, pr).
     bindE (sp_delete p (pc_heap pr)) (\<lambda>rh. Inr (st\<lparr>ip_process := heap_after p rh pr\<rparr>)))"

fun use_ipc :: "ipc_use \<Rightarrow> ipc \<Rightarrow> ipc chk" where
  "use_ipc (Self tid) st = bindE (IPCThreadState_self tid st) (\<lambda>(_, st). Inr st)"
| "use_ipc (Ends tid) st = ipc_threadDestructor tid st"
| "use_ipc (Init driver) st = init_and_drop driver st"

fun use_ipc_all :: "ipc_use list \<Rightarrow> ipc \<Rightarrow> ipc chk" where
  "use_ipc_all [] st = Inr st"
| "use_ipc_all (u # us) st = bindE (use_ipc u st) (use_ipc_all us)"

lemma init_and_drop_ok:
  assumes ok: "ipc_ok st" and room: "card (dom (ip_threads st)) + 2 < 268435456"
  shows "\<exists>st'. init_and_drop driver st = Inr st' \<and> ipc_ok st' \<and> ip_threads st' = ip_threads st \<and> ip_tls st' = ip_tls st \<and>
    ip_key st' = ip_key st \<and> gShutdown st' = gShutdown st"
proof -
  have proc: "process_ok (users st) (ip_process st)" and fin: "finite (dom (ip_threads st))" using ok unfolding ipc_ok_def by blast+
  have "\<forall>a. users st a + 2 < 268435456"
  proof
    fix a show "users st a + 2 < 268435456" using users_le [OF fin, of a] room by linarith
  qed
  then obtain a pr where 1: "initWithDriver driver (ip_process st) = Inr (Some a, pr)" "process_ok ((users st)(a := users st a + 1)) pr"
    using initWithDriver_ok [OF proc] by blast
  obtain rh where 2: "sp_delete (Some a) (pc_heap pr) = Inr rh" "process_ok (users st) (heap_after (Some a) rh pr)"
    using proc_drop [OF 1(2), of a] by auto
  let ?st = "st\<lparr>ip_process := heap_after (Some a) rh pr\<rparr>"
  have "users ?st = users st" by (rule users_cong) simp
  with ok 2(2) have "ipc_ok ?st" by (simp add: ipc_ok_def)
  with 1(1) 2(1) show ?thesis by (simp add: init_and_drop_def)
qed

lemma use_ipc_ok:
  assumes ok: "ipc_ok st" and key: "ip_key st = 0" "\<not> gShutdown st" and room: "card (dom (ip_threads st)) + 2 < 268435456"
  shows "\<exists>st'. use_ipc u st = Inr st' \<and> ipc_ok st' \<and> card (dom (ip_threads st')) \<le> Suc (card (dom (ip_threads st))) \<and>
    ip_key st' = ip_key st \<and> gShutdown st' = gShutdown st \<and>
    (\<forall>tid t. u \<noteq> Ends tid \<and> ip_tls st tid = Some t \<longrightarrow> ip_tls st' tid = Some t)"
proof (cases u)
  case (Self tid)
  from self_ok [OF ok key room, of tid] obtain t st' where "IPCThreadState_self tid st = Inr (Some t, st')" "ipc_ok st'"
    "ip_tls st' = (ip_tls st)(tid \<mapsto> t)" "\<forall>u. ip_tls st tid = Some u \<longrightarrow> u = t"
    "card (dom (ip_threads st')) \<le> Suc (card (dom (ip_threads st)))" "ip_key st' = ip_key st" "gShutdown st' = gShutdown st" by blast
  with Self show ?thesis by (intro exI [of _ st']) auto
next
  case (Ends tid)
  with thread_end_ok [OF ok, of tid] show ?thesis by fastforce
next
  case (Init driver)
  with init_and_drop_ok [OF ok room, of driver] show ?thesis by fastforce
qed

lemma use_ipc_all_ok:
  assumes "ipc_ok st" and "ip_key st = 0" "\<not> gShutdown st" and "card (dom (ip_threads st)) + length us + 2 < 268435456"
  shows "\<exists>st'. use_ipc_all us st = Inr st' \<and> ipc_ok st'"
  using assms
proof (induction us arbitrary: st)
  case (Cons u us)
  have "card (dom (ip_threads st)) + 2 < 268435456" using Cons.prems(4) by simp
  from use_ipc_ok [OF Cons.prems(1,2,3) this, of u] obtain st1 where 1: "use_ipc u st = Inr st1" "ipc_ok st1"
    "card (dom (ip_threads st1)) \<le> Suc (card (dom (ip_threads st)))" "ip_key st1 = ip_key st" "gShutdown st1 = gShutdown st" by blast
  have "\<exists>st'. use_ipc_all us st1 = Inr st' \<and> ipc_ok st'"
    by (rule Cons.IH) (use 1 Cons.prems in auto)
  with 1(1) show ?case by simp
qed simp

text \<open>A process that has not used the binder yet.\<close>

definition ipc_start :: "ipc \<Rightarrow> bool" where
  "ipc_start st \<longleftrightarrow> heap_ok (\<lambda>_. 0) (\<lambda>_. 0) (pc_heap (ip_process st)) \<and> gProcess (ip_process st) = None \<and>
     (\<forall>a. pc_states (ip_process st) a = None) \<and> (\<forall>t. ip_threads st t = None) \<and> (\<forall>tid. ip_tls st tid = None) \<and>
     ip_key st = 0 \<and> \<not> gShutdown st"

lemma ipc_start_ok: "ipc_start st \<Longrightarrow> ipc_ok st" "ipc_start st \<Longrightarrow> dom (ip_threads st) = {}"
proof -
  assume st: "ipc_start st"
  then show dom: "dom (ip_threads st) = {}" by (auto simp: ipc_start_def)
  have "users st = (\<lambda>_. 0)" using st by (simp add: ipc_start_def users_def fun_eq_iff)
  then have "with_process (gProcess (ip_process st)) (users st) = (\<lambda>_. 0)" using st by (simp add: ipc_start_def with_process_def fun_eq_iff)
  with st have "process_ok (users st) (ip_process st)" by (simp add: process_ok_def states_ok_def ipc_start_def)
  with st dom show "ipc_ok st" by (simp add: ipc_ok_def ipc_start_def)
qed

text \<open>C10: the state of the threads is well formed. Whatever the threads of a process do with \<open>self\<close>, with \<open>initWithDriver\<close> and by ending,
  in any order, fewer than 2^28 times, each slot holds the address of an \<open>IPCThreadState\<close>, no two threads have the same, each of them refers to a
  \<open>ProcessState\<close> that exists, also when the process has a newer one, and a \<open>ProcessState\<close> exists exactly as long as it is that of the
  process or of a thread.\<close>

theorem thread_state_well_formed:
  assumes start: "ipc_start st" and few: "length us + 2 < 268435456"
  shows "\<exists>st'. use_ipc_all us st = Inr st' \<and>
    (\<forall>tid t. ip_tls st' tid = Some t \<longrightarrow>
       (\<exists>th p ps. ip_threads st' t = Some th \<and> mProcess th = Some p \<and> pc_states (ip_process st') p = Some ps)) \<and>
    inj_on (ip_tls st') (dom (ip_tls st')) \<and>
    (\<forall>a. pc_states (ip_process st') a \<noteq> None \<longleftrightarrow>
       gProcess (ip_process st') = Some a \<or> (\<exists>t th. ip_threads st' t = Some th \<and> mProcess th = Some a))"
proof -
  obtain st' where run: "use_ipc_all us st = Inr st'" and ok: "ipc_ok st'"
    using use_ipc_all_ok [OF ipc_start_ok(1) [OF start], of us] start few ipc_start_ok(2) [OF start] by (auto simp: ipc_start_def)
  have proc: "process_ok (users st') (ip_process st')" and fin: "finite (dom (ip_threads st'))"
    and old: "\<And>t th. ip_threads st' t = Some th \<Longrightarrow> mProcess th \<noteq> None"
    and tls: "\<And>x t. ip_tls st' x = Some t \<Longrightarrow> ip_threads st' t \<noteq> None" "\<And>x y t. ip_tls st' x = Some t \<Longrightarrow> ip_tls st' y = Some t \<Longrightarrow> x = y"
    using ok unfolding ipc_ok_def by blast+
  have "states_ok (with_process (gProcess (ip_process st')) (users st')) (ip_process st')" using proc by (simp add: process_ok_def)
  note states = states_okD(2) [OF this]
  have "0 < users st' a \<longleftrightarrow> (\<exists>t th. ip_threads st' t = Some th \<and> mProcess th = Some a)" for a
  proof -
    have "finite {t. \<exists>th. ip_threads st' t = Some th \<and> mProcess th = Some a}" by (rule finite_subset [OF _ fin]) auto
    then show ?thesis unfolding users_def by (auto simp: card_gt_0_iff)
  qed
  then have exists: "pc_states (ip_process st') a \<noteq> None \<longleftrightarrow>
      gProcess (ip_process st') = Some a \<or> (\<exists>t th. ip_threads st' t = Some th \<and> mProcess th = Some a)" for a
    unfolding states by (auto simp: with_process_def)
  have "\<exists>th p ps. ip_threads st' t = Some th \<and> mProcess th = Some p \<and> pc_states (ip_process st') p = Some ps"
    if slot: "ip_tls st' tid = Some t" for tid t
  proof -
    obtain th p where "ip_threads st' t = Some th" "mProcess th = Some p" using tls(1) [OF slot] old by fastforce
    moreover from this exists [of p] obtain ps where "pc_states (ip_process st') p = Some ps" by blast
    ultimately show ?thesis by blast
  qed
  moreover have "inj_on (ip_tls st') (dom (ip_tls st'))" using tls(2) by (fastforce intro!: inj_onI)
  ultimately show ?thesis using run exists by (intro exI [of _ st']) simp
qed

definition fresh_ipc :: ipc where
  "fresh_ipc = \<lparr>ip_process = \<lparr>pc_heap = \<lparr>rh_base = (\<lambda>_. False), rh_impl = (\<lambda>_. None), rh_next = 0, rh_trace = []\<rparr>,
      pc_sys = demo_sys, gProcess = None, pc_states = (\<lambda>_. None), pc_proxies = (\<lambda>_. None), pc_malloc = [True]\<rparr>,
     ip_env = \<lparr>gParcelGlobalAllocSize = 0, gParcelGlobalAllocCount = 0, pe_malloc = [], pe_trace = []\<rparr>,
     gHaveTLS = False, gShutdown = False, ip_key = 0, ip_pid = 7, ip_uid = 1000, ip_tls = (\<lambda>_. None), ip_threads = (\<lambda>_. None),
     ip_next = 0, the_context_object = None\<rparr>"

lemma thread_state_well_formed_witness:
  "\<exists>st'. use_ipc_all [Self 1, Init ''/dev/hwbinder'', Self 2, Ends 1, Self 1] fresh_ipc = Inr st' \<and>
    inj_on (ip_tls st') (dom (ip_tls st'))"
proof -
  have "ipc_start fresh_ipc" by (simp add: ipc_start_def fresh_ipc_def heap_ok_def cell_ok_def deleted_once_def)
  from thread_state_well_formed [OF this, of "[Self 1, Init ''/dev/hwbinder'', Self 2, Ends 1, Self 1]"] show ?thesis
    by (fastforce simp del: use_ipc_all.simps use_ipc.simps)
qed

end
