(* ===== verification/Service_Manager.thy ===== *)
theory Service_Manager
  imports IPC_Thread Unicode
begin

text \<open>
  The interfaces above \<open>libbinder\<close>: \<open>Status.cpp\<close>, the base classes of \<open>Binder.cpp\<close> and \<open>IInterface.h\<close>, the proxy and the shim of the
  service manager (\<open>idl/\<dots>/IServiceManager.cpp\<close>, \<open>libs/binder/IServiceManager.cpp\<close>) and the service manager itself
  (\<open>cmds/servicemanager\<close>). An object is an address of the heap of \<open>RefBase\<close>; the tables of the state say of which class it
  is, which decides the virtual functions. Strings are their characters.
\<close>

section \<open>Status\<close>

record binder_status =
  mException :: int
  mErrorCode :: int

abbreviation (input) EX_NONE :: int where "EX_NONE \<equiv> 0"
abbreviation (input) EX_ILLEGAL_ARGUMENT :: int where "EX_ILLEGAL_ARGUMENT \<equiv> - 3"
abbreviation (input) EX_TRANSACTION_FAILED :: int where "EX_TRANSACTION_FAILED \<equiv> - 129"
abbreviation (input) FAILED_TRANSACTION :: int where "FAILED_TRANSACTION \<equiv> - 2147483646"

definition Status_ok :: binder_status where
  "Status_ok = \<lparr>mException = EX_NONE, mErrorCode = 0\<rparr>"

definition fromExceptionCode :: "int \<Rightarrow> binder_status" where
  "fromExceptionCode exceptionCode =
     (if exceptionCode = EX_TRANSACTION_FAILED
      then \<lparr>mException = exceptionCode, mErrorCode = FAILED_TRANSACTION\<rparr>
      else \<lparr>mException = exceptionCode, mErrorCode = 0\<rparr>)"

definition Status_isOk :: "binder_status \<Rightarrow> bool" where
  "Status_isOk s \<longleftrightarrow> mException s = EX_NONE"

definition exceptionCode :: "binder_status \<Rightarrow> int" where
  "exceptionCode s = mException s"

definition Status_toString8 :: "binder_status \<Rightarrow> string" where
  "Status_toString8 s = (if mException s = EX_NONE then ''No error'' else ''Other error'')"

section \<open>State\<close>

record service =
  sv_binder :: "nat option"
  sv_allowIsolated :: bool
  sv_dumpPriority :: int
  sv_hasClients :: bool
  sv_guaranteeClient :: bool
  sv_debugPid :: int

text \<open>\<open>BpRefBase\<close>: the fields of a proxy object; \<open>mRefs\<close> is the address of the object it counts.\<close>

record bp_ref =
  mRemote :: "nat option"
  bp_mRefs :: "nat option"
  bp_mState :: int

text \<open>The service managers that live in this process, the proxies for one, the shims, and the two statics.\<close>

record client =
  cl_ipc :: ipc
  cl_managers :: "nat \<Rightarrow> (u8 list \<Rightarrow> service option) option"
  cl_proxies :: "nat \<Rightarrow> bp_ref option"
  cl_shims :: "nat \<Rightarrow> nat option option"
  gSmOnce :: bool
  gDefaultServiceManager :: "nat option"

definition cl_heap :: "client \<Rightarrow> ref_heap" where
  "cl_heap cl = pc_heap (ip_process (cl_ipc cl))"

definition set_heap :: "ref_heap \<Rightarrow> client \<Rightarrow> client" where
  "set_heap rh cl = cl\<lparr>cl_ipc := (cl_ipc cl)\<lparr>ip_process := (ip_process (cl_ipc cl))\<lparr>pc_heap := rh\<rparr>\<rparr>\<rparr>"

definition set_process :: "process \<Rightarrow> client \<Rightarrow> client" where
  "set_process pr cl = cl\<lparr>cl_ipc := (cl_ipc cl)\<lparr>ip_process := pr\<rparr>\<rparr>"

section \<open>Binder and IInterface\<close>

text \<open>\<open>u"droid.os.IServiceManager"\<close>\<close>

definition descriptor :: "u16 list" where
  "descriptor = [100, 114, 111, 105, 100, 46, 111, 115, 46, 73, 83, 101, 114, 118, 105, 99, 101, 77, 97, 110, 97, 103, 101, 114]"

text \<open>The descriptor is converted for the log, into an array on the stack with one byte for each of its units.\<close>

definition IBinder_queryLocalInterface :: "u8 \<Rightarrow> u16 list \<Rightarrow> nat option chk" where
  "IBinder_queryLocalInterface junk d =
     bindE (utf16_to_utf8 (Some (d @ [0])) (length d) (Some (replicate (length d) junk))) (\<lambda>_. Inr None)"

definition BnInterface_queryLocalInterface :: "nat \<Rightarrow> u16 list \<Rightarrow> nat option" where
  "BnInterface_queryLocalInterface this d = (if d = descriptor then Some this else None)"

definition queryLocalInterface :: "u8 \<Rightarrow> nat \<Rightarrow> u16 list \<Rightarrow> client \<Rightarrow> nat option chk" where
  "queryLocalInterface junk b d cl =
     (if cl_managers cl b \<noteq> None then Inr (BnInterface_queryLocalInterface b d)
      else IBinder_queryLocalInterface junk d)"

definition localBinder :: "nat \<Rightarrow> nat option" where "localBinder b = None"
definition remoteBinder :: "nat \<Rightarrow> nat option" where "remoteBinder b = None"

definition BBinder_transact :: "u32 \<Rightarrow> parcel \<Rightarrow> parcel option \<Rightarrow> u32 \<Rightarrow> int" where
  "BBinder_transact code data reply flags = NO_ERROR"

text \<open>There is no destructor that would give the two references back.\<close>

definition BpRefBase_new :: "nat option \<Rightarrow> nat \<Rightarrow> client \<Rightarrow> (bp_ref \<times> client) chk" where
  "BpRefBase_new obj this cl =
     bindE (extendObjectLifetime this OBJECT_LIFETIME_WEAK (cl_heap cl)) (\<lambda>rh.
     case obj of
       None \<Rightarrow> Inr (\<lparr>mRemote = None, bp_mRefs = None, bp_mState = 0\<rparr>, set_heap rh cl)
     | Some r \<Rightarrow>
         bindE (incStrong r rh) (\<lambda>rh.
         bindE (creatWeak r rh) (\<lambda>rh.
         Inr (\<lparr>mRemote = Some r, bp_mRefs = Some r, bp_mState = 0\<rparr>, set_heap rh cl))))"

section \<open>The proxy of the service manager\<close>

definition BpServiceManager_new :: "nat option \<Rightarrow> client \<Rightarrow> (nat \<times> client) chk" where
  "BpServiceManager_new impl cl =
     (case RefBase_new (cl_heap cl) of (a, rh) \<Rightarrow>
      bindE (BpRefBase_new impl a (set_heap rh cl)) (\<lambda>(bp, cl).
      Inr (a, cl\<lparr>cl_proxies := (cl_proxies cl)(a \<mapsto> bp)\<rparr>)))"

text \<open>The pointer that \<open>queryLocalInterface\<close> returns is a temporary, released once \<open>intr\<close> has its own reference.\<close>

definition asInterface :: "u8 \<Rightarrow> nat option \<Rightarrow> client \<Rightarrow> (nat option \<times> client) chk" where
  "asInterface junk obj cl =
     (case obj of
        None \<Rightarrow> Inr (None, cl)
      | Some b \<Rightarrow>
          bindE (base_check b (cl_heap cl)) (\<lambda>_.
          bindE (queryLocalInterface junk b descriptor cl) (\<lambda>q.
          case q of
            Some a \<Rightarrow>
              bindE (sp_new (Some a) (cl_heap cl)) (\<lambda>(tmp, rh).
              bindE (sp_assign None tmp rh) (\<lambda>(intr, rh).
              bindE (sp_delete tmp rh) (\<lambda>rh. Inr (intr, set_heap rh cl))))
          | None \<Rightarrow>
              bindE (BpServiceManager_new obj cl) (\<lambda>(a, cl).
              bindE (sp_assign None (Some a) (cl_heap cl)) (\<lambda>(intr, rh). Inr (intr, set_heap rh cl))))))"

abbreviation (input) TRANSACTION_addService :: u32 where "TRANSACTION_addService \<equiv> 3"

text \<open>\<open>remote()->transact\<close>: a proxy goes to the driver, a local binder does nothing.\<close>

definition remote_transact ::
    "(u32 \<Rightarrow> nat option) \<Rightarrow> u8 \<Rightarrow> u64 \<Rightarrow> u64 \<Rightarrow> nat \<Rightarrow> nat \<Rightarrow> nat \<Rightarrow> u32 \<Rightarrow> parcel \<Rightarrow> u64 \<Rightarrow> u64 \<Rightarrow> parcel option \<Rightarrow> u32 \<Rightarrow> client \<Rightarrow>
     (int \<times> client) chk" where
  "remote_transact proxy junk outAddr inAddr fuel tid b code data buffer offsets reply flags cl =
     bindE (base_check b (cl_heap cl)) (\<lambda>_.
     if cl_managers cl b \<noteq> None then Inr (BBinder_transact code data reply flags, cl)
     else
       bindE (BpBinder_transact proxy junk outAddr inAddr fuel tid b code data buffer offsets reply flags (cl_ipc cl)) (\<lambda>(err, _, st).
       Inr (err, cl\<lparr>cl_ipc := st\<rparr>)))"

text \<open>Only the name goes into the data; the results of the write and of the call are not looked at.\<close>

definition BpServiceManager_addService ::
    "(u32 \<Rightarrow> nat option) \<Rightarrow> u8 \<Rightarrow> u64 \<Rightarrow> u64 \<Rightarrow> nat \<Rightarrow> nat \<Rightarrow> u64 \<Rightarrow> nat \<Rightarrow> u8 list \<Rightarrow> nat option \<Rightarrow> bool \<Rightarrow> int \<Rightarrow> client \<Rightarrow>
     (binder_status \<times> client) chk" where
  "BpServiceManager_addService proxy junk outAddr inAddr fuel tid buffer this name service allowIsolated dumpsysPriority cl =
     bindE (Parcel_write proxy junk (takeWhile (\<lambda>c. c \<noteq> 0) name) Parcel_new (ip_env (cl_ipc cl))) (\<lambda>(_, data, e).
     let cl = cl\<lparr>cl_ipc := (cl_ipc cl)\<lparr>ip_env := e\<rparr>\<rparr> in
     bindE (derefE UseAfterFree (cl_proxies cl this)) (\<lambda>bp.
     bindE (derefE NullDeref (mRemote bp)) (\<lambda>r.
     bindE (remote_transact proxy junk outAddr inAddr fuel tid r TRANSACTION_addService data buffer 0 (Some Parcel_new) 0 cl) (\<lambda>(_, cl).
     Inr (fromExceptionCode 10086, cl)))))"

section \<open>The service manager\<close>

definition ServiceManager_new :: "client \<Rightarrow> nat \<times> client" where
  "ServiceManager_new cl =
     (case RefBase_new (cl_heap cl) of (a, rh) \<Rightarrow>
      (a, (set_heap rh cl)\<lparr>cl_managers := (cl_managers cl)(a \<mapsto> (\<lambda>_. None))\<rparr>))"

definition new_service :: "nat option \<Rightarrow> bool \<Rightarrow> int \<Rightarrow> service" where
  "new_service object allowIsolated dumpPriority =
     \<lparr>sv_binder = object, sv_allowIsolated = allowIsolated, sv_dumpPriority = dumpPriority, sv_hasClients = False,
      sv_guaranteeClient = False, sv_debugPid = 0\<rparr>"

text \<open>
  \<open>mNameToService[name] = Service{...}\<close>: the map makes an empty entry when it has none, the temporary has a reference of
  its own until the end of the statement. A remote binder would only be logged.
\<close>

definition ServiceManager_addService ::
    "nat \<Rightarrow> u8 list \<Rightarrow> nat option \<Rightarrow> bool \<Rightarrow> int \<Rightarrow> client \<Rightarrow> (binder_status \<times> client) chk" where
  "ServiceManager_addService this name object allowIsolated dumpPriority cl =
     bindE (derefE UseAfterFree (cl_managers cl this)) (\<lambda>services.
     case object of
       None \<Rightarrow> Inr (fromExceptionCode EX_ILLEGAL_ARGUMENT, cl)
     | Some b \<Rightarrow>
         let old = (case services name of None \<Rightarrow> None | Some sv \<Rightarrow> sv_binder sv) in
         bindE (sp_new (Some b) (cl_heap cl)) (\<lambda>(tmp, rh).
         bindE (sp_assign old tmp rh) (\<lambda>(p, rh).
         bindE (sp_delete tmp rh) (\<lambda>rh.
         Inr (Status_ok, (set_heap rh cl)\<lparr>cl_managers :=
           (cl_managers cl)(this \<mapsto> services(name \<mapsto> new_service p allowIsolated dumpPriority))\<rparr>)))))"

section \<open>The shim\<close>

definition ServiceManagerShim_new :: "nat option \<Rightarrow> client \<Rightarrow> (nat \<times> client) chk" where
  "ServiceManagerShim_new impl cl =
     (case RefBase_new (cl_heap cl) of (a, rh) \<Rightarrow>
      bindE (sp_new impl rh) (\<lambda>(p, rh).
      Inr (a, (set_heap rh cl)\<lparr>cl_shims := (cl_shims cl)(a \<mapsto> p)\<rparr>)))"

text \<open>\<open>name8\<close> is \<open>String8(name)\<close>.\<close>

definition Shim_addService ::
    "(u32 \<Rightarrow> nat option) \<Rightarrow> u8 \<Rightarrow> u64 \<Rightarrow> u64 \<Rightarrow> nat \<Rightarrow> nat \<Rightarrow> u64 \<Rightarrow> nat \<Rightarrow> u8 list \<Rightarrow> nat option \<Rightarrow> bool \<Rightarrow> int \<Rightarrow> client \<Rightarrow>
     (int \<times> client) chk" where
  "Shim_addService proxy junk outAddr inAddr fuel tid buffer this name8 service allowIsolated dumpsysPriority cl =
     bindE (derefE UseAfterFree (cl_shims cl this)) (\<lambda>impl.
     bindE (derefE NullDeref impl) (\<lambda>m.
     bindE (base_check m (cl_heap cl)) (\<lambda>_.
     bindE (if cl_managers cl m \<noteq> None then ServiceManager_addService m name8 service allowIsolated dumpsysPriority cl
            else BpServiceManager_addService proxy junk outAddr inAddr fuel tid buffer m name8 service allowIsolated dumpsysPriority cl)
       (\<lambda>(status, cl). Inr (exceptionCode status, cl)))))"

text \<open>The lambda of \<open>call_once\<close>; its locals \<open>proxy\<close> and \<open>impl\<close> end with it. The assertions only write to the log.\<close>

definition make_default_manager :: "u8 \<Rightarrow> client \<Rightarrow> client chk" where
  "make_default_manager junk cl =
     bindE (ProcessState_self (ip_process (cl_ipc cl))) (\<lambda>(self, pr).
     bindE (derefE NullDeref self) (\<lambda>a.
     bindE (getContextObject a pr) (\<lambda>(proxy, pr).
     bindE (sp_delete self (pc_heap pr)) (\<lambda>rh.
     let cl = set_process (heap_after self rh pr) cl in
     bindE (asInterface junk proxy cl) (\<lambda>(impl, cl).
     bindE (ServiceManagerShim_new impl cl) (\<lambda>(shim, cl).
     bindE (sp_assign (gDefaultServiceManager cl) (Some shim) (cl_heap cl)) (\<lambda>(p, rh).
     bindE (sp_delete proxy rh) (\<lambda>rh.
     bindE (sp_delete impl rh) (\<lambda>rh.
     Inr ((set_heap rh cl)\<lparr>gDefaultServiceManager := p\<rparr>))))))))))"

definition defaultServiceManager :: "u8 \<Rightarrow> client \<Rightarrow> (nat option \<times> client) chk" where
  "defaultServiceManager junk cl =
     bindE (if gSmOnce cl then Inr cl
            else bindE (make_default_manager junk cl) (\<lambda>cl. Inr (cl\<lparr>gSmOnce := True\<rparr>))) (\<lambda>cl.
     bindE (sp_new (gDefaultServiceManager cl) (cl_heap cl)) (\<lambda>(p, rh). Inr (p, set_heap rh cl)))"

section \<open>The main program of the service manager\<close>

text \<open>
  \<open>main\<close> up to the call of \<open>Looper::prepare\<close>, and the result of \<open>becomeContextManager\<close>, which it ignores: the pointer \<open>ps\<close>, the
  thread pool, the manager, its registration under its own name, the context object. The temporary \<open>sp\<close>s that are made
  of \<open>manager\<close> for the two calls end with them.
\<close>

definition manager_name :: "u8 list" where
  "manager_name = [109, 97, 110, 97, 103, 101, 114]"

definition servicemanager_main :: "nat \<Rightarrow> client \<Rightarrow> (bool \<times> nat \<times> client) chk" where
  "servicemanager_main tid cl =
     bindE (initWithDriver defaultDriver (ip_process (cl_ipc cl))) (\<lambda>(ps, pr).
     bindE (derefE NullDeref ps) (\<lambda>a.
     bindE (setThreadPoolMaxThreadCount a 0 pr) (\<lambda>(_, pr).
     bindE (setCallRestriction a FATAL_IF_NOT_ONEWAY pr) (\<lambda>pr.
     case ServiceManager_new (set_process pr cl) of (m, cl) \<Rightarrow>
     bindE (sp_new (Some m) (cl_heap cl)) (\<lambda>(manager, rh).
     bindE (sp_new manager rh) (\<lambda>(tmp, rh).
     bindE (ServiceManager_addService m manager_name tmp False 8 (set_heap rh cl)) (\<lambda>(status, cl).
     bindE (sp_delete tmp (cl_heap cl)) (\<lambda>rh.
     bindE (IPCThreadState_self tid (cl_ipc (set_heap rh cl))) (\<lambda>(t, st).
     bindE (derefE NullDeref t) (\<lambda>_.
     bindE (sp_new manager (pc_heap (ip_process st))) (\<lambda>(tmp, rh).
     bindE (setTheContextObject tmp (st\<lparr>ip_process := (ip_process st)\<lparr>pc_heap := rh\<rparr>\<rparr>)) (\<lambda>st.
     bindE (sp_delete tmp (pc_heap (ip_process st))) (\<lambda>rh.
     bindE (becomeContextManager a None None ((ip_process st)\<lparr>pc_heap := rh\<rparr>)) (\<lambda>(ok, pr).
     Inr (ok, m, cl\<lparr>cl_ipc := st\<lparr>ip_process := pr\<rparr>\<rparr>)))))))))))))))"

section \<open>A client\<close>

text \<open>\<open>String8("media.player")\<close>, and \<open>main_mediaserver.cpp\<close>, which registers nothing under this name.\<close>

definition media_name :: "u8 list" where
  "media_name = [109, 101, 100, 105, 97, 46, 112, 108, 97, 121, 101, 114]"

definition mediaserver_main ::
    "(u32 \<Rightarrow> nat option) \<Rightarrow> u8 \<Rightarrow> u64 \<Rightarrow> u64 \<Rightarrow> nat \<Rightarrow> nat \<Rightarrow> u64 \<Rightarrow> client \<Rightarrow> client chk" where
  "mediaserver_main proxy junk outAddr inAddr fuel tid buffer cl =
     bindE (ProcessState_self (ip_process (cl_ipc cl))) (\<lambda>(proc, pr).
     bindE (defaultServiceManager junk (set_process pr cl)) (\<lambda>(sm, cl).
     bindE (derefE NullDeref sm) (\<lambda>a.
     bindE (Shim_addService proxy junk outAddr inAddr fuel tid buffer a media_name None False 8 cl) (\<lambda>(_, cl).
     bindE (sp_delete sm (cl_heap cl)) (\<lambda>rh.
     bindE (sp_delete proc rh) (\<lambda>rh.
     Inr (set_heap rh cl)))))))"

end
