(* ===== verification/Service_Manager_Props.thy ===== *)
theory Service_Manager_Props
  imports Service_Manager Unicode_Strings RefBase_Props IPC_Talk_Props
begin

text \<open>
  The service manager from both sides: what \<open>addService\<close> does to the table and the references, what the proxy sends and reports,
  and the array that is too small for the descriptor.
\<close>

lemma cl_heap_set_heap [simp]: "cl_heap (set_heap rh cl) = rh"
  by (simp add: cl_heap_def set_heap_def)

lemma set_heap_simps [simp]:
  "cl_managers (set_heap rh cl) = cl_managers cl" "cl_proxies (set_heap rh cl) = cl_proxies cl"
  "cl_shims (set_heap rh cl) = cl_shims cl" "gSmOnce (set_heap rh cl) = gSmOnce cl"
  by (simp_all add: set_heap_def)

section \<open>The descriptor on the stack\<close>

lemma length_descriptor: "length descriptor = 24" "length (utf8_bytes (utf16_chars descriptor)) = 24"
  by (simp_all add: descriptor_def utf32_codepoint_utf8_length_def)

lemma descriptor_overruns: "IBinder_queryLocalInterface junk descriptor = Inl OutOfBounds"
proof -
  have "utf16_to_utf8_loop (descriptor @ [0]) 24 0 (replicate 24 junk) 0 = Inl OutOfBounds"
    by (subst utf16_to_utf8_loop_eq [OF _ _ _ refl]) (simp_all add: length_descriptor)
  then show ?thesis
    by (simp add: IBinder_queryLocalInterface_def utf16_to_utf8_def length_descriptor)
qed

lemma asInterface_overruns:
  assumes "rh_base (cl_heap cl) b" and "cl_managers cl b = None"
  shows "asInterface junk (Some b) cl = Inl OutOfBounds"
  using assms by (simp add: asInterface_def base_check_def queryLocalInterface_def descriptor_overruns)

text \<open>The object of the process, made by the first call of \<open>self\<close>.\<close>

lemma self_new:
  assumes ok: "heap_ok S W (pc_heap pr)" and none: "gProcess pr = None" and a: "a = rh_next (pc_heap pr)"
  shows "\<exists>pr' ps. ProcessState_self pr = Inr (Some a, pr') \<and> heap_ok (S(a := 2)) W (pc_heap pr') \<and> S a = 0 \<and> W a = 0 \<and>
    pc_states pr' a = Some ps \<and> handles_hold ps [] \<and> hp_malloc (ps_entries ps) = pc_malloc pr \<and> gProcess pr' = Some a"
proof -
  obtain rh1 where new: "RefBase_new (pc_heap pr) = (a, rh1)" using a by (simp add: RefBase_new_def Let_def)
  note n = RefBase_new_ok [OF ok new]
  obtain ps s where init: "ProcessState_init defaultDriver (pc_malloc pr) (pc_sys pr) = (ps, s)" by fastforce
  then have "mHandleToObject ps = Vector_new handle_entry_type" "ps_entries ps = \<lparr>hp_bufs = (\<lambda>_. None), hp_next = 0, hp_malloc = pc_malloc pr\<rparr>"
    by (auto simp: ProcessState_init_def Let_def split: prod.splits option.splits)
  then have ps: "handles_hold ps []" "hp_malloc (ps_entries ps) = pc_malloc pr"
    by (auto simp: handles_hold_def sb_fresh_def handle_entry_type_def intro!: Vector_new_holds)
  obtain rh2 where 2: "sp_assign None (Some a) rh1 = Inr (Some a, rh2)" "heap_ok (S(a := 1)) W rh2"
    using sp_assign_ok [OF n(1), of None "Some a"] n by auto
  have "rh_base rh2 a" using heap_okD [OF 2(2), of a] by (auto simp: cell_ok_def impl_ok_def split: option.splits)
  then obtain rh3 where 3: "sp_new (Some a) rh2 = Inr (Some a, rh3)" "heap_ok (S(a := 2)) W rh3"
    using sp_new_ok [OF 2(2), of "Some a"] n by (auto simp: numeral_2_eq_2)
  have "ProcessState_self pr = Inr (Some a, (set_state a ps (pr\<lparr>pc_heap := rh1, pc_sys := s\<rparr>))\<lparr>pc_heap := rh3, gProcess := Some a\<rparr>)"
    using none new init 2(1) 3(1)
    by (simp add: ProcessState_self_def ProcessState_new_def set_gProcess_def return_gProcess_def heap_after_def set_state_def)
  with 3(2) n ps show ?thesis by (simp add: set_state_def)
qed

text \<open>Later calls take one more reference to it.\<close>

lemma self_again:
  assumes ok: "heap_ok S W (pc_heap pr)" and some: "gProcess pr = Some a" "0 < S a" "S a + W a < 2 ^ 28 - 1"
  shows "\<exists>rh. ProcessState_self pr = Inr (Some a, pr\<lparr>pc_heap := rh\<rparr>) \<and> heap_ok (S(a := S a + 1)) W rh"
proof -
  obtain rh where "sp_new (Some a) (pc_heap pr) = Inr (Some a, rh)" "heap_ok (S(a := S a + 1)) W rh"
    using sp_new_ok [OF ok, of "Some a"] heap_ok_live [OF ok, of a] some(2,3) by auto
  then show ?thesis using some by (intro exI [of _ rh]) (simp add: ProcessState_self_def return_gProcess_def)
qed

text \<open>From the object of the process to the cast of the proxy.\<close>

lemma default_manager_casts:
  assumes self: "ProcessState_self (ip_process (cl_ipc cl)) = Inr (Some a, pr)" and ok: "heap_ok S W (pc_heap pr)" "1 < S a"
    and table: "pc_states pr a = Some ps" "handles_hold ps []" "has_memory (ps_entries ps)"
    and first: "\<not> gSmOnce cl" and managers: "\<forall>m. cl_managers cl m \<noteq> None \<longrightarrow> 0 < S m"
  shows "defaultServiceManager junk cl = Inl OutOfBounds"
proof -
  have memory: "0 < length ([]::handle_entry list) \<or> has_memory (ps_entries ps)" using table(3) by simp
  obtain p pr2 where p: "getContextObject a pr = Inr (Some p, pr2)" "p = rh_next (pc_heap pr)"
    "sp_assign None (Some p) (snd (RefBase_new (pc_heap pr))) = Inr (Some p, pc_heap pr2)"
    using first_lookup_heap [OF table(1,2), of 0] memory by (auto simp: getContextObject_def)
  obtain rh1 where new: "RefBase_new (pc_heap pr) = (p, rh1)" using p(2) by (simp add: RefBase_new_def Let_def)
  note n = RefBase_new_ok [OF ok(1) new]
  have pa: "p \<noteq> a" "S p = 0" using n(3) ok(2) by auto
  have 2: "heap_ok (S(p := 1)) W (pc_heap pr2)"
    using sp_assign_ok [OF n(1), of None "Some p"] n p(3) new by auto
  obtain rh where 3: "sp_delete (Some a) (pc_heap pr2) = Inr rh" "heap_ok (S(p := 1, a := S a - 1)) W rh"
    using sp_delete_ok [OF 2, of "Some a"] pa ok(2) by auto
  have live: "rh_base rh p" "rh_base rh a" using heap_ok_live [OF 3(2)] pa ok(2) by simp_all
  have "cl_managers cl p = None" using managers pa(2) by auto
  with live have "asInterface junk (Some p) (set_process (heap_after (Some a) rh pr2) cl) = Inl OutOfBounds"
    by (intro asInterface_overruns) (simp_all add: set_process_def cl_heap_def heap_after_def)
  with first self p(1) 3(1) show ?thesis
    by (simp add: defaultServiceManager_def make_default_manager_def Let_def)
qed

text \<open>
  A process that has not asked for a handle yet: it has no \<open>ProcessState\<close> and memory for the table of the new one, or it has one, with
  references to it that are far from the limit of the counters, and memory for the first entry of its empty table.
\<close>

definition asked_for_none :: "(nat \<Rightarrow> nat) \<Rightarrow> (nat \<Rightarrow> nat) \<Rightarrow> process \<Rightarrow> bool" where
  "asked_for_none S W pr \<longleftrightarrow>
     (case gProcess pr of
        None \<Rightarrow> (\<exists>mallocs. pc_malloc pr = True # mallocs)
      | Some a \<Rightarrow> 0 < S a \<and> S a + W a < 2 ^ 28 - 2 \<and>
          (\<exists>ps. pc_states pr a = Some ps \<and> handles_hold ps [] \<and> has_memory (ps_entries ps)))"

lemma first_self:
  assumes ok: "heap_ok S W (pc_heap pr)" and none: "asked_for_none S W pr"
  shows "\<exists>a pr' ps S'. ProcessState_self pr = Inr (Some a, pr') \<and> heap_ok S' W (pc_heap pr') \<and> 1 < S' a \<and> S' a + W a < 2 ^ 28 - 1 \<and>
    (\<forall>m. S m \<le> S' m) \<and> gProcess pr' = Some a \<and> pc_states pr' a = Some ps \<and> handles_hold ps [] \<and> has_memory (ps_entries ps)"
proof (cases "gProcess pr")
  case None
  obtain pr' ps where "ProcessState_self pr = Inr (Some (rh_next (pc_heap pr)), pr')" "heap_ok (S(rh_next (pc_heap pr) := 2)) W (pc_heap pr')"
    "S (rh_next (pc_heap pr)) = 0" "W (rh_next (pc_heap pr)) = 0" "pc_states pr' (rh_next (pc_heap pr)) = Some ps" "handles_hold ps []"
    "hp_malloc (ps_entries ps) = pc_malloc pr" "gProcess pr' = Some (rh_next (pc_heap pr))"
    using self_new [OF ok None refl] by blast
  with none None show ?thesis
    by (intro exI [of _ "rh_next (pc_heap pr)"] exI [of _ pr'] exI [of _ ps] exI [of _ "S(rh_next (pc_heap pr) := 2)"])
      (auto simp: asked_for_none_def has_memory_def)
next
  case (Some a)
  with none obtain ps where a: "0 < S a" "S a + W a < 2 ^ 28 - 2" "pc_states pr a = Some ps" "handles_hold ps []" "has_memory (ps_entries ps)"
    by (auto simp: asked_for_none_def)
  obtain rh where "ProcessState_self pr = Inr (Some a, pr\<lparr>pc_heap := rh\<rparr>)" "heap_ok (S(a := S a + 1)) W rh"
    using self_again [OF ok Some a(1)] a(2) by auto
  with a Some show ?thesis
    by (intro exI [of _ a] exI [of _ "pr\<lparr>pc_heap := rh\<rparr>"] exI [of _ ps] exI [of _ "S(a := S a + 1)"]) auto
qed

text \<open>C32: no process gets the service manager. Consider one that has not asked for a handle yet, whether its \<open>ProcessState\<close> exists or
  not, with memory for the table of handles, in the first call of \<open>defaultServiceManager\<close>. Then the proxy for the context
  manager is made, whatever the driver answers; the cast of it to an interface asks it for a local one, and the base class converts the
  descriptor into an array on the stack that has no room for the zero at the end: the byte behind the array is
  overwritten. That is how far the media server comes, the one client in the repository, which asks for its \<open>ProcessState\<close> first.\<close>

theorem default_manager_overruns:
  assumes ok: "heap_ok S W (cl_heap cl)" and first: "\<not> gSmOnce cl" and none: "asked_for_none S W (ip_process (cl_ipc cl))"
    and managers: "\<forall>m. cl_managers cl m \<noteq> None \<longrightarrow> 0 < S m"
  shows "defaultServiceManager junk cl = Inl OutOfBounds \<and>
    mediaserver_main proxy junk outAddr inAddr fuel self buffer cl = Inl OutOfBounds"
proof
  let ?pr = "ip_process (cl_ipc cl)"
  obtain a pr ps S' where made: "ProcessState_self ?pr = Inr (Some a, pr)" "heap_ok S' W (pc_heap pr)" "1 < S' a" "S' a + W a < 2 ^ 28 - 1"
    "\<forall>m. S m \<le> S' m" "gProcess pr = Some a" "pc_states pr a = Some ps" "handles_hold ps []" "has_memory (ps_entries ps)"
    using first_self [OF ok [unfolded cl_heap_def] none] by blast
  have live: "\<forall>m. cl_managers cl m \<noteq> None \<longrightarrow> 0 < S' m" using managers made(5) by (metis less_le_trans)
  show "defaultServiceManager junk cl = Inl OutOfBounds"
    by (rule default_manager_casts [OF made(1-3,7-9) first live])
  obtain rh where again: "ProcessState_self pr = Inr (Some a, pr\<lparr>pc_heap := rh\<rparr>)" "heap_ok (S'(a := S' a + 1)) W rh"
    using self_again [OF made(2,6)] made(3,4) by auto
  have "defaultServiceManager junk (set_process pr cl) = Inl OutOfBounds"
    using made again first live
    by (intro default_manager_casts [where a = a and pr = "pr\<lparr>pc_heap := rh\<rparr>" and ps = ps and S = "S'(a := S' a + 1)" and W = W])
      (auto simp: set_process_def)
  then show "mediaserver_main proxy junk outAddr inAddr fuel self buffer cl = Inl OutOfBounds"
    using made(1) by (simp add: mediaserver_main_def)
qed

definition no_objects :: ref_heap where
  "no_objects = \<lparr>rh_base = (\<lambda>_. False), rh_impl = (\<lambda>_. None), rh_next = 0, rh_trace = []\<rparr>"

lemma no_objects_ok: "heap_ok (\<lambda>_. 0) (\<lambda>_. 0) no_objects"
  by (simp add: heap_ok_def cell_ok_def deleted_once_def no_objects_def)

text \<open>A process that has not opened the driver yet.\<close>

definition demo_app :: client where
  "demo_app = \<lparr>cl_ipc = (demo_ipc demo_sys)\<lparr>ip_process := \<lparr>pc_heap = no_objects, pc_sys = demo_sys, gProcess = None,
       pc_states = (\<lambda>_. None), pc_proxies = (\<lambda>_. None), pc_malloc = [True]\<rparr>\<rparr>,
     cl_managers = (\<lambda>_. None), cl_proxies = (\<lambda>_. None), cl_shims = (\<lambda>_. None), gSmOnce = False,
     gDefaultServiceManager = None\<rparr>"

lemma default_manager_overruns_witness:
  "defaultServiceManager 0xAA demo_app = Inl OutOfBounds \<and>
    mediaserver_main (\<lambda>_. None) 0xAA 4096 0 1 1 8192 demo_app = Inl OutOfBounds"
  by (rule default_manager_overruns [where S = "\<lambda>_. 0" and W = "\<lambda>_. 0"])
    (simp_all add: demo_app_def cl_heap_def no_objects_ok asked_for_none_def)

section \<open>Registration\<close>

text \<open>The names a table has for an object; the references to it when each of them has one, beside those of the callers.\<close>

definition names_of :: "(u8 list \<Rightarrow> service option) \<Rightarrow> nat \<Rightarrow> u8 list set" where
  "names_of services b = {name. \<exists>sv. services name = Some sv \<and> sv_binder sv = Some b}"

definition held :: "(u8 list \<Rightarrow> service option) \<Rightarrow> (nat \<Rightarrow> nat) \<Rightarrow> nat \<Rightarrow> nat" where
  "held services C b = card (names_of services b) + C b"

lemma names_of_dom: "names_of services b \<subseteq> dom services"
  by (auto simp: names_of_def)

definition entry_of :: "(u8 list \<Rightarrow> service option) \<Rightarrow> u8 list \<Rightarrow> nat option" where
  "entry_of services name = (case services name of None \<Rightarrow> None | Some sv \<Rightarrow> sv_binder sv)"

lemma entry_of_names: "entry_of services name = Some b \<longleftrightarrow> name \<in> names_of services b"
  by (auto simp: entry_of_def names_of_def split: option.splits)

lemma names_of_update:
  "names_of (services(name \<mapsto> new_service (Some b) isolated prio)) c =
    (if c = b then insert name (names_of services c) else names_of services c - {name})"
  by (auto simp: names_of_def new_service_def)

lemma held_update:
  assumes fin: "finite (dom services)"
  shows "held (services(name \<mapsto> new_service (Some b) isolated prio)) C =
    dec_at (entry_of services name) (inc_at (Some b) (held services C))"
proof
  fix c
  have fin': "finite (names_of services c)" by (rule finite_subset [OF names_of_dom fin])
  show "held (services(name \<mapsto> new_service (Some b) isolated prio)) C c =
      dec_at (entry_of services name) (inc_at (Some b) (held services C)) c"
  proof (cases "entry_of services name = Some c")
    case True
    then have name: "name \<in> names_of services c" by (simp add: entry_of_names)
    then have "0 < card (names_of services c)" using fin' card_gt_0_iff by blast
    with True name fin' show ?thesis
      by (auto simp: held_def names_of_update insert_absorb card_Diff_singleton)
  next
    case False
    then have "name \<notin> names_of services c" by (simp add: entry_of_names)
    with False fin' show ?thesis
      by (cases "entry_of services name") (auto simp: held_def names_of_update)
  qed
qed

text \<open>One registration, with a reference of the caller's.\<close>

lemma addService_step:
  assumes mgr: "cl_managers cl m = Some services" and fin: "finite (dom services)"
    and ok: "heap_ok (held services C) W (cl_heap cl)" and caller: "0 < C b"
    and room: "C b + W b + card (dom services) + 2 < 268435456"
  shows "\<exists>rh. ServiceManager_addService m name (Some b) isolated prio cl = Inr (Status_ok, (set_heap rh cl)\<lparr>cl_managers :=
      (cl_managers cl)(m \<mapsto> services(name \<mapsto> new_service (Some b) isolated prio))\<rparr>) \<and>
    heap_ok (held (services(name \<mapsto> new_service (Some b) isolated prio)) C) W rh"
proof -
  let ?S = "held services C" and ?old = "entry_of services name"
  have few: "?S b + W b + 2 < 268435456"
    using room card_mono [OF fin names_of_dom, of b] by (simp add: held_def)
  have live: "rh_base (cl_heap cl) b" using heap_ok_live [OF ok] caller by (simp add: held_def)
  obtain rh1 where 1: "sp_new (Some b) (cl_heap cl) = Inr (Some b, rh1)" "heap_ok (inc_at (Some b) ?S) W rh1" "rh_base rh1 b"
    using sp_new_ok [OF ok, of "Some b"] live few by auto
  have old: "0 < ?S c" if "?old = Some c" for c
    using that fin finite_subset [OF names_of_dom fin] by (auto simp: held_def entry_of_names card_gt_0_iff)
  obtain rh2 where 2: "sp_assign ?old (Some b) rh1 = Inr (Some b, rh2)"
    "heap_ok (dec_at ?old (inc_at (Some b) (inc_at (Some b) ?S))) W rh2"
  proof -
    have "\<exists>rh'. sp_assign ?old (Some b) rh1 = Inr (Some b, rh') \<and>
        heap_ok (dec_at ?old (inc_at (Some b) (inc_at (Some b) ?S))) W rh'"
      by (rule sp_assign_ok [OF 1(2)]) (use old few 1(3) in auto)
    with that show ?thesis by blast
  qed
  have pos: "0 < dec_at ?old (inc_at (Some b) (inc_at (Some b) ?S)) b" by (cases ?old) auto
  obtain rh3 where 3: "sp_delete (Some b) rh2 = Inr rh3"
    "heap_ok (dec_at (Some b) (dec_at ?old (inc_at (Some b) (inc_at (Some b) ?S)))) W rh3"
    using sp_delete_ok [OF 2(2), of "Some b"] pos by auto
  have "dec_at (Some b) (dec_at ?old (inc_at (Some b) (inc_at (Some b) ?S))) = dec_at ?old (inc_at (Some b) ?S)"
    by (cases ?old) auto
  with 3(2) have "heap_ok (held (services(name \<mapsto> new_service (Some b) isolated prio)) C) W rh3"
    by (simp add: held_update [OF fin])
  with mgr 1(1) 2(1) 3(1) show ?thesis
    by (intro exI [of _ rh3]) (simp add: ServiceManager_addService_def Let_def flip: entry_of_def)
qed

text \<open>A sequence of registrations with the manager, the results of them, and the table it should leave.\<close>

type_synonym request = "u8 list \<times> nat option \<times> bool \<times> int"

fun add_all :: "nat \<Rightarrow> request list \<Rightarrow> client \<Rightarrow> (binder_status list \<times> client) chk" where
  "add_all m [] cl = Inr ([], cl)"
| "add_all m ((name, object, isolated, prio) # reqs) cl =
     bindE (ServiceManager_addService m name object isolated prio cl) (\<lambda>(status, cl).
     bindE (add_all m reqs cl) (\<lambda>(sts, cl). Inr (status # sts, cl)))"

fun registered :: "request list \<Rightarrow> (u8 list \<Rightarrow> service option) \<Rightarrow> (u8 list \<Rightarrow> service option)" where
  "registered [] services = services"
| "registered ((name, object, isolated, prio) # reqs) services =
     registered reqs (case object of None \<Rightarrow> services | Some b \<Rightarrow> services(name \<mapsto> new_service (Some b) isolated prio))"

definition answer :: "request \<Rightarrow> binder_status" where
  "answer r = (if fst (snd r) = None then \<lparr>mException = - 3, mErrorCode = 0\<rparr> else Status_ok)"

lemma add_all_result:
  assumes mgr: "cl_managers cl m = Some services" and fin: "finite (dom services)"
    and ok: "heap_ok (held services C) W (cl_heap cl)"
    and callers: "\<forall>name b isolated prio. (name, Some b, isolated, prio) \<in> set reqs \<longrightarrow> 0 < C b"
    and room: "\<forall>b. C b + W b + card (dom services) + length reqs + 2 < 268435456"
  shows "\<exists>cl'. add_all m reqs cl = Inr (map answer reqs, cl') \<and>
    cl_managers cl' = (cl_managers cl)(m \<mapsto> registered reqs services) \<and>
    heap_ok (held (registered reqs services) C) W (cl_heap cl')"
  using assms
proof (induction reqs arbitrary: cl services)
  case Nil
  then show ?case by auto
next
  case (Cons r reqs)
  obtain name object isolated prio where r: "r = (name, object, isolated, prio)" by (cases r)
  show ?case
  proof (cases object)
    case None
    have "\<exists>cl'. add_all m reqs cl = Inr (map answer reqs, cl') \<and>
        cl_managers cl' = (cl_managers cl)(m \<mapsto> registered reqs services) \<and>
        heap_ok (held (registered reqs services) C) W (cl_heap cl')"
    proof (rule Cons.IH [OF Cons.prems(1,2,3)])
      show "\<forall>name b isolated prio. (name, Some b, isolated, prio) \<in> set reqs \<longrightarrow> 0 < C b" using Cons.prems(4) by auto
      show "\<forall>b. C b + W b + card (dom services) + length reqs + 2 < 268435456"
      proof
        fix b show "C b + W b + card (dom services) + length reqs + 2 < 268435456"
          using spec [OF Cons.prems(5), of b] by simp
      qed
    qed
    with None r Cons.prems(1) show ?thesis
      by (auto simp: ServiceManager_addService_def answer_def fromExceptionCode_def)
  next
    case (Some b)
    let ?t = "services(name \<mapsto> new_service (Some b) isolated prio)"
    have card: "card (dom ?t) \<le> Suc (card (dom services))" using Cons.prems(2) by (simp add: card_insert_if)
    obtain rh where 1: "ServiceManager_addService m name (Some b) isolated prio cl =
        Inr (Status_ok, (set_heap rh cl)\<lparr>cl_managers := (cl_managers cl)(m \<mapsto> ?t)\<rparr>)" "heap_ok (held ?t C) W rh"
    proof -
      have "0 < C b" using Cons.prems(4) r Some by auto
      moreover have "C b + W b + card (dom services) + 2 < 268435456" using spec [OF Cons.prems(5), of b] by simp
      ultimately show ?thesis using addService_step [OF Cons.prems(1,2,3)] that by blast
    qed
    let ?cl = "(set_heap rh cl)\<lparr>cl_managers := (cl_managers cl)(m \<mapsto> ?t)\<rparr>"
    have "\<exists>cl'. add_all m reqs ?cl = Inr (map answer reqs, cl') \<and>
        cl_managers cl' = (cl_managers ?cl)(m \<mapsto> registered reqs ?t) \<and>
        heap_ok (held (registered reqs ?t) C) W (cl_heap cl')"
    proof (rule Cons.IH)
      show "cl_managers ?cl m = Some ?t" by simp
      show "finite (dom ?t)" using Cons.prems(2) by simp
      show "heap_ok (held ?t C) W (cl_heap ?cl)" using 1(2) by (simp add: cl_heap_def set_heap_def)
      show "\<forall>b. C b + W b + card (dom ?t) + length reqs + 2 < 268435456"
      proof
        fix b show "C b + W b + card (dom ?t) + length reqs + 2 < 268435456"
          using spec [OF Cons.prems(5), of b] card by simp
      qed
    qed (use Cons.prems in auto)
    with 1(1) r Some show ?thesis by (auto simp: answer_def)
  qed
qed

text \<open>C18: what the service manager has registered. After any sequence of calls of \<open>addService\<close>, each with a reference its caller
  holds, the table is the map that the calls describe: a name has the last object registered under it, and a call without an object is
  answered \<open>EX_ILLEGAL_ARGUMENT\<close> and changes nothing. Each object is counted once for every name it has now,
  beside the references of the callers: what is replaced is given back, and what is registered is alive.\<close>

theorem registrations_counted:
  assumes mgr: "cl_managers cl m = Some services" and fin: "finite (dom services)"
    and ok: "heap_ok (held services C) W (cl_heap cl)"
    and callers: "\<forall>name b isolated prio. (name, Some b, isolated, prio) \<in> set reqs \<longrightarrow> 0 < C b"
    and room: "\<forall>b. C b + W b + card (dom services) + length reqs + 2 < 268435456"
  shows "\<exists>cl'. add_all m reqs cl = Inr (map answer reqs, cl') \<and>
    cl_managers cl' = (cl_managers cl)(m \<mapsto> registered reqs services) \<and>
    heap_ok (held (registered reqs services) C) W (cl_heap cl') \<and>
    (\<forall>name sv b. registered reqs services name = Some sv \<and> sv_binder sv = Some b \<longrightarrow> rh_base (cl_heap cl') b)"
proof -
  obtain cl' where run: "add_all m reqs cl = Inr (map answer reqs, cl')"
    "cl_managers cl' = (cl_managers cl)(m \<mapsto> registered reqs services)"
    and heap: "heap_ok (held (registered reqs services) C) W (cl_heap cl')"
    using add_all_result [OF assms] by blast
  have "finite (dom (registered reqs services))" using fin
    by (induction reqs services rule: registered.induct) (auto split: option.split)
  then have "0 < held (registered reqs services) C b" if "registered reqs services name = Some sv" "sv_binder sv = Some b" for name sv b
    using that finite_subset [OF names_of_dom] by (auto simp: held_def names_of_def card_gt_0_iff)
  with run heap show ?thesis using heap_ok_live [OF heap] by blast
qed

text \<open>A manager at address 0 and a service at address 1, which the caller refers to.\<close>

definition demo_objects :: ref_heap where
  "demo_objects = (case incStrong 1 (snd (RefBase_new (snd (RefBase_new no_objects)))) of Inr rh \<Rightarrow> rh | Inl _ \<Rightarrow> no_objects)"

lemma demo_objects_ok: "heap_ok (\<lambda>b. of_bool (b = 1)) (\<lambda>_. 0) demo_objects"
proof -
  obtain rh1 where 1: "RefBase_new no_objects = (0, rh1)" by (simp add: RefBase_new_def no_objects_def)
  obtain rh2 where 2: "RefBase_new rh1 = (1, rh2)" using 1 by (auto simp: RefBase_new_def no_objects_def Let_def)
  note n1 = RefBase_new_ok [OF no_objects_ok 1]
  note n2 = RefBase_new_ok [OF n1(1) 2]
  obtain rh3 where "sp_new (Some 1) rh2 = Inr (Some 1, rh3)" "heap_ok (inc_at (Some 1) (\<lambda>_. 0)) (\<lambda>_. 0) rh3"
    using sp_new_ok [OF n2(1), of "Some 1"] n2(2) by auto
  moreover from this(1) have "incStrong 1 rh2 = Inr rh3" by (auto simp: sp_new_def bindE_Inr_iff)
  moreover have "(\<lambda>_::nat. 0::nat)(1 := Suc 0) = (\<lambda>b. of_bool (b = 1))" by auto
  ultimately show ?thesis by (simp add: demo_objects_def 1 2)
qed

lemma registrations_counted_witness:
  "\<exists>cl'. add_all 0 [([97], Some 1, False, 8), ([98], None, False, 8), ([97], Some 1, True, 1)]
      (set_heap demo_objects (demo_app\<lparr>cl_managers := [0 \<mapsto> (\<lambda>_. None)]\<rparr>)) =
      Inr ([Status_ok, \<lparr>mException = - 3, mErrorCode = 0\<rparr>, Status_ok], cl') \<and>
    cl_managers cl' = [0 \<mapsto> [[97] \<mapsto> new_service (Some 1) True 1]]"
proof -
  have "held (\<lambda>_. None) (\<lambda>b. of_bool (b = 1)) = (\<lambda>b. of_bool (b = 1))"
    by (simp add: held_def names_of_def fun_eq_iff)
  moreover have "\<forall>b::nat. of_bool (b = 1) < (268435451::nat)" by simp
  ultimately show ?thesis
    using registrations_counted [of "set_heap demo_objects (demo_app\<lparr>cl_managers := [0 \<mapsto> (\<lambda>_. None)]\<rparr>)" 0 "\<lambda>_. None"
        "\<lambda>b. of_bool (b = 1)" "\<lambda>_. 0" "[([97], Some 1, False, 8), ([98], None, False, 8), ([97], Some 1, True, 1)]"]
      demo_objects_ok
    by (auto simp: answer_def simp del: add_all.simps)
qed

section \<open>The proxy of the manager\<close>

text \<open>Bytes written to a new parcel leave it without objects and without an error, and take one outcome of \<open>malloc\<close>.\<close>

lemma data_store_meta: "data_store off xs p = Inr p' \<Longrightarrow> mError p' = mError p \<and> mObjectsSize p' = mObjectsSize p"
  by (auto simp: data_store_def bindE_Inr_iff)

lemma finishWrite_meta: "mError (snd (finishWrite n p)) = mError p" "mObjectsSize (snd (finishWrite n p)) = mObjectsSize p"
  by (simp_all add: finishWrite_def Let_def)

lemma writeInplace_at_meta:
  assumes "writeInplace_at n k p = Inr (d, p')" shows "mError p' = mError p \<and> mObjectsSize p' = mObjectsSize p"
proof -
  let ?pad = "if k \<noteq> n then bindE (derefE NullDeref (mData p)) (\<lambda>data. bindE (mem_read data (mDataPos p + k - 4) 4) (\<lambda>last.
    data_store (mDataPos p + k - 4) (le_bytes 4 (le_word last AND pad_mask (k - n))) p)) else Inr p"
  obtain p1 where p1: "?pad = Inr p1" "p' = snd (finishWrite k p1)"
    using assms by (cases ?pad) (auto simp: writeInplace_at_def Let_def split: prod.splits)
  then have "p1 = p \<or> (\<exists>off xs. data_store off xs p = Inr p1)"
    by (cases "k = n") (auto simp: bindE_Inr_iff simp del: le_bytes.simps)
  then have "mError p1 = mError p \<and> mObjectsSize p1 = mObjectsSize p" using data_store_meta by blast
  with p1(2) show ?thesis by (simp add: finishWrite_meta)
qed

lemma growData_fresh:
  assumes "0 < n" "n * 3 div 2 \<le> INT32_MAX" "plenty (Suc k) e"
  obtains p e' where "growData proxy junk n Parcel_new e = Inr (NO_ERROR, p, e')" "mError p = NO_ERROR" "mObjectsSize p = 0"
    "plenty k e'"
proof -
  obtain ms where ms: "pe_malloc e = True # ms" using assms(3) by (cases "pe_malloc e") (auto simp: plenty_def)
  have "n < n * 3 div 2 \<or> n = 1" using assms(1) by linarith
  then have "growData proxy junk n Parcel_new e = Inr (continueWrite_first junk (n * 3 div 2) Parcel_new e)"
    using assms(1,2) by (auto simp: growData_def continueWrite_def objects_after_def Parcel_new_def initState_def)
  with ms assms(3) show ?thesis
    by (intro that) (auto simp: continueWrite_first_def pe_alloc_simps Parcel_new_def initState_def plenty_def count_alloc_def)
qed

lemma fresh_write:
  assumes n: "0 < length xs" and small: "pad_size (length xs) * 3 div 2 \<le> INT32_MAX" and xs: "length xs \<le> INT32_MAX"
    and mem: "plenty (Suc k) e"
  obtains p e' where "Parcel_write proxy junk xs Parcel_new e = Inr (NO_ERROR, p, e')" "parcel_ok p" "contents p = padded xs"
    "mDataPos p = length (padded xs)" "mError p = NO_ERROR" "mObjectsSize p = 0" "plenty k e'"
proof -
  note pad = pad_size_pos [OF n xs] pad_size_bounds [OF xs] length_padded [OF xs]
  obtain p e' where w: "Parcel_write proxy junk xs Parcel_new e = Inr (NO_ERROR, p, e')" "parcel_ok p" "contents p = padded xs"
      "mDataPos p = length (padded xs)"
    using Parcel_write_result [OF parcel_new_ok(1) n xs, of proxy junk e] small mem
    by (auto simp: Parcel_new_def initState_def contents_def overwrite_def plenty_def split: if_splits)
  obtain p1 e1 where g: "growData proxy junk (pad_size (length xs)) Parcel_new e = Inr (NO_ERROR, p1, e1)" "mError p1 = NO_ERROR"
    "mObjectsSize p1 = 0" "plenty k e1" by (rule growData_fresh [OF pad(1) small mem])
  have "size_wrap (pad_size (length xs)) = pad_size (length xs)" using pad small by simp
  then have "Parcel_write proxy junk xs Parcel_new e =
      bindE (writeInplace_at (length xs) (pad_size (length xs)) p1) (\<lambda>(d, p).
        case d of
          Some off \<Rightarrow> bindE (if xs = [] then Inr p else data_store off xs p) (\<lambda>p. Inr (NO_ERROR, p, e1))
        | None \<Rightarrow> Inr (mError p, p, e1))"
    using g(1) pad(1) xs parcel_new_ok(3)
    by (simp add: Parcel_write_def writeInplace_def Let_def)
      (cases "writeInplace_at (length xs) (pad_size (length xs)) p1"; auto simp: Parcel_new_def initState_def)
  with w(1) have "bindE (writeInplace_at (length xs) (pad_size (length xs)) p1) (\<lambda>(d, p).
        case d of
          Some off \<Rightarrow> bindE (if xs = [] then Inr p else data_store off xs p) (\<lambda>p. Inr (NO_ERROR, p, e1))
        | None \<Rightarrow> Inr (mError p, p, e1)) = Inr (NO_ERROR, p, e')" by simp
  then obtain d p2 where d: "writeInplace_at (length xs) (pad_size (length xs)) p1 = Inr (d, p2)"
    "(case d of Some off \<Rightarrow> bindE (if xs = [] then Inr p2 else data_store off xs p2) (\<lambda>p. Inr (NO_ERROR, p, e1))
      | None \<Rightarrow> Inr (mError p2, p2, e1)) = Inr (NO_ERROR, p, e')"
    by (auto simp: bindE_Inr_iff)
  then have "mError p = NO_ERROR \<and> mObjectsSize p = 0 \<and> e' = e1"
    using writeInplace_at_meta [OF d(1)] g(2,3) n by (cases d) (auto simp: bindE_Inr_iff dest: data_store_meta)
  with w g(4) that show ?thesis by blast
qed

lemma fresh_write_any:
  assumes small: "pad_size (length xs) * 3 div 2 \<le> INT32_MAX" and xs: "length xs \<le> INT32_MAX" and mem: "plenty (Suc k) e"
  obtains p e' where "Parcel_write proxy junk xs Parcel_new e = Inr (NO_ERROR, p, e')" "contents p = padded xs"
    "mError p = NO_ERROR" "mObjectsSize p = 0" "plenty k e'"
proof (cases "xs = []")
  case True
  have "Parcel_write proxy junk [] Parcel_new e = Inr (NO_ERROR, Parcel_new, e)"
    by (simp add: Parcel_write_def writeInplace_def writeInplace_at_def Parcel_new_def initState_def pad_size_def Let_def finishWrite_def)
  moreover have "contents Parcel_new = padded []" by (simp add: contents_def padded_def Parcel_new_def initState_def pad_size_def)
  moreover have "plenty k e" using mem by (auto simp: plenty_def)
  ultimately show ?thesis using True by (intro that) (auto simp: Parcel_new_def initState_def)
next
  case False
  then show ?thesis using fresh_write [OF _ small xs mem] that by (metis length_greater_0_conv)
qed

text \<open>C35: what is left of a registration by a client. The object is a proxy for a handle, its thread has the driver open and is not in the
  middle of an answer, there is memory, the name and the queue stay below two gigabytes, and the driver stores nothing behind the
  read buffer, whose size is 0. The proxy sends the name up to its first zero, padded with zeros, and nothing else: no object goes
  into the call, so the driver never learns of the service, nor of the two other arguments. If the loop around \<open>ioctl\<close> ends, the
  caller gets the exception 10086, whether the driver took the call or not: the result of the transaction is not looked at. Otherwise, when
  \<open>errno\<close> holds an old \<open>EINTR\<close> and the driver accepts the call each time, the caller gets nothing.\<close>

theorem proxy_sends_only_name:
  assumes bp: "cl_proxies cl this = Some bp" "mRemote bp = Some r" and remote: "rh_base (cl_heap cl) r" "cl_managers cl r = None"
      "pc_proxies (ip_process (cl_ipc cl)) r = Some handle"
    and thread: "gHaveTLS (cl_ipc cl)" "ip_tls (cl_ipc cl) self = Some t" "can_talk t th fd (cl_ipc cl)" "out_queue th trs"
    and mem: "plenty 3 (ip_env (cl_ipc cl))" and quiet: "reads_nothing (the_sys (cl_ipc cl))"
    and name: "chars = takeWhile (\<lambda>c. c \<noteq> 0) name" "pad_size (length chars) * 3 div 2 \<le> INT32_MAX" "length chars \<le> INT32_MAX"
    and fits: "68 * Suc (length trs) * 3 div 2 \<le> INT32_MAX"
  shows "(\<forall>k < fuel. last_call (the_sys (cl_ipc cl)) k \<longrightarrow>
      (\<exists>data st'. BpServiceManager_addService proxy junk outAddr inAddr fuel self buffer this name service allowIsolated prio cl =
          Inr (\<lparr>mException = 10086, mErrorCode = 0\<rparr>, cl\<lparr>cl_ipc := st'\<rparr>) \<and>
        contents data = padded chars \<and> ipcObjectsCount data = 0 \<and>
        (let all = trs @ [call_data 0x10 handle 3 data buffer 0]; s = the_sys (cl_ipc cl)
         in sys_trace (the_sys st') = sys_trace s @
              map (\<lambda>i. IoctlCall fd BINDER_WRITE_READ (WriteRead (request_of s (write_request outAddr inAddr all) i) (queued all)))
                [0..<Suc k]))) \<and>
    ((\<forall>k. \<not> last_call (the_sys (cl_ipc cl)) k) \<longrightarrow>
      BpServiceManager_addService proxy junk outAddr inAddr fuel self buffer this name service allowIsolated prio cl = Inl OutOfFuel)"
proof -
  let ?st = "cl_ipc cl"
  have mem': "plenty (Suc 2) (ip_env ?st)" using mem by (simp add: numeral_3_eq_3 numeral_2_eq_2)
  obtain data e where w: "Parcel_write proxy junk chars Parcel_new (ip_env ?st) = Inr (NO_ERROR, data, e)" "contents data = padded chars"
    "mError data = NO_ERROR" "mObjectsSize data = 0" "plenty 2 e"
    using fresh_write_any [OF name(2,3) mem'] by blast
  let ?e = "?st\<lparr>ip_env := e\<rparr>" and ?all = "trs @ [call_data 0x10 handle 3 data buffer 0]" and ?s = "the_sys (cl_ipc cl)"
  have can: "can_talk t th fd ?e" "plenty 2 (ip_env ?e)" "errorCheck data = NO_ERROR" "the_sys ?e = ?s"
    using thread(3) w by (simp_all add: can_talk_def errorCheck_def)
  have add: "BpServiceManager_addService proxy junk outAddr inAddr fuel self buffer this name service allowIsolated prio cl =
      bindE (IPC_transact proxy junk outAddr inAddr fuel handle 3 data buffer 0 (Some Parcel_new) 0 t ?e) (\<lambda>(err, rep, st').
        Inr (\<lparr>mException = 10086, mErrorCode = 0\<rparr>, cl\<lparr>cl_ipc := st'\<rparr>))"
    using bp remote w(1) thread(1,2)
    by (cases "IPC_transact proxy junk outAddr inAddr fuel handle 3 data buffer 0 (Some Parcel_new) 0 t ?e")
      (auto simp: BpServiceManager_addService_def remote_transact_def name(1) Let_def base_check_def cl_heap_def fromExceptionCode_def
        BpBinder_transact_def IPCThreadState_self_def self_restart_def)
  have all: "?all = trs @ [call_data (0 OR 0x10) handle 3 data buffer 0]" by simp
  show ?thesis
  proof (intro conjI allI impI)
    fix k assume k: "k < fuel" "last_call ?s k"
    obtain err rep st' where "IPC_transact proxy junk outAddr inAddr fuel handle 3 data buffer 0 (Some Parcel_new) 0 t ?e = Inr (err, rep, st')"
      "sys_trace (the_sys st') = sys_trace ?s @
        map (\<lambda>i. IoctlCall fd BINDER_WRITE_READ (WriteRead (request_of ?s (write_request outAddr inAddr ?all) i) (queued ?all))) [0..<Suc k]"
      using transact_result [OF can(1) thread(4) can(2) fits can(3) _ _ k(1) all, unfolded can(4), OF quiet k(2), where proxy = proxy
          and junk = junk and outAddr = outAddr and inAddr = inAddr and reply = "Some Parcel_new"] by blast
    then show "\<exists>data st'. BpServiceManager_addService proxy junk outAddr inAddr fuel self buffer this name service allowIsolated prio cl =
          Inr (\<lparr>mException = 10086, mErrorCode = 0\<rparr>, cl\<lparr>cl_ipc := st'\<rparr>) \<and>
        contents data = padded chars \<and> ipcObjectsCount data = 0 \<and>
        (let all = trs @ [call_data 0x10 handle 3 data buffer 0]; s = ?s
         in sys_trace (the_sys st') = sys_trace s @
              map (\<lambda>i. IoctlCall fd BINDER_WRITE_READ (WriteRead (request_of s (write_request outAddr inAddr all) i) (queued all)))
                [0..<Suc k])"
      using w unfolding add by (intro exI [of _ data] exI [of _ st']) (simp add: ipcObjectsCount_def Let_def)
  next
    assume "\<forall>k. \<not> last_call ?s k"
    then show "BpServiceManager_addService proxy junk outAddr inAddr fuel self buffer this name service allowIsolated prio cl = Inl OutOfFuel"
      using transact_never_ends [OF can(1) thread(4) can(2) fits can(3), unfolded can(4), OF quiet] unfolding add by simp
  qed
qed

text \<open>A client with a proxy at address 7 for the remote object 1, which stands for the handle 0.\<close>

definition demo_remote :: client where
  "demo_remote = demo_app\<lparr>cl_ipc := (demo_ipc demo_sys)\<lparr>ip_env := demo_env\<lparr>pe_malloc := [True, True, True, True, True, True]\<rparr>,
       ip_process := demo_process\<lparr>pc_sys := demo_sys, pc_heap := snd (RefBase_new (pc_heap demo_process)), pc_proxies := [1 \<mapsto> 0]\<rparr>\<rparr>,
     cl_proxies := [7 \<mapsto> \<lparr>mRemote = Some 1, bp_mRefs = Some 1, bp_mState = 0\<rparr>]\<rparr>"

lemma proxy_sends_only_name_witness:
  "\<exists>data st'. BpServiceManager_addService (\<lambda>_. None) 9 4096 0 1 1 8192 7 manager_name (Some 5) True 1 demo_remote =
      Inr (\<lparr>mException = 10086, mErrorCode = 0\<rparr>, demo_remote\<lparr>cl_ipc := st'\<rparr>) \<and> contents data = manager_name @ [0]"
proof -
  obtain ps where ps: "pc_states demo_process 0 = Some ps" "mDriverFD ps = 5" using demo_fd by blast
  have heap: "pc_proxies (ip_process (cl_ipc demo_remote)) 1 = Some 0" "rh_base (cl_heap demo_remote) 1"
    using demo_process_state(2) by (simp_all add: demo_remote_def cl_heap_def RefBase_new_def Let_def)
  have bp: "cl_proxies demo_remote 7 = Some \<lparr>mRemote = Some 1, bp_mRefs = Some 1, bp_mState = 0\<rparr>" "cl_managers demo_remote 1 = None"
    by (simp_all add: demo_remote_def demo_app_def)
  have th: "gHaveTLS (cl_ipc demo_remote)" "ip_tls (cl_ipc demo_remote) 1 = Some 0" "can_talk 0 demo_thread 5 (cl_ipc demo_remote)"
    using ps by (auto simp: demo_remote_def demo_ipc_def can_talk_def demo_thread_def)
  have env: "plenty 3 (ip_env (cl_ipc demo_remote))" "reads_nothing (the_sys (cl_ipc demo_remote))" "last_call (the_sys (cl_ipc demo_remote)) 0"
    by (simp_all add: demo_remote_def plenty_def reads_nothing_def last_call_def demo_sys_def)
  have name: "manager_name = takeWhile (\<lambda>c. c \<noteq> 0) manager_name" "pad_size (length manager_name) * 3 div 2 \<le> INT32_MAX"
    "length manager_name \<le> INT32_MAX" "padded manager_name = manager_name @ [0]"
    by (simp_all add: manager_name_def pad_size_def padded_def)
  show ?thesis
    using proxy_sends_only_name [OF bp(1) _ heap(2) bp(2) heap(1) th demo_ipc_simps(2) env(1,2) name(1,2,3), where fuel = 1
        and proxy = "\<lambda>_. None" and junk = 9 and outAddr = 4096 and inAddr = 0 and buffer = 8192 and service = "Some 5"
        and allowIsolated = True and prio = 1] env(3) name(4)
    by (auto simp: Let_def)
qed

end
