(* ===== verification/Looper_Thread.thy ===== *)
theory Looper_Thread
  imports Looper RefBase
begin

text \<open>
  The looper of a thread: \<open>prepare\<close>, \<open>setForThread\<close> and \<open>getForThread\<close> of \<open>libutils/Looper.cpp\<close>. Loopers are objects of the heap of
  \<open>RefBase\<close>, by address. The slot of a thread holds a raw pointer, for which \<open>setForThread\<close> counts a reference by hand and
  which the destructor of the slot gives back when the thread ends. What the system answers when a looper is made is given for each address.
\<close>

text \<open>
  \<open>tl_create\<close> is the key that \<open>pthread_key_create\<close> makes, or \<open>None\<close> if it fails; \<open>tl_keys\<close> are the keys there are. The value
  of a key that does not exist is null, and setting it has no effect.
\<close>

record loopers =
  tl_heap :: ref_heap
  tl_loopers :: "nat \<Rightarrow> looper option"
  gTLSOnce :: bool
  gTLSKey :: nat
  tl_create :: "nat option"
  tl_keys :: "nat list"
  tl_specific :: "nat \<Rightarrow> nat \<Rightarrow> nat option"
  tl_system :: "nat \<Rightarrow> epoll_result list \<times> int list \<times> bool list"

definition pthread_getspecific :: "nat \<Rightarrow> nat \<Rightarrow> loopers \<Rightarrow> nat option" where
  "pthread_getspecific key thread st = (if key \<in> set (tl_keys st) then tl_specific st key thread else None)"

definition pthread_setspecific :: "nat \<Rightarrow> nat \<Rightarrow> nat option \<Rightarrow> loopers \<Rightarrow> loopers" where
  "pthread_setspecific key thread v st =
     (if key \<in> set (tl_keys st)
      then st\<lparr>tl_specific := (tl_specific st)(key := (tl_specific st key)(thread := v))\<rparr> else st)"

text \<open>A heap after an operation that may have deleted the looper. Its destructor closes no descriptor.\<close>

definition looper_after :: "nat option \<Rightarrow> ref_heap \<Rightarrow> loopers \<Rightarrow> loopers" where
  "looper_after p rh st =
     (case p of
        None \<Rightarrow> st\<lparr>tl_heap := rh\<rparr>
      | Some a \<Rightarrow> if rh_base rh a then st\<lparr>tl_heap := rh\<rparr>
                  else st\<lparr>tl_heap := rh, tl_loopers := (tl_loopers st)(a := None)\<rparr>)"

definition Looper_threadDestructor :: "nat option \<Rightarrow> loopers \<Rightarrow> loopers chk" where
  "Looper_threadDestructor self st =
     (case self of
        None \<Rightarrow> Inr st
      | Some a \<Rightarrow> bindE (decStrong a (tl_heap st)) (\<lambda>rh. Inr (looper_after self rh st)))"

text \<open>That the key could not be made is only logged.\<close>

definition initTLSKey :: "loopers \<Rightarrow> loopers" where
  "initTLSKey st =
     (case tl_create st of
        None \<Rightarrow> st
      | Some key \<Rightarrow>
          st\<lparr>gTLSKey := key, tl_keys := key # tl_keys st, tl_specific := (tl_specific st)(key := (\<lambda>_. None))\<rparr>)"

definition pthread_once_init :: "loopers \<Rightarrow> loopers" where
  "pthread_once_init st = (if gTLSOnce st then st else initTLSKey (st\<lparr>gTLSOnce := True\<rparr>))"

definition getForThread :: "nat \<Rightarrow> loopers \<Rightarrow> (nat option \<times> loopers) chk" where
  "getForThread thread st =
     (let st = pthread_once_init st
      in bindE (sp_new (pthread_getspecific (gTLSKey st) thread st) (tl_heap st)) (\<lambda>(p, rh).
         Inr (p, st\<lparr>tl_heap := rh\<rparr>)))"

text \<open>\<open>old\<close> is given back twice: the reference of the slot, and the local pointer at the end.\<close>

definition setForThread :: "nat \<Rightarrow> nat option \<Rightarrow> loopers \<Rightarrow> loopers chk" where
  "setForThread thread looper st =
     bindE (getForThread thread st) (\<lambda>(old, st).
     bindE (case looper of None \<Rightarrow> Inr (tl_heap st) | Some a \<Rightarrow> incStrong a (tl_heap st)) (\<lambda>rh.
     let st = pthread_setspecific (gTLSKey st) thread looper (st\<lparr>tl_heap := rh\<rparr>)
     in bindE (Looper_threadDestructor old st) (\<lambda>st.
        bindE (sp_delete old (tl_heap st)) (\<lambda>rh.
        Inr (looper_after old rh st)))))"

definition new_looper :: "bool \<Rightarrow> loopers \<Rightarrow> (nat \<times> loopers) chk" where
  "new_looper allowNonCallbacks st =
     (case RefBase_new (tl_heap st) of (a, rh) \<Rightarrow>
      case tl_system st a of (epoll, fds, mallocs) \<Rightarrow>
      bindE (Looper_new allowNonCallbacks epoll fds mallocs) (\<lambda>lp.
      Inr (a, st\<lparr>tl_heap := rh, tl_loopers := (tl_loopers st)(a \<mapsto> lp)\<rparr>)))"

definition getAllowNonCallbacks :: "nat \<Rightarrow> loopers \<Rightarrow> bool chk" where
  "getAllowNonCallbacks a st = bindE (derefE UseAfterFree (tl_loopers st a)) (\<lambda>lp. Inr (mAllowNonCallbacks lp))"

text \<open>That the looper was made with another option is only logged.\<close>

definition Looper_prepare :: "nat \<Rightarrow> int \<Rightarrow> loopers \<Rightarrow> (nat option \<times> loopers) chk" where
  "Looper_prepare thread opts st =
     (let allowNonCallbacks = odd opts
      in bindE (getForThread thread st) (\<lambda>(looper, st).
         bindE (if looper = None then
                  bindE (new_looper allowNonCallbacks st) (\<lambda>(a, st).
                  bindE (sp_assign looper (Some a) (tl_heap st)) (\<lambda>(looper, rh).
                  bindE (setForThread thread looper (st\<lparr>tl_heap := rh\<rparr>)) (\<lambda>st.
                  Inr (looper, st))))
                else Inr (looper, st)) (\<lambda>(looper, st).
         bindE (derefE NullDeref looper) (\<lambda>a.
         bindE (getAllowNonCallbacks a st) (\<lambda>_.
         Inr (looper, st))))))"

text \<open>The end of a thread: the slot is null when the destructor gets its value.\<close>

definition thread_exit :: "nat \<Rightarrow> loopers \<Rightarrow> loopers chk" where
  "thread_exit thread st =
     (let v = pthread_getspecific (gTLSKey st) thread st
      in if gTLSOnce st \<and> tl_create st \<noteq> None then Looper_threadDestructor v (pthread_setspecific (gTLSKey st) thread None st) else Inr st)"

text \<open>What a program does with them: the pointers it holds are a list.\<close>

datatype looper_use =
    Prepare nat int
  | GetFor nat
  | SetFor nat nat
  | Drop nat
  | ThreadEnds nat

fun use_looper :: "looper_use \<Rightarrow> nat option list \<times> loopers \<Rightarrow> (nat option list \<times> loopers) chk" where
  "use_looper (Prepare thread opts) (held, st) =
     bindE (Looper_prepare thread opts st) (\<lambda>(p, st). Inr (p # held, st))"
| "use_looper (GetFor thread) (held, st) =
     bindE (getForThread thread st) (\<lambda>(p, st). Inr (p # held, st))"
| "use_looper (SetFor thread i) (held, st) =
     bindE (derefE OutOfBounds (if i < length held then Some (held ! i) else None)) (\<lambda>p.
     bindE (setForThread thread p st) (\<lambda>st. Inr (held, st)))"
| "use_looper (Drop i) (held, st) =
     bindE (derefE OutOfBounds (if i < length held then Some (held ! i) else None)) (\<lambda>p.
     bindE (sp_delete p (tl_heap st)) (\<lambda>rh.
     Inr (take i held @ drop (Suc i) held, looper_after p rh st)))"
| "use_looper (ThreadEnds thread) (held, st) =
     bindE (thread_exit thread st) (\<lambda>st. Inr (held, st))"

fun use_all :: "looper_use list \<Rightarrow> nat option list \<times> loopers \<Rightarrow> (nat option list \<times> loopers) chk" where
  "use_all [] x = Inr x"
| "use_all (u # us) x = bindE (use_looper u x) (use_all us)"

end
