(* ===== verification/Looper_Thread_Props.thy ===== *)
theory Looper_Thread_Props
  imports Looper_Thread RefBase_Props
begin

text \<open>
  Loopers and threads: the references of a looper are the pointers to it and the slots of the threads it was prepared for, it exists
  while there is one, and a thread has one looper until it ends.
\<close>

section \<open>The invariant\<close>

definition slot_of :: "loopers \<Rightarrow> nat \<Rightarrow> nat option" where
  "slot_of st t = (if gTLSOnce st then pthread_getspecific (gTLSKey st) t st else None)"

definition slots :: "loopers \<Rightarrow> nat set" where
  "slots st = {t. slot_of st t \<noteq> None}"

definition refs :: "nat option list \<Rightarrow> loopers \<Rightarrow> nat \<Rightarrow> nat" where
  "refs held st a = count_list held (Some a) + card {t. slot_of st t = Some a}"

definition loopers_ok :: "nat option list \<Rightarrow> loopers \<Rightarrow> bool" where
  "loopers_ok held st \<longleftrightarrow> tl_create st \<noteq> None \<and> (gTLSOnce st \<longrightarrow> gTLSKey st \<in> set (tl_keys st)) \<and> finite (slots st) \<and>
     heap_ok (refs held st) (\<lambda>_. 0) (tl_heap st) \<and> (\<forall>a. tl_loopers st a \<noteq> None \<longleftrightarrow> 0 < refs held st a)"

definition room :: "nat \<Rightarrow> nat option list \<Rightarrow> loopers \<Rightarrow> bool" where
  "room n held st \<longleftrightarrow> length held + card (slots st) + n < 268435456"

lemma refs_room: "finite (slots st) \<Longrightarrow> room n held st \<Longrightarrow> refs held st a + n < 268435456"
proof -
  assume fin: "finite (slots st)" and "room n held st"
  moreover have "card {t. slot_of st t = Some a} \<le> card (slots st)" by (rule card_mono [OF fin]) (auto simp: slots_def)
  moreover have "count_list held (Some a) \<le> length held" by (rule count_le_length)
  ultimately show ?thesis by (simp add: refs_def room_def)
qed

lemma refs_Cons: "refs (p # held) st = inc_at p (refs held st)"
  by (cases p) (auto simp: refs_def fun_eq_iff)

lemma refs_cong: "slot_of st' = slot_of st \<Longrightarrow> refs held st' = refs held st"
  by (simp add: refs_def fun_eq_iff)

lemma slots_cong: "slot_of st' = slot_of st \<Longrightarrow> slots st' = slots st"
  by (simp add: slots_def)

lemma loopers_ok_count: "(\<And>a. count_list held' (Some a) = count_list held (Some a)) \<Longrightarrow> loopers_ok held' st = loopers_ok held st"
proof -
  assume "\<And>a. count_list held' (Some a) = count_list held (Some a)"
  then have "refs held' st = refs held st" by (simp add: refs_def fun_eq_iff)
  then show ?thesis by (simp add: loopers_ok_def)
qed

text \<open>The parts of a state that the pointer operations leave alone.\<close>

definition same_slots :: "loopers \<Rightarrow> loopers \<Rightarrow> bool" where
  "same_slots st st' \<longleftrightarrow> slot_of st' = slot_of st \<and> tl_create st' = tl_create st"

lemma slot_of_looper_after [simp]: "slot_of (looper_after p rh st) = slot_of st" "tl_create (looper_after p rh st) = tl_create st"
  "gTLSOnce (looper_after p rh st) = gTLSOnce st" "gTLSKey (looper_after p rh st) = gTLSKey st"
  "tl_keys (looper_after p rh st) = tl_keys st" "tl_heap (looper_after p rh st) = rh"
  by (auto simp: looper_after_def slot_of_def pthread_getspecific_def fun_eq_iff split: option.split)

lemma slot_of_heap [simp]: "slot_of (st\<lparr>tl_heap := rh\<rparr>) = slot_of st"
  "slot_of (st\<lparr>tl_heap := rh, tl_loopers := ls\<rparr>) = slot_of st"
  by (auto simp: slot_of_def pthread_getspecific_def fun_eq_iff)

section \<open>Taking and dropping a reference\<close>

lemma take_reference:
  assumes ok: "loopers_ok held st" and p: "\<And>a. p = Some a \<Longrightarrow> 0 < refs held st a" and r: "room 1 held st"
  shows "\<exists>rh. sp_new p (tl_heap st) = Inr (p, rh) \<and> loopers_ok (p # held) (st\<lparr>tl_heap := rh\<rparr>)"
proof -
  have heap: "heap_ok (refs held st) (\<lambda>_. 0) (tl_heap st)" and fin: "finite (slots st)"
    using ok by (simp_all add: loopers_ok_def)
  have "rh_base (tl_heap st) a \<and> refs held st a + 0 + 1 < 268435456" if "p = Some a" for a
  proof -
    have "0 < refs held st a" using p [OF that] .
    then show ?thesis using refs_room [OF fin r, of a] heap_okD [OF heap, of a]
      by (auto simp: cell_ok_def impl_ok_def split: option.splits)
  qed
  then obtain rh where rh: "sp_new p (tl_heap st) = Inr (p, rh)" "heap_ok (inc_at p (refs held st)) (\<lambda>_. 0) rh"
    using sp_new_ok [OF heap, of p] by blast
  have eq: "refs (p # held) (st\<lparr>tl_heap := rh\<rparr>) = inc_at p (refs held st)" "slots (st\<lparr>tl_heap := rh\<rparr>) = slots st"
    by (simp_all add: refs_Cons refs_cong [OF slot_of_heap(1)] slots_cong [OF slot_of_heap(1)])
  have pos: "(0 < inc_at p (refs held st) a) = (0 < refs held st a)" for a
  proof (cases p)
    case (Some b)
    then show ?thesis using p [of b] by simp
  qed simp
  have "loopers_ok (p # held) (st\<lparr>tl_heap := rh\<rparr>)"
    using ok rh(2) by (simp add: loopers_ok_def eq pos)
  with rh(1) show ?thesis by blast
qed

lemma drop_reference:
  assumes ok: "loopers_ok (p # held) st"
  shows "\<exists>rh. sp_delete p (tl_heap st) = Inr rh \<and> loopers_ok held (looper_after p rh st)"
proof -
  have heap: "heap_ok (refs (p # held) st) (\<lambda>_. 0) (tl_heap st)" and live: "\<And>a. tl_loopers st a \<noteq> None \<longleftrightarrow> 0 < refs (p # held) st a"
    using ok unfolding loopers_ok_def by blast+
  have pos: "0 < refs (p # held) st a" if "p = Some a" for a using that by (simp add: refs_def)
  obtain rh where rh: "sp_delete p (tl_heap st) = Inr rh" "heap_ok (dec_at p (refs (p # held) st)) (\<lambda>_. 0) rh"
    using sp_delete_ok [OF heap, of p] pos by blast
  have eq: "refs held (looper_after p rh st) = dec_at p (refs (p # held) st)"
    by (cases p) (simp_all add: refs_Cons refs_cong [OF slot_of_looper_after(1)])
  have "slots (looper_after p rh st) = slots st" by (rule slots_cong) simp
  moreover have "tl_loopers (looper_after p rh st) a \<noteq> None \<longleftrightarrow> 0 < dec_at p (refs (p # held) st) a" for a
  proof (cases "p = Some a")
    case True
    let ?n = "refs (p # held) st a"
    have "0 < ?n" using pos [OF True] .
    then consider "?n = 1" | "1 < ?n" by linarith
    then show ?thesis
    proof cases
      case 1
      have "cell_ok a 1 0 (tl_heap st)" using heap_okD [OF heap, of a] 1 by simp
      moreover have "decStrong a (tl_heap st) = Inr rh" using rh(1) True by (simp add: sp_delete_def)
      ultimately have "\<not> rh_base rh a" by (rule decStrong_last)
      with True 1 show ?thesis by (simp add: looper_after_def)
    next
      case 2
      then have "rh_base rh a" using heap_okD [OF rh(2), of a] True
        by (auto simp: cell_ok_def impl_ok_def split: option.splits)
      with True 2 live [of a] show ?thesis by (simp add: looper_after_def)
    qed
  next
    case False
    then show ?thesis using live [of a] by (cases p) (auto simp: looper_after_def)
  qed
  ultimately have "loopers_ok held (looper_after p rh st)"
    using ok rh(2) by (simp add: loopers_ok_def eq)
  with rh(1) show ?thesis by blast
qed

section \<open>The slots\<close>

lemma slot_pos: "loopers_ok held st \<Longrightarrow> slot_of st t = Some a \<Longrightarrow> 0 < refs held st a"
proof -
  assume "loopers_ok held st" and slot: "slot_of st t = Some a"
  then have fin: "finite (slots st)" by (simp add: loopers_ok_def)
  have "{u. slot_of st u = Some a} \<subseteq> slots st" by (auto simp: slots_def)
  then have "finite {u. slot_of st u = Some a}" using fin by (rule finite_subset)
  moreover have "t \<in> {u. slot_of st u = Some a}" using slot by simp
  ultimately have "0 < card {u. slot_of st u = Some a}" using card_gt_0_iff by blast
  then show ?thesis by (simp add: refs_def)
qed

lemma once_ok:
  assumes ok: "loopers_ok held st"
  shows "loopers_ok held (pthread_once_init st) \<and> slot_of (pthread_once_init st) = slot_of st \<and> gTLSOnce (pthread_once_init st)"
proof (cases "gTLSOnce st")
  case True
  with ok show ?thesis by (simp add: pthread_once_init_def)
next
  case False
  obtain key where key: "tl_create st = Some key" using ok by (auto simp: loopers_ok_def)
  let ?st = "pthread_once_init st"
  have st: "?st = st\<lparr>gTLSOnce := True, gTLSKey := key, tl_keys := key # tl_keys st, tl_specific := (tl_specific st)(key := (\<lambda>_. None))\<rparr>"
    using False key by (simp add: pthread_once_init_def initTLSKey_def)
  have slot: "slot_of ?st = slot_of st" using False by (simp add: st slot_of_def pthread_getspecific_def fun_eq_iff)
  have "tl_create ?st = tl_create st" "gTLSKey ?st \<in> set (tl_keys ?st)" "tl_heap ?st = tl_heap st" "tl_loopers ?st = tl_loopers st"
    and once: "gTLSOnce ?st" by (simp_all add: st)
  then have "loopers_ok held ?st"
    using ok refs_cong [OF slot, of held] slots_cong [OF slot] by (simp add: loopers_ok_def)
  with slot once show ?thesis by blast
qed

text \<open>\<open>getForThread\<close> gives what the slot holds, with a reference of its own.\<close>

lemma getForThread_ok:
  assumes ok: "loopers_ok held st" and r: "room 1 held st"
  shows "\<exists>st'. getForThread t st = Inr (slot_of st t, st') \<and> loopers_ok (slot_of st t # held) st' \<and>
    slot_of st' = slot_of st \<and> gTLSOnce st'"
proof -
  let ?st = "pthread_once_init st" and ?p = "slot_of st t"
  have o': "loopers_ok held ?st" "slot_of ?st = slot_of st" "gTLSOnce ?st" using once_ok [OF ok] by simp_all
  have "room 1 held ?st" using r by (simp add: room_def slots_cong [OF o'(2)])
  moreover have "0 < refs held ?st a" if "?p = Some a" for a
    using slot_pos [OF o'(1), of t a] that o'(2) by simp
  ultimately obtain rh where rh: "sp_new ?p (tl_heap ?st) = Inr (?p, rh)" "loopers_ok (?p # held) (?st\<lparr>tl_heap := rh\<rparr>)"
    using take_reference [OF o'(1), of ?p] by blast
  have "pthread_getspecific (gTLSKey ?st) t ?st = ?p" using o'(2,3) by (simp add: slot_of_def fun_eq_iff)
  with rh(1) have "getForThread t st = Inr (?p, ?st\<lparr>tl_heap := rh\<rparr>)" by (simp add: getForThread_def Let_def)
  with rh(2) o' show ?thesis by auto
qed

text \<open>Storing a counted pointer in the slot: the pointer it held before is to be given back instead.\<close>

lemma set_slot_of: 
  assumes "gTLSOnce st" and "gTLSKey st \<in> set (tl_keys st)"
  shows "slot_of (pthread_setspecific (gTLSKey st) t p st) = (slot_of st)(t := p)"
  using assms by (auto simp: slot_of_def pthread_setspecific_def pthread_getspecific_def fun_eq_iff)

lemma set_slot_refs:
  assumes fin: "finite (slots st)" and slot: "slot_of st' = (slot_of st)(t := p)"
  shows "refs (slot_of st t # held) st' = refs (p # held) st"
proof
  fix a
  let ?T = "{u. slot_of st u = Some a}"
  have fin': "finite ?T" by (rule finite_subset [OF _ fin]) (auto simp: slots_def)
  have set: "{u. slot_of st' u = Some a} = (if p = Some a then insert t (?T - {t}) else ?T - {t})"
    by (auto simp: slot)
  have card: "card ?T = card (?T - {t}) + of_bool (slot_of st t = Some a)"
    using fin' card.remove [OF fin', of t] by (cases "slot_of st t = Some a") auto
  have "card {u. slot_of st' u = Some a} = card (?T - {t}) + of_bool (p = Some a)"
    using fin' card_insert_disjoint [of "?T - {t}" t] by (simp add: set del: insert_Diff_single)
  then show "refs (slot_of st t # held) st' a = refs (p # held) st a" by (simp add: refs_def card del: card_Diff_insert)
qed

lemma set_slot_ok:
  assumes ok: "loopers_ok (p # held) st" and once: "gTLSOnce st"
  shows "loopers_ok (slot_of st t # held) (pthread_setspecific (gTLSKey st) t p st)"
proof -
  let ?st = "pthread_setspecific (gTLSKey st) t p st"
  have key: "gTLSKey st \<in> set (tl_keys st)" and fin: "finite (slots st)" using ok once by (auto simp: loopers_ok_def)
  note slot = set_slot_of [OF once key, of t p]
  have "slots ?st \<subseteq> insert t (slots st)" unfolding slots_def slot by auto
  then have "finite (slots ?st)" using fin by (auto intro: finite_subset)
  moreover have "tl_create ?st = tl_create st" "gTLSOnce ?st = gTLSOnce st" "gTLSKey ?st = gTLSKey st" "tl_keys ?st = tl_keys st" "tl_heap ?st = tl_heap st"
    "tl_loopers ?st = tl_loopers st" by (simp_all add: pthread_setspecific_def)
  ultimately show ?thesis
    using ok unfolding loopers_ok_def set_slot_refs [OF fin slot] by simp
qed

section \<open>The operations\<close>

lemma setForThread_ok:
  assumes ok: "loopers_ok held st" and p: "\<And>a. looper = Some a \<Longrightarrow> 0 < refs held st a" and r: "room 2 held st"
  shows "\<exists>st'. setForThread t looper st = Inr st' \<and> loopers_ok held st' \<and> slot_of st' = (slot_of st)(t := looper)"
proof -
  let ?old = "slot_of st t"
  have "room 1 held st" using r by (simp add: room_def)
  then obtain st1 where 1: "getForThread t st = Inr (?old, st1)" "loopers_ok (?old # held) st1" "slot_of st1 = slot_of st" "gTLSOnce st1"
    using getForThread_ok [OF ok] by blast
  have "room 1 (?old # held) st1" using r by (simp add: room_def slots_cong [OF 1(3)])
  moreover have "0 < refs (?old # held) st1 a" if "looper = Some a" for a
    using p [OF that] by (cases ?old) (auto simp: refs_Cons refs_cong [OF 1(3)])
  ultimately obtain rh where 2: "sp_new looper (tl_heap st1) = Inr (looper, rh)"
    "loopers_ok (looper # ?old # held) (st1\<lparr>tl_heap := rh\<rparr>)" using take_reference [OF 1(2)] by blast
  have inc: "(case looper of None \<Rightarrow> Inr (tl_heap st1) | Some a \<Rightarrow> incStrong a (tl_heap st1)) = Inr rh"
    using 2(1) by (cases looper) (auto simp: sp_new_def bindE_Inr_iff)
  let ?st2 = "st1\<lparr>tl_heap := rh\<rparr>" and ?st3 = "pthread_setspecific (gTLSKey st1) t looper (st1\<lparr>tl_heap := rh\<rparr>)"
  have 3: "loopers_ok (?old # ?old # held) ?st3" "slot_of ?st3 = (slot_of st)(t := looper)"
    using set_slot_ok [OF 2(2), of t] set_slot_of [of ?st2 t looper] 1(3,4) 2(2) by (simp_all add: loopers_ok_def)
  obtain rh4 where 4: "sp_delete ?old (tl_heap ?st3) = Inr rh4" "loopers_ok (?old # held) (looper_after ?old rh4 ?st3)"
    using drop_reference [OF 3(1)] by blast
  obtain rh5 where 5: "sp_delete ?old rh4 = Inr rh5" "loopers_ok held (looper_after ?old rh5 (looper_after ?old rh4 ?st3))"
    using drop_reference [OF 4(2)] by auto
  have "Looper_threadDestructor ?old ?st3 = Inr (looper_after ?old rh4 ?st3)"
    using 4(1) by (cases ?old) (auto simp: Looper_threadDestructor_def sp_delete_def looper_after_def)
  then have "setForThread t looper st = Inr (looper_after ?old rh5 (looper_after ?old rh4 ?st3))"
    using 1(1) inc 5(1) by (simp add: setForThread_def Let_def)
  with 5(2) 3(2) show ?thesis by simp
qed

lemma Looper_new_ok: "\<exists>lp. Looper_new b epoll fds mallocs = Inr lp \<and> mAllowNonCallbacks lp = b"
proof -
  obtain fd st where st: "new_fd (Looper_init b epoll fds mallocs) = (fd, st)" by fastforce
  obtain fd' st' where st': "new_fd (st\<lparr>mWakeEventFd := fd, mLock := True\<rparr>) = (fd', st')" by fastforce
  have parts: "mLock st = False" "mRequests st = Vector_new request_type" "mAllowNonCallbacks st = b" "mEpollFd st = - 1"
    using st by (auto simp: new_fd_def Looper_init_def split: list.splits)
  have zero: "mCount (Vector_new request_type) = 0" by (simp add: Vector_new_def VectorImpl_new_def)
  have parts': "mRequests st' = Vector_new request_type" "mAllowNonCallbacks st' = b"
    using st' parts by (auto simp: new_fd_def split: list.splits)
  show ?thesis
    by (simp add: Looper_new_def st lp_lock_def parts rebuildEpollLocked_def st' parts' zero lp_note_def lp_unlock_def)
qed

lemma new_looper_ok:
  assumes ok: "loopers_ok held st"
  shows "\<exists>a st1 rh. new_looper b st = Inr (a, st1) \<and> sp_assign None (Some a) (tl_heap st1) = Inr (Some a, rh) \<and>
    loopers_ok (Some a # held) (st1\<lparr>tl_heap := rh\<rparr>) \<and> slot_of (st1\<lparr>tl_heap := rh\<rparr>) = slot_of st \<and>
    slots (st1\<lparr>tl_heap := rh\<rparr>) = slots st"
proof -
  let ?S = "refs held st"
  have heap: "heap_ok ?S (\<lambda>_. 0) (tl_heap st)" and fin: "finite (slots st)" and live: "\<And>a. tl_loopers st a \<noteq> None \<longleftrightarrow> 0 < ?S a"
    using ok unfolding loopers_ok_def by blast+
  obtain a rh1 where new: "RefBase_new (tl_heap st) = (a, rh1)" by fastforce
  note n = RefBase_new_ok [OF heap new]
  obtain epoll fds mallocs where sys: "tl_system st a = (epoll, fds, mallocs)" by (cases "tl_system st a")
  obtain lp where lp: "Looper_new b epoll fds mallocs = Inr lp" using Looper_new_ok by blast
  let ?st1 = "st\<lparr>tl_heap := rh1, tl_loopers := (tl_loopers st)(a \<mapsto> lp)\<rparr>"
  have run: "new_looper b st = Inr (a, ?st1)" by (simp add: new_looper_def new sys lp)
  obtain rh2 where 2: "sp_assign None (Some a) rh1 = Inr (Some a, rh2)" "heap_ok (?S(a := 1)) (\<lambda>_. 0) rh2"
    using sp_assign_ok [OF n(1), of None "Some a"] n by auto
  let ?st2 = "?st1\<lparr>tl_heap := rh2\<rparr>"
  have slot: "slot_of ?st2 = slot_of st" by (simp add: slot_of_def pthread_getspecific_def fun_eq_iff)
  have eq: "refs (Some a # held) ?st2 = ?S(a := 1)"
    unfolding refs_Cons refs_cong [OF slot] using n(3) by simp
  have "loopers_ok (Some a # held) ?st2"
    using ok 2(2) live unfolding loopers_ok_def eq slots_cong [OF slot] by simp
  with run 2(1) slot slots_cong [OF slot] show ?thesis
    by (intro exI [of _ a] exI [of _ ?st1] exI [of _ rh2]) simp
qed

lemma prepare_ok:
  assumes ok: "loopers_ok held st" and r: "room 3 held st"
  shows "\<exists>a st'. Looper_prepare t opts st = Inr (Some a, st') \<and> loopers_ok (Some a # held) st' \<and>
    slot_of st' = (slot_of st)(t := Some a) \<and> (slot_of st t \<noteq> None \<longrightarrow> slot_of st t = Some a)"
proof -
  have "room 1 held st" using r by (simp add: room_def)
  then obtain st1 where 1: "getForThread t st = Inr (slot_of st t, st1)" "loopers_ok (slot_of st t # held) st1"
    "slot_of st1 = slot_of st" using getForThread_ok [OF ok] by blast
  have flag: "\<exists>b. getAllowNonCallbacks a st' = Inr b" if "loopers_ok (Some a # held) st'" for a st'
  proof -
    have "0 < refs (Some a # held) st' a" by (simp add: refs_Cons)
    then have "tl_loopers st' a \<noteq> None" using that unfolding loopers_ok_def by blast
    then show ?thesis by (auto simp: getAllowNonCallbacks_def)
  qed
  show ?thesis
  proof (cases "slot_of st t")
    case (Some a)
    then have "slot_of st = (slot_of st)(t := Some a)" by (metis fun_upd_triv)
    moreover obtain b where "getAllowNonCallbacks a st1 = Inr b" using flag [of a st1] 1(2) Some by auto
    then have "Looper_prepare t opts st = Inr (Some a, st1)" using 1(1) Some by (simp add: Looper_prepare_def Let_def)
    ultimately show ?thesis using 1(2,3) Some by (intro exI [of _ a] exI [of _ st1]) simp
  next
    case None
    have ok1: "loopers_ok held st1" using 1(2) loopers_ok_count [of "None # held" held st1] None by simp
    obtain a st2 rh where 2: "new_looper (odd opts) st1 = Inr (a, st2)" "sp_assign None (Some a) (tl_heap st2) = Inr (Some a, rh)"
      "loopers_ok (Some a # held) (st2\<lparr>tl_heap := rh\<rparr>)" "slot_of (st2\<lparr>tl_heap := rh\<rparr>) = slot_of st1"
      "slots (st2\<lparr>tl_heap := rh\<rparr>) = slots st1" using new_looper_ok [OF ok1] by blast
    have "room 2 (Some a # held) (st2\<lparr>tl_heap := rh\<rparr>)" using r 2(5) by (simp add: room_def slots_cong [OF 1(3)])
    then obtain st3 where 3: "setForThread t (Some a) (st2\<lparr>tl_heap := rh\<rparr>) = Inr st3" "loopers_ok (Some a # held) st3"
      "slot_of st3 = (slot_of (st2\<lparr>tl_heap := rh\<rparr>))(t := Some a)"
      using setForThread_ok [OF 2(3), of "Some a" t] by (auto simp: refs_def)
    with None 1 2 flag [of a st3] show ?thesis by (auto simp: Looper_prepare_def Let_def)
  qed
qed

lemma thread_exit_ok:
  assumes ok: "loopers_ok held st"
  shows "\<exists>st'. thread_exit t st = Inr st' \<and> loopers_ok held st' \<and> slot_of st' = (slot_of st)(t := None)"
proof (cases "gTLSOnce st")
  case False
  with ok show ?thesis by (auto simp: thread_exit_def Let_def slot_of_def fun_eq_iff)
next
  case True
  let ?v = "slot_of st t" and ?st = "pthread_setspecific (gTLSKey st) t None st"
  have v: "pthread_getspecific (gTLSKey st) t st = ?v" and key: "gTLSKey st \<in> set (tl_keys st)" "tl_create st \<noteq> None"
    using True ok by (simp_all add: slot_of_def loopers_ok_def)
  have "loopers_ok (None # held) st" using ok loopers_ok_count [of "None # held" held st] by simp
  from set_slot_ok [OF this True] have "loopers_ok (?v # held) ?st" .
  from drop_reference [OF this] obtain rh where rh: "sp_delete ?v (tl_heap ?st) = Inr rh" "loopers_ok held (looper_after ?v rh ?st)"
    by blast
  have "Looper_threadDestructor ?v ?st = Inr (looper_after ?v rh ?st)"
    using rh(1) by (cases ?v) (auto simp: Looper_threadDestructor_def sp_delete_def looper_after_def)
  with v True key rh(2) set_slot_of [OF True key(1), of t None] show ?thesis
    by (simp add: thread_exit_def Let_def)
qed

section \<open>Programs\<close>

text \<open>The indices of the pointers that are named are those of pointers the program holds.\<close>

fun use_ok :: "looper_use \<Rightarrow> nat \<Rightarrow> bool" where
  "use_ok (SetFor t i) n = (i < n)"
| "use_ok (Drop i) n = (i < n)"
| "use_ok _ n = True"

fun held_after :: "looper_use \<Rightarrow> nat \<Rightarrow> nat" where
  "held_after (Prepare t opts) n = Suc n"
| "held_after (GetFor t) n = Suc n"
| "held_after (Drop i) n = n - 1"
| "held_after _ n = n"

fun uses_ok :: "looper_use list \<Rightarrow> nat \<Rightarrow> bool" where
  "uses_ok [] n = True"
| "uses_ok (u # us) n = (use_ok u n \<and> uses_ok us (held_after u n))"

lemma count_take_drop: "i < length xs \<Longrightarrow> count_list (xs ! i # take i xs @ drop (Suc i) xs) a = count_list xs a"
  by (subst (4) id_take_nth_drop [of i xs]) (auto simp: count_list_append)

lemma slots_update: "finite (slots st) \<Longrightarrow> slot_of st' = (slot_of st)(t := p) \<Longrightarrow> card (slots st') \<le> Suc (card (slots st))"
proof -
  assume fin: "finite (slots st)" and slot: "slot_of st' = (slot_of st)(t := p)"
  have "slots st' \<subseteq> insert t (slots st)" by (auto simp: slots_def slot)
  then have "card (slots st') \<le> card (insert t (slots st))" using fin by (intro card_mono) auto
  also have "\<dots> \<le> Suc (card (slots st))" by (rule card_insert_le_m1) auto
  finally show ?thesis .
qed

text \<open>What a use does to the slots.\<close>

definition slot_effect :: "looper_use \<Rightarrow> (nat \<Rightarrow> nat option) \<Rightarrow> (nat \<Rightarrow> nat option) \<Rightarrow> bool" where
  "slot_effect u f g \<longleftrightarrow>
     (case u of
        Prepare t opts \<Rightarrow> \<exists>a. g = f(t := Some a) \<and> (f t \<noteq> None \<longrightarrow> f t = Some a)
      | SetFor t i \<Rightarrow> \<exists>p. g = f(t := p)
      | ThreadEnds t \<Rightarrow> g = f(t := None)
      | _ \<Rightarrow> g = f)"

lemma use_step:
  assumes ok: "loopers_ok held st" and use: "use_ok u (length held)" and r: "room 3 held st"
  shows "\<exists>held' st'. use_looper u (held, st) = Inr (held', st') \<and> loopers_ok held' st' \<and> length held' = held_after u (length held) \<and>
    slot_effect u (slot_of st) (slot_of st')"
proof (cases u)
  case (Prepare t opts)
  with prepare_ok [OF ok r, of t opts] show ?thesis by (auto simp: slot_effect_def)
next
  case (GetFor t)
  have "room 1 held st" using r by (simp add: room_def)
  from getForThread_ok [OF ok this, of t] GetFor show ?thesis by (auto simp: slot_effect_def)
next
  case (SetFor t i)
  have "room 2 held st" using r by (simp add: room_def)
  moreover have "0 < refs held st a" if "held ! i = Some a" for a
  proof -
    have "Some a \<in> set held" using that use SetFor nth_mem [of i held] by simp
    then have "0 < count_list held (Some a)" using count_list_0_iff [of held "Some a"] by linarith
    then show ?thesis by (simp add: refs_def)
  qed
  ultimately obtain st' where "setForThread t (held ! i) st = Inr st'" "loopers_ok held st'" "slot_of st' = (slot_of st)(t := held ! i)"
    using setForThread_ok [OF ok, of "held ! i" t] by blast
  with SetFor use show ?thesis by (auto simp: slot_effect_def)
next
  case (Drop i)
  with use have i: "i < length held" by simp
  have "loopers_ok (held ! i # take i held @ drop (Suc i) held) st"
    using ok loopers_ok_count count_take_drop [OF i] by blast
  from drop_reference [OF this] obtain rh where "sp_delete (held ! i) (tl_heap st) = Inr rh"
    "loopers_ok (take i held @ drop (Suc i) held) (looper_after (held ! i) rh st)" by blast
  with Drop i show ?thesis by (auto simp: slot_effect_def)
next
  case (ThreadEnds t)
  with thread_exit_ok [OF ok, of t] show ?thesis by (auto simp: slot_effect_def)
qed

lemma slot_effect_card:
  assumes "slot_effect u (slot_of st) (slot_of st')" and fin: "finite (slots st)"
  shows "card (slots st') \<le> Suc (card (slots st))"
proof (cases "slot_of st' = slot_of st")
  case True
  then show ?thesis by (simp add: slots_def)
next
  case False
  with assms(1) obtain t p where "slot_of st' = (slot_of st)(t := p)"
    by (cases u) (auto simp: slot_effect_def)
  with slots_update [OF fin] show ?thesis by blast
qed

lemma held_after_le: "held_after u n \<le> Suc n"
  by (cases u) auto

lemma use_all_ok:
  assumes ok: "loopers_ok held st" and use: "uses_ok us (length held)" and r: "room (2 * length us + 1) held st"
  shows "\<exists>held' st'. use_all us (held, st) = Inr (held', st') \<and> loopers_ok held' st' \<and>
    (\<forall>t a. slot_of st t = Some a \<and> (\<forall>u\<in>set us. u \<noteq> ThreadEnds t \<and> (\<forall>i. u \<noteq> SetFor t i)) \<longrightarrow> slot_of st' t = Some a) \<and>
    length held' + card (slots st') \<le> length held + card (slots st) + 2 * length us"
  using assms
proof (induction us arbitrary: held st)
  case Nil
  then show ?case by auto
next
  case (Cons u us)
  have "room 3 held st" using Cons.prems(3) by (simp add: room_def)
  with Cons.prems(1,2) obtain held1 st1 where 1: "use_looper u (held, st) = Inr (held1, st1)" "loopers_ok held1 st1"
    "length held1 = held_after u (length held)" "slot_effect u (slot_of st) (slot_of st1)" using use_step by fastforce
  have fin: "finite (slots st)" using Cons.prems(1) by (simp add: loopers_ok_def)
  have size: "length held1 + card (slots st1) \<le> length held + card (slots st) + 2"
    using slot_effect_card [OF 1(4) fin] held_after_le [of u "length held"] 1(3) by linarith
  have "room (2 * length us + 1) held1 st1" using Cons.prems(3) size by (simp add: room_def)
  then obtain held2 st2 where 2: "use_all us (held1, st1) = Inr (held2, st2)" "loopers_ok held2 st2"
    "\<forall>t a. slot_of st1 t = Some a \<and> (\<forall>u\<in>set us. u \<noteq> ThreadEnds t \<and> (\<forall>i. u \<noteq> SetFor t i)) \<longrightarrow> slot_of st2 t = Some a"
    "length held2 + card (slots st2) \<le> length held1 + card (slots st1) + 2 * length us"
    using Cons.IH [OF 1(2)] Cons.prems(2) 1(3) by auto
  have stay: "slot_of st1 t = Some a" if "slot_of st t = Some a" "u \<noteq> ThreadEnds t" "\<forall>i. u \<noteq> SetFor t i" for t a
    using 1(4) that by (cases u) (auto simp: slot_effect_def)
  have "use_all (u # us) (held, st) = Inr (held2, st2)" using 1(1) 2(1) by simp
  moreover have "slot_of st2 t = Some a"
    if "slot_of st t = Some a" "\<forall>v\<in>set (u # us). v \<noteq> ThreadEnds t \<and> (\<forall>i. v \<noteq> SetFor t i)" for t a
    using 2(3) stay [OF that(1)] that(2) by simp
  ultimately show ?case using 2(2,4) size by (intro exI [of _ held2] exI [of _ st2]) auto
qed

text \<open>A program that has made no looper yet.\<close>

definition new_program :: "loopers \<Rightarrow> bool" where
  "new_program st \<longleftrightarrow> \<not> gTLSOnce st \<and> tl_create st \<noteq> None \<and> (\<forall>a. tl_loopers st a = None) \<and>
     heap_ok (\<lambda>_. 0) (\<lambda>_. 0) (tl_heap st)"

lemma new_program_ok: "new_program st \<Longrightarrow> loopers_ok [] st" "new_program st \<Longrightarrow> slots st = {}"
proof -
  assume new: "new_program st"
  then have "slot_of st = (\<lambda>_. None)" by (simp add: new_program_def slot_of_def fun_eq_iff)
  then have "refs [] st = (\<lambda>_. 0)" and none: "slots st = {}" by (simp_all add: refs_def slots_def fun_eq_iff)
  with new show "loopers_ok [] st" by (simp add: new_program_def loopers_ok_def)
  show "slots st = {}" by (rule none)
qed

text \<open>C16: the references of a looper. In a program that starts with no looper and for which \<open>pthread_key_create\<close> succeeds, however it makes,
  looks up, sets and drops the loopers of its threads, and whichever threads end, as long as these are fewer than 2^27 operations, each on a pointer the program holds: nothing
  that was freed is accessed; a looper exists exactly as long as a pointer to it is held or it is the looper of a thread, and its
  strong count is the number of those. (When the key cannot be made, which the code only logs, each \<open>prepare\<close> makes one more looper that is
  never freed.)\<close>

theorem looper_references_counted:
  assumes new: "new_program st" and use: "uses_ok us 0" and few: "2 * length us + 1 < 268435456"
  shows "\<exists>held st'. use_all us ([], st) = Inr (held, st') \<and>
    (\<forall>a. tl_loopers st' a \<noteq> None \<longleftrightarrow> Some a \<in> set held \<or> (\<exists>t. slot_of st' t = Some a)) \<and>
    (\<forall>a. tl_loopers st' a \<noteq> None \<longrightarrow> rh_base (tl_heap st') a \<and>
      map_option mStrong (rh_impl (tl_heap st') a) = Some (int (count_list held (Some a) + card {t. slot_of st' t = Some a})))"
proof -
  obtain held st' where run: "use_all us ([], st) = Inr (held, st')" and ok: "loopers_ok held st'"
    using use_all_ok [OF new_program_ok(1) [OF new], of us] use few new_program_ok(2) [OF new] by (auto simp: room_def)
  have exists: "tl_loopers st' a \<noteq> None \<longleftrightarrow> 0 < refs held st' a" for a using ok unfolding loopers_ok_def by blast
  have heap: "heap_ok (refs held st') (\<lambda>_. 0) (tl_heap st')" using ok unfolding loopers_ok_def by blast
  have "0 < refs held st' a \<longleftrightarrow> Some a \<in> set held \<or> (\<exists>t. slot_of st' t = Some a)" for a
  proof
    assume "0 < refs held st' a"
    then consider "count_list held (Some a) \<noteq> 0" | "card {t. slot_of st' t = Some a} \<noteq> 0" by (auto simp: refs_def)
    then show "Some a \<in> set held \<or> (\<exists>t. slot_of st' t = Some a)"
      by cases (simp_all add: count_list_0_iff card_eq_0_iff ex_in_conv [symmetric] del: card_0_eq)
  next
    assume "Some a \<in> set held \<or> (\<exists>t. slot_of st' t = Some a)"
    then show "0 < refs held st' a"
    proof
      assume "Some a \<in> set held"
      then have "count_list held (Some a) \<noteq> 0" by (simp add: count_list_0_iff)
      then show ?thesis by (simp add: refs_def)
    next
      assume "\<exists>t. slot_of st' t = Some a"
      then show ?thesis using slot_pos [OF ok] by blast
    qed
  qed
  moreover have "rh_base (tl_heap st') a \<and> map_option mStrong (rh_impl (tl_heap st') a) = Some (int (refs held st' a))"
    if "0 < refs held st' a" for a
    using heap_okD [OF heap, of a] that by (auto simp: cell_ok_def impl_ok_def split: option.splits)
  ultimately show ?thesis using run exists by (intro exI [of _ held] exI [of _ st']) (simp add: refs_def)
qed

definition demo_loopers :: loopers where
  "demo_loopers = \<lparr>tl_heap = \<lparr>rh_base = (\<lambda>_. False), rh_impl = (\<lambda>_. None), rh_next = 0, rh_trace = []\<rparr>,
     tl_loopers = (\<lambda>_. None), gTLSOnce = False, gTLSKey = 0, tl_create = Some 2, tl_keys = [0, 1],
     tl_specific = (\<lambda>_ _. None), tl_system = (\<lambda>_. ([], [3, 4], [True]))\<rparr>"

lemma demo_new: "new_program demo_loopers"
  by (simp add: new_program_def demo_loopers_def heap_ok_def cell_ok_def deleted_once_def)

lemma looper_references_counted_witness:
  "\<exists>held st'. use_all [Prepare 1 0, Prepare 2 1, SetFor 1 0, Drop 0, ThreadEnds 2, GetFor 1] ([], demo_loopers) = Inr (held, st') \<and>
    (\<forall>a. tl_loopers st' a \<noteq> None \<longleftrightarrow> Some a \<in> set held \<or> (\<exists>t. slot_of st' t = Some a))"
  using looper_references_counted [OF demo_new, of "[Prepare 1 0, Prepare 2 1, SetFor 1 0, Drop 0, ThreadEnds 2, GetFor 1]"]
  by (fastforce simp del: use_all.simps use_looper.simps)

text \<open>The number of pointers held.\<close>

lemma use_all_held:
  assumes "loopers_ok held st" and "uses_ok us (length held)" and "room (2 * length us + 1) held st"
    and run: "use_all us (held, st) = Inr (held', st')"
  shows "loopers_ok held' st'" "length held' + card (slots st') \<le> length held + card (slots st) + 2 * length us"
    "\<forall>t a. slot_of st t = Some a \<and> (\<forall>u\<in>set us. u \<noteq> ThreadEnds t \<and> (\<forall>i. u \<noteq> SetFor t i)) \<longrightarrow> slot_of st' t = Some a"
proof -
  obtain h2 s2 where 2: "use_all us (held, st) = Inr (h2, s2)" "loopers_ok h2 s2"
    "length h2 + card (slots s2) \<le> length held + card (slots st) + 2 * length us"
    "\<forall>t a. slot_of st t = Some a \<and> (\<forall>u\<in>set us. u \<noteq> ThreadEnds t \<and> (\<forall>i. u \<noteq> SetFor t i)) \<longrightarrow> slot_of s2 t = Some a"
    using use_all_ok [OF assms(1,2,3)] by blast
  then have eq: "h2 = held'" "s2 = st'" using run by simp_all
  show "loopers_ok held' st'" "length held' + card (slots st') \<le> length held + card (slots st) + 2 * length us"
    "\<forall>t a. slot_of st t = Some a \<and> (\<forall>u\<in>set us. u \<noteq> ThreadEnds t \<and> (\<forall>i. u \<noteq> SetFor t i)) \<longrightarrow> slot_of st' t = Some a"
    using 2(2,3,4) unfolding eq by simp_all
qed

text \<open>One looper for a thread. The looper that \<open>prepare\<close> gives a thread is given again by every later \<open>prepare\<close> and \<open>getForThread\<close> of
  the thread, whatever the options, and whatever all threads do in between, until the thread ends or another
  looper is set for it; it exists for that long even if all pointers to it are dropped.\<close>

theorem thread_keeps_looper:
  assumes new: "new_program st" and run: "use_all us ([], st) = Inr (held, st1)" "Looper_prepare t opts st1 = Inr (p, st2)"
      "use_all vs (p # held, st2) = Inr (held', st3)"
    and use: "uses_ok us 0" "uses_ok vs (Suc (length held))"
    and stay: "\<forall>u\<in>set vs. u \<noteq> ThreadEnds t \<and> (\<forall>i. u \<noteq> SetFor t i)"
    and few: "2 * length us + 2 * length vs + 6 < 268435456"
  shows "\<exists>a. p = Some a \<and> tl_loopers st3 a \<noteq> None \<and> (\<exists>st4. getForThread t st3 = Inr (Some a, st4)) \<and>
    (\<forall>opts'. \<exists>st4. Looper_prepare t opts' st3 = Inr (Some a, st4))"
proof -
  note n = new_program_ok [OF new]
  have "room (2 * length us + 1) [] st" "uses_ok us (length ([] :: nat option list))" using few use(1) n(2) by (simp_all add: room_def)
  from use_all_held [OF n(1) this(2,1) run(1)]
  have 1: "loopers_ok held st1" "length held + card (slots st1) \<le> 2 * length us" using n(2) by simp_all
  have "room 3 held st1" using 1(2) few by (simp add: room_def)
  from prepare_ok [OF 1(1) this, of t opts] run(2) obtain a where p: "p = Some a" and 2: "loopers_ok (Some a # held) st2"
    "slot_of st2 = (slot_of st1)(t := Some a)" by auto
  have card: "card (slots st2) \<le> Suc (card (slots st1))" using 1(1) 2(2) by (intro slots_update) (auto simp: loopers_ok_def)
  have "room (2 * length vs + 1) (Some a # held) st2" using card 1(2) few by (simp add: room_def)
  note 3 = use_all_held [OF 2(1) _ this run(3) [unfolded p], simplified, OF use(2)]
  have slot: "slot_of st3 t = Some a" using 3(3) 2(2) stay by simp
  have "length held' + card (slots st3) \<le> 2 * length us + 2 + 2 * length vs" using 3(2) card 1(2) by simp
  then have room: "room 1 held' st3" "room 3 held' st3" using few by (simp_all add: room_def)
  have "tl_loopers st3 a \<noteq> None" using slot_pos [OF 3(1) slot] 3(1) unfolding loopers_ok_def by blast
  moreover obtain st4 where "getForThread t st3 = Inr (Some a, st4)" using getForThread_ok [OF 3(1) room(1), of t] slot by auto
  moreover have "\<exists>st4. Looper_prepare t opts' st3 = Inr (Some a, st4)" for opts'
    using prepare_ok [OF 3(1) room(2), of t opts'] slot by auto
  ultimately show ?thesis using p by blast
qed

lemma thread_keeps_looper_witness:
  "\<exists>p st2 held st3. Looper_prepare 1 0 demo_loopers = Inr (p, st2) \<and> use_all [Drop 0, Prepare 2 0] ([p], st2) = Inr (held, st3) \<and>
    (\<exists>st4. Looper_prepare 1 1 st3 = Inr (p, st4))"
proof -
  note n = new_program_ok [OF demo_new]
  have "room 3 [] demo_loopers" using n(2) by (simp add: room_def)
  then obtain a st2 where 1: "Looper_prepare 1 0 demo_loopers = Inr (Some a, st2)" "loopers_ok [Some a] st2"
    "slot_of st2 = (slot_of demo_loopers)(1 := Some a)" using prepare_ok [OF n(1)] by blast
  have "card (slots st2) \<le> 1" using slots_update [OF _ 1(3)] n(2) by simp
  then have "room (2 * length [Drop 0, Prepare 2 0] + 1) [Some a] st2" by (simp add: room_def)
  then obtain held st3 where 2: "use_all [Drop 0, Prepare 2 0] ([Some a], st2) = Inr (held, st3)"
    using use_all_ok [OF 1(2), of "[Drop 0, Prepare 2 0]"] by (fastforce simp del: use_all.simps use_looper.simps)
  have "use_all [] ([], demo_loopers) = Inr ([], demo_loopers)" by simp
  from thread_keeps_looper [OF demo_new this 1(1) 2] 1(1) 2 show ?thesis
    by (fastforce simp del: use_all.simps use_looper.simps)
qed

end
