(* ===== verification/Log_Client.thy ===== *)
theory Log_Client
  imports Logger_Device
begin

text \<open>
  \<open>liblog/log.cpp\<close>: a message is the priority, the tag and the text, written with one \<open>writev\<close> to the descriptor of its log. The
  descriptors are opened by the first message. The calls of the system are a record of functions on a state of their own, which is that
  of the log driver in \<open>Log_Client_Props\<close>. Strings are their characters up to the zero.
\<close>

abbreviation (input) LOG_ID_MAIN :: int where "LOG_ID_MAIN \<equiv> 0"
abbreviation (input) LOG_ID_RADIO :: int where "LOG_ID_RADIO \<equiv> 1"
abbreviation (input) LOG_ID_EVENTS :: int where "LOG_ID_EVENTS \<equiv> 2"
abbreviation (input) LOG_ID_SYSTEM :: int where "LOG_ID_SYSTEM \<equiv> 3"
abbreviation (input) DROID_LOG_WARN :: int where "DROID_LOG_WARN \<equiv> 5"
abbreviation (input) LOGGER_MAX_LENGTH :: nat where "LOGGER_MAX_LENGTH \<equiv> 4096"

section \<open>The system\<close>

record 'd log_kernel =
  k_open :: "string \<Rightarrow> 'd \<Rightarrow> (int \<times> 'd) chk"
  k_close :: "int \<Rightarrow> 'd \<Rightarrow> 'd chk"
  k_writev :: "int \<Rightarrow> u8 list list \<Rightarrow> 'd \<Rightarrow> (int \<times> 'd) chk"

text \<open>\<open>lc_ready\<close> says that \<open>write_to_log\<close> points to \<open>__write_to_log\<close>, no longer to \<open>write_to_log_init\<close>.\<close>

record 'd log_client =
  lc_ready :: bool
  logFd :: "int list"
  lc_system :: 'd

section \<open>Writing\<close>

definition log_write_direct :: "'d log_kernel \<Rightarrow> int \<Rightarrow> u8 list list \<Rightarrow> 'd log_client \<Rightarrow> (int \<times> 'd log_client) chk" where
  "log_write_direct k logId vec st =
     (if logId < 0 \<or> int (length (logFd st)) \<le> logId then Inl OutOfBounds
      else
        bindE (k_writev k (logFd st ! nat logId) vec (lc_system st)) (\<lambda>(ret, d). Inr (ret, st\<lparr>lc_system := d\<rparr>)))"

text \<open>\<open>logFd[i] = open(path)\<close> and \<open>close(logFd[i])\<close>\<close>

definition log_open :: "'d log_kernel \<Rightarrow> nat \<Rightarrow> string \<Rightarrow> 'd log_client \<Rightarrow> 'd log_client chk" where
  "log_open k i path st =
     bindE (k_open k path (lc_system st)) (\<lambda>(fd, d). Inr (st\<lparr>logFd := (logFd st)[i := fd], lc_system := d\<rparr>))"

definition log_close :: "'d log_kernel \<Rightarrow> nat \<Rightarrow> 'd log_client \<Rightarrow> 'd log_client chk" where
  "log_close k i st = bindE (k_close k (logFd st ! i) (lc_system st)) (\<lambda>d. Inr (st\<lparr>lc_system := d\<rparr>))"

definition write_to_log_init :: "'d log_kernel \<Rightarrow> int \<Rightarrow> u8 list list \<Rightarrow> 'd log_client \<Rightarrow> (int \<times> 'd log_client) chk" where
  "write_to_log_init k logId vec st =
     (if lc_ready st then log_write_direct k logId vec st
      else
        bindE (log_open k 0 ''/dev/log_main'' st) (\<lambda>st.
        bindE (log_open k 1 ''/dev/log_radio'' st) (\<lambda>st.
        bindE (log_open k 2 ''/dev/log_events'' st) (\<lambda>st.
        bindE (log_open k 3 ''/dev/log_system'' st) (\<lambda>st.
        if logFd st ! 0 < 0 \<or> logFd st ! 1 < 0 \<or> logFd st ! 2 < 0 \<or> logFd st ! 3 < 0 then
          bindE (log_close k 0 st) (\<lambda>st.
          bindE (log_close k 1 st) (\<lambda>st.
          bindE (log_close k 2 st) (\<lambda>st.
          bindE (log_close k 3 st) (\<lambda>st.
          Inr (- 1, st\<lparr>logFd := [- 1, - 1, - 1, - 1]\<rparr>)))))
        else log_write_direct k logId vec (st\<lparr>lc_ready := True\<rparr>))))))"

definition write_to_log :: "'d log_kernel \<Rightarrow> int \<Rightarrow> u8 list list \<Rightarrow> 'd log_client \<Rightarrow> (int \<times> 'd log_client) chk" where
  "write_to_log k logId vec st =
     (if lc_ready st then log_write_direct k logId vec st else write_to_log_init k logId vec st)"

section \<open>Messages\<close>

definition ignoreTag :: "string list" where
  "ignoreTag = [''RefBase.h'', ''RefBase.cpp'', ''StrongPointer.h'']"

text \<open>The bytes of a string with the zero at its end.\<close>

definition c_bytes :: "string \<Rightarrow> u8 list" where
  "c_bytes s = map of_char s @ [0]"

text \<open>The first byte of \<open>priority\<close>, after \<open>'0'\<close> was added.\<close>

definition message_vec :: "int \<Rightarrow> string \<Rightarrow> string \<Rightarrow> u8 list list" where
  "message_vec priority tag msg = [[word_of_int (priority + 48)], c_bytes tag, c_bytes msg]"

definition droid_log_buf_write ::
    "'d log_kernel \<Rightarrow> int \<Rightarrow> int \<Rightarrow> string option \<Rightarrow> string option \<Rightarrow> 'd log_client \<Rightarrow> (int \<times> 'd log_client) chk" where
  "droid_log_buf_write k bufID priority tag msg st =
     (case tag of
        None \<Rightarrow> Inr (0, st)
      | Some tag \<Rightarrow>
          if priority < DROID_LOG_WARN \<and> tag \<in> set ignoreTag then Inr (0, st)
          else
            bindE (derefE NullDeref msg) (\<lambda>msg.
            write_to_log k bufID (message_vec priority tag msg) st))"

text \<open>\<open>text\<close> is what \<open>vsprintf\<close> makes of the format and the arguments; it is stored with a zero behind it.\<close>

definition droid_log_buf_write_f ::
    "'d log_kernel \<Rightarrow> int \<Rightarrow> int \<Rightarrow> string option \<Rightarrow> string \<Rightarrow> 'd log_client \<Rightarrow> (int \<times> 'd log_client) chk" where
  "droid_log_buf_write_f k bufID priority tag text st =
     (if LOGGER_MAX_LENGTH < length text + 1 then Inl OutOfBounds
      else droid_log_buf_write k bufID priority tag (Some (takeWhile (\<lambda>c. c \<noteq> CHR 0x00) text)) st)"

text \<open>The client before its first message.\<close>

definition log_client_start :: "'d \<Rightarrow> 'd log_client" where
  "log_client_start d = \<lparr>lc_ready = False, logFd = [0, 0, 0, 0], lc_system = d\<rparr>"

section \<open>What the client relies on\<close>

text \<open>
  \<open>files\<close> are the open descriptors. A descriptor that \<open>open\<close> returns was not open before, \<open>close\<close> closes the one it is given, if it is
  open, and \<open>writev\<close> opens and closes none.
\<close>

locale file_kernel =
  fixes k :: "'d log_kernel" and files :: "'d \<Rightarrow> int set"
  assumes open_files: "k_open k path d = Inr (fd, d') \<Longrightarrow>
      (if 0 \<le> fd then fd \<notin> files d \<and> files d' = insert fd (files d) else files d' = files d)"
    and close_files: "k_close k fd d = Inr d' \<Longrightarrow> files d' = files d - {fd}"
    and writev_files: "k_writev k fd vec d = Inr (ret, d') \<Longrightarrow> files d' = files d"
    and files_nonneg: "fd \<in> files d \<Longrightarrow> 0 \<le> fd"
begin

text \<open>Either all four logs are open, with four descriptors, or the client owns no descriptor.\<close>

definition owns :: "int set \<Rightarrow> 'd log_client \<Rightarrow> bool" where
  "owns F st \<longleftrightarrow> length (logFd st) = 4 \<and>
     (if lc_ready st then distinct (logFd st) \<and> set (logFd st) \<inter> F = {} \<and> list_all (\<lambda>fd. 0 \<le> fd) (logFd st) \<and>
        files (lc_system st) = F \<union> set (logFd st)
      else files (lc_system st) = F)"

lemma owns_start: "owns (files d) (log_client_start d)"
  by (simp add: owns_def log_client_start_def)

lemma direct_owns:
  assumes "owns F st" and "log_write_direct k logId vec st = Inr (ret, st')"
  shows "owns F st' \<and> lc_ready st' = lc_ready st \<and> logFd st' = logFd st"
  using assms by (auto simp: log_write_direct_def owns_def bindE_Inr_iff dest: writev_files split: if_splits)

lemma log_open_step:
  assumes "log_open k i path st = Inr st'"
  obtains fd d where "k_open k path (lc_system st) = Inr (fd, d)" "st' = st\<lparr>logFd := (logFd st)[i := fd], lc_system := d\<rparr>"
  using assms by (auto simp: log_open_def bindE_Inr_iff)

lemma log_close_step:
  assumes "log_close k i st = Inr st'"
  obtains d where "k_close k (logFd st ! i) (lc_system st) = Inr d" "st' = st\<lparr>lc_system := d\<rparr>"
  using assms by (auto simp: log_close_def bindE_Inr_iff)

text \<open>The files after one of the calls of \<open>open\<close>, if the client owns the descriptors \<open>G\<close> so far.\<close>

lemma open_owned:
  assumes "k_open k path d = Inr (fd, d')" and "files d = F \<union> G" and "F \<inter> G = {}" and "\<forall>x\<in>G. 0 \<le> x"
  shows "files d' = F \<union> ((if 0 \<le> fd then {fd} else {}) \<union> G)" "F \<inter> ((if 0 \<le> fd then {fd} else {}) \<union> G) = {}"
    "\<forall>x\<in>(if 0 \<le> fd then {fd} else {}) \<union> G. 0 \<le> x" "0 \<le> fd \<Longrightarrow> fd \<notin> G"
  using open_files [OF assms(1)] assms(2,3,4) by (auto split: if_splits)

lemma init_owns:
  assumes own: "owns F st" and new: "\<not> lc_ready st" and run: "write_to_log_init k logId vec st = Inr (ret, st')"
  shows "owns F st' \<and> (lc_ready st' \<or> ret = - 1)"
proof -
  let ?own = "\<lambda>fds. {fd \<in> set fds. 0 \<le> fd}"
  obtain l0 l1 l2 l3 where fd: "logFd st = [l0, l1, l2, l3]"
    using own by (auto simp: owns_def numeral_eq_Suc length_Suc_conv)
  obtain s1 s2 s3 s4 where s: "log_open k 0 ''/dev/log_main'' st = Inr s1" "log_open k 1 ''/dev/log_radio'' s1 = Inr s2"
    "log_open k 2 ''/dev/log_events'' s2 = Inr s3" "log_open k 3 ''/dev/log_system'' s3 = Inr s4"
    and rest: "(if logFd s4 ! 0 < 0 \<or> logFd s4 ! 1 < 0 \<or> logFd s4 ! 2 < 0 \<or> logFd s4 ! 3 < 0 then
        bindE (log_close k 0 s4) (\<lambda>st. bindE (log_close k 1 st) (\<lambda>st. bindE (log_close k 2 st) (\<lambda>st.
        bindE (log_close k 3 st) (\<lambda>st. Inr (- 1, st\<lparr>logFd := [- 1, - 1, - 1, - 1]\<rparr>)))))
      else log_write_direct k logId vec (s4\<lparr>lc_ready := True\<rparr>)) = Inr (ret, st')"
    using run new unfolding write_to_log_init_def by (auto simp only: bindE_Inr_iff if_False)
  obtain f0 d0 where o0: "k_open k ''/dev/log_main'' (lc_system st) = Inr (f0, d0)" "s1 = st\<lparr>logFd := [f0, l1, l2, l3], lc_system := d0\<rparr>"
    by (rule log_open_step [OF s(1)]) (simp add: fd)
  obtain f1 d1 where o1: "k_open k ''/dev/log_radio'' d0 = Inr (f1, d1)" "s2 = st\<lparr>logFd := [f0, f1, l2, l3], lc_system := d1\<rparr>"
    by (rule log_open_step [OF s(2)]) (simp add: o0(2))
  obtain f2 d2 where o2: "k_open k ''/dev/log_events'' d1 = Inr (f2, d2)" "s3 = st\<lparr>logFd := [f0, f1, f2, l3], lc_system := d2\<rparr>"
    by (rule log_open_step [OF s(3)]) (simp add: o1(2) numeral_2_eq_2)
  obtain f3 d3 where o3: "k_open k ''/dev/log_system'' d2 = Inr (f3, d3)" "s4 = st\<lparr>logFd := [f0, f1, f2, f3], lc_system := d3\<rparr>"
    by (rule log_open_step [OF s(4)]) (simp add: o2(2) numeral_3_eq_3)
  let ?A = "\<lambda>fd. if 0 \<le> fd then {fd} else {}"
  have F: "files (lc_system st) = F \<union> {}" using own new by (simp add: owns_def)
  have none: "F \<inter> {} = {}" "\<forall>x\<in>({}::int set). 0 \<le> x" by simp_all
  note g0 = open_owned [OF o0(1) F none]
  note g1 = open_owned [OF o1(1) g0(1,2,3)]
  note g2 = open_owned [OF o2(1) g1(1,2,3)]
  note g3 = open_owned [OF o3(1) g2(1,2,3)]
  have nth: "logFd s4 ! 0 = f0" "logFd s4 ! 1 = f1" "logFd s4 ! 2 = f2" "logFd s4 ! 3 = f3"
    by (simp_all add: o3(2) numeral_2_eq_2 numeral_3_eq_3)
  show ?thesis
  proof (cases "f0 < 0 \<or> f1 < 0 \<or> f2 < 0 \<or> f3 < 0")
    case False
    then have nonneg: "0 \<le> f0" "0 \<le> f1" "0 \<le> f2" "0 \<le> f3" by auto
    have "owns F (s4\<lparr>lc_ready := True\<rparr>)"
      using g0 g1 g2 g3 nonneg by (auto simp: owns_def o3(2))
    with False rest nth direct_owns show ?thesis by fastforce
  next
    case True
    with rest nth obtain t0 t1 t2 t3 where t: "log_close k 0 s4 = Inr t0" "log_close k 1 t0 = Inr t1" "log_close k 2 t1 = Inr t2"
      "log_close k 3 t2 = Inr t3" "ret = - 1" "st' = t3\<lparr>logFd := [- 1, - 1, - 1, - 1]\<rparr>"
      by (auto simp: bindE_Inr_iff)
    obtain e0 where c0: "k_close k f0 d3 = Inr e0" "t0 = s4\<lparr>lc_system := e0\<rparr>"
      by (rule log_close_step [OF t(1)]) (simp add: o3(2))
    obtain e1 where c1: "k_close k f1 e0 = Inr e1" "t1 = s4\<lparr>lc_system := e1\<rparr>"
      by (rule log_close_step [OF t(2)]) (simp add: c0(2) o3(2))
    obtain e2 where c2: "k_close k f2 e1 = Inr e2" "t2 = s4\<lparr>lc_system := e2\<rparr>"
      by (rule log_close_step [OF t(3)]) (simp add: c1(2) o3(2) numeral_2_eq_2)
    obtain e3 where c3: "k_close k f3 e2 = Inr e3" "t3 = s4\<lparr>lc_system := e3\<rparr>"
      by (rule log_close_step [OF t(4)]) (simp add: c2(2) o3(2) numeral_3_eq_3)
    let ?G = "?A f3 \<union> (?A f2 \<union> (?A f1 \<union> (?A f0 \<union> {})))"
    have "files e3 = (F \<union> ?G) - {f0, f1, f2, f3}"
      unfolding close_files [OF c3(1)] close_files [OF c2(1)] close_files [OF c1(1)] close_files [OF c0(1)] g3(1) by blast
    moreover have "?G \<subseteq> {f0, f1, f2, f3}" by simp
    moreover have "f \<notin> F" if "f \<in> {f0, f1, f2, f3}" for f
    proof
      assume "f \<in> F"
      then have "0 \<le> f" using files_nonneg [of f "lc_system st"] F by simp
      with that have "f \<in> ?G" by auto
      with \<open>f \<in> F\<close> g3(2) show False by blast
    qed
    ultimately have "files e3 = F" by blast
    with t(5,6) c3(2) new show ?thesis by (simp add: owns_def o3(2))
  qed
qed

lemma write_owns:
  assumes own: "owns F st" and run: "droid_log_buf_write k bufID priority tag msg st = Inr (ret, st')"
  shows "owns F st' \<and> (lc_ready st \<longrightarrow> lc_ready st' \<and> logFd st' = logFd st)"
proof -
  have "owns F st' \<and> (lc_ready st \<longrightarrow> lc_ready st' \<and> logFd st' = logFd st)" if "write_to_log k bufID vec st = Inr (ret, st')" for vec
    using that direct_owns [OF own] init_owns [OF own] by (auto simp: write_to_log_def split: if_splits)
  with own run show ?thesis
    by (auto simp: droid_log_buf_write_def bindE_Inr_iff split: option.splits if_splits)
qed

end

end
