(* ===== verification/Log_Client_Props.thy ===== *)
theory Log_Client_Props
  imports Log_Client Logger_Props
begin

text \<open>
  The log client on the log driver: descriptors, a message from the program that writes it to the one that reads it, and the
  messages that are too long for the driver.
\<close>

section \<open>The driver behind the client\<close>

text \<open>
  The device nodes with their minor numbers, the open files, and the descriptors that the kernel will hand out. The devices are opened for
  writing, and \<open>writev\<close> gives the bytes of all its vectors to the driver at once.
\<close>

record log_devices =
  ld_sys :: logger_sys
  ld_nodes :: "string \<Rightarrow> int option"
  ld_files :: "int \<Rightarrow> lfile option"
  ld_fds :: "int list"

definition install_file :: "lfile option \<Rightarrow> log_devices \<Rightarrow> int \<times> log_devices" where
  "install_file fl d =
     (case (fl, ld_fds d) of
        (Some f, fd # fds) \<Rightarrow>
          if 0 \<le> fd \<and> ld_files d fd = None then (fd, d\<lparr>ld_files := (ld_files d)(fd \<mapsto> f), ld_fds := fds\<rparr>) else (- 1, d)
      | _ \<Rightarrow> (- 1, d))"

definition dev_open :: "string \<Rightarrow> log_devices \<Rightarrow> (int \<times> log_devices) chk" where
  "dev_open path d =
     (case ld_nodes d path of
        None \<Rightarrow> Inr (- 1, d)
      | Some minor \<Rightarrow>
          bindE (logger_open 0 None False False False minor (ld_sys d)) (\<lambda>(ret, fl, sys).
          Inr (install_file fl (d\<lparr>ld_sys := sys\<rparr>))))"

definition dev_close :: "int \<Rightarrow> log_devices \<Rightarrow> log_devices chk" where
  "dev_close fd d =
     (case ld_files d fd of
        None \<Rightarrow> Inr d
      | Some f \<Rightarrow> bindE (logger_release f (ld_sys d)) (\<lambda>(_, sys). Inr (d\<lparr>ld_sys := sys, ld_files := (ld_files d)(fd := None)\<rparr>)))"

definition dev_writev :: "write_env \<Rightarrow> cfi \<Rightarrow> bool \<Rightarrow> int \<Rightarrow> u8 list list \<Rightarrow> log_devices \<Rightarrow> (int \<times> log_devices) chk" where
  "dev_writev env cfi vz fd vec d =
     (case ld_files d fd of
        None \<Rightarrow> Inr (- 1, d)
      | Some f \<Rightarrow>
          bindE (sys_write env cfi vz f (concat vec) (ld_sys d)) (\<lambda>(ret, sys).
          Inr (if ret < 0 then - 1 else ret, d\<lparr>ld_sys := sys\<rparr>)))"

definition device_kernel :: "write_env \<Rightarrow> cfi \<Rightarrow> bool \<Rightarrow> log_devices log_kernel" where
  "device_kernel env cfi vz = \<lparr>k_open = dev_open, k_close = dev_close, k_writev = dev_writev env cfi vz\<rparr>"

definition open_fds :: "log_devices \<Rightarrow> int set" where
  "open_fds d = {fd. 0 \<le> fd \<and> ld_files d fd \<noteq> None}"

lemma install_file_fds:
  assumes "install_file fl d = (fd, d')"
  shows "if 0 \<le> fd then fd \<notin> open_fds d \<and> open_fds d' = insert fd (open_fds d) else open_fds d' = open_fds d"
  using assms by (cases fl; cases "ld_fds d") (auto simp: install_file_def open_fds_def split: if_splits)

interpretation dev: file_kernel "device_kernel env cfi vz" open_fds for env cfi vz
proof (unfold_locales, goal_cases)
  case (1 path d fd d')
  then consider "fd = - 1" "d' = d" | fl sys where "install_file fl (d\<lparr>ld_sys := sys\<rparr>) = (fd, d')"
    by (cases "ld_nodes d path") (auto simp: device_kernel_def dev_open_def bindE_Inr_iff)
  then show ?case
  proof cases
    case 2
    have "open_fds (d\<lparr>ld_sys := sys\<rparr>) = open_fds d" by (simp add: open_fds_def)
    show ?thesis using install_file_fds [OF 2] unfolding \<open>open_fds (d\<lparr>ld_sys := sys\<rparr>) = open_fds d\<close> .
  qed simp
next
  case (2 fd d d')
  then show ?case by (auto simp: device_kernel_def dev_close_def open_fds_def bindE_Inr_iff split: option.splits if_splits)
next
  case (3 fd vec d ret d')
  then show ?case by (auto simp: device_kernel_def dev_writev_def open_fds_def bindE_Inr_iff split: option.splits)
next
  case (4 fd d)
  then show ?case by (simp add: open_fds_def)
qed

section \<open>Descriptors\<close>

type_synonym message = "int \<times> int \<times> string option \<times> string option"

fun log_all :: "'d log_kernel \<Rightarrow> message list \<Rightarrow> 'd log_client \<Rightarrow> (int list \<times> 'd log_client) chk" where
  "log_all k [] st = Inr ([], st)"
| "log_all k ((bufID, priority, tag, msg) # ms) st =
     bindE (droid_log_buf_write k bufID priority tag msg st) (\<lambda>(ret, st).
     bindE (log_all k ms st) (\<lambda>(rets, st). Inr (ret # rets, st)))"

lemma log_all_owns:
  "dev.owns F st \<Longrightarrow> log_all (device_kernel env cfi vz) ms st = Inr (rets, st') \<Longrightarrow> dev.owns F st'"
proof (induction ms arbitrary: st rets)
  case (Cons m ms)
  then show ?case
    by (cases m) (fastforce simp: bindE_Inr_iff dest: dev.write_owns)
qed simp

text \<open>C36: the descriptors of the log client. After any sequence of messages the client has either opened all four logs, and owns four
  different descriptors that were not open before, or it counts as not ready, so that the next message opens the logs again, and no
  descriptor is left open, whichever of the calls of \<open>open\<close> failed; so a client that finds no device never runs out of
  descriptors.\<close>

theorem log_descriptors_owned:
  assumes "log_all (device_kernel env cfi vz) ms (log_client_start d) = Inr (rets, st)"
  shows "if lc_ready st
    then distinct (logFd st) \<and> length (logFd st) = 4 \<and> set (logFd st) \<inter> open_fds d = {} \<and>
      open_fds (lc_system st) = open_fds d \<union> set (logFd st)
    else open_fds (lc_system st) = open_fds d"
  using log_all_owns [OF dev.owns_start assms] by (auto simp: dev.owns_def)

definition demo_devices :: log_devices where
  "demo_devices = \<lparr>ld_sys = ex_sys, ld_nodes = [''/dev/log_main'' \<mapsto> 1], ld_files = (\<lambda>_. None), ld_fds = [3, 4, 5, 6]\<rparr>"

lemma ex_sys_log: "get_log_from_minor ex_sys 1 = Inr (Some 1)"
  "\<exists>log. sys_logs ex_sys 1 = Some log \<and> log_wf log \<and> log_w_off log = 0 \<and> log_size log = 0x80000"
  "\<exists>log. sys_logs ex_sys 4 = Some log \<and> log_wf log \<and> log_size log = 0x400"
proof -
  note defs = ex_sys_def logger_init_def ex_envs_def ex_create_def create_log_def logger_sys_empty_def Let_def
  have lst: "sys_log_list ex_sys = [1, 2, 3, 4]" by (simp add: defs)
  have log: "\<exists>log. sys_logs ex_sys 1 = Some log \<and> log_minor log = 1 \<and> log_w_off log = 0 \<and> log_size log = 0x80000"
    "\<exists>log. sys_logs ex_sys 4 = Some log \<and> log_size log = 0x400" by (simp_all add: defs)
  have "sys_wf ex_sys" using ex_init by (auto simp: dev_init_def dest: logger_init_wf)
  with lst have wf: "\<exists>log. sys_logs ex_sys a = Some log \<and> log_wf log" if "a \<in> {1, 4}" for a using that by (auto simp: sys_wf_def)
  show "\<exists>log. sys_logs ex_sys 1 = Some log \<and> log_wf log \<and> log_w_off log = 0 \<and> log_size log = 0x80000"
    "\<exists>log. sys_logs ex_sys 4 = Some log \<and> log_wf log \<and> log_size log = 0x400" using log wf [of 1] wf [of 4] by auto
  from lst log(1) show "get_log_from_minor ex_sys 1 = Inr (Some 1)" by (auto simp: get_log_from_minor_def)
qed

text \<open>With one of the four devices, the descriptor of it is closed again.\<close>

lemma log_descriptors_owned_witness:
  "\<exists>st. log_all (device_kernel ex_env ex_cfi True) [(0, 6, Some ''main'', Some ''hello'')] (log_client_start demo_devices) = Inr ([- 1], st) \<and>
    open_fds (lc_system st) = {}"
proof -
  obtain log where log: "sys_logs ex_sys 1 = Some log" using ex_sys_log(2) by blast
  have open_main: "dev_open ''/dev/log_main'' demo_devices = Inr (3, demo_devices\<lparr>ld_files := [3 \<mapsto> \<lparr>f_read = False, f_private = 1\<rparr>], ld_fds := [4, 5, 6]\<rparr>)"
    using ex_sys_log(1) log by (simp add: dev_open_def demo_devices_def logger_open_def install_file_def)
  have "\<exists>st. log_all (device_kernel ex_env ex_cfi True) [(0, 6, Some ''main'', Some ''hello'')] (log_client_start demo_devices) = Inr ([- 1], st) \<and>
      \<not> lc_ready st"
    using open_main
    by (simp add: droid_log_buf_write_def ignoreTag_def write_to_log_def write_to_log_init_def log_client_start_def log_open_def log_close_def
      device_kernel_def dev_open_def dev_close_def demo_devices_def logger_release_def numeral_2_eq_2 numeral_3_eq_3)
  then show ?thesis using log_descriptors_owned [of ex_env ex_cfi True "[(0, 6, Some ''main'', Some ''hello'')]" demo_devices "[- 1]"]
    by (fastforce simp: open_fds_def demo_devices_def simp del: log_all.simps)
qed

section \<open>From the writer to the reader\<close>

lemma length_c_bytes [simp]: "length (c_bytes s) = Suc (length s)"
  by (simp add: c_bytes_def)

definition message_bytes :: "int \<Rightarrow> string \<Rightarrow> string \<Rightarrow> u8 list" where
  "message_bytes priority tag msg = word_of_int (priority + 48) # c_bytes tag @ c_bytes msg"

lemma message_bytes: "concat (message_vec priority tag msg) = message_bytes priority tag msg"
  by (simp add: message_vec_def message_bytes_def)

text \<open>The client has the log at the address \<open>a\<close> open for its log \<open>bufID\<close>.\<close>

definition log_open_at :: "int \<Rightarrow> nat \<Rightarrow> logger_log \<Rightarrow> log_devices log_client \<Rightarrow> bool" where
  "log_open_at bufID a log st \<longleftrightarrow> lc_ready st \<and> 0 \<le> bufID \<and> bufID < int (length (logFd st)) \<and>
     ld_files (lc_system st) (logFd st ! nat bufID) = Some \<lparr>f_read = False, f_private = a\<rparr> \<and>
     sys_logs (ld_sys (lc_system st)) a = Some log"

lemma client_write:
  assumes at: "log_open_at bufID a log st" and tag: "priority \<ge> 5 \<or> tag \<notin> set ignoreTag"
  shows "droid_log_buf_write (device_kernel env cfi vz) bufID priority (Some tag) (Some msg) st =
    bindE (logger_write_iter env cfi vz log (message_bytes priority tag msg)) (\<lambda>(ret, log).
      Inr (if ret < 0 then - 1 else ret, st\<lparr>lc_system := (lc_system st)\<lparr>ld_sys := (ld_sys (lc_system st))\<lparr>sys_logs :=
        (sys_logs (ld_sys (lc_system st)))(a \<mapsto> log)\<rparr>\<rparr>\<rparr>))"
  using assms
  by (cases "logger_write_iter env cfi vz log (message_bytes priority tag msg)")
    (auto simp: log_open_at_def droid_log_buf_write_def write_to_log_def log_write_direct_def device_kernel_def dev_writev_def sys_write_def
      file_get_log_def message_bytes)


definition demo_ready :: "logger_sys \<Rightarrow> log_devices log_client" where
  "demo_ready sys = \<lparr>lc_ready = True, logFd = [3, 4, 5, 6],
     lc_system = demo_devices\<lparr>ld_sys := sys, ld_files := [3 \<mapsto> \<lparr>f_read = False, f_private = 1\<rparr>, 4 \<mapsto> \<lparr>f_read = False, f_private = 4\<rparr>]\<rparr>\<rparr>"


section \<open>Messages that are too long\<close>

text \<open>C37: any program can write over the memory of the kernel. The logs for radio, events and the system have one kilobyte; a message of
  more than 2048 bytes, with its tag, to one of them, which the client hands over as it is, leaves the buffer of the driver, wherever
  the log stands and whatever it holds, and the number is below the length the client allows.\<close>

theorem long_message_leaves_log:
  assumes at: "log_open_at bufID a log st" and tag: "priority \<ge> 5 \<or> tag \<notin> set ignoreTag"
    and wf: "log_wf log" "log_size log = 1024" and copies: "cfi_full cfi"
    and long: "2048 < 3 + length tag + length msg" "3 + length tag + length msg < 2 ^ 64"
  shows "droid_log_buf_write (device_kernel env cfi vz) bufID priority (Some tag) (Some msg) st = Inl OutOfBounds"
proof -
  let ?data = "message_bytes priority tag msg"
  have len: "length ?data = 3 + length tag + length msg" by (simp add: message_bytes_def)
  then have "2048 < unat (write_count ?data)" using long by (simp add: unat_write_count)
  then have "logger_write_iter env cfi vz log ?data = Inl OutOfBounds"
    using logger_write_iter_overflow [OF wf(1) copies, of ?data env vz] len long(2) wf(2) by (simp add: message_bytes_def)
  then show ?thesis by (simp add: client_write [OF at tag])
qed

lemma long_message_leaves_log_witness:
  "droid_log_buf_write (device_kernel ex_env ex_cfi True) 1 4 (Some ''main'') (Some (replicate 2100 CHR ''a'')) (demo_ready ex_sys) = Inl OutOfBounds"
proof -
  obtain log where log: "sys_logs ex_sys 4 = Some log" "log_wf log" "log_size log = 0x400" using ex_sys_log(3) by blast
  have "log_open_at 1 4 log (demo_ready ex_sys)" using log(1) by (simp add: log_open_at_def demo_ready_def demo_devices_def)
  from long_message_leaves_log [OF this _ log(2,3) ex_cfi_full] show ?thesis by (simp add: ignoreTag_def)
qed

end
