(* ===== verification/Zygote_Socket.thy ===== *)
theory Zygote_Socket
  imports Prelude
begin

text \<open>
  \<open>core/zygote\<close>: the socket on which the zygote process is asked for new processes, its client, the functions through
  which Java reaches both, and the name a new process is given. What a call of the system returns is given by functions of the
  number of calls made before; the calls are recorded in a trace. The receiver is Java code, a function on a state of its own
  that does not call back into the library. The loop over connections takes fuel, one unit for each call of \<open>accept\<close>.
\<close>

abbreviation (input) BUFF_SIZE :: nat where "BUFF_SIZE \<equiv> 1024"
abbreviation (input) SUN_PATH_SIZE :: nat where "SUN_PATH_SIZE \<equiv> 108"

section \<open>System calls\<close>

datatype socket_event =
    SocketCall int
  | BindCall int string
  | ListenCall int int
  | ConnectCall int string
  | AcceptCall int int
  | ReadCall int
  | WriteCall int string
  | CloseCall int
  | UnlinkCall string

text \<open>\<open>so_read\<close> gives the bytes that are read, \<open>None\<close> for the result \<open>-1\<close>.\<close>

record socket_sys =
  so_socket :: "nat \<Rightarrow> int"
  so_bind :: "nat \<Rightarrow> int"
  so_listen :: "nat \<Rightarrow> int"
  so_connect :: "nat \<Rightarrow> int"
  so_accept :: "nat \<Rightarrow> int"
  so_read :: "nat \<Rightarrow> u8 list option"
  so_write :: "nat \<Rightarrow> int"
  so_calls :: nat
  so_trace :: "socket_event list"

definition so_event :: "socket_event \<Rightarrow> socket_sys \<Rightarrow> socket_sys" where
  "so_event e s = s\<lparr>so_calls := Suc (so_calls s), so_trace := so_trace s @ [e]\<rparr>"

definition SERVICE_NAME :: string where
  "SERVICE_NAME = ''@zygote_socket''"

text \<open>\<open>sun_path\<close>: static, so zero at first; the name is copied into it and its first character cleared.\<close>

definition service_path :: string where
  "service_path = (SERVICE_NAME @ replicate (SUN_PATH_SIZE - length SERVICE_NAME) (CHR 0x00))[0 := CHR 0x00]"

section \<open>The server\<close>

text \<open>\<open>callback\<close> says whether a function is set.\<close>

record socket_server =
  listenFd :: int
  connFd :: int
  callback :: bool

definition server_onReceive :: "(string \<Rightarrow> 'j \<Rightarrow> 'j) \<Rightarrow> socket_server \<Rightarrow> string \<Rightarrow> 'j \<Rightarrow> 'j" where
  "server_onReceive receive sv msg j = (if callback sv then receive msg j else j)"

definition server_isOpen :: "socket_server \<Rightarrow> bool" where
  "server_isOpen sv \<longleftrightarrow> 0 < listenFd sv"

definition server_closeSocket :: "socket_server \<Rightarrow> socket_sys \<Rightarrow> socket_sys" where
  "server_closeSocket sv s =
     (let s = (if 0 < listenFd sv then so_event (CloseCall (listenFd sv)) s else s);
          s = (if 0 < connFd sv then so_event (CloseCall (connFd sv)) s else s)
      in so_event (UnlinkCall SERVICE_NAME) s)"

text \<open>The array \<open>buff\<close>, cleared and filled by \<open>read\<close>.\<close>

definition read_buff :: "u8 list option \<Rightarrow> u8 list" where
  "read_buff got = (let bs = take BUFF_SIZE (case got of None \<Rightarrow> [] | Some bs \<Rightarrow> bs) in bs @ replicate (BUFF_SIZE - length bs) 0)"

text \<open>The string that starts at the array: without a zero it is read past the end.\<close>

definition buff_text :: "u8 list \<Rightarrow> string chk" where
  "buff_text bs = (if 0 \<in> set bs then Inr (map (\<lambda>b. char_of (unat b)) (takeWhile (\<lambda>b. b \<noteq> 0) bs)) else Inl OutOfBounds)"

fun accept_loop ::
    "(string \<Rightarrow> 'j \<Rightarrow> 'j) \<Rightarrow> nat \<Rightarrow> socket_server \<Rightarrow> socket_sys \<Rightarrow> 'j \<Rightarrow> (int \<times> socket_server \<times> socket_sys \<times> 'j) chk" where
  "accept_loop receive 0 sv s j = Inl OutOfFuel"
| "accept_loop receive (Suc fuel) sv s j =
     (let conn = so_accept s (so_calls s);
          s = so_event (AcceptCall (listenFd sv) conn) s;
          sv = sv\<lparr>connFd := conn\<rparr>
      in if conn < 0 then
           let s = so_event (CloseCall conn) s;
               s = so_event (CloseCall (listenFd sv)) s;
               s = so_event (UnlinkCall SERVICE_NAME) s
           in Inr (- 1, sv, s, j)
         else
           let buff = read_buff (so_read s (so_calls s));
               s = so_event (ReadCall conn) s
           in bindE (buff_text buff) (\<lambda>msg. accept_loop receive fuel sv s (server_onReceive receive sv msg j)))"

definition server_startSocket ::
    "(string \<Rightarrow> 'j \<Rightarrow> 'j) \<Rightarrow> nat \<Rightarrow> socket_server \<Rightarrow> socket_sys \<Rightarrow> 'j \<Rightarrow> (int \<times> socket_server \<times> socket_sys \<times> 'j) chk" where
  "server_startSocket receive fuel sv s j =
     (let fd = so_socket s (so_calls s);
          s = so_event (SocketCall fd) s;
          sv = sv\<lparr>listenFd := fd\<rparr>
      in if fd < 0 then Inr (- 1, sv, so_event (UnlinkCall SERVICE_NAME) s, j)
         else
           let ret = so_bind s (so_calls s);
               s = so_event (BindCall fd service_path) s
           in if ret = - 1 then Inr (- 1, sv, so_event (UnlinkCall SERVICE_NAME) (so_event (CloseCall fd) s), j)
              else
                let ret = so_listen s (so_calls s);
                    s = so_event (ListenCall fd 1) s
                in if ret = - 1 then Inr (- 1, sv, so_event (UnlinkCall SERVICE_NAME) (so_event (CloseCall fd) s), j)
                   else accept_loop receive fuel sv s j)"

section \<open>The client\<close>

text \<open>The constructor leaves \<open>connFd\<close> unset, which is \<open>None\<close>.\<close>

record socket_client =
  clientFd :: "int option"

definition client_isOpen :: "socket_client \<Rightarrow> bool chk" where
  "client_isOpen cl = bindE (derefE Uninitialised (clientFd cl)) (\<lambda>fd. Inr (0 < fd))"

definition client_openSocket :: "socket_client \<Rightarrow> socket_sys \<Rightarrow> int \<times> socket_client \<times> socket_sys" where
  "client_openSocket cl s =
     (let fd = so_socket s (so_calls s);
          s = so_event (SocketCall fd) s;
          cl = cl\<lparr>clientFd := Some fd\<rparr>
      in if fd < 0 then (- 1, cl, so_event (UnlinkCall SERVICE_NAME) s)
         else
           let ret = so_connect s (so_calls s);
               s = so_event (ConnectCall fd service_path) s
           in if ret = - 1 then (- 1, cl, so_event (UnlinkCall SERVICE_NAME) (so_event (CloseCall fd) s)) else (0, cl, s))"

definition client_sendMessage :: "socket_client \<Rightarrow> string \<Rightarrow> socket_sys \<Rightarrow> (int \<times> socket_sys) chk" where
  "client_sendMessage cl msg s =
     bindE (derefE Uninitialised (clientFd cl)) (\<lambda>fd. Inr (so_write s (so_calls s), so_event (WriteCall fd msg) s))"

definition client_closeSocket :: "socket_client \<Rightarrow> socket_sys \<Rightarrow> socket_sys chk" where
  "client_closeSocket cl s =
     bindE (derefE Uninitialised (clientFd cl)) (\<lambda>fd.
     let s = (if 0 < fd then so_event (CloseCall fd) s else s)
     in Inr (so_event (UnlinkCall SERVICE_NAME) s))"

section \<open>The functions for Java\<close>

text \<open>The process: the two objects \<open>instance\<close>, the system, and the state of Java.\<close>

record 'j zygote =
  zg_server :: "socket_server option"
  zg_client :: "socket_client option"
  zg_sys :: socket_sys
  zg_java :: 'j

definition server_getInstance :: "'j zygote \<Rightarrow> socket_server \<times> 'j zygote" where
  "server_getInstance st =
     (case zg_server st of
        Some sv \<Rightarrow> (sv, st)
      | None \<Rightarrow> let sv = \<lparr>listenFd = 0, connFd = 0, callback = False\<rparr> in (sv, st\<lparr>zg_server := Some sv\<rparr>))"

definition client_getInstance :: "'j zygote \<Rightarrow> socket_client \<times> 'j zygote" where
  "client_getInstance st =
     (case zg_client st of
        Some cl \<Rightarrow> (cl, st)
      | None \<Rightarrow> let cl = \<lparr>clientFd = None\<rparr> in (cl, st\<lparr>zg_client := Some cl\<rparr>))"

definition server_nativeIsOpen :: "'j zygote \<Rightarrow> bool \<times> 'j zygote" where
  "server_nativeIsOpen st = (let (sv, st) = server_getInstance st in (server_isOpen sv, st))"

definition server_nativeOpen :: "(string \<Rightarrow> 'j \<Rightarrow> 'j) \<Rightarrow> nat \<Rightarrow> 'j zygote \<Rightarrow> (int \<times> 'j zygote) chk" where
  "server_nativeOpen receive fuel st =
     (let (sv, st) = server_getInstance st
      in if server_isOpen sv then Inr (0, st)
         else
           bindE (server_startSocket receive fuel sv (zg_sys st) (zg_java st)) (\<lambda>(ret, sv, s, j).
           Inr (ret, st\<lparr>zg_server := Some sv, zg_sys := s, zg_java := j\<rparr>)))"

definition server_nativeClose :: "'j zygote \<Rightarrow> 'j zygote" where
  "server_nativeClose st =
     (let (sv, st) = server_getInstance st
      in if server_isOpen sv then st\<lparr>zg_sys := server_closeSocket sv (zg_sys st)\<rparr> else st)"

definition server_nativeSetOnReceiveCallback :: "'j zygote \<Rightarrow> 'j zygote" where
  "server_nativeSetOnReceiveCallback st =
     (let (sv, st) = server_getInstance st in st\<lparr>zg_server := Some (sv\<lparr>callback := True\<rparr>)\<rparr>)"

definition client_nativeIsOpen :: "'j zygote \<Rightarrow> (bool \<times> 'j zygote) chk" where
  "client_nativeIsOpen st =
     (let (cl, st) = client_getInstance st in bindE (client_isOpen cl) (\<lambda>b. Inr (b, st)))"

definition client_nativeOpen :: "'j zygote \<Rightarrow> int \<times> 'j zygote" where
  "client_nativeOpen st =
     (let (cl, st) = client_getInstance st;
          (ret, cl, s) = client_openSocket cl (zg_sys st)
      in (ret, st\<lparr>zg_client := Some cl, zg_sys := s\<rparr>))"

definition client_nativeClose :: "'j zygote \<Rightarrow> 'j zygote chk" where
  "client_nativeClose st =
     (let (cl, st) = client_getInstance st
      in bindE (client_closeSocket cl (zg_sys st)) (\<lambda>s. Inr (st\<lparr>zg_sys := s\<rparr>)))"

text \<open>\<open>msg\<close> is what \<open>GetStringUTFChars\<close> returns, \<open>None\<close> for a null pointer.\<close>

definition client_nativeSendMessage :: "string option \<Rightarrow> 'j zygote \<Rightarrow> (int \<times> 'j zygote) chk" where
  "client_nativeSendMessage msg st =
     (let (cl, st) = client_getInstance st
      in bindE (derefE NullDeref msg) (\<lambda>msg.
         bindE (client_isOpen cl) (\<lambda>b.
         if \<not> b then Inr (- 1, st)
         else
           bindE (client_sendMessage cl msg (zg_sys st)) (\<lambda>(ret, s). Inr (ret, st\<lparr>zg_sys := s\<rparr>)))))"

section \<open>The name of a new process\<close>

fun decimal_nat :: "nat \<Rightarrow> string" where
  "decimal_nat n = (if n < 10 then [char_of (48 + n)] else decimal_nat (n div 10) @ [char_of (48 + n mod 10)])"

text \<open>\<open>std::to_string\<close>\<close>

definition decimal :: "int \<Rightarrow> string" where
  "decimal i = (if i < 0 then CHR ''-'' # decimal_nat (nat (- i)) else decimal_nat (nat i))"

text \<open>The name and the zero behind it are copied into \<open>char name[10]\<close>.\<close>

definition child_name :: "int \<Rightarrow> string chk" where
  "child_name flag =
     (if flag = 0 then Inr ''system_server''
      else
        let name = ''app_'' @ decimal flag
        in if 10 < length name + 1 then Inl OutOfBounds else Inr name)"

text \<open>\<open>pid\<close> is what \<open>fork\<close> returns; the name is given to the new process with \<open>prctl\<close>.\<close>

definition nativeForkSystemServer :: "int \<Rightarrow> int \<Rightarrow> (int \<times> string option) chk" where
  "nativeForkSystemServer pid flag =
     (if pid = 0 then bindE (child_name flag) (\<lambda>name. Inr (pid, Some name)) else Inr (pid, None))"

declare decimal_nat.simps [simp del]

end
