(* ===== verification/Zygote_Props.thy ===== *)
theory Zygote_Props
  imports Zygote_Socket
begin

text \<open>
  What the server does with its connections, what Java sees of a server that could not be started, the way of a message from the
  client to the receiver, and the names that fit.
\<close>

section \<open>Descriptors\<close>

text \<open>What a call does to the set of open descriptors.\<close>

fun socket_effect :: "socket_event \<Rightarrow> int set \<Rightarrow> int set" where
  "socket_effect (SocketCall fd) F = (if 0 \<le> fd then insert fd F else F)"
| "socket_effect (AcceptCall fd conn) F = (if 0 \<le> conn then insert conn F else F)"
| "socket_effect (CloseCall fd) F = F - {fd}"
| "socket_effect e F = F"

definition sockets_after :: "socket_sys \<Rightarrow> socket_sys \<Rightarrow> int set \<Rightarrow> int set" where
  "sockets_after s s' F = fold socket_effect (drop (length (so_trace s)) (so_trace s')) F"

lemma so_event_simps [simp]:
  "so_calls (so_event e s) = Suc (so_calls s)" "so_trace (so_event e s) = so_trace s @ [e]"
  "so_socket (so_event e s) = so_socket s" "so_bind (so_event e s) = so_bind s" "so_listen (so_event e s) = so_listen s"
  "so_connect (so_event e s) = so_connect s" "so_accept (so_event e s) = so_accept s" "so_read (so_event e s) = so_read s"
  "so_write (so_event e s) = so_write s"
  by (simp_all add: so_event_def)

section \<open>Messages\<close>

lemma length_read_buff [simp]: "length (read_buff got) = BUFF_SIZE"
  by (simp add: read_buff_def Let_def)

text \<open>A message of less than the array is read as it was sent, with the bytes of the array behind it cleared.\<close>

lemma unat_byte_of_char [simp]: "unat (of_char c :: u8) = of_char c"
proof -
  have "(of_char c :: u8) = of_nat (of_char c)" by (simp add: of_nat_of_char)
  then show ?thesis using nat_of_char_less_256 [of c] by (simp add: unat_of_nat take_bit_nat_eq_self)
qed

lemma byte_of_char_0: "(of_char c :: u8) = 0 \<longleftrightarrow> c = CHR 0x00"
proof -
  have "(of_char c :: u8) = 0 \<longleftrightarrow> of_char c = (of_char (CHR 0x00) :: nat)" by (simp add: unat_eq_0 [symmetric] del: of_char_eq_iff)
  then show ?thesis by (simp only: of_char_eq_iff)
qed

lemma message_bytes_text:
  assumes "CHR 0x00 \<notin> set msg" and "length msg < BUFF_SIZE"
  shows "buff_text (read_buff (Some (map of_char msg))) = Inr msg"
proof -
  obtain k where k: "BUFF_SIZE - length msg = Suc k" using assms(2) by (metis Suc_diff_Suc)
  have "\<forall>c\<in>set msg. (of_char c :: u8) \<noteq> 0" using assms(1) by (metis byte_of_char_0)
  then have "takeWhile (\<lambda>b. b \<noteq> 0) (map of_char msg @ 0 # replicate k (0 :: u8)) = map of_char msg"
    by (simp add: takeWhile_tail takeWhile_append2)
  then show ?thesis using assms(2) k
    by (simp add: buff_text_def read_buff_def comp_def)
qed

section \<open>Connections\<close>

text \<open>The connection of a turn of the loop, and what is read from it.\<close>

definition turn_conn :: "socket_sys \<Rightarrow> nat \<Rightarrow> int" where
  "turn_conn s i = so_accept s (so_calls s + 2 * i)"

definition turn_text :: "socket_sys \<Rightarrow> nat \<Rightarrow> string chk" where
  "turn_text s i = buff_text (read_buff (so_read s (so_calls s + 2 * i + 1)))"

primrec after_turns :: "int \<Rightarrow> nat \<Rightarrow> socket_sys \<Rightarrow> socket_sys" where
  "after_turns l 0 s = s"
| "after_turns l (Suc n) s = so_event (ReadCall (turn_conn s n)) (so_event (AcceptCall l (turn_conn s n)) (after_turns l n s))"

lemma after_turns_simps [simp]:
  "so_calls (after_turns l n s) = so_calls s + 2 * n"
  "so_accept (after_turns l n s) = so_accept s" "so_read (after_turns l n s) = so_read s"
  "so_trace (after_turns l n s) = so_trace s @ concat (map (\<lambda>i. [AcceptCall l (turn_conn s i), ReadCall (turn_conn s i)]) [0..<n])"
  by (induction n) simp_all

lemma accept_loop_connFd: "accept_loop receive fuel (sv\<lparr>connFd := c\<rparr>) s j = accept_loop receive fuel sv s j"
  by (cases fuel) (simp_all add: Let_def)

lemma onReceive_connFd [simp]: "server_onReceive receive (sv\<lparr>connFd := c\<rparr>) = server_onReceive receive sv"
  by (simp add: server_onReceive_def fun_eq_iff)

lemma accept_loop_step:
  assumes "0 \<le> turn_conn s 0" and "turn_text s 0 = Inr msg"
  shows "accept_loop receive (Suc fuel) sv s j =
    accept_loop receive fuel sv (after_turns (listenFd sv) 1 s) (server_onReceive receive sv msg j)"
  using assms by (simp add: Let_def turn_conn_def turn_text_def accept_loop_connFd)

lemma turn_after_turns [simp]:
  "turn_conn (after_turns l n s) i = turn_conn s (n + i)" "turn_text (after_turns l n s) i = turn_text s (n + i)"
  by (simp_all add: turn_conn_def turn_text_def algebra_simps)

lemma after_turns_add: "after_turns l m (after_turns l n s) = after_turns l (n + m) s"
  by (induction m) simp_all

lemma accept_loop_turns:
  assumes "\<forall>i<n. 0 \<le> turn_conn s i \<and> turn_text s i = Inr (ms i)"
  shows "accept_loop receive (n + fuel) sv s j =
    accept_loop receive fuel sv (after_turns (listenFd sv) n s) (fold (server_onReceive receive sv) (map ms [0..<n]) j)"
  using assms
proof (induction n arbitrary: fuel)
  case (Suc n)
  let ?s = "after_turns (listenFd sv) n s"
  have "accept_loop receive (Suc n + fuel) sv s j =
      accept_loop receive (Suc fuel) sv ?s (fold (server_onReceive receive sv) (map ms [0..<n]) j)"
    using Suc by (metis add_Suc_shift less_SucI)
  also have "\<dots> = accept_loop receive fuel sv (after_turns (listenFd sv) 1 ?s)
      (server_onReceive receive sv (ms n) (fold (server_onReceive receive sv) (map ms [0..<n]) j))"
    using Suc.prems by (intro accept_loop_step) simp_all
  finally show ?case by (simp add: after_turns_add)
qed simp

lemma accept_loop_ends:
  assumes "\<forall>i<n. 0 \<le> turn_conn s i \<and> turn_text s i = Inr (ms i)" and "turn_conn s n < 0" and "n < fuel"
  shows "accept_loop receive fuel sv s j = Inr (- 1, sv\<lparr>connFd := turn_conn s n\<rparr>,
    so_event (UnlinkCall SERVICE_NAME) (so_event (CloseCall (listenFd sv)) (so_event (CloseCall (turn_conn s n))
      (so_event (AcceptCall (listenFd sv) (turn_conn s n)) (after_turns (listenFd sv) n s)))),
    fold (server_onReceive receive sv) (map ms [0..<n]) j)"
proof -
  obtain k where "fuel = n + Suc k" using assms(3) by (metis less_imp_Suc_add add_Suc_right)
  moreover have "so_accept s (so_calls s + 2 * n) = turn_conn s n" by (simp add: turn_conn_def)
  ultimately show ?thesis using accept_loop_turns [OF assms(1), of receive "Suc k"] assms(2) by (simp add: Let_def)
qed

lemma accept_loop_returns:
  assumes "accept_loop receive fuel sv s j = Inr r"
  shows "\<exists>n<fuel. turn_conn s n < 0 \<and> (\<forall>i<n. 0 \<le> turn_conn s i \<and> (\<exists>msg. turn_text s i = Inr msg))"
  using assms
proof (induction fuel arbitrary: s j)
  case (Suc fuel)
  show ?case
  proof (cases "turn_conn s 0 < 0")
    case False
    then obtain msg where msg: "turn_text s 0 = Inr msg"
      using Suc.prems by (auto simp: Let_def turn_conn_def turn_text_def bindE_Inr_iff)
    with False Suc.prems obtain j' where "accept_loop receive fuel sv (after_turns (listenFd sv) 1 s) j' = Inr r"
      by (simp add: accept_loop_step del: accept_loop.simps)
    from Suc.IH [OF this] obtain n where "n < fuel" "turn_conn s (Suc n) < 0"
        "\<forall>i<n. 0 \<le> turn_conn s (Suc i) \<and> (\<exists>msg. turn_text s (Suc i) = Inr msg)"
      by (auto simp del: after_turns.simps)
    then show ?thesis using False msg by (intro exI [of _ "Suc n"]) (auto simp: less_Suc_eq_0_disj)
  qed auto
qed simp

lemma fold_turns:
  assumes "\<forall>i<n. 0 \<le> turn_conn s i"
  shows "fold socket_effect (concat (map (\<lambda>i. [AcceptCall l (turn_conn s i), ReadCall (turn_conn s i)]) [0..<n])) F =
    F \<union> turn_conn s ` {..<n}"
  using assms by (induction n) (auto simp: lessThan_Suc)

section \<open>Starting the server\<close>

text \<open>The calls that \<open>startSocket\<close> makes before it accepts connections, when they succeed.\<close>

definition server_ready :: "socket_sys \<Rightarrow> socket_sys" where
  "server_ready s =
     (let fd = so_socket s (so_calls s)
      in so_event (ListenCall fd 1) (so_event (BindCall fd service_path) (so_event (SocketCall fd) s)))"

definition server_listens :: "socket_sys \<Rightarrow> bool" where
  "server_listens s \<longleftrightarrow>
     0 \<le> so_socket s (so_calls s) \<and> so_bind s (so_calls s + 1) \<noteq> - 1 \<and> so_listen s (so_calls s + 2) \<noteq> - 1"

lemma startSocket_listens:
  assumes "server_listens s"
  shows "server_startSocket receive fuel sv s j =
    accept_loop receive fuel (sv\<lparr>listenFd := so_socket s (so_calls s)\<rparr>) (server_ready s) j"
  using assms by (simp add: server_startSocket_def server_listens_def server_ready_def Let_def)

lemma onReceive_listenFd [simp]: "server_onReceive receive (sv\<lparr>listenFd := c\<rparr>) = server_onReceive receive sv"
  by (simp add: server_onReceive_def fun_eq_iff)

lemma startSocket_fails:
  assumes "\<not> server_listens s"
  shows "\<exists>s'. server_startSocket receive fuel sv s j = Inr (- 1, sv\<lparr>listenFd := so_socket s (so_calls s)\<rparr>, s', j) \<and>
    (0 \<le> so_socket s (so_calls s) \<longrightarrow> so_socket s (so_calls s) \<notin> sockets_after s s' F)"
  using assms by (auto simp: server_startSocket_def server_listens_def Let_def sockets_after_def not_less)

lemma trace_ready [simp]:
  "so_calls (server_ready s) = so_calls s + 3"
  "so_trace (server_ready s) = so_trace s @
     [SocketCall (so_socket s (so_calls s)), BindCall (so_socket s (so_calls s)) service_path, ListenCall (so_socket s (so_calls s)) 1]"
  by (simp_all add: server_ready_def Let_def)

lemma accept_loop_overruns:
  assumes "\<forall>i<n. 0 \<le> turn_conn s i \<and> turn_text s i = Inr (ms i)" and "0 \<le> turn_conn s n" "turn_text s n = Inl e" and "n < fuel"
  shows "accept_loop receive fuel sv s j = Inl e"
proof -
  obtain k where k: "fuel = n + Suc k" using assms(4) by (metis less_imp_Suc_add add_Suc_right)
  let ?s = "after_turns (listenFd sv) n s"
  have "so_accept ?s (so_calls ?s) = turn_conn s n" "buff_text (read_buff (so_read ?s (Suc (so_calls ?s)))) = turn_text s n"
    by (simp_all add: turn_conn_def turn_text_def)
  then show ?thesis unfolding k accept_loop_turns [OF assms(1)] using assms(2,3) by (simp add: Let_def)
qed

text \<open>Descriptors that were new when they were returned.\<close>

lemma card_new_fds:
  assumes "finite F" and "\<forall>i<n. c i \<notin> F \<union> c ` {..<i}"
  shows "card (F \<union> c ` {..<n}) = card F + n"
  using assms(2)
proof (induction n)
  case (Suc n)
  then have "c n \<notin> F \<union> c ` {..<n}" by blast
  then show ?case using Suc assms(1) by (simp add: lessThan_Suc)
qed simp

text \<open>C38: a server that has its listening socket, up to the turn of its loop in which it stops. As long as each message has less than 1024
  bytes, or a zero among its first 1024, it hands them all to the receiver, in the order of the connections. With the first \<open>accept\<close> that
  fails it returns \<open>-1\<close>, with its listening socket closed, but of the connections it has accepted it closes none:
  the descriptors open afterwards are those that were open and those that \<open>accept\<close> has returned, and if each of these was new,
  they are one more for every client. A message that fills the array makes it read past the end.\<close>

theorem server_delivers_and_leaks:
  assumes listens: "server_listens s"
    and turns: "\<forall>i<n. 0 \<le> turn_conn (server_ready s) i \<and> turn_text (server_ready s) i = Inr (ms i)" and fuel: "n < fuel"
    and fresh: "so_socket s (so_calls s) \<notin> F \<union> turn_conn (server_ready s) ` {..<n}" "\<forall>fd\<in>F. 0 \<le> fd"
  shows "(turn_conn (server_ready s) n < 0 \<longrightarrow>
      (\<exists>sv' s'. server_startSocket receive fuel sv s j =
          Inr (- 1, sv', s', fold (server_onReceive receive sv) (map ms [0..<n]) j) \<and>
        sockets_after s s' F = F \<union> turn_conn (server_ready s) ` {..<n} \<and>
        (finite F \<and> (\<forall>i<n. turn_conn (server_ready s) i \<notin> F \<union> turn_conn (server_ready s) ` {..<i}) \<longrightarrow>
          card (sockets_after s s' F) = card F + n))) \<and>
    (0 \<le> turn_conn (server_ready s) n \<and> turn_text (server_ready s) n = Inl e \<longrightarrow>
      server_startSocket receive fuel sv s j = Inl e \<and> e = OutOfBounds)"
proof (intro conjI impI)
  let ?fd = "so_socket s (so_calls s)" and ?c = "turn_conn (server_ready s)"
  assume last: "?c n < 0"
  have open_fds: "fold socket_effect (concat (map (\<lambda>i. [AcceptCall ?fd (?c i), ReadCall (?c i)]) [0..<n])) (insert ?fd F) =
      insert ?fd F \<union> ?c ` {..<n}"
    using turns by (intro fold_turns) simp
  have pos: "0 \<le> ?fd" using listens by (simp add: server_listens_def)
  have none: "?c n \<notin> insert ?fd F \<union> ?c ` {..<n}" using turns last fresh(2) pos by force
  have "\<exists>sv' s'. server_startSocket receive fuel sv s j =
      Inr (- 1, sv', s', fold (server_onReceive receive sv) (map ms [0..<n]) j) \<and> sockets_after s s' F = F \<union> ?c ` {..<n}"
    using accept_loop_ends [OF turns last fuel, of receive "sv\<lparr>listenFd := ?fd\<rparr>" j] fresh(1) pos none last
    by (auto simp: startSocket_listens [OF listens] sockets_after_def open_fds)
  then show "\<exists>sv' s'. server_startSocket receive fuel sv s j =
          Inr (- 1, sv', s', fold (server_onReceive receive sv) (map ms [0..<n]) j) \<and>
        sockets_after s s' F = F \<union> ?c ` {..<n} \<and>
        (finite F \<and> (\<forall>i<n. ?c i \<notin> F \<union> ?c ` {..<i}) \<longrightarrow> card (sockets_after s s' F) = card F + n)"
    using card_new_fds by metis
next
  assume full: "0 \<le> turn_conn (server_ready s) n \<and> turn_text (server_ready s) n = Inl e"
  then show "server_startSocket receive fuel sv s j = Inl e"
    unfolding startSocket_listens [OF listens] by (intro accept_loop_overruns [OF turns _ _ fuel]) simp_all
  show "e = OutOfBounds" using full by (simp add: turn_text_def buff_text_def split: if_splits)
qed

definition demo_sockets :: socket_sys where
  "demo_sockets = \<lparr>so_socket = (\<lambda>_. 3), so_bind = (\<lambda>_. 0), so_listen = (\<lambda>_. 0), so_connect = (\<lambda>_. 0),
     so_accept = (\<lambda>k. if k = 3 then 4 else if k = 5 then 5 else - 1),
     so_read = (\<lambda>k. Some (map of_char (if k = 4 then ''app'' else ''quit''))), so_write = (\<lambda>_. 3), so_calls = 0, so_trace = []\<rparr>"

lemma server_delivers_and_leaks_witness:
  "\<exists>sv' s'. server_startSocket (\<lambda>msg j. j @ [msg]) 3 \<lparr>listenFd = 0, connFd = 0, callback = True\<rparr> demo_sockets [] =
      Inr (- 1, sv', s', [''app'', ''quit'']) \<and> sockets_after demo_sockets s' {1, 2} = {1, 2, 4, 5}"
proof -
  let ?ms = "\<lambda>i. if i = 0 then ''app'' else ''quit''"
  have conn: "turn_conn (server_ready demo_sockets) 0 = 4" "turn_conn (server_ready demo_sockets) 1 = 5"
      "turn_conn (server_ready demo_sockets) 2 = - 1"
    by (simp_all add: turn_conn_def demo_sockets_def server_ready_def)
  have got: "turn_text (server_ready demo_sockets) 0 = Inr ''app''" "turn_text (server_ready demo_sockets) 1 = Inr ''quit''"
    using message_bytes_text [of "''app''"] message_bytes_text [of "''quit''"]
    by (simp_all add: turn_text_def demo_sockets_def server_ready_def)
  have "{..<2 :: nat} = {0, 1}" by auto
  then have conns: "turn_conn (server_ready demo_sockets) ` {..<2} = {4, 5}" using conn by auto
  have turns: "\<forall>i<2. 0 \<le> turn_conn (server_ready demo_sockets) i \<and> turn_text (server_ready demo_sockets) i = Inr (?ms i)"
    using conn got by (simp add: numeral_2_eq_2 less_Suc_eq)
  have listens: "server_listens demo_sockets" and fd: "so_socket demo_sockets (so_calls demo_sockets) = 3"
    by (simp_all add: server_listens_def demo_sockets_def)
  have msgs: "map ?ms [0..<2] = [''app'', ''quit'']" by (simp add: upt_rec)
  show ?thesis
    using server_delivers_and_leaks [OF listens turns, where fuel = 3 and F = "{1, 2}" and receive = "\<lambda>msg j. j @ [msg]"
        and sv = "\<lparr>listenFd = 0, connFd = 0, callback = True\<rparr>" and j = "[]" and e = OutOfBounds]
    by (simp add: conn(3) conns fd msgs server_onReceive_def insert_commute) blast
qed

text \<open>C39: when \<open>nativeOpen\<close> has failed, with the descriptor of the listening socket greater than zero, the object still
  counts as open though that descriptor is closed: every later \<open>nativeOpen\<close> answers \<open>0\<close> and does nothing, so the server is
  never started.\<close>

theorem failed_server_reports_open:
  assumes failed: "server_nativeOpen receive fuel st = Inr (- 1, st')"
  shows "\<exists>sv. zg_server st' = Some sv \<and>
    (0 < listenFd sv \<longrightarrow>
       listenFd sv \<notin> sockets_after (zg_sys st) (zg_sys st') F \<and>
       server_nativeOpen receive' fuel' st' = Inr (0, st') \<and> server_nativeIsOpen st' = (True, st'))"
proof -
  obtain sv st1 where inst: "server_getInstance st = (sv, st1)" and same: "zg_sys st1 = zg_sys st"
    by (cases "zg_server st") (auto simp: server_getInstance_def Let_def)
  obtain sv' s' j' where start: "server_startSocket receive fuel sv (zg_sys st) (zg_java st1) = Inr (- 1, sv', s', j')"
      and st': "st' = st1\<lparr>zg_server := Some sv', zg_sys := s', zg_java := j'\<rparr>"
    using failed inst same by (auto simp: server_nativeOpen_def bindE_Inr_iff split: if_splits)
  have "0 < listenFd sv' \<longrightarrow> listenFd sv' \<notin> sockets_after (zg_sys st) s' F"
  proof (cases "server_listens (zg_sys st)")
    case True
    note loop = start [unfolded startSocket_listens [OF True]]
    obtain n ms where "n < fuel" "turn_conn (server_ready (zg_sys st)) n < 0"
        "\<forall>i<n. 0 \<le> turn_conn (server_ready (zg_sys st)) i \<and> turn_text (server_ready (zg_sys st)) i = Inr (ms i)"
      using accept_loop_returns [OF loop] by metis
    from accept_loop_ends [OF this(3,2,1), of receive _ "zg_java st1"] loop
    show ?thesis by (auto simp: sockets_after_def)
  next
    case False
    then show ?thesis using startSocket_fails [OF False, of receive fuel sv "zg_java st1" F] start by auto
  qed
  then show ?thesis
    using st' by (simp add: server_nativeOpen_def server_nativeIsOpen_def server_getInstance_def server_isOpen_def)
qed

lemma failed_server_reports_open_witness:
  "\<exists>st'. server_nativeOpen (\<lambda>msg j. j) 1 \<lparr>zg_server = None, zg_client = None, zg_sys = demo_sockets\<lparr>so_bind := (\<lambda>_. - 1)\<rparr>,
      zg_java = ()\<rparr> = Inr (- 1, st') \<and>
    server_nativeOpen (\<lambda>msg j. j) 1 st' = Inr (0, st') \<and> server_nativeIsOpen st' = (True, st')"
proof -
  let ?st = "\<lparr>zg_server = None, zg_client = None, zg_sys = demo_sockets\<lparr>so_bind := (\<lambda>_. - 1)\<rparr>, zg_java = ()\<rparr>"
  have "\<exists>st' sv. server_nativeOpen (\<lambda>msg j. j) 1 ?st = Inr (- 1, st') \<and> zg_server st' = Some sv \<and> listenFd sv = 3"
    by (simp add: server_nativeOpen_def server_getInstance_def server_isOpen_def server_startSocket_def demo_sockets_def Let_def)
  then obtain st' sv where failed: "server_nativeOpen (\<lambda>msg j. j) 1 ?st = Inr (- 1, st')"
      and "zg_server st' = Some sv" "listenFd sv = 3" by blast
  then show ?thesis using failed_server_reports_open [OF failed, of "{}" "\<lambda>msg j. j" 1] by auto
qed

text \<open>The loop ends only with an \<open>accept\<close> that fails or a message that fills the array.\<close>

theorem startSocket_returns_iff:
  "(\<exists>fuel r. server_startSocket receive fuel sv s j = Inr r) \<longleftrightarrow>
    \<not> server_listens s \<or>
    (\<exists>n. turn_conn (server_ready s) n < 0 \<and>
       (\<forall>i<n. 0 \<le> turn_conn (server_ready s) i \<and> (\<exists>msg. turn_text (server_ready s) i = Inr msg)))"
  (is "_ \<longleftrightarrow> ?ends")
proof
  assume "\<exists>fuel r. server_startSocket receive fuel sv s j = Inr r"
  then show ?ends by (metis accept_loop_returns startSocket_listens)
next
  assume ?ends
  then show "\<exists>fuel r. server_startSocket receive fuel sv s j = Inr r"
  proof (cases "server_listens s")
    case True
    with \<open>?ends\<close> obtain n ms where last: "turn_conn (server_ready s) n < 0"
        and turns: "\<forall>i<n. 0 \<le> turn_conn (server_ready s) i \<and> turn_text (server_ready s) i = Inr (ms i)"
      by metis
    show ?thesis
      unfolding startSocket_listens [OF True] by (intro exI) (rule accept_loop_ends [OF turns last lessI])
  next
    case False
    then show ?thesis using startSocket_fails [OF False, of receive _ sv j "{}"] by blast
  qed
qed

section \<open>The client\<close>

text \<open>Until \<open>openSocket\<close> has been called, everything else the client is asked reads the descriptor that was never set.\<close>

lemma unopened_client_traps:
  assumes "zg_client st = None"
  shows "client_nativeIsOpen st = Inl Uninitialised" "client_nativeClose st = Inl Uninitialised"
    "client_nativeSendMessage (Some msg) st = Inl Uninitialised"
  using assms by (simp_all add: client_nativeIsOpen_def client_nativeClose_def client_nativeSendMessage_def client_getInstance_def
      client_isOpen_def client_closeSocket_def derefE_def Let_def)

text \<open>A client that is closed still counts as open, and a second call closes the same number again.\<close>

lemma closed_client_reports_open:
  assumes "client_nativeClose st = Inr st'" and "client_nativeIsOpen st = Inr (True, st)"
  shows "client_nativeIsOpen st' = Inr (True, st') \<and>
    (\<exists>st'' fd. client_nativeClose st' = Inr st'' \<and> 0 < fd \<and>
       so_trace (zg_sys st'') = so_trace (zg_sys st) @ concat (replicate 2 [CloseCall fd, UnlinkCall SERVICE_NAME]))"
proof -
  note defs = client_nativeIsOpen_def client_nativeClose_def client_getInstance_def client_isOpen_def client_closeSocket_def derefE_def
  obtain cl where cl: "zg_client st = Some cl" using assms(2) by (cases "zg_client st") (simp_all add: defs Let_def)
  obtain fd where fd: "clientFd cl = Some fd" "0 < fd" using assms(2) cl by (cases "clientFd cl") (simp_all add: defs)
  have "st' = st\<lparr>zg_sys := so_event (UnlinkCall SERVICE_NAME) (so_event (CloseCall fd) (zg_sys st))\<rparr>"
    using assms(1) cl fd by (simp add: defs Let_def)
  then show ?thesis using cl fd by (simp add: defs numeral_2_eq_2)
qed

section \<open>Names of processes\<close>

lemma length_decimal_nat: "length (decimal_nat n) \<le> Suc k \<longleftrightarrow> n < 10 ^ Suc k"
proof (induction k arbitrary: n)
  case 0
  have "decimal_nat m \<noteq> []" for m by (subst decimal_nat.simps) simp
  then show ?case by (subst decimal_nat.simps) (simp add: Suc_le_eq)
next
  case (Suc k)
  show ?case
  proof (cases "n < 10")
    case True
    then have "n < 10 ^ Suc (Suc k)" using less_le_trans [of n 10 "10 ^ Suc (Suc k)"] by simp
    then show ?thesis using True by (subst decimal_nat.simps) simp
  next
    case False
    then have "length (decimal_nat n) = Suc (length (decimal_nat (n div 10)))" by (subst decimal_nat.simps) simp
    then show ?thesis using Suc.IH [of "n div 10"] by (simp add: div_less_iff_less_mult mult.commute)
  qed
qed

text \<open>C40: the name of a new process fits its array of ten characters exactly for the numbers between \<open>-9999\<close> and \<open>99999\<close>;
  for every other number that Java passes, the copy runs past the array.\<close>

theorem child_name_fits:
  "nativeForkSystemServer 0 flag =
    (if flag = 0 then Inr (0, Some ''system_server'')
     else if - 10000 < flag \<and> flag < 100000 then Inr (0, Some (''app_'' @ decimal flag)) else Inl OutOfBounds)"
proof (cases "flag < 0")
  case True
  then show ?thesis using length_decimal_nat [of "nat (- flag)" 3]
    by (auto simp: nativeForkSystemServer_def child_name_def decimal_def Let_def)
next
  case False
  then show ?thesis using length_decimal_nat [of "nat flag" 4]
    by (auto simp: nativeForkSystemServer_def child_name_def decimal_def Let_def)
qed

end
