(* ===== verification/Spec2Isabelle.thy ===== *)
theory Spec2Isabelle
  imports Logger_Props Binder_Alloc_Props Binder_Props Binderfs_Props String_Objects RefBase_Client Parcel_Marshal Parcel_Account Looper_Poll Threads_Props
    IPC_Talk_Props IPC_Lifetime Service_Manager_Props Looper_Thread_Props Log_Client_Props Zygote_Props
begin

text \<open>
  A model of droid-kernal: two Linux drivers written anew after those of Android (\<open>common/drivers/staging\<close>), the
  C++ libraries above them (\<open>system/core\<close> and \<open>frameworks/native\<close>), and what makes them correct. Where the code
  does not keep a promise, the theorem says what it does instead. All paths are below \<open>src/\<close>.

  How the parts fit together. A process writes records to the log devices through \<open>liblog\<close> and reads them back through the log
  driver. It talks to other processes through the binder driver: \<open>ProcessState\<close> opens and maps the device, \<open>Parcel\<close>
  marshals the data of a call, \<open>IPCThreadState\<close> hands it over with \<open>ioctl\<close>. The service manager registers objects under names; clients
  reach it through a proxy, which is \<open>BpBinder\<close> behind the interfaces of \<open>IInterface.h\<close>. \<open>binderfs\<close> makes further binder devices.
  Objects are counted by \<open>RefBase\<close>, held in \<open>Vector\<close>s and \<open>KeyedVector\<close>s over \<open>SharedBuffer\<close>, named by \<open>String8\<close> and
  \<open>String16\<close> over the conversions of \<open>Unicode.cpp\<close>, and messages between the threads of a process go through a \<open>Looper\<close>,
  whose queue is a \<open>Vector\<close>.

  Conventions (\<open>Prelude\<close>). C integers are words (\<open>u8\<close> to \<open>u64\<close>) where wrap-around matters and \<open>int\<close> or \<open>nat\<close> elsewhere.
  Every access to memory is checked, and what C leaves undefined is a value of \<open>trap\<close>: \<open>'a chk\<close> is a trap or a result.
  Error numbers are results. Each handler of a driver and each function of a library is one step; a lock that is
  taken twice is the trap \<open>Deadlock\<close>. Logging is left out. Functions of the kernel and of libc that may fail are
  parameters or lists of outcomes in the state: \<open>kzalloc\<close>, \<open>misc_register\<close>, \<open>copy_to_user\<close>, \<open>malloc\<close>, \<open>epoll_wait\<close>.
\<close>

section \<open>Theories and sources\<close>

text \<open>
  The log driver, \<open>common/drivers/staging/log/logger.c\<close> and \<open>logger.h\<close>:
  \<^item> \<open>Logger_Entry\<close>: \<open>logger_entry\<close> and its bytes;
  \<^item> \<open>Logger\<close>: the ring (\<open>logger_log\<close>), its readers, and every function on them: \<open>logger_offset\<close>, \<open>get_next_entry\<close>,
    \<open>do_read_log_to_user\<close>, \<open>logger_read\<close>, \<open>is_between\<close>, \<open>logger_write_iter\<close>;
  \<^item> \<open>Logger_Device\<close>: \<open>create_log\<close>, \<open>logger_init\<close>, \<open>logger_exit\<close>, \<open>logger_open\<close>, \<open>logger_release\<close>;
  \<^item> \<open>Log_Client\<close>, \<open>Log_Client_Props\<close>: its user side, \<open>system/core/liblog/log.cpp\<close>; what the client expects of \<open>open\<close>, \<open>close\<close> and
    \<open>writev\<close> is a locale, interpreted on the files of the log driver, so that a message can be followed to its reader;
  \<^item> \<open>Logger_Ring\<close>, \<open>Logger_Fifo\<close>, \<open>Logger_Safety\<close>, \<open>Logger_Props\<close>: the ring as a queue of records (a locale interpreted on the
    driver's own read and write), absence of traps, and the properties.

  The binder driver, \<open>common/drivers/staging/binder\<close>:
  \<^item> \<open>Rb_Tree\<close>: the walk down a search tree and the link, with the locale of an ordered container; \<open>rb_insert_color\<close> and
    \<open>rb_erase\<close> are parameters;
  \<^item> \<open>Binder_Alloc\<close>, \<open>Binder_Alloc_Props\<close>: \<open>binder_alloc.c\<close>, the buffers of a mapping and the page shrinker;
  \<^item> \<open>Binder_Types\<close>, \<open>Binder_Core\<close>, \<open>Binder_Ioctl\<close>: \<open>binder_internal.h\<close> and \<open>binder.c\<close>, from the records of processes, threads, nodes
    and transactions to \<open>binder_ioctl\<close>, \<open>binder_open\<close>, \<open>binder_mmap\<close> and \<open>binder_init\<close>;
  \<^item> \<open>Binder_Inv\<close>, \<open>Binder_Steps\<close>: the invariant of the driver and that each call keeps it, as a step relation with
    reachable states; \<open>Binder_Demo\<close> a run of the driver for the witnesses; \<open>Binder_Props\<close> the properties;
  \<^item> \<open>Binderfs\<close>, \<open>Binderfs_Props\<close>: \<open>binderfs.c\<close>, devices, mount options and mounting.

  \<open>libutils\<close>, \<open>system/core/libutils\<close> and \<open>system/core/include/utils\<close>:
  \<^item> \<open>SharedBuffer\<close>: \<open>SharedBuffer.cpp\<close>, a heap of reference counted blocks with the outcomes of \<open>malloc\<close> in the state;
  \<^item> \<open>Unicode\<close>, \<open>Unicode_Strings\<close>, \<open>Unicode_Codec\<close>, \<open>Unicode_Search\<close>: \<open>Unicode.cpp\<close>;
  \<^item> \<open>Strings\<close>, \<open>Strings_Props\<close>, \<open>String_Objects\<close>: \<open>String8.cpp\<close>, \<open>String16.cpp\<close>;
  \<^item> \<open>Vector\<close>: \<open>VectorImpl.cpp\<close>, \<open>TypeHelpers.h\<close>, \<open>Vector.h\<close>, \<open>SortedVector.h\<close>, \<open>KeyedVector.h\<close>; \<open>Vector_Slots\<close>, \<open>Vector_Inv\<close>, \<open>Vector_Grow\<close>,
    \<open>Vector_Shrink\<close>: a vector as a list, and each operation refined to the one on lists; \<open>Vector_Props\<close>: the binary search,
    once for every strict weak order (a locale, interpreted on the keys of a \<open>KeyedVector\<close>); \<open>Vector_Memory\<close>: how
    often an operation calls \<open>malloc\<close>;
  \<^item> \<open>RefBase\<close>: \<open>RefBase.cpp\<close>, \<open>RefBase.h\<close>, \<open>StrongPointer.h\<close>; \<open>RefBase_Props\<close>: what each operation does to the counters;
    \<open>RefBase_Client\<close>: programs of pointer operations as a step relation with its invariant;
  \<^item> \<open>Threads\<close>: \<open>Threads.cpp\<close> and \<open>Thread.h\<close>; \<open>Threads_Machine\<close>: a \<open>Thread\<close> object with its clients and threads, whose steps
    interleave in any order, and its invariant; \<open>Threads_Props\<close>: the properties;
  \<^item> \<open>Looper\<close>: \<open>Looper.cpp\<close>, \<open>Looper.h\<close> and \<open>Timers.cpp\<close>; \<open>Looper_Props\<close>: the queue as a sorted list and \<open>sendMessageAtTime\<close>;
    \<open>Looper_Poll\<close>: polling refined to a loop on that list; \<open>Looper_Thread\<close>, \<open>Looper_Thread_Props\<close>: the looper of each thread in the
    heap of \<open>RefBase\<close>, with \<open>prepare\<close>, \<open>setForThread\<close> and the end of the thread.

  \<open>libbinder\<close>, \<open>frameworks/native/libs/binder\<close>:
  \<^item> \<open>Parcel\<close>: \<open>Parcel.cpp\<close>; \<open>Parcel_Props\<close>, \<open>Parcel_Marshal\<close>: the contents of a parcel as a list of bytes, what writing does to it;
    \<open>Parcel_Account\<close>: the accounting of memory, and the calls that break the promises;
  \<^item> \<open>Process_State\<close>, \<open>Process_State_Props\<close>: \<open>ProcessState.cpp\<close> and \<open>BpBinder::create\<close>; the system is the sequence of its answers,
    with a trace of the calls; the table of proxies is a \<open>Vector\<close>, the proxies are objects of \<open>RefBase\<close>;
  \<^item> \<open>IPC_Thread\<close>: \<open>IPCThreadState.cpp\<close> and \<open>BpBinder::transact\<close>; \<open>IPC_Thread_Props\<close>: the queue of commands in \<open>mOut\<close>, which the
    model of the driver decodes again; \<open>IPC_Talk_Props\<close>: the loop around \<open>ioctl\<close> and the outcome of a transaction; \<open>IPC_Lifetime\<close>:
    how long the objects of a process and of its threads live;
  \<^item> \<open>Service_Manager\<close>, \<open>Service_Manager_Props\<close>: \<open>Status.cpp\<close>, \<open>Binder.cpp\<close>, \<open>IInterface.h\<close>, \<open>IServiceManager.cpp\<close> (there and in
    \<open>frameworks/idl\<close>), \<open>cmds/servicemanager\<close>, and the media server of \<open>frameworks/av\<close>, which is a client of it.

  The zygote, \<open>frameworks/droid/core/zygote\<close>:
  \<^item> \<open>Zygote_Socket\<close>: \<open>ZygoteSocketServer.cpp\<close>, \<open>ZygoteSocketClient.cpp\<close> and the functions of \<open>jni\<close> above them, with the name of a
    new process; \<open>Zygote_Props\<close>: the life of the server and its connections, the way of a message, and the names that fit. Of Java only
    the receiver of messages occurs, as a function on a state of its own that makes no calls of the library.
\<close>

section \<open>What is shown\<close>

text \<open>
  Refinement: log reads and writes to a queue of records, insertion into and removal from vectors to lists,
  sending to and polling a looper to a sorted list, registrations of services to a map. Invariants and types: the threads of a binder
  process, the instance of \<open>binderfs\<close>, the counters of \<open>RefBase\<close>, the loopers and the \<open>IPCThreadState\<close>s of threads with the objects
  they refer to. Safety: the context manager node and the open log files never dangle, nor do pointers of \<open>RefBase\<close>; descriptors
  have one owner; and the calls after which something goes wrong: the second lookup of a proxy, the first call of
  \<open>defaultServiceManager\<close>, a message of more than two kilobytes to a small log. Round trips: log records, a log message from \<open>liblog\<close> to
  the reader of the device, queued transactions as the driver decodes them, UTF-8 and UTF-16, integers in a parcel.
  Liveness: objects without pointers are freed, due messages are delivered. Errors: each way for a transaction, a device creation or a
  mapping to fail, with what is undone, what \<open>transact\<close> reports for each answer of the driver, and a server that could not start.

  Beside the numbered properties the theories have theorems on less central behaviour: the shared empty string, removal from
  the front of a vector, three queued messages, the accounting of parcels, the search by user, remounting.

  Fuel. Loops that end are recursive functions with a measure. The others take fuel: the walks over log records (one
  turn for each 32 bytes to pass is enough; the search by user may not end), the command loop of
  \<open>binder_thread_write\<close> (given one turn for each byte of the buffer, and each turn takes four), the
  loops of the looper (one turn for each message is enough, unless handlers send due messages for ever), and the loop around \<open>ioctl\<close>
  in \<open>talkWithDriver\<close> (one unit for each call; one is enough unless \<open>errno\<close> holds an old \<open>EINTR\<close>, and a theorem of \<open>IPC_Talk_Props\<close>
  says when no amount is), and the loop over the connections of the zygote (\<open>startSocket_returns_iff\<close>).

  Not modelled: interleavings inside of a call of the drivers, because their locks make each handler one step; the memory
  order of the atomics of \<open>RefBase\<close>, whose operations are steps too; the locks themselves (\<open>Mutex.h\<close>, \<open>Condition.h\<close>); the glue
  for Java that only converts strings or asks the system for a number (\<open>runtime/jni\<close>, \<open>getpid\<close>, \<open>exit\<close>), and \<open>signalHandler\<close>; the loop at the end of the main program of the service manager, which is
  \<open>pollAll\<close>; death notifications, which the source only declares; the assignment of weak pointers that the compiler generates, which
  copies a pointer without counting it; the overflow of the 64-bit sums and differences of times in \<open>Looper.cpp\<close> and the cut of minor
  numbers by \<open>MKDEV\<close> in \<open>binderfs.c\<close>, which are unbounded integers here; the tests.
\<close>

end
